(* ===== verification/Prelude.thy ===== *)
theory Prelude
  imports
    Main
    "HOL-Library.Word"
    "HOL-Library.Sublist"
    "HOL-Library.List_Lexorder"
    "HOL-Library.Char_ord"
    "HOL-Library.Multiset"
begin

text \<open>
  Shared vocabulary of the development: the machine-integer types of the Rust sources and
  their checked arithmetic, results as sums (\<open>Inl\<close> is \<open>Err\<close>, \<open>Inr\<close> is \<open>Ok\<close>), byte strings
  and their splitting, and the generic facts about lists ordered lexicographically that the
  path and planner theories use. The collection \<open>checked_simps\<close> gathers the rewrite rules of
  the checked operations.
\<close>

section \<open>Types of the sources\<close>

type_synonym u8 = "8 word"
type_synonym u32 = "32 word"
type_synonym u64 = "64 word"

type_synonym ('e, 'a) result = "'e + 'a"

text \<open>
  A byte string: a \<open>char\<close> is one byte, so \<open>length\<close> is the \<open>len\<close> of a Rust \<open>str\<close>,
  \<open>OsStr\<close> or byte vector. \<open>usize\<close> counters that count elements of a vector are \<open>nat\<close>
  (a vector never holds more than \<open>isize::MAX\<close> elements, so they cannot wrap); measured
  \<open>u64\<close> quantities keep their width.
\<close>

type_synonym bytes = string

named_theorems checked_simps \<open>rewrite rules of the checked arithmetic\<close>

section \<open>Results\<close>

fun rbind :: "('e, 'a) result \<Rightarrow> ('a \<Rightarrow> ('e, 'b) result) \<Rightarrow> ('e, 'b) result" where
  "rbind (Inl e) f = Inl e"
| "rbind (Inr a) f = f a"

lemma rbind_Inr_iff [simp]: "rbind r f = Inr b \<longleftrightarrow> (\<exists>a. r = Inr a \<and> f a = Inr b)"
  by (cases r) auto

lemma rbind_Inl_iff: "rbind r f = Inl e \<longleftrightarrow> r = Inl e \<or> (\<exists>a. r = Inr a \<and> f a = Inl e)"
  by (cases r) auto

text \<open>The early return of a list of checks: \<open>for x in xs { check(x)?; }\<close>.\<close>

fun check_all :: "('a \<Rightarrow> ('e, unit) result) \<Rightarrow> 'a list \<Rightarrow> ('e, unit) result" where
  "check_all f [] = Inr ()"
| "check_all f (x # xs) = rbind (f x) (\<lambda>_. check_all f xs)"

lemma check_all_Inr [simp]: "check_all f xs = Inr () \<longleftrightarrow> (\<forall>x \<in> set xs. f x = Inr ())"
  by (induction xs) auto

lemma check_all_Inl: "check_all f xs = Inl e \<Longrightarrow> \<exists>x \<in> set xs. f x = Inl e"
  by (induction xs) (auto simp: rbind_Inl_iff)

text \<open>\<open>collect::<Result<Vec<_>, _>>\<close>: the values in order, or the first error.\<close>

fun traverse :: "('a \<Rightarrow> ('e, 'b) result) \<Rightarrow> 'a list \<Rightarrow> ('e, 'b list) result" where
  "traverse f [] = Inr []"
| "traverse f (x # xs) = rbind (f x) (\<lambda>y. rbind (traverse f xs) (\<lambda>ys. Inr (y # ys)))"

lemma traverse_Inr [simp]: "traverse f xs = Inr ys \<longleftrightarrow> list_all2 (\<lambda>x y. f x = Inr y) xs ys"
  by (induction xs arbitrary: ys) (auto simp: list_all2_Cons1)

definition ensure :: "bool \<Rightarrow> 'e \<Rightarrow> ('e, unit) result" where
  "ensure b e = (if b then Inr () else Inl e)"

lemma ensure_Inr [simp]: "ensure b e = Inr u \<longleftrightarrow> b"
  by (simp add: ensure_def)

lemma ensure_Inl [simp]: "ensure b e = Inl e' \<longleftrightarrow> \<not> b \<and> e' = e"
  by (auto simp: ensure_def)

definition ok_or :: "'e \<Rightarrow> 'a option \<Rightarrow> ('e, 'a) result" where
  "ok_or e x = (case x of None \<Rightarrow> Inl e | Some a \<Rightarrow> Inr a)"

lemma ok_or_Inr [simp]: "ok_or e x = Inr a \<longleftrightarrow> x = Some a"
  by (cases x) (auto simp: ok_or_def)

lemma ok_or_Inl [simp]: "ok_or e x = Inl e' \<longleftrightarrow> x = None \<and> e' = e"
  by (cases x) (auto simp: ok_or_def)

section \<open>Checked unsigned arithmetic\<close>

definition checked_add :: "u64 \<Rightarrow> u64 \<Rightarrow> u64 option" where
  "checked_add a b = (if unat a + unat b < 2 ^ 64 then Some (a + b) else None)"

definition checked_sub :: "u64 \<Rightarrow> u64 \<Rightarrow> u64 option" where
  "checked_sub a b = (if b \<le> a then Some (a - b) else None)"

lemma unat_u64_less: "unat (a :: u64) < 2 ^ 64"
  using unsigned_less [of a] by simp

text \<open>The same test within the width, for evaluation.\<close>

lemma checked_add_code [code]: "checked_add a b = (if a + b < a then None else Some (a + b))"
proof -
  have "unat a + unat b < 2 ^ 64 \<longleftrightarrow> a \<le> a + b"
    using no_plus_overflow_unat_size [of a b] by (simp add: word_size)
  then show ?thesis by (simp add: checked_add_def linorder_not_less)
qed

lemma checked_add_Some [checked_simps]:
  "checked_add a b = Some c \<longleftrightarrow> unat a + unat b < 2 ^ 64 \<and> c = a + b"
  by (auto simp: checked_add_def)

lemma checked_add_None [checked_simps]:
  "checked_add a b = None \<longleftrightarrow> 2 ^ 64 \<le> unat a + unat b"
  by (auto simp: checked_add_def)

lemma unat_checked_add: "checked_add a b = Some c \<Longrightarrow> unat c = unat a + unat b"
  by (auto simp: checked_add_def unat_word_ariths split: if_splits)

lemma checked_add_eq_iff:
  "checked_add a b = Some c \<longleftrightarrow> unat a + unat b = unat c"
proof
  assume "unat a + unat b = unat c"
  moreover from this have "unat a + unat b < 2 ^ 64" using unat_u64_less [of c] by simp
  moreover from this have "unat (a + b) = unat a + unat b"
    by (simp add: unat_word_ariths)
  ultimately show "checked_add a b = Some c"
    by (metis checked_add_def word_unat_eq_iff)
qed (simp add: unat_checked_add)

lemma checked_add_nat:
  "checked_add a b = (if unat a + unat b < 2 ^ 64 then Some (of_nat (unat a + unat b)) else None)"
  by (simp add: checked_add_def)

lemma checked_sub_Some [checked_simps]:
  "checked_sub a b = Some c \<longleftrightarrow> b \<le> a \<and> c = a - b"
  by (auto simp: checked_sub_def)

lemma checked_sub_eq_iff:
  "checked_sub a b = Some c \<longleftrightarrow> unat a = unat b + unat c"
proof -
  have "b \<le> a \<Longrightarrow> unat (a - b) = unat a - unat b"
    by (simp add: unat_sub)
  then show ?thesis
    by (auto simp: checked_sub_def word_le_nat_alt word_unat_eq_iff)
qed

text \<open>\<open>iter.try_fold(0u64, |sum, x| sum.checked_add(x))\<close>\<close>

fun checked_sum :: "u64 \<Rightarrow> u64 list \<Rightarrow> u64 option" where
  "checked_sum acc [] = Some acc"
| "checked_sum acc (x # xs) =
     (case checked_add acc x of None \<Rightarrow> None | Some s \<Rightarrow> checked_sum s xs)"

lemma checked_sum_iff:
  "checked_sum acc xs = Some s \<longleftrightarrow> unat acc + sum_list (map unat xs) = unat s"
proof (induction xs arbitrary: acc)
  case Nil
  then show ?case by (auto simp: word_unat_eq_iff)
next
  case (Cons x xs)
  show ?case
  proof (cases "checked_add acc x")
    case None
    then have "2 ^ 64 \<le> unat acc + unat x" by (simp add: checked_simps)
    then show ?thesis using None unat_u64_less [of s] by auto
  next
    case (Some t)
    then show ?thesis by (simp add: Cons.IH unat_checked_add add.assoc)
  qed
qed

section \<open>Byte strings\<close>

text \<open>\<open>split_on c s\<close> is \<open>s.split(c)\<close>: the pieces between occurrences of \<open>c\<close>.\<close>

fun split_on :: "char \<Rightarrow> bytes \<Rightarrow> bytes list" where
  "split_on c [] = [[]]"
| "split_on c (x # xs) =
     (if x = c then [] # split_on c xs
      else (case split_on c xs of [] \<Rightarrow> [[x]] | p # ps \<Rightarrow> (x # p) # ps))"

fun join_with :: "char \<Rightarrow> bytes list \<Rightarrow> bytes" where
  "join_with c [] = []"
| "join_with c [p] = p"
| "join_with c (p # q # ps) = p @ c # join_with c (q # ps)"

lemma split_on_nonempty [simp]: "split_on c s \<noteq> []"
  by (cases s) (auto split: list.splits)

lemma split_on_no_sep: "p \<in> set (split_on c s) \<Longrightarrow> c \<notin> set p"
proof (induction s arbitrary: p)
  case Nil
  then show ?case by simp
next
  case (Cons x xs)
  obtain q qs where q: "split_on c xs = q # qs"
    by (cases "split_on c xs") auto
  with Cons show ?case by (auto split: if_splits)
qed

lemma split_on_append_sep: "split_on c (xs @ c # ys) = split_on c xs @ split_on c ys"
proof (induction xs)
  case Nil
  then show ?case by simp
next
  case (Cons x xs)
  obtain q qs where q: "split_on c xs = q # qs"
    by (cases "split_on c xs") auto
  with Cons show ?case by simp
qed

lemma split_on_plain: "c \<notin> set p \<Longrightarrow> split_on c p = [p]"
  by (induction p) auto

lemma split_on_join_with:
  "ps \<noteq> [] \<Longrightarrow> \<forall>p \<in> set ps. c \<notin> set p \<Longrightarrow> split_on c (join_with c ps) = ps"
proof (induction c ps rule: join_with.induct)
  case (3 c p q ps)
  then show ?case
    by (simp add: split_on_append_sep split_on_plain)
qed (auto simp: split_on_plain)

lemma join_with_split_on: "join_with c (split_on c s) = s"
proof (induction s)
  case Nil
  then show ?case by simp
next
  case (Cons x xs)
  obtain q qs where q: "split_on c xs = q # qs"
    by (cases "split_on c xs") auto
  with Cons show ?case by (cases qs) auto
qed

definition is_ascii_digit :: "char \<Rightarrow> bool" where
  "is_ascii_digit c \<longleftrightarrow> CHR ''0'' \<le> c \<and> c \<le> CHR ''9''"

definition is_ascii_hexdigit :: "char \<Rightarrow> bool" where
  "is_ascii_hexdigit c \<longleftrightarrow> is_ascii_digit c \<or> (CHR ''a'' \<le> c \<and> c \<le> CHR ''f'')
     \<or> (CHR ''A'' \<le> c \<and> c \<le> CHR ''F'')"

definition is_ascii_alphanumeric :: "char \<Rightarrow> bool" where
  "is_ascii_alphanumeric c \<longleftrightarrow> is_ascii_digit c \<or> (CHR ''a'' \<le> c \<and> c \<le> CHR ''z'')
     \<or> (CHR ''A'' \<le> c \<and> c \<le> CHR ''Z'')"

section \<open>Lists in lexicographic order\<close>

lemma prefix_le_lex: "prefix (a :: 'a :: linorder list) b \<Longrightarrow> a \<le> b"
proof (induction a arbitrary: b)
  case Nil
  then show ?case by simp
next
  case (Cons x a)
  then show ?case by (cases b) auto
qed

text \<open>The lists that extend \<open>a\<close> form an interval of the lexicographic order.\<close>

lemma prefix_between_lex:
  "prefix (a :: 'a :: linorder list) c \<Longrightarrow> a \<le> b \<Longrightarrow> b \<le> c \<Longrightarrow> prefix a b"
proof (induction a arbitrary: b c)
  case Nil
  then show ?case by simp
next
  case (Cons x a)
  from Cons.prems(1) obtain c' where c: "c = x # c'" and pc: "prefix a c'"
    by (cases c) auto
  from Cons.prems(2) obtain y b' where b: "b = y # b'"
    by (cases b) auto
  from Cons.prems(2,3) b c have "y = x" and "a \<le> b'" and "b' \<le> c'"
    by (auto simp: less_le)
  with Cons.IH [OF pc] b show ?case by simp
qed

definition comparable :: "'a list \<Rightarrow> 'a list \<Rightarrow> bool" where
  "comparable a b \<longleftrightarrow> prefix a b \<or> prefix b a"

lemma comparable_le_prefix:
  "(a :: 'a :: linorder list) \<le> b \<Longrightarrow> comparable a b \<Longrightarrow> prefix a b"
  unfolding comparable_def using prefix_le_lex by fastforce

text \<open>
  A sorted list without a comparable adjacent pair has no comparable pair at all.
\<close>

lemma sorted_adjacent_incomparable:
  assumes "sorted (xs :: 'a :: linorder list list)"
    and "\<And>i. Suc i < length xs \<Longrightarrow> \<not> comparable (xs ! i) (xs ! Suc i)"
    and "i < j" and "j < length xs"
  shows "\<not> comparable (xs ! i) (xs ! j)"
proof
  assume "comparable (xs ! i) (xs ! j)"
  moreover have ij: "xs ! i \<le> xs ! j"
    using assms by (simp add: sorted_iff_nth_mono)
  ultimately have "prefix (xs ! i) (xs ! j)"
    by (rule comparable_le_prefix [rotated])
  moreover have "xs ! i \<le> xs ! Suc i" and "xs ! Suc i \<le> xs ! j"
    using assms by (auto simp: sorted_iff_nth_mono)
  ultimately have "prefix (xs ! i) (xs ! Suc i)"
    by (rule prefix_between_lex)
  then show False
    using assms(2) [of i] assms(3,4) by (simp add: comparable_def)
qed

section \<open>Search and update\<close>

lemma find_Some_mem: "find P xs = Some x \<Longrightarrow> x \<in> set xs \<and> P x"
  by (auto simp: find_Some_iff)

lemma find_None_iff': "find P xs = None \<longleftrightarrow> (\<forall>x \<in> set xs. \<not> P x)"
  by (auto simp: find_None_iff)

lemma map_fst_zip_app:
  "length xs = length ys \<Longrightarrow> map (\<lambda>(x, y). f x) (zip xs ys) = map f xs"
  by (induction xs ys rule: list_induct2) auto

lemma map_snd_zip_app:
  "length xs = length ys \<Longrightarrow> map (\<lambda>(x, y). f y) (zip xs ys) = map f ys"
  by (induction xs ys rule: list_induct2) auto

end
