(* ===== verification/Paths.thy ===== *)
theory Paths
  imports Prelude
begin

text \<open>
  The part of \<open>std::path\<close> the engine uses, on Unix (\<open>/\<close> is the only separator, there are no
  prefixes). A path is its raw byte string. Rust compares, hashes and orders paths by their
  \<open>components\<close>, so \<open>/a//b\<close>, \<open>/a/./b\<close> and \<open>/a/b/\<close> are one path: equality of paths in the
  sources is \<open>path_eq\<close> here, a set or map keyed by paths is keyed by \<open>components\<close>, and
  \<open>canon\<close> picks one raw string per class.
\<close>

type_synonym path = bytes

section \<open>Components\<close>

datatype component = RootDir | CurDir | ParentDir | Normal bytes

text \<open>The derived order of \<open>std::path::Component\<close> follows the declaration order.\<close>

fun component_rank :: "component \<Rightarrow> nat" where
  "component_rank RootDir = 0"
| "component_rank CurDir = 1"
| "component_rank ParentDir = 2"
| "component_rank (Normal s) = 3"

fun component_name :: "component \<Rightarrow> bytes" where
  "component_name (Normal s) = s"
| "component_name RootDir = []"
| "component_name CurDir = []"
| "component_name ParentDir = []"

instantiation component :: linorder
begin

definition less_eq_component :: "component \<Rightarrow> component \<Rightarrow> bool" where
  "a \<le> b \<longleftrightarrow> component_rank a < component_rank b
     \<or> (component_rank a = component_rank b \<and> component_name a \<le> component_name b)"

definition less_component :: "component \<Rightarrow> component \<Rightarrow> bool" where
  "(a :: component) < b \<longleftrightarrow> a \<le> b \<and> \<not> b \<le> a"

instance
proof
  fix x y z :: component
  show "(x < y) = (x \<le> y \<and> \<not> y \<le> x)"
    by (simp add: less_component_def)
  show "x \<le> x"
    by (simp add: less_eq_component_def)
  show "x \<le> y \<Longrightarrow> y \<le> z \<Longrightarrow> x \<le> z"
    by (auto simp: less_eq_component_def intro: order_trans)
  show "x \<le> y \<Longrightarrow> y \<le> x \<Longrightarrow> x = y"
    by (cases x; cases y) (auto simp: less_eq_component_def)
  show "x \<le> y \<or> y \<le> x"
    by (cases x; cases y) (auto simp: less_eq_component_def)
qed

end

text \<open>One piece between separators: empty pieces and \<open>.\<close> vanish.\<close>

definition piece :: "bytes \<Rightarrow> component list" where
  "piece s = (if s = [] \<or> s = ''.'' then [] else if s = ''..'' then [ParentDir] else [Normal s])"

definition is_absolute :: "path \<Rightarrow> bool" where
  "is_absolute p \<longleftrightarrow> (case p of [] \<Rightarrow> False | c # _ \<Rightarrow> c = CHR ''/'')"

text \<open>
  \<open>Path::components\<close>. A leading \<open>.\<close> of a relative path is kept as \<open>CurDir\<close>.
\<close>

definition components :: "path \<Rightarrow> component list" where
  "components p =
     (let ps = split_on CHR ''/'' p in
      if is_absolute p then RootDir # concat (map piece ps)
      else if hd ps = ''.'' then CurDir # concat (map piece (tl ps))
      else concat (map piece ps))"

definition path_eq :: "path \<Rightarrow> path \<Rightarrow> bool" where
  "path_eq p q \<longleftrightarrow> components p = components q"

definition starts_with :: "path \<Rightarrow> path \<Rightarrow> bool" where
  "starts_with p base \<longleftrightarrow> prefix (components base) (components p)"

definition path_cmp_le :: "path \<Rightarrow> path \<Rightarrow> bool" where
  "path_cmp_le p q \<longleftrightarrow> components p \<le> components q"

section \<open>Rendering components\<close>

fun component_bytes :: "component \<Rightarrow> bytes" where
  "component_bytes RootDir = []"
| "component_bytes CurDir = ''.''"
| "component_bytes ParentDir = ''..''"
| "component_bytes (Normal s) = s"

fun render :: "component list \<Rightarrow> path" where
  "render (RootDir # cs) = CHR ''/'' # join_with CHR ''/'' (map component_bytes cs)"
| "render cs = join_with CHR ''/'' (map component_bytes cs)"

definition canon :: "path \<Rightarrow> path" where
  "canon p = render (components p)"

text \<open>A well-formed name, and the component lists \<open>components\<close> produces.\<close>

definition plain_name :: "bytes \<Rightarrow> bool" where
  "plain_name s \<longleftrightarrow> s \<noteq> [] \<and> s \<noteq> ''.'' \<and> s \<noteq> ''..'' \<and> CHR ''/'' \<notin> set s"

fun inner_component :: "component \<Rightarrow> bool" where
  "inner_component ParentDir = True"
| "inner_component (Normal s) = plain_name s"
| "inner_component RootDir = False"
| "inner_component CurDir = False"

fun wf_components :: "component list \<Rightarrow> bool" where
  "wf_components [] = True"
| "wf_components (c # cs) =
     ((c = RootDir \<or> c = CurDir \<or> inner_component c) \<and> list_all inner_component cs)"

lemma piece_inner: "CHR ''/'' \<notin> set s \<Longrightarrow> c \<in> set (piece s) \<Longrightarrow> inner_component c"
  by (auto simp: piece_def plain_name_def split: if_splits)

lemma pieces_inner:
  "\<forall>s \<in> set ps. CHR ''/'' \<notin> set s \<Longrightarrow> list_all inner_component (concat (map piece ps))"
  by (auto simp: list_all_iff intro: piece_inner)

lemma wf_components_inner: "list_all inner_component cs \<Longrightarrow> wf_components cs"
  by (cases cs) auto

lemma wf_components_components: "wf_components (components p)"
proof -
  let ?ps = "split_on CHR ''/'' p"
  have no: "\<forall>s \<in> set ?ps. CHR ''/'' \<notin> set s"
    by (auto dest: split_on_no_sep)
  moreover from this have "\<forall>s \<in> set (tl ?ps). CHR ''/'' \<notin> set s"
    by (meson list.set_sel(2) split_on_nonempty)
  ultimately show ?thesis
    by (auto simp: components_def Let_def pieces_inner wf_components_inner)
qed

lemma inner_bytes:
  "inner_component c \<Longrightarrow> component_bytes c \<noteq> [] \<and> component_bytes c \<noteq> ''.''
     \<and> CHR ''/'' \<notin> set (component_bytes c) \<and> piece (component_bytes c) = [c]"
  by (cases c) (auto simp: plain_name_def piece_def)

lemma inner_pieces:
  "list_all inner_component cs \<Longrightarrow> concat (map piece (map component_bytes cs)) = cs"
  by (induction cs) (auto simp: inner_bytes)

lemma split_render_inner:
  "list_all inner_component cs \<Longrightarrow> cs \<noteq> [] \<Longrightarrow>
     split_on CHR ''/'' (join_with CHR ''/'' (map component_bytes cs)) = map component_bytes cs"
  by (rule split_on_join_with) (auto simp: list_all_iff inner_bytes)

lemma piece_Nil [simp]: "piece [] = []"
  by (simp add: piece_def)

lemma join_with_hd:
  "ps \<noteq> [] \<Longrightarrow> hd ps \<noteq> [] \<Longrightarrow> \<exists>r. join_with c ps = hd (hd ps) # r"
  by (induction c ps rule: join_with.induct) (auto simp: neq_Nil_conv)

lemma join_inner_relative:
  assumes "ps \<noteq> []" and "hd ps \<noteq> []" and "CHR ''/'' \<notin> set (hd ps)"
  shows "\<not> is_absolute (join_with CHR ''/'' ps)"
proof -
  obtain r where "join_with CHR ''/'' ps = hd (hd ps) # r"
    using join_with_hd assms by blast
  moreover have "hd (hd ps) \<noteq> CHR ''/''"
    using assms by (metis list.set_sel(1))
  ultimately show ?thesis by (simp add: is_absolute_def)
qed

lemma components_render_absolute:
  assumes "list_all inner_component cs"
  shows "components (render (RootDir # cs)) = RootDir # cs"
proof (cases "cs = []")
  case True
  then show ?thesis by (simp add: components_def is_absolute_def)
next
  case False
  then show ?thesis
    using split_render_inner [OF assms] inner_pieces [OF assms]
    by (simp add: components_def is_absolute_def Let_def)
qed

lemma components_render_inner:
  assumes "list_all inner_component cs"
  shows "components (join_with CHR ''/'' (map component_bytes cs)) = cs"
proof (cases cs)
  case Nil
  then show ?thesis by (simp add: components_def is_absolute_def)
next
  case (Cons d ds)
  then have d: "inner_component d" using assms by simp
  have "\<not> is_absolute (join_with CHR ''/'' (map component_bytes cs))"
    by (rule join_inner_relative) (use Cons d in \<open>auto simp: inner_bytes\<close>)
  moreover have "hd (map component_bytes cs) \<noteq> ''.''"
    using Cons d by (simp add: inner_bytes)
  ultimately show ?thesis
    using split_render_inner [OF assms] inner_pieces [OF assms] Cons
    by (simp add: components_def Let_def)
qed

lemma components_render_curdir:
  assumes "list_all inner_component cs"
  shows "components (join_with CHR ''/'' (map component_bytes (CurDir # cs))) = CurDir # cs"
proof -
  let ?s = "join_with CHR ''/'' (map component_bytes (CurDir # cs))"
  have "split_on CHR ''/'' ?s = map component_bytes (CurDir # cs)"
    by (rule split_on_join_with) (use assms in \<open>auto simp: list_all_iff inner_bytes\<close>)
  moreover have "\<not> is_absolute ?s"
    by (rule join_inner_relative) auto
  ultimately show ?thesis
    using inner_pieces [OF assms] by (simp add: components_def Let_def)
qed

text \<open>Rendering and reparsing gives the components back.\<close>

lemma components_render: "wf_components cs \<Longrightarrow> components (render cs) = cs"
proof (cases cs)
  case Nil
  then show ?thesis by (simp add: components_def is_absolute_def)
next
  case (Cons c ds)
  assume wf: "wf_components cs"
  with Cons have ds: "list_all inner_component ds" by simp
  show ?thesis
  proof (cases c)
    case RootDir
    then show ?thesis using Cons ds components_render_absolute by simp
  next
    case CurDir
    then show ?thesis using Cons ds components_render_curdir by simp
  next
    case ParentDir
    then show ?thesis using Cons ds components_render_inner [of cs] by simp
  next
    case (Normal s)
    then show ?thesis using Cons wf components_render_inner [of cs] by simp
  qed
qed

lemma components_canon [simp]: "components (canon p) = components p"
  by (simp add: canon_def components_render wf_components_components)

lemma canon_eq_iff: "canon p = canon q \<longleftrightarrow> path_eq p q"
  unfolding path_eq_def by (metis canon_def components_canon)

lemma path_eq_refl [simp]: "path_eq p p"
  by (simp add: path_eq_def)

lemma path_eq_canon [simp]: "path_eq (canon p) p" "path_eq p (canon p)"
  by (simp_all add: path_eq_def)

section \<open>Operations on paths\<close>

text \<open>\<open>Path::parent\<close>, up to the equality of paths.\<close>

definition parent :: "path \<Rightarrow> path option" where
  "parent p =
     (case rev (components p) of
        [] \<Rightarrow> None
      | RootDir # _ \<Rightarrow> None
      | _ # cs \<Rightarrow> Some (render (rev cs)))"

definition file_name :: "path \<Rightarrow> bytes option" where
  "file_name p =
     (case rev (components p) of
        Normal s # _ \<Rightarrow> Some s
      | _ \<Rightarrow> None)"

text \<open>\<open>PathBuf::push\<close>: an absolute argument replaces the path, otherwise a separator is
  added when the path does not end in one.\<close>

definition path_join :: "path \<Rightarrow> path \<Rightarrow> path" where
  "path_join p q =
     (if is_absolute q then q
      else if p = [] \<or> last p = CHR ''/'' then p @ q
      else p @ CHR ''/'' # q)"

definition has_parent_dir :: "path \<Rightarrow> bool" where
  "has_parent_dir p \<longleftrightarrow> ParentDir \<in> set (components p)"

definition contains_nul :: "path \<Rightarrow> bool" where
  "contains_nul p \<longleftrightarrow> CHR 0x00 \<in> set p"

lemma starts_with_refl [simp]: "starts_with p p"
  by (simp add: starts_with_def)

lemma starts_with_trans: "starts_with p q \<Longrightarrow> starts_with q r \<Longrightarrow> starts_with p r"
  unfolding starts_with_def by (rule prefix_order.trans)

lemma starts_with_antisym: "starts_with p q \<Longrightarrow> starts_with q p \<Longrightarrow> path_eq p q"
  unfolding starts_with_def path_eq_def by (rule prefix_order.antisym [rotated])

lemma is_absolute_components: "is_absolute p \<longleftrightarrow> (\<exists>cs. components p = RootDir # cs)"
proof
  assume root: "\<exists>cs. components p = RootDir # cs"
  have no_root: "RootDir \<notin> set (concat (map piece ps))" for ps
    by (auto simp: piece_def split: if_splits)
  show "is_absolute p"
  proof (rule ccontr)
    assume "\<not> is_absolute p"
    then have "components p = CurDir # concat (map piece (tl (split_on CHR ''/'' p)))
        \<or> components p = concat (map piece (split_on CHR ''/'' p))"
      unfolding components_def Let_def by (simp only: if_False) simp
    then show False
      using root no_root [of "split_on CHR ''/'' p"] by (metis component.distinct(1) list.inject list.set_intros(1))
  qed
qed (simp add: components_def Let_def)

lemma parent_components:
  "parent p = Some q \<Longrightarrow> \<exists>c. components p = components q @ [c] \<and> c \<noteq> RootDir"
proof -
  assume p: "parent p = Some q"
  obtain c cs where rev: "rev (components p) = c # cs"
    using p by (cases "rev (components p)") (auto simp: parent_def)
  then have eq: "components p = rev cs @ [c]" by (metis rev.simps(2) rev_rev_ident)
  from p rev have c: "c \<noteq> RootDir" and q: "q = render (rev cs)"
    by (auto simp: parent_def split: component.splits)
  have "wf_components (rev cs)"
    using wf_components_components [of p] unfolding eq
    by (cases "rev cs") auto
  then show ?thesis using eq c q by (auto simp: components_render)
qed

lemma parent_starts_with: "parent p = Some q \<Longrightarrow> starts_with p q"
  unfolding starts_with_def using parent_components by fastforce

lemma parent_None: "parent p = None \<longleftrightarrow> components p = [] \<or> (\<exists>cs. components p = cs @ [RootDir])"
  by (auto simp: parent_def rev_eq_Cons_iff split: list.splits component.splits)

lemma parent_length: "parent p = Some q \<Longrightarrow> length (components q) < length (components p)"
  using parent_components by fastforce

lemma starts_with_parent:
  "parent p = Some q \<Longrightarrow> starts_with p r \<Longrightarrow> \<not> path_eq p r \<Longrightarrow> starts_with q r"
  using parent_components [of p q]
  by (auto simp: starts_with_def path_eq_def prefix_snoc)

section \<open>Joining\<close>

lemma components_append_sep:
  assumes "d \<noteq> []"
  shows "components (d @ CHR ''/'' # s) = components d @ concat (map piece (split_on CHR ''/'' s))"
proof -
  have abs: "is_absolute (d @ CHR ''/'' # s) = is_absolute d"
    using assms by (cases d) (auto simp: is_absolute_def)
  have sp: "split_on CHR ''/'' (d @ CHR ''/'' # s) = split_on CHR ''/'' d @ split_on CHR ''/'' s"
    by (rule split_on_append_sep)
  obtain q qs where q: "split_on CHR ''/'' d = q # qs" by (cases "split_on CHR ''/'' d") auto
  show ?thesis
    by (cases "is_absolute d") (auto simp: components_def Let_def abs sp q)
qed

lemma components_root_sep:
  "components (CHR ''/'' # s) = RootDir # concat (map piece (split_on CHR ''/'' s))"
  by (simp add: components_def Let_def is_absolute_def)

lemma components_plain: "plain_name s \<Longrightarrow> components s = [Normal s]"
  by (cases s) (auto simp: components_def Let_def plain_name_def is_absolute_def piece_def split_on_plain)

lemma pieces_plain: "plain_name s \<Longrightarrow> concat (map piece (split_on CHR ''/'' s)) = [Normal s]"
  by (auto simp: plain_name_def split_on_plain piece_def)

lemma components_join [simp]:
  assumes "plain_name s"
  shows "components (path_join d s) = components d @ [Normal s]"
proof -
  have rel: "\<not> is_absolute s"
    using assms by (cases s) (auto simp: plain_name_def is_absolute_def)
  show ?thesis
  proof (cases "d = []")
    case True
    then show ?thesis
      using rel assms by (simp add: path_join_def components_plain) (simp add: components_def is_absolute_def piece_def)
  next
    case False
    show ?thesis
    proof (cases "last d = CHR ''/''")
      case True
      then obtain d' where d: "d = d' @ [CHR ''/'']"
        using False by (metis append_butlast_last_id)
      have "components (d' @ CHR ''/'' # s) = components (d' @ [CHR ''/'']) @ [Normal s]"
        using components_append_sep [of d' s] components_append_sep [of d' "[]"] pieces_plain [OF assms]
          components_root_sep [of s] components_root_sep [of "[]"]
        by (cases "d' = []") (simp_all add: piece_def)
      then show ?thesis using rel d True by (simp add: path_join_def)
    next
      case last: False
      then show ?thesis
        using rel False components_append_sep [OF False, of s] pieces_plain [OF assms]
        by (simp add: path_join_def)
    qed
  qed
qed

lemma file_name_parent:
  assumes "parent p = Some dir" and "file_name p = Some s"
  shows "components p = components dir @ [Normal s]"
  using parent_components [OF assms(1)] assms(2) by (auto simp: file_name_def split: component.splits)

lemma file_name_plain: "file_name p = Some s \<Longrightarrow> plain_name s"
proof -
  assume "file_name p = Some s"
  then have "Normal s \<in> set (components p)"
    by (auto simp: file_name_def rev_eq_Cons_iff split: list.splits component.splits)
  moreover have "c \<in> set cs \<Longrightarrow> wf_components cs \<Longrightarrow> c \<noteq> RootDir \<Longrightarrow> c \<noteq> CurDir \<Longrightarrow> inner_component c" for c cs
    by (cases cs) (auto simp: list_all_iff)
  ultimately show ?thesis
    using wf_components_components [of p] by fastforce
qed

end
