(* ===== verification/Model.thy ===== *)
theory Model
  imports Paths
begin

text \<open>
  The data model of \<open>crates/engine/src/model.rs\<close>: reason codes, probe snapshots, scopes,
  observations, plans and approvals. Fields carry a short prefix of their struct, since
  Isabelle record fields are global. Times are nanoseconds relative to the Unix epoch, in the
  range of a Unix \<open>SystemTime\<close> (a signed 64-bit count of seconds); durations are nanoseconds.
  The \<open>cfg(unix)\<close> branch of the platform-dependent code is modelled.
\<close>

section \<open>Reason codes and errors\<close>

datatype reason_code =
    InvalidScope
  | InvalidPath
  | OutsideScope
  | Protected
  | Excluded
  | UnknownResource
  | DuplicateResource
  | DuplicateSelection
  | OverlappingSelection
  | DuplicateIdentity
  | EmptyPlan
  | InvalidLifetime
  | ClockInvalid
  | IdentifierUnavailable
  | IdentifierCollision
  | InvalidVersions
  | UnknownPlan
  | ExpiredPlan
  | StalePlan
  | PlanMismatch
  | ApprovalMismatch
  | InvalidPlanState
  | IdentityUnknown
  | ProtectionUnknown
  | BoundaryUnverified
  | UnsupportedResource
  | IncompleteObservation
  | UnsupportedCapability
  | NotAuthorized
  | TemporarilyUnavailable
  | UnknownCapability
  | OwnerRunning
  | OwnerUnknown
  | ResourceChanged
  | ProbeFailed
  | Cancelled
  | SizeOverflow
  | InvalidTransition
  | OperationFailed
  | OutcomeUnknown

fun reason_code_as_str :: "reason_code \<Rightarrow> bytes" where
  "reason_code_as_str InvalidScope = ''invalid_scope''"
| "reason_code_as_str InvalidPath = ''invalid_path''"
| "reason_code_as_str OutsideScope = ''outside_scope''"
| "reason_code_as_str Protected = ''protected''"
| "reason_code_as_str Excluded = ''excluded''"
| "reason_code_as_str UnknownResource = ''unknown_resource''"
| "reason_code_as_str DuplicateResource = ''duplicate_resource''"
| "reason_code_as_str DuplicateSelection = ''duplicate_selection''"
| "reason_code_as_str OverlappingSelection = ''overlapping_selection''"
| "reason_code_as_str DuplicateIdentity = ''duplicate_identity''"
| "reason_code_as_str EmptyPlan = ''empty_plan''"
| "reason_code_as_str InvalidLifetime = ''invalid_lifetime''"
| "reason_code_as_str ClockInvalid = ''clock_invalid''"
| "reason_code_as_str IdentifierUnavailable = ''identifier_unavailable''"
| "reason_code_as_str IdentifierCollision = ''identifier_collision''"
| "reason_code_as_str InvalidVersions = ''invalid_versions''"
| "reason_code_as_str UnknownPlan = ''unknown_plan''"
| "reason_code_as_str ExpiredPlan = ''expired_plan''"
| "reason_code_as_str StalePlan = ''stale_plan''"
| "reason_code_as_str PlanMismatch = ''plan_mismatch''"
| "reason_code_as_str ApprovalMismatch = ''approval_mismatch''"
| "reason_code_as_str InvalidPlanState = ''invalid_plan_state''"
| "reason_code_as_str IdentityUnknown = ''identity_unknown''"
| "reason_code_as_str ProtectionUnknown = ''protection_unknown''"
| "reason_code_as_str BoundaryUnverified = ''boundary_unverified''"
| "reason_code_as_str UnsupportedResource = ''unsupported_resource''"
| "reason_code_as_str IncompleteObservation = ''incomplete_observation''"
| "reason_code_as_str UnsupportedCapability = ''unsupported_capability''"
| "reason_code_as_str NotAuthorized = ''not_authorized''"
| "reason_code_as_str TemporarilyUnavailable = ''temporarily_unavailable''"
| "reason_code_as_str UnknownCapability = ''unknown_capability''"
| "reason_code_as_str OwnerRunning = ''owner_running''"
| "reason_code_as_str OwnerUnknown = ''owner_unknown''"
| "reason_code_as_str ResourceChanged = ''resource_changed''"
| "reason_code_as_str ProbeFailed = ''probe_failed''"
| "reason_code_as_str Cancelled = ''cancelled''"
| "reason_code_as_str SizeOverflow = ''size_overflow''"
| "reason_code_as_str InvalidTransition = ''invalid_transition''"
| "reason_code_as_str OperationFailed = ''operation_failed''"
| "reason_code_as_str OutcomeUnknown = ''outcome_unknown''"

record resource_id =
  rid_session :: u64
  rid_value :: u64

record plan_id =
  pid_session :: u64
  pid_value :: u64

datatype probe_error = NotFound | PermissionDenied | Unavailable | Other bytes

record error =
  err_code :: reason_code
  err_resource :: "resource_id option"
  err_probe_error :: "probe_error option"

definition error_new :: "reason_code \<Rightarrow> error" where
  "error_new c = \<lparr>err_code = c, err_resource = None, err_probe_error = None\<rparr>"

definition error_at :: "reason_code \<Rightarrow> resource_id \<Rightarrow> error" where
  "error_at c r = (error_new c)\<lparr>err_resource := Some r\<rparr>"

definition error_probe :: "probe_error \<Rightarrow> resource_id option \<Rightarrow> error" where
  "error_probe e r = \<lparr>err_code = ProbeFailed, err_resource = r, err_probe_error = Some e\<rparr>"

text \<open>
  The \<open>Debug\<close> text of a string depends on the Unicode tables of the standard library beyond
  ASCII, so the string formatter is an argument \<open>dbg\<close>; \<open>ascii_debug\<close> is what it does on the
  printable ASCII strings.
\<close>

fun probe_error_display :: "(bytes \<Rightarrow> bytes) \<Rightarrow> probe_error \<Rightarrow> bytes" where
  "probe_error_display dbg NotFound = ''NotFound''"
| "probe_error_display dbg PermissionDenied = ''PermissionDenied''"
| "probe_error_display dbg Unavailable = ''Unavailable''"
| "probe_error_display dbg (Other s) = ''Other('' @ dbg s @ '')''"

definition error_display :: "(bytes \<Rightarrow> bytes) \<Rightarrow> error \<Rightarrow> bytes" where
  "error_display dbg e = reason_code_as_str (err_code e) @
     (case err_probe_error e of None \<Rightarrow> [] | Some p \<Rightarrow> '': '' @ probe_error_display dbg p)"

definition ascii_debug :: "bytes \<Rightarrow> bytes" where
  "ascii_debug s = CHR 0x22 # concat (map (\<lambda>c. if c = CHR 0x22 \<or> c = CHR 0x5C then [CHR 0x5C, c] else [c]) s)
     @ [CHR 0x22]"

section \<open>Snapshots supplied by a probe\<close>

datatype capability = CapAvailable | CapUnsupported | CapNotAuthorized
  | CapTemporarilyUnavailable | CapUnknown

datatype owner_state = NotApplicable | OwnerStopped | OwnerIsRunning | OwnerStateUnknown

datatype boundary = BoundaryVerified | BoundaryOutsideScope | BoundaryTraversesLink | BoundaryUnknown

datatype protection = ProtClear | ProtProtected | ProtUnknown

datatype resource_kind = KFile | KDirectory | KLink | KOther

datatype file_identity = Unix u64 u64 | Windows u64 "u8 list"

type_synonym system_time = int
type_synonym duration = nat

definition max_system_time :: system_time where
  "max_system_time = 2 ^ 63 * 10 ^ 9"

text \<open>\<open>SystemTime::checked_add\<close>\<close>

definition time_checked_add :: "system_time \<Rightarrow> duration \<Rightarrow> system_time option" where
  "time_checked_add t d = (if t + int d < max_system_time then Some (t + int d) else None)"

record snapshot =
  snap_identity :: "file_identity option"
  snap_kind :: resource_kind
  snap_logical_bytes :: "u64 option"
  snap_modified_at :: "system_time option"
  snap_complete :: bool
  snap_boundary :: boundary
  snap_protection :: protection
  snap_trash :: capability
  snap_owner :: owner_state

section \<open>Actions and execution contracts\<close>

datatype action = MoveToTrash | RevalidatedMoveToTrash

datatype execution_contract = ModelOnly | RevalidatedTrashV1 | RevalidatedBundleTrashV1
  | RevalidatedPurgeTrashV1 | RevalidatedCacheTrashV1 | RevalidatedRelatedTrashV1

fun contract_as_str :: "execution_contract \<Rightarrow> bytes" where
  "contract_as_str ModelOnly = ''model_only''"
| "contract_as_str RevalidatedRelatedTrashV1 = ''revalidated_related_trash_v1''"
| "contract_as_str RevalidatedTrashV1 = ''revalidated_trash_v1''"
| "contract_as_str RevalidatedBundleTrashV1 = ''revalidated_bundle_trash_v1''"
| "contract_as_str RevalidatedPurgeTrashV1 = ''revalidated_purge_trash_v1''"
| "contract_as_str RevalidatedCacheTrashV1 = ''revalidated_cache_trash_v1''"

fun contract_warning :: "execution_contract \<Rightarrow> bytes" where
  "contract_warning ModelOnly = ''Read-only model; no native execution is authorized.''"
| "contract_warning RevalidatedRelatedTrashV1 =
     ''Bundle-ID conventions do not prove exclusive ownership. Unregistered copies and other-user writers may be missed. A last-check pathname race remains; directory contents can change. Trash does not free space or guarantee restoration.''"
| "contract_warning RevalidatedTrashV1 =
     ''A file or ancestor replaced after the last check could cause a different file to be moved. Trash does not free space or guarantee restoration.''"
| "contract_warning RevalidatedBundleTrashV1 =
     ''A bundle or ancestor replaced after the last check could cause a different directory to be moved. Trash does not free space or guarantee restoration; related data is never touched.''"
| "contract_warning RevalidatedPurgeTrashV1 =
     ''An artifact, marker or ancestor replaced after the last check could cause a different directory to be moved; a stable container does not prove stable members. Trash does not free space or guarantee restoration; the marker stays untouched.''"
| "contract_warning RevalidatedCacheTrashV1 =
     ''A cache directory or ancestor replaced after the last check could cause a different directory to be moved; a stable container does not prove stable members. Trash does not free space or guarantee restoration.''"

fun contract_action :: "execution_contract \<Rightarrow> action" where
  "contract_action ModelOnly = MoveToTrash"
| "contract_action RevalidatedTrashV1 = RevalidatedMoveToTrash"
| "contract_action RevalidatedBundleTrashV1 = RevalidatedMoveToTrash"
| "contract_action RevalidatedPurgeTrashV1 = RevalidatedMoveToTrash"
| "contract_action RevalidatedCacheTrashV1 = RevalidatedMoveToTrash"
| "contract_action RevalidatedRelatedTrashV1 = RevalidatedMoveToTrash"

datatype recovery = PlatformDependentTrash

datatype finding_reason = ExplicitSelection

fun finding_reason_as_str :: "finding_reason \<Rightarrow> bytes" where
  "finding_reason_as_str ExplicitSelection = ''explicit_selection''"

record versions =
  ver_engine :: u32
  ver_rules :: u32

definition versions_validate :: "versions \<Rightarrow> (error, unit) result" where
  "versions_validate v =
     (if ver_engine v = 0 \<or> ver_rules v = 0 then Inl (error_new InvalidVersions) else Inr ())"

section \<open>Scopes\<close>

definition valid_absolute_path :: "path \<Rightarrow> bool" where
  "valid_absolute_path p \<longleftrightarrow> is_absolute p \<and> \<not> contains_nul p \<and> \<not> has_parent_dir p"

definition overlaps :: "path \<Rightarrow> path \<Rightarrow> bool" where
  "overlaps l r \<longleftrightarrow> starts_with l r \<or> starts_with r l"

definition system_roots :: "path list" where
  "system_roots = [''/System'', ''/bin'', ''/sbin'', ''/usr'', ''/etc'', ''/private/etc'',
     ''/private/var/db'', ''/dev'', ''/proc'', ''/sys'']"

definition system_protected :: "path \<Rightarrow> bool" where
  "system_protected p \<longleftrightarrow> list_ex (\<lambda>root. overlaps p root) system_roots"

record scope =
  scope_root :: path
  scope_protected :: "path list"

definition scope_new :: "path \<Rightarrow> path list \<Rightarrow> (error, scope) result" where
  "scope_new root protected =
     (if \<not> valid_absolute_path root \<or> parent root = None then Inl (error_new InvalidScope)
      else if list_ex (\<lambda>p. \<not> valid_absolute_path p) protected then Inl (error_new InvalidPath)
      else Inr \<lparr>scope_root = root, scope_protected = protected\<rparr>)"

definition scope_contains :: "scope \<Rightarrow> path \<Rightarrow> bool" where
  "scope_contains s p \<longleftrightarrow> starts_with p (scope_root s)"

definition scope_protects :: "scope \<Rightarrow> path \<Rightarrow> bool" where
  "scope_protects s p \<longleftrightarrow> path_eq p (scope_root s)
     \<or> list_ex (\<lambda>e. overlaps p e) (scope_protected s) \<or> system_protected p"

section \<open>Observations, findings and plan items\<close>

record observation =
  obs_id :: resource_id
  obs_path :: path
  obs_observed_at :: system_time
  obs_snapshot :: snapshot

record finding =
  fnd_observation :: observation
  fnd_refusal :: "reason_code option"
  fnd_contract :: execution_contract

definition finding_action :: "finding \<Rightarrow> action option" where
  "finding_action f = (if fnd_refusal f = None then Some (contract_action (fnd_contract f)) else None)"

record byte_estimate =
  known_bytes :: u64
  unknown_items :: nat

definition byte_estimate_default :: byte_estimate where
  "byte_estimate_default = \<lparr>known_bytes = 0, unknown_items = 0\<rparr>"

definition byte_estimate_exact :: "byte_estimate \<Rightarrow> u64 option" where
  "byte_estimate_exact b = (if unknown_items b = 0 then Some (known_bytes b) else None)"

record rule_witness =
  rw_path :: path
  rw_identity :: file_identity
  rw_kind :: resource_kind
  rw_logical_bytes :: u64
  rw_modified_at :: system_time
  rw_changed_at :: system_time
  rw_created_at :: system_time
  rw_uid :: u32
  rw_gid :: u32
  rw_mode :: u32
  rw_nlink :: u64
  rw_flags :: u32

record rule_binding =
  rb_schema_version :: u32
  rb_rule_id :: bytes
  rb_rule_version :: u32
  rb_ruleset_schema_version :: u32
  rb_ruleset_revision :: u32
  rb_semantics :: bytes
  rb_semantics_digest :: bytes
  rb_selected_root :: path
  rb_exclusions :: "path list"
  rb_target :: rule_witness
  rb_source :: rule_witness
  rb_root :: rule_witness
  rb_target_ancestors :: "rule_witness list"
  rb_source_ancestors :: "rule_witness list"
  rb_warnings :: "bytes list"

record plan_item =
  pi_observation :: observation
  pi_contract :: execution_contract
  pi_rule_binding :: "rule_binding option"

definition item_resource :: "plan_item \<Rightarrow> resource_id" where
  "item_resource i = obs_id (pi_observation i)"

definition item_action :: "plan_item \<Rightarrow> action" where
  "item_action i = contract_action (pi_contract i)"

definition item_recovery :: "plan_item \<Rightarrow> recovery" where
  "item_recovery i = PlatformDependentTrash"

record rejection =
  rej_resource :: resource_id
  rej_code :: reason_code
  rej_probe_error :: "probe_error option"

definition rejection_new :: "resource_id \<Rightarrow> reason_code \<Rightarrow> rejection" where
  "rejection_new r c = \<lparr>rej_resource = r, rej_code = c, rej_probe_error = None\<rparr>"

section \<open>Plans and approvals\<close>

record plan =
  pl_id :: plan_id
  pl_scope :: path
  pl_created_at :: system_time
  pl_expires_at :: system_time
  pl_versions :: versions
  pl_generation :: u64
  pl_items :: "plan_item list"
  pl_excluded :: "resource_id list"
  pl_rejected :: "rejection list"
  pl_bytes :: byte_estimate
  pl_contract :: execution_contract

definition plan_schema_version :: "plan \<Rightarrow> u32" where
  "plan_schema_version p =
     (case pl_contract p of
        ModelOnly \<Rightarrow> 1
      | RevalidatedRelatedTrashV1 \<Rightarrow> 8
      | RevalidatedBundleTrashV1 \<Rightarrow> 4
      | RevalidatedPurgeTrashV1 \<Rightarrow> 5
      | RevalidatedCacheTrashV1 \<Rightarrow> 5
      | RevalidatedTrashV1 \<Rightarrow>
          (if list_ex (\<lambda>i. pi_rule_binding i \<noteq> None) (pl_items p) then 3 else 2))"

record approval =
  appr_plan :: plan_id

datatype plan_state = Prepared | Approved | Validated

record validation_report =
  vr_plan :: plan_id
  vr_ready :: "plan_item list"
  vr_skipped :: "rejection list"

text \<open>
  The derived equality of plans compares their paths as \<open>PathBuf\<close>s, that is by components.
  Bringing every path into its canonical raw form turns it into the equality of HOL.
\<close>

definition observation_key :: "observation \<Rightarrow> observation" where
  "observation_key o' = o'\<lparr>obs_path := canon (obs_path o')\<rparr>"

definition rule_witness_key :: "rule_witness \<Rightarrow> rule_witness" where
  "rule_witness_key w = w\<lparr>rw_path := canon (rw_path w)\<rparr>"

definition rule_binding_key :: "rule_binding \<Rightarrow> rule_binding" where
  "rule_binding_key b = b\<lparr>
     rb_selected_root := canon (rb_selected_root b),
     rb_exclusions := map canon (rb_exclusions b),
     rb_target := rule_witness_key (rb_target b),
     rb_source := rule_witness_key (rb_source b),
     rb_root := rule_witness_key (rb_root b),
     rb_target_ancestors := map rule_witness_key (rb_target_ancestors b),
     rb_source_ancestors := map rule_witness_key (rb_source_ancestors b)\<rparr>"

definition plan_item_key :: "plan_item \<Rightarrow> plan_item" where
  "plan_item_key i = i\<lparr>
     pi_observation := observation_key (pi_observation i),
     pi_rule_binding := map_option rule_binding_key (pi_rule_binding i)\<rparr>"

definition plan_key :: "plan \<Rightarrow> plan" where
  "plan_key p = p\<lparr>pl_scope := canon (pl_scope p), pl_items := map plan_item_key (pl_items p)\<rparr>"

definition plan_eq :: "plan \<Rightarrow> plan \<Rightarrow> bool" where
  "plan_eq p q \<longleftrightarrow> plan_key p = plan_key q"

lemma plan_eq_refl [simp]: "plan_eq p p"
  by (simp add: plan_eq_def)

lemma plan_key_fields [simp]:
  "pl_id (plan_key p) = pl_id p" "pl_expires_at (plan_key p) = pl_expires_at p"
  "pl_created_at (plan_key p) = pl_created_at p" "pl_versions (plan_key p) = pl_versions p"
  "pl_generation (plan_key p) = pl_generation p" "pl_excluded (plan_key p) = pl_excluded p"
  "pl_rejected (plan_key p) = pl_rejected p" "pl_bytes (plan_key p) = pl_bytes p"
  "pl_contract (plan_key p) = pl_contract p"
  "pl_items (plan_key p) = map plan_item_key (pl_items p)"
  by (simp_all add: plan_key_def)

lemma plan_item_key_fields [simp]:
  "item_resource (plan_item_key i) = item_resource i"
  "obs_snapshot (pi_observation (plan_item_key i)) = obs_snapshot (pi_observation i)"
  "pi_contract (plan_item_key i) = pi_contract i"
  "obs_path (pi_observation (plan_item_key i)) = canon (obs_path (pi_observation i))"
  by (simp_all add: plan_item_key_def observation_key_def item_resource_def)

lemma plan_eqD:
  assumes "plan_eq p q"
  shows "pl_id p = pl_id q" "pl_expires_at p = pl_expires_at q" "pl_versions p = pl_versions q"
    "pl_generation p = pl_generation q" "pl_contract p = pl_contract q"
    "map plan_item_key (pl_items p) = map plan_item_key (pl_items q)"
    "map item_resource (pl_items p) = map item_resource (pl_items q)"
    "map (\<lambda>i. obs_snapshot (pi_observation i)) (pl_items p)
       = map (\<lambda>i. obs_snapshot (pi_observation i)) (pl_items q)"
proof -
  from assms have k: "plan_key p = plan_key q" by (simp add: plan_eq_def)
  then show "pl_id p = pl_id q" "pl_expires_at p = pl_expires_at q" "pl_versions p = pl_versions q"
    "pl_generation p = pl_generation q" "pl_contract p = pl_contract q"
    by (metis plan_key_fields)+
  from k show m: "map plan_item_key (pl_items p) = map plan_item_key (pl_items q)"
    by (metis plan_key_fields(10))
  have "map item_resource (map plan_item_key xs) = map item_resource xs" for xs
    by simp
  with m show "map item_resource (pl_items p) = map item_resource (pl_items q)"
    by metis
  have "map (\<lambda>i. obs_snapshot (pi_observation i)) (map plan_item_key xs)
      = map (\<lambda>i. obs_snapshot (pi_observation i)) xs" for xs
    by simp
  with m show "map (\<lambda>i. obs_snapshot (pi_observation i)) (pl_items p)
       = map (\<lambda>i. obs_snapshot (pi_observation i)) (pl_items q)"
    by metis
qed

section \<open>Facts about scopes and protection\<close>

lemma overlaps_comparable: "overlaps l r \<longleftrightarrow> comparable (components l) (components r)"
  by (auto simp: overlaps_def starts_with_def comparable_def)

lemma overlaps_sym: "overlaps l r \<longleftrightarrow> overlaps r l"
  by (auto simp: overlaps_def)

lemma overlaps_refl [simp]: "overlaps p p"
  by (simp add: overlaps_def)

lemma path_eq_overlaps: "path_eq l r \<Longrightarrow> overlaps l r"
  by (simp add: overlaps_def starts_with_def path_eq_def)

lemma scope_new_Inr:
  "scope_new root prot = Inr s \<longleftrightarrow>
     valid_absolute_path root \<and> parent root \<noteq> None \<and> (\<forall>p \<in> set prot. valid_absolute_path p)
     \<and> s = \<lparr>scope_root = root, scope_protected = prot\<rparr>"
  by (auto simp: scope_new_def list_ex_iff)

text \<open>
  Protection is inherited: everything below a protected entry is protected, and so is every
  directory above it inside the scope.
\<close>

lemma overlaps_below: "starts_with q p \<Longrightarrow> starts_with p e \<Longrightarrow> overlaps q e"
  unfolding overlaps_def by (blast intro: starts_with_trans)

lemma overlaps_above: "starts_with p q \<Longrightarrow> overlaps p e \<Longrightarrow> overlaps q e"
  unfolding overlaps_def starts_with_def
  by (meson prefix_order.trans prefix_same_cases)

lemma scope_protects_ancestor:
  assumes "scope_protects s p" and "starts_with p q" and "scope_contains s q"
  shows "scope_protects s q"
proof -
  from assms(1) consider "path_eq p (scope_root s)"
    | e where "e \<in> set (scope_protected s)" "overlaps p e" | "system_protected p"
    by (auto simp: scope_protects_def list_ex_iff)
  then show ?thesis
  proof cases
    case 1
    then have "path_eq q (scope_root s)"
      using assms(2,3) by (auto simp: path_eq_def starts_with_def scope_contains_def
          intro: prefix_order.antisym)
    then show ?thesis by (simp add: scope_protects_def)
  next
    case 2
    then show ?thesis
      using overlaps_above [OF assms(2)] by (auto simp: scope_protects_def list_ex_iff)
  next
    case 3
    then show ?thesis
      using overlaps_above [OF assms(2)]
      by (auto simp: scope_protects_def system_protected_def list_ex_iff)
  qed
qed

end
