(* ===== verification/Planner.thy ===== *)
theory Planner
  imports Model
begin

text \<open>
  The planning session of \<open>crates/engine/src/plan.rs\<close>. The effects a session depends on (the
  clock, the identifier source, the probe and the cancellation flag are trait objects or shared
  atomics in the sources) are the fields of an environment \<open>'w env\<close>: each takes the state
  \<open>'w\<close> of the outside world and returns its answer and the next world, so the order in which
  the session consults them is part of the model. Every operation returns its result, the
  session and the world.
\<close>

section \<open>Environment and session state\<close>

record 'w env =
  env_now :: "'w \<Rightarrow> system_time \<times> 'w"
  env_next_id :: "'w \<Rightarrow> u64 option \<times> 'w"
  env_inspect :: "scope \<Rightarrow> path \<Rightarrow> 'w \<Rightarrow> (probe_error, snapshot) result \<times> 'w"
  env_cancelled :: "'w \<Rightarrow> bool \<times> 'w"

text \<open>\<open>SequentialIds\<close>, the default identifier source.\<close>

record sequential_ids =
  si_next :: "u64 option"

definition sequential_ids_default :: sequential_ids where
  "sequential_ids_default = \<lparr>si_next = Some 1\<rparr>"

definition sequential_next_id :: "sequential_ids \<Rightarrow> u64 option \<times> sequential_ids" where
  "sequential_next_id s =
     (case si_next s of
        None \<Rightarrow> (None, s)
      | Some i \<Rightarrow> (Some i, s\<lparr>si_next := checked_add i 1\<rparr>))"

record plan_record =
  rec_plan :: plan
  rec_state :: plan_state

record planner =
  pn_session :: u64
  pn_scope :: scope
  pn_versions :: versions
  pn_generation :: u64
  pn_last_time :: "system_time option"
  pn_used_ids :: "u64 set"
  pn_observations :: "resource_id \<rightharpoonup> observation"
  pn_paths :: "component list set"
  pn_plans :: "plan_id \<rightharpoonup> plan_record"
  pn_contract :: execution_contract

text \<open>
  \<open>Planner::with_sources\<close>; the process-wide session counter \<open>NEXT_SESSION\<close> is passed and
  returned.
\<close>

definition planner_new ::
  "scope \<Rightarrow> versions \<Rightarrow> u64 \<Rightarrow> (error, planner) result \<times> u64" where
  "planner_new s v counter =
     (case versions_validate v of
        Inl e \<Rightarrow> (Inl e, counter)
      | Inr _ \<Rightarrow>
          (case checked_add counter 1 of
             None \<Rightarrow> (Inl (error_new IdentifierUnavailable), counter)
           | Some following \<Rightarrow>
               (Inr \<lparr>pn_session = counter, pn_scope = s, pn_versions = v, pn_generation = 0,
                  pn_last_time = None, pn_used_ids = {}, pn_observations = Map.empty,
                  pn_paths = {}, pn_plans = Map.empty, pn_contract = ModelOnly\<rparr>, following)))"

definition for_contract :: "execution_contract \<Rightarrow> planner \<Rightarrow> planner" where
  "for_contract c p = p\<lparr>pn_contract := c\<rparr>"

section \<open>Time, identifiers and lookups\<close>

definition planner_id :: "'w env \<Rightarrow> planner \<Rightarrow> 'w \<Rightarrow> (error, u64) result \<times> planner \<times> 'w" where
  "planner_id E p w =
     (case env_next_id E w of
        (i, w1) \<Rightarrow>
          (case (case i of None \<Rightarrow> None | Some n \<Rightarrow> if n \<noteq> 0 then Some n else None) of
             None \<Rightarrow> (Inl (error_new IdentifierUnavailable), p, w1)
           | Some n \<Rightarrow>
               if n \<in> pn_used_ids p then (Inl (error_new IdentifierCollision), p, w1)
               else (Inr n, p\<lparr>pn_used_ids := insert n (pn_used_ids p)\<rparr>, w1)))"

definition planner_time ::
  "'w env \<Rightarrow> planner \<Rightarrow> 'w \<Rightarrow> (error, system_time) result \<times> planner \<times> 'w" where
  "planner_time E p w =
     (case env_now E w of
        (now, w1) \<Rightarrow>
          if (case pn_last_time p of None \<Rightarrow> False | Some t0 \<Rightarrow> now < t0)
          then (Inl (error_new ClockInvalid), p, w1)
          else (Inr now, p\<lparr>pn_last_time := Some now\<rparr>, w1))"

definition planner_observation :: "planner \<Rightarrow> resource_id \<Rightarrow> (error, observation) result" where
  "planner_observation p r = ok_or (error_at UnknownResource r) (pn_observations p r)"

definition check_plan :: "planner \<Rightarrow> plan \<Rightarrow> system_time \<Rightarrow> (error, unit) result" where
  "check_plan p preview now =
     (case pn_plans p (pl_id preview) of
        None \<Rightarrow> Inl (error_new UnknownPlan)
      | Some r \<Rightarrow>
          if \<not> plan_eq (rec_plan r) preview then Inl (error_new PlanMismatch)
          else if pl_generation preview \<noteq> pn_generation p \<or> pl_versions preview \<noteq> pn_versions p
          then Inl (error_new StalePlan)
          else if pl_expires_at preview \<le> now then Inl (error_new ExpiredPlan)
          else Inr ())"

definition preflight_stop ::
  "'w env \<Rightarrow> plan \<Rightarrow> planner \<Rightarrow> 'w \<Rightarrow> reason_code option \<times> planner \<times> 'w" where
  "preflight_stop E plan p w =
     (case env_cancelled E w of
        (True, w1) \<Rightarrow> (Some Cancelled, p, w1)
      | (False, w1) \<Rightarrow>
          (case planner_time E p w1 of
             (Inr now, p2, w2) \<Rightarrow>
               (if pl_expires_at plan \<le> now then Some ExpiredPlan else None, p2, w2)
           | (Inl e, p2, w2) \<Rightarrow> (Some (err_code e), p2, w2)))"

section \<open>Refusals\<close>

definition kind_accepted :: "execution_contract \<Rightarrow> resource_kind \<Rightarrow> bool" where
  "kind_accepted c k =
     (case c of
        RevalidatedBundleTrashV1 \<Rightarrow> k = KDirectory
      | RevalidatedPurgeTrashV1 \<Rightarrow> k = KDirectory
      | RevalidatedCacheTrashV1 \<Rightarrow> k = KDirectory
      | _ \<Rightarrow> k = KFile)"

definition boundary_refusal :: "boundary \<Rightarrow> reason_code option" where
  "boundary_refusal b =
     (case b of
        BoundaryOutsideScope \<Rightarrow> Some OutsideScope
      | BoundaryTraversesLink \<Rightarrow> Some BoundaryUnverified
      | BoundaryUnknown \<Rightarrow> Some BoundaryUnverified
      | BoundaryVerified \<Rightarrow> None)"

definition capability_refusal :: "capability \<Rightarrow> reason_code option" where
  "capability_refusal c =
     (case c of
        CapUnsupported \<Rightarrow> Some UnsupportedCapability
      | CapNotAuthorized \<Rightarrow> Some NotAuthorized
      | CapTemporarilyUnavailable \<Rightarrow> Some TemporarilyUnavailable
      | CapUnknown \<Rightarrow> Some UnknownCapability
      | CapAvailable \<Rightarrow> None)"

definition owner_refusal :: "owner_state \<Rightarrow> reason_code option" where
  "owner_refusal s =
     (case s of
        OwnerIsRunning \<Rightarrow> Some OwnerRunning
      | OwnerStateUnknown \<Rightarrow> Some OwnerUnknown
      | OwnerStopped \<Rightarrow> None
      | NotApplicable \<Rightarrow> None)"

definition refusal :: "planner \<Rightarrow> path \<Rightarrow> snapshot \<Rightarrow> reason_code option" where
  "refusal p path s =
     (if scope_protects (pn_scope p) path \<or> snap_protection s = ProtProtected then Some Protected
      else if snap_protection s = ProtUnknown then Some ProtectionUnknown
      else case boundary_refusal (snap_boundary s) of
        Some c \<Rightarrow> Some c
      | None \<Rightarrow>
          if \<not> kind_accepted (pn_contract p) (snap_kind s) then Some UnsupportedResource
          else if \<not> snap_complete s \<or> snap_modified_at s = None then Some IncompleteObservation
          else if snap_identity s = None then Some IdentityUnknown
          else case capability_refusal (snap_trash s) of
            Some c \<Rightarrow> Some c
          | None \<Rightarrow> owner_refusal (snap_owner s))"

section \<open>Discovery\<close>

definition discover ::
  "'w env \<Rightarrow> path \<Rightarrow> planner \<Rightarrow> 'w \<Rightarrow> (error, finding) result \<times> planner \<times> 'w" where
  "discover E path p w =
     (if \<not> valid_absolute_path path then (Inl (error_new InvalidPath), p, w)
      else if \<not> scope_contains (pn_scope p) path then (Inl (error_new OutsideScope), p, w)
      else if components path \<in> pn_paths p then (Inl (error_new DuplicateResource), p, w)
      else case planner_time E p w of
        (Inl e, p1, w1) \<Rightarrow> (Inl e, p1, w1)
      | (Inr _, p1, w1) \<Rightarrow>
      (case env_inspect E (pn_scope p1) path w1 of
        (Inl e, w2) \<Rightarrow> (Inl (error_probe e None), p1, w2)
      | (Inr snap, w2) \<Rightarrow>
      (case planner_time E p1 w2 of
        (Inl e, p3, w3) \<Rightarrow> (Inl e, p3, w3)
      | (Inr observed_at, p3, w3) \<Rightarrow>
      (case planner_id E p3 w3 of
        (Inl e, p4, w4) \<Rightarrow> (Inl e, p4, w4)
      | (Inr value, p4, w4) \<Rightarrow>
          let rid = \<lparr>rid_session = pn_session p4, rid_value = value\<rparr>;
              obs = \<lparr>obs_id = rid, obs_path = path, obs_observed_at = observed_at,
                     obs_snapshot = snap\<rparr>
          in (Inr \<lparr>fnd_observation = obs, fnd_refusal = refusal p4 path snap,
                   fnd_contract = pn_contract p4\<rparr>,
              p4\<lparr>pn_paths := insert (components path) (pn_paths p4),
                 pn_observations := (pn_observations p4)(rid \<mapsto> obs)\<rparr>,
              w4)))))"

section \<open>Preparing a plan\<close>

text \<open>The loops that resolve the selected and the excluded identifiers.\<close>

fun resolve ::
  "planner \<Rightarrow> resource_id set \<Rightarrow> resource_id list \<Rightarrow> (error, observation list) result" where
  "resolve p seen [] = Inr []"
| "resolve p seen (r # rs) =
     (case planner_observation p r of
        Inl e \<Rightarrow> Inl e
      | Inr obs \<Rightarrow>
          if r \<in> seen then Inl (error_at DuplicateSelection r)
          else rbind (resolve p (insert r seen) rs) (\<lambda>os. Inr (obs # os)))"

text \<open>\<open>ordered.windows(2)\<close>: the first adjacent pair of the sorted selection that overlaps.\<close>

fun adjacent_overlap :: "observation list \<Rightarrow> resource_id option" where
  "adjacent_overlap (a # b # os) =
     (if overlaps (obs_path a) (obs_path b) then Some (obs_id b) else adjacent_overlap (b # os))"
| "adjacent_overlap _ = None"

definition sort_by_path :: "observation list \<Rightarrow> observation list" where
  "sort_by_path os = sort_key (\<lambda>o'. components (obs_path o')) os"

definition selection_code :: "planner \<Rightarrow> observation list \<Rightarrow> observation \<Rightarrow> reason_code option" where
  "selection_code p exclusions obs =
     (if scope_protects (pn_scope p) (obs_path obs)
         \<or> snap_protection (obs_snapshot obs) = ProtProtected
      then Some Protected
      else if list_ex (\<lambda>entry. overlaps (obs_path obs) (obs_path entry)) exclusions
      then Some Excluded
      else refusal p (obs_path obs) (obs_snapshot obs))"

record selection =
  sel_identities :: "file_identity set"
  sel_items :: "plan_item list"
  sel_rejected :: "rejection list"
  sel_bytes :: byte_estimate

definition selection_empty :: selection where
  "selection_empty = \<lparr>sel_identities = {}, sel_items = [], sel_rejected = [],
     sel_bytes = byte_estimate_default\<rparr>"

definition add_size :: "byte_estimate \<Rightarrow> u64 option \<Rightarrow> byte_estimate option" where
  "add_size b sz =
     (case sz of
        Some n \<Rightarrow> map_option (\<lambda>k. b\<lparr>known_bytes := k\<rparr>) (checked_add (known_bytes b) n)
      | None \<Rightarrow> Some (b\<lparr>unknown_items := unknown_items b + 1\<rparr>))"

fun select_items ::
  "planner \<Rightarrow> observation list \<Rightarrow> observation list \<Rightarrow> selection \<Rightarrow> (error, selection) result" where
  "select_items p exclusions [] s = Inr s"
| "select_items p exclusions (obs # os) s =
     (case selection_code p exclusions obs of
        Some c \<Rightarrow>
          select_items p exclusions os
            (s\<lparr>sel_rejected := sel_rejected s @ [rejection_new (obs_id obs) c]\<rparr>)
      | None \<Rightarrow>
          (case snap_identity (obs_snapshot obs) of
             Some i \<Rightarrow>
               if i \<in> sel_identities s then Inl (error_at DuplicateIdentity (obs_id obs))
               else
                 (case add_size (sel_bytes s) (snap_logical_bytes (obs_snapshot obs)) of
                    None \<Rightarrow> Inl (error_new SizeOverflow)
                  | Some b \<Rightarrow>
                      select_items p exclusions os
                        (s\<lparr>sel_identities := insert i (sel_identities s), sel_bytes := b,
                           sel_items := sel_items s @ [\<lparr>pi_observation = obs,
                             pi_contract = pn_contract p, pi_rule_binding = None\<rparr>]\<rparr>))
           | None \<Rightarrow>
               (case add_size (sel_bytes s) (snap_logical_bytes (obs_snapshot obs)) of
                  None \<Rightarrow> Inl (error_new SizeOverflow)
                | Some b \<Rightarrow>
                    select_items p exclusions os
                      (s\<lparr>sel_bytes := b,
                         sel_items := sel_items s @ [\<lparr>pi_observation = obs,
                           pi_contract = pn_contract p, pi_rule_binding = None\<rparr>]\<rparr>))))"

text \<open>The pure part of \<open>prepare\<close> between its two uses of the environment.\<close>

definition prepare_selection ::
  "planner \<Rightarrow> resource_id list \<Rightarrow> resource_id list \<Rightarrow> (error, selection) result" where
  "prepare_selection p selected excluded =
     rbind (resolve p {} selected) (\<lambda>observations.
     rbind (resolve p {} excluded) (\<lambda>exclusions.
       case adjacent_overlap (sort_by_path observations) of
         Some r \<Rightarrow> Inl (error_at OverlappingSelection r)
       | None \<Rightarrow> select_items p exclusions observations selection_empty))"

definition prepare ::
  "'w env \<Rightarrow> resource_id list \<Rightarrow> resource_id list \<Rightarrow> duration \<Rightarrow> planner \<Rightarrow> 'w
     \<Rightarrow> (error, plan) result \<times> planner \<times> 'w" where
  "prepare E selected excluded lifetime p w =
     (if lifetime = 0 then (Inl (error_new InvalidLifetime), p, w)
      else if selected = [] then (Inl (error_new EmptyPlan), p, w)
      else case planner_time E p w of
        (Inl e, p1, w1) \<Rightarrow> (Inl e, p1, w1)
      | (Inr created_at, p1, w1) \<Rightarrow>
      (case time_checked_add created_at lifetime of
        None \<Rightarrow> (Inl (error_new InvalidLifetime), p1, w1)
      | Some expires_at \<Rightarrow>
      (case prepare_selection p1 selected excluded of
        Inl e \<Rightarrow> (Inl e, p1, w1)
      | Inr sel \<Rightarrow>
      (case planner_id E p1 w1 of
        (Inl e, p2, w2) \<Rightarrow> (Inl e, p2, w2)
      | (Inr value, p2, w2) \<Rightarrow>
          let pid = \<lparr>pid_session = pn_session p2, pid_value = value\<rparr>;
              pl = \<lparr>pl_id = pid, pl_scope = scope_root (pn_scope p2), pl_created_at = created_at,
                    pl_expires_at = expires_at, pl_versions = pn_versions p2,
                    pl_generation = pn_generation p2, pl_items = sel_items sel,
                    pl_excluded = excluded, pl_rejected = sel_rejected sel,
                    pl_bytes = sel_bytes sel, pl_contract = pn_contract p2\<rparr>
          in (Inr pl,
              p2\<lparr>pn_plans := (pn_plans p2)(pid \<mapsto> \<lparr>rec_plan = pl, rec_state = Prepared\<rparr>)\<rparr>,
              w2)))))"

section \<open>Approval, sealing and preflight\<close>

definition approve ::
  "'w env \<Rightarrow> plan \<Rightarrow> planner \<Rightarrow> 'w \<Rightarrow> (error, approval) result \<times> planner \<times> 'w" where
  "approve E preview p w =
     (case planner_time E p w of
        (Inl e, p1, w1) \<Rightarrow> (Inl e, p1, w1)
      | (Inr now, p1, w1) \<Rightarrow>
      (case check_plan p1 preview now of
        Inl e \<Rightarrow> (Inl e, p1, w1)
      | Inr _ \<Rightarrow>
          if pl_items preview = [] then (Inl (error_new EmptyPlan), p1, w1)
          else case pn_plans p1 (pl_id preview) of
            None \<Rightarrow> (Inl (error_new UnknownPlan), p1, w1)
          | Some r \<Rightarrow>
              if rec_state r \<noteq> Prepared then (Inl (error_new InvalidPlanState), p1, w1)
              else (Inr \<lparr>appr_plan = pl_id preview\<rparr>,
                    p1\<lparr>pn_plans := (pn_plans p1)(pl_id preview \<mapsto> r\<lparr>rec_state := Approved\<rparr>)\<rparr>,
                    w1)))"

text \<open>
  The bindings of \<open>seal_rule_bindings_for_prepared\<close> are a hash map: an association list with
  distinct keys here, whose length is the size of the map.
\<close>

fun bind_items ::
  "(resource_id \<times> rule_binding) list \<Rightarrow> plan_item list \<Rightarrow> (error, plan_item list) result" where
  "bind_items bs [] = Inr []"
| "bind_items bs (i # is) =
     (case map_of bs (item_resource i) of
        None \<Rightarrow> Inl (error_at InvalidPlanState (item_resource i))
      | Some b \<Rightarrow>
          rbind (bind_items bs is) (\<lambda>js. Inr (i\<lparr>pi_rule_binding := Some b\<rparr> # js)))"

definition seal_rule_bindings ::
  "plan_id \<Rightarrow> (resource_id \<times> rule_binding) list \<Rightarrow> planner \<Rightarrow> (error, plan) result \<times> planner" where
  "seal_rule_bindings pid bs p =
     (if bs = [] then (Inl (error_new InvalidPlanState), p)
      else case pn_plans p pid of
        None \<Rightarrow> (Inl (error_new UnknownPlan), p)
      | Some r \<Rightarrow>
          if rec_state r \<noteq> Prepared then (Inl (error_new InvalidPlanState), p)
          else case bind_items bs (pl_items (rec_plan r)) of
            Inl e \<Rightarrow> (Inl e, p)
          | Inr items \<Rightarrow>
              if length bs \<noteq> length items then (Inl (error_new InvalidPlanState), p)
              else let sealed = (rec_plan r)\<lparr>pl_items := items\<rparr>
                   in (Inr sealed,
                       p\<lparr>pn_plans := (pn_plans p)(pid \<mapsto> r\<lparr>rec_plan := sealed\<rparr>)\<rparr>))"

text \<open>The verdict on one item of the preflight: \<open>Inl\<close> a rejection, \<open>Inr\<close> the ready item.\<close>

definition preflight_item ::
  "'w env \<Rightarrow> plan \<Rightarrow> plan_item \<Rightarrow> planner \<Rightarrow> 'w
     \<Rightarrow> (rejection, plan_item) result \<times> planner \<times> 'w" where
  "preflight_item E preview item p w =
     (let rid = item_resource item; path = obs_path (pi_observation item) in
      case preflight_stop E preview p w of
        (Some c, p1, w1) \<Rightarrow> (Inl (rejection_new rid c), p1, w1)
      | (None, p1, w1) \<Rightarrow>
      (case env_inspect E (pn_scope p1) path w1 of
        (Inl e, w2) \<Rightarrow>
          (Inl \<lparr>rej_resource = rid, rej_code = ProbeFailed, rej_probe_error = Some e\<rparr>, p1, w2)
      | (Inr snap, w2) \<Rightarrow>
      (case preflight_stop E preview p1 w2 of
        (stop, p3, w3) \<Rightarrow>
          (case (case stop of
                   Some c \<Rightarrow> Some c
                 | None \<Rightarrow>
                     (case refusal p3 path snap of
                        Some c \<Rightarrow> Some c
                      | None \<Rightarrow>
                          if snap \<noteq> obs_snapshot (pi_observation item) then Some ResourceChanged
                          else None)) of
             Some c \<Rightarrow> (Inl (rejection_new rid c), p3, w3)
           | None \<Rightarrow> (Inr item, p3, w3)))))"

fun preflight_items ::
  "'w env \<Rightarrow> plan \<Rightarrow> plan_item list \<Rightarrow> planner \<Rightarrow> 'w
     \<Rightarrow> (plan_item list \<times> rejection list) \<times> planner \<times> 'w" where
  "preflight_items E preview [] p w = (([], []), p, w)"
| "preflight_items E preview (i # is) p w =
     (case preflight_item E preview i p w of
        (v, p1, w1) \<Rightarrow>
          (case preflight_items E preview is p1 w1 of
             ((ready, skipped), p2, w2) \<Rightarrow>
               ((case v of
                   Inl r \<Rightarrow> (ready, r # skipped)
                 | Inr item \<Rightarrow> (item # ready, skipped)), p2, w2)))"

definition planner_validate ::
  "'w env \<Rightarrow> plan \<Rightarrow> approval \<Rightarrow> planner \<Rightarrow> 'w
     \<Rightarrow> (error, validation_report) result \<times> planner \<times> 'w" where
  "planner_validate E preview appr p w =
     (case planner_time E p w of
        (Inl e, p1, w1) \<Rightarrow> (Inl e, p1, w1)
      | (Inr now, p1, w1) \<Rightarrow>
      (case check_plan p1 preview now of
        Inl e \<Rightarrow> (Inl e, p1, w1)
      | Inr _ \<Rightarrow>
          if appr_plan appr \<noteq> pl_id preview then (Inl (error_new ApprovalMismatch), p1, w1)
          else case pn_plans p1 (pl_id preview) of
            None \<Rightarrow> (Inl (error_new UnknownPlan), p1, w1)
          | Some r \<Rightarrow>
              if rec_state r \<noteq> Approved then (Inl (error_new InvalidPlanState), p1, w1)
              else
                (case preflight_items E preview (pl_items preview)
                   (p1\<lparr>pn_plans := (pn_plans p1)(pl_id preview \<mapsto> r\<lparr>rec_state := Validated\<rparr>)\<rparr>)
                   w1 of
                   ((ready, skipped), p2, w2) \<Rightarrow>
                     (Inr \<lparr>vr_plan = pl_id preview, vr_ready = ready, vr_skipped = skipped\<rparr>,
                      p2, w2))))"

definition planner_plan_state :: "planner \<Rightarrow> plan_id \<Rightarrow> (error, plan_state) result" where
  "planner_plan_state p pid =
     ok_or (error_new UnknownPlan) (map_option rec_state (pn_plans p pid))"

definition set_versions :: "versions \<Rightarrow> planner \<Rightarrow> (error, unit) result \<times> planner" where
  "set_versions v p =
     (case versions_validate v of
        Inl e \<Rightarrow> (Inl e, p)
      | Inr _ \<Rightarrow>
          if v \<noteq> pn_versions p then
            (case checked_add (pn_generation p) 1 of
               None \<Rightarrow> (Inl (error_new IdentifierUnavailable), p)
             | Some g \<Rightarrow> (Inr (), p\<lparr>pn_generation := g, pn_versions := v\<rparr>))
          else (Inr (), p))"


section \<open>What each operation does to the session\<close>

text \<open>
  Reading the clock and drawing an identifier touch only the last time and the used
  identifiers: \<open>bookkeeping p p'\<close>.
\<close>

definition bookkeeping :: "planner \<Rightarrow> planner \<Rightarrow> bool" where
  "bookkeeping p p' \<longleftrightarrow>
     p' = p\<lparr>pn_last_time := pn_last_time p', pn_used_ids := pn_used_ids p'\<rparr>
     \<and> pn_used_ids p \<subseteq> pn_used_ids p' \<and> (0 \<in> pn_used_ids p' \<longrightarrow> 0 \<in> pn_used_ids p)"

lemma bookkeeping_refl [simp]: "bookkeeping p p"
  by (simp add: bookkeeping_def)

lemma bookkeeping_fields:
  assumes "bookkeeping p p'"
  shows "pn_session p' = pn_session p" "pn_scope p' = pn_scope p" "pn_versions p' = pn_versions p"
    "pn_generation p' = pn_generation p" "pn_observations p' = pn_observations p"
    "pn_paths p' = pn_paths p" "pn_plans p' = pn_plans p" "pn_contract p' = pn_contract p"
    "pn_used_ids p \<subseteq> pn_used_ids p'"
  using assms by (cases p; cases p'; simp add: bookkeeping_def)+

lemma bookkeeping_trans: "bookkeeping p q \<Longrightarrow> bookkeeping q r \<Longrightarrow> bookkeeping p r"
  by (cases p; cases q; cases r) (auto simp: bookkeeping_def)

lemma planner_time_Inr:
  "planner_time E p w = (Inr t, p', w') \<Longrightarrow>
     p' = p\<lparr>pn_last_time := Some t\<rparr> \<and> (\<forall>t0. pn_last_time p = Some t0 \<longrightarrow> t0 \<le> t)"
  by (auto simp: planner_time_def split: prod.splits if_splits option.splits)

lemma planner_time_Inl:
  "planner_time E p w = (Inl e, p', w') \<Longrightarrow> p' = p \<and> e = error_new ClockInvalid"
  by (auto simp: planner_time_def split: prod.splits if_splits)

lemma planner_time_bookkeeping: "planner_time E p w = (r, p', w') \<Longrightarrow> bookkeeping p p'"
  by (auto simp: planner_time_def bookkeeping_def split: prod.splits if_splits)

lemma planner_id_Inr:
  "planner_id E p w = (Inr n, p', w') \<Longrightarrow>
     n \<noteq> 0 \<and> n \<notin> pn_used_ids p \<and> p' = p\<lparr>pn_used_ids := insert n (pn_used_ids p)\<rparr>"
  by (auto simp: planner_id_def split: prod.splits option.splits if_splits)

lemma planner_id_Inl:
  "planner_id E p w = (Inl e, p', w') \<Longrightarrow> p' = p"
  by (auto simp: planner_id_def split: prod.splits option.splits if_splits)

lemma planner_id_bookkeeping: "planner_id E p w = (r, p', w') \<Longrightarrow> bookkeeping p p'"
  by (auto simp: planner_id_def bookkeeping_def split: prod.splits option.splits if_splits)

lemma preflight_stop_bookkeeping: "preflight_stop E pl p w = (r, p', w') \<Longrightarrow> bookkeeping p p'"
  by (auto simp: preflight_stop_def split: prod.splits bool.splits sum.splits
      dest: planner_time_bookkeeping)

lemma preflight_item_bookkeeping: "preflight_item E pl i p w = (r, p', w') \<Longrightarrow> bookkeeping p p'"
  by (auto simp: preflight_item_def Let_def split: prod.splits option.splits sum.splits if_splits
      dest!: preflight_stop_bookkeeping intro: bookkeeping_trans)

lemma preflight_items_bookkeeping:
  "preflight_items E pl is p w = (r, p', w') \<Longrightarrow> bookkeeping p p'"
proof (induction "is" arbitrary: p w r p' w')
  case (Cons i "is")
  then show ?case
    by (auto split: prod.splits dest!: preflight_item_bookkeeping intro: bookkeeping_trans)
qed simp

lemma discover_Inl:
  "discover E path p w = (Inl e, p', w') \<Longrightarrow> bookkeeping p p'"
  unfolding discover_def
  by (auto simp: Let_def split: if_splits prod.splits sum.splits
      dest!: planner_time_bookkeeping planner_id_bookkeeping intro: bookkeeping_trans)

lemma discover_Inr:
  assumes "discover E path p w = (Inr f, p', w')"
  obtains q n t s where "bookkeeping p q" "n \<noteq> 0" "n \<notin> pn_used_ids p" "n \<in> pn_used_ids q"
    "pn_used_ids q = insert n (pn_used_ids p)"
    "valid_absolute_path path" "scope_contains (pn_scope p) path" "components path \<notin> pn_paths p"
    "fnd_observation f = \<lparr>obs_id = \<lparr>rid_session = pn_session p, rid_value = n\<rparr>, obs_path = path,
       obs_observed_at = t, obs_snapshot = s\<rparr>"
    "fnd_refusal f = refusal q path s" "fnd_contract f = pn_contract p"
    "p' = q\<lparr>pn_paths := insert (components path) (pn_paths q),
       pn_observations := (pn_observations q)(obs_id (fnd_observation f) \<mapsto> fnd_observation f)\<rparr>"
proof -
  from assms obtain r1 p1 w1 where t1: "planner_time E p w = (Inr r1, p1, w1)"
    and valid: "valid_absolute_path path" "scope_contains (pn_scope p) path"
      "components path \<notin> pn_paths p"
    unfolding discover_def by (auto split: if_splits prod.splits sum.splits)
  from assms t1 valid obtain s w2 t p3 w3 n q
    where t2: "planner_time E p1 w2 = (Inr t, p3, w3)" and i: "planner_id E p3 w3 = (Inr n, q, w')"
      and f: "f = \<lparr>fnd_observation = \<lparr>obs_id = \<lparr>rid_session = pn_session q, rid_value = n\<rparr>,
                obs_path = path, obs_observed_at = t, obs_snapshot = s\<rparr>,
                fnd_refusal = refusal q path s, fnd_contract = pn_contract q\<rparr>"
      and p': "p' = q\<lparr>pn_paths := insert (components path) (pn_paths q),
                 pn_observations := (pn_observations q)(\<lparr>rid_session = pn_session q, rid_value = n\<rparr>
                   \<mapsto> \<lparr>obs_id = \<lparr>rid_session = pn_session q, rid_value = n\<rparr>,
                        obs_path = path, obs_observed_at = t, obs_snapshot = s\<rparr>)\<rparr>"
    unfolding discover_def by (auto simp: Let_def split: prod.splits sum.splits)
  have q: "q = p\<lparr>pn_last_time := Some t, pn_used_ids := insert n (pn_used_ids p)\<rparr>"
    and n: "n \<noteq> 0" "n \<notin> pn_used_ids p"
    using planner_time_Inr [OF t1] planner_time_Inr [OF t2] planner_id_Inr [OF i] by auto
  show ?thesis
    by (rule that [of q n t s]) (use q n valid f p' in \<open>auto simp: bookkeeping_def\<close>)
qed

lemma prepare_Inl:
  "prepare E sel exc lt p w = (Inl e, p', w') \<Longrightarrow> bookkeeping p p'"
  unfolding prepare_def
  by (auto simp: Let_def split: if_splits prod.splits sum.splits option.splits
      dest!: planner_time_bookkeeping planner_id_bookkeeping intro: bookkeeping_trans)

lemma prepare_Inr:
  assumes "prepare E sel exc lt p w = (Inr pl, p', w')"
  obtains q n now p1 s where "bookkeeping p p1" "pn_last_time p1 = Some now" "bookkeeping p q"
    "n \<noteq> 0" "n \<notin> pn_used_ids p" "n \<in> pn_used_ids q" "lt \<noteq> 0" "sel \<noteq> []"
    "prepare_selection p1 sel exc = Inr s"
    "time_checked_add now lt = Some (pl_expires_at pl)"
    "pl = \<lparr>pl_id = \<lparr>pid_session = pn_session p, pid_value = n\<rparr>, pl_scope = scope_root (pn_scope p),
       pl_created_at = now, pl_expires_at = pl_expires_at pl, pl_versions = pn_versions p,
       pl_generation = pn_generation p, pl_items = sel_items s, pl_excluded = exc,
       pl_rejected = sel_rejected s, pl_bytes = sel_bytes s, pl_contract = pn_contract p\<rparr>"
    "p' = q\<lparr>pn_plans := (pn_plans q)(pl_id pl \<mapsto> \<lparr>rec_plan = pl, rec_state = Prepared\<rparr>)\<rparr>"
proof -
  from assms obtain now p1 w1 s n q e where t: "planner_time E p w = (Inr now, p1, w1)"
    and lt: "lt \<noteq> 0" "sel \<noteq> []" and e: "time_checked_add now lt = Some e"
    and s: "prepare_selection p1 sel exc = Inr s"
    and i: "planner_id E p1 w1 = (Inr n, q, w')"
    and pl: "pl = \<lparr>pl_id = \<lparr>pid_session = pn_session q, pid_value = n\<rparr>,
       pl_scope = scope_root (pn_scope q),
       pl_created_at = now, pl_expires_at = e, pl_versions = pn_versions q,
       pl_generation = pn_generation q, pl_items = sel_items s, pl_excluded = exc,
       pl_rejected = sel_rejected s, pl_bytes = sel_bytes s, pl_contract = pn_contract q\<rparr>"
    and p': "p' = q\<lparr>pn_plans := (pn_plans q)(pl_id pl \<mapsto> \<lparr>rec_plan = pl, rec_state = Prepared\<rparr>)\<rparr>"
    unfolding prepare_def
    by (auto simp: Let_def split: if_splits prod.splits sum.splits option.splits)
  have p1: "p1 = p\<lparr>pn_last_time := Some now\<rparr>" using planner_time_Inr [OF t] by simp
  have q: "q = p1\<lparr>pn_used_ids := insert n (pn_used_ids p1)\<rparr>" "n \<noteq> 0" "n \<notin> pn_used_ids p1"
    using planner_id_Inr [OF i] by auto
  show ?thesis
    by (rule that [of p1 now q n s]) (use lt e s p1 q pl p' in \<open>auto simp: bookkeeping_def\<close>)
qed

lemma approve_Inl: "approve E pl p w = (Inl e, p', w') \<Longrightarrow> bookkeeping p p'"
  unfolding approve_def
  by (auto split: if_splits prod.splits sum.splits option.splits
      dest!: planner_time_bookkeeping intro: bookkeeping_trans)

lemma check_plan_Inr:
  "check_plan p pl now = Inr u \<longleftrightarrow>
     (\<exists>r. pn_plans p (pl_id pl) = Some r \<and> plan_eq (rec_plan r) pl)
     \<and> pl_generation pl = pn_generation p \<and> pl_versions pl = pn_versions p
     \<and> now < pl_expires_at pl"
  by (auto simp: check_plan_def split: option.splits)

lemma approve_Inr:
  assumes "approve E pl p w = (Inr a, p', w')"
  obtains q now r where "bookkeeping p q" "pn_last_time q = Some now"
    "pn_plans p (pl_id pl) = Some r" "plan_eq (rec_plan r) pl" "rec_state r = Prepared"
    "pl_generation pl = pn_generation p" "pl_versions pl = pn_versions p" "now < pl_expires_at pl"
    "pl_items pl \<noteq> []" "a = \<lparr>appr_plan = pl_id pl\<rparr>"
    "p' = q\<lparr>pn_plans := (pn_plans q)(pl_id pl \<mapsto> r\<lparr>rec_state := Approved\<rparr>)\<rparr>"
proof -
  from assms obtain now q r where t: "planner_time E p w = (Inr now, q, w')"
    and c: "check_plan q pl now = Inr ()" and ne: "pl_items pl \<noteq> []"
    and r: "pn_plans q (pl_id pl) = Some r" "rec_state r = Prepared"
    and a: "a = \<lparr>appr_plan = pl_id pl\<rparr>"
    and p': "p' = q\<lparr>pn_plans := (pn_plans q)(pl_id pl \<mapsto> r\<lparr>rec_state := Approved\<rparr>)\<rparr>"
    unfolding approve_def by (auto split: if_splits prod.splits sum.splits option.splits)
  from planner_time_Inr [OF t] have q: "q = p\<lparr>pn_last_time := Some now\<rparr>" by simp
  show ?thesis
    by (rule that [of q now r])
      (use c ne r a p' q in \<open>auto simp: check_plan_Inr bookkeeping_def\<close>)
qed

lemma planner_validate_Inl:
  "planner_validate E pl a p w = (Inl e, p', w') \<Longrightarrow> bookkeeping p p'"
  unfolding planner_validate_def
  by (auto split: if_splits prod.splits sum.splits option.splits
      dest!: planner_time_bookkeeping intro: bookkeeping_trans)

lemma planner_validate_Inr:
  assumes "planner_validate E pl a p w = (Inr vr, p', w')"
  obtains q now r q' w1 where "bookkeeping p q" "pn_last_time q = Some now"
    "pn_plans p (pl_id pl) = Some r" "plan_eq (rec_plan r) pl" "rec_state r = Approved"
    "pl_generation pl = pn_generation p" "pl_versions pl = pn_versions p" "now < pl_expires_at pl"
    "appr_plan a = pl_id pl"
    "q' = q\<lparr>pn_plans := (pn_plans q)(pl_id pl \<mapsto> r\<lparr>rec_state := Validated\<rparr>)\<rparr>"
    "preflight_items E pl (pl_items pl) q' w1 = ((vr_ready vr, vr_skipped vr), p', w')"
    "vr_plan vr = pl_id pl"
proof -
  from assms obtain now q w1 r where t: "planner_time E p w = (Inr now, q, w1)"
    and c: "check_plan q pl now = Inr ()" and a: "appr_plan a = pl_id pl"
    and r: "pn_plans q (pl_id pl) = Some r" "rec_state r = Approved"
    and pre: "preflight_items E pl (pl_items pl)
      (q\<lparr>pn_plans := (pn_plans q)(pl_id pl \<mapsto> r\<lparr>rec_state := Validated\<rparr>)\<rparr>) w1
        = ((vr_ready vr, vr_skipped vr), p', w')" and vr: "vr_plan vr = pl_id pl"
    unfolding planner_validate_def
    by (auto split: if_splits prod.splits sum.splits option.splits)
  from planner_time_Inr [OF t] have q: "q = p\<lparr>pn_last_time := Some now\<rparr>" by simp
  show ?thesis
    by (rule that [of q now r _ w1])
      (use c a r pre vr q in \<open>auto simp: check_plan_Inr bookkeeping_def\<close>)
qed

lemma bind_items_Inr:
  "bind_items bs is = Inr js \<Longrightarrow>
     map item_resource js = map item_resource is
     \<and> map pi_observation js = map pi_observation is
     \<and> map pi_contract js = map pi_contract is
     \<and> (\<forall>j \<in> set js. pi_rule_binding j \<noteq> None \<and> pi_rule_binding j = map_of bs (item_resource j))"
proof (induction "is" arbitrary: js)
  case (Cons i "is")
  then show ?case
    by (auto simp: item_resource_def split: option.splits)
qed simp

lemma seal_Inl: "seal_rule_bindings pid bs p = (Inl e, p') \<Longrightarrow> p' = p"
  by (auto simp: seal_rule_bindings_def Let_def split: if_splits option.splits sum.splits)

lemma seal_Inr:
  assumes "seal_rule_bindings pid bs p = (Inr pl, p')"
  obtains r items where "pn_plans p pid = Some r" "rec_state r = Prepared"
    "bind_items bs (pl_items (rec_plan r)) = Inr items" "length bs = length items"
    "pl = (rec_plan r)\<lparr>pl_items := items\<rparr>"
    "p' = p\<lparr>pn_plans := (pn_plans p)(pid \<mapsto> r\<lparr>rec_plan := pl\<rparr>)\<rparr>"
  using assms
  by (auto simp: seal_rule_bindings_def Let_def split: if_splits option.splits sum.splits)

lemma set_versions_Inl: "set_versions v p = (Inl e, p') \<Longrightarrow> p' = p"
  by (auto simp: set_versions_def split: sum.splits if_splits option.splits)

lemma set_versions_Inr:
  "set_versions v p = (Inr u, p') \<Longrightarrow>
     p' = p \<and> v = pn_versions p
     \<or> v \<noteq> pn_versions p \<and> (\<exists>g. unat g = unat (pn_generation p) + 1
        \<and> p' = p\<lparr>pn_generation := g, pn_versions := v\<rparr>)"
  by (auto simp: set_versions_def unat_checked_add split: sum.splits if_splits option.splits
      intro!: exI [where x = "pn_generation p'"])

section \<open>The pure selection\<close>

lemma resolve_Inr:
  "resolve p seen rs = Inr os \<Longrightarrow>
     map obs_id os = map (\<lambda>r. obs_id (the (pn_observations p r))) rs
     \<and> list_all2 (\<lambda>r o'. pn_observations p r = Some o') rs os
     \<and> distinct rs \<and> set rs \<inter> seen = {}"
proof (induction rs arbitrary: seen os)
  case (Cons r rs)
  from Cons.prems obtain obs os' where o: "pn_observations p r = Some obs" "r \<notin> seen"
    and os': "resolve p (insert r seen) rs = Inr os'" "os = obs # os'"
    by (auto simp: planner_observation_def split: sum.splits if_splits)
  with Cons.IH [OF os'(1)] show ?case by auto
qed simp

lemma adjacent_overlap_None:
  "adjacent_overlap os = None \<longleftrightarrow>
     (\<forall>i. Suc i < length os \<longrightarrow> \<not> overlaps (obs_path (os ! i)) (obs_path (os ! Suc i)))"
proof (induction os rule: adjacent_overlap.induct)
  case (1 a b os)
  show ?case
  proof
    assume n: "adjacent_overlap (a # b # os) = None"
    then have "\<not> overlaps (obs_path a) (obs_path b)" and "adjacent_overlap (b # os) = None"
      by (auto split: if_splits)
    with 1 show "\<forall>i. Suc i < length (a # b # os) \<longrightarrow>
        \<not> overlaps (obs_path ((a # b # os) ! i)) (obs_path ((a # b # os) ! Suc i))"
      by (metis Suc_less_eq length_Cons nth_Cons_0 nth_Cons_Suc old.nat.exhaust)
  next
    assume a: "\<forall>i. Suc i < length (a # b # os) \<longrightarrow>
        \<not> overlaps (obs_path ((a # b # os) ! i)) (obs_path ((a # b # os) ! Suc i))"
    have "\<not> overlaps (obs_path a) (obs_path b)" using a by force
    moreover have "\<forall>i. Suc i < length (b # os) \<longrightarrow>
        \<not> overlaps (obs_path ((b # os) ! i)) (obs_path ((b # os) ! Suc i))"
      using a by force
    ultimately show "adjacent_overlap (a # b # os) = None" using 1 by simp
  qed
qed auto

text \<open>
  The adjacent check of the sorted selection finds every overlap: without one, no two
  selected paths are nested or equal.
\<close>

lemma sorted_no_overlap:
  assumes "adjacent_overlap (sort_by_path os) = None"
  shows "\<forall>i j. i < j \<longrightarrow> j < length os \<longrightarrow>
    \<not> overlaps (obs_path (sort_by_path os ! i)) (obs_path (sort_by_path os ! j))"
proof (intro allI impI)
  fix i j assume ij: "i < j" "j < length os"
  let ?ss = "sort_by_path os"
  have len: "length ?ss = length os" by (simp add: sort_by_path_def)
  have "\<not> comparable (map (\<lambda>o'. components (obs_path o')) ?ss ! i)
      (map (\<lambda>o'. components (obs_path o')) ?ss ! j)"
  proof (rule sorted_adjacent_incomparable)
    show "sorted (map (\<lambda>o'. components (obs_path o')) ?ss)"
      by (simp add: sort_by_path_def)
    fix k assume "Suc k < length (map (\<lambda>o'. components (obs_path o')) ?ss)"
    then show "\<not> comparable (map (\<lambda>o'. components (obs_path o')) ?ss ! k)
        (map (\<lambda>o'. components (obs_path o')) ?ss ! Suc k)"
      using assms by (simp add: adjacent_overlap_None overlaps_comparable)
  qed (use ij len in simp_all)
  then show "\<not> overlaps (obs_path (?ss ! i)) (obs_path (?ss ! j))"
    using ij len by (simp add: overlaps_comparable)
qed

lemma antichain_permute:
  assumes "mset ys = mset xs"
    and "\<forall>i j. i < j \<longrightarrow> j < length ys \<longrightarrow> \<not> R (ys ! i) (ys ! j)"
    and "\<And>a b. R a b \<longleftrightarrow> R b a" and "\<And>a. R a a"
  shows "distinct xs \<and> (\<forall>a \<in> set xs. \<forall>b \<in> set xs. a \<noteq> b \<longrightarrow> \<not> R a b)"
proof
  have "distinct ys"
    using assms(2,4) by (metis distinct_conv_nth linorder_neqE_nat)
  then show "distinct xs" using assms(1) by (metis mset_eq_imp_distinct_iff)
  show "\<forall>a \<in> set xs. \<forall>b \<in> set xs. a \<noteq> b \<longrightarrow> \<not> R a b"
  proof (intro ballI impI)
    fix a b assume "a \<in> set xs" "b \<in> set xs" and ne: "a \<noteq> b"
    then obtain i j where ij: "i < length ys" "ys ! i = a" "j < length ys" "ys ! j = b"
      using assms(1) by (metis in_set_conv_nth mset_eq_setD)
    with ne have "i < j \<or> j < i" by (metis linorder_neqE_nat)
    then show "\<not> R a b" using assms(2,3) ij by metis
  qed
qed

definition mutually_disjoint :: "observation list \<Rightarrow> bool" where
  "mutually_disjoint os \<longleftrightarrow>
     distinct os \<and> (\<forall>a \<in> set os. \<forall>b \<in> set os. a \<noteq> b \<longrightarrow> \<not> overlaps (obs_path a) (obs_path b))"

lemma no_overlap_disjoint:
  assumes "adjacent_overlap (sort_by_path os) = None"
  shows "mutually_disjoint os"
  unfolding mutually_disjoint_def
proof (rule antichain_permute [where ys = "sort_by_path os"])
  show "mset (sort_by_path os) = mset os" by (simp add: sort_by_path_def)
  show "\<forall>i j. i < j \<longrightarrow> j < length (sort_by_path os) \<longrightarrow>
      \<not> overlaps (obs_path (sort_by_path os ! i)) (obs_path (sort_by_path os ! j))"
    using sorted_no_overlap [OF assms] by (simp add: sort_by_path_def)
qed (auto simp: overlaps_sym)

text \<open>Conversely an overlap is reported, whatever the order of the selection.\<close>

lemma overlap_found:
  assumes "adjacent_overlap (sort_by_path os) = Some r"
  shows "\<exists>a \<in> set os. \<exists>b \<in> set os. overlaps (obs_path a) (obs_path b) \<and> obs_id b = r"
proof -
  have "adjacent_overlap xs = Some r \<Longrightarrow>
      \<exists>a \<in> set xs. \<exists>b \<in> set xs. overlaps (obs_path a) (obs_path b) \<and> obs_id b = r" for xs
    by (induction xs rule: adjacent_overlap.induct) (auto split: if_splits)
  from this [OF assms] show ?thesis by (simp add: sort_by_path_def)
qed

definition accepted :: "planner \<Rightarrow> observation list \<Rightarrow> observation \<Rightarrow> bool" where
  "accepted p exclusions obs \<longleftrightarrow> selection_code p exclusions obs = None"

definition new_item :: "planner \<Rightarrow> observation \<Rightarrow> plan_item" where
  "new_item p obs = \<lparr>pi_observation = obs, pi_contract = pn_contract p, pi_rule_binding = None\<rparr>"

definition known_sizes :: "observation list \<Rightarrow> u64 list" where
  "known_sizes os = List.map_filter (\<lambda>o'. snap_logical_bytes (obs_snapshot o')) os"

lemma known_sizes_simps [simp]:
  "known_sizes [] = []"
  "known_sizes (o' # os) = (case snap_logical_bytes (obs_snapshot o') of
     None \<Rightarrow> known_sizes os | Some n \<Rightarrow> n # known_sizes os)"
  by (auto simp: known_sizes_def map_filter_simps split: option.splits)

definition unknown_sizes :: "observation list \<Rightarrow> nat" where
  "unknown_sizes os = length (filter (\<lambda>o'. snap_logical_bytes (obs_snapshot o') = None) os)"

lemma refusal_None:
  assumes "refusal p path s = None"
  shows "\<not> scope_protects (pn_scope p) path" "snap_protection s = ProtClear"
    "snap_boundary s = BoundaryVerified" "kind_accepted (pn_contract p) (snap_kind s)"
    "snap_complete s" "snap_modified_at s \<noteq> None" "snap_identity s \<noteq> None"
    "snap_trash s = CapAvailable" "snap_owner s \<in> {OwnerStopped, NotApplicable}"
  using assms unfolding refusal_def boundary_refusal_def capability_refusal_def owner_refusal_def
  by (auto split: if_splits boundary.splits capability.splits owner_state.splits option.splits)
     (cases "snap_protection s"; simp)+

lemma refusal_None_iff:
  "refusal p path s = None \<longleftrightarrow>
     \<not> scope_protects (pn_scope p) path \<and> snap_protection s = ProtClear
     \<and> snap_boundary s = BoundaryVerified \<and> kind_accepted (pn_contract p) (snap_kind s)
     \<and> snap_complete s \<and> snap_modified_at s \<noteq> None \<and> snap_identity s \<noteq> None
     \<and> snap_trash s = CapAvailable \<and> snap_owner s \<in> {OwnerStopped, NotApplicable}"
proof
  assume "refusal p path s = None"
  from refusal_None [OF this] show "\<not> scope_protects (pn_scope p) path
     \<and> snap_protection s = ProtClear
     \<and> snap_boundary s = BoundaryVerified \<and> kind_accepted (pn_contract p) (snap_kind s)
     \<and> snap_complete s \<and> snap_modified_at s \<noteq> None \<and> snap_identity s \<noteq> None
     \<and> snap_trash s = CapAvailable \<and> snap_owner s \<in> {OwnerStopped, NotApplicable}"
    by blast
qed (auto simp: refusal_def boundary_refusal_def capability_refusal_def owner_refusal_def)

lemma accepted_refusal: "accepted p exc obs \<Longrightarrow> refusal p (obs_path obs) (obs_snapshot obs) = None"
  by (auto simp: accepted_def selection_code_def split: if_splits)

lemma accepted_not_excluded:
  "accepted p exc obs \<Longrightarrow> e \<in> set exc \<Longrightarrow> \<not> overlaps (obs_path obs) (obs_path e)"
  by (auto simp: accepted_def selection_code_def list_ex_iff split: if_splits)

lemma accepted_identity: "accepted p exc obs \<Longrightarrow> \<exists>i. snap_identity (obs_snapshot obs) = Some i"
  using accepted_refusal refusal_None(7) by fastforce

lemma select_items_Inr:
  "select_items p exc os s = Inr s' \<Longrightarrow>
     sel_items s' = sel_items s @ map (new_item p) (filter (accepted p exc) os)
     \<and> sel_rejected s' = sel_rejected s
         @ map (\<lambda>o'. rejection_new (obs_id o') (the (selection_code p exc o')))
             (filter (\<lambda>o'. \<not> accepted p exc o') os)
     \<and> unat (known_bytes (sel_bytes s'))
         = unat (known_bytes (sel_bytes s))
           + sum_list (map unat (known_sizes (filter (accepted p exc) os)))
     \<and> unknown_items (sel_bytes s')
         = unknown_items (sel_bytes s) + unknown_sizes (filter (accepted p exc) os)
     \<and> distinct (map (\<lambda>o'. the (snap_identity (obs_snapshot o'))) (filter (accepted p exc) os))
     \<and> (\<lambda>o'. the (snap_identity (obs_snapshot o'))) ` set (filter (accepted p exc) os)
         \<inter> sel_identities s = {}"
proof (induction os arbitrary: s)
  case Nil
  then show ?case by (simp add: unknown_sizes_def)
next
  case (Cons obs os)
  show ?case
  proof (cases "selection_code p exc obs")
    case (Some c)
    then have "\<not> accepted p exc obs" by (simp add: accepted_def)
    moreover have "select_items p exc os
        (s\<lparr>sel_rejected := sel_rejected s @ [rejection_new (obs_id obs) c]\<rparr>) = Inr s'"
      using Cons.prems Some by simp
    ultimately show ?thesis using Cons.IH Some by fastforce
  next
    case None
    then have acc: "accepted p exc obs" by (simp add: accepted_def)
    then obtain i where i: "snap_identity (obs_snapshot obs) = Some i"
      using accepted_identity by blast
    from Cons.prems None i obtain b where nin: "i \<notin> sel_identities s"
      and b: "add_size (sel_bytes s) (snap_logical_bytes (obs_snapshot obs)) = Some b"
      and rest: "select_items p exc os
        (s\<lparr>sel_identities := insert i (sel_identities s), sel_bytes := b,
           sel_items := sel_items s @ [new_item p obs]\<rparr>) = Inr s'"
      by (auto simp: new_item_def split: if_splits option.splits)
    have sizes: "unat (known_bytes b) = unat (known_bytes (sel_bytes s))
          + sum_list (map unat (known_sizes [obs]))"
      "unknown_items b = unknown_items (sel_bytes s) + unknown_sizes [obs]"
      using b by (auto simp: add_size_def unknown_sizes_def unat_checked_add split: option.splits)
    show ?thesis
      using Cons.IH [OF rest] acc i nin sizes
      by (auto simp: unknown_sizes_def split: option.splits)
  qed
qed

end
