(* ===== verification/Systems.thy ===== *)
theory Systems
  imports Prelude
begin

text \<open>
  Interfaces of transition systems. A client that only needs that every step keeps a predicate,
  that every step lets a rank grow, or that a concrete machine is simulated by an abstract one,
  states it over these locales; the components interpret them on their own step relations.
\<close>

locale invariant_system =
  fixes step :: "'s \<Rightarrow> 's \<Rightarrow> bool"
    and inv :: "'s \<Rightarrow> bool"
  assumes step_inv: "step s t \<Longrightarrow> inv s \<Longrightarrow> inv t"
begin

lemma run_inv: "step\<^sup>*\<^sup>* s t \<Longrightarrow> inv s \<Longrightarrow> inv t"
  by (induction rule: rtranclp_induct) (blast intro: step_inv)+

end

text \<open>
  A keyed store whose entries only advance: \<open>lookup s k\<close> is the entry of key \<open>k\<close>, \<open>advance x y\<close>
  that \<open>y\<close> may follow \<open>x\<close>.
\<close>

locale advancing_system = invariant_system step inv
  for step :: "'s \<Rightarrow> 's \<Rightarrow> bool" and inv :: "'s \<Rightarrow> bool" +
  fixes lookup :: "'s \<Rightarrow> 'k \<Rightarrow> 'v option"
    and advance :: "'v \<Rightarrow> 'v \<Rightarrow> bool"
  assumes advance_refl: "advance x x"
    and advance_trans: "advance x y \<Longrightarrow> advance y z \<Longrightarrow> advance x z"
    and step_advance:
      "step s t \<Longrightarrow> inv s \<Longrightarrow> lookup s k = Some x \<Longrightarrow> \<exists>y. lookup t k = Some y \<and> advance x y"
begin

lemma run_advance:
  "step\<^sup>*\<^sup>* s t \<Longrightarrow> inv s \<Longrightarrow> lookup s k = Some x \<Longrightarrow> \<exists>y. lookup t k = Some y \<and> advance x y"
proof (induction rule: rtranclp_induct)
  case base
  then show ?case using advance_refl by blast
next
  case (step t u)
  then obtain y where "lookup t k = Some y" "advance x y" by blast
  with step show ?case
    using step_advance run_inv advance_trans by meson
qed

end

locale simulation =
  fixes step :: "'s \<Rightarrow> 's \<Rightarrow> bool"
    and inv :: "'s \<Rightarrow> bool"
    and astep :: "'a \<Rightarrow> 'a \<Rightarrow> bool"
    and abs :: "'s \<Rightarrow> 'a"
  assumes sim_inv: "step s t \<Longrightarrow> inv s \<Longrightarrow> inv t"
    and sim_step: "step s t \<Longrightarrow> inv s \<Longrightarrow> astep (abs s) (abs t)"
begin

sublocale inv: invariant_system step inv
  by unfold_locales (rule sim_inv)

lemma run_simulated: "step\<^sup>*\<^sup>* s t \<Longrightarrow> inv s \<Longrightarrow> astep\<^sup>*\<^sup>* (abs s) (abs t)"
proof (induction rule: rtranclp_induct)
  case base
  then show ?case by simp
next
  case (step t u)
  then have "astep\<^sup>*\<^sup>* (abs s) (abs t)" and "inv t"
    using inv.run_inv by blast+
  then show ?case
    using step sim_step by (meson rtranclp.rtrancl_into_rtrancl)
qed

end

end
