(* ===== verification/Planner_Session.thy ===== *)
theory Planner_Session
  imports Planner Systems
begin

text \<open>
  A planning session over time: the well-formedness invariant of its registry, the step relation
  of the public operations, an abstract session machine that says what a session promises
  (fresh identifiers, plans that only advance from \<open>Prepared\<close> to \<open>Approved\<close> to \<open>Validated\<close>, a
  generation that only grows), and the simulation between the two.
\<close>

section \<open>The registry invariant\<close>

definition plan_record_wf :: "planner \<Rightarrow> plan_id \<Rightarrow> plan_record \<Rightarrow> bool" where
  "plan_record_wf p pid r \<longleftrightarrow>
     pl_id (rec_plan r) = pid \<and> pid_session pid = pn_session p \<and> pid_value pid \<in> pn_used_ids p
     \<and> pl_generation (rec_plan r) \<le> pn_generation p
     \<and> (pl_generation (rec_plan r) = pn_generation p \<longrightarrow> pl_versions (rec_plan r) = pn_versions p)"

definition observation_wf :: "planner \<Rightarrow> resource_id \<Rightarrow> observation \<Rightarrow> bool" where
  "observation_wf p r obs \<longleftrightarrow>
     obs_id obs = r \<and> rid_session r = pn_session p \<and> rid_value r \<in> pn_used_ids p
     \<and> components (obs_path obs) \<in> pn_paths p
     \<and> valid_absolute_path (obs_path obs) \<and> scope_contains (pn_scope p) (obs_path obs)"

definition planner_wf :: "planner \<Rightarrow> bool" where
  "planner_wf p \<longleftrightarrow>
     0 \<notin> pn_used_ids p
     \<and> (\<forall>r obs. pn_observations p r = Some obs \<longrightarrow> observation_wf p r obs)
     \<and> (\<forall>r r' obs obs'. pn_observations p r = Some obs \<longrightarrow> pn_observations p r' = Some obs' \<longrightarrow>
          path_eq (obs_path obs) (obs_path obs') \<longrightarrow> r = r')
     \<and> (\<forall>pid r. pn_plans p pid = Some r \<longrightarrow> plan_record_wf p pid r)
     \<and> (\<forall>r pid. r \<in> dom (pn_observations p) \<longrightarrow> pid \<in> dom (pn_plans p) \<longrightarrow>
          rid_value r \<noteq> pid_value pid)"

lemma planner_wfD:
  assumes "planner_wf p"
  shows "0 \<notin> pn_used_ids p"
    "\<And>r obs. pn_observations p r = Some obs \<Longrightarrow> observation_wf p r obs"
    "\<And>r r' obs obs'. pn_observations p r = Some obs \<Longrightarrow> pn_observations p r' = Some obs' \<Longrightarrow>
       path_eq (obs_path obs) (obs_path obs') \<Longrightarrow> r = r'"
    "\<And>pid r. pn_plans p pid = Some r \<Longrightarrow> plan_record_wf p pid r"
    "\<And>r pid. pn_observations p r \<noteq> None \<Longrightarrow> pn_plans p pid \<noteq> None \<Longrightarrow>
       rid_value r \<noteq> pid_value pid"
  using assms unfolding planner_wf_def by blast+

lemma planner_wfI:
  assumes "0 \<notin> pn_used_ids p"
    and "\<And>r obs. pn_observations p r = Some obs \<Longrightarrow> observation_wf p r obs"
    and "\<And>r r' obs obs'. pn_observations p r = Some obs \<Longrightarrow> pn_observations p r' = Some obs' \<Longrightarrow>
       path_eq (obs_path obs) (obs_path obs') \<Longrightarrow> r = r'"
    and "\<And>pid r. pn_plans p pid = Some r \<Longrightarrow> plan_record_wf p pid r"
    and "\<And>r pid. r \<in> dom (pn_observations p) \<Longrightarrow> pid \<in> dom (pn_plans p) \<Longrightarrow>
       rid_value r \<noteq> pid_value pid"
  shows "planner_wf p"
  using assms unfolding planner_wf_def by blast

lemma planner_new_wf: "planner_new s v c = (Inr p, c') \<Longrightarrow> planner_wf p"
  by (auto simp: planner_new_def planner_wf_def split: sum.splits option.splits)

lemma bookkeeping_wf:
  assumes "bookkeeping p p'" and "planner_wf p"
  shows "planner_wf p'"
proof -
  note f = bookkeeping_fields [OF assms(1)]
  have "0 \<notin> pn_used_ids p'"
    using assms planner_wfD(1) by (auto simp: bookkeeping_def)
  moreover have "observation_wf p r obs \<Longrightarrow> observation_wf p' r obs" for r obs
    using f by (auto simp: observation_wf_def)
  moreover have "plan_record_wf p i r \<Longrightarrow> plan_record_wf p' i r" for i r
    using f by (auto simp: plan_record_wf_def)
  ultimately show ?thesis
    using assms(2) f by (simp add: planner_wf_def)
qed

text \<open>A fresh identifier belongs to no observation and no plan.\<close>

lemma fresh_id:
  assumes "planner_wf p" and "n \<notin> pn_used_ids p"
  shows "pn_observations p r \<noteq> None \<Longrightarrow> rid_value r \<noteq> n"
    and "pn_plans p pid \<noteq> None \<Longrightarrow> pid_value pid \<noteq> n"
  using planner_wfD(2,4) [OF assms(1)] assms(2)
  by (auto simp: observation_wf_def plan_record_wf_def)

lemma register_wf:
  assumes wf: "planner_wf p" and b: "bookkeeping p q" and n: "n \<notin> pn_used_ids p" "n \<in> pn_used_ids q"
    and path: "components path \<notin> pn_paths p" "valid_absolute_path path"
      "scope_contains (pn_scope p) path"
    and obs: "obs = \<lparr>obs_id = rid, obs_path = path, obs_observed_at = t, obs_snapshot = s\<rparr>"
      "rid = \<lparr>rid_session = pn_session p, rid_value = n\<rparr>"
  shows "planner_wf (q\<lparr>pn_paths := insert (components path) (pn_paths q),
       pn_observations := (pn_observations q)(rid \<mapsto> obs)\<rparr>)" (is "planner_wf ?p'")
proof -
  note f = bookkeeping_fields [OF b] and wq = bookkeeping_wf [OF b wf]
  have newpath: "\<not> path_eq path (obs_path obs')" "\<not> path_eq (obs_path obs') path"
    if "pn_observations q r = Some obs'" for r obs'
  proof -
    have "components (obs_path obs') \<in> pn_paths p"
      using that planner_wfD(2) [OF wf, of r obs'] f by (simp add: observation_wf_def)
    with path(1) show "\<not> path_eq path (obs_path obs')" "\<not> path_eq (obs_path obs') path"
      by (metis path_eq_def)+
  qed
  have newid: "pn_plans q pid \<noteq> None \<Longrightarrow> n \<noteq> pid_value pid" for pid
    using fresh_id(2) [OF wf n(1)] f by metis
  show ?thesis
    unfolding planner_wf_def
  proof (intro conjI allI impI)
    show "0 \<notin> pn_used_ids ?p'" using planner_wfD(1) [OF wq] by simp
  next
    fix r obs' assume "pn_observations ?p' r = Some obs'"
    then show "observation_wf ?p' r obs'"
      using planner_wfD(2) [OF wq, of r obs'] obs f n path
      by (auto simp: observation_wf_def split: if_splits)
  next
    fix r r' o1 o2
    assume "pn_observations ?p' r = Some o1" "pn_observations ?p' r' = Some o2"
      "path_eq (obs_path o1) (obs_path o2)"
    then show "r = r'"
      using planner_wfD(3) [OF wq, of r o1 r' o2] newpath obs by (auto split: if_splits)
  next
    fix pid r assume "pn_plans ?p' pid = Some r"
    then show "plan_record_wf ?p' pid r"
      using planner_wfD(4) [OF wq, of pid r] by (simp add: plan_record_wf_def)
  next
    fix r pid assume "r \<in> dom (pn_observations ?p')" "pid \<in> dom (pn_plans ?p')"
    then show "rid_value r \<noteq> pid_value pid"
      using planner_wfD(5) [OF wq, of r pid] newid obs by (auto split: if_splits)
  qed
qed

lemma publish_wf:
  assumes wf: "planner_wf p" and b: "bookkeeping p q" and n: "n \<notin> pn_used_ids p" "n \<in> pn_used_ids q"
    and pl: "pl_id pl = pid" "pid = \<lparr>pid_session = pn_session p, pid_value = n\<rparr>"
      "pl_generation pl = pn_generation p" "pl_versions pl = pn_versions p"
  shows "planner_wf (q\<lparr>pn_plans := (pn_plans q)(pid \<mapsto> \<lparr>rec_plan = pl, rec_state = st\<rparr>)\<rparr>)"
    (is "planner_wf ?p'")
proof -
  note f = bookkeeping_fields [OF b] and wq = bookkeeping_wf [OF b wf]
  have newid: "pn_observations q r \<noteq> None \<Longrightarrow> rid_value r \<noteq> n" for r
    using fresh_id(1) [OF wf n(1)] f by metis
  have "plan_record_wf ?p' i r" if "pn_plans ?p' i = Some r" for i r
    using that planner_wfD(4) [OF wq, of i r] pl f n
    by (auto simp: plan_record_wf_def split: if_splits)
  moreover have "observation_wf ?p' r obs" if "pn_observations ?p' r = Some obs" for r obs
    using that planner_wfD(2) [OF wq, of r obs] by (simp add: observation_wf_def)
  moreover have "rid_value r \<noteq> pid_value i"
    if "r \<in> dom (pn_observations q)" "i \<in> dom (pn_plans q) \<or> i = pid" for r i
    using that newid [of r] planner_wfD(5) [OF wq, of r i] pl(2) by auto
  ultimately show ?thesis
    using planner_wfD(1,3) [OF wq] by (intro planner_wfI) (simp_all, blast+)
qed

lemma update_record_wf:
  assumes wf: "planner_wf q" and r: "pn_plans q pid = Some r"
    and r': "pl_id (rec_plan r') = pl_id (rec_plan r)"
      "pl_generation (rec_plan r') = pl_generation (rec_plan r)"
      "pl_versions (rec_plan r') = pl_versions (rec_plan r)"
  shows "planner_wf (q\<lparr>pn_plans := (pn_plans q)(pid \<mapsto> r')\<rparr>)" (is "planner_wf ?p'")
proof -
  have "plan_record_wf ?p' i x" if "pn_plans ?p' i = Some x" for i x
    using that planner_wfD(4) [OF wf, of i x] planner_wfD(4) [OF wf r] r'
    by (auto simp: plan_record_wf_def split: if_splits)
  moreover have "observation_wf ?p' r obs" if "pn_observations ?p' r = Some obs" for r obs
    using that planner_wfD(2) [OF wf, of r obs] by (simp add: observation_wf_def)
  moreover have "rid_value x \<noteq> pid_value i"
    if "x \<in> dom (pn_observations q)" "i \<in> dom (pn_plans q) \<or> i = pid" for x i
    using that planner_wfD(5) [OF wf, of x i] r by auto
  ultimately show ?thesis
    using planner_wfD(1,3) [OF wf] by (intro planner_wfI) (simp_all, blast+)
qed

lemma set_versions_wf:
  assumes "planner_wf p" and "set_versions v p = (res, p')"
  shows "planner_wf p'"
proof (cases res)
  case (Inl e)
  then show ?thesis using assms set_versions_Inl by blast
next
  case (Inr u)
  with assms(2) consider "p' = p"
    | g where "unat g = unat (pn_generation p) + 1"
      "p' = p\<lparr>pn_generation := g, pn_versions := v\<rparr>"
    using set_versions_Inr by blast
  then show ?thesis
  proof cases
    case 2
    have "pl_generation (rec_plan r) < g" if "pn_plans p i = Some r" for i r
      using planner_wfD(4) [OF assms(1) that] 2(1)
      by (auto simp: plan_record_wf_def word_le_nat_alt word_less_nat_alt)
    then have "plan_record_wf p' i r" if "pn_plans p i = Some r" for i r
      using planner_wfD(4) [OF assms(1) that] 2 that
      by (fastforce simp: plan_record_wf_def)
    moreover have "observation_wf p' r obs" if "pn_observations p r = Some obs" for r obs
      using planner_wfD(2) [OF assms(1) that] 2(2) by (simp add: observation_wf_def)
    ultimately show ?thesis
      using assms(1) 2(2) by (simp add: planner_wf_def)
  qed (use assms in simp)
qed

section \<open>Steps of a session\<close>

text \<open>
  One public operation, started in any world: between two operations the outside world may
  have changed in any way.
\<close>

inductive planner_step :: "'w env \<Rightarrow> planner \<Rightarrow> planner \<Rightarrow> bool" for E where
  step_discover: "discover E path p w = (res_f, p', w') \<Longrightarrow> planner_step E p p'"
| step_prepare: "prepare E sel exc lt p w = (res_p, p', w') \<Longrightarrow> planner_step E p p'"
| step_approve: "approve E pl p w = (res_a, p', w') \<Longrightarrow> planner_step E p p'"
| step_seal: "seal_rule_bindings pid bs p = (res_s, p') \<Longrightarrow> planner_step E p p'"
| step_validate: "planner_validate E pl a p w = (res_v, p', w') \<Longrightarrow> planner_step E p p'"
| step_versions: "set_versions v p = (res_u, p') \<Longrightarrow> planner_step E p p'"
| step_stop: "preflight_stop E pl p w = (stop, p', w') \<Longrightarrow> planner_step E p p'"

abbreviation planner_run :: "'w env \<Rightarrow> planner \<Rightarrow> planner \<Rightarrow> bool" where
  "planner_run E \<equiv> (planner_step E)\<^sup>*\<^sup>*"

section \<open>The abstract session\<close>

record abs_session =
  as_observations :: "resource_id \<rightharpoonup> observation"
  as_plans :: "plan_id \<rightharpoonup> plan \<times> plan_state"
  as_generation :: u64

definition abs_planner :: "planner \<Rightarrow> abs_session" where
  "abs_planner p = \<lparr>as_observations = pn_observations p,
     as_plans = (\<lambda>i. map_option (\<lambda>r. (rec_plan r, rec_state r)) (pn_plans p i)),
     as_generation = pn_generation p\<rparr>"

inductive abs_step :: "abs_session \<Rightarrow> abs_session \<Rightarrow> bool" where
  stutter: "abs_step a a"
| register: "as_observations a r = None \<Longrightarrow>
     abs_step a (a\<lparr>as_observations := (as_observations a)(r \<mapsto> obs)\<rparr>)"
| publish: "as_plans a (pl_id pl) = None \<Longrightarrow> pl_generation pl = as_generation a \<Longrightarrow>
     abs_step a (a\<lparr>as_plans := (as_plans a)(pl_id pl \<mapsto> (pl, Prepared))\<rparr>)"
| seal: "as_plans a pid = Some (pl, Prepared) \<Longrightarrow> 
     map pi_observation items = map pi_observation (pl_items pl) \<Longrightarrow>
     abs_step a (a\<lparr>as_plans := (as_plans a)(pid \<mapsto> (pl\<lparr>pl_items := items\<rparr>, Prepared))\<rparr>)"
| approve: "as_plans a pid = Some (pl, Prepared) \<Longrightarrow> pl_generation pl = as_generation a \<Longrightarrow>
     abs_step a (a\<lparr>as_plans := (as_plans a)(pid \<mapsto> (pl, Approved))\<rparr>)"
| consume: "as_plans a pid = Some (pl, Approved) \<Longrightarrow> pl_generation pl = as_generation a \<Longrightarrow>
     abs_step a (a\<lparr>as_plans := (as_plans a)(pid \<mapsto> (pl, Validated))\<rparr>)"
| bump: "as_generation a < g \<Longrightarrow> abs_step a (a\<lparr>as_generation := g\<rparr>)"

fun state_rank :: "plan_state \<Rightarrow> nat" where
  "state_rank Prepared = 0"
| "state_rank Approved = 1"
| "state_rank Validated = 2"

definition advance :: "plan \<times> plan_state \<Rightarrow> plan \<times> plan_state \<Rightarrow> bool" where
  "advance x y \<longleftrightarrow> state_rank (snd x) \<le> state_rank (snd y)
     \<and> fst y = (fst x)\<lparr>pl_items := pl_items (fst y)\<rparr>
     \<and> map pi_observation (pl_items (fst y)) = map pi_observation (pl_items (fst x))
     \<and> (snd x \<noteq> Prepared \<longrightarrow> fst y = fst x)"

interpretation plans: advancing_system abs_step "\<lambda>_. True" as_plans advance
proof
  show "advance x y \<Longrightarrow> advance y z \<Longrightarrow> advance x z" for x y z
    by (cases "fst x"; cases "fst y"; cases "fst z"; cases "snd x"; cases "snd y")
      (auto simp: advance_def)
  show "abs_step s t \<Longrightarrow> as_plans s k = Some x \<Longrightarrow> \<exists>y. as_plans t k = Some y \<and> advance x y"
    for s t k x
    by (induction rule: abs_step.induct) (cases x, auto simp: advance_def)+
qed (simp_all add: advance_def)

lemma abs_step_generation: "abs_step a b \<Longrightarrow> as_generation a \<le> as_generation b"
  by (induction rule: abs_step.induct) auto

lemma abs_run_generation: "abs_step\<^sup>*\<^sup>* a b \<Longrightarrow> as_generation a \<le> as_generation b"
  by (induction rule: rtranclp_induct) (auto dest: abs_step_generation)

section \<open>The session implements the abstract session\<close>

lemma abs_planner_bookkeeping: "bookkeeping p q \<Longrightarrow> abs_planner q = abs_planner p"
  by (simp add: abs_planner_def bookkeeping_fields)

lemma abs_planner_simps [simp]:
  "as_observations (abs_planner p) = pn_observations p"
  "as_generation (abs_planner p) = pn_generation p"
  "as_plans (abs_planner p) i = map_option (\<lambda>r. (rec_plan r, rec_state r)) (pn_plans p i)"
  by (simp_all add: abs_planner_def)

lemma abs_planner_set_record:
  "abs_planner (q\<lparr>pn_plans := (pn_plans q)(i \<mapsto> r)\<rparr>)
     = (abs_planner q)\<lparr>as_plans := (as_plans (abs_planner q))(i \<mapsto> (rec_plan r, rec_state r))\<rparr>"
  by (auto simp: abs_planner_def fun_eq_iff)

lemma discover_step:
  assumes wf: "planner_wf p" and d: "discover E path p w = (res, p', w')"
  shows "planner_wf p' \<and> abs_step (abs_planner p) (abs_planner p')"
proof (cases res)
  case (Inl e)
  then have "bookkeeping p p'" using d discover_Inl by metis
  then show ?thesis
    using wf bookkeeping_wf abs_planner_bookkeeping abs_step.stutter by metis
next
  case (Inr f)
  from d [unfolded Inr] show ?thesis
  proof (rule discover_Inr)
    fix q n t s
    assume b: "bookkeeping p q" and n: "n \<noteq> 0" "n \<notin> pn_used_ids p" "n \<in> pn_used_ids q"
      and path: "valid_absolute_path path" "scope_contains (pn_scope p) path"
        "components path \<notin> pn_paths p"
      and f: "fnd_observation f = \<lparr>obs_id = \<lparr>rid_session = pn_session p, rid_value = n\<rparr>,
        obs_path = path, obs_observed_at = t, obs_snapshot = s\<rparr>"
      and p': "p' = q\<lparr>pn_paths := insert (components path) (pn_paths q),
        pn_observations := (pn_observations q)(obs_id (fnd_observation f) \<mapsto> fnd_observation f)\<rparr>"
    let ?r = "obs_id (fnd_observation f)"
    have "planner_wf p'"
      unfolding p' by (rule register_wf [OF wf b n(2,3) path(3,1,2)]) (use f in simp_all)
    moreover have "pn_observations q ?r = None"
      using fresh_id(1) [OF wf n(2), of ?r] f bookkeeping_fields(5) [OF b] by fastforce
    moreover have "abs_planner p' = (abs_planner q)\<lparr>as_observations :=
        (as_observations (abs_planner q))(?r \<mapsto> fnd_observation f)\<rparr>"
      unfolding p' by (simp add: abs_planner_def)
    ultimately show ?thesis
      using abs_planner_bookkeeping [OF b] abs_step.register by (metis abs_planner_simps(1))
  qed
qed

lemma prepare_step:
  assumes wf: "planner_wf p" and d: "prepare E sel exc lt p w = (res, p', w')"
  shows "planner_wf p' \<and> abs_step (abs_planner p) (abs_planner p')"
proof (cases res)
  case (Inl e)
  then have "bookkeeping p p'" using d prepare_Inl by metis
  then show ?thesis
    using wf bookkeeping_wf abs_planner_bookkeeping abs_step.stutter by metis
next
  case (Inr pl)
  from d [unfolded Inr] show ?thesis
  proof (rule prepare_Inr)
    fix q n now p1 s
    assume b: "bookkeeping p q" and n: "n \<noteq> 0" "n \<notin> pn_used_ids p" "n \<in> pn_used_ids q"
      and pl: "pl = \<lparr>pl_id = \<lparr>pid_session = pn_session p, pid_value = n\<rparr>,
       pl_scope = scope_root (pn_scope p),
       pl_created_at = now, pl_expires_at = pl_expires_at pl, pl_versions = pn_versions p,
       pl_generation = pn_generation p, pl_items = sel_items s, pl_excluded = exc,
       pl_rejected = sel_rejected s, pl_bytes = sel_bytes s, pl_contract = pn_contract p\<rparr>"
      and p': "p' = q\<lparr>pn_plans := (pn_plans q)(pl_id pl \<mapsto> \<lparr>rec_plan = pl, rec_state = Prepared\<rparr>)\<rparr>"
    have ids: "pl_id pl = \<lparr>pid_session = pn_session p, pid_value = n\<rparr>"
      "pl_generation pl = pn_generation p" "pl_versions pl = pn_versions p"
      using pl by (metis plan.select_convs)+
    have "planner_wf p'"
      unfolding p' by (rule publish_wf [OF wf b n(2,3)]) (use ids in simp_all)
    moreover have "pn_plans q (pl_id pl) = None"
      using fresh_id(2) [OF wf n(2), of "pl_id pl"] ids bookkeeping_fields(7) [OF b] by fastforce
    moreover have "abs_planner p' = (abs_planner q)\<lparr>as_plans :=
        (as_plans (abs_planner q))(pl_id pl \<mapsto> (pl, Prepared))\<rparr>"
      unfolding p' by (simp add: abs_planner_set_record)
    ultimately show ?thesis
      using abs_planner_bookkeeping [OF b] abs_step.publish [of "abs_planner q" pl] ids
        bookkeeping_fields(4,7) [OF b] by simp
  qed
qed

lemma approve_step:
  assumes wf: "planner_wf p" and d: "approve E pl p w = (res, p', w')"
  shows "planner_wf p' \<and> abs_step (abs_planner p) (abs_planner p')"
proof (cases res)
  case (Inl e)
  then have "bookkeeping p p'" using d approve_Inl by metis
  then show ?thesis
    using wf bookkeeping_wf abs_planner_bookkeeping abs_step.stutter by metis
next
  case (Inr a)
  from d [unfolded Inr] show ?thesis
  proof (rule approve_Inr)
    fix q now r
    assume b: "bookkeeping p q" and r: "pn_plans p (pl_id pl) = Some r" "plan_eq (rec_plan r) pl"
        "rec_state r = Prepared" and g: "pl_generation pl = pn_generation p"
      and p': "p' = q\<lparr>pn_plans := (pn_plans q)(pl_id pl \<mapsto> r\<lparr>rec_state := Approved\<rparr>)\<rparr>"
    have rq: "pn_plans q (pl_id pl) = Some r" using r(1) bookkeeping_fields(7) [OF b] by simp
    have "planner_wf p'"
      unfolding p' by (rule update_record_wf [OF bookkeeping_wf [OF b wf] rq]) simp_all
    moreover have "abs_planner p' = (abs_planner q)\<lparr>as_plans :=
        (as_plans (abs_planner q))(pl_id pl \<mapsto> (rec_plan r, Approved))\<rparr>"
      unfolding p' by (simp add: abs_planner_set_record)
    moreover have "pl_generation (rec_plan r) = pn_generation q"
      using g plan_eqD(4) [OF r(2)] bookkeeping_fields(4) [OF b] by simp
    ultimately show ?thesis
      using abs_planner_bookkeeping [OF b] abs_step.approve [of "abs_planner q" "pl_id pl" "rec_plan r"]
        rq r(1,3) bookkeeping_fields(4) [OF b] by simp
  qed
qed

lemma validate_step:
  assumes wf: "planner_wf p" and d: "planner_validate E pl a p w = (res, p', w')"
  shows "planner_wf p' \<and> abs_step (abs_planner p) (abs_planner p')"
proof (cases res)
  case (Inl e)
  then have "bookkeeping p p'" using d planner_validate_Inl by metis
  then show ?thesis
    using wf bookkeeping_wf abs_planner_bookkeeping abs_step.stutter by metis
next
  case (Inr vr)
  from d [unfolded Inr] show ?thesis
  proof (rule planner_validate_Inr)
    fix q now r q' w1
    assume b: "bookkeeping p q" and r: "pn_plans p (pl_id pl) = Some r" "plan_eq (rec_plan r) pl"
        "rec_state r = Approved" and g: "pl_generation pl = pn_generation p"
      and q': "q' = q\<lparr>pn_plans := (pn_plans q)(pl_id pl \<mapsto> r\<lparr>rec_state := Validated\<rparr>)\<rparr>"
      and pre: "preflight_items E pl (pl_items pl) q' w1 = ((vr_ready vr, vr_skipped vr), p', w')"
    have rq: "pn_plans q (pl_id pl) = Some r" using r(1) bookkeeping_fields(7) [OF b] by simp
    have b': "bookkeeping q' p'" using pre by (rule preflight_items_bookkeeping)
    have "planner_wf q'"
      unfolding q' by (rule update_record_wf [OF bookkeeping_wf [OF b wf] rq]) simp_all
    then have "planner_wf p'" by (rule bookkeeping_wf [OF b'])
    moreover have "abs_planner p' = (abs_planner q)\<lparr>as_plans :=
        (as_plans (abs_planner q))(pl_id pl \<mapsto> (rec_plan r, Validated))\<rparr>"
      unfolding abs_planner_bookkeeping [OF b'] q' by (simp add: abs_planner_set_record)
    moreover have "pl_generation (rec_plan r) = pn_generation q"
      using g plan_eqD(4) [OF r(2)] bookkeeping_fields(4) [OF b] by simp
    ultimately show ?thesis
      using abs_planner_bookkeeping [OF b] abs_step.consume [of "abs_planner q" "pl_id pl" "rec_plan r"]
        rq r(1,3) bookkeeping_fields(4) [OF b] by simp
  qed
qed

lemma seal_step:
  assumes wf: "planner_wf p" and d: "seal_rule_bindings pid bs p = (res, p')"
  shows "planner_wf p' \<and> abs_step (abs_planner p) (abs_planner p')"
proof (cases res)
  case (Inl e)
  then have "p' = p" using d seal_Inl by metis
  then show ?thesis using wf abs_step.stutter by simp
next
  case (Inr pl)
  from d [unfolded Inr] show ?thesis
  proof (rule seal_Inr)
    fix r items
    assume r: "pn_plans p pid = Some r" "rec_state r = Prepared"
      and b: "bind_items bs (pl_items (rec_plan r)) = Inr items"
      and pl: "pl = (rec_plan r)\<lparr>pl_items := items\<rparr>"
      and p': "p' = p\<lparr>pn_plans := (pn_plans p)(pid \<mapsto> r\<lparr>rec_plan := pl\<rparr>)\<rparr>"
    have "planner_wf p'"
      unfolding p' by (rule update_record_wf [OF wf r(1)]) (use pl in simp_all)
    moreover have "abs_planner p' = (abs_planner p)\<lparr>as_plans :=
        (as_plans (abs_planner p))(pid \<mapsto> ((rec_plan r)\<lparr>pl_items := items\<rparr>, Prepared))\<rparr>"
      unfolding p' pl by (simp add: abs_planner_set_record r)
    ultimately show ?thesis
      using abs_step.seal [of "abs_planner p" pid "rec_plan r" items] r bind_items_Inr [OF b] by simp
  qed
qed

lemma versions_step:
  assumes wf: "planner_wf p" and d: "set_versions v p = (res, p')"
  shows "planner_wf p' \<and> abs_step (abs_planner p) (abs_planner p')"
proof -
  have "abs_step (abs_planner p) (abs_planner p')"
  proof (cases res)
    case (Inl e)
    then show ?thesis using d set_versions_Inl abs_step.stutter by metis
  next
    case (Inr u)
    with d consider "p' = p"
      | g where "unat g = unat (pn_generation p) + 1"
        "p' = p\<lparr>pn_generation := g, pn_versions := v\<rparr>"
      using set_versions_Inr by blast
    then show ?thesis
    proof cases
      case 2
      then have "abs_planner p' = (abs_planner p)\<lparr>as_generation := g\<rparr>"
        and "as_generation (abs_planner p) < g"
        by (simp_all add: abs_planner_def word_less_nat_alt)
      then show ?thesis using abs_step.bump by metis
    qed (simp add: abs_step.stutter)
  qed
  then show ?thesis using set_versions_wf [OF wf d] by blast
qed

lemma planner_step_sim:
  "planner_step E p p' \<Longrightarrow> planner_wf p \<Longrightarrow>
     planner_wf p' \<and> abs_step (abs_planner p) (abs_planner p')"
proof (induction rule: planner_step.induct)
  case (step_stop pl p w stop p' w')
  then show ?case
    by (metis preflight_stop_bookkeeping bookkeeping_wf abs_planner_bookkeeping abs_step.stutter)
qed (blast dest: discover_step prepare_step approve_step seal_step validate_step versions_step)+

interpretation session: simulation "planner_step E" planner_wf abs_step abs_planner
  for E :: "'w env"
  by unfold_locales (blast dest: planner_step_sim)+

text \<open>The consequences every client of a session uses.\<close>

lemma run_wf: "planner_run E p p' \<Longrightarrow> planner_wf p \<Longrightarrow> planner_wf p'"
  by (rule session.inv.run_inv)

lemma run_plan_advances:
  assumes "planner_run E p p'" and "planner_wf p" and "pn_plans p pid = Some r"
  shows "\<exists>r'. pn_plans p' pid = Some r'
     \<and> advance (rec_plan r, rec_state r) (rec_plan r', rec_state r')"
  using plans.run_advance [OF session.run_simulated [OF assms(1,2)], of pid] assms(3)
  by auto

lemma run_generation: "planner_run E p p' \<Longrightarrow> planner_wf p \<Longrightarrow> pn_generation p \<le> pn_generation p'"
  using abs_run_generation [OF session.run_simulated] by (metis abs_planner_simps(2))

end
