(* ===== verification/Planner_Properties.thy ===== *)
theory Planner_Properties
  imports Planner_Session
begin

text \<open>
  What a planning session promises, stated over its operations and its runs, with a scripted
  world (a clock that ticks, sequential identifiers, a probe that answers every path) on which
  each promise is exercised.
\<close>

section \<open>A scripted world\<close>

definition demo_snapshot :: "path \<Rightarrow> snapshot" where
  "demo_snapshot p = \<lparr>snap_identity = Some (Unix 1 (of_nat (length p))), snap_kind = KFile,
     snap_logical_bytes = Some 5, snap_modified_at = Some 1, snap_complete = True,
     snap_boundary = BoundaryVerified, snap_protection = ProtClear, snap_trash = CapAvailable,
     snap_owner = NotApplicable\<rparr>"

definition demo_env :: "nat env" where
  "demo_env = \<lparr>env_now = (\<lambda>w. (int w, Suc w)), env_next_id = (\<lambda>w. (Some (of_nat (Suc w)), Suc w)),
     env_inspect = (\<lambda>s p w. (Inr (demo_snapshot p), w)), env_cancelled = (\<lambda>w. (False, w))\<rparr>"

definition demo_scope :: scope where
  "demo_scope = \<lparr>scope_root = ''/d'', scope_protected = [''/d/p'']\<rparr>"

definition demo_versions :: versions where
  "demo_versions = \<lparr>ver_engine = 1, ver_rules = 1\<rparr>"

definition demo_p0 :: planner where
  "demo_p0 = projr (fst (planner_new demo_scope demo_versions 7))"

abbreviation state_of :: "'a \<times> planner \<times> 'w \<Rightarrow> planner" where
  "state_of x \<equiv> fst (snd x)"

definition demo_d1 :: "(error, finding) result \<times> planner \<times> nat" where
  "demo_d1 = discover demo_env ''/d/a'' demo_p0 0"

definition demo_d2 :: "(error, finding) result \<times> planner \<times> nat" where
  "demo_d2 = discover demo_env ''/d/bc'' (state_of demo_d1) 10"

definition demo_ids :: "resource_id list" where
  "demo_ids = [obs_id (fnd_observation (projr (fst demo_d2))),
     obs_id (fnd_observation (projr (fst demo_d1)))]"

definition demo_prepared :: "(error, plan) result \<times> planner \<times> nat" where
  "demo_prepared = prepare demo_env demo_ids [] 500 (state_of demo_d2) 20"

definition demo_plan :: plan where
  "demo_plan = projr (fst demo_prepared)"

definition demo_approved :: "(error, approval) result \<times> planner \<times> nat" where
  "demo_approved = approve demo_env demo_plan (state_of demo_prepared) 30"

definition demo_validated :: "(error, validation_report) result \<times> planner \<times> nat" where
  "demo_validated = planner_validate demo_env demo_plan (projr (fst demo_approved))
     (state_of demo_approved) 40"

lemma result_Inr: "\<not> isl (fst x) \<Longrightarrow> x = (Inr (projr (fst x)), fst (snd x), snd (snd x))"
  by (cases x; cases "fst x") auto

lemma demo_d1: "discover demo_env ''/d/a'' demo_p0 0
    = (Inr (projr (fst demo_d1)), state_of demo_d1, snd (snd demo_d1))"
  unfolding demo_d1_def [symmetric] by (rule result_Inr) code_simp

lemma demo_d2: "discover demo_env ''/d/bc'' (state_of demo_d1) 10
    = (Inr (projr (fst demo_d2)), state_of demo_d2, snd (snd demo_d2))"
  unfolding demo_d2_def [symmetric] by (rule result_Inr) code_simp

lemma demo_prepared: "prepare demo_env demo_ids [] 500 (state_of demo_d2) 20
    = (Inr demo_plan, state_of demo_prepared, snd (snd demo_prepared))"
  unfolding demo_prepared_def [symmetric] demo_plan_def by (rule result_Inr) code_simp

lemma demo_approved: "approve demo_env demo_plan (state_of demo_prepared) 30
    = (Inr (projr (fst demo_approved)), state_of demo_approved, snd (snd demo_approved))"
  unfolding demo_approved_def [symmetric] by (rule result_Inr) code_simp

lemma demo_validated:
  "planner_validate demo_env demo_plan (projr (fst demo_approved)) (state_of demo_approved) 40
    = (Inr (projr (fst demo_validated)), state_of demo_validated, snd (snd demo_validated))"
  unfolding demo_validated_def [symmetric] by (rule result_Inr) code_simp

lemma demo_wf:
  "planner_wf demo_p0" "planner_wf (state_of demo_d1)" "planner_wf (state_of demo_d2)"
  "planner_wf (state_of demo_prepared)" "planner_wf (state_of demo_approved)"
proof -
  have "\<exists>c. planner_new demo_scope demo_versions 7 = (Inr demo_p0, c)"
    by (simp add: planner_new_def demo_p0_def versions_validate_def demo_versions_def
        checked_add_code)
  then show w0: "planner_wf demo_p0" using planner_new_wf by blast
  show w1: "planner_wf (state_of demo_d1)" using discover_step [OF w0 demo_d1] by blast
  show w2: "planner_wf (state_of demo_d2)" using discover_step [OF w1 demo_d2] by blast
  show w3: "planner_wf (state_of demo_prepared)" using prepare_step [OF w2 demo_prepared] by blast
  show "planner_wf (state_of demo_approved)" using approve_step [OF w3 demo_approved] by blast
qed

section \<open>What a prepared plan holds\<close>

lemma selection_code_bookkeeping: "bookkeeping p q \<Longrightarrow> selection_code q = selection_code p"
  by (simp add: fun_eq_iff selection_code_def refusal_def bookkeeping_fields)

lemma accepted_bookkeeping: "bookkeeping p q \<Longrightarrow> accepted q = accepted p"
  by (simp add: fun_eq_iff accepted_def selection_code_bookkeeping)

lemma new_item_bookkeeping: "bookkeeping p q \<Longrightarrow> new_item q = new_item p"
  by (simp add: fun_eq_iff new_item_def bookkeeping_fields)

definition observed :: "planner \<Rightarrow> resource_id list \<Rightarrow> observation list" where
  "observed p rs = map (\<lambda>r. the (pn_observations p r)) rs"

lemma resolve_observed:
  assumes "resolve p {} rs = Inr os"
  shows "os = observed p rs" "distinct rs" "set rs \<subseteq> dom (pn_observations p)"
proof -
  note r = resolve_Inr [OF assms]
  from r have l: "list_all2 (\<lambda>r o'. pn_observations p r = Some o') rs os" by blast
  then show "os = observed p rs"
    by (auto simp: observed_def list_all2_conv_all_nth intro: nth_equalityI)
  from l show "set rs \<subseteq> dom (pn_observations p)"
    by (metis (mono_tags, lifting) domI list_all2_conv_all_nth in_set_conv_nth subsetI)
  from r show "distinct rs" by blast
qed

lemma resolve_complete:
  "distinct rs \<Longrightarrow> set rs \<inter> seen = {} \<Longrightarrow> set rs \<subseteq> dom (pn_observations p) \<Longrightarrow>
     resolve p seen rs = Inr (observed p rs)"
  by (induction rs arbitrary: seen)
    (auto simp: planner_observation_def observed_def ok_or_def)

lemma prepare_selection_Inr:
  assumes "prepare_selection p sel exc = Inr s"
  shows "set sel \<union> set exc \<subseteq> dom (pn_observations p)" "distinct sel" "distinct exc"
    "mutually_disjoint (observed p sel)"
    "select_items p (observed p exc) (observed p sel) selection_empty = Inr s"
proof -
  from assms have r: "resolve p {} sel = Inr (observed p sel)" "resolve p {} exc = Inr (observed p exc)"
    and a: "adjacent_overlap (sort_by_path (observed p sel)) = None"
    and s: "select_items p (observed p exc) (observed p sel) selection_empty = Inr s"
    by (auto simp: prepare_selection_def split: option.splits dest: resolve_observed)
  show "set sel \<union> set exc \<subseteq> dom (pn_observations p)" "distinct sel" "distinct exc"
    using resolve_observed [OF r(1)] resolve_observed [OF r(2)] by auto
  show "mutually_disjoint (observed p sel)" by (rule no_overlap_disjoint [OF a])
  show "select_items p (observed p exc) (observed p sel) selection_empty = Inr s" by (rule s)
qed

lemma observed_bookkeeping: "bookkeeping p q \<Longrightarrow> observed q = observed p"
  by (simp add: fun_eq_iff observed_def bookkeeping_fields)

lemma prepare_selected:
  assumes "prepare E sel exc lt p w = (Inr pl, p', w')"
  defines "os \<equiv> observed p sel" and "ok \<equiv> accepted p (observed p exc)"
  shows "set sel \<union> set exc \<subseteq> dom (pn_observations p)" "distinct sel" "mutually_disjoint os"
    "pl_items pl = map (new_item p) (filter ok os)"
    "pl_rejected pl = map (\<lambda>o'. rejection_new (obs_id o') (the (selection_code p (observed p exc) o')))
       (filter (\<lambda>o'. \<not> ok o') os)"
    "unat (known_bytes (pl_bytes pl)) = sum_list (map unat (known_sizes (filter ok os)))"
    "unknown_items (pl_bytes pl) = unknown_sizes (filter ok os)"
    "distinct (map (\<lambda>o'. the (snap_identity (obs_snapshot o'))) (filter ok os))"
proof -
  obtain q n now p1 s where b: "bookkeeping p p1" and ps: "prepare_selection p1 sel exc = Inr s"
    and eq: "pl = \<lparr>pl_id = \<lparr>pid_session = pn_session p, pid_value = n\<rparr>,
       pl_scope = scope_root (pn_scope p), pl_created_at = now, pl_expires_at = pl_expires_at pl,
       pl_versions = pn_versions p, pl_generation = pn_generation p, pl_items = sel_items s,
       pl_excluded = exc, pl_rejected = sel_rejected s, pl_bytes = sel_bytes s,
       pl_contract = pn_contract p\<rparr>"
    using assms(1) by (rule prepare_Inr)
  have pl: "pl_items pl = sel_items s" "pl_rejected pl = sel_rejected s" "pl_bytes pl = sel_bytes s"
    using eq by (metis plan.select_convs)+
  note bk = selection_code_bookkeeping [OF b] accepted_bookkeeping [OF b] new_item_bookkeeping [OF b]
    observed_bookkeeping [OF b] bookkeeping_fields(5) [OF b]
  note sel = prepare_selection_Inr [OF ps, unfolded bk]
  note items = select_items_Inr [OF sel(5), unfolded bk]
  show "set sel \<union> set exc \<subseteq> dom (pn_observations p)" "distinct sel" "mutually_disjoint os"
    using sel(1,2,4) by (simp_all add: os_def)
  show "pl_items pl = map (new_item p) (filter ok os)"
    "pl_rejected pl = map (\<lambda>o'. rejection_new (obs_id o') (the (selection_code p (observed p exc) o')))
       (filter (\<lambda>o'. \<not> ok o') os)"
    "unat (known_bytes (pl_bytes pl)) = sum_list (map unat (known_sizes (filter ok os)))"
    "unknown_items (pl_bytes pl) = unknown_sizes (filter ok os)"
    "distinct (map (\<lambda>o'. the (snap_identity (obs_snapshot o'))) (filter ok os))"
    using items
    by (simp_all add: pl os_def ok_def selection_empty_def byte_estimate_default_def)
qed



text \<open>C1: A prepared plan is exactly the selection the request and the registry determine: every
  requested identifier is a known observation named once, no two selected paths are nested or
  equal, the accepted observations become the items in request order, every other one is a
  rejection with its reason, the byte estimate is the exact sum of the known sizes (no
  wrap-around) with the count of the unknown ones, and no two items are the same file.\<close>

theorem prepare_spec:
  assumes "prepare E sel exc lt p w = (Inr pl, p', w')"
  defines "os \<equiv> observed p sel" and "ok \<equiv> accepted p (observed p exc)"
  shows "set sel \<union> set exc \<subseteq> dom (pn_observations p) \<and> distinct sel \<and> mutually_disjoint os
    \<and> pl_items pl = map (new_item p) (filter ok os)
    \<and> pl_rejected pl
       = map (\<lambda>o'. rejection_new (obs_id o') (the (selection_code p (observed p exc) o')))
           (filter (\<lambda>o'. \<not> ok o') os)
    \<and> unat (known_bytes (pl_bytes pl)) = sum_list (map unat (known_sizes (filter ok os)))
    \<and> unknown_items (pl_bytes pl) = unknown_sizes (filter ok os)
    \<and> distinct (map (\<lambda>o'. the (snap_identity (obs_snapshot o'))) (filter ok os))"
  using prepare_selected [OF assms(1)] unfolding os_def ok_def by blast

theorem prepare_spec_witness:
  "distinct demo_ids \<and> mutually_disjoint (observed (state_of demo_d2) demo_ids)
   \<and> unat (known_bytes (pl_bytes demo_plan))
       = sum_list (map unat (known_sizes (filter (accepted (state_of demo_d2) [])
           (observed (state_of demo_d2) demo_ids))))
   \<and> known_bytes (pl_bytes demo_plan) = 10 \<and> length (pl_items demo_plan) = 2"
proof -
  have "known_bytes (pl_bytes demo_plan) = 10" "length (pl_items demo_plan) = 2"
    by code_simp+
  with prepare_spec [OF demo_prepared] show ?thesis
    by (simp add: observed_def [of _ "[]"])
qed

text \<open>C2: No plan ever holds a resource it must not touch: every item of a prepared plan lies
  inside the scope, is neither protected nor above or below a protected or system path, overlaps
  no excluded path, was completely observed with a verified boundary and an identity, can be
  moved to the trash, and its owner is not running.\<close>

theorem prepared_items_safe:
  assumes "planner_wf p" and "prepare E sel exc lt p w = (Inr pl, p', w')"
    and "i \<in> set (pl_items pl)"
  defines "path \<equiv> obs_path (pi_observation i)" and "s \<equiv> obs_snapshot (pi_observation i)"
  shows "scope_contains (pn_scope p) path \<and> valid_absolute_path path
    \<and> \<not> path_eq path (scope_root (pn_scope p)) \<and> \<not> system_protected path
    \<and> (\<forall>e \<in> set (scope_protected (pn_scope p)). \<not> overlaps path e)
    \<and> (\<forall>r \<in> set exc. \<not> overlaps path (obs_path (the (pn_observations p r))))
    \<and> snap_protection s = ProtClear \<and> snap_boundary s = BoundaryVerified \<and> snap_complete s
    \<and> kind_accepted (pn_contract p) (snap_kind s) \<and> snap_modified_at s \<noteq> None
    \<and> snap_identity s \<noteq> None \<and> snap_trash s = CapAvailable
    \<and> snap_owner s \<in> {OwnerStopped, NotApplicable}"
proof -
  note sel = prepare_selected [OF assms(2)]
  from assms(3) sel(4) obtain o' where i: "i = new_item p o'" and mem: "o' \<in> set (observed p sel)"
    and ok: "accepted p (observed p exc) o'"
    by auto
  then obtain r where "r \<in> set sel" "o' = the (pn_observations p r)"
    by (auto simp: observed_def)
  with sel(1) have "observation_wf p r o'"
    using planner_wfD(2) [OF assms(1), of r] by auto
  moreover from accepted_refusal [OF ok] have "\<not> scope_protects (pn_scope p) (obs_path o')"
    by (rule refusal_None)
  moreover have "\<not> overlaps (obs_path o') (obs_path (the (pn_observations p r)))"
    if "r \<in> set exc" for r
    by (rule accepted_not_excluded [OF ok]) (use that in \<open>simp add: observed_def\<close>)
  ultimately show ?thesis
    using refusal_None [OF accepted_refusal [OF ok]] unfolding path_def s_def i
    by (simp add: new_item_def observation_wf_def scope_protects_def list_ex_iff)
qed

theorem prepared_items_safe_witness:
  "\<not> system_protected ''/d/bc'' \<and> \<not> overlaps ''/d/bc'' ''/d/p''
   \<and> obs_path (pi_observation (hd (pl_items demo_plan))) = ''/d/bc''"
proof -
  have path: "obs_path (pi_observation (hd (pl_items demo_plan))) = ''/d/bc''"
    and ne: "length (pl_items demo_plan) = 2"
    and sc: "scope_protected (pn_scope (state_of demo_d2)) = [''/d/p'']"
    by code_simp+
  then have "hd (pl_items demo_plan) \<in> set (pl_items demo_plan)"
    by (intro hd_in_set) auto
  from prepared_items_safe [OF demo_wf(3) demo_prepared this]
  show ?thesis using path sc by simp
qed

text \<open>An overlapping selection is always refused: when two different requested resources
  have nested or equal paths, \<open>prepare\<close> fails with \<open>OverlappingSelection\<close> naming one of them,
  whatever the order of the request. The code only compares neighbours of the sorted list.\<close>

theorem overlapping_selection_refused:
  assumes "distinct sel" "distinct exc" "set sel \<union> set exc \<subseteq> dom (pn_observations p)"
    and "planner_wf p" and "a \<in> set sel" "b \<in> set sel" "a \<noteq> b"
    and "overlaps (obs_path (the (pn_observations p a))) (obs_path (the (pn_observations p b)))"
  shows "\<exists>r \<in> set sel. prepare_selection p sel exc = Inl (error_at OverlappingSelection r)"
proof -
  let ?os = "observed p sel"
  have ids: "obs_id (the (pn_observations p r)) = r" if "r \<in> set sel" for r
  proof -
    from that assms(3) obtain obs where "pn_observations p r = Some obs" by blast
    with planner_wfD(2) [OF assms(4) this] show ?thesis by (simp add: observation_wf_def)
  qed
  let ?o = "\<lambda>r. the (pn_observations p r)"
  have "?o a \<in> set ?os" "?o b \<in> set ?os" using assms(5,6) by (auto simp: observed_def)
  moreover have "?o a \<noteq> ?o b" using ids [OF assms(5)] ids [OF assms(6)] assms(7) by metis
  ultimately have "\<not> mutually_disjoint ?os"
    using assms(8) unfolding mutually_disjoint_def by blast
  then obtain r where r: "adjacent_overlap (sort_by_path ?os) = Some r"
    using no_overlap_disjoint by blast
  from overlap_found [OF r] obtain x where "x \<in> set ?os" "obs_id x = r" by blast
  then obtain r' where "r' \<in> set sel" "obs_id (?o r') = r" by (auto simp: observed_def)
  then have "r \<in> set sel" using ids by simp
  moreover have "prepare_selection p sel exc = Inl (error_at OverlappingSelection r)"
    using r assms(1-3) by (simp add: prepare_selection_def resolve_complete)
  ultimately show ?thesis by blast
qed

definition demo_d3 :: "(error, finding) result \<times> planner \<times> nat" where
  "demo_d3 = discover demo_env ''/d/bc/e'' (state_of demo_d2) 50"

definition demo_nested_ids :: "resource_id list" where
  "demo_nested_ids = demo_ids @ [obs_id (fnd_observation (projr (fst demo_d3)))]"

theorem overlapping_selection_refused_witness:
  "\<exists>r \<in> set demo_nested_ids. prepare_selection (state_of demo_d3) demo_nested_ids []
     = Inl (error_at OverlappingSelection r)"
proof (rule overlapping_selection_refused)
  show "planner_wf (state_of demo_d3)"
    using discover_step [OF demo_wf(3)] by (metis demo_d3_def prod.collapse)
  show "distinct demo_nested_ids" by code_simp
  have len: "length demo_nested_ids = 3" by code_simp
  have "list_all (\<lambda>r. pn_observations (state_of demo_d3) r \<noteq> None) demo_nested_ids" by code_simp
  then show "set demo_nested_ids \<union> set [] \<subseteq> dom (pn_observations (state_of demo_d3))"
    by (auto simp: list_all_iff)
  show "demo_nested_ids ! 0 \<in> set demo_nested_ids" "demo_nested_ids ! 2 \<in> set demo_nested_ids"
    using len by simp_all
  show "demo_nested_ids ! 0 \<noteq> demo_nested_ids ! 2" by code_simp
  show "overlaps (obs_path (the (pn_observations (state_of demo_d3) (demo_nested_ids ! 0))))
      (obs_path (the (pn_observations (state_of demo_d3) (demo_nested_ids ! 2))))" by code_simp
qed simp

section \<open>The life of a plan\<close>

lemma approve_state:
  assumes "approve E pl p w = (Inr a, p', w')"
  shows "\<exists>r. pn_plans p (pl_id pl) = Some r \<and> rec_state r = Prepared \<and> plan_eq (rec_plan r) pl
    \<and> pn_plans p' (pl_id pl) = Some (r\<lparr>rec_state := Approved\<rparr>) \<and> appr_plan a = pl_id pl"
  using assms by (rule approve_Inr) auto

lemma validate_state:
  assumes "planner_validate E pl a p w = (Inr vr, p', w')"
  shows "\<exists>r. pn_plans p (pl_id pl) = Some r \<and> rec_state r = Approved \<and> plan_eq (rec_plan r) pl
    \<and> pn_plans p' (pl_id pl) = Some (r\<lparr>rec_state := Validated\<rparr>)
    \<and> appr_plan a = pl_id pl \<and> vr_plan vr = pl_id pl"
  using assms
proof (rule planner_validate_Inr)
  fix q now r q' w1
  assume a: "pn_plans p (pl_id pl) = Some r" "plan_eq (rec_plan r) pl" "rec_state r = Approved"
    "appr_plan a = pl_id pl" "vr_plan vr = pl_id pl"
    "q' = q\<lparr>pn_plans := (pn_plans q)(pl_id pl \<mapsto> r\<lparr>rec_state := Validated\<rparr>)\<rparr>"
    "preflight_items E pl (pl_items pl) q' w1 = ((vr_ready vr, vr_skipped vr), p', w')"
  from bookkeeping_fields(7) [OF preflight_items_bookkeeping [OF a(7)]] a show ?thesis by simp
qed

text \<open>A plan is approved at most once: after a successful approval no later call, whatever
  operations and whatever copy of the plan come in between, approves that plan again.\<close>

theorem approved_once:
  assumes "planner_wf p" and "approve E pl p w = (Inr a, p1, w1)" and "planner_run E p1 p2"
    and "pl_id pl' = pl_id pl"
  shows "\<exists>e. fst (approve E' pl' p2 w2) = Inl e"
proof (cases "approve E' pl' p2 w2")
  case (fields res p3 w3)
  have wf: "planner_wf p1" using approve_step [OF assms(1,2)] by blast
  obtain r where "pn_plans p1 (pl_id pl) = Some r" "rec_state r = Approved"
    using approve_state [OF assms(2)] by auto
  with run_plan_advances [OF assms(3) wf] obtain r' where r': "pn_plans p2 (pl_id pl) = Some r'"
    "advance (rec_plan r, Approved) (rec_plan r', rec_state r')" by metis
  then have "rec_state r' \<noteq> Prepared" by (auto simp: advance_def)
  then have "res \<noteq> Inr a'" for a'
    using approve_state [of E' pl' p2 w2 a' p3 w3] fields r'(1) assms(4) by auto
  then show ?thesis using fields by (cases res) auto
qed

theorem approved_once_witness:
  "\<exists>e. fst (approve demo_env demo_plan (state_of demo_approved) 99) = Inl e"
  by (rule approved_once [OF demo_wf(4) demo_approved rtranclp.rtrancl_refl refl])

text \<open>An approval is spent by one validation: after a successful \<open>validate\<close> no later call
  approves or validates that plan again, whatever happens in between.\<close>

theorem validated_once:
  assumes "planner_wf p" and "planner_validate E pl a p w = (Inr vr, p1, w1)"
    and "planner_run E p1 p2" and "pl_id pl' = pl_id pl"
  shows "(\<exists>e. fst (planner_validate E' pl' a' p2 w2) = Inl e)
    \<and> (\<exists>e. fst (approve E' pl' p2 w2) = Inl e)"
proof -
  have wf: "planner_wf p1" using validate_step [OF assms(1,2)] by blast
  obtain r where "pn_plans p1 (pl_id pl) = Some r" "rec_state r = Validated"
    using validate_state [OF assms(2)] by auto
  with run_plan_advances [OF assms(3) wf] obtain r' where r': "pn_plans p2 (pl_id pl) = Some r'"
    "advance (rec_plan r, Validated) (rec_plan r', rec_state r')" by metis
  then have s: "rec_state r' = Validated" by (cases "rec_state r'") (auto simp: advance_def)
  have "fst (planner_validate E' pl' a' p2 w2) \<noteq> Inr v" for v
    using validate_state [of E' pl' a' p2 w2 v] r'(1) s assms(4)
    by (cases "planner_validate E' pl' a' p2 w2") auto
  moreover have "fst (approve E' pl' p2 w2) \<noteq> Inr v" for v
    using approve_state [of E' pl' p2 w2 v] r'(1) s assms(4)
    by (cases "approve E' pl' p2 w2") auto
  ultimately show ?thesis by (metis sum.exhaust)
qed

theorem validated_once_witness:
  "\<exists>e. fst (planner_validate demo_env demo_plan (projr (fst demo_approved))
     (state_of demo_validated) 99) = Inl e"
  by (rule validated_once [OF demo_wf(5) demo_validated rtranclp.rtrancl_refl refl, THEN conjunct1])

lemma preflight_items_partition:
  "preflight_items E pl is p w = ((ready, skipped), p', w') \<Longrightarrow>
     subseq ready is
     \<and> mset (map item_resource ready) + mset (map rej_resource skipped) = mset (map item_resource is)"
proof (induction "is" arbitrary: p w ready skipped p' w')
  case Nil
  then show ?case by simp
next
  case (Cons i "is")
  obtain v p1 w1 where v: "preflight_item E pl i p w = (v, p1, w1)" by (metis prod_cases3)
  obtain rd sk p2 w2 where r: "preflight_items E pl is p1 w1 = ((rd, sk), p2, w2)"
    by (metis prod.exhaust)
  have rej: "v = Inl x \<Longrightarrow> rej_resource x = item_resource i" for x
    using v by (auto simp: preflight_item_def Let_def rejection_new_def
        split: prod.splits option.splits sum.splits if_splits)
  have rdy: "v = Inr j \<Longrightarrow> j = i" for j
    using v by (auto simp: preflight_item_def Let_def
        split: prod.splits option.splits sum.splits if_splits)
  note ih = Cons.IH [OF r]
  show ?case
  proof (cases v)
    case (Inl x)
    then have "ready = rd" "skipped = x # sk" using Cons.prems v r by simp_all
    with ih rej [OF Inl] show ?thesis by auto
  next
    case (Inr j)
    then have "ready = i # rd" "skipped = sk" using Cons.prems v r rdy by simp_all
    with ih show ?thesis by auto
  qed
qed

text \<open>C3: What is validated is what was approved: between an approval and the validation it
  enables the plan cannot change. The validated copy equals the approved one (paths compared by
  components), and the report's ready items are items of that plan.\<close>

theorem validated_as_approved:
  assumes "planner_wf p" and "approve E pl p w = (Inr a, p1, w1)" and "planner_run E p1 p2"
    and "planner_validate E' pl' a p2 w2 = (Inr vr, p3, w3)"
  shows "plan_eq pl pl' \<and> vr_plan vr = pl_id pl \<and> subseq (vr_ready vr) (pl_items pl')"
proof -
  have wf: "planner_wf p1" using approve_step [OF assms(1,2)] by blast
  obtain r where r: "pn_plans p1 (pl_id pl) = Some r" "rec_state r = Approved"
    "plan_eq (rec_plan r) pl" and a: "appr_plan a = pl_id pl"
    using approve_state [OF assms(2)] by auto
  obtain r' where r': "pn_plans p2 (pl_id pl) = Some r'"
    "advance (rec_plan r, Approved) (rec_plan r', rec_state r')"
    using run_plan_advances [OF assms(3) wf r(1)] r(2) by metis
  obtain x where x: "pn_plans p2 (pl_id pl') = Some x" "plan_eq (rec_plan x) pl'"
    "appr_plan a = pl_id pl'" "vr_plan vr = pl_id pl'"
    using validate_state [OF assms(4)] by blast
  with a r' have "rec_plan x = rec_plan r" by (auto simp: advance_def)
  with x(2) r(3) have "plan_eq pl pl'" by (simp add: plan_eq_def)
  moreover have "subseq (vr_ready vr) (pl_items pl')"
    using assms(4) by (rule planner_validate_Inr) (blast dest: preflight_items_partition)
  ultimately show ?thesis using a x by simp
qed

theorem validated_as_approved_witness:
  "vr_plan (projr (fst demo_validated)) = pl_id demo_plan
   \<and> subseq (vr_ready (projr (fst demo_validated))) (pl_items demo_plan)
   \<and> length (vr_ready (projr (fst demo_validated))) = 2"
proof -
  have "length (vr_ready (projr (fst demo_validated))) = 2" by code_simp
  with validated_as_approved [OF demo_wf(4) demo_approved rtranclp.rtrancl_refl demo_validated]
  show ?thesis by blast
qed

text \<open>C4: Changing the versions kills every open plan: once \<open>set_versions\<close> installs different
  versions, no plan registered before it is ever approved or validated again, not even after
  the old versions come back.\<close>

theorem stale_forever:
  assumes "planner_wf p" and "set_versions v p = (Inr u, p1)" and "v \<noteq> pn_versions p"
    and "pn_plans p (pl_id pl) \<noteq> None" and "planner_run E p1 p2"
  shows "(\<exists>e. fst (approve E' pl p2 w2) = Inl e) \<and> (\<exists>e. fst (planner_validate E' pl a p2 w2) = Inl e)"
proof -
  obtain r where r: "pn_plans p (pl_id pl) = Some r" using assms(4) by blast
  obtain g where g: "unat g = unat (pn_generation p) + 1"
    and p1: "p1 = p\<lparr>pn_generation := g, pn_versions := v\<rparr>"
    using set_versions_Inr [OF assms(2)] assms(3) by blast
  have wf: "planner_wf p1" by (rule set_versions_wf [OF assms(1,2)])
  have "pn_plans p1 (pl_id pl) = Some r" using r p1 by simp
  from run_plan_advances [OF assms(5) wf this] obtain r' where
    r': "pn_plans p2 (pl_id pl) = Some r'" and adv: "rec_plan r' = (rec_plan r)\<lparr>pl_items := pl_items (rec_plan r')\<rparr>"
    by (auto simp: advance_def)
  have "pl_generation (rec_plan r') = pl_generation (rec_plan r)"
    using adv by (metis plan.ext_inject plan.select_convs(6) plan.surjective plan.update_convs(7))
  moreover have "pl_generation (rec_plan r) \<le> pn_generation p"
    using planner_wfD(4) [OF assms(1) r] by (simp add: plan_record_wf_def)
  moreover have "pn_generation p < pn_generation p1" using g p1 by (simp add: word_less_nat_alt)
  moreover have "pn_generation p1 \<le> pn_generation p2" by (rule run_generation [OF assms(5) wf])
  ultimately have old: "pl_generation (rec_plan r') < pn_generation p2" by simp
  have "fst (approve E' pl p2 w2) \<noteq> Inr x" for x
  proof
    assume "fst (approve E' pl p2 w2) = Inr x"
    then have "approve E' pl p2 w2 = (Inr x, state_of (approve E' pl p2 w2), snd (snd (approve E' pl p2 w2)))"
      by (metis prod.collapse)
    then show False by (rule approve_Inr) (use r' old in \<open>auto dest: plan_eqD(4)\<close>)
  qed
  moreover have "fst (planner_validate E' pl a p2 w2) \<noteq> Inr x" for x
  proof
    assume "fst (planner_validate E' pl a p2 w2) = Inr x"
    then have "planner_validate E' pl a p2 w2
        = (Inr x, state_of (planner_validate E' pl a p2 w2), snd (snd (planner_validate E' pl a p2 w2)))"
      by (metis prod.collapse)
    then show False by (rule planner_validate_Inr) (use r' old in \<open>auto dest: plan_eqD(4)\<close>)
  qed
  ultimately show ?thesis by (metis sum.exhaust)
qed

definition demo_v2 :: versions where
  "demo_v2 = \<lparr>ver_engine = 1, ver_rules = 2\<rparr>"

definition demo_bumped :: planner where
  "demo_bumped = snd (set_versions demo_v2 (state_of demo_prepared))"

theorem stale_forever_witness:
  "\<exists>e. fst (approve demo_env demo_plan (snd (set_versions demo_versions demo_bumped)) 99) = Inl e"
proof (rule stale_forever [THEN conjunct1])
  show "planner_wf (state_of demo_prepared)" by (rule demo_wf(4))
  have "\<not> isl (fst (set_versions demo_v2 (state_of demo_prepared)))" by code_simp
  then show "set_versions demo_v2 (state_of demo_prepared) = (Inr (), demo_bumped)"
    unfolding demo_bumped_def by (metis old.unit.exhaust prod.collapse sum.collapse(2))
  show "demo_v2 \<noteq> pn_versions (state_of demo_prepared)" by code_simp
  show "pn_plans (state_of demo_prepared) (pl_id demo_plan) \<noteq> None" by code_simp
  show "planner_run demo_env demo_bumped (snd (set_versions demo_versions demo_bumped))"
    by (rule r_into_rtranclp, rule step_versions [of demo_versions _ "fst (set_versions demo_versions demo_bumped)"])
      simp
qed

section \<open>Time\<close>

lemma time_grows: "planner_time E p w = (r, q, w') \<Longrightarrow> pn_last_time p = Some t \<Longrightarrow>
    \<exists>t'. pn_last_time q = Some t' \<and> t \<le> t'"
  by (cases r) (auto dest: planner_time_Inl planner_time_Inr)

definition later :: "planner \<Rightarrow> planner \<Rightarrow> bool" where
  "later p q \<longleftrightarrow> (\<forall>t. pn_last_time p = Some t \<longrightarrow> (\<exists>t'. pn_last_time q = Some t' \<and> t \<le> t'))"

lemma later_refl [simp]: "later p p"
  by (simp add: later_def)

lemma later_trans: "later p q \<Longrightarrow> later q r \<Longrightarrow> later p r"
  unfolding later_def by (meson order_trans)

lemma later_upd [simp]:
  "later p (q\<lparr>pn_plans := m\<rparr>) = later p q" "later (q\<lparr>pn_plans := m\<rparr>) p = later q p"
  "later p (q\<lparr>pn_paths := P, pn_observations := M\<rparr>) = later p q"
  by (simp_all add: later_def)

lemma time_later: "planner_time E p w = (r, q, w') \<Longrightarrow> later p q"
  using time_grows unfolding later_def by metis

lemma id_later: "planner_id E p w = (r, q, w') \<Longrightarrow> later p q"
  by (cases r) (auto dest!: planner_id_Inl planner_id_Inr simp: later_def)

lemma stop_later: "preflight_stop E pl p w = (r, q, w') \<Longrightarrow> later p q"
  by (auto simp: preflight_stop_def split: prod.splits bool.splits sum.splits dest: time_later)

lemma item_later: "preflight_item E pl i p w = (r, q, w') \<Longrightarrow> later p q"
  by (auto simp: preflight_item_def Let_def split: prod.splits option.splits sum.splits
      dest!: stop_later intro: later_trans)

lemma items_later: "preflight_items E pl is p w = (r, q, w') \<Longrightarrow> later p q"
proof (induction "is" arbitrary: p w r q w')
  case (Cons i "is")
  then show ?case by (auto split: prod.splits dest!: item_later intro: later_trans)
qed simp

lemma step_later: "planner_step E p q \<Longrightarrow> later p q"
proof (induction rule: planner_step.induct)
  case (step_discover path p w res p' w')
  then show ?case unfolding discover_def
    by (auto simp: Let_def split: if_splits prod.splits sum.splits
        dest!: time_later id_later intro: later_trans)
next
  case (step_prepare sel exc lt p w res p' w')
  then show ?case unfolding prepare_def
    by (auto simp: Let_def split: if_splits prod.splits sum.splits option.splits
        dest!: time_later id_later intro: later_trans)
next
  case (step_approve pl p w res p' w')
  then show ?case unfolding approve_def
    by (auto split: if_splits prod.splits sum.splits option.splits dest!: time_later)
next
  case (step_seal pid bs p res p')
  then show ?case by (auto simp: seal_rule_bindings_def Let_def later_def
        split: if_splits sum.splits option.splits)
next
  case (step_validate pl a p w res p' w')
  then show ?case unfolding planner_validate_def
    by (auto split: if_splits prod.splits sum.splits option.splits
        dest!: time_later items_later intro: later_trans)
next
  case (step_versions v p res p')
  then show ?case by (auto simp: set_versions_def later_def split: if_splits sum.splits option.splits)
next
  case (step_stop pl p w stop p' w')
  then show ?case by (rule stop_later)
qed

interpretation clock: invariant_system "planner_step E" "later p" for E :: "'w env" and p
  by unfold_locales (blast intro: later_trans step_later)

text \<open>Expiry is final: once a session has seen a time at or after a plan's expiry, no later
  call approves or validates it, even if the clock of the machine is set back (a clock that goes
  back is refused, so the last time seen never decreases).\<close>

theorem expired_forever:
  assumes "pn_last_time p = Some t" and "pl_expires_at pl \<le> t" and "planner_run E p p2"
  shows "(\<exists>e. fst (approve E' pl p2 w2) = Inl e) \<and> (\<exists>e. fst (planner_validate E' pl a p2 w2) = Inl e)"
proof -
  have "later p p2" using clock.run_inv [OF assms(3)] by simp
  with assms(1,2) obtain t2 where t2: "pn_last_time p2 = Some t2" "pl_expires_at pl \<le> t2"
    unfolding later_def by (meson order_trans)
  have late: "check_plan q pl now \<noteq> Inr ()" if "planner_time E' p2 w2 = (Inr now, q, w1)" for now q w1
    using planner_time_Inr [OF that] t2 by (auto simp: check_plan_Inr)
  have "fst (approve E' pl p2 w2) \<noteq> Inr x" "fst (planner_validate E' pl a p2 w2) \<noteq> Inr y" for x y
    using late unfolding approve_def planner_validate_def
    by (auto split: prod.splits sum.splits)
  then show ?thesis by (metis sum.exhaust)
qed

theorem expired_forever_witness:
  "\<exists>e. fst (approve demo_env demo_plan (state_of (discover demo_env ''/d/q'' (state_of demo_prepared) 900)) 30)
     = Inl e"
proof (rule expired_forever [THEN conjunct1])
  show "pn_last_time (state_of (discover demo_env ''/d/q'' (state_of demo_prepared) 900)) = Some 901"
    by code_simp
  show "pl_expires_at demo_plan \<le> 901" by code_simp
qed (rule rtranclp.rtrancl_refl [of "planner_step demo_env"])

section \<open>Preflight and discovery\<close>

definition reinspected :: "'w env \<Rightarrow> planner \<Rightarrow> plan_item \<Rightarrow> bool" where
  "reinspected E p i \<longleftrightarrow> (\<exists>w w'.
     env_inspect E (pn_scope p) (obs_path (pi_observation i)) w
       = (Inr (obs_snapshot (pi_observation i)), w')
     \<and> refusal p (obs_path (pi_observation i)) (obs_snapshot (pi_observation i)) = None)"

lemma reinspected_bookkeeping: "bookkeeping p q \<Longrightarrow> reinspected E q i = reinspected E p i"
  by (simp add: reinspected_def refusal_def bookkeeping_fields)

lemma preflight_item_ready:
  "preflight_item E pl i p w = (Inr j, p', w') \<Longrightarrow> j = i \<and> reinspected E p i"
  unfolding preflight_item_def Let_def reinspected_def
  by (auto split: prod.splits option.splits sum.splits if_splits
      dest!: preflight_stop_bookkeeping simp: refusal_def bookkeeping_fields) blast+

lemma preflight_items_ready:
  "preflight_items E pl is p w = ((ready, skipped), p', w') \<Longrightarrow> \<forall>i \<in> set ready. reinspected E p i"
proof (induction "is" arbitrary: p w ready skipped p' w')
  case (Cons i "is")
  obtain v p1 w1 where v: "preflight_item E pl i p w = (v, p1, w1)" by (metis prod_cases3)
  obtain rd sk p2 w2 where r: "preflight_items E pl is p1 w1 = ((rd, sk), p2, w2)"
    by (metis prod.exhaust)
  have "\<forall>i \<in> set rd. reinspected E p i"
    using Cons.IH [OF r] reinspected_bookkeeping [OF preflight_item_bookkeeping [OF v]] by metis
  then show ?case
    using Cons.prems v r preflight_item_ready [of E pl i p w _ p1 w1] by (cases v) auto
qed simp

text \<open>C5: A validation report accounts for every item of the plan exactly once, ready or skipped,
  and an item is ready only after the probe was asked again in this validation and answered with
  the very snapshot that was planned, which the refusal rules still accept.\<close>

theorem validate_report:
  assumes "planner_validate E pl a p w = (Inr vr, p', w')"
  shows "mset (map item_resource (vr_ready vr)) + mset (map rej_resource (vr_skipped vr))
      = mset (map item_resource (pl_items pl))
    \<and> subseq (vr_ready vr) (pl_items pl) \<and> (\<forall>i \<in> set (vr_ready vr). reinspected E p i)"
  using assms
proof (rule planner_validate_Inr)
  fix q now r q' w1
  assume b: "bookkeeping p q"
    and q': "q' = q\<lparr>pn_plans := (pn_plans q)(pl_id pl \<mapsto> r\<lparr>rec_state := Validated\<rparr>)\<rparr>"
    and pre: "preflight_items E pl (pl_items pl) q' w1 = ((vr_ready vr, vr_skipped vr), p', w')"
  have "reinspected E q' i = reinspected E p i" for i
    unfolding q' using bookkeeping_fields [OF b] by (simp add: reinspected_def refusal_def)
  then show ?thesis
    using preflight_items_partition [OF pre] preflight_items_ready [OF pre] by metis
qed

theorem validate_report_witness:
  "mset (map item_resource (vr_ready (projr (fst demo_validated))))
     + mset (map rej_resource (vr_skipped (projr (fst demo_validated))))
     = mset (map item_resource (pl_items demo_plan))
   \<and> vr_skipped (projr (fst demo_validated)) = []"
proof -
  have "length (vr_skipped (projr (fst demo_validated))) = 0" by code_simp
  with validate_report [OF demo_validated] show ?thesis by blast
qed

lemma paths_kept: "bookkeeping p q \<Longrightarrow> pn_paths p \<subseteq> pn_paths q"
  by (simp add: bookkeeping_fields)

lemma step_paths: "planner_step E p q \<Longrightarrow> pn_paths p \<subseteq> pn_paths q"
proof (induction rule: planner_step.induct)
  case (step_discover path p w res p' w')
  then show ?case
    by (cases res) (auto dest!: discover_Inl paths_kept elim!: discover_Inr)
next
  case (step_prepare sel exc lt p w res p' w')
  then show ?case
    by (cases res) (auto dest!: prepare_Inl paths_kept elim!: prepare_Inr)
next
  case (step_approve pl p w res p' w')
  then show ?case
    by (cases res) (auto dest!: approve_Inl paths_kept elim!: approve_Inr)
next
  case (step_validate pl a p w res p' w')
  then show ?case
    by (cases res; auto dest!: planner_validate_Inl preflight_items_bookkeeping paths_kept
        elim!: planner_validate_Inr; blast)
next
  case (step_seal pid bs p res p')
  then show ?case
    by (auto simp: seal_rule_bindings_def Let_def split: if_splits sum.splits option.splits)
next
  case (step_versions v p res p')
  then show ?case by (auto simp: set_versions_def split: if_splits sum.splits option.splits)
next
  case (step_stop pl p w stop p' w')
  then show ?case by (rule paths_kept [OF preflight_stop_bookkeeping])
qed

interpretation seen_paths: invariant_system "planner_step E" "\<lambda>q. P \<subseteq> pn_paths q" for E :: "'w env" and P
  by unfold_locales (blast dest: step_paths)

text \<open>A resource is discovered at most once per session: after a successful discovery every
  later discovery of the same path, however it is spelled (\<open>/d//a\<close>, \<open>/d/./a\<close>), fails and leaves
  the session as it was.\<close>

theorem discovered_once:
  assumes "discover E path p w = (Inr f, p1, w1)" and "planner_run E p1 p2"
    and "path_eq path path'"
  shows "\<exists>e. discover E' path' p2 w2 = (Inl e, p2, w2)"
proof -
  from assms(1) have "components path \<in> pn_paths p1"
    by (rule discover_Inr) simp
  with seen_paths.run_inv [OF assms(2), of "{components path}"] have "components path' \<in> pn_paths p2"
    using assms(3) by (simp add: path_eq_def)
  then show ?thesis by (simp add: discover_def)
qed

theorem discovered_once_witness:
  "\<exists>e. discover demo_env ''/d/./a/'' (state_of demo_d2) 3 = (Inl e, state_of demo_d2, 3)"
proof (rule discovered_once [OF demo_d1])
  show "planner_run demo_env (state_of demo_d1) (state_of demo_d2)"
    by (rule r_into_rtranclp, rule step_discover, rule demo_d2)
  show "path_eq ''/d/a'' ''/d/./a/''" by code_simp
qed

text \<open>A failed operation changes nothing a client can see: whatever error \<open>discover\<close>,
  \<open>prepare\<close>, \<open>approve\<close>, \<open>validate\<close>, \<open>seal_rule_bindings_for_prepared\<close> or \<open>set_versions\<close>
  returns, the observations, the plans with their states and the generation are untouched.\<close>

theorem failed_operation_keeps_registry:
  "(discover E path p w = (Inl e, p', w') \<longrightarrow> abs_planner p' = abs_planner p)
   \<and> (prepare E sel exc lt p w = (Inl e, p', w') \<longrightarrow> abs_planner p' = abs_planner p)
   \<and> (approve E pl p w = (Inl e, p', w') \<longrightarrow> abs_planner p' = abs_planner p)
   \<and> (planner_validate E pl a p w = (Inl e, p', w') \<longrightarrow> abs_planner p' = abs_planner p)
   \<and> (seal_rule_bindings pid bs p = (Inl e, p') \<longrightarrow> p' = p)
   \<and> (set_versions v p = (Inl e, p') \<longrightarrow> p' = p)"
  by (intro conjI impI; (rule abs_planner_bookkeeping)?;
    erule discover_Inl prepare_Inl approve_Inl planner_validate_Inl seal_Inl set_versions_Inl)

theorem failed_operation_keeps_registry_witness:
  "abs_planner (state_of (discover demo_env ''/d/../x'' demo_p0 0)) = abs_planner demo_p0
   \<and> isl (fst (discover demo_env ''/d/../x'' demo_p0 0))"
proof -
  let ?d = "discover demo_env ''/d/../x'' demo_p0 0"
  have l: "isl (fst ?d)" by code_simp
  then obtain e where "?d = (Inl e, state_of ?d, snd (snd ?d))"
    by (metis isl_def prod.collapse)
  with failed_operation_keeps_registry [of demo_env "''/d/../x''" demo_p0 0 e "state_of ?d" "snd (snd ?d)"] l
  show ?thesis by blast
qed

section \<open>Identifiers\<close>

text \<open>The promise of an identifier source: what it returns is never returned again.\<close>

locale id_source =
  fixes draw :: "'s \<Rightarrow> u64 option \<times> 's"
    and ready :: "'s \<Rightarrow> bool"
    and below :: "'s \<Rightarrow> u64 \<Rightarrow> bool"
  assumes draw_fresh: "ready s \<Longrightarrow> draw s = (Some n, s') \<Longrightarrow> \<not> below s n \<and> below s' n"
    and draw_keeps: "ready s \<Longrightarrow> draw s = (x, s') \<Longrightarrow> ready s' \<and> (\<forall>n. below s n \<longrightarrow> below s' n)"
begin

fun draws :: "nat \<Rightarrow> 's \<Rightarrow> u64 list" where
  "draws 0 s = []"
| "draws (Suc k) s = (case draw s of (x, s') \<Rightarrow> (case x of None \<Rightarrow> [] | Some n \<Rightarrow> [n]) @ draws k s')"

lemma draws_fresh: "ready s \<Longrightarrow> \<forall>n \<in> set (draws k s). \<not> below s n"
proof (induction k arbitrary: s)
  case (Suc k)
  obtain x s' where d: "draw s = (x, s')" by (cases "draw s")
  from Suc.IH [of s'] draw_keeps [OF Suc.prems d] have "\<forall>n \<in> set (draws k s'). \<not> below s n" by blast
  then show ?case using d draw_fresh [OF Suc.prems] by (auto split: option.splits)
qed simp

lemma draws_distinct: "ready s \<Longrightarrow> distinct (draws k s)"
proof (induction k arbitrary: s)
  case (Suc k)
  obtain x s' where d: "draw s = (x, s')" by (cases "draw s")
  note keeps = draw_keeps [OF Suc.prems d]
  have "n \<notin> set (draws k s')" if "x = Some n" for n
    using draw_fresh [OF Suc.prems d [unfolded that]] draws_fresh [of s'] keeps by blast
  then show ?case using d Suc.IH keeps by (auto split: option.splits)
qed simp

end

definition ids_below :: "sequential_ids \<Rightarrow> u64 \<Rightarrow> bool" where
  "ids_below s n \<longleftrightarrow> (case si_next s of None \<Rightarrow> True | Some k \<Rightarrow> n < k)"

interpretation seq_ids: id_source sequential_next_id "\<lambda>_. True" ids_below
proof
  fix s n s'
  assume d: "sequential_next_id s = (Some n, s')"
  then have "si_next s = Some n" "si_next s' = checked_add n 1"
    by (auto simp: sequential_next_id_def split: option.splits)
  moreover have "n < m" if "checked_add n 1 = Some m" for m
    using unat_checked_add [OF that] by (simp add: word_less_nat_alt)
  ultimately show "\<not> ids_below s n \<and> ids_below s' n"
    by (auto simp: ids_below_def split: option.splits)
next
  fix s x s'
  assume d: "sequential_next_id s = (x, s')"
  have "n < m" if "checked_add k 1 = Some m" "n < k" for k m n
    using unat_checked_add [OF that(1)] that(2) by (simp add: word_less_nat_alt)
  with d show "True \<and> (\<forall>n. ids_below s n \<longrightarrow> ids_below s' n)"
    by (auto simp: ids_below_def sequential_next_id_def split: option.splits)
qed

fun sequential_draws :: "nat \<Rightarrow> sequential_ids \<Rightarrow> u64 list" where
  "sequential_draws 0 s = []"
| "sequential_draws (Suc k) s =
     (case sequential_next_id s of
        (x, s') \<Rightarrow> (case x of None \<Rightarrow> [] | Some n \<Rightarrow> [n]) @ sequential_draws k s')"

lemma sequential_draws_eq: "sequential_draws k s = seq_ids.draws k s"
  by (induction k arbitrary: s) (auto split: prod.splits)

text \<open>The default identifier source never repeats an identifier and never hands out zero,
  however many are drawn; at the end of the 64-bit range it stops instead of wrapping around.\<close>

theorem sequential_ids_never_repeat:
  "distinct (sequential_draws k sequential_ids_default) \<and> 0 \<notin> set (sequential_draws k sequential_ids_default)"
proof -
  have "\<not> ids_below sequential_ids_default n \<Longrightarrow> n \<noteq> 0" for n
    by (auto simp: ids_below_def sequential_ids_default_def)
  then show ?thesis
    using seq_ids.draws_distinct seq_ids.draws_fresh [of k sequential_ids_default]
    unfolding sequential_draws_eq by blast
qed

end
