(* ===== verification/Text.thy ===== *)
theory Text
  imports Paths
begin

text \<open>
  The string operations of the standard library that the journal and the rules use, on byte
  strings: UTF-8 validity (\<open>OsStr::to_str\<close>), prefixes and suffixes, substring search, decimal
  and hexadecimal numbers, control characters. Each is what the source uses of it.
\<close>

section \<open>UTF-8\<close>

definition byte :: "char \<Rightarrow> nat" where
  "byte c = of_char c"

definition is_continuation :: "char \<Rightarrow> bool" where
  "is_continuation c \<longleftrightarrow> CHR 0x80 \<le> c \<and> c \<le> CHR 0xBF"

definition second_byte_ok :: "char \<Rightarrow> char \<Rightarrow> bool" where
  "second_byte_ok a b \<longleftrightarrow>
     (if a = CHR 0xE0 then CHR 0xA0 \<le> b \<and> b \<le> CHR 0xBF
      else if a = CHR 0xED then CHR 0x80 \<le> b \<and> b \<le> CHR 0x9F
      else if a = CHR 0xF0 then CHR 0x90 \<le> b \<and> b \<le> CHR 0xBF
      else if a = CHR 0xF4 then CHR 0x80 \<le> b \<and> b \<le> CHR 0x8F
      else is_continuation b)"

fun valid_utf8 :: "bytes \<Rightarrow> bool" where
  "valid_utf8 [] = True"
| "valid_utf8 (a # s) =
     (if a \<le> CHR 0x7F then valid_utf8 s
      else if CHR 0xC2 \<le> a \<and> a \<le> CHR 0xDF then
        (case s of b # s' \<Rightarrow> is_continuation b \<and> valid_utf8 s' | _ \<Rightarrow> False)
      else if CHR 0xE0 \<le> a \<and> a \<le> CHR 0xEF then
        (case s of b # c # s' \<Rightarrow> second_byte_ok a b \<and> is_continuation c \<and> valid_utf8 s' | _ \<Rightarrow> False)
      else if CHR 0xF0 \<le> a \<and> a \<le> CHR 0xF4 then
        (case s of b # c # d # s' \<Rightarrow>
           second_byte_ok a b \<and> is_continuation c \<and> is_continuation d \<and> valid_utf8 s'
         | _ \<Rightarrow> False)
      else False)"

definition is_ascii :: "bytes \<Rightarrow> bool" where
  "is_ascii s \<longleftrightarrow> list_all (\<lambda>c. c \<le> CHR 0x7F) s"

lemma ascii_valid_utf8: "is_ascii s \<Longrightarrow> valid_utf8 s"
  by (induction s) (auto simp: is_ascii_def)

text \<open>
  \<open>str.chars().any(char::is_control)\<close>: the control characters are \<open>U+0000\<close> to \<open>U+001F\<close>,
  \<open>U+007F\<close>, and \<open>U+0080\<close> to \<open>U+009F\<close>, whose encoding is \<open>C2\<close> and a byte up to \<open>9F\<close>.
\<close>

fun has_control :: "bytes \<Rightarrow> bool" where
  "has_control [] = False"
| "has_control (a # s) =
     (a \<le> CHR 0x1F \<or> a = CHR 0x7F
      \<or> (a = CHR 0xC2 \<and> (case s of b # _ \<Rightarrow> CHR 0x80 \<le> b \<and> b \<le> CHR 0x9F | [] \<Rightarrow> False))
      \<or> has_control s)"

section \<open>Substrings\<close>

definition str_starts_with :: "bytes \<Rightarrow> bytes \<Rightarrow> bool" where
  "str_starts_with s p \<longleftrightarrow> prefix p s"

definition str_ends_with :: "bytes \<Rightarrow> bytes \<Rightarrow> bool" where
  "str_ends_with s p \<longleftrightarrow> suffix p s"

definition strip_suffix :: "bytes \<Rightarrow> bytes \<Rightarrow> bytes option" where
  "strip_suffix s p = (if suffix p s then Some (take (length s - length p) s) else None)"

lemma strip_suffix_Some [simp]: "strip_suffix s p = Some t \<longleftrightarrow> s = t @ p"
  by (auto simp: strip_suffix_def suffix_def)

definition match_positions :: "bytes \<Rightarrow> bytes \<Rightarrow> nat list" where
  "match_positions s p = filter (\<lambda>i. prefix p (drop i s)) [0..<Suc (length s)]"

definition str_find :: "bytes \<Rightarrow> bytes \<Rightarrow> nat option" where
  "str_find s p = (case match_positions s p of [] \<Rightarrow> None | i # _ \<Rightarrow> Some i)"

definition str_rfind :: "bytes \<Rightarrow> bytes \<Rightarrow> nat option" where
  "str_rfind s p = (case rev (match_positions s p) of [] \<Rightarrow> None | i # _ \<Rightarrow> Some i)"

definition split_once :: "bytes \<Rightarrow> bytes \<Rightarrow> (bytes \<times> bytes) option" where
  "split_once s p = map_option (\<lambda>i. (take i s, drop (i + length p) s)) (str_find s p)"

lemma match_positions_iff: "i \<in> set (match_positions s p) \<longleftrightarrow> i \<le> length s \<and> prefix p (drop i s)"
  by (auto simp: match_positions_def less_Suc_eq_le simp del: upt_Suc)

lemma position_splits:
  "i \<in> set (match_positions s p) \<Longrightarrow> s = take i s @ p @ drop (i + length p) s"
  by (auto simp: match_positions_iff prefix_def)
     (metis add.commute append_take_drop_id drop_drop append_eq_conv_conj)

lemma str_rfind_Some: "str_rfind s p = Some i \<Longrightarrow> s = take i s @ p @ drop (i + length p) s"
  by (rule position_splits) (auto simp: str_rfind_def rev_eq_Cons_iff split: list.splits)

lemma split_once_Some: "split_once s p = Some (a, b) \<Longrightarrow> s = a @ p @ b"
  using position_splits [of _ s p]
  by (auto simp: split_once_def str_find_def split: list.splits)

section \<open>Numbers\<close>

definition digit_value :: "char \<Rightarrow> int" where
  "digit_value c = of_char c - 48"

text \<open>The value of a string of decimal digits; \<open>parse::<u32>\<close> fails above the range.\<close>

fun decimal_value :: "int \<Rightarrow> bytes \<Rightarrow> int" where
  "decimal_value acc [] = acc"
| "decimal_value acc (c # s) = decimal_value (10 * acc + digit_value c) s"

definition parse_u32_digits :: "bytes \<Rightarrow> int option" where
  "parse_u32_digits s =
     (if s \<noteq> [] \<and> list_all is_ascii_digit s \<and> decimal_value 0 s < 2 ^ 32
      then Some (decimal_value 0 s) else None)"

definition hex_value :: "char \<Rightarrow> nat option" where
  "hex_value c =
     (if CHR ''0'' \<le> c \<and> c \<le> CHR ''9'' then Some (of_char c - 48)
      else if CHR ''a'' \<le> c \<and> c \<le> CHR ''f'' then Some (of_char c - 87)
      else if CHR ''A'' \<le> c \<and> c \<le> CHR ''F'' then Some (of_char c - 55)
      else None)"

text \<open>\<open>u8::from_str_radix(pair, 16)\<close>: a leading plus sign is accepted.\<close>

definition hex_pair :: "char \<Rightarrow> char \<Rightarrow> char option" where
  "hex_pair a b =
     (if a = CHR ''+'' then map_option char_of (hex_value b)
      else case (hex_value a, hex_value b) of
        (Some x, Some y) \<Rightarrow> Some (char_of (16 * x + y))
      | _ \<Rightarrow> None)"

definition to_ascii_uppercase :: "bytes \<Rightarrow> bytes" where
  "to_ascii_uppercase s =
     map (\<lambda>c. if CHR ''a'' \<le> c \<and> c \<le> CHR ''z'' then char_of (of_char c - 32 :: nat) else c) s"

text \<open>\<open>Path::extension\<close>\<close>

definition extension :: "path \<Rightarrow> bytes option" where
  "extension p =
     (case file_name p of
        None \<Rightarrow> None
      | Some name \<Rightarrow>
          (case str_rfind name ''.'' of
             None \<Rightarrow> None
           | Some i \<Rightarrow> if i = 0 then None else Some (drop (Suc i) name)))"

end
