(* ===== verification/Journal_Model.thy ===== *)
theory Journal_Model
  imports Text
begin

text \<open>
  The data of the operation journal (\<open>journal.rs\<close> and the contexts of \<open>orphan_journal.rs\<close>,
  \<open>empty_trash_journal.rs\<close>, \<open>runtime_journal.rs\<close>): the records as they are read from disk.
  A string is its UTF-8 bytes, a byte vector a byte string. Only what validation reads of a
  JSON value is kept of \<open>serde_json::Value\<close>.
\<close>

section \<open>Errors\<close>

text \<open>
  \<open>io::Error\<close> with its kind and message; \<open>OtherKind\<close> is \<open>ErrorKind::Other\<close> and every kind the
  sources never name. \<open>Panicked\<close> is a panic of the code, kept as a value.
\<close>

datatype io_kind = InvalidData | InvalidInput | UnsupportedKind | PermissionDeniedKind | NotFoundKind
  | AlreadyExistsKind | WouldBlockKind | OtherKind

datatype io_error = Io io_kind bytes | Panicked

type_synonym 'a io_result = "(io_error, 'a) result"

definition invalid :: "bytes \<Rightarrow> io_error" where
  "invalid message = Io InvalidData message"

section \<open>Items\<close>

record native_path =
  np_display :: bytes
  np_encoding :: bytes
  np_bytes :: bytes

datatype item_state = ItemPlanned | ItemStarted | ItemSucceeded | ItemSkipped | ItemFailed | ItemUnknown

record native_time =
  nt_before_unix_epoch :: bool
  nt_seconds :: u64
  nt_nanoseconds :: u32

record file_evidence =
  fe_device :: u64
  fe_inode :: u64
  fe_logical_bytes :: u64
  fe_modified :: native_time

record witness_record =
  wr_path :: native_path
  wr_device :: u64
  wr_inode :: u64
  wr_kind :: bytes
  wr_logical_bytes :: u64
  wr_modified :: native_time
  wr_changed :: native_time
  wr_created :: native_time
  wr_uid :: u32
  wr_gid :: u32
  wr_mode :: u32
  wr_nlink :: u64
  wr_flags :: u32

record binding_record =
  br_schema_version :: u32
  br_rule_id :: bytes
  br_rule_version :: u32
  br_ruleset_schema_version :: u32
  br_ruleset_revision :: u32
  br_semantics :: bytes
  br_semantics_digest :: bytes
  br_selected_root :: native_path
  br_exclusions :: "native_path list"
  br_target :: witness_record
  br_source :: witness_record
  br_root :: witness_record
  br_target_ancestors :: "witness_record list"
  br_source_ancestors :: "witness_record list"
  br_warnings :: "bytes list"

record recovery_evidence =
  re_approved :: file_evidence
  re_returned_destination :: "native_path option"
  re_held_source :: "file_evidence option"
  re_held_source_path :: "native_path option"
  re_observation_errors :: "bytes list"

record item_record =
  it_path :: native_path
  it_device :: u64
  it_inode :: u64
  it_logical_bytes :: u64
  it_state :: item_state
  it_reason :: "bytes option"
  it_destination :: "native_path option"
  it_rule_binding :: "binding_record option"
  it_recovery_evidence :: "recovery_evidence option"
  it_updated_unix_ms :: u64

section \<open>Contexts of the trash contracts\<close>

datatype json = JNull | JBool bool | JNumber bytes | JString bytes | JArray "json list"
  | JObject "(bytes \<times> json) list"

text \<open>\<open>Value::get\<close> and \<open>Value::as_str\<close>\<close>

fun json_get :: "bytes \<Rightarrow> json \<Rightarrow> json option" where
  "json_get k (JObject kvs) = map_of kvs k"
| "json_get k _ = None"

fun json_as_str :: "json \<Rightarrow> bytes option" where
  "json_as_str (JString s) = Some s"
| "json_as_str _ = None"

record policy_path_record =
  pp_encoding :: bytes
  pp_bytes_hex :: bytes
  pp_display :: bytes

record policy_identity_record =
  pir_device :: u64
  pir_inode :: u64

record policy_context =
  pc_schema_version :: u32
  pc_kind :: bytes
  pc_root_path :: policy_path_record
  pc_root_identity :: policy_identity_record
  pc_file_state :: json
  pc_effective_exclusions :: "policy_path_record list"

record tool_device =
  td_udid :: bytes
  td_name :: bytes
  td_runtime_identifier :: bytes
  td_paired_with :: "bytes option"

record tool_operation =
  to_schema_version :: u32
  to_operation :: bytes
  to_tool_evidence :: bytes
  to_plan_digest :: bytes
  to_devices :: "tool_device list"

record delegation =
  dl_schema_version :: u32
  dl_performer :: bytes
  dl_plan_digest :: bytes
  dl_manifest_device :: u64
  dl_manifest_inode :: u64

record related_binding =
  rl_item_id :: bytes
  rl_rule_id :: bytes
  rl_rule_version :: u32
  rl_path :: native_path
  rl_kind :: bytes
  rl_consequence :: bytes

record related_context =
  rc_schema_version :: u32
  rc_parent_operation_id :: bytes
  rc_bundle_path :: native_path
  rc_bundle_id :: bytes
  rc_bundle_device :: u64
  rc_bundle_inode :: u64
  rc_manifest_device :: u64
  rc_manifest_inode :: u64
  rc_manifest_digest :: bytes
  rc_plan_digest :: bytes
  rc_policy_digest :: bytes
  rc_home :: native_path
  rc_library_device :: u64
  rc_library_inode :: u64
  rc_copy_roots :: "native_path list"
  rc_coverage :: bytes
  rc_approved_unix_ms :: u64
  rc_deadline_unix_ms :: u64
  rc_selected :: "related_binding list"

section \<open>Context of schema 9: orphans\<close>

record root_record =
  rr_path :: native_path
  rr_state :: bytes
  rr_device :: u64
  rr_inode :: u64

record spotlight_record =
  sp_bundle_id :: bytes
  sp_scope :: bytes
  sp_status :: bytes
  sp_result_count :: nat
  sp_verified_trash_count :: nat
  sp_stale_registrations :: "native_path list"

record trashed_bundle =
  tb_path :: native_path
  tb_device :: u64
  tb_inode :: u64
  tb_manifest_device :: u64
  tb_manifest_inode :: u64
  tb_manifest_digest :: bytes
  tb_trash_root :: native_path
  tb_trash_device :: u64
  tb_trash_inode :: u64

record orphan_binding =
  ob_item_id :: bytes
  ob_bundle_id :: bytes
  ob_tier :: bytes
  ob_rule_id :: bytes
  ob_rule_version :: u32
  ob_path :: native_path
  ob_kind :: bytes
  ob_consequence :: bytes
  ob_measured_logical_bytes :: "u64 option"
  ob_trashed_bundles :: "trashed_bundle list option"

record orphan_context =
  oc_schema_version :: u32
  oc_home :: native_path
  oc_library_device :: u64
  oc_library_inode :: u64
  oc_copy_roots :: "root_record list"
  oc_coverage :: bytes
  oc_spotlight :: "spotlight_record list"
  oc_policy_digest :: bytes
  oc_plan_digest :: bytes
  oc_approved_unix_ms :: u64
  oc_deadline_unix_ms :: u64
  oc_selected :: "orphan_binding list"

section \<open>Context of schema 10: emptying the Trash\<close>

datatype finder_outcome = ReportedCompleted | UserCancelled | AutomationDenied | FinderFailed
  | TimedOut | TransportUnknown | FinderNotDispatched

datatype aggregate_outcome = AggCancelled | AggPartial | AggUnknown | AggSucceeded

datatype trash_observation = ObsStarted | ObsPresent | ObsAbsent | ObsUnknown | ObsNotDispatched

datatype operation_state = OpStarted | OpFinished

datatype source_status = SourceRead | SourceAbsent | SourceIncomplete

record source_root =
  sr_path :: native_path
  sr_schemas :: "u32 list"
  sr_status :: source_status
  sr_device :: "u64 option"
  sr_inode :: "u64 option"

record source_ref =
  sf_root_index :: nat
  sf_operation_id :: bytes
  sf_item_index :: nat
  sf_record_digest :: bytes

record known_item =
  ki_source_refs :: "source_ref list"
  ki_historical_logical_bytes :: "u64 option"
  ki_observation :: trash_observation

record trash_context =
  tc_schema_version :: u32
  tc_performer :: bytes
  tc_effect_scope :: bytes
  tc_trash_root :: native_path
  tc_trash_device :: u64
  tc_trash_inode :: u64
  tc_plan_digest :: bytes
  tc_approved_unix_ms :: u64
  tc_deadline_unix_ms :: u64
  tc_operation_state :: operation_state
  tc_aggregate_outcome :: "aggregate_outcome option"
  tc_finder_preview_count :: u64
  tc_finder_before_count :: u64
  tc_finder_after_count :: "u64 option"
  tc_warns_before_emptying :: bool
  tc_finder_outcome :: "finder_outcome option"
  tc_finder_error_code :: "32 word option"
  tc_finder_message :: "bytes option"
  tc_dispatch_timeout_seconds :: u32
  tc_dispatch_may_continue :: bool
  tc_known_subset_complete :: bool
  tc_coverage_reasons :: "bytes list"
  tc_omitted_count :: "u64 option"
  tc_omitted_lower_bound :: u64
  tc_unknown_size_count :: u64
  tc_source_roots :: "source_root list"
  tc_known_items :: "known_item list"
  tc_unaccounted_logical_bytes :: "u64 option"
  tc_reclaimed_bytes :: "u64 option"

section \<open>Context of schema 11: simulator runtimes\<close>

record runtime =
  rt_identifier :: bytes
  rt_runtime_identifier :: bytes
  rt_version :: bytes
  rt_build :: bytes
  rt_kind :: bytes
  rt_path :: bytes
  rt_state :: bytes
  rt_deletable :: bool
  rt_size_bytes :: "u64 option"
  rt_last_used_at :: "bytes option"
  rt_issues :: "bytes list"

datatype runtime_target =
    RuntimeTarget runtime "bytes list"
  | DeviceTarget bytes bytes bytes "bytes option"

fun target_id :: "runtime_target \<Rightarrow> bytes" where
  "target_id (RuntimeTarget img dependents) = rt_identifier img"
| "target_id (DeviceTarget udid name rt partner) = udid"

record runtime_item =
  ri_target :: runtime_target
  ri_logical_bytes :: "u64 option"
  ri_state :: item_state
  ri_reason :: "bytes option"
  ri_updated_unix_ms :: u64

record runtime_context =
  rx_schema_version :: u32
  rx_operation :: bytes
  rx_tool_evidence :: bytes
  rx_plan_digest :: bytes
  rx_items :: "runtime_item list"

section \<open>Journal records\<close>

record journal_record =
  jr_schema_version :: u32
  jr_plan_schema_version :: u32
  jr_engine_version :: u32
  jr_rules_version :: u32
  jr_operation_id :: bytes
  jr_contract :: bytes
  jr_scope :: native_path
  jr_clean_policy :: "policy_context option"
  jr_tool_operation :: "tool_operation option"
  jr_related_context :: "related_context option"
  jr_orphan_context :: "orphan_context option"
  jr_delegation :: "delegation option"
  jr_empty_trash_context :: "trash_context option"
  jr_runtime_context :: "runtime_context option"
  jr_created_unix_ms :: u64
  jr_items :: "item_record list"

record journal_read =
  read_records :: "journal_record list"
  read_uncommitted_snapshots :: "bytes list"

section \<open>Native paths, times and identifiers\<close>

text \<open>
  \<open>NativePath::from_path\<close> and \<open>NativePath::validate\<close> on Unix; \<open>dbg\<close> is the \<open>Debug\<close>
  formatting of an \<open>OsStr\<close>.
\<close>

definition native_from_path :: "(bytes \<Rightarrow> bytes) \<Rightarrow> path \<Rightarrow> native_path" where
  "native_from_path dbg p =
     \<lparr>np_display = dbg p, np_encoding = ''unix_bytes'', np_bytes = p\<rparr>"

definition native_validate :: "(bytes \<Rightarrow> bytes) \<Rightarrow> native_path \<Rightarrow> unit io_result" where
  "native_validate dbg n =
     (if np_encoding n \<noteq> ''unix_bytes'' \<or> np_bytes n = [] \<or> 4096 < int (length (np_bytes n))
         \<or> hd (np_bytes n) \<noteq> CHR ''/'' \<or> CHR 0x00 \<in> set (np_bytes n)
         \<or> list_ex (\<lambda>part. part = ''..'' \<or> part = ''.'') (split_on CHR ''/'' (np_bytes n))
      then Inl (invalid ''invalid native journal path'')
      else if dbg (np_bytes n) \<noteq> np_display n
      then Inl (invalid ''journal display path disagrees with native path'')
      else Inr ())"

text \<open>
  \<open>NativeTime::from_system_time\<close>: a time is a signed count of nanoseconds since the epoch.
\<close>

definition native_time_from :: "int \<Rightarrow> native_time" where
  "native_time_from t =
     (let d = abs t in
      \<lparr>nt_before_unix_epoch = (t < 0), nt_seconds = word_of_int (d div 1000000000),
       nt_nanoseconds = word_of_int (d mod 1000000000)\<rparr>)"

definition valid_id :: "bytes \<Rightarrow> bool" where
  "valid_id s \<longleftrightarrow> s \<noteq> [] \<and> length s \<le> 100
     \<and> list_all (\<lambda>b. is_ascii_hexdigit b \<or> b = CHR ''-'') s"

definition state_directory_ok :: "path \<Rightarrow> unit io_result" where
  "state_directory_ok p =
     (if \<not> is_absolute p \<or> has_parent_dir p
      then Inl (invalid (''state directory must be an absolute physical path without ''
        @ [CHR 0x27] @ ''..'' @ [CHR 0x27]))
      else Inr ())"

text \<open>Lower-case SHA-256 digests, bundle identifiers and canonical device identifiers.\<close>

definition lower_hex64 :: "bytes \<Rightarrow> bool" where
  "lower_hex64 s \<longleftrightarrow> length s = 64
     \<and> list_all (\<lambda>b. is_ascii_digit b \<or> (CHR ''a'' \<le> b \<and> b \<le> CHR ''f'')) s"

definition any_hex64 :: "bytes \<Rightarrow> bool" where
  "any_hex64 s \<longleftrightarrow> length s = 64 \<and> list_all is_ascii_hexdigit s"

definition bundle_id_parts_ok :: "bytes \<Rightarrow> bool" where
  "bundle_id_parts_ok s \<longleftrightarrow>
     list_all (\<lambda>p. p \<noteq> [] \<and> list_all (\<lambda>c. is_ascii_alphanumeric c \<or> c = CHR ''-'' \<or> c = CHR ''_'') p)
       (split_on CHR ''.'' s)"

definition bundle_id_ok :: "bytes \<Rightarrow> bool" where
  "bundle_id_ok s \<longleftrightarrow> s \<noteq> [] \<and> length s \<le> 255 \<and> bundle_id_parts_ok s"

definition canonical_udid :: "bytes \<Rightarrow> bytes option" where
  "canonical_udid s =
     (if length s \<noteq> 36 \<or> hd s = CHR ''-'' then None
      else if list_all (\<lambda>(i, b). (i \<in> {8, 13, 18, 23}) = (b = CHR ''-'')
             \<and> (i \<in> {8, 13, 18, 23} \<or> is_ascii_hexdigit b)) (enumerate 0 s)
      then Some (to_ascii_uppercase s) else None)"

text \<open>A state an operation can end in.\<close>

definition terminal_state :: "item_state \<Rightarrow> bool" where
  "terminal_state s \<longleftrightarrow> s \<noteq> ItemPlanned \<and> s \<noteq> ItemStarted"

end
