(* ===== verification/Rule_Targets.thy ===== *)
theory Rule_Targets
  imports Text
begin

text \<open>
  The part of \<open>crates/engine/src/rules.rs\<close> that maps a cache file to the source it was compiled
  from: the explicit selection of the CPython and the javac rule, used when a journal record is
  checked.
\<close>

datatype rule_target_marker = MarkerNone | Prefix4 "u8 list"

record explicit_rule_selection =
  ers_rule_id :: bytes
  ers_target_path :: path
  ers_source_path :: path
  ers_source_relation :: bytes
  ers_marker :: rule_target_marker
  ers_cache_tag :: bytes
  ers_optimization_tag :: "bytes option"

definition cpython_rule_id :: bytes where
  "cpython_rule_id = ''org.python.cpython.pep3147.source_backed_pyc''"

definition javac_rule_id :: bytes where
  "javac_rule_id = ''org.openjdk.javac.source_backed_class''"

definition cpython_semantics :: bytes where
  "cpython_semantics = ''cpython_source_backed_pyc_explicit_trash_v1''"

definition cpython_semantics_digest :: bytes where
  "cpython_semantics_digest = ''sha256:2a85f813982f253a1177f95ec4f2dc7e30cf5f34cbaf17e08e6d334f4315fcd8''"

definition javac_semantics :: bytes where
  "javac_semantics = ''openjdk_javac_source_backed_class_explicit_trash_v1''"

definition javac_semantics_digest :: bytes where
  "javac_semantics_digest = ''sha256:bbb6e983ac89a3debc5fde6228800e9accd05f53529c377719444727fbf09a81''"

definition name_text :: "path \<Rightarrow> bytes option" where
  "name_text p = (case file_name p of None \<Rightarrow> None | Some s \<Rightarrow> if valid_utf8 s then Some s else None)"

definition looks_like_pyc :: "path \<Rightarrow> bool" where
  "looks_like_pyc p = (case name_text p of None \<Rightarrow> False | Some s \<Rightarrow> str_ends_with s ''.pyc'')"

definition looks_like_class :: "path \<Rightarrow> bool" where
  "looks_like_class p = (case name_text p of None \<Rightarrow> False | Some s \<Rightarrow> str_ends_with s ''.class'')"

record parsed_cache_name =
  pcn_module_basename :: bytes
  pcn_cache_tag :: bytes
  pcn_optimization :: "bytes option"

definition version_digits_ok :: "bytes \<Rightarrow> bool" where
  "version_digits_ok v \<longleftrightarrow>
     2 \<le> length v \<and> str_starts_with v ''3'' \<and> list_all is_ascii_digit v
     \<and> (case parse_u32_digits (tl v) of None \<Rightarrow> False | Some minor \<Rightarrow> 2 \<le> minor)"

definition optimization_ok :: "bytes option \<Rightarrow> bool" where
  "optimization_ok opt =
     (case opt of None \<Rightarrow> True | Some s \<Rightarrow> s \<noteq> [] \<and> list_all is_ascii_alphanumeric s)"

definition split_optimization :: "bytes \<Rightarrow> bytes \<times> bytes option" where
  "split_optimization after =
     (case split_once after ''.opt-'' of Some (d, x) \<Rightarrow> (d, Some x) | None \<Rightarrow> (after, None))"

definition parse_cache_parts :: "bytes \<Rightarrow> bytes \<Rightarrow> parsed_cache_name option" where
  "parse_cache_parts module after =
     (case split_optimization after of
        (digits, opt) \<Rightarrow>
          if module = [] \<or> CHR ''/'' \<in> set module then None
          else if \<not> version_digits_ok digits then None
          else if \<not> optimization_ok opt then None
          else Some \<lparr>pcn_module_basename = module, pcn_cache_tag = ''cpython-'' @ digits,
                 pcn_optimization = opt\<rparr>)"

definition parse_cpython_name :: "bytes \<Rightarrow> parsed_cache_name option" where
  "parse_cpython_name name =
     (if \<not> valid_utf8 name then None
      else case strip_suffix name ''.pyc'' of None \<Rightarrow> None
      | Some stem \<Rightarrow>
        (case str_rfind stem ''.cpython-'' of None \<Rightarrow> None
         | Some i \<Rightarrow> parse_cache_parts (take i stem) (drop (i + length ''.cpython-'') stem)))"

definition explicit_selection_for_cpython :: "path \<Rightarrow> explicit_rule_selection option" where
  "explicit_selection_for_cpython p =
     (if \<not> looks_like_pyc p then None
      else case parent p of None \<Rightarrow> None
      | Some dir \<Rightarrow>
        (if file_name dir \<noteq> Some ''__pycache__'' then None
         else case file_name p of None \<Rightarrow> None
         | Some name \<Rightarrow>
           (case parse_cpython_name name of None \<Rightarrow> None
            | Some parsed \<Rightarrow>
              (case parent dir of None \<Rightarrow> None
               | Some up \<Rightarrow>
                 Some \<lparr>ers_rule_id = cpython_rule_id, ers_target_path = p,
                   ers_source_path = path_join up (pcn_module_basename parsed @ ''.py''),
                   ers_source_relation = ''pep3147_parent_source_py'', ers_marker = MarkerNone,
                   ers_cache_tag = pcn_cache_tag parsed,
                   ers_optimization_tag = pcn_optimization parsed\<rparr>))))"

definition explicit_selection_for_javac :: "path \<Rightarrow> explicit_rule_selection option" where
  "explicit_selection_for_javac p =
     (if \<not> looks_like_class p then None
      else case parent p of None \<Rightarrow> None
      | Some dir \<Rightarrow>
        (case name_text p of None \<Rightarrow> None
         | Some name \<Rightarrow>
           (case strip_suffix name ''.class'' of None \<Rightarrow> None
            | Some stem \<Rightarrow>
              if stem = [] \<or> CHR ''$'' \<in> set stem \<or> CHR ''/'' \<in> set stem then None
              else Some \<lparr>ers_rule_id = javac_rule_id, ers_target_path = p,
                ers_source_path = path_join dir (stem @ ''.java''),
                ers_source_relation = ''same_stem_sibling'',
                ers_marker = Prefix4 [0xCA, 0xFE, 0xBA, 0xBE], ers_cache_tag = [],
                ers_optimization_tag = None\<rparr>)))"

definition explicit_selection_for_rule_target ::
  "bytes \<Rightarrow> path \<Rightarrow> explicit_rule_selection option" where
  "explicit_selection_for_rule_target rule p =
     (if rule = cpython_rule_id then explicit_selection_for_cpython p
      else if rule = javac_rule_id then explicit_selection_for_javac p
      else None)"

section \<open>Where the source of a cache file is\<close>

lemma name_text_Some: "name_text p = Some s \<longleftrightarrow> file_name p = Some s \<and> valid_utf8 s"
  by (auto simp: name_text_def split: option.splits)

lemma parse_cpython_name_Some:
  "parse_cpython_name name = Some x \<Longrightarrow>
     \<exists>after. name = pcn_module_basename x @ ''.cpython-'' @ after @ ''.pyc''
       \<and> pcn_module_basename x \<noteq> [] \<and> CHR ''/'' \<notin> set (pcn_module_basename x)
       \<and> str_starts_with (pcn_cache_tag x) ''cpython-3''"
proof -
  assume a: "parse_cpython_name name = Some x"
  then obtain stem i where stem: "name = stem @ ''.pyc''" and i: "str_rfind stem ''.cpython-'' = Some i"
    and parts: "parse_cache_parts (take i stem) (drop (i + length ''.cpython-'') stem) = Some x"
    by (auto simp: parse_cpython_name_def split: if_splits option.splits)
  from parts have m: "take i stem \<noteq> []" "CHR ''/'' \<notin> set (take i stem)"
    and x: "pcn_module_basename x = take i stem"
    and v: "\<exists>digits. version_digits_ok digits \<and> pcn_cache_tag x = ''cpython-'' @ digits"
    by (auto simp: parse_cache_parts_def split: if_splits prod.splits)
  have "stem = take i stem @ ''.cpython-'' @ drop (i + length ''.cpython-'') stem"
    by (rule str_rfind_Some [OF i])
  moreover have "str_starts_with (pcn_cache_tag x) ''cpython-3''"
    using v by (auto simp: version_digits_ok_def str_starts_with_def prefix_def)
  ultimately show ?thesis using stem m x by (metis append.assoc)
qed

lemma plain_with_suffix: "m \<noteq> [] \<Longrightarrow> CHR ''/'' \<notin> set m \<Longrightarrow> CHR ''/'' \<notin> set e \<Longrightarrow> 2 \<le> length e \<Longrightarrow>
    plain_name (m @ e)"
  by (cases m; cases e; cases "tl e") (auto simp: plain_name_def append_eq_Cons_conv)

definition cpython_pair :: "path \<Rightarrow> path \<Rightarrow> bool" where
  "cpython_pair target source \<longleftrightarrow> (\<exists>dir m after. m \<noteq> []
     \<and> components target = dir @ [Normal ''__pycache__'', Normal (m @ ''.cpython-'' @ after @ ''.pyc'')]
     \<and> components source = dir @ [Normal (m @ ''.py'')])"

definition javac_pair :: "path \<Rightarrow> path \<Rightarrow> bool" where
  "javac_pair target source \<longleftrightarrow> (\<exists>dir m. m \<noteq> []
     \<and> components target = dir @ [Normal (m @ ''.class'')]
     \<and> components source = dir @ [Normal (m @ ''.java'')])"

lemma cpython_selection_pair:
  assumes "explicit_selection_for_cpython p = Some s"
  shows "cpython_pair p (ers_source_path s)"
proof -
  from assms obtain dir name parsed up where dir: "parent p = Some dir" "file_name dir = Some ''__pycache__''"
    and name: "file_name p = Some name" and parsed: "parse_cpython_name name = Some parsed"
    and up: "parent dir = Some up"
    and src: "ers_source_path s = path_join up (pcn_module_basename parsed @ ''.py'')"
    by (auto simp: explicit_selection_for_cpython_def split: if_splits option.splits)
  obtain after where after: "name = pcn_module_basename parsed @ ''.cpython-'' @ after @ ''.pyc''"
    and m: "pcn_module_basename parsed \<noteq> []" "CHR ''/'' \<notin> set (pcn_module_basename parsed)"
    using parse_cpython_name_Some [OF parsed] by blast
  have "components p = components up @ [Normal ''__pycache__'', Normal name]"
    using file_name_parent [OF dir(1) name] file_name_parent [OF up dir(2)] by simp
  moreover have "components (ers_source_path s) = components up @ [Normal (pcn_module_basename parsed @ ''.py'')]"
    unfolding src using plain_with_suffix [of "pcn_module_basename parsed" "''.py''"] m by simp
  ultimately show ?thesis unfolding cpython_pair_def using after m by blast
qed

lemma javac_selection_pair:
  assumes "explicit_selection_for_javac p = Some s"
  shows "javac_pair p (ers_source_path s)"
proof -
  from assms obtain dir name stem where dir: "parent p = Some dir"
    and name: "file_name p = Some name" and stem: "name = stem @ ''.class''" "stem \<noteq> []" "CHR ''/'' \<notin> set stem"
    and src: "ers_source_path s = path_join dir (stem @ ''.java'')"
    by (auto simp: explicit_selection_for_javac_def name_text_Some split: if_splits option.splits)
  have "components (ers_source_path s) = components dir @ [Normal (stem @ ''.java'')]"
    unfolding src using plain_with_suffix [of stem "''.java''"] stem by simp
  then show ?thesis unfolding javac_pair_def using file_name_parent [OF dir name] stem by blast
qed

lemma explicit_selection_pair:
  assumes "explicit_selection_for_rule_target rule p = Some s"
  shows "rule = cpython_rule_id \<and> cpython_pair p (ers_source_path s)
    \<or> rule = javac_rule_id \<and> javac_pair p (ers_source_path s)"
  using assms cpython_selection_pair javac_selection_pair
  by (auto simp: explicit_selection_for_rule_target_def split: if_splits)

end
