(* ===== verification/Rule_Binding.thy ===== *)
theory Rule_Binding
  imports Journal_Model Rule_Targets
begin

text \<open>
  The rule bindings of journal items (\<open>journal.rs\<close>: \<open>known_rule_binding_tuple\<close>,
  \<open>validate_rule_binding\<close>, \<open>native_to_path\<close>, \<open>validate_ancestor_chain\<close>) and what a valid
  binding proves about the source, the target and the directories between them and the root.
\<close>

section \<open>The checks\<close>

unbundle bit_operations_syntax

definition max_items :: nat where
  "max_items = 32"

definition known_rule_binding_tuple :: "binding_record \<Rightarrow> bool" where
  "known_rule_binding_tuple b \<longleftrightarrow>
     (let observed = (br_rule_id b, br_rule_version b, br_ruleset_schema_version b,
        br_ruleset_revision b, br_semantics b, br_semantics_digest b) in
      observed = (cpython_rule_id, 2, 1, 3, cpython_semantics, cpython_semantics_digest)
      \<or> observed = (cpython_rule_id, 2, 1, 2, cpython_semantics, cpython_semantics_digest)
      \<or> observed = (javac_rule_id, 1, 1, 3, javac_semantics, javac_semantics_digest))"

definition native_to_path :: "native_path \<Rightarrow> path io_result" where
  "native_to_path p =
     (if np_encoding p \<noteq> ''unix_bytes'' \<or> np_bytes p = []
      then Inl (invalid ''invalid native path encoding'') else Inr (np_bytes p))"

text \<open>The directories strictly between a root and a leaf below it, from the top.\<close>

fun push_all :: "path \<Rightarrow> component list \<Rightarrow> path list" where
  "push_all cur [] = []"
| "push_all cur [c] = []"
| "push_all cur (c # d # cs) =
     (let following = path_join cur (component_bytes c) in following # push_all following (d # cs))"

definition expected_ancestors :: "path \<Rightarrow> path \<Rightarrow> path list" where
  "expected_ancestors root leaf =
     push_all root (drop (length (components root)) (components leaf))"

fun compare_ancestors :: "(witness_record \<times> path) list \<Rightarrow> unit io_result" where
  "compare_ancestors [] = Inr ()"
| "compare_ancestors ((w, p) # rest) =
     rbind (native_to_path (wr_path w)) (\<lambda>q.
       if \<not> path_eq q p then Inl (invalid ''ancestor witness path mismatch'')
       else compare_ancestors rest)"

definition validate_ancestor_chain ::
  "path \<Rightarrow> path \<Rightarrow> witness_record list \<Rightarrow> unit io_result" where
  "validate_ancestor_chain root leaf ancestors =
     (if \<not> starts_with leaf root \<or> path_eq leaf root
      then Inl (invalid ''witness path must be inside root'')
      else if length (expected_ancestors root leaf) \<noteq> length ancestors
      then Inl (invalid ''ancestor witness count mismatch'')
      else compare_ancestors (zip ancestors (expected_ancestors root leaf)))"

definition nanos_ok :: "native_time \<Rightarrow> bool" where
  "nanos_ok t \<longleftrightarrow> nt_nanoseconds t < 1000000000"

definition witness_wire_ok :: "(bytes \<Rightarrow> bytes) \<Rightarrow> witness_record \<Rightarrow> unit io_result" where
  "witness_wire_ok dbg w =
     rbind (native_validate dbg (wr_path w)) (\<lambda>_.
       ensure (wr_kind w \<noteq> [] \<and> nanos_ok (wr_modified w) \<and> nanos_ok (wr_changed w)
         \<and> nanos_ok (wr_created w)) (invalid ''invalid rule witness''))"

text \<open>File type and permission bits (\<open>S_IFMT\<close>, \<open>S_IFREG\<close>, \<open>S_IFDIR\<close>) and BSD file flags.\<close>

definition file_type :: "u32 \<Rightarrow> u32" where "file_type mode = mode AND 0xF000"
definition s_ifreg :: u32 where "s_ifreg = 0x8000"
definition s_ifdir :: u32 where "s_ifdir = 0x4000"
definition special_or_shared_write :: u32 where "special_or_shared_write = 0xE12"
definition ordinary_flags :: u32 where "ordinary_flags = 0x8061"
definition directory_flags :: u32 where "directory_flags = ordinary_flags OR 0x00080000 OR 0x00100000"
definition sf_dataless :: u32 where "sf_dataless = 0x40000000"

definition plain_mode :: "u32 \<Rightarrow> u32 \<Rightarrow> bool" where
  "plain_mode kind mode \<longleftrightarrow> file_type mode = kind \<and> mode AND special_or_shared_write = 0"

definition plain_flags :: "u32 \<Rightarrow> u32 \<Rightarrow> bool" where
  "plain_flags allowed flags \<longleftrightarrow> flags AND NOT allowed = 0 \<and> flags AND sf_dataless = 0"

definition witness_bounds_ok :: "binding_record \<Rightarrow> bool" where
  "witness_bounds_ok b \<longleftrightarrow>
     plain_mode s_ifreg (wr_mode (br_target b)) \<and> plain_mode s_ifreg (wr_mode (br_source b))
     \<and> plain_mode s_ifdir (wr_mode (br_root b))
     \<and> wr_nlink (br_target b) = 1 \<and> wr_nlink (br_source b) = 1
     \<and> plain_flags ordinary_flags (wr_flags (br_target b))
     \<and> plain_flags ordinary_flags (wr_flags (br_source b))
     \<and> plain_flags directory_flags (wr_flags (br_root b))"

definition ancestor_bounds_ok :: "witness_record \<Rightarrow> bool" where
  "ancestor_bounds_ok w \<longleftrightarrow> plain_mode s_ifdir (wr_mode w) \<and> plain_flags directory_flags (wr_flags w)"

definition binding_ancestors :: "binding_record \<Rightarrow> witness_record list" where
  "binding_ancestors b = br_target_ancestors b @ br_source_ancestors b"

fun check_exclusions :: "path \<Rightarrow> component list set \<Rightarrow> native_path list \<Rightarrow> unit io_result" where
  "check_exclusions root seen [] = Inr ()"
| "check_exclusions root seen (e # es) =
     rbind (native_to_path e) (\<lambda>p.
       if \<not> starts_with p root then Inl (invalid ''exclusion path is outside selected root'')
       else if components p \<in> seen then Inl (invalid ''duplicate exclusion path in rule binding'')
       else check_exclusions root (insert (components p) seen) es)"

text \<open>The part that compares paths, after every witness was read.\<close>

definition binding_paths_ok :: "binding_record \<Rightarrow> unit io_result" where
  "binding_paths_ok b =
     rbind (native_to_path (wr_path (br_target b))) (\<lambda>target.
     rbind (native_to_path (wr_path (br_source b))) (\<lambda>source.
     rbind (native_to_path (br_selected_root b)) (\<lambda>root.
     rbind (native_to_path (wr_path (br_root b))) (\<lambda>root_path.
     rbind (ensure (path_eq root root_path)
       (invalid ''selected root disagrees with root witness path'')) (\<lambda>_.
     rbind (ensure (starts_with target root \<and> starts_with source root
         \<and> \<not> path_eq target root \<and> \<not> path_eq source root)
       (invalid ''target/source path is outside selected root'')) (\<lambda>_.
     rbind (ok_or (invalid ''target path does not match explicit rule'')
       (explicit_selection_for_rule_target (br_rule_id b) target)) (\<lambda>expected.
     rbind (ensure (path_eq (ers_source_path expected) source)
       (invalid ''source path does not match explicit sibling source'')) (\<lambda>_.
     rbind (validate_ancestor_chain root target (br_target_ancestors b)) (\<lambda>_.
     rbind (validate_ancestor_chain root source (br_source_ancestors b)) (\<lambda>_.
       check_exclusions root {} (br_exclusions b)))))))))))"

definition binding_header_ok :: "binding_record \<Rightarrow> bool" where
  "binding_header_ok b \<longleftrightarrow> br_schema_version b = 1 \<and> br_warnings b \<noteq> []
     \<and> length (br_target_ancestors b) \<le> max_items \<and> length (br_source_ancestors b) \<le> max_items
     \<and> length (br_exclusions b) \<le> max_items \<and> known_rule_binding_tuple b"

definition binding_matches_item :: "item_record \<Rightarrow> binding_record \<Rightarrow> bool" where
  "binding_matches_item i b \<longleftrightarrow> wr_path (br_target b) = it_path i
     \<and> wr_device (br_target b) = it_device i \<and> wr_inode (br_target b) = it_inode i
     \<and> wr_logical_bytes (br_target b) = it_logical_bytes i"

definition binding_kinds_ok :: "binding_record \<Rightarrow> bool" where
  "binding_kinds_ok b \<longleftrightarrow> wr_kind (br_target b) = ''file'' \<and> wr_kind (br_source b) = ''file''
     \<and> wr_kind (br_root b) = ''directory''
     \<and> list_all (\<lambda>w. wr_kind w = ''directory'') (binding_ancestors b)"

definition validate_rule_binding ::
  "(bytes \<Rightarrow> bytes) \<Rightarrow> item_record \<Rightarrow> binding_record \<Rightarrow> unit io_result" where
  "validate_rule_binding dbg i b =
     rbind (ensure (binding_header_ok b) (invalid ''invalid rule binding metadata'')) (\<lambda>_.
     rbind (native_validate dbg (br_selected_root b)) (\<lambda>_.
     rbind (check_all (native_validate dbg) (br_exclusions b)) (\<lambda>_.
     rbind (check_all (witness_wire_ok dbg)
       ([br_target b, br_source b, br_root b] @ binding_ancestors b)) (\<lambda>_.
     rbind (ensure (binding_matches_item i b)
       (invalid ''rule binding target does not match item identity'')) (\<lambda>_.
     rbind (ensure (witness_bounds_ok b)
       (invalid ''rule binding witness metadata is outside admissible bounds'')) (\<lambda>_.
     rbind (ensure (binding_kinds_ok b) (invalid ''invalid rule witness kind'')) (\<lambda>_.
     rbind (check_all (\<lambda>w. ensure (ancestor_bounds_ok w)
       (invalid ''ancestor witness metadata is outside admissible bounds'')) (binding_ancestors b)) (\<lambda>_.
     rbind (binding_paths_ok b) (\<lambda>_.
       ensure (\<not> (wr_path (br_source b) = wr_path (br_target b)
           \<or> wr_device (br_source b) = wr_device (br_target b)
             \<and> wr_inode (br_source b) = wr_inode (br_target b)))
         (invalid ''rule binding source and target must be distinct''))))))))))"

section \<open>Ancestor chains\<close>

lemma native_to_path_Inr [simp]:
  "native_to_path n = Inr p \<longleftrightarrow> np_encoding n = ''unix_bytes'' \<and> np_bytes n \<noteq> [] \<and> p = np_bytes n"
  by (auto simp: native_to_path_def)

lemma compare_ancestors_Inr:
  "compare_ancestors ps = Inr () \<Longrightarrow> \<forall>(w, p) \<in> set ps. path_eq (np_bytes (wr_path w)) p"
  by (induction ps rule: compare_ancestors.induct) (auto split: if_splits)

text \<open>
  With plain names the joined paths are the prefixes of the leaf's components between root and
  leaf, so a validated chain names exactly the directories between them, in order.
\<close>

lemma push_all_components:
  "\<forall>c \<in> set cs. \<exists>s. c = Normal s \<and> plain_name s \<Longrightarrow>
     map components (push_all cur cs)
       = map (\<lambda>k. components cur @ take k cs) [1..<length cs]"
proof (induction cur cs rule: push_all.induct)
  case (3 cur c d cs)
  then obtain s where c: "c = Normal s" "plain_name s" by auto
  let ?n = "path_join cur (component_bytes c)"
  have n: "components ?n = components cur @ [c]" using c by simp
  have "map components (push_all ?n (d # cs))
      = map (\<lambda>k. components ?n @ take k (d # cs)) [1..<length (d # cs)]"
    using 3 by simp
  also have "\<dots> = map (\<lambda>k. components cur @ take k (c # d # cs)) [2..<length (c # d # cs)]"
    unfolding n by (rule nth_equalityI) (auto simp del: upt_Suc simp: numeral_2_eq_2)
  finally show ?case
    using n by (simp add: upt_conv_Cons Let_def del: upt_Suc) (simp add: numeral_2_eq_2)
qed simp_all

definition plain_below :: "path \<Rightarrow> path \<Rightarrow> bool" where
  "plain_below leaf root \<longleftrightarrow>
     (\<forall>c \<in> set (drop (length (components root)) (components leaf)). \<exists>s. c = Normal s)"

text \<open>A path a valid \<open>NativePath\<close> holds has only plain names after its root.\<close>

lemma absolute_components:
  assumes "is_absolute p" and "\<forall>s \<in> set (split_on CHR ''/'' p). s \<noteq> ''..''"
  shows "\<exists>cs. components p = RootDir # cs \<and> (\<forall>c \<in> set cs. \<exists>s. c = Normal s \<and> plain_name s)"
proof -
  have "c \<in> set (piece s) \<Longrightarrow> s \<noteq> ''..'' \<Longrightarrow> CHR ''/'' \<notin> set s \<Longrightarrow> \<exists>s. c = Normal s \<and> plain_name s" for c s
    by (auto simp: piece_def plain_name_def split: if_splits)
  then have "\<forall>c \<in> set (concat (map piece (split_on CHR ''/'' p))). \<exists>s. c = Normal s \<and> plain_name s"
    using assms(2) by (fastforce dest: split_on_no_sep)
  with assms(1) show ?thesis by (auto simp: components_def Let_def)
qed

lemma native_validate_components:
  assumes "native_validate dbg n = Inr ()"
  shows "\<exists>cs. components (np_bytes n) = RootDir # cs \<and> (\<forall>c \<in> set cs. \<exists>s. c = Normal s \<and> plain_name s)"
proof (rule absolute_components)
  show "is_absolute (np_bytes n)"
    using assms by (auto simp: native_validate_def is_absolute_def split: if_splits list.splits)
  show "\<forall>s \<in> set (split_on CHR ''/'' (np_bytes n)). s \<noteq> ''..''"
    using assms by (auto simp: native_validate_def list_ex_iff split: if_splits)
qed

text \<open>The chain of directories strictly between a root and a leaf, as component lists.\<close>

definition between :: "path \<Rightarrow> path \<Rightarrow> component list list" where
  "between root leaf =
     map (\<lambda>k. take k (components leaf)) [Suc (length (components root))..<length (components leaf)]"

lemma prefixes_above:
  "map (\<lambda>k. r @ take k rest) [1..<length rest]
     = map (\<lambda>k. take k (r @ rest)) [Suc (length r)..<length (r @ rest)]"
  by (rule nth_equalityI) (auto simp: Suc_diff_le simp del: upt_Suc)

lemma expected_ancestors_between:
  assumes "starts_with leaf root"
    and "\<forall>c \<in> set (drop (length (components root)) (components leaf)). \<exists>s. c = Normal s \<and> plain_name s"
  shows "map components (expected_ancestors root leaf) = between root leaf"
proof -
  let ?r = "components root" and ?rest = "drop (length (components root)) (components leaf)"
  have leaf: "components leaf = ?r @ ?rest"
    using assms(1) by (auto simp: starts_with_def prefix_def)
  have "map components (expected_ancestors root leaf) = map (\<lambda>k. ?r @ take k ?rest) [1..<length ?rest]"
    unfolding expected_ancestors_def by (rule push_all_components [OF assms(2)])
  also have "\<dots> = between root leaf"
    unfolding between_def using prefixes_above [of ?r ?rest] leaf by metis
  finally show ?thesis .
qed

lemma validate_ancestor_chain_Inr:
  assumes "validate_ancestor_chain root leaf ws = Inr ()"
    and "\<forall>c \<in> set (drop (length (components root)) (components leaf)). \<exists>s. c = Normal s \<and> plain_name s"
  shows "starts_with leaf root \<and> \<not> path_eq leaf root
    \<and> map (\<lambda>w. components (np_bytes (wr_path w))) ws = between root leaf"
proof -
  from assms(1) have s: "starts_with leaf root" "\<not> path_eq leaf root"
    and len: "length (expected_ancestors root leaf) = length ws"
    and cmp: "compare_ancestors (zip ws (expected_ancestors root leaf)) = Inr ()"
    by (auto simp: validate_ancestor_chain_def split: if_splits)
  have "map (\<lambda>w. components (np_bytes (wr_path w))) ws = map components (expected_ancestors root leaf)"
  proof (rule nth_equalityI)
    fix i assume "i < length (map (\<lambda>w. components (np_bytes (wr_path w))) ws)"
    then have i: "i < length ws" by simp
    then have "(ws ! i, expected_ancestors root leaf ! i) \<in> set (zip ws (expected_ancestors root leaf))"
      using len by (auto simp: in_set_zip)
    then show "map (\<lambda>w. components (np_bytes (wr_path w))) ws ! i
        = map components (expected_ancestors root leaf) ! i"
      using compare_ancestors_Inr [OF cmp] i len by (auto simp: path_eq_def)
  qed (simp add: len)
  then show ?thesis using s expected_ancestors_between [OF s(1) assms(2)] by simp
qed

section \<open>What a valid binding guarantees\<close>

lemma starts_with_length: "starts_with p q \<Longrightarrow> length (components q) \<le> length (components p)"
  by (simp add: starts_with_def prefix_length_le)

lemma plain_below_root:
  assumes "native_validate dbg leaf = Inr ()" and "native_validate dbg root = Inr ()"
  shows "\<forall>c \<in> set (drop (length (components (np_bytes root))) (components (np_bytes leaf))).
    \<exists>s. c = Normal s \<and> plain_name s"
proof -
  obtain cs where cs: "components (np_bytes leaf) = RootDir # cs"
    "\<forall>c \<in> set cs. \<exists>s. c = Normal s \<and> plain_name s"
    using native_validate_components [OF assms(1)] by blast
  obtain ds where "components (np_bytes root) = RootDir # ds"
    using native_validate_components [OF assms(2)] by blast
  then show ?thesis using cs by (auto dest: in_set_dropD)
qed

lemma check_exclusions_Inr:
  "check_exclusions root seen es = Inr () \<Longrightarrow>
     (\<forall>e \<in> set es. starts_with (np_bytes e) root)
     \<and> distinct (map (\<lambda>e. components (np_bytes e)) es)
     \<and> (\<lambda>e. components (np_bytes e)) ` set es \<inter> seen = {}"
proof (induction es arbitrary: seen)
  case (Cons e es)
  from Cons.prems have rest: "check_exclusions root (insert (components (np_bytes e)) seen) es = Inr ()"
    and e: "starts_with (np_bytes e) root" "components (np_bytes e) \<notin> seen"
    by (auto split: if_splits)
  from Cons.IH [OF rest] e show ?case by auto
qed simp

definition binding_sound :: "item_record \<Rightarrow> binding_record \<Rightarrow> bool" where
  "binding_sound i b \<longleftrightarrow>
     (let root = np_bytes (br_selected_root b); target = np_bytes (it_path i);
          source = np_bytes (wr_path (br_source b)) in
      binding_matches_item i b
      \<and> starts_with target root \<and> \<not> path_eq target root
      \<and> starts_with source root \<and> \<not> path_eq source root
      \<and> (br_rule_id b = cpython_rule_id \<and> cpython_pair target source
         \<or> br_rule_id b = javac_rule_id \<and> javac_pair target source)
      \<and> map (\<lambda>w. components (np_bytes (wr_path w))) (br_target_ancestors b) = between root target
      \<and> map (\<lambda>w. components (np_bytes (wr_path w))) (br_source_ancestors b) = between root source
      \<and> witness_bounds_ok b \<and> (\<forall>w \<in> set (binding_ancestors b). ancestor_bounds_ok w)
      \<and> (\<forall>e \<in> set (br_exclusions b). starts_with (np_bytes e) root)
      \<and> (wr_device (br_source b), wr_inode (br_source b)) \<noteq> (it_device i, it_inode i))"

lemma cpython_pair_path_eq: "cpython_pair t s \<Longrightarrow> path_eq s s' \<Longrightarrow> cpython_pair t s'"
  by (simp add: cpython_pair_def path_eq_def)

lemma javac_pair_path_eq: "javac_pair t s \<Longrightarrow> path_eq s s' \<Longrightarrow> javac_pair t s'"
  by (simp add: javac_pair_def path_eq_def)

lemma validate_rule_binding_Inr:
  assumes "validate_rule_binding dbg i b = Inr ()"
  shows "binding_sound i b"
proof -
  let ?t = "np_bytes (wr_path (br_target b))" and ?s = "np_bytes (wr_path (br_source b))"
  let ?r = "np_bytes (br_selected_root b)"
  have m: "binding_matches_item i b" and bo: "witness_bounds_ok b"
    and anc: "\<forall>w \<in> set (binding_ancestors b). ancestor_bounds_ok w"
    and nr: "native_validate dbg (br_selected_root b) = Inr ()"
    and w: "\<forall>w \<in> {br_target b, br_source b}. witness_wire_ok dbg w = Inr ()"
    and p: "binding_paths_ok b = Inr ()"
    and d: "\<not> (wr_device (br_source b) = wr_device (br_target b) \<and> wr_inode (br_source b) = wr_inode (br_target b))"
    using assms by (simp_all add: validate_rule_binding_def)
  have nt: "native_validate dbg (wr_path (br_target b)) = Inr ()"
    and ns: "native_validate dbg (wr_path (br_source b)) = Inr ()"
    using w by (simp_all add: witness_wire_ok_def)
  from p obtain ex where inside: "starts_with ?t ?r" "starts_with ?s ?r" "\<not> path_eq ?t ?r" "\<not> path_eq ?s ?r"
    and ex: "explicit_selection_for_rule_target (br_rule_id b) ?t = Some ex" "path_eq (ers_source_path ex) ?s"
    and ct: "validate_ancestor_chain ?r ?t (br_target_ancestors b) = Inr ()"
    and cs: "validate_ancestor_chain ?r ?s (br_source_ancestors b) = Inr ()"
    and e: "check_exclusions ?r {} (br_exclusions b) = Inr ()"
    by (auto simp: binding_paths_ok_def)
  have "br_rule_id b = cpython_rule_id \<and> cpython_pair ?t ?s \<or> br_rule_id b = javac_rule_id \<and> javac_pair ?t ?s"
    using explicit_selection_pair [OF ex(1)] ex(2) cpython_pair_path_eq javac_pair_path_eq by blast
  moreover note validate_ancestor_chain_Inr [OF ct plain_below_root [OF nt nr]]
    validate_ancestor_chain_Inr [OF cs plain_below_root [OF ns nr]] check_exclusions_Inr [OF e]
  moreover have "wr_path (br_target b) = it_path i" "wr_device (br_target b) = it_device i"
    "wr_inode (br_target b) = it_inode i"
    using m by (simp_all add: binding_matches_item_def)
  ultimately show ?thesis
    using m bo anc inside d by (simp add: binding_sound_def Let_def)
qed

end
