(* ===== verification/Orphan_Journal.thy ===== *)
theory Orphan_Journal
  imports Journal_Model
begin

text \<open>
  \<open>orphan_journal.rs\<close>: the evidence of a schema 9 record (left-over data of removed
  applications) and what a valid one guarantees.
\<close>

section \<open>The checks\<close>

definition orphan_invalid :: io_error where
  "orphan_invalid = Io OtherKind ''invalid orphan context''"

definition orphan_path :: "(bytes \<Rightarrow> bytes) \<Rightarrow> native_path \<Rightarrow> path io_result" where
  "orphan_path dbg p =
     rbind (native_validate dbg p) (\<lambda>_.
       if np_encoding p \<noteq> ''unix_bytes'' \<or> 4096 < int (length (np_bytes p))
          \<or> CHR 0x00 \<in> set (np_bytes p) \<or> \<not> is_absolute (np_bytes p)
          \<or> ParentDir \<in> set (components (np_bytes p)) \<or> CurDir \<in> set (components (np_bytes p))
       then Inl orphan_invalid else Inr (np_bytes p))"

fun orphan_roots ::
  "(bytes \<Rightarrow> bytes) \<Rightarrow> path \<Rightarrow> component list set \<Rightarrow> root_record list \<Rightarrow> component list set io_result" where
  "orphan_roots dbg home seen [] = Inr seen"
| "orphan_roots dbg home seen (r # rs) =
     rbind (orphan_path dbg (rr_path r)) (\<lambda>p.
       if components p \<in> seen \<or> rr_inode r = 0
          \<or> \<not> (rr_state r = ''present'' \<or> rr_state r = ''absent'')
          \<or> (rr_state r = ''absent'' \<and> \<not> path_eq p (path_join home ''Applications''))
       then Inl orphan_invalid
       else orphan_roots dbg home (insert (components p) seen) rs)"

text \<open>A bundle identifier and its prefixes before a dot.\<close>

definition dotted_prefixes :: "bytes \<Rightarrow> bytes list" where
  "dotted_prefixes s = s # map (\<lambda>i. take i s) (filter (\<lambda>i. s ! i = CHR ''.'') [0..<length s])"

definition expected_queries :: "orphan_binding list \<Rightarrow> bytes set" where
  "expected_queries bs = set (concat (map (\<lambda>b. dotted_prefixes (ob_bundle_id b)) bs))"

fun orphan_queries ::
  "(bytes \<Rightarrow> bytes) \<Rightarrow> bytes set \<Rightarrow> spotlight_record list \<Rightarrow> bytes set io_result" where
  "orphan_queries dbg seen [] = Inr seen"
| "orphan_queries dbg seen (q # qs) =
     (if 256 < length (sp_stale_registrations q) then Inl orphan_invalid
      else rbind (check_all (\<lambda>p. rbind (orphan_path dbg p) (\<lambda>_. Inr ())) (sp_stale_registrations q))
        (\<lambda>_.
          if \<not> bundle_id_ok (sp_bundle_id q) \<or> sp_bundle_id q \<in> seen
             \<or> sp_scope q \<noteq> ''local_computer'' \<or> sp_status q \<noteq> ''complete''
             \<or> 256 < sp_result_count q \<or> sp_verified_trash_count q \<noteq> sp_result_count q
          then Inl orphan_invalid
          else orphan_queries dbg (insert (sp_bundle_id q) seen) qs))"

text \<open>The table of library locations: key, directory below \<open>Library\<close>, suffix, kind.\<close>

type_synonym location = "bytes \<times> bytes \<times> bytes \<times> bytes"

definition orphan_locations :: "location list" where
  "orphan_locations =
     [(''caches'', ''Caches'', '''', ''directory''),
      (''logs'', ''Logs'', '''', ''directory''),
      (''saved_state'', ''Saved Application State'', ''.savedState'', ''directory''),
      (''http_storages'', ''HTTPStorages'', '''', ''directory''),
      (''http_storages_cookies'', ''HTTPStorages'', ''.binarycookies'', ''file''),
      (''webkit'', ''WebKit'', '''', ''directory''),
      (''cookies'', ''Cookies'', ''.binarycookies'', ''file''),
      (''preferences'', ''Preferences'', ''.plist'', ''file''),
      (''application_support'', ''Application Support'', '''', ''directory'')]"

definition location_rule_id :: "bytes \<Rightarrow> bytes" where
  "location_rule_id key = ''org.apple.library.'' @ key @ ''.bundle_id_convention.v1''"

definition find_location :: "bytes \<Rightarrow> location list \<Rightarrow> location option" where
  "find_location rule rows = find (\<lambda>(key, _). rule = location_rule_id key) rows"

fun trashed_bundles_ok ::
  "(bytes \<Rightarrow> bytes) \<Rightarrow> path \<Rightarrow> (u64 \<times> u64) set \<Rightarrow> trashed_bundle list \<Rightarrow> unit io_result" where
  "trashed_bundles_ok dbg home seen [] = Inr ()"
| "trashed_bundles_ok dbg home seen (b # bs) =
     rbind (orphan_path dbg (tb_trash_root b)) (\<lambda>root.
     rbind (orphan_path dbg (tb_path b)) (\<lambda>bp.
       if \<not> path_eq root (path_join home ''.Trash'') \<or> path_eq bp root \<or> \<not> starts_with bp root
          \<or> extension bp \<noteq> Some ''app'' \<or> tb_inode b = 0 \<or> tb_manifest_inode b = 0
          \<or> tb_trash_inode b = 0 \<or> tb_device b \<noteq> tb_trash_device b
          \<or> tb_manifest_device b \<noteq> tb_device b \<or> \<not> lower_hex64 (tb_manifest_digest b)
          \<or> (tb_device b, tb_inode b) \<in> seen
       then Inl orphan_invalid
       else trashed_bundles_ok dbg home (insert (tb_device b, tb_inode b) seen) bs))"

definition orphan_tier_ok ::
  "(bytes \<Rightarrow> bytes) \<Rightarrow> path \<Rightarrow> bytes \<Rightarrow> orphan_binding \<Rightarrow> unit io_result" where
  "orphan_tier_ok dbg home key b =
     (if ob_tier b = ''name_only'' \<and> ob_trashed_bundles b = None \<and> key = ''caches'' then Inr ()
      else case ob_trashed_bundles b of
        Some bundles \<Rightarrow>
          if ob_tier b = ''trashed_bundle'' \<and> bundles \<noteq> [] \<and> length bundles \<le> 8
          then trashed_bundles_ok dbg home {} bundles
          else Inl orphan_invalid
      | None \<Rightarrow> Inl orphan_invalid)"

fun orphan_bindings ::
  "(bytes \<Rightarrow> bytes) \<Rightarrow> orphan_context \<Rightarrow> path \<Rightarrow> bytes set \<Rightarrow> bytes set
     \<Rightarrow> (orphan_binding \<times> item_record) list \<Rightarrow> unit io_result" where
  "orphan_bindings dbg c home queries seen [] = Inr ()"
| "orphan_bindings dbg c home queries seen ((b, i) # rest) =
     rbind (orphan_path dbg (ob_path b)) (\<lambda>p.
       if it_updated_unix_ms i < oc_approved_unix_ms c then Inl orphan_invalid
       else if \<not> lower_hex64 (ob_item_id b) \<or> ob_item_id b \<in> seen \<or> \<not> bundle_id_ok (ob_bundle_id b)
          \<or> ob_path b \<noteq> it_path i \<or> ob_rule_version b \<noteq> 1 \<or> ob_consequence b = []
          \<or> 2048 < int (length (ob_consequence b)) \<or> ob_bundle_id b \<notin> queries
       then Inl orphan_invalid
       else case find_location (ob_rule_id b) orphan_locations of
         None \<Rightarrow> Inl orphan_invalid
       | Some (key, dir, sfx, kind) \<Rightarrow>
           if ob_kind b \<noteq> kind
              \<or> \<not> path_eq p (path_join (path_join (path_join home ''Library'') dir)
                    (ob_bundle_id b @ sfx))
           then Inl orphan_invalid
           else rbind (orphan_tier_ok dbg home key b) (\<lambda>_.
             orphan_bindings dbg c home queries (insert (ob_item_id b) seen) rest))"

definition orphan_validate ::
  "(bytes \<Rightarrow> bytes) \<Rightarrow> orphan_context \<Rightarrow> journal_record \<Rightarrow> unit io_result" where
  "orphan_validate dbg c r =
     rbind (orphan_path dbg (oc_home c)) (\<lambda>home.
       if oc_schema_version c \<noteq> 1 \<or> oc_library_inode c = 0 \<or> \<not> lower_hex64 (oc_policy_digest c)
          \<or> \<not> lower_hex64 (oc_plan_digest c) \<or> oc_coverage c \<noteq> ''registered_and_selected_roots''
          \<or> length (oc_copy_roots c) < 2 \<or> 10 < length (oc_copy_roots c)
          \<or> length (oc_selected c) \<noteq> length (jr_items r) \<or> 32 < length (oc_selected c)
          \<or> oc_selected c = []
          \<or> checked_sub (oc_deadline_unix_ms c) (oc_approved_unix_ms c) \<noteq> Some 120000
          \<or> jr_created_unix_ms r \<noteq> oc_approved_unix_ms c
       then Inl orphan_invalid
       else rbind (orphan_path dbg (jr_scope r)) (\<lambda>scope.
         if \<not> path_eq scope (path_join home ''Library'') then Inl orphan_invalid
         else rbind (orphan_roots dbg home {} (oc_copy_roots c)) (\<lambda>roots.
           if components ''/Applications'' \<notin> roots
              \<or> components (path_join home ''Applications'') \<notin> roots
           then Inl orphan_invalid
           else rbind (orphan_queries dbg {} (oc_spotlight c)) (\<lambda>queries.
             if queries \<noteq> expected_queries (oc_selected c) then Inl orphan_invalid
             else orphan_bindings dbg c home queries {} (zip (oc_selected c) (jr_items r))))))"

section \<open>What a valid context guarantees\<close>

lemma orphan_path_Inr:
  "orphan_path dbg p = Inr q \<Longrightarrow> q = np_bytes p \<and> is_absolute q \<and> ParentDir \<notin> set (components q)
     \<and> CHR 0x00 \<notin> set q \<and> dbg q = np_display p"
  by (auto simp: orphan_path_def native_validate_def split: if_splits)

lemma orphan_queries_Inr:
  "orphan_queries dbg seen qs = Inr ids \<Longrightarrow>
     ids = seen \<union> sp_bundle_id ` set qs \<and> distinct (map sp_bundle_id qs)
     \<and> (\<forall>q \<in> set qs. bundle_id_ok (sp_bundle_id q) \<and> sp_status q = ''complete''
          \<and> sp_scope q = ''local_computer'' \<and> sp_verified_trash_count q = sp_result_count q
          \<and> sp_bundle_id q \<notin> seen)"
proof (induction qs arbitrary: seen)
  case (Cons q qs)
  from Cons.prems have rest: "orphan_queries dbg (insert (sp_bundle_id q) seen) qs = Inr ids"
    and q: "bundle_id_ok (sp_bundle_id q)" "sp_bundle_id q \<notin> seen" "sp_status q = ''complete''"
      "sp_scope q = ''local_computer''" "sp_verified_trash_count q = sp_result_count q"
    by (auto split: if_splits)
  from Cons.IH [OF rest] q show ?case by auto
qed simp

lemma orphan_roots_Inr:
  "orphan_roots dbg home seen rs = Inr roots \<Longrightarrow>
     roots = seen \<union> (\<lambda>r. components (np_bytes (rr_path r))) ` set rs
     \<and> (\<forall>r \<in> set rs. rr_state r = ''absent'' \<longrightarrow>
          path_eq (np_bytes (rr_path r)) (path_join home ''Applications''))"
proof (induction rs arbitrary: seen)
  case (Cons r rs)
  from Cons.prems obtain p where p: "orphan_path dbg (rr_path r) = Inr p"
    and rest: "orphan_roots dbg home (insert (components p) seen) rs = Inr roots"
    and a: "rr_state r = ''absent'' \<longrightarrow> path_eq p (path_join home ''Applications'')"
    by (auto split: if_splits)
  from orphan_path_Inr [OF p] have "p = np_bytes (rr_path r)" by simp
  with Cons.IH [OF rest] a show ?case by auto
qed simp

definition trashed_in :: "path \<Rightarrow> trashed_bundle \<Rightarrow> bool" where
  "trashed_in home b \<longleftrightarrow> starts_with (np_bytes (tb_path b)) (path_join home ''.Trash'')
     \<and> \<not> path_eq (np_bytes (tb_path b)) (path_join home ''.Trash'')
     \<and> extension (np_bytes (tb_path b)) = Some ''app''"

lemma trashed_bundles_Inr:
  "trashed_bundles_ok dbg home seen bs = Inr () \<Longrightarrow>
     (\<forall>b \<in> set bs. trashed_in home b) \<and> distinct (map (\<lambda>b. (tb_device b, tb_inode b)) bs)
     \<and> (\<lambda>b. (tb_device b, tb_inode b)) ` set bs \<inter> seen = {}"
proof (induction bs arbitrary: seen)
  case (Cons b bs)
  from Cons.prems obtain root bp where p: "orphan_path dbg (tb_trash_root b) = Inr root"
      "orphan_path dbg (tb_path b) = Inr bp"
    and c: "path_eq root (path_join home ''.Trash'')" "\<not> path_eq bp root" "starts_with bp root"
      "extension bp = Some ''app''" "(tb_device b, tb_inode b) \<notin> seen"
    and rest: "trashed_bundles_ok dbg home (insert (tb_device b, tb_inode b) seen) bs = Inr ()"
    by (auto split: if_splits)
  have "trashed_in home b"
    using c orphan_path_Inr [OF p(2)] by (auto simp: trashed_in_def path_eq_def starts_with_def)
  with Cons.IH [OF rest] c show ?case by auto
qed simp

text \<open>
  The place a binding's rule determines: \<open>home/Library/<directory>/<bundle id><suffix>\<close>.
\<close>

definition rule_place :: "location list \<Rightarrow> path \<Rightarrow> bytes \<Rightarrow> bytes \<Rightarrow> bytes \<Rightarrow> path \<Rightarrow> bool" where
  "rule_place rows home bundle rule kind p \<longleftrightarrow>
     (\<exists>key dir sfx. (key, dir, sfx, kind) \<in> set rows \<and> rule = location_rule_id key
        \<and> path_eq p (path_join (path_join (path_join home ''Library'') dir) (bundle @ sfx)))"

lemma find_location_Some:
  "find_location rule rows = Some (key, dir, sfx, kind) \<Longrightarrow>
     (key, dir, sfx, kind) \<in> set rows \<and> rule = location_rule_id key"
  by (auto simp: find_location_def dest: find_Some_mem)

definition orphan_binding_sound :: "path \<Rightarrow> bytes set \<Rightarrow> orphan_binding \<Rightarrow> item_record \<Rightarrow> bool" where
  "orphan_binding_sound home queries b i \<longleftrightarrow>
     ob_path b = it_path i \<and> ob_bundle_id b \<in> queries
     \<and> rule_place orphan_locations home (ob_bundle_id b) (ob_rule_id b) (ob_kind b) (np_bytes (it_path i))
     \<and> (case ob_trashed_bundles b of
          None \<Rightarrow> ob_rule_id b = location_rule_id ''caches''
        | Some bs \<Rightarrow> bs \<noteq> [] \<and> (\<forall>x \<in> set bs. trashed_in home x)
            \<and> distinct (map (\<lambda>x. (tb_device x, tb_inode x)) bs))"

lemma orphan_bindings_Inr:
  "orphan_bindings dbg c home queries seen ps = Inr () \<Longrightarrow>
     (\<forall>(b, i) \<in> set ps. orphan_binding_sound home queries b i)
     \<and> distinct (map (\<lambda>(b, i). ob_item_id b) ps) \<and> (\<lambda>(b, i). ob_item_id b) ` set ps \<inter> seen = {}"
proof (induction ps arbitrary: seen)
  case (Cons x ps)
  obtain b i where x: "x = (b, i)" by (cases x)
  from Cons.prems [unfolded x] obtain p key dir sfx where p: "orphan_path dbg (ob_path b) = Inr p"
    and c: "ob_item_id b \<notin> seen" "ob_path b = it_path i" "ob_bundle_id b \<in> queries"
    and l: "find_location (ob_rule_id b) orphan_locations = Some (key, dir, sfx, ob_kind b)"
      "path_eq p (path_join (path_join (path_join home ''Library'') dir) (ob_bundle_id b @ sfx))"
    and t: "orphan_tier_ok dbg home key b = Inr ()"
    and rest: "orphan_bindings dbg c home queries (insert (ob_item_id b) seen) ps = Inr ()"
    by (auto split: if_splits option.splits prod.splits)
  note loc = find_location_Some [OF l(1)]
  have "p = np_bytes (it_path i)" using orphan_path_Inr [OF p] c by simp
  then have "rule_place orphan_locations home (ob_bundle_id b) (ob_rule_id b) (ob_kind b) (np_bytes (it_path i))"
    using loc l(2) unfolding rule_place_def by blast
  moreover have "case ob_trashed_bundles b of
          None \<Rightarrow> ob_rule_id b = location_rule_id ''caches''
        | Some bs \<Rightarrow> bs \<noteq> [] \<and> (\<forall>x \<in> set bs. trashed_in home x)
            \<and> distinct (map (\<lambda>x. (tb_device x, tb_inode x)) bs)"
    using t loc trashed_bundles_Inr by (auto simp: orphan_tier_ok_def split: if_splits option.splits)
  ultimately have "orphan_binding_sound home queries b i"
    using c by (simp add: orphan_binding_sound_def)
  with Cons.IH [OF rest] c x show ?case by auto
qed simp

lemma orphan_validate_Inr:
  assumes "orphan_validate dbg c r = Inr ()"
  defines "home \<equiv> np_bytes (oc_home c)"
  shows "path_eq (np_bytes (jr_scope r)) (path_join home ''Library'')"
    "length (oc_selected c) = length (jr_items r)" "oc_selected c \<noteq> []" "length (jr_items r) \<le> 32"
    "unat (oc_deadline_unix_ms c) = unat (oc_approved_unix_ms c) + 120000"
    "sp_bundle_id ` set (oc_spotlight c) = expected_queries (oc_selected c)"
    "\<forall>(b, i) \<in> set (zip (oc_selected c) (jr_items r)).
       orphan_binding_sound home (expected_queries (oc_selected c)) b i"
    "distinct (map ob_item_id (oc_selected c))"
proof -
  from assms(1) obtain h s roots queries where
    h: "orphan_path dbg (oc_home c) = Inr h" and s: "orphan_path dbg (jr_scope r) = Inr s"
    and roots: "orphan_roots dbg h {} (oc_copy_roots c) = Inr roots"
    and q: "orphan_queries dbg {} (oc_spotlight c) = Inr queries" "queries = expected_queries (oc_selected c)"
    and b: "orphan_bindings dbg c h queries {} (zip (oc_selected c) (jr_items r)) = Inr ()"
    and c: "path_eq s (path_join h ''Library'')" "length (oc_selected c) = length (jr_items r)"
      "oc_selected c \<noteq> []" "length (oc_selected c) \<le> 32"
      "checked_sub (oc_deadline_unix_ms c) (oc_approved_unix_ms c) = Some 120000"
    by (auto simp: orphan_validate_def split: if_splits)
  have hm: "h = home" using orphan_path_Inr [OF h] by (simp add: home_def)
  have sm: "s = np_bytes (jr_scope r)" using orphan_path_Inr [OF s] by simp
  show "path_eq (np_bytes (jr_scope r)) (path_join home ''Library'')"
    "length (oc_selected c) = length (jr_items r)" "oc_selected c \<noteq> []" "length (jr_items r) \<le> 32"
    using c hm sm by simp_all
  show "unat (oc_deadline_unix_ms c) = unat (oc_approved_unix_ms c) + 120000"
    using c(5) by (simp add: checked_sub_eq_iff)
  show "sp_bundle_id ` set (oc_spotlight c) = expected_queries (oc_selected c)"
    using orphan_queries_Inr [OF q(1)] q(2) by simp
  show "\<forall>(b, i) \<in> set (zip (oc_selected c) (jr_items r)).
       orphan_binding_sound home (expected_queries (oc_selected c)) b i"
    using orphan_bindings_Inr [OF b] q(2) hm by simp
  show "distinct (map ob_item_id (oc_selected c))"
    using orphan_bindings_Inr [OF b] map_fst_zip_app [OF c(2), of ob_item_id] by simp
qed

end
