(* ===== verification/Runtime_Journal.thy ===== *)
theory Runtime_Journal
  imports Journal_Model
begin

text \<open>
  \<open>runtime_journal.rs\<close>: the context of a schema 11 record (deleting simulator runtimes with the
  devices that depend on them), its checks, and the conservative readings of interrupted and
  unconfirmed work.
\<close>

section \<open>The checks\<close>

definition runtime_invalid :: io_error where
  "runtime_invalid = invalid ''invalid runtime tool journal''"

definition runtime_path_ok :: "bytes \<Rightarrow> bool" where
  "runtime_path_ok s \<longleftrightarrow> str_starts_with s ''/'' \<and> int (length s) \<le> 4096 \<and> CHR 0x00 \<notin> set s
     \<and> \<not> list_ex (\<lambda>p. p = ''..'' \<or> p = ''.'') (split_on CHR ''/'' s)"

text \<open>A dependent of a runtime is listed as a device of that runtime.\<close>

definition lists_device :: "runtime_item list \<Rightarrow> bytes \<Rightarrow> bytes \<Rightarrow> bool" where
  "lists_device items udid rt \<longleftrightarrow>
     list_ex (\<lambda>i. case ri_target i of
       DeviceTarget u _ ident _ \<Rightarrow> u = udid \<and> ident = rt | _ \<Rightarrow> False) items"

text \<open>The runtimes that claim a device.\<close>

definition claims_device :: "bytes \<Rightarrow> bytes \<Rightarrow> runtime_item \<Rightarrow> bool" where
  "claims_device udid rt i =
     (case ri_target i of
        RuntimeTarget img dependents \<Rightarrow> rt_runtime_identifier img = rt \<and> udid \<in> set dependents
      | _ \<Rightarrow> False)"

definition paired_back :: "runtime_item list \<Rightarrow> bytes \<Rightarrow> bytes \<Rightarrow> bytes \<Rightarrow> bool" where
  "paired_back items udid rt partner \<longleftrightarrow>
     list_ex (\<lambda>i. case ri_target i of
       DeviceTarget u _ ident (Some back) \<Rightarrow> u = partner \<and> back = udid \<and> ident = rt
     | _ \<Rightarrow> False) items"

fun runtime_items_ok ::
  "journal_record \<Rightarrow> runtime_item list \<Rightarrow> bytes set \<Rightarrow> bytes set \<Rightarrow> runtime_item list
     \<Rightarrow> (bytes set \<times> bytes set) io_result" where
  "runtime_items_ok r items images devices [] = Inr (images, devices)"
| "runtime_items_ok r items images devices (i # rest) =
     (if canonical_udid (target_id (ri_target i)) \<noteq> Some (target_id (ri_target i))
         \<or> (case ri_reason i of None \<Rightarrow> False | Some s \<Rightarrow> 512 < int (length s))
         \<or> ri_updated_unix_ms i < jr_created_unix_ms r
      then Inl runtime_invalid
      else case ri_target i of
        RuntimeTarget img dependents \<Rightarrow>
          if rt_identifier img \<in> images \<or> 32 < length dependents \<or> \<not> distinct dependents
             \<or> 4096 < int (length (rt_runtime_identifier img)) \<or> 4096 < int (length (rt_build img))
             \<or> \<not> runtime_path_ok (rt_path img)
             \<or> list_ex (\<lambda>d. \<not> lists_device items d (rt_runtime_identifier img)) dependents
          then Inl runtime_invalid
          else runtime_items_ok r items (insert (rt_identifier img) images) devices rest
      | DeviceTarget udid name rt partner \<Rightarrow>
          if udid \<in> devices \<or> 4096 < int (length name) \<or> 4096 < int (length rt)
             \<or> length (filter (claims_device udid rt) items) \<noteq> 1
             \<or> (case partner of None \<Rightarrow> False
                | Some q \<Rightarrow> q = udid \<or> \<not> paired_back items udid rt q)
          then Inl runtime_invalid
          else runtime_items_ok r items images (insert udid devices) rest)"

definition runtime_header_ok :: "runtime_context \<Rightarrow> journal_record \<Rightarrow> bool" where
  "runtime_header_ok c r \<longleftrightarrow> \<not>
     (jr_schema_version r \<noteq> 11 \<or> jr_plan_schema_version r \<noteq> 11 \<or> jr_engine_version r \<noteq> 2
         \<or> jr_rules_version r \<noteq> 1 \<or> jr_contract r \<noteq> ''permanent_tool_operation_v1''
         \<or> \<not> valid_id (jr_operation_id r) \<or> jr_items r \<noteq> [] \<or> jr_tool_operation r \<noteq> None
         \<or> jr_empty_trash_context r \<noteq> None \<or> jr_clean_policy r \<noteq> None
         \<or> jr_related_context r \<noteq> None \<or> jr_orphan_context r \<noteq> None \<or> jr_delegation r \<noteq> None
         \<or> rx_schema_version c \<noteq> 1 \<or> rx_operation c \<noteq> ''runtime_delete'' \<or> rx_tool_evidence c = []
         \<or> 8192 < int (length (rx_tool_evidence c)) \<or> \<not> lower_hex64 (rx_plan_digest c)
         \<or> rx_items c = [] \<or> 64 < length (rx_items c))"

definition runtime_validate ::
  "(bytes \<Rightarrow> bytes) \<Rightarrow> runtime_context \<Rightarrow> journal_record \<Rightarrow> unit io_result" where
  "runtime_validate dbg c r =
     (if \<not> runtime_header_ok c r then Inl runtime_invalid
      else rbind (native_validate dbg (jr_scope r)) (\<lambda>_.
        rbind (runtime_items_ok r (rx_items c) {} {} (rx_items c)) (\<lambda>(images, devices).
          if images = {} \<or> 32 < card images \<or> 32 < card devices
          then Inl runtime_invalid else Inr ())))"

lemma runtime_validate_iff:
  "runtime_validate dbg c r = Inr () \<longleftrightarrow>
     runtime_header_ok c r \<and> native_validate dbg (jr_scope r) = Inr ()
     \<and> (\<exists>im dv. runtime_items_ok r (rx_items c) {} {} (rx_items c) = Inr (im, dv)
          \<and> im \<noteq> {} \<and> card im \<le> 32 \<and> card dv \<le> 32)"
  by (auto simp: runtime_validate_def not_less split: if_splits)

section \<open>Reading interrupted and unconfirmed work\<close>

definition reconcile_runtime_item :: "runtime_item \<Rightarrow> runtime_item" where
  "reconcile_runtime_item i =
     (case ri_state i of
        ItemStarted \<Rightarrow> i\<lparr>ri_state := ItemUnknown,
          ri_reason := Some ''interrupted; never automatically retried''\<rparr>
      | ItemPlanned \<Rightarrow> i\<lparr>ri_state := ItemSkipped,
          ri_reason := Some ''not_started_before_session_ended''\<rparr>
      | _ \<Rightarrow> i)"

definition runtime_reconcile :: "runtime_context \<Rightarrow> runtime_context" where
  "runtime_reconcile c = c\<lparr>rx_items := map reconcile_runtime_item (rx_items c)\<rparr>"

definition runtime_unconfirmed :: "runtime_context option \<Rightarrow> runtime_context \<Rightarrow> runtime_context" where
  "runtime_unconfirmed previous c = c\<lparr>rx_items := map (\<lambda>i.
     if (ri_state i = ItemSucceeded \<or> ri_state i = ItemFailed)
        \<and> \<not> (case previous of None \<Rightarrow> False
             | Some p \<Rightarrow> list_ex (\<lambda>old. ri_target old = ri_target i \<and> ri_state old = ri_state i) (rx_items p))
     then i\<lparr>ri_state := ItemUnknown, ri_reason := Some ''outcome_publication_not_confirmed''\<rparr>
     else i) (rx_items c)\<rparr>"

section \<open>What a valid context guarantees\<close>

definition image_ids :: "runtime_item list \<Rightarrow> bytes list" where
  "image_ids items = concat (map (\<lambda>i. case ri_target i of RuntimeTarget img _ \<Rightarrow> [rt_identifier img]
     | _ \<Rightarrow> []) items)"

definition device_ids :: "runtime_item list \<Rightarrow> bytes list" where
  "device_ids items = concat (map (\<lambda>i. case ri_target i of DeviceTarget u _ _ _ \<Rightarrow> [u] | _ \<Rightarrow> []) items)"

definition runtime_item_sound :: "runtime_item list \<Rightarrow> runtime_item \<Rightarrow> bool" where
  "runtime_item_sound items i \<longleftrightarrow>
     canonical_udid (target_id (ri_target i)) = Some (target_id (ri_target i))
     \<and> (case ri_target i of
          RuntimeTarget img dependents \<Rightarrow> distinct dependents \<and> runtime_path_ok (rt_path img)
            \<and> (\<forall>d \<in> set dependents. lists_device items d (rt_runtime_identifier img))
        | DeviceTarget udid name rt partner \<Rightarrow>
            length (filter (claims_device udid rt) items) = 1
            \<and> (\<forall>q. partner = Some q \<longrightarrow> q \<noteq> udid \<and> paired_back items udid rt q))"

lemma runtime_items_Inr:
  "runtime_items_ok r items images devices rest = Inr (im, dv) \<Longrightarrow>
     (\<forall>i \<in> set rest. runtime_item_sound items i)
     \<and> im = images \<union> set (image_ids rest) \<and> dv = devices \<union> set (device_ids rest)
     \<and> distinct (image_ids rest) \<and> distinct (device_ids rest)
     \<and> set (image_ids rest) \<inter> images = {} \<and> set (device_ids rest) \<inter> devices = {}"
proof (induction rest arbitrary: images devices)
  case Nil
  then show ?case by (simp add: image_ids_def device_ids_def)
next
  case (Cons i rest)
  show ?case
  proof (cases "ri_target i")
    case (RuntimeTarget img deps)
    with Cons.prems have rest: "runtime_items_ok r items (insert (rt_identifier img) images) devices rest
        = Inr (im, dv)" and i: "rt_identifier img \<notin> images" "runtime_item_sound items i"
      by (auto simp: runtime_item_sound_def list_ex_iff split: if_splits)
    from Cons.IH [OF rest] i RuntimeTarget show ?thesis
      by (auto simp: image_ids_def device_ids_def)
  next
    case (DeviceTarget udid name rt partner)
    with Cons.prems have rest: "runtime_items_ok r items images (insert udid devices) rest
        = Inr (im, dv)" and i: "udid \<notin> devices" "runtime_item_sound items i"
      by (auto simp: runtime_item_sound_def split: if_splits option.splits)
    from Cons.IH [OF rest] i DeviceTarget show ?thesis
      by (auto simp: image_ids_def device_ids_def)
  qed
qed

lemma runtime_validate_Inr:
  assumes "runtime_validate dbg c r = Inr ()"
  shows "jr_schema_version r = 11" "jr_contract r = ''permanent_tool_operation_v1''" "jr_items r = []"
    "\<forall>i \<in> set (rx_items c). runtime_item_sound (rx_items c) i"
    "distinct (image_ids (rx_items c))" "distinct (device_ids (rx_items c))"
    "image_ids (rx_items c) \<noteq> []" "length (image_ids (rx_items c)) \<le> 32"
    "length (device_ids (rx_items c)) \<le> 32"
proof -
  from assms obtain im dv where ok: "runtime_items_ok r (rx_items c) {} {} (rx_items c) = Inr (im, dv)"
    and c: "im \<noteq> {}" "card im \<le> 32" "card dv \<le> 32"
    and h: "runtime_header_ok c r"
    unfolding runtime_validate_iff by blast
  note i = runtime_items_Inr [OF ok]
  show "jr_schema_version r = 11" "jr_contract r = ''permanent_tool_operation_v1''" "jr_items r = []"
    using h unfolding runtime_header_ok_def by blast+
  show "\<forall>i \<in> set (rx_items c). runtime_item_sound (rx_items c) i"
    "distinct (image_ids (rx_items c))" "distinct (device_ids (rx_items c))"
    using i by blast+
  show "image_ids (rx_items c) \<noteq> []" using i c(1) by auto
  show "length (image_ids (rx_items c)) \<le> 32" "length (device_ids (rx_items c)) \<le> 32"
    using i c(2,3) by (auto simp: distinct_card)
qed

section \<open>The readings keep a context valid\<close>

text \<open>Items that agree in what validation reads of them.\<close>

definition same_target_item :: "runtime_item \<Rightarrow> runtime_item \<Rightarrow> bool" where
  "same_target_item i j \<longleftrightarrow> ri_target j = ri_target i \<and> ri_updated_unix_ms j = ri_updated_unix_ms i
     \<and> (\<forall>s. ri_reason j = Some s \<longrightarrow> ri_reason i = Some s \<or> length s \<le> 512)"

lemma reads_same_targets:
  assumes "list_all2 same_target_item xs ys"
  shows "lists_device ys = lists_device xs" "paired_back ys = paired_back xs"
    "length (filter (claims_device u rt) ys) = length (filter (claims_device u rt) xs)"
proof -
  have t: "map ri_target ys = map ri_target xs"
    using assms by (induction rule: list_all2_induct) (auto simp: same_target_item_def)
  have "lists_device zs u rt = list_ex (\<lambda>t. case t of DeviceTarget a _ b _ \<Rightarrow> a = u \<and> b = rt | _ \<Rightarrow> False)
      (map ri_target zs)" for zs u rt
    by (simp add: lists_device_def list_ex_iff)
  with t show "lists_device ys = lists_device xs" by (simp add: fun_eq_iff)
  have "paired_back zs u rt q = list_ex (\<lambda>t. case t of DeviceTarget a _ b (Some back) \<Rightarrow>
      a = q \<and> back = u \<and> b = rt | _ \<Rightarrow> False) (map ri_target zs)" for zs u rt q
    by (simp add: paired_back_def list_ex_iff)
  with t show "paired_back ys = paired_back xs" by (simp add: fun_eq_iff)
  have "length (filter (claims_device u rt) zs) = length (filter (\<lambda>t. case t of
      RuntimeTarget img ds \<Rightarrow> rt_runtime_identifier img = rt \<and> u \<in> set ds | _ \<Rightarrow> False) (map ri_target zs))" for zs
    by (simp add: filter_map claims_device_def [abs_def] comp_def)
  with t show "length (filter (claims_device u rt) ys) = length (filter (claims_device u rt) xs)" by metis
qed

lemma runtime_items_transfer:
  assumes "list_all2 same_target_item all all'"
  shows "list_all2 same_target_item xs ys \<Longrightarrow> jr_created_unix_ms r' = jr_created_unix_ms r \<Longrightarrow>
    runtime_items_ok r all images devices xs = Inr v \<Longrightarrow>
    runtime_items_ok r' all' images devices ys = Inr v"
proof (induction xs ys arbitrary: images devices rule: list_all2_induct)
  case (Cons x xs y ys)
  note same = reads_same_targets [OF assms]
  have h: "\<not> (canonical_udid (target_id (ri_target y)) \<noteq> Some (target_id (ri_target y))
         \<or> (case ri_reason y of None \<Rightarrow> False | Some s \<Rightarrow> 512 < int (length s))
         \<or> ri_updated_unix_ms y < jr_created_unix_ms r')"
    using Cons.prems Cons.hyps(1) by (auto simp: same_target_item_def split: if_splits option.splits)
  have t: "ri_target y = ri_target x" using Cons.hyps(1) by (simp add: same_target_item_def)
  show ?case
    using Cons.prems Cons.IH h unfolding runtime_items_ok.simps t same
    by (auto split: if_splits runtime_target.splits)
qed simp

lemma runtime_validate_transfer:
  assumes "list_all2 same_target_item (rx_items c) (rx_items c')"
    and "c' = c\<lparr>rx_items := rx_items c'\<rparr>" and "r' = r\<lparr>jr_runtime_context := ctx\<rparr>"
    and "runtime_validate dbg c r = Inr ()"
  shows "runtime_validate dbg c' r' = Inr ()"
proof -
  have len: "length (rx_items c') = length (rx_items c)"
    using assms(1) by (simp add: list_all2_lengthD)
  have c': "rx_schema_version c' = rx_schema_version c" "rx_operation c' = rx_operation c"
    "rx_tool_evidence c' = rx_tool_evidence c" "rx_plan_digest c' = rx_plan_digest c"
    by (subst assms(2), simp)+
  have h: "runtime_header_ok c' r' = runtime_header_ok c r" and s: "jr_scope r' = jr_scope r"
    using len c' assms(3) length_0_conv [of "rx_items c'"] length_0_conv [of "rx_items c"]
    by (simp_all add: runtime_header_ok_def)
  have "runtime_items_ok r (rx_items c) {} {} (rx_items c) = Inr v \<Longrightarrow>
      runtime_items_ok r' (rx_items c') {} {} (rx_items c') = Inr v" for v
    using runtime_items_transfer [OF assms(1,1)] assms(3) by simp
  with assms(4) show ?thesis
    unfolding runtime_validate_iff h s by blast
qed

lemma same_target_reconcile: "same_target_item i (reconcile_runtime_item i)"
  by (cases "ri_state i") (auto simp: same_target_item_def reconcile_runtime_item_def)

lemma runtime_reconcile_valid:
  assumes "runtime_validate dbg c r = Inr ()"
  shows "runtime_validate dbg (runtime_reconcile c) (r\<lparr>jr_runtime_context := ctx\<rparr>) = Inr ()"
proof (rule runtime_validate_transfer [OF _ _ refl assms])
  show "list_all2 same_target_item (rx_items c) (rx_items (runtime_reconcile c))"
    by (simp add: runtime_reconcile_def list_all2_map2 list_all2_refl same_target_reconcile)
qed (simp add: runtime_reconcile_def)

lemma runtime_unconfirmed_valid:
  assumes "runtime_validate dbg c r = Inr ()"
  shows "runtime_validate dbg (runtime_unconfirmed p c) (r\<lparr>jr_runtime_context := ctx\<rparr>) = Inr ()"
proof (rule runtime_validate_transfer [OF _ _ refl assms])
  show "list_all2 same_target_item (rx_items c) (rx_items (runtime_unconfirmed p c))"
    by (simp add: runtime_unconfirmed_def list_all2_map2 list_all2_conv_all_nth same_target_item_def)
qed (simp add: runtime_unconfirmed_def)

lemma reconcile_runtime_item_terminal: "terminal_state (ri_state (reconcile_runtime_item i))"
  by (cases "ri_state i") (auto simp: reconcile_runtime_item_def terminal_state_def)

lemma reconcile_runtime_item_idem: "terminal_state (ri_state i) \<Longrightarrow> reconcile_runtime_item i = i"
  by (cases "ri_state i") (auto simp: reconcile_runtime_item_def terminal_state_def)

lemma runtime_reconcile_idem [simp]: "runtime_reconcile (runtime_reconcile c) = runtime_reconcile c"
  by (simp add: runtime_reconcile_def reconcile_runtime_item_idem reconcile_runtime_item_terminal)

text \<open>
  A success or failure survives \<open>unconfirmed\<close> only when the last confirmed context already
  had it.
\<close>

lemma runtime_unconfirmed_confirmed:
  assumes "i \<in> set (rx_items (runtime_unconfirmed (Some p) c))"
    and "ri_state i = ItemSucceeded \<or> ri_state i = ItemFailed"
  shows "\<exists>old \<in> set (rx_items p). ri_target old = ri_target i \<and> ri_state old = ri_state i"
  using assms by (auto simp: runtime_unconfirmed_def list_ex_iff split: if_splits)

end
