(* ===== verification/Empty_Trash_Journal.thy ===== *)
theory Empty_Trash_Journal
  imports Journal_Model
begin

text \<open>
  \<open>empty_trash_journal.rs\<close>: the evidence of a schema 10 record (Finder empties the Trash), the
  aggregate outcome it may claim, its checks, and the conservative reading of an operation
  whose end was not published.
\<close>

section \<open>The aggregate outcome\<close>

definition aggregate ::
  "finder_outcome \<Rightarrow> trash_observation list \<Rightarrow> u64 option \<Rightarrow> bool \<Rightarrow> aggregate_outcome" where
  "aggregate outcome items after_count root_valid =
     (if outcome = FinderNotDispatched \<or> outcome = UserCancelled \<or> outcome = AutomationDenied
      then AggCancelled
      else if ObsPresent \<in> set items \<or> (case after_count of None \<Rightarrow> False | Some n \<Rightarrow> 0 < n)
      then AggPartial
      else if outcome = ReportedCompleted \<and> root_valid \<and> items \<noteq> []
           \<and> list_all (\<lambda>x. x = ObsAbsent) items \<and> after_count = Some 0
      then AggSucceeded
      else AggUnknown)"

section \<open>The checks\<close>

definition trash_error :: io_error where
  "trash_error = invalid ''invalid empty Trash evidence''"

fun double_slash :: "bytes \<Rightarrow> bool" where
  "double_slash (a # b # s) = (a = CHR ''/'' \<and> b = CHR ''/'' \<or> double_slash (b # s))"
| "double_slash _ = False"

definition trash_path :: "(bytes \<Rightarrow> bytes) \<Rightarrow> native_path \<Rightarrow> path io_result" where
  "trash_path dbg p =
     rbind (native_validate dbg p) (\<lambda>_.
       if np_encoding p \<noteq> ''unix_bytes'' \<or> 4096 < int (length (np_bytes p))
          \<or> CHR 0x00 \<in> set (np_bytes p) \<or> (np_bytes p \<noteq> [] \<and> last (np_bytes p) = CHR ''/'')
          \<or> double_slash (np_bytes p)
          \<or> list_ex (\<lambda>c. c = ''.'' \<or> c = ''..'') (split_on CHR ''/'' (np_bytes p))
          \<or> \<not> is_absolute (np_bytes p)
          \<or> ParentDir \<in> set (components (np_bytes p)) \<or> CurDir \<in> set (components (np_bytes p))
       then Inl trash_error else Inr (np_bytes p))"

text \<open>The header conditions before and after the scope is compared with the Trash root.\<close>

definition trash_header1 :: "trash_context \<Rightarrow> journal_record \<Rightarrow> bool" where
  "trash_header1 c r \<longleftrightarrow>
     (jr_schema_version r, jr_plan_schema_version r, jr_engine_version r, jr_rules_version r) = (10, 10, 1, 1)
     \<and> jr_contract r = ''finder_delegated_empty_trash_v1'' \<and> valid_id (jr_operation_id r)
     \<and> jr_clean_policy r = None \<and> jr_tool_operation r = None \<and> jr_related_context r = None
     \<and> jr_orphan_context r = None \<and> jr_delegation r = None \<and> tc_schema_version c = 1
     \<and> tc_performer c = ''finder'' \<and> tc_effect_scope c = ''all_finder_trash_including_attached_volumes''"

definition coverage_reason_bad :: "bytes \<Rightarrow> bool" where
  "coverage_reason_bad s \<longleftrightarrow> s = [] \<or> 128 < length s \<or> has_control s"

definition trash_header2 :: "trash_context \<Rightarrow> journal_record \<Rightarrow> path \<Rightarrow> bool" where
  "trash_header2 c r root \<longleftrightarrow>
     file_name root = Some ''.Trash'' \<and> tc_trash_inode c \<noteq> 0 \<and> lower_hex64 (tc_plan_digest c)
     \<and> checked_sub (tc_deadline_unix_ms c) (tc_approved_unix_ms c) = Some 120000
     \<and> jr_created_unix_ms r = tc_approved_unix_ms c \<and> tc_dispatch_timeout_seconds c = 600
     \<and> tc_finder_before_count c = tc_finder_preview_count c \<and> tc_finder_preview_count c \<noteq> 0
     \<and> length (jr_items r) \<le> unat (tc_finder_preview_count c)
     \<and> length (tc_known_items c) = length (jr_items r) \<and> int (length (jr_items r)) \<le> 4096
     \<and> length (tc_source_roots c) \<le> 8 \<and> length (tc_coverage_reasons c) \<le> 32
     \<and> \<not> list_ex coverage_reason_bad (tc_coverage_reasons c)
     \<and> tc_known_subset_complete c = (tc_coverage_reasons c = [])
     \<and> (case tc_omitted_count c of None \<Rightarrow> True | Some n \<Rightarrow> tc_omitted_lower_bound c \<le> n)
     \<and> tc_unaccounted_logical_bytes c = None \<and> tc_reclaimed_bytes c = None
     \<and> (case tc_finder_message c of None \<Rightarrow> True | Some s \<Rightarrow> int (length s) \<le> 512 \<and> \<not> has_control s)"

fun trash_sources ::
  "(bytes \<Rightarrow> bytes) \<Rightarrow> component list set \<Rightarrow> source_root list \<Rightarrow> unit io_result" where
  "trash_sources dbg seen [] = Inr ()"
| "trash_sources dbg seen (s # ss) =
     rbind (trash_path dbg (sr_path s)) (\<lambda>p.
       if components p \<in> seen \<or> sr_schemas s = [] \<or> 8 < length (sr_schemas s)
          \<or> list_ex (\<lambda>n. n \<notin> {1, 2, 3, 4, 5, 7, 8, 9}) (sr_schemas s) \<or> \<not> distinct (sr_schemas s)
          \<or> (sr_device s \<noteq> None) \<noteq> (sr_inode s \<noteq> None) \<or> sr_inode s = Some 0
          \<or> (sr_status s = SourceRead \<and> sr_inode s = None)
          \<or> (sr_status s = SourceAbsent \<and> sr_inode s \<noteq> None)
       then Inl trash_error
       else trash_sources dbg (insert (components p) seen) ss)"

definition source_ref_ok :: "source_root list \<Rightarrow> source_ref \<Rightarrow> bool" where
  "source_ref_ok roots s \<longleftrightarrow> sf_root_index s < length roots
     \<and> sr_inode (roots ! sf_root_index s) \<noteq> None \<and> valid_id (sf_operation_id s)
     \<and> sf_item_index s < 32 \<and> lower_hex64 (sf_record_digest s)"

text \<open>The state and reason an observation stands for.\<close>

fun observed_state :: "trash_observation \<Rightarrow> item_state \<times> bytes option" where
  "observed_state ObsStarted = (ItemStarted, None)"
| "observed_state ObsPresent = (ItemFailed, Some ''still_present'')"
| "observed_state ObsAbsent = (ItemSucceeded, Some ''absent_after_delegation'')"
| "observed_state ObsUnknown = (ItemUnknown, Some ''observation_unknown'')"
| "observed_state ObsNotDispatched = (ItemSkipped, Some ''not_dispatched'')"

definition trash_item_bad ::
  "trash_context \<Rightarrow> u64 \<Rightarrow> path \<Rightarrow> component list set \<Rightarrow> path \<Rightarrow> item_record \<Rightarrow> known_item \<Rightarrow> bool" where
  "trash_item_bad c created root seen p i k \<longleftrightarrow>
     (case parent p of None \<Rightarrow> True | Some d \<Rightarrow> \<not> path_eq d root) \<or> components p \<in> seen
     \<or> it_inode i = 0 \<or> it_device i \<noteq> tc_trash_device c \<or> it_destination i \<noteq> None
     \<or> it_rule_binding i \<noteq> None \<or> it_recovery_evidence i \<noteq> None \<or> it_updated_unix_ms i < created
     \<or> (case ki_historical_logical_bytes k of None \<Rightarrow> False | Some n \<Rightarrow> n \<noteq> it_logical_bytes i)
     \<or> ki_source_refs k = [] \<or> 32 < length (ki_source_refs k) \<or> \<not> distinct (ki_source_refs k)"

fun trash_items ::
  "(bytes \<Rightarrow> bytes) \<Rightarrow> trash_context \<Rightarrow> u64 \<Rightarrow> path \<Rightarrow> component list set \<Rightarrow> nat
     \<Rightarrow> (item_record \<times> known_item) list \<Rightarrow> nat io_result" where
  "trash_items dbg c created root seen unknown [] = Inr unknown"
| "trash_items dbg c created root seen unknown ((i, k) # rest) =
     rbind (trash_path dbg (it_path i)) (\<lambda>p.
       if trash_item_bad c created root seen p i k then Inl trash_error
       else if list_ex (\<lambda>s. \<not> source_ref_ok (tc_source_roots c) s) (ki_source_refs k)
       then Inl trash_error
       else if (it_state i, it_reason i) \<noteq> observed_state (ki_observation k)
       then Inl trash_error
       else trash_items dbg c created root (insert (components p) seen)
              (if ki_historical_logical_bytes k = None then Suc unknown else unknown) rest)"

definition trash_started_ok :: "trash_context \<Rightarrow> bool" where
  "trash_started_ok c \<longleftrightarrow> tc_aggregate_outcome c = None \<and> tc_finder_outcome c = None
     \<and> tc_finder_after_count c = None \<and> tc_finder_error_code c = None \<and> tc_finder_message c = None
     \<and> tc_dispatch_may_continue c
     \<and> list_all (\<lambda>k. ki_observation k = ObsStarted) (tc_known_items c)"

definition trash_finished_ok :: "trash_context \<Rightarrow> finder_outcome \<Rightarrow> bool" where
  "trash_finished_ok c fin \<longleftrightarrow>
     list_all (\<lambda>k. ki_observation k \<noteq> ObsStarted) (tc_known_items c)
     \<and> list_all (\<lambda>k. (ki_observation k = ObsNotDispatched) = (fin = FinderNotDispatched)) (tc_known_items c)
     \<and> tc_aggregate_outcome c
         = Some (aggregate fin (map ki_observation (tc_known_items c)) (tc_finder_after_count c) True)
     \<and> tc_dispatch_may_continue c = (fin = TimedOut \<or> fin = TransportUnknown)"

definition trash_state_ok :: "trash_context \<Rightarrow> bool" where
  "trash_state_ok c =
     (case tc_operation_state c of
        OpStarted \<Rightarrow> trash_started_ok c
      | OpFinished \<Rightarrow>
          (case tc_finder_outcome c of None \<Rightarrow> False | Some fin \<Rightarrow> trash_finished_ok c fin))"

definition trash_validate ::
  "(bytes \<Rightarrow> bytes) \<Rightarrow> trash_context \<Rightarrow> journal_record \<Rightarrow> unit io_result" where
  "trash_validate dbg c r =
     rbind (trash_path dbg (tc_trash_root c)) (\<lambda>root.
       if \<not> trash_header1 c r then Inl trash_error
       else rbind (trash_path dbg (jr_scope r)) (\<lambda>scope.
         if \<not> path_eq scope root \<or> \<not> trash_header2 c r root then Inl trash_error
         else rbind (trash_sources dbg {} (tc_source_roots c)) (\<lambda>_.
           rbind (trash_items dbg c (jr_created_unix_ms r) root {} 0 (zip (jr_items r) (tc_known_items c)))
             (\<lambda>unknown.
               if unknown \<noteq> unat (tc_unknown_size_count c) \<or> \<not> trash_state_ok c
               then Inl trash_error else Inr ()))))"

section \<open>Unpublished ends\<close>

definition unconfirmed_item :: "item_record \<Rightarrow> item_record" where
  "unconfirmed_item i = i\<lparr>it_state := ItemUnknown, it_reason := Some ''observation_unknown''\<rparr>"

definition unconfirmed_context :: "nat \<Rightarrow> trash_context \<Rightarrow> trash_context" where
  "unconfirmed_context n c = c\<lparr>
     tc_operation_state := OpFinished, tc_aggregate_outcome := Some AggUnknown,
     tc_finder_outcome := Some TransportUnknown, tc_finder_error_code := None,
     tc_finder_message := None, tc_finder_after_count := None, tc_dispatch_may_continue := True,
     tc_known_items := map (\<lambda>k. k\<lparr>ki_observation := ObsUnknown\<rparr>) (take n (tc_known_items c))
       @ drop n (tc_known_items c)\<rparr>"

text \<open>The loop runs over the pairs: a longer list keeps its tail.\<close>

definition trash_unconfirmed :: "journal_record \<Rightarrow> journal_record" where
  "trash_unconfirmed r =
     (case jr_empty_trash_context r of
        None \<Rightarrow> r
      | Some c \<Rightarrow>
          let n = min (length (tc_known_items c)) (length (jr_items r)) in
          r\<lparr>jr_empty_trash_context := Some (unconfirmed_context n c),
            jr_items := map unconfirmed_item (take n (jr_items r)) @ drop n (jr_items r)\<rparr>)"

section \<open>What the aggregate claims\<close>

lemma aggregate_succeeded_iff:
  "aggregate out items after_count valid = AggSucceeded \<longleftrightarrow>
     out = ReportedCompleted \<and> valid \<and> items \<noteq> [] \<and> (\<forall>x \<in> set items. x = ObsAbsent) \<and> after_count = Some 0"
  by (auto simp: aggregate_def list_all_iff)

lemma aggregate_cancelled_iff:
  "aggregate out items after_count valid = AggCancelled \<longleftrightarrow>
     out \<in> {FinderNotDispatched, UserCancelled, AutomationDenied}"
  by (auto simp: aggregate_def)

lemma aggregate_partial_iff:
  "aggregate out items after_count valid = AggPartial \<longleftrightarrow>
     out \<notin> {FinderNotDispatched, UserCancelled, AutomationDenied}
     \<and> (ObsPresent \<in> set items \<or> (\<exists>n. after_count = Some n \<and> 0 < n))"
  by (auto simp: aggregate_def split: option.splits)

section \<open>What a valid context guarantees\<close>

lemma trash_path_Inr:
  "trash_path dbg p = Inr q \<Longrightarrow> q = np_bytes p \<and> is_absolute q \<and> ParentDir \<notin> set (components q)"
  by (auto simp: trash_path_def split: if_splits)

definition trash_item_ok :: "trash_context \<Rightarrow> path \<Rightarrow> item_record \<Rightarrow> known_item \<Rightarrow> bool" where
  "trash_item_ok c root i k \<longleftrightarrow>
     (\<exists>d. parent (np_bytes (it_path i)) = Some d \<and> path_eq d root)
     \<and> it_device i = tc_trash_device c \<and> it_inode i \<noteq> 0 \<and> it_destination i = None
     \<and> (\<forall>n. ki_historical_logical_bytes k = Some n \<longrightarrow> n = it_logical_bytes i)
     \<and> ki_source_refs k \<noteq> [] \<and> (\<forall>s \<in> set (ki_source_refs k). source_ref_ok (tc_source_roots c) s)
     \<and> (it_state i, it_reason i) = observed_state (ki_observation k)"

lemma trash_items_Cons:
  "trash_items dbg c created root seen unknown ((i, k) # rest) = Inr n \<longleftrightarrow>
     (\<exists>p. trash_path dbg (it_path i) = Inr p \<and> \<not> trash_item_bad c created root seen p i k
        \<and> (\<forall>s \<in> set (ki_source_refs k). source_ref_ok (tc_source_roots c) s)
        \<and> (it_state i, it_reason i) = observed_state (ki_observation k)
        \<and> trash_items dbg c created root (insert (components p) seen)
            (if ki_historical_logical_bytes k = None then Suc unknown else unknown) rest = Inr n)"
  by (auto simp: list_ex_iff)

lemma trash_items_Inr:
  "trash_items dbg c created root seen unknown ps = Inr n \<Longrightarrow>
     (\<forall>(i, k) \<in> set ps. trash_item_ok c root i k)
     \<and> distinct (map (\<lambda>(i, k). components (np_bytes (it_path i))) ps)
     \<and> (\<lambda>(i, k). components (np_bytes (it_path i))) ` set ps \<inter> seen = {}
     \<and> n = unknown + length (filter (\<lambda>(i, k). ki_historical_logical_bytes k = None) ps)"
proof (induction ps arbitrary: seen unknown)
  case (Cons x ps)
  obtain i k where x: "x = (i, k)" by (cases x)
  from Cons.prems [unfolded x trash_items_Cons] obtain p where p: "trash_path dbg (it_path i) = Inr p"
    and c: "\<not> trash_item_bad c created root seen p i k"
      "\<forall>s \<in> set (ki_source_refs k). source_ref_ok (tc_source_roots c) s"
      "(it_state i, it_reason i) = observed_state (ki_observation k)"
    and rest: "trash_items dbg c created root (insert (components p) seen)
            (if ki_historical_logical_bytes k = None then Suc unknown else unknown) ps = Inr n"
    by blast
  have pm: "p = np_bytes (it_path i)" using trash_path_Inr [OF p] by simp
  have "trash_item_ok c root i k"
    using c unfolding trash_item_ok_def trash_item_bad_def pm by (auto split: option.splits)
  moreover have "components p \<notin> seen" using c by (simp add: trash_item_bad_def)
  ultimately show ?case using Cons.IH [OF rest] x pm by auto
qed simp

lemma trash_validate_iff:
  "trash_validate dbg c r = Inr () \<longleftrightarrow>
     (\<exists>root scope. trash_path dbg (tc_trash_root c) = Inr root \<and> trash_path dbg (jr_scope r) = Inr scope
        \<and> trash_header1 c r \<and> path_eq scope root \<and> trash_header2 c r root
        \<and> trash_sources dbg {} (tc_source_roots c) = Inr ()
        \<and> trash_items dbg c (jr_created_unix_ms r) root {} 0 (zip (jr_items r) (tc_known_items c))
            = Inr (unat (tc_unknown_size_count c))
        \<and> trash_state_ok c)"
  by (auto simp: trash_validate_def split: if_splits)

section \<open>The conservative reading keeps a record valid\<close>

lemma trash_item_bad_unconfirmed:
  "tc_trash_device c' = tc_trash_device c \<Longrightarrow>
     trash_item_bad c' created root seen p (unconfirmed_item i) (k\<lparr>ki_observation := ObsUnknown\<rparr>)
       = trash_item_bad c created root seen p i k"
  by (simp add: trash_item_bad_def unconfirmed_item_def cong: option.case_cong)

lemma trash_items_unconfirmed:
  assumes "tc_trash_device c' = tc_trash_device c" "tc_source_roots c' = tc_source_roots c"
  shows "trash_items dbg c created root seen unknown ps = Inr n \<Longrightarrow>
    trash_items dbg c' created root seen unknown
      (map (\<lambda>(i, k). (unconfirmed_item i, k\<lparr>ki_observation := ObsUnknown\<rparr>)) ps) = Inr n"
proof (induction ps arbitrary: seen unknown)
  case (Cons x ps)
  obtain i k where x: "x = (i, k)" by (cases x)
  have u: "it_path (unconfirmed_item i) = it_path i"
    "(it_state (unconfirmed_item i), it_reason (unconfirmed_item i)) = observed_state ObsUnknown"
    by (simp_all add: unconfirmed_item_def)
  from Cons.prems [unfolded x trash_items_Cons] obtain p where p: "trash_path dbg (it_path i) = Inr p"
    and c: "\<not> trash_item_bad c created root seen p i k"
      "\<forall>s \<in> set (ki_source_refs k). source_ref_ok (tc_source_roots c) s"
    and rest: "trash_items dbg c created root (insert (components p) seen)
            (if ki_historical_logical_bytes k = None then Suc unknown else unknown) ps = Inr n"
    by blast
  show ?case
    unfolding x list.map prod.case trash_items_Cons
    by (rule exI [of _ p])
      (use p c Cons.IH [OF rest] u assms in \<open>simp add: trash_item_bad_unconfirmed [OF assms(1)]\<close>)
qed simp

lemma zip_map_map: "zip (map f xs) (map g ys) = map (\<lambda>(x, y). (f x, g y)) (zip xs ys)"
  by (simp add: zip_map1 zip_map2 case_prod_beta' comp_def)

lemma trash_unconfirmed_valid:
  assumes c: "jr_empty_trash_context r = Some c" and v: "trash_validate dbg c r = Inr ()"
  shows "\<exists>c'. jr_empty_trash_context (trash_unconfirmed r) = Some c'
    \<and> trash_validate dbg c' (trash_unconfirmed r) = Inr ()"
proof -
  from v obtain root scope where root: "trash_path dbg (tc_trash_root c) = Inr root"
    and scope: "trash_path dbg (jr_scope r) = Inr scope" "path_eq scope root"
    and h: "trash_header1 c r" "trash_header2 c r root"
    and src: "trash_sources dbg {} (tc_source_roots c) = Inr ()"
    and items: "trash_items dbg c (jr_created_unix_ms r) root {} 0 (zip (jr_items r) (tc_known_items c))
        = Inr (unat (tc_unknown_size_count c))"
    by (auto simp: trash_validate_iff)
  have len: "length (tc_known_items c) = length (jr_items r)" using h(2) by (simp add: trash_header2_def)
  define c' where "c' = unconfirmed_context (length (jr_items r)) c"
  have known: "tc_known_items c' = map (\<lambda>k. k\<lparr>ki_observation := ObsUnknown\<rparr>) (tc_known_items c)"
    by (simp add: c'_def unconfirmed_context_def len [symmetric])
  have u: "trash_unconfirmed r = r\<lparr>jr_empty_trash_context := Some c', jr_items := map unconfirmed_item (jr_items r)\<rparr>"
    using c len by (simp add: trash_unconfirmed_def c'_def Let_def)
  have f: "tc_schema_version c' = tc_schema_version c" "tc_performer c' = tc_performer c"
    "tc_effect_scope c' = tc_effect_scope c" "tc_trash_root c' = tc_trash_root c"
    "tc_trash_device c' = tc_trash_device c" "tc_trash_inode c' = tc_trash_inode c"
    "tc_plan_digest c' = tc_plan_digest c" "tc_approved_unix_ms c' = tc_approved_unix_ms c"
    "tc_deadline_unix_ms c' = tc_deadline_unix_ms c" "tc_operation_state c' = OpFinished"
    "tc_aggregate_outcome c' = Some AggUnknown" "tc_finder_preview_count c' = tc_finder_preview_count c"
    "tc_finder_before_count c' = tc_finder_before_count c" "tc_finder_after_count c' = None"
    "tc_finder_outcome c' = Some TransportUnknown" "tc_finder_message c' = None"
    "tc_dispatch_timeout_seconds c' = tc_dispatch_timeout_seconds c" "tc_dispatch_may_continue c' = True"
    "tc_known_subset_complete c' = tc_known_subset_complete c"
    "tc_coverage_reasons c' = tc_coverage_reasons c" "tc_omitted_count c' = tc_omitted_count c"
    "tc_omitted_lower_bound c' = tc_omitted_lower_bound c"
    "tc_unknown_size_count c' = tc_unknown_size_count c" "tc_source_roots c' = tc_source_roots c"
    "tc_unaccounted_logical_bytes c' = tc_unaccounted_logical_bytes c"
    "tc_reclaimed_bytes c' = tc_reclaimed_bytes c"
    by (simp_all add: c'_def unconfirmed_context_def)
  have "trash_header1 c' (trash_unconfirmed r)" using h(1) by (simp add: u f trash_header1_def)
  moreover have "trash_header2 c' (trash_unconfirmed r) root"
    using h(2) by (simp add: u f known trash_header2_def cong: option.case_cong)
  moreover have "trash_items dbg c' (jr_created_unix_ms r) root {} 0
      (zip (jr_items (trash_unconfirmed r)) (tc_known_items c')) = Inr (unat (tc_unknown_size_count c'))"
    using trash_items_unconfirmed [OF f(5) f(24) items] by (simp add: u f known zip_map_map)
  moreover have "trash_state_ok c'"
    by (simp add: trash_state_ok_def trash_finished_ok_def known f list_all_iff)
      (auto simp: aggregate_def list_all_iff)
  ultimately have "trash_validate dbg c' (trash_unconfirmed r) = Inr ()"
    unfolding trash_validate_iff using root scope src by (simp add: u f)
  then show ?thesis by (simp add: u)
qed

end
