(* ===== verification/Journal.thy ===== *)
theory Journal
  imports Rule_Binding Orphan_Journal Runtime_Journal Empty_Trash_Journal
begin

text \<open>
  \<open>Record::validate\<close>, \<open>Record::reconciled\<close> and \<open>Record::handled_bytes\<close> of \<open>journal.rs\<close>: which
  records are accepted from disk, how interrupted work is read, and what a record says was
  handled. The nested functions of \<open>validate\<close> are definitions of their own; the blocks of its
  body are composed in the order of the source, so the first failing check decides the error.
\<close>

section \<open>Contracts\<close>

datatype profile = Legacy | RuleBound | Clean | Bundle | Purge | Tool | Delegated | Related | Orphan

text \<open>The versions and the contract each profile is written under.\<close>

fun profile_header :: "profile \<Rightarrow> u32 \<times> u32 \<times> u32 \<times> u32 \<times> bytes" where
  "profile_header Legacy = (1, 2, 2, 1, ''revalidated_trash_v1'')"
| "profile_header RuleBound = (2, 3, 2, 2, ''revalidated_trash_v1'')"
| "profile_header Clean = (3, 3, 2, 2, ''revalidated_trash_v1'')"
| "profile_header Bundle = (4, 4, 2, 1, ''revalidated_bundle_trash_v1'')"
| "profile_header Purge = (5, 5, 2, 1, ''revalidated_purge_trash_v1'')"
| "profile_header Tool = (6, 6, 2, 1, ''permanent_tool_operation_v1'')"
| "profile_header Delegated = (7, 7, 2, 1, ''system_delegated_trash_v1'')"
| "profile_header Related = (8, 8, 2, 1, ''revalidated_related_trash_v1'')"
| "profile_header Orphan = (9, 9, 1, 1, ''revalidated_orphan_trash_v1'')"

definition has_profile :: "journal_record \<Rightarrow> profile \<Rightarrow> bool" where
  "has_profile r p \<longleftrightarrow>
     (jr_schema_version r, jr_plan_schema_version r, jr_engine_version r, jr_rules_version r,
      jr_contract r) = profile_header p"

definition known_profile :: "journal_record \<Rightarrow> bool" where
  "known_profile r \<longleftrightarrow> list_ex (has_profile r)
     [Legacy, RuleBound, Clean, Bundle, Purge, Tool, Delegated, Related, Orphan]"

section \<open>Contexts\<close>

text \<open>
  \<open>decode_hex_bytes\<close>. The slice \<open>&text[i..i + 2]\<close> panics when \<open>i + 2\<close> falls inside a
  character, so the decoding has a third outcome.
\<close>

datatype hex_decoding = Decoded bytes | NotHex | SlicePanic

fun decode_pairs :: "bytes \<Rightarrow> hex_decoding" where
  "decode_pairs [] = Decoded []"
| "decode_pairs [a] = NotHex"
| "decode_pairs (a # b # s) =
     (if s \<noteq> [] \<and> is_continuation (hd s) then SlicePanic
      else case hex_pair a b of
        None \<Rightarrow> NotHex
      | Some c \<Rightarrow>
          (case decode_pairs s of
             Decoded cs \<Rightarrow> Decoded (c # cs) | NotHex \<Rightarrow> NotHex | SlicePanic \<Rightarrow> SlicePanic))"

definition decode_hex_bytes :: "bytes \<Rightarrow> hex_decoding" where
  "decode_hex_bytes text = (if odd (length text) then NotHex else decode_pairs text)"

definition validate_clean_policy_path ::
  "(bytes \<Rightarrow> bytes) \<Rightarrow> policy_path_record \<Rightarrow> bool \<Rightarrow> unit io_result" where
  "validate_clean_policy_path dbg p absolute =
     (if pp_encoding p \<noteq> ''unix_bytes'' \<or> pp_bytes_hex p = []
      then Inl (invalid ''invalid clean policy path encoding'')
      else case decode_hex_bytes (pp_bytes_hex p) of
        SlicePanic \<Rightarrow> Inl Panicked
      | NotHex \<Rightarrow> Inl (invalid ''invalid clean policy hex path'')
      | Decoded bs \<Rightarrow>
          if CHR 0x00 \<in> set bs \<or> (absolute \<and> (bs = [] \<or> hd bs \<noteq> CHR ''/''))
          then Inl (invalid ''invalid clean policy path bytes'')
          else if dbg bs \<noteq> pp_display p
          then Inl (invalid ''clean policy display path disagrees with native path'')
          else Inr ())"

definition validate_clean_policy_context ::
  "(bytes \<Rightarrow> bytes) \<Rightarrow> policy_context \<Rightarrow> unit io_result" where
  "validate_clean_policy_context dbg c =
     rbind (ensure (pc_schema_version c = 1 \<and> pc_kind c = ''sayaka_clean_policy_context''
         \<and> length (pc_effective_exclusions c) \<le> max_items)
       (invalid ''invalid clean policy context metadata'')) (\<lambda>_.
     rbind (validate_clean_policy_path dbg (pc_root_path c) True) (\<lambda>_.
     rbind (check_all (\<lambda>p. validate_clean_policy_path dbg p True) (pc_effective_exclusions c)) (\<lambda>_.
       ensure (case json_get ''state'' (pc_file_state c) of
           None \<Rightarrow> False | Some v \<Rightarrow> json_as_str v \<noteq> None)
         (invalid ''clean policy file state is missing required state''))))"

text \<open>A paired device is only ever handled together with its partner.\<close>

definition partner_ok :: "tool_device list \<Rightarrow> tool_device \<Rightarrow> bool" where
  "partner_ok devices d =
     (case td_paired_with d of
        None \<Rightarrow> True
      | Some q \<Rightarrow> q \<noteq> td_udid d
          \<and> list_ex (\<lambda>x. td_udid x = q \<and> td_paired_with x = Some (td_udid d)) devices)"

definition tool_device_ok :: "tool_device \<Rightarrow> bool" where
  "tool_device_ok d \<longleftrightarrow> canonical_udid (td_udid d) = Some (td_udid d)
     \<and> int (length (td_name d)) \<le> 1024 \<and> int (length (td_runtime_identifier d)) \<le> 1024"

definition validate_tool_operation :: "tool_operation \<Rightarrow> nat \<Rightarrow> unit io_result" where
  "validate_tool_operation t items =
     ensure (to_schema_version t = 1 \<and> (to_operation t = ''erase'' \<or> to_operation t = ''delete'')
         \<and> to_tool_evidence t \<noteq> [] \<and> int (length (to_tool_evidence t)) \<le> 8192
         \<and> any_hex64 (to_plan_digest t) \<and> length (to_devices t) = items
         \<and> list_all tool_device_ok (to_devices t) \<and> distinct (map td_udid (to_devices t))
         \<and> list_all (partner_ok (to_devices t)) (to_devices t))
       (invalid ''invalid tool operation intent'')"

definition check_orphan :: "(bytes \<Rightarrow> bytes) \<Rightarrow> journal_record \<Rightarrow> unit io_result" where
  "check_orphan dbg r =
     (case (jr_orphan_context r, has_profile r Orphan) of
        (Some c, True) \<Rightarrow> orphan_validate dbg c r
      | (None, False) \<Rightarrow> Inr ()
      | _ \<Rightarrow> Inl (invalid ''missing or unexpected orphan context''))"

definition check_clean :: "(bytes \<Rightarrow> bytes) \<Rightarrow> journal_record \<Rightarrow> unit io_result" where
  "check_clean dbg r =
     (if has_profile r Clean then
        (case jr_clean_policy r of
           None \<Rightarrow> Inl (invalid ''missing clean policy context'')
         | Some c \<Rightarrow> validate_clean_policy_context dbg c)
      else if jr_clean_policy r \<noteq> None
      then Inl (invalid ''legacy/rule-bound record must not contain clean policy context'')
      else Inr ())"

definition check_tool :: "journal_record \<Rightarrow> unit io_result" where
  "check_tool r =
     (case (jr_tool_operation r, has_profile r Tool) of
        (Some t, True) \<Rightarrow> validate_tool_operation t (length (jr_items r))
      | (None, True) \<Rightarrow> Inl (invalid ''missing tool operation intent'')
      | (Some t, False) \<Rightarrow> Inl (invalid ''trash record must not contain a tool operation'')
      | (None, False) \<Rightarrow> Inr ())"

definition check_delegation :: "journal_record \<Rightarrow> unit io_result" where
  "check_delegation r =
     (case (jr_delegation r, has_profile r Delegated) of
        (Some d, True) \<Rightarrow>
          ensure (dl_schema_version d = 1 \<and> dl_performer d = ''finder_after_administrator_approval''
              \<and> any_hex64 (dl_plan_digest d) \<and> length (jr_items r) = 1)
            (invalid ''invalid delegated move intent'')
      | (None, True) \<Rightarrow> Inl (invalid ''missing delegated move intent'')
      | (Some d, False) \<Rightarrow> Inl (invalid ''record must not contain a delegated move intent'')
      | (None, False) \<Rightarrow> Inr ())"

section \<open>Related data\<close>

definition related_locations :: "location list" where
  "related_locations = orphan_locations @ [(''containers'', ''Containers'', '''', ''directory'')]"

definition related_header_ok :: "journal_record \<Rightarrow> related_context \<Rightarrow> bool" where
  "related_header_ok r c \<longleftrightarrow> rc_schema_version c = 1 \<and> valid_id (rc_parent_operation_id c)
     \<and> rc_parent_operation_id c \<noteq> jr_operation_id r \<and> rc_bundle_id c \<noteq> []
     \<and> length (rc_bundle_id c) \<le> 255 \<and> bundle_id_parts_ok (rc_bundle_id c)
     \<and> any_hex64 (rc_plan_digest c) \<and> any_hex64 (rc_manifest_digest c) \<and> any_hex64 (rc_policy_digest c)
     \<and> rc_coverage c = ''registered_and_selected_roots'' \<and> rc_copy_roots c \<noteq> []
     \<and> length (rc_copy_roots c) \<le> 11
     \<and> checked_sub (rc_deadline_unix_ms c) (rc_approved_unix_ms c) = Some 120000
     \<and> length (rc_selected c) = length (jr_items r)"

definition related_binding_ok :: "bytes set \<Rightarrow> related_binding \<Rightarrow> item_record \<Rightarrow> bool" where
  "related_binding_ok seen b i \<longleftrightarrow> rl_path b = it_path i \<and> valid_id (rl_item_id b)
     \<and> rl_item_id b \<notin> seen \<and> rl_rule_version b = 1
     \<and> (rl_kind b = ''file'' \<or> rl_kind b = ''directory'')
     \<and> str_starts_with (rl_rule_id b) ''org.apple.library.''
     \<and> str_ends_with (rl_rule_id b) ''.bundle_id_convention.v1''
     \<and> rl_consequence b \<noteq> [] \<and> int (length (rl_consequence b)) \<le> 2048"

fun related_bindings ::
  "(bytes \<Rightarrow> bytes) \<Rightarrow> journal_record \<Rightarrow> related_context \<Rightarrow> bytes set
     \<Rightarrow> (related_binding \<times> item_record) list \<Rightarrow> unit io_result" where
  "related_bindings dbg r c seen [] = Inr ()"
| "related_bindings dbg r c seen ((b, i) # rest) =
     rbind (native_validate dbg (rl_path b)) (\<lambda>_.
     rbind (ensure (related_binding_ok seen b i) (invalid ''invalid related item binding'')) (\<lambda>_.
     rbind (ok_or (invalid ''unknown related rule'') (find_location (rl_rule_id b) related_locations))
       (\<lambda>(key, dir, sfx, kind).
        let library = path_join (np_bytes (rc_home c)) ''Library'';
            expected = path_join (path_join library dir) (rc_bundle_id c @ sfx)
        in rbind (ensure (rl_kind b = kind \<and> rl_path b = native_from_path dbg expected
               \<and> jr_scope r = native_from_path dbg library)
             (invalid ''related rule path/type mismatch'')) (\<lambda>_.
           related_bindings dbg r c (insert (rl_item_id b) seen) rest))))"

definition check_related :: "(bytes \<Rightarrow> bytes) \<Rightarrow> journal_record \<Rightarrow> unit io_result" where
  "check_related dbg r =
     (case (jr_related_context r, has_profile r Related) of
        (Some c, True) \<Rightarrow>
          rbind (ensure (related_header_ok r c) (invalid ''invalid related context'')) (\<lambda>_.
          rbind (native_validate dbg (rc_bundle_path c)) (\<lambda>_.
          rbind (native_validate dbg (rc_home c)) (\<lambda>_.
          rbind (check_all (native_validate dbg) (rc_copy_roots c)) (\<lambda>_.
            related_bindings dbg r c {} (zip (rc_selected c) (jr_items r))))))
      | (None, False) \<Rightarrow> Inr ()
      | _ \<Rightarrow> Inl (invalid ''missing or unexpected related context''))"

section \<open>Items\<close>

definition check_binding :: "(bytes \<Rightarrow> bytes) \<Rightarrow> bool \<Rightarrow> item_record \<Rightarrow> unit io_result" where
  "check_binding dbg bound i =
     (case (it_rule_binding i, bound) of
        (Some b, True) \<Rightarrow> validate_rule_binding dbg i b
      | (None, True) \<Rightarrow> Inl (invalid ''missing rule binding for rule-bound record'')
      | (Some b, False) \<Rightarrow> Inl (invalid ''legacy record must not contain rule binding'')
      | (None, False) \<Rightarrow> Inr ())"

definition evidence_ok :: "item_record \<Rightarrow> recovery_evidence \<Rightarrow> bool" where
  "evidence_ok i e \<longleftrightarrow> it_state i = ItemUnknown
     \<and> fe_device (re_approved e) = it_device i \<and> fe_inode (re_approved e) = it_inode i
     \<and> fe_logical_bytes (re_approved e) = it_logical_bytes i \<and> nanos_ok (fe_modified (re_approved e))
     \<and> (case re_held_source e of None \<Rightarrow> True | Some s \<Rightarrow> nanos_ok (fe_modified s))
     \<and> length (re_observation_errors e) \<le> 8"

definition check_optional :: "('a \<Rightarrow> unit io_result) \<Rightarrow> 'a option \<Rightarrow> unit io_result" where
  "check_optional f x = (case x of None \<Rightarrow> Inr () | Some a \<Rightarrow> f a)"

definition check_evidence :: "(bytes \<Rightarrow> bytes) \<Rightarrow> item_record \<Rightarrow> recovery_evidence \<Rightarrow> unit io_result" where
  "check_evidence dbg i e =
     rbind (ensure (evidence_ok i e) (invalid ''inconsistent ambiguous-outcome evidence'')) (\<lambda>_.
     rbind (check_optional (native_validate dbg) (re_returned_destination e)) (\<lambda>_.
       check_optional (native_validate dbg) (re_held_source_path e)))"

definition item_consistent :: "bool \<Rightarrow> item_record \<Rightarrow> bool" where
  "item_consistent tool i \<longleftrightarrow>
     int (length (np_bytes (it_path i))) \<le> 4096 \<and> np_encoding (it_path i) = ''unix_bytes''
     \<and> np_bytes (it_path i) \<noteq> [] \<and> hd (np_bytes (it_path i)) = CHR ''/''
     \<and> CHR 0x00 \<notin> set (np_bytes (it_path i))
     \<and> \<not> (tool \<and> (it_destination i \<noteq> None \<or> it_recovery_evidence i \<noteq> None))
     \<and> \<not> (\<not> tool \<and> it_state i = ItemSucceeded \<and> it_destination i = None)
     \<and> \<not> (it_state i \<notin> {ItemSucceeded, ItemUnknown} \<and> it_destination i \<noteq> None)"

text \<open>Tool items are identified by their device identifier: they may share an inode.\<close>

fun check_items ::
  "(bytes \<Rightarrow> bytes) \<Rightarrow> bool \<Rightarrow> bool \<Rightarrow> (u64 \<times> u64) set \<Rightarrow> bytes set \<Rightarrow> item_record list \<Rightarrow> unit io_result" where
  "check_items dbg tool bound ids paths [] = Inr ()"
| "check_items dbg tool bound ids paths (i # is) =
     rbind (native_validate dbg (it_path i)) (\<lambda>_.
     rbind (check_optional (native_validate dbg) (it_destination i)) (\<lambda>_.
     rbind (check_binding dbg bound i) (\<lambda>_.
     rbind (check_optional (check_evidence dbg i) (it_recovery_evidence i)) (\<lambda>_.
       if (\<not> tool \<and> (it_device i, it_inode i) \<in> ids) \<or> np_bytes (it_path i) \<in> paths
          \<or> \<not> item_consistent tool i
       then Inl (invalid ''inconsistent journal item'')
       else check_items dbg tool bound (insert (it_device i, it_inode i) ids)
              (insert (np_bytes (it_path i)) paths) is))))"

section \<open>The whole record\<close>

text \<open>The checks of a record of schemas 1 to 9.\<close>

definition validate_trash_record :: "(bytes \<Rightarrow> bytes) \<Rightarrow> journal_record \<Rightarrow> unit io_result" where
  "validate_trash_record dbg r =
     rbind (check_orphan dbg r) (\<lambda>_.
     rbind (ensure (known_profile r \<and> valid_id (jr_operation_id r) \<and> jr_items r \<noteq> []
         \<and> length (jr_items r) \<le> max_items)
       (invalid ''unsupported or invalid journal record'')) (\<lambda>_.
     rbind (native_validate dbg (jr_scope r)) (\<lambda>_.
     rbind (check_clean dbg r) (\<lambda>_.
     rbind (check_tool r) (\<lambda>_.
     rbind (check_delegation r) (\<lambda>_.
     rbind (check_related dbg r) (\<lambda>_.
       check_items dbg (has_profile r Tool) (has_profile r RuleBound \<or> has_profile r Clean) {} {}
         (jr_items r))))))))"

definition record_validate :: "(bytes \<Rightarrow> bytes) \<Rightarrow> journal_record \<Rightarrow> unit io_result" where
  "record_validate dbg r =
     (if jr_schema_version r = 11 then
        (case jr_runtime_context r of
           None \<Rightarrow> Inl (invalid ''missing runtime context'')
         | Some c \<Rightarrow> runtime_validate dbg c r)
      else if jr_runtime_context r \<noteq> None then Inl (invalid ''unexpected runtime context'')
      else if jr_schema_version r = 10 then
        (case jr_empty_trash_context r of
           None \<Rightarrow> Inl (invalid ''missing empty Trash context'')
         | Some c \<Rightarrow> trash_validate dbg c r)
      else if jr_empty_trash_context r \<noteq> None then Inl (invalid ''unexpected empty Trash context'')
      else validate_trash_record dbg r)"

section \<open>Reading a record\<close>

definition reconcile_item :: "u32 \<Rightarrow> item_record \<Rightarrow> item_record" where
  "reconcile_item schema i =
     (if it_state i = ItemStarted then
        i\<lparr>it_state := ItemUnknown,
          it_reason := Some ''interrupted_after_durable_intent; never automatically retried''\<rparr>
      else if it_state i = ItemPlanned then
        i\<lparr>it_state := ItemSkipped,
          it_reason := Some (if schema = 8 then ''interrupted'' else ''not_started_before_session_ended'')\<rparr>
      else i)"

definition reconciled :: "journal_record \<Rightarrow> journal_record" where
  "reconciled r =
     (let r1 = r\<lparr>jr_runtime_context := map_option runtime_reconcile (jr_runtime_context r)\<rparr>;
          r2 = (case jr_empty_trash_context r1 of
                  None \<Rightarrow> r1
                | Some c \<Rightarrow> if tc_operation_state c = OpStarted then trash_unconfirmed r1 else r1)
      in r2\<lparr>jr_items := map (reconcile_item (jr_schema_version r2)) (jr_items r2)\<rparr>)"

text \<open>\<open>try_fold\<close> with a checked sum of sizes of which some may be missing.\<close>

fun checked_total :: "u64 \<Rightarrow> u64 option list \<Rightarrow> u64 option" where
  "checked_total acc [] = Some acc"
| "checked_total acc (None # xs) = None"
| "checked_total acc (Some x # xs) =
     (case checked_add acc x of None \<Rightarrow> None | Some s \<Rightarrow> checked_total s xs)"

definition handled_bytes :: "journal_record \<Rightarrow> u64 option" where
  "handled_bytes r =
     (if jr_empty_trash_context r \<noteq> None \<or> jr_runtime_context r \<noteq> None then None
      else case jr_orphan_context r of
        Some c \<Rightarrow> checked_total 0 (map (\<lambda>(b, i). ob_measured_logical_bytes b)
          (filter (\<lambda>(b, i). it_state i = ItemSucceeded) (zip (oc_selected c) (jr_items r))))
      | None \<Rightarrow> checked_total 0 (map (\<lambda>i. Some (it_logical_bytes i))
          (filter (\<lambda>i. it_state i = ItemSucceeded) (jr_items r))))"

end
