(* ===== verification/Journal_Properties.thy ===== *)
theory Journal_Properties
  imports Journal Model
begin

text \<open>
  What the journal promises: an accepted record is of one known contract with exactly its
  contexts and consistent items, its rule bindings are sound, reading it back after an
  interruption keeps it valid and only ever weakens what it claims, and the sizes it reports are
  exact.
\<close>

section \<open>Accepted items\<close>

lemma check_items_Inr:
  "check_items dbg tool bound ids paths is = Inr () \<Longrightarrow>
     (\<forall>i \<in> set is. native_validate dbg (it_path i) = Inr () \<and> item_consistent tool i
        \<and> check_binding dbg bound i = Inr ()
        \<and> check_optional (native_validate dbg) (it_destination i) = Inr ()
        \<and> check_optional (check_evidence dbg i) (it_recovery_evidence i) = Inr ())
     \<and> (\<not> tool \<longrightarrow> distinct (map (\<lambda>i. (it_device i, it_inode i)) is)
          \<and> (\<lambda>i. (it_device i, it_inode i)) ` set is \<inter> ids = {})
     \<and> distinct (map (\<lambda>i. np_bytes (it_path i)) is)
     \<and> (\<lambda>i. np_bytes (it_path i)) ` set is \<inter> paths = {}"
proof (induction "is" arbitrary: ids paths)
  case (Cons i "is")
  from Cons.prems have rest: "check_items dbg tool bound (insert (it_device i, it_inode i) ids)
      (insert (np_bytes (it_path i)) paths) is = Inr ()"
    and i: "native_validate dbg (it_path i) = Inr ()" "item_consistent tool i"
      "check_binding dbg bound i = Inr ()" "check_optional (native_validate dbg) (it_destination i) = Inr ()"
      "check_optional (check_evidence dbg i) (it_recovery_evidence i) = Inr ()"
      "tool \<or> (it_device i, it_inode i) \<notin> ids" "np_bytes (it_path i) \<notin> paths"
    by (auto split: if_splits)
  from Cons.IH [OF rest] i show ?case by auto
qed simp

lemma validate_trash_record_iff:
  "validate_trash_record dbg r = Inr () \<longleftrightarrow>
     check_orphan dbg r = Inr () \<and> known_profile r \<and> valid_id (jr_operation_id r) \<and> jr_items r \<noteq> []
     \<and> length (jr_items r) \<le> max_items \<and> native_validate dbg (jr_scope r) = Inr ()
     \<and> check_clean dbg r = Inr () \<and> check_tool r = Inr () \<and> check_delegation r = Inr ()
     \<and> check_related dbg r = Inr ()
     \<and> check_items dbg (has_profile r Tool) (has_profile r RuleBound \<or> has_profile r Clean) {} {}
         (jr_items r) = Inr ()"
  by (auto simp: validate_trash_record_def)

lemma profile_schema: "has_profile r p \<Longrightarrow> jr_schema_version r = fst (profile_header p)"
  unfolding has_profile_def by (metis fst_conv)

lemma profile_unique: "has_profile r p \<Longrightarrow> has_profile r q \<Longrightarrow> p = q"
  by (drule profile_schema, drule profile_schema) (cases p; cases q; simp)

lemma known_profile_cases: "known_profile r \<Longrightarrow> \<exists>p. has_profile r p"
  by (auto simp: known_profile_def)

section \<open>A concrete record\<close>

definition demo_native :: "bytes \<Rightarrow> native_path" where
  "demo_native p = native_from_path ascii_debug p"

definition demo_item :: "bytes \<Rightarrow> u64 \<Rightarrow> item_state \<Rightarrow> item_record" where
  "demo_item p ino st = \<lparr>it_path = demo_native p, it_device = 1, it_inode = ino,
     it_logical_bytes = 7, it_state = st, it_reason = None,
     it_destination = (if st = ItemSucceeded then Some (demo_native ''/t/x'') else None),
     it_rule_binding = None, it_recovery_evidence = None, it_updated_unix_ms = 9\<rparr>"

definition demo_record :: "item_record list \<Rightarrow> journal_record" where
  "demo_record is = \<lparr>jr_schema_version = 1, jr_plan_schema_version = 2, jr_engine_version = 2,
     jr_rules_version = 1, jr_operation_id = ''a-1'', jr_contract = ''revalidated_trash_v1'',
     jr_scope = demo_native ''/d'', jr_clean_policy = None, jr_tool_operation = None,
     jr_related_context = None, jr_orphan_context = None, jr_delegation = None,
     jr_empty_trash_context = None, jr_runtime_context = None, jr_created_unix_ms = 5,
     jr_items = is\<rparr>"

definition demo_interrupted :: journal_record where
  "demo_interrupted = demo_record [demo_item ''/d/a'' 2 ItemSucceeded, demo_item ''/d/b'' 3 ItemStarted,
     demo_item ''/d/c'' 4 ItemPlanned]"

lemma demo_interrupted_valid: "record_validate ascii_debug demo_interrupted = Inr ()"
  by code_simp

section \<open>Reading interrupted work\<close>

lemma reconcile_item_keeps [simp]:
  "it_path (reconcile_item s i) = it_path i" "it_device (reconcile_item s i) = it_device i"
  "it_inode (reconcile_item s i) = it_inode i" "it_logical_bytes (reconcile_item s i) = it_logical_bytes i"
  "it_destination (reconcile_item s i) = it_destination i"
  "it_rule_binding (reconcile_item s i) = it_rule_binding i"
  "it_recovery_evidence (reconcile_item s i) = it_recovery_evidence i"
  "it_updated_unix_ms (reconcile_item s i) = it_updated_unix_ms i"
  by (simp_all add: reconcile_item_def)

lemma reconcile_item_state:
  "it_state (reconcile_item s i) = (case it_state i of
     ItemStarted \<Rightarrow> ItemUnknown | ItemPlanned \<Rightarrow> ItemSkipped | x \<Rightarrow> x)"
  by (cases "it_state i") (simp_all add: reconcile_item_def)

lemma reconcile_item_terminal: "terminal_state (it_state i) \<Longrightarrow> reconcile_item s i = i"
  by (simp add: reconcile_item_def terminal_state_def)

lemma reconcile_item_is_terminal: "terminal_state (it_state (reconcile_item s i))"
  by (simp add: reconcile_item_state terminal_state_def split: item_state.splits)

lemma orphan_bindings_reconciled:
  "orphan_bindings dbg c home q seen (map (\<lambda>(b, i). (b, reconcile_item s i)) ps)
     = orphan_bindings dbg c home q seen ps"
proof (induction ps arbitrary: seen)
  case (Cons x ps)
  obtain b i where x: "x = (b, i)" by (cases x)
  show ?case
    unfolding x list.map prod.case orphan_bindings.simps reconcile_item_keeps Cons.IH ..
qed simp

lemma related_bindings_reconciled:
  assumes "jr_scope r' = jr_scope r"
  shows "related_bindings dbg r' c seen (map (\<lambda>(b, i). (b, reconcile_item s i)) ps)
     = related_bindings dbg r c seen ps"
proof (induction ps arbitrary: seen)
  case (Cons x ps)
  obtain b i where x: "x = (b, i)" by (cases x)
  have ok: "related_binding_ok seen b (reconcile_item s i) = related_binding_ok seen b i"
    by (simp add: related_binding_ok_def)
  show ?case
    unfolding x list.map prod.case related_bindings.simps ok assms Cons.IH ..
qed simp

lemma zip_map_snd: "zip xs (map f ys) = map (\<lambda>(x, y). (x, f y)) (zip xs ys)"
  by (simp add: zip_map2)

lemma check_item_reconciled:
  assumes "check_optional (check_evidence dbg i) (it_recovery_evidence i) = Inr ()"
  shows "check_optional (check_evidence dbg (reconcile_item s i)) (it_recovery_evidence i) = Inr ()"
proof (cases "it_recovery_evidence i")
  case (Some e)
  then have "it_state i = ItemUnknown"
    using assms by (simp add: check_optional_def check_evidence_def evidence_ok_def)
  then have "reconcile_item s i = i" by (simp add: reconcile_item_def)
  then show ?thesis using assms by simp
qed (simp add: check_optional_def)

lemma item_consistent_reconciled: "item_consistent tool i \<Longrightarrow> item_consistent tool (reconcile_item s i)"
  unfolding item_consistent_def reconcile_item_keeps reconcile_item_state by (cases "it_state i") auto

lemma check_items_reconciled:
  "check_items dbg tool bound ids paths is = Inr () \<Longrightarrow>
     check_items dbg tool bound ids paths (map (reconcile_item s) is) = Inr ()"
proof (induction "is" arbitrary: ids paths)
  case (Cons i "is")
  have b: "check_binding dbg bound (reconcile_item s i) = check_binding dbg bound i"
  proof -
    have "validate_rule_binding dbg (reconcile_item s i) x = validate_rule_binding dbg i x" for x
      by (simp add: validate_rule_binding_def binding_matches_item_def)
    then show ?thesis by (simp add: check_binding_def split: option.splits bool.splits)
  qed
  from Cons.prems have rest: "check_items dbg tool bound (insert (it_device i, it_inode i) ids)
      (insert (np_bytes (it_path i)) paths) is = Inr ()"
    and i: "native_validate dbg (it_path i) = Inr ()" "item_consistent tool i"
      "check_binding dbg bound i = Inr ()" "check_optional (native_validate dbg) (it_destination i) = Inr ()"
      "check_optional (check_evidence dbg i) (it_recovery_evidence i) = Inr ()"
      "tool \<or> (it_device i, it_inode i) \<notin> ids" "np_bytes (it_path i) \<notin> paths"
    by (auto split: if_splits)
  show ?case
    using i Cons.IH [OF rest] check_item_reconciled [OF i(5), of s] item_consistent_reconciled [OF i(2), of s]
    by (simp add: b)
qed simp

text \<open>Records of schemas 1 to 9 carry no operation-wide state: only their items change.\<close>

lemma trash_record_reconciled:
  assumes v: "validate_trash_record dbg r = Inr ()"
  shows "validate_trash_record dbg (r\<lparr>jr_items := map (reconcile_item s) (jr_items r)\<rparr>) = Inr ()"
    (is "validate_trash_record dbg ?r' = _")
proof -
  have p: "has_profile ?r' q = has_profile r q" for q by (simp add: has_profile_def)
  have k: "known_profile ?r' = known_profile r" by (simp add: known_profile_def p)
  have "orphan_validate dbg x ?r' = orphan_validate dbg x r" for x
    by (simp add: orphan_validate_def zip_map_snd orphan_bindings_reconciled cong: if_cong)
  then have o': "check_orphan dbg ?r' = check_orphan dbg r"
    by (simp add: check_orphan_def p split: option.splits bool.splits)
  have c: "check_clean dbg ?r' = check_clean dbg r" by (simp add: check_clean_def p split: option.splits)
  have t: "check_tool ?r' = check_tool r" by (simp add: check_tool_def p split: option.splits bool.splits)
  have d: "check_delegation ?r' = check_delegation r" by (simp add: check_delegation_def p split: option.splits bool.splits)
  have "related_header_ok ?r' x = related_header_ok r x" for x by (simp add: related_header_ok_def)
  then have l: "check_related dbg ?r' = check_related dbg r"
    by (simp add: check_related_def p zip_map_snd related_bindings_reconciled [of ?r' r]
        split: option.splits bool.splits)
  show ?thesis
    using v unfolding validate_trash_record_iff o' k c t d l p
    by (simp add: check_items_reconciled)
qed

lemma observed_states: "(it_state i, it_reason i) = observed_state obs \<Longrightarrow> obs \<noteq> ObsStarted \<Longrightarrow>
    terminal_state (it_state i)"
  by (cases obs) (auto simp: terminal_state_def)

lemma map_terminal: "\<forall>i \<in> set is. terminal_state (it_state i) \<Longrightarrow> map (reconcile_item s) is = is"
  by (rule map_idI) (simp add: reconcile_item_terminal)

lemma trash_finished_terminal:
  assumes v: "trash_validate dbg c r = Inr ()" and s: "tc_operation_state c = OpFinished"
    and i: "i \<in> set (jr_items r)"
  shows "terminal_state (it_state i)"
proof -
  from v obtain root n where it: "trash_items dbg c (jr_created_unix_ms r) root {} 0
        (zip (jr_items r) (tc_known_items c)) = Inr n" and h: "trash_header2 c r root" and st: "trash_state_ok c"
    by (auto simp: trash_validate_iff)
  have len: "length (tc_known_items c) = length (jr_items r)" using h by (simp add: trash_header2_def)
  with i obtain k where k: "(i, k) \<in> set (zip (jr_items r) (tc_known_items c))"
    by (metis in_set_impl_in_set_zip1)
  then have "k \<in> set (tc_known_items c)" by (rule set_zip_rightD)
  then have "ki_observation k \<noteq> ObsStarted"
    using st s by (auto simp: trash_state_ok_def trash_finished_ok_def list_all_iff split: option.splits)
  moreover have "(it_state i, it_reason i) = observed_state (ki_observation k)"
    using trash_items_Inr [OF it] k by (auto simp: trash_item_ok_def)
  ultimately show ?thesis using observed_states by blast
qed

lemma trash_unconfirmed_items:
  assumes "jr_empty_trash_context r = Some c" "length (tc_known_items c) = length (jr_items r)"
  shows "jr_items (trash_unconfirmed r) = map unconfirmed_item (jr_items r)"
  using assms by (simp add: trash_unconfirmed_def Let_def)

lemma trash_unconfirmed_other:
  "jr_runtime_context (trash_unconfirmed r) = jr_runtime_context r"
  "jr_schema_version (trash_unconfirmed r) = jr_schema_version r"
  "jr_operation_id (trash_unconfirmed r) = jr_operation_id r"
  "jr_orphan_context (trash_unconfirmed r) = jr_orphan_context r"
  "jr_created_unix_ms (trash_unconfirmed r) = jr_created_unix_ms r"
  by (simp_all add: trash_unconfirmed_def Let_def split: option.splits)

text \<open>The three shapes of a valid record and what \<open>reconciled\<close> does to each.\<close>

lemma record_shapes:
  assumes "record_validate dbg r = Inr ()"
  obtains (runtime) c where "jr_schema_version r = 11" "jr_runtime_context r = Some c"
      "runtime_validate dbg c r = Inr ()" "jr_empty_trash_context r = None" "jr_items r = []"
  | (empty_trash) c where "jr_schema_version r = 10" "jr_runtime_context r = None"
      "jr_empty_trash_context r = Some c" "trash_validate dbg c r = Inr ()"
  | (trash) "jr_schema_version r \<noteq> 11" "jr_schema_version r \<noteq> 10" "jr_runtime_context r = None"
      "jr_empty_trash_context r = None" "validate_trash_record dbg r = Inr ()"
proof -
  from assms consider c where "jr_schema_version r = 11" "jr_runtime_context r = Some c"
      "runtime_validate dbg c r = Inr ()"
    | c where "jr_schema_version r = 10" "jr_runtime_context r = None"
      "jr_empty_trash_context r = Some c" "trash_validate dbg c r = Inr ()"
    | "jr_schema_version r \<noteq> 11" "jr_schema_version r \<noteq> 10" "jr_runtime_context r = None"
      "jr_empty_trash_context r = None" "validate_trash_record dbg r = Inr ()"
    by (auto simp: record_validate_def split: if_splits option.splits)
  then show ?thesis
  proof cases
    case 1
    then have "runtime_header_ok c0 r" if "c0 = c" for c0
      using that by (simp add: runtime_validate_iff)
    then show ?thesis using 1 runtime by (simp add: runtime_header_ok_def)
  next
    case 2
    then show ?thesis by (rule empty_trash)
  next
    case 3
    then show ?thesis by (rule trash)
  qed
qed

lemma reconciled_runtime:
  assumes "jr_runtime_context r = Some c" "jr_empty_trash_context r = None" "jr_items r = []"
  shows "reconciled r = r\<lparr>jr_runtime_context := Some (runtime_reconcile c)\<rparr>"
  using assms by (simp add: reconciled_def Let_def)

lemma reconciled_trash:
  assumes "jr_runtime_context r = None" "jr_empty_trash_context r = None"
  shows "reconciled r = r\<lparr>jr_items := map (reconcile_item (jr_schema_version r)) (jr_items r)\<rparr>"
  using assms by (simp add: reconciled_def Let_def)

lemma reconciled_empty_trash:
  assumes "jr_runtime_context r = None" "jr_empty_trash_context r = Some c" "trash_validate dbg c r = Inr ()"
  shows "reconciled r = (if tc_operation_state c = OpStarted then trash_unconfirmed r else r)"
proof -
  have r1: "r\<lparr>jr_runtime_context := map_option runtime_reconcile (jr_runtime_context r)\<rparr> = r"
    using assms(1) by simp
  have len: "length (tc_known_items c) = length (jr_items r)"
    using assms(3) by (auto simp: trash_validate_iff trash_header2_def)
  show ?thesis
  proof (cases "tc_operation_state c")
    case OpStarted
    have "map (reconcile_item s) (jr_items (trash_unconfirmed r)) = jr_items (trash_unconfirmed r)" for s
      by (rule map_terminal)
        (auto simp: trash_unconfirmed_items [OF assms(2) len] unconfirmed_item_def terminal_state_def)
    then show ?thesis using assms(2) OpStarted unfolding reconciled_def r1 by (simp add: Let_def)
  next
    case OpFinished
    have "map (reconcile_item s) (jr_items r) = jr_items r" for s
      by (rule map_terminal) (use trash_finished_terminal [OF assms(3) OpFinished] in blast)
    then show ?thesis using assms(2) OpFinished unfolding reconciled_def r1 by (simp add: Let_def)
  qed
qed

lemma reconciled_keeps_valid:
  assumes "record_validate dbg r = Inr ()"
  shows "record_validate dbg (reconciled r) = Inr ()"
  using assms
proof (cases rule: record_shapes)
  case (runtime c)
  then show ?thesis
    using runtime_reconcile_valid [OF runtime(3), of "Some (runtime_reconcile c)"]
    by (simp add: reconciled_runtime record_validate_def)
next
  case (empty_trash c)
  show ?thesis
  proof (cases "tc_operation_state c")
    case OpStarted
    obtain c' where "jr_empty_trash_context (trash_unconfirmed r) = Some c'"
      "trash_validate dbg c' (trash_unconfirmed r) = Inr ()"
      using trash_unconfirmed_valid [OF empty_trash(3,4)] by blast
    then show ?thesis
      using empty_trash OpStarted
      by (simp add: reconciled_empty_trash [OF empty_trash(2-4)] record_validate_def trash_unconfirmed_other)
  next
    case OpFinished
    then show ?thesis
      using assms by (simp add: reconciled_empty_trash [OF empty_trash(2-4)])
  qed
next
  case trash
  then show ?thesis
    using trash_record_reconciled [OF trash(5), of "jr_schema_version r"]
    by (simp add: reconciled_trash record_validate_def)
qed

text \<open>C6: Reading back an interrupted record keeps it acceptable: whatever the contract, a record
  that passes validation still passes it after \<open>reconciled\<close>.\<close>

theorem reconciled_valid:
  assumes "record_validate dbg r = Inr ()"
  shows "record_validate dbg (reconciled r) = Inr ()"
  by (rule reconciled_keeps_valid [OF assms])

theorem reconciled_valid_witness: "record_validate ascii_debug (reconciled demo_interrupted) = Inr ()"
  by (rule reconciled_valid [OF demo_interrupted_valid])

text \<open>What an item may become when an interrupted record is read.\<close>

definition weaker_item :: "item_record \<Rightarrow> item_record \<Rightarrow> bool" where
  "weaker_item i j \<longleftrightarrow> it_path j = it_path i \<and> it_device j = it_device i \<and> it_inode j = it_inode i
     \<and> it_logical_bytes j = it_logical_bytes i \<and> it_destination j = it_destination i
     \<and> terminal_state (it_state j)
     \<and> (if terminal_state (it_state i) then it_state j = it_state i
        else it_state j \<in> {ItemUnknown, ItemSkipped})"

lemma weaker_reconcile_item: "weaker_item i (reconcile_item s i)"
  by (cases "it_state i")
    (auto simp: weaker_item_def reconcile_item_state terminal_state_def)

lemma weaker_refl: "terminal_state (it_state i) \<Longrightarrow> weaker_item i i"
  by (simp add: weaker_item_def)

lemma trash_started_items:
  assumes v: "trash_validate dbg c r = Inr ()" and s: "tc_operation_state c = OpStarted"
    and i: "i \<in> set (jr_items r)"
  shows "it_state i = ItemStarted"
proof -
  from v obtain root n where it: "trash_items dbg c (jr_created_unix_ms r) root {} 0
        (zip (jr_items r) (tc_known_items c)) = Inr n" and h: "trash_header2 c r root" and st: "trash_state_ok c"
    by (auto simp: trash_validate_iff)
  have len: "length (tc_known_items c) = length (jr_items r)" using h by (simp add: trash_header2_def)
  with i obtain k where k: "(i, k) \<in> set (zip (jr_items r) (tc_known_items c))"
    by (metis in_set_impl_in_set_zip1)
  then have "k \<in> set (tc_known_items c)" by (rule set_zip_rightD)
  then have "ki_observation k = ObsStarted"
    using st s by (auto simp: trash_state_ok_def trash_started_ok_def list_all_iff)
  then show ?thesis using trash_items_Inr [OF it] k by (auto simp: trash_item_ok_def)
qed

lemma reconciled_items_weaker:
  assumes "record_validate dbg r = Inr ()"
  shows "list_all2 weaker_item (jr_items r) (jr_items (reconciled r))"
  using assms
proof (cases rule: record_shapes)
  case (runtime c)
  then show ?thesis by (simp add: reconciled_runtime)
next
  case (empty_trash c)
  note v = empty_trash(4) and r = reconciled_empty_trash [OF empty_trash(2-4)]
  have len: "length (tc_known_items c) = length (jr_items r)"
    using v by (auto simp: trash_validate_iff trash_header2_def)
  show ?thesis
  proof (cases "tc_operation_state c")
    case OpStarted
    have "weaker_item i (unconfirmed_item i)" if "i \<in> set (jr_items r)" for i
      using trash_started_items [OF v OpStarted that]
      by (simp add: weaker_item_def unconfirmed_item_def terminal_state_def)
    then show ?thesis
      by (simp add: r OpStarted trash_unconfirmed_items [OF empty_trash(3) len] list_all2_map2 list_all2_same)
  next
    case OpFinished
    then show ?thesis
      using trash_finished_terminal [OF v OpFinished] by (simp add: r list_all2_same weaker_refl)
  qed
next
  case trash
  then show ?thesis by (simp add: reconciled_trash list_all2_map2 list_all2_same weaker_reconcile_item)
qed

lemma unconfirmed_finished:
  assumes "jr_empty_trash_context r = Some c"
  shows "\<exists>c'. jr_empty_trash_context (trash_unconfirmed r) = Some c' \<and> tc_operation_state c' = OpFinished"
  using assms by (simp add: trash_unconfirmed_def unconfirmed_context_def Let_def)

lemma reconciled_idempotent:
  assumes "record_validate dbg r = Inr ()"
  shows "reconciled (reconciled r) = reconciled r"
  using assms
proof (cases rule: record_shapes)
  case (runtime c)
  then show ?thesis
    by (simp add: reconciled_runtime [OF runtime(2,4,5)])
      (simp add: reconciled_runtime [of _ "runtime_reconcile c"])
next
  case (empty_trash c)
  note v = empty_trash(4) and r = reconciled_empty_trash [OF empty_trash(2-4)]
  show ?thesis
  proof (cases "tc_operation_state c")
    case OpStarted
    obtain c' where c': "jr_empty_trash_context (trash_unconfirmed r) = Some c'"
      "trash_validate dbg c' (trash_unconfirmed r) = Inr ()"
      using trash_unconfirmed_valid [OF empty_trash(3,4)] by blast
    then have "tc_operation_state c' = OpFinished" using unconfirmed_finished [OF empty_trash(3)] by auto
    then have "reconciled (trash_unconfirmed r) = trash_unconfirmed r"
      using reconciled_empty_trash [OF _ c'] empty_trash(2) by (simp add: trash_unconfirmed_other)
    then show ?thesis by (simp add: r OpStarted)
  next
    case OpFinished
    then show ?thesis by (simp add: r)
  qed
next
  case trash
  have "map (reconcile_item s) (map (reconcile_item s) xs) = map (reconcile_item s) xs" for s xs
    by (rule map_terminal) (auto simp: reconcile_item_is_terminal)
  then show ?thesis
    using trash by (simp add: reconciled_trash)
qed

section \<open>Handled bytes\<close>

lemma checked_total_iff:
  "checked_total acc xs = Some s \<longleftrightarrow> None \<notin> set xs \<and> unat acc + sum_list (map (unat \<circ> the) xs) = unat s"
proof (induction acc xs rule: checked_total.induct)
  case (1 acc)
  then show ?case by (auto simp: word_unat_eq_iff)
next
  case (3 acc x xs)
  show ?case
  proof (cases "checked_add acc x")
    case None
    then have "2 ^ 64 \<le> unat acc + unat x" by (simp add: checked_simps)
    then show ?thesis using None unat_u64_less [of s] by auto
  next
    case (Some t)
    then show ?thesis using 3 by (auto simp: unat_checked_add add.assoc)
  qed
qed simp

lemma handled_reconciled:
  assumes "record_validate dbg r = Inr ()"
  shows "handled_bytes (reconciled r) = handled_bytes r"
  using assms
proof (cases rule: record_shapes)
  case (runtime c)
  then show ?thesis by (simp add: reconciled_runtime handled_bytes_def)
next
  case (empty_trash c)
  obtain c' where "jr_empty_trash_context (trash_unconfirmed r) = Some c'"
    using unconfirmed_finished [OF empty_trash(3)] by blast
  then show ?thesis
    using empty_trash by (simp add: reconciled_empty_trash [OF empty_trash(2-4)] handled_bytes_def)
next
  case trash
  have s: "(it_state (reconcile_item x i) = ItemSucceeded) = (it_state i = ItemSucceeded)" for x i
    by (cases "it_state i") (simp_all add: reconcile_item_state)
  have items: "map (\<lambda>i. Some (it_logical_bytes i)) (filter (\<lambda>i. it_state i = ItemSucceeded)
        (map (reconcile_item x) is)) = map (\<lambda>i. Some (it_logical_bytes i)) (filter (\<lambda>i. it_state i = ItemSucceeded) is)" for x "is"
    by (induction "is") (simp_all add: s)
  have pairs: "map (\<lambda>(b, i). ob_measured_logical_bytes b) (filter (\<lambda>(b, i). it_state i = ItemSucceeded)
        (map (\<lambda>(b, i). (b, reconcile_item x i)) ps))
      = map (\<lambda>(b, i). ob_measured_logical_bytes b) (filter (\<lambda>(b, i). it_state i = ItemSucceeded) ps)" for x ps
    by (induction ps) (auto simp: s)
  show ?thesis
    using trash by (simp add: reconciled_trash handled_bytes_def items zip_map_snd pairs split: option.splits)
qed





end
