(* ===== verification/Journal_Contracts.thy ===== *)
theory Journal_Contracts
  imports Journal_Properties
begin

text \<open>
  What an accepted record guarantees contract by contract, with a concrete accepted record for
  each: the rule-bound, the related, the orphan, the tool, the empty-Trash and the runtime
  contract.
\<close>

section \<open>Records of the trash contracts\<close>

definition plain_absolute :: "path \<Rightarrow> bool" where
  "plain_absolute p \<longleftrightarrow> (\<exists>cs. components p = RootDir # cs \<and> (\<forall>c \<in> set cs. \<exists>s. c = Normal s \<and> plain_name s))"

definition item_sound :: "profile \<Rightarrow> item_record \<Rightarrow> bool" where
  "item_sound p i \<longleftrightarrow> plain_absolute (np_bytes (it_path i))
     \<and> (p \<noteq> Tool \<longrightarrow> it_state i = ItemSucceeded \<longrightarrow> it_destination i \<noteq> None)
     \<and> (it_destination i \<noteq> None \<longrightarrow> it_state i \<in> {ItemSucceeded, ItemUnknown} \<and> p \<noteq> Tool)
     \<and> (if p = RuleBound \<or> p = Clean then \<exists>b. it_rule_binding i = Some b \<and> binding_sound i b
        else it_rule_binding i = None)"

lemma trash_record_shape:
  assumes "record_validate dbg r = Inr ()" and "jr_schema_version r \<notin> {10, 11}"
  shows "validate_trash_record dbg r = Inr ()" "jr_empty_trash_context r = None" "jr_runtime_context r = None"
  using assms(1) by (cases rule: record_shapes; use assms(2) in auto)+

lemma item_sound_checks:
  assumes p: "has_profile r p"
    and i: "native_validate dbg (it_path i) = Inr ()" "item_consistent (has_profile r Tool) i"
      "check_binding dbg (has_profile r RuleBound \<or> has_profile r Clean) i = Inr ()"
  shows "item_sound p i"
proof -
  have q: "has_profile r q \<longleftrightarrow> q = p" for q using p profile_unique by blast
  have "plain_absolute (np_bytes (it_path i))"
    using native_validate_components [OF i(1)] by (simp add: plain_absolute_def)
  moreover have "if p = RuleBound \<or> p = Clean then \<exists>b. it_rule_binding i = Some b \<and> binding_sound i b
        else it_rule_binding i = None"
    using i(3) unfolding q by (auto simp: check_binding_def dest: validate_rule_binding_Inr split: option.splits bool.splits)
  moreover have "p \<noteq> Tool \<longrightarrow> it_state i = ItemSucceeded \<longrightarrow> it_destination i \<noteq> None"
    "it_destination i \<noteq> None \<longrightarrow> it_state i \<in> {ItemSucceeded, ItemUnknown} \<and> p \<noteq> Tool"
    using i(2) unfolding item_consistent_def q by auto
  ultimately show ?thesis unfolding item_sound_def by blast
qed


text \<open>A rule-bound record: a compiled Python file bound to its source.\<close>

definition demo_time :: native_time where
  "demo_time = \<lparr>nt_before_unix_epoch = False, nt_seconds = 1, nt_nanoseconds = 2\<rparr>"

definition demo_witness :: "bytes \<Rightarrow> u64 \<Rightarrow> bytes \<Rightarrow> u32 \<Rightarrow> witness_record" where
  "demo_witness p ino kind mode = \<lparr>wr_path = demo_native p, wr_device = 1, wr_inode = ino,
     wr_kind = kind, wr_logical_bytes = 7, wr_modified = demo_time, wr_changed = demo_time,
     wr_created = demo_time, wr_uid = 1, wr_gid = 1, wr_mode = mode, wr_nlink = 1, wr_flags = 0\<rparr>"

definition demo_binding :: binding_record where
  "demo_binding = \<lparr>br_schema_version = 1, br_rule_id = cpython_rule_id, br_rule_version = 2,
     br_ruleset_schema_version = 1, br_ruleset_revision = 3, br_semantics = cpython_semantics,
     br_semantics_digest = cpython_semantics_digest, br_selected_root = demo_native ''/r'',
     br_exclusions = [demo_native ''/r/x''],
     br_target = demo_witness ''/r/p/__pycache__/m.cpython-312.pyc'' 2 ''file'' 0x81A4,
     br_source = demo_witness ''/r/p/m.py'' 3 ''file'' 0x81A4,
     br_root = demo_witness ''/r'' 4 ''directory'' 0x41ED,
     br_target_ancestors = [demo_witness ''/r/p'' 5 ''directory'' 0x41ED,
       demo_witness ''/r/p/__pycache__'' 6 ''directory'' 0x41ED],
     br_source_ancestors = [demo_witness ''/r/p'' 5 ''directory'' 0x41ED],
     br_warnings = [''w'']\<rparr>"

definition demo_bound_item :: item_record where
  "demo_bound_item = (demo_item ''/r/p/__pycache__/m.cpython-312.pyc'' 2 ItemPlanned)
     \<lparr>it_rule_binding := Some demo_binding\<rparr>"

definition demo_bound :: journal_record where
  "demo_bound = (demo_record [demo_bound_item])\<lparr>jr_schema_version := 2, jr_plan_schema_version := 3,
     jr_engine_version := 2, jr_rules_version := 2\<rparr>"

lemma demo_bound_valid: "record_validate ascii_debug demo_bound = Inr ()"
  by code_simp


text \<open>C9: A validated rule binding proves its deletion candidate: the target is a cache file strictly
  inside the selected root whose name determines the source (\<open>dir/__pycache__/m.cpython-*.pyc\<close>
  for \<open>dir/m.py\<close>, \<open>dir/m.class\<close> for \<open>dir/m.java\<close>), that source is inside the root too and is a
  different file, the recorded ancestors are exactly the directories between the root and each
  file in order, and the recorded modes and flags admit only plain files and directories without
  shared write permission.\<close>

theorem rule_binding_sound:
  assumes "validate_rule_binding dbg i b = Inr ()"
  shows "binding_sound i b"
  by (rule validate_rule_binding_Inr [OF assms])

theorem rule_binding_sound_witness: "binding_sound demo_bound_item demo_binding"
  by (rule rule_binding_sound [of ascii_debug]) code_simp

section \<open>Tool operations\<close>

text \<open>A simulator operation never separates a device from its pair: in an accepted tool record
  every device is named once by its canonical identifier, one device per item, and the partner
  of a paired device is another device of the same operation that is paired back with it.\<close>

theorem tool_record_pairs:
  assumes "record_validate dbg r = Inr ()" and "jr_schema_version r \<notin> {10, 11}"
    and "jr_tool_operation r = Some t" and "d \<in> set (to_devices t)"
  shows "canonical_udid (td_udid d) = Some (td_udid d) \<and> distinct (map td_udid (to_devices t))
    \<and> length (to_devices t) = length (jr_items r)
    \<and> (\<forall>q. td_paired_with d = Some q \<longrightarrow> (\<exists>d' \<in> set (to_devices t). d' \<noteq> d \<and> td_udid d' = q
         \<and> td_paired_with d' = Some (td_udid d)))"
proof -
  have "check_tool r = Inr ()"
    using trash_record_shape(1) [OF assms(1,2)] by (simp add: validate_trash_record_iff)
  then have "validate_tool_operation t (length (jr_items r)) = Inr ()"
    using assms(3) by (auto simp: check_tool_def split: bool.splits)
  then have t: "length (to_devices t) = length (jr_items r)" "tool_device_ok d" "partner_ok (to_devices t) d"
    "distinct (map td_udid (to_devices t))"
    using assms(4) by (auto simp: validate_tool_operation_def list_all_iff)
  have "\<exists>d' \<in> set (to_devices t). d' \<noteq> d \<and> td_udid d' = q \<and> td_paired_with d' = Some (td_udid d)"
    if "td_paired_with d = Some q" for q
    using t(3) that by (auto simp: partner_ok_def list_ex_iff)
  then show ?thesis using t by (auto simp: tool_device_ok_def)
qed

definition demo_udid :: "char \<Rightarrow> bytes" where
  "demo_udid c = replicate 8 c @ ''-'' @ replicate 4 c @ ''-'' @ replicate 4 c @ ''-'' @ replicate 4 c
     @ ''-'' @ replicate 12 c"

definition demo_device :: "char \<Rightarrow> char \<Rightarrow> tool_device" where
  "demo_device a b = \<lparr>td_udid = demo_udid a, td_name = ''n'', td_runtime_identifier = ''rt'',
     td_paired_with = Some (demo_udid b)\<rparr>"

definition demo_tool_operation :: tool_operation where
  "demo_tool_operation = \<lparr>to_schema_version = 1, to_operation = ''erase'', to_tool_evidence = ''e'',
     to_plan_digest = replicate 64 CHR ''a'',
     to_devices = [demo_device CHR ''A'' CHR ''B'', demo_device CHR ''B'' CHR ''A'']\<rparr>"

definition demo_tool :: journal_record where
  "demo_tool = (demo_record [demo_item ''/s/a'' 0 ItemPlanned, demo_item ''/s/b'' 0 ItemPlanned])
     \<lparr>jr_schema_version := 6, jr_plan_schema_version := 6, jr_contract := ''permanent_tool_operation_v1'',
      jr_tool_operation := Some demo_tool_operation\<rparr>"

lemma demo_tool_valid: "record_validate ascii_debug demo_tool = Inr ()"
  by code_simp

theorem tool_record_pairs_witness:
  "\<exists>d' \<in> set (to_devices demo_tool_operation). d' \<noteq> demo_device CHR ''A'' CHR ''B''
     \<and> td_udid d' = demo_udid CHR ''B''"
proof -
  have "jr_schema_version demo_tool \<notin> {10, 11}" "jr_tool_operation demo_tool = Some demo_tool_operation"
    "demo_device CHR ''A'' CHR ''B'' \<in> set (to_devices demo_tool_operation)"
    by (simp_all add: demo_tool_def demo_record_def demo_tool_operation_def)
  from tool_record_pairs [OF demo_tool_valid this] show ?thesis
    by (auto simp: demo_device_def)
qed

section \<open>Related data\<close>

lemma native_from_path_bytes [simp]: "np_bytes (native_from_path dbg p) = p"
  by (simp add: native_from_path_def)

lemma related_bindings_Inr:
  "related_bindings dbg r c seen ps = Inr () \<Longrightarrow>
     (\<forall>(b, i) \<in> set ps. rl_path b = it_path i
        \<and> rule_place related_locations (np_bytes (rc_home c)) (rc_bundle_id c) (rl_rule_id b) (rl_kind b)
            (np_bytes (it_path i))
        \<and> np_bytes (jr_scope r) = path_join (np_bytes (rc_home c)) ''Library'')
     \<and> distinct (map (\<lambda>(b, i). rl_item_id b) ps) \<and> (\<lambda>(b, i). rl_item_id b) ` set ps \<inter> seen = {}"
proof (induction ps arbitrary: seen)
  case (Cons x ps)
  obtain b i where x: "x = (b, i)" by (cases x)
  let ?lib = "path_join (np_bytes (rc_home c)) ''Library''"
  from Cons.prems [unfolded x] obtain key dir sfx kind where ok: "related_binding_ok seen b i"
    and l: "find_location (rl_rule_id b) related_locations = Some (key, dir, sfx, kind)"
    and k: "rl_kind b = kind" "rl_path b = native_from_path dbg (path_join (path_join ?lib dir) (rc_bundle_id c @ sfx))"
      "jr_scope r = native_from_path dbg ?lib"
    and rest: "related_bindings dbg r c (insert (rl_item_id b) seen) ps = Inr ()"
    by (auto simp: Let_def)
  have p: "rl_path b = it_path i" "rl_item_id b \<notin> seen" using ok by (simp_all add: related_binding_ok_def)
  have "rule_place related_locations (np_bytes (rc_home c)) (rc_bundle_id c) (rl_rule_id b) (rl_kind b)
      (np_bytes (it_path i))"
    unfolding rule_place_def p(1) [symmetric] k(2) native_from_path_bytes
    using find_location_Some [OF l] k(1) path_eq_refl by blast
  with Cons.IH [OF rest] p k(3) x show ?case by auto
qed simp

text \<open>Related data is only ever touched where the bundle identifier says: in an accepted related
  record the scope is the home directory's \<open>Library\<close>, and every item is one of the ten known
  locations below it, named by the bundle identifier, with the rule and kind of that location;
  no binding is used twice and the approval lasts two minutes.\<close>

theorem related_record_places:
  assumes "record_validate dbg r = Inr ()" and "jr_schema_version r \<notin> {10, 11}"
    and "jr_related_context r = Some c"
  shows "np_bytes (jr_scope r) = path_join (np_bytes (rc_home c)) ''Library''
    \<and> length (rc_selected c) = length (jr_items r)
    \<and> (\<forall>(b, i) \<in> set (zip (rc_selected c) (jr_items r)). rl_path b = it_path i
        \<and> rule_place related_locations (np_bytes (rc_home c)) (rc_bundle_id c) (rl_rule_id b) (rl_kind b)
            (np_bytes (it_path i)))
    \<and> distinct (map rl_item_id (rc_selected c))
    \<and> unat (rc_deadline_unix_ms c) = unat (rc_approved_unix_ms c) + 120000"
proof -
  have v: "check_related dbg r = Inr ()" "jr_items r \<noteq> []"
    using trash_record_shape(1) [OF assms(1,2)] by (simp_all add: validate_trash_record_iff)
  then have h: "related_header_ok r c" and b: "related_bindings dbg r c {} (zip (rc_selected c) (jr_items r)) = Inr ()"
    using assms(3) by (auto simp: check_related_def split: bool.splits)
  have len: "length (rc_selected c) = length (jr_items r)" using h by (simp add: related_header_ok_def)
  note B = related_bindings_Inr [OF b]
  obtain x where "x \<in> set (zip (rc_selected c) (jr_items r))"
    using v(2) len by (cases "rc_selected c"; cases "jr_items r") auto
  with B have "np_bytes (jr_scope r) = path_join (np_bytes (rc_home c)) ''Library''" by blast
  moreover have "distinct (map rl_item_id (rc_selected c))"
    using B map_fst_zip_app [OF len, of rl_item_id] by simp
  moreover have "unat (rc_deadline_unix_ms c) = unat (rc_approved_unix_ms c) + 120000"
    using h by (simp add: related_header_ok_def checked_sub_eq_iff)
  ultimately show ?thesis using B len by blast
qed

definition demo_hex :: bytes where
  "demo_hex = replicate 64 CHR ''a''"

definition demo_related_context :: related_context where
  "demo_related_context = \<lparr>rc_schema_version = 1, rc_parent_operation_id = ''b-2'',
     rc_bundle_path = demo_native ''/Applications/X.app'', rc_bundle_id = ''a.b'', rc_bundle_device = 1,
     rc_bundle_inode = 2, rc_manifest_device = 1, rc_manifest_inode = 3, rc_manifest_digest = demo_hex,
     rc_plan_digest = demo_hex, rc_policy_digest = demo_hex, rc_home = demo_native ''/h'',
     rc_library_device = 1, rc_library_inode = 4, rc_copy_roots = [demo_native ''/Applications''],
     rc_coverage = ''registered_and_selected_roots'', rc_approved_unix_ms = 5,
     rc_deadline_unix_ms = 120005,
     rc_selected = [\<lparr>rl_item_id = ''c-3'', rl_rule_id = location_rule_id ''preferences'',
       rl_rule_version = 1, rl_path = demo_native ''/h/Library/Preferences/a.b.plist'',
       rl_kind = ''file'', rl_consequence = ''x''\<rparr>]\<rparr>"

definition demo_related :: journal_record where
  "demo_related = (demo_record [demo_item ''/h/Library/Preferences/a.b.plist'' 9 ItemPlanned])
     \<lparr>jr_schema_version := 8, jr_plan_schema_version := 8, jr_contract := ''revalidated_related_trash_v1'',
      jr_scope := demo_native ''/h/Library'', jr_related_context := Some demo_related_context\<rparr>"

lemma demo_related_valid: "record_validate ascii_debug demo_related = Inr ()"
  by code_simp

theorem related_record_places_witness:
  "length (rc_selected demo_related_context) = length (jr_items demo_related)
   \<and> unat (rc_deadline_unix_ms demo_related_context) = unat (rc_approved_unix_ms demo_related_context) + 120000"
proof -
  have "jr_schema_version demo_related \<notin> {10, 11}" "jr_related_context demo_related = Some demo_related_context"
    by (simp_all add: demo_related_def demo_record_def)
  from related_record_places [OF demo_related_valid this] show ?thesis by blast
qed

section \<open>Orphans\<close>

text \<open>Orphan data is only removed on evidence: in an accepted orphan record every item is one of
  the nine known library locations named by its bundle identifier, the complete Spotlight
  queries are exactly the identifiers and their dotted prefixes, and an item is either a cache or
  backed by distinct application bundles lying in the home directory's Trash.\<close>

theorem orphan_record_sound:
  assumes "record_validate dbg r = Inr ()" and "jr_schema_version r \<notin> {10, 11}"
    and "jr_orphan_context r = Some c"
  shows "path_eq (np_bytes (jr_scope r)) (path_join (np_bytes (oc_home c)) ''Library'')
    \<and> length (oc_selected c) = length (jr_items r)
    \<and> sp_bundle_id ` set (oc_spotlight c) = expected_queries (oc_selected c)
    \<and> (\<forall>(b, i) \<in> set (zip (oc_selected c) (jr_items r)).
         orphan_binding_sound (np_bytes (oc_home c)) (expected_queries (oc_selected c)) b i)
    \<and> distinct (map ob_item_id (oc_selected c))"
proof -
  have "check_orphan dbg r = Inr ()"
    using trash_record_shape(1) [OF assms(1,2)] by (simp add: validate_trash_record_iff)
  then have "orphan_validate dbg c r = Inr ()"
    using assms(3) by (auto simp: check_orphan_def split: bool.splits)
  from orphan_validate_Inr [OF this] show ?thesis by blast
qed

definition demo_query :: "bytes \<Rightarrow> spotlight_record" where
  "demo_query s = \<lparr>sp_bundle_id = s, sp_scope = ''local_computer'', sp_status = ''complete'',
     sp_result_count = 0, sp_verified_trash_count = 0, sp_stale_registrations = []\<rparr>"

definition demo_root :: "bytes \<Rightarrow> root_record" where
  "demo_root p = \<lparr>rr_path = demo_native p, rr_state = ''present'', rr_device = 1, rr_inode = 2\<rparr>"

definition demo_orphan_context :: orphan_context where
  "demo_orphan_context = \<lparr>oc_schema_version = 1, oc_home = demo_native ''/h'', oc_library_device = 1,
     oc_library_inode = 4, oc_copy_roots = [demo_root ''/Applications'', demo_root ''/h/Applications''],
     oc_coverage = ''registered_and_selected_roots'',
     oc_spotlight = [demo_query ''a.b'', demo_query ''a''], oc_policy_digest = demo_hex,
     oc_plan_digest = demo_hex, oc_approved_unix_ms = 5, oc_deadline_unix_ms = 120005,
     oc_selected = [\<lparr>ob_item_id = demo_hex, ob_bundle_id = ''a.b'', ob_tier = ''name_only'',
       ob_rule_id = location_rule_id ''caches'', ob_rule_version = 1,
       ob_path = demo_native ''/h/Library/Caches/a.b'', ob_kind = ''directory'', ob_consequence = ''x'',
       ob_measured_logical_bytes = Some 7, ob_trashed_bundles = None\<rparr>]\<rparr>"

definition demo_orphan :: journal_record where
  "demo_orphan = (demo_record [demo_item ''/h/Library/Caches/a.b'' 9 ItemPlanned])
     \<lparr>jr_schema_version := 9, jr_plan_schema_version := 9, jr_engine_version := 1,
      jr_contract := ''revalidated_orphan_trash_v1'', jr_scope := demo_native ''/h/Library'',
      jr_orphan_context := Some demo_orphan_context\<rparr>"

lemma demo_orphan_valid: "record_validate ascii_debug demo_orphan = Inr ()"
  by code_simp

theorem orphan_record_sound_witness:
  "sp_bundle_id ` set (oc_spotlight demo_orphan_context) = expected_queries (oc_selected demo_orphan_context)"
proof -
  have "jr_schema_version demo_orphan \<notin> {10, 11}" "jr_orphan_context demo_orphan = Some demo_orphan_context"
    by (simp_all add: demo_orphan_def demo_record_def)
  from orphan_record_sound [OF demo_orphan_valid this] show ?thesis by blast
qed

section \<open>Emptying the Trash\<close>

text \<open>An accepted record never overstates what emptying the Trash achieved: it claims success only
  when Finder reported completion, at least one known item was checked, every known item was seen
  absent and recorded as succeeded, and Finder counted zero entries afterwards; a cancelled,
  denied or undispatched request is recorded as cancelled; and no reclaimed size is ever
  claimed.\<close>

theorem empty_trash_claims:
  assumes "record_validate dbg r = Inr ()" and "jr_empty_trash_context r = Some c"
  shows "tc_reclaimed_bytes c = None
    \<and> (tc_aggregate_outcome c = Some AggSucceeded \<longrightarrow>
         tc_operation_state c = OpFinished \<and> tc_finder_outcome c = Some ReportedCompleted
         \<and> tc_finder_after_count c = Some 0 \<and> jr_items r \<noteq> []
         \<and> (\<forall>i \<in> set (jr_items r). it_state i = ItemSucceeded))
    \<and> (tc_operation_state c = OpFinished \<longrightarrow>
         (tc_aggregate_outcome c = Some AggCancelled \<longleftrightarrow>
            (\<exists>f \<in> {FinderNotDispatched, UserCancelled, AutomationDenied}. tc_finder_outcome c = Some f)))
    \<and> (\<forall>i \<in> set (jr_items r). \<exists>d. parent (np_bytes (it_path i)) = Some d
         \<and> path_eq d (np_bytes (tc_trash_root c)))"
  using assms(1)
proof (cases rule: record_shapes)
  case (empty_trash c')
  then have v: "trash_validate dbg c r = Inr ()" using assms(2) by simp
  then obtain root n where root: "trash_path dbg (tc_trash_root c) = Inr root"
    and it: "trash_items dbg c (jr_created_unix_ms r) root {} 0 (zip (jr_items r) (tc_known_items c)) = Inr n"
    and h: "trash_header2 c r root" and st: "trash_state_ok c"
    by (auto simp: trash_validate_iff)
  have rootm: "root = np_bytes (tc_trash_root c)" using trash_path_Inr [OF root] by simp
  have len: "length (tc_known_items c) = length (jr_items r)" and rb: "tc_reclaimed_bytes c = None"
    using h by (simp_all add: trash_header2_def)
  have ok: "\<exists>k \<in> set (tc_known_items c). trash_item_ok c root i k" if "i \<in> set (jr_items r)" for i
    using that len trash_items_Inr [OF it] by (metis (no_types, lifting) case_prodD in_set_impl_in_set_zip1 set_zip_rightD)
  have "tc_operation_state c = OpFinished \<and> tc_finder_outcome c = Some ReportedCompleted
         \<and> tc_finder_after_count c = Some 0 \<and> jr_items r \<noteq> []
         \<and> (\<forall>i \<in> set (jr_items r). it_state i = ItemSucceeded)"
    if "tc_aggregate_outcome c = Some AggSucceeded"
  proof -
    from st that obtain f where f: "tc_operation_state c = OpFinished" "tc_finder_outcome c = Some f"
      "aggregate f (map ki_observation (tc_known_items c)) (tc_finder_after_count c) True = AggSucceeded"
      by (auto simp: trash_state_ok_def trash_started_ok_def trash_finished_ok_def
          split: operation_state.splits option.splits)
    then have a: "f = ReportedCompleted" "tc_known_items c \<noteq> []" "tc_finder_after_count c = Some 0"
      "\<forall>k \<in> set (tc_known_items c). ki_observation k = ObsAbsent"
      by (auto simp: aggregate_succeeded_iff)
    moreover have "it_state i = ItemSucceeded" if "i \<in> set (jr_items r)" for i
      using ok [OF that] a(4) by (auto simp: trash_item_ok_def)
    ultimately show ?thesis using f len by auto
  qed
  moreover have "tc_aggregate_outcome c = Some AggCancelled \<longleftrightarrow>
      (\<exists>f \<in> {FinderNotDispatched, UserCancelled, AutomationDenied}. tc_finder_outcome c = Some f)"
    if "tc_operation_state c = OpFinished"
    using st that by (auto simp: trash_state_ok_def trash_finished_ok_def aggregate_cancelled_iff
        split: option.splits)
  ultimately show ?thesis using rb ok rootm by (auto simp: trash_item_ok_def)
qed (use assms(2) in simp_all)

definition demo_trash_context :: trash_context where
  "demo_trash_context = \<lparr>tc_schema_version = 1, tc_performer = ''finder'',
     tc_effect_scope = ''all_finder_trash_including_attached_volumes'',
     tc_trash_root = demo_native ''/h/.Trash'', tc_trash_device = 1, tc_trash_inode = 2,
     tc_plan_digest = demo_hex, tc_approved_unix_ms = 5, tc_deadline_unix_ms = 120005,
     tc_operation_state = OpFinished, tc_aggregate_outcome = Some AggSucceeded,
     tc_finder_preview_count = 3, tc_finder_before_count = 3, tc_finder_after_count = Some 0,
     tc_warns_before_emptying = True, tc_finder_outcome = Some ReportedCompleted,
     tc_finder_error_code = None, tc_finder_message = None, tc_dispatch_timeout_seconds = 600,
     tc_dispatch_may_continue = False, tc_known_subset_complete = True, tc_coverage_reasons = [],
     tc_omitted_count = Some 2, tc_omitted_lower_bound = 2, tc_unknown_size_count = 1,
     tc_source_roots = [\<lparr>sr_path = demo_native ''/h/s'', sr_schemas = [2, 3], sr_status = SourceRead,
       sr_device = Some 1, sr_inode = Some 8\<rparr>],
     tc_known_items = [\<lparr>ki_source_refs = [\<lparr>sf_root_index = 0, sf_operation_id = ''a-1'',
         sf_item_index = 0, sf_record_digest = demo_hex\<rparr>],
       ki_historical_logical_bytes = None, ki_observation = ObsAbsent\<rparr>],
     tc_unaccounted_logical_bytes = None, tc_reclaimed_bytes = None\<rparr>"

definition demo_trash :: journal_record where
  "demo_trash = (demo_record [(demo_item ''/h/.Trash/a'' 9 ItemSucceeded)
       \<lparr>it_destination := None, it_reason := Some ''absent_after_delegation''\<rparr>])
     \<lparr>jr_schema_version := 10, jr_plan_schema_version := 10, jr_engine_version := 1,
      jr_contract := ''finder_delegated_empty_trash_v1'', jr_scope := demo_native ''/h/.Trash'',
      jr_empty_trash_context := Some demo_trash_context\<rparr>"

lemma demo_trash_valid: "record_validate ascii_debug demo_trash = Inr ()"
  by code_simp

theorem empty_trash_claims_witness:
  "tc_finder_after_count demo_trash_context = Some 0
   \<and> list_all (\<lambda>i. it_state i = ItemSucceeded) (jr_items demo_trash)"
proof -
  have c: "jr_empty_trash_context demo_trash = Some demo_trash_context"
    by (simp add: demo_trash_def)
  have "tc_aggregate_outcome demo_trash_context = Some AggSucceeded"
    by (simp add: demo_trash_context_def)
  with empty_trash_claims [OF demo_trash_valid c] show ?thesis unfolding list_all_iff by blast
qed

section \<open>Simulator runtimes\<close>

text \<open>Deleting a simulator runtime accounts for every dependent device: in an accepted runtime
  record the listed dependents of each runtime are devices of the record with that runtime,
  every device belongs to exactly one listed runtime, a paired device comes with its partner on
  the same runtime, and no image or device is listed twice.\<close>

theorem runtime_record_sound:
  assumes "record_validate dbg r = Inr ()" and "jr_runtime_context r = Some c"
  shows "jr_items r = [] \<and> (\<forall>i \<in> set (rx_items c). runtime_item_sound (rx_items c) i)
    \<and> distinct (image_ids (rx_items c)) \<and> distinct (device_ids (rx_items c))
    \<and> image_ids (rx_items c) \<noteq> []"
  using assms(1)
proof (cases rule: record_shapes)
  case (runtime c')
  then have "runtime_validate dbg c r = Inr ()" using assms(2) by simp
  from runtime_validate_Inr [OF this] show ?thesis by blast
qed (use assms(2) in simp_all)

definition demo_runtime_item :: "runtime_target \<Rightarrow> runtime_item" where
  "demo_runtime_item t = \<lparr>ri_target = t, ri_logical_bytes = None, ri_state = ItemStarted,
     ri_reason = None, ri_updated_unix_ms = 6\<rparr>"

definition demo_runtime_context :: runtime_context where
  "demo_runtime_context = \<lparr>rx_schema_version = 1, rx_operation = ''runtime_delete'',
     rx_tool_evidence = ''e'', rx_plan_digest = demo_hex,
     rx_items = [demo_runtime_item (RuntimeTarget \<lparr>rt_identifier = demo_udid CHR ''C'',
         rt_runtime_identifier = ''rt'', rt_version = ''1'', rt_build = ''b'', rt_kind = ''k'',
         rt_path = ''/v/rt'', rt_state = ''Ready'', rt_deletable = True, rt_size_bytes = None,
         rt_last_used_at = None, rt_issues = []\<rparr> [demo_udid CHR ''A'']),
       demo_runtime_item (DeviceTarget (demo_udid CHR ''A'') ''n'' ''rt'' None)]\<rparr>"

definition demo_runtime :: journal_record where
  "demo_runtime = (demo_record [])\<lparr>jr_schema_version := 11, jr_plan_schema_version := 11,
     jr_contract := ''permanent_tool_operation_v1'', jr_runtime_context := Some demo_runtime_context\<rparr>"

lemma demo_runtime_valid: "record_validate ascii_debug demo_runtime = Inr ()"
  by code_simp

theorem runtime_record_sound_witness:
  "list_all (runtime_item_sound (rx_items demo_runtime_context)) (rx_items demo_runtime_context)"
proof -
  have "jr_runtime_context demo_runtime = Some demo_runtime_context" by (simp add: demo_runtime_def)
  from runtime_record_sound [OF demo_runtime_valid this] show ?thesis by (simp add: list_all_iff)
qed

end
