(* ===== verification/Journal_Panics.thy ===== *)
theory Journal_Panics
  imports Journal_Contracts
begin

text \<open>
  Where validation can fail other than by an error: the one slice of \<open>decode_hex_bytes\<close> that can
  panic, and the proof that every other check returns. The collection \<open>no_panic\<close> holds the
  rules that compose it.
\<close>

named_theorems no_panic \<open>checks that return\<close>

definition returns :: "'a io_result \<Rightarrow> bool" where
  "returns x \<longleftrightarrow> x \<noteq> Inl Panicked"

lemma returns_values [simp]: "returns (Inr a)" "returns (Inl (Io k m))"
  by (simp_all add: returns_def)

lemma returns_errors [simp]: "returns (Inl (invalid m))" "returns (Inl orphan_invalid)"
  "returns (Inl trash_error)" "returns (Inl runtime_invalid)"
  by (simp_all add: invalid_def orphan_invalid_def trash_error_def runtime_invalid_def)

lemma returns_rbind [no_panic]: "returns x \<Longrightarrow> (\<And>a. returns (f a)) \<Longrightarrow> returns (rbind x f)"
  by (cases x) (auto simp: returns_def)

lemma returns_ensure [simp]: "returns (ensure b (invalid m))"
  by (simp add: ensure_def)

lemma returns_ok_or [simp]: "returns (ok_or (invalid m) x)"
  by (cases x) (simp_all add: ok_or_def)

lemma returns_check_all [no_panic]: "(\<And>x. x \<in> set xs \<Longrightarrow> returns (f x)) \<Longrightarrow> returns (check_all f xs)"
  by (induction xs) (auto intro!: no_panic)

lemma returns_optional [no_panic]: "(\<And>x. returns (f x)) \<Longrightarrow> returns (check_optional f y)"
  by (simp add: check_optional_def split: option.splits)

lemma returns_native [simp]: "returns (native_validate dbg p)"
  by (simp add: native_validate_def)

lemma returns_native_to_path [simp]: "returns (native_to_path p)"
  by (simp add: native_to_path_def)

section \<open>Rule bindings\<close>

lemma returns_compare [simp]: "returns (compare_ancestors ps)"
  by (induction ps rule: compare_ancestors.induct) (auto intro!: no_panic)

lemma returns_chain [simp]: "returns (validate_ancestor_chain r l ws)"
  by (simp add: validate_ancestor_chain_def)

lemma returns_exclusions [simp]: "returns (check_exclusions r seen es)"
  by (induction es arbitrary: seen) (auto intro!: no_panic)

lemma returns_witness [simp]: "returns (witness_wire_ok dbg w)"
  by (auto simp: witness_wire_ok_def intro!: no_panic)

lemma returns_binding_paths [simp]: "returns (binding_paths_ok b)"
  unfolding binding_paths_ok_def by (intro no_panic) simp_all

lemma returns_binding [simp]: "returns (validate_rule_binding dbg i b)"
  unfolding validate_rule_binding_def by (intro no_panic) simp_all

section \<open>Contexts\<close>

lemma returns_orphan_path [simp]: "returns (orphan_path dbg p)"
  by (auto simp: orphan_path_def intro!: no_panic)

lemma returns_orphan_roots [simp]: "returns (orphan_roots dbg home seen rs)"
  by (induction rs arbitrary: seen) (auto intro!: no_panic)

lemma returns_orphan_queries [simp]: "returns (orphan_queries dbg seen qs)"
  by (induction qs arbitrary: seen) (auto intro!: no_panic)

lemma returns_bundles [simp]: "returns (trashed_bundles_ok dbg home seen bs)"
  by (induction bs arbitrary: seen) (auto intro!: no_panic)

lemma returns_tier [simp]: "returns (orphan_tier_ok dbg home key b)"
  by (simp add: orphan_tier_ok_def split: option.splits)

lemma returns_orphan_bindings [simp]: "returns (orphan_bindings dbg c home q seen ps)"
  by (induction dbg c home q seen ps rule: orphan_bindings.induct)
    (auto intro!: no_panic split: option.splits)

lemma returns_orphan [simp]: "returns (orphan_validate dbg c r)"
  by (auto simp: orphan_validate_def intro!: no_panic)

lemma returns_trash_path [simp]: "returns (trash_path dbg p)"
  by (auto simp: trash_path_def intro!: no_panic)

lemma returns_trash_sources [simp]: "returns (trash_sources dbg seen ss)"
  by (induction ss arbitrary: seen) (auto intro!: no_panic)

lemma returns_trash_items [simp]: "returns (trash_items dbg c t root seen u ps)"
  by (induction dbg c t root seen u ps rule: trash_items.induct) (auto intro!: no_panic)

lemma returns_trash [simp]: "returns (trash_validate dbg c r)"
  by (auto simp: trash_validate_def intro!: no_panic)

lemma returns_runtime_items [simp]: "returns (runtime_items_ok r items im dv rest)"
  by (induction rest arbitrary: im dv) (auto split: runtime_target.splits)

lemma returns_runtime [simp]: "returns (runtime_validate dbg c r)"
  by (auto simp: runtime_validate_def intro!: no_panic)

lemma returns_related_bindings [simp]: "returns (related_bindings dbg r c seen ps)"
  by (induction dbg r c seen ps rule: related_bindings.induct)
    (auto simp: Let_def intro!: no_panic split: prod.splits)

section \<open>The record\<close>

lemma ascii_no_slice_panic: "is_ascii s \<Longrightarrow> decode_pairs s \<noteq> SlicePanic"
proof (induction s rule: decode_pairs.induct)
  case (3 a b s)
  have "s \<noteq> [] \<Longrightarrow> hd s \<le> CHR 0x7F" using 3 by (cases s) (auto simp: is_ascii_def)
  then have "\<not> (s \<noteq> [] \<and> is_continuation (hd s))"
    by (auto simp: is_continuation_def less_eq_char_def dest: order_trans)
  with 3 show ?case
    by (cases "hex_pair a b") (auto simp: is_ascii_def split: hex_decoding.splits)
qed simp_all

lemma returns_policy_path: "is_ascii (pp_bytes_hex p) \<Longrightarrow> returns (validate_clean_policy_path dbg p absolute)"
  using ascii_no_slice_panic [of "pp_bytes_hex p"]
  by (auto simp: validate_clean_policy_path_def decode_hex_bytes_def split: hex_decoding.splits)

definition policy_hex_ascii :: "policy_context \<Rightarrow> bool" where
  "policy_hex_ascii c \<longleftrightarrow> is_ascii (pp_bytes_hex (pc_root_path c))
     \<and> (\<forall>p \<in> set (pc_effective_exclusions c). is_ascii (pp_bytes_hex p))"

lemma returns_policy: "policy_hex_ascii c \<Longrightarrow> returns (validate_clean_policy_context dbg c)"
  unfolding validate_clean_policy_context_def policy_hex_ascii_def
  by (intro no_panic) (auto simp: returns_policy_path)

lemma returns_items [simp]: "returns (check_items dbg tool bound ids paths is)"
proof (induction "is" arbitrary: ids paths)
  case (Cons i "is")
  have "returns (check_binding dbg bound i)"
    by (simp add: check_binding_def split: option.splits bool.splits)
  moreover have "returns (check_evidence dbg i e)" for e
    unfolding check_evidence_def by (intro no_panic) simp_all
  ultimately show ?case using Cons by (auto intro!: no_panic)
qed simp

lemma returns_contexts [simp]:
  "returns (check_orphan dbg r)" "returns (check_tool r)" "returns (check_delegation r)"
  "returns (check_related dbg r)"
  by (auto simp: check_orphan_def check_tool_def check_delegation_def check_related_def
      validate_tool_operation_def intro!: no_panic split: option.splits bool.splits)



definition demo_policy :: policy_context where
  "demo_policy = \<lparr>pc_schema_version = 1, pc_kind = ''sayaka_clean_policy_context'',
     pc_root_path = \<lparr>pp_encoding = ''unix_bytes'',
       pp_bytes_hex = [CHR ''a'', CHR 0xC3, CHR 0xA9, CHR ''a''], pp_display = []\<rparr>,
     pc_root_identity = \<lparr>pir_device = 1, pir_inode = 2\<rparr>, pc_file_state = JNull,
     pc_effective_exclusions = []\<rparr>"

definition demo_panic :: journal_record where
  "demo_panic = (demo_record [demo_bound_item])\<lparr>jr_schema_version := 3, jr_plan_schema_version := 3,
     jr_rules_version := 2, jr_clean_policy := Some demo_policy\<rparr>"

text \<open>A clean-policy path with a non-ASCII hexadecimal text makes validation panic: the text
  \<open>a\<close>, \<open>U+00E9\<close>, \<open>a\<close> has four bytes, and the first slice of two bytes ends
  inside the second character. Such a record on disk is valid JSON, so reading the history
  aborts instead of reporting an invalid record.\<close>

theorem validate_panics_on_non_ascii_hex:
  "valid_utf8 (pp_bytes_hex (pc_root_path demo_policy))
   \<and> record_validate ascii_debug demo_panic = Inl Panicked"
proof
  show "valid_utf8 (pp_bytes_hex (pc_root_path demo_policy))" by code_simp
  show "record_validate ascii_debug demo_panic = Inl Panicked" by code_simp
qed

end
