(* ===== verification/History.thy ===== *)
theory History
  imports Journal_Properties "HOL-Library.Product_Lexorder"
begin

text \<open>
  \<open>history.rs\<close>: bounded read-only queries over the journal. A query validates every record,
  refuses duplicate operations, reads each record conservatively, filters, sorts (newest first,
  then by operation) and returns one page.
\<close>

section \<open>Queries\<close>

record history_query =
  hq_operation_id :: "bytes option"
  hq_states :: "item_state list"
  hq_since_unix_ms :: "u64 option"
  hq_until_unix_ms :: "u64 option"
  hq_offset :: nat
  hq_limit :: nat

definition query_default :: history_query where
  "query_default = \<lparr>hq_operation_id = None, hq_states = [], hq_since_unix_ms = None,
     hq_until_unix_ms = None, hq_offset = 0, hq_limit = 20\<rparr>"

definition query_ok :: "history_query \<Rightarrow> bool" where
  "query_ok q \<longleftrightarrow>
     (case hq_operation_id q of None \<Rightarrow> True | Some s \<Rightarrow> valid_id s)
     \<and> \<not> list_ex (\<lambda>s. s = ItemPlanned \<or> s = ItemStarted) (hq_states q)
     \<and> length (hq_states q) \<le> 4 \<and> hq_limit q \<noteq> 0 \<and> int (hq_limit q) \<le> 1024
     \<and> int (hq_offset q) \<le> 1024
     \<and> (case (hq_since_unix_ms q, hq_until_unix_ms q) of
          (Some s, Some u) \<Rightarrow> s \<le> u | _ \<Rightarrow> True)"

definition query_validate :: "history_query \<Rightarrow> unit io_result" where
  "query_validate q =
     ensure (query_ok q) (Io InvalidInput ''invalid history filter, time range or page bounds'')"

record history_page =
  hp_schema_version :: u32
  hp_total_records :: nat
  hp_matched_records :: nat
  hp_offset :: nat
  hp_limit :: nat
  hp_records :: "journal_record list"
  hp_uncommitted_snapshots :: "bytes list"

text \<open>The state an operation-wide empty-Trash record is filtered by.\<close>

definition aggregate_state :: "aggregate_outcome option \<Rightarrow> item_state" where
  "aggregate_state a =
     (case a of
        Some AggSucceeded \<Rightarrow> ItemSucceeded
      | Some AggCancelled \<Rightarrow> ItemSkipped
      | Some AggPartial \<Rightarrow> ItemFailed
      | _ \<Rightarrow> ItemUnknown)"

definition query_matches :: "history_query \<Rightarrow> journal_record \<Rightarrow> bool" where
  "query_matches q r \<longleftrightarrow> \<not>
     ((case hq_operation_id q of None \<Rightarrow> False | Some s \<Rightarrow> s \<noteq> jr_operation_id r)
      \<or> (case hq_since_unix_ms q of None \<Rightarrow> False | Some s \<Rightarrow> jr_created_unix_ms r < s)
      \<or> (case hq_until_unix_ms q of None \<Rightarrow> False | Some u \<Rightarrow> u \<le> jr_created_unix_ms r)
      \<or> (hq_states q \<noteq> []
         \<and> \<not> list_ex (\<lambda>i. it_state i \<in> set (hq_states q)) (jr_items r)
         \<and> \<not> (case jr_runtime_context r of None \<Rightarrow> False
              | Some c \<Rightarrow> list_ex (\<lambda>i. ri_state i \<in> set (hq_states q)) (rx_items c))
         \<and> \<not> (case jr_empty_trash_context r of None \<Rightarrow> False
              | Some c \<Rightarrow> aggregate_state (tc_aggregate_outcome c) \<in> set (hq_states q))))"

text \<open>The loop over the records.\<close>

fun collect_records ::
  "(bytes \<Rightarrow> bytes) \<Rightarrow> history_query \<Rightarrow> bytes set \<Rightarrow> journal_record list \<Rightarrow> journal_record list io_result" where
  "collect_records dbg q ids [] = Inr []"
| "collect_records dbg q ids (r # rs) =
     rbind (record_validate dbg r) (\<lambda>_.
       if jr_operation_id r \<in> ids then Inl (invalid ''duplicate history operation identifier'')
       else rbind (collect_records dbg q (insert (jr_operation_id r) ids) rs) (\<lambda>rest.
         let r' = reconciled r in Inr (if query_matches q r' then r' # rest else rest)))"

text \<open>Newest first; records of the same time by operation.\<close>

definition history_key :: "journal_record \<Rightarrow> int \<times> bytes" where
  "history_key r = (- uint (jr_created_unix_ms r), jr_operation_id r)"

definition history_order :: "journal_record list \<Rightarrow> journal_record list" where
  "history_order rs = sort_key history_key rs"

definition history_lookup ::
  "(bytes \<Rightarrow> bytes) \<Rightarrow> journal_read \<Rightarrow> history_query \<Rightarrow> history_page io_result" where
  "history_lookup dbg input q =
     rbind (query_validate q) (\<lambda>_.
       if 1024 < int (length (read_records input))
          \<or> 2048 < int (length (read_uncommitted_snapshots input))
       then Inl (invalid ''history input exceeds the journal budget'')
       else rbind (collect_records dbg q {} (read_records input)) (\<lambda>found.
         let ordered = history_order found in
         Inr \<lparr>hp_schema_version = 1, hp_total_records = length (read_records input),
           hp_matched_records = length ordered, hp_offset = hq_offset q, hp_limit = hq_limit q,
           hp_records = take (hq_limit q) (drop (hq_offset q) ordered),
           hp_uncommitted_snapshots = read_uncommitted_snapshots input\<rparr>))"

section \<open>What a query returns\<close>

lemma collect_records_Inr:
  "collect_records dbg q ids rs = Inr found \<Longrightarrow>
     found = filter (query_matches q) (map reconciled rs)
     \<and> (\<forall>r \<in> set rs. record_validate dbg r = Inr ())
     \<and> distinct (map jr_operation_id rs) \<and> jr_operation_id ` set rs \<inter> ids = {}"
proof (induction rs arbitrary: ids found)
  case (Cons r rs)
  from Cons.prems obtain rest where v: "record_validate dbg r = Inr ()"
    and n: "jr_operation_id r \<notin> ids"
    and rest: "collect_records dbg q (insert (jr_operation_id r) ids) rs = Inr rest"
    and f: "found = (if query_matches q (reconciled r) then reconciled r # rest else rest)"
    by (auto simp: Let_def split: if_splits)
  from Cons.IH [OF rest] v n f show ?case by auto
qed simp

definition matching :: "history_query \<Rightarrow> journal_read \<Rightarrow> journal_record list" where
  "matching q input = history_order (filter (query_matches q) (map reconciled (read_records input)))"

text \<open>C12: A page is the requested window of one sorted, filtered reading of the journal: every
  record of the store was validated and no operation appears twice, the page holds the records
  from the offset on, newest first, at most the limit, each valid and in final states only, the
  counts are those of the store and of all matches, and evidence of uncommitted work is never
  filtered away.\<close>

theorem history_page_spec:
  assumes "history_lookup dbg input q = Inr page"
  shows "hp_records page = take (hq_limit q) (drop (hq_offset q) (matching q input))
    \<and> hp_matched_records page = length (matching q input)
    \<and> hp_total_records page = length (read_records input)
    \<and> hp_uncommitted_snapshots page = read_uncommitted_snapshots input
    \<and> sorted (map history_key (hp_records page)) \<and> length (hp_records page) \<le> hq_limit q
    \<and> (\<forall>r \<in> set (read_records input). record_validate dbg r = Inr ())
    \<and> distinct (map jr_operation_id (read_records input))
    \<and> (\<forall>r \<in> set (hp_records page). record_validate dbg r = Inr () \<and> query_matches q r
         \<and> (\<forall>i \<in> set (jr_items r). terminal_state (it_state i)))"
proof -
  from assms obtain found where c: "collect_records dbg q {} (read_records input) = Inr found"
    and page: "page = \<lparr>hp_schema_version = 1, hp_total_records = length (read_records input),
           hp_matched_records = length (history_order found), hp_offset = hq_offset q, hp_limit = hq_limit q,
           hp_records = take (hq_limit q) (drop (hq_offset q) (history_order found)),
           hp_uncommitted_snapshots = read_uncommitted_snapshots input\<rparr>"
    by (auto simp: history_lookup_def Let_def split: if_splits)
  note f = collect_records_Inr [OF c]
  have m: "history_order found = matching q input" using f by (simp add: matching_def)
  have "sorted (map history_key (matching q input))"
    by (simp add: matching_def history_order_def)
  then have s: "sorted (map history_key (hp_records page))"
    unfolding page by (simp add: m sorted_wrt_take sorted_wrt_drop take_map [symmetric] drop_map [symmetric])
  have in_page: "record_validate dbg r = Inr () \<and> query_matches q r
         \<and> (\<forall>i \<in> set (jr_items r). terminal_state (it_state i))" if "r \<in> set (hp_records page)" for r
  proof -
    from that have "r \<in> set (matching q input)"
      unfolding page by (auto simp: m dest: in_set_takeD in_set_dropD)
    then obtain r0 where r0: "r0 \<in> set (read_records input)" "r = reconciled r0" "query_matches q r"
      by (auto simp: matching_def history_order_def)
    then have v: "record_validate dbg r0 = Inr ()" using f by blast
    from reconciled_items_weaker [OF v] have "\<forall>i \<in> set (jr_items r). terminal_state (it_state i)"
      unfolding r0(2) by (auto simp: list_all2_conv_all_nth in_set_conv_nth weaker_item_def)
    moreover have "record_validate dbg r = Inr ()"
      unfolding r0(2) by (rule reconciled_keeps_valid [OF v])
    ultimately show ?thesis using r0(3) by blast
  qed
  have "hp_records page = take (hq_limit q) (drop (hq_offset q) (matching q input))"
    "hp_matched_records page = length (matching q input)"
    "hp_total_records page = length (read_records input)"
    "hp_uncommitted_snapshots page = read_uncommitted_snapshots input"
    by (simp_all add: page m)
  moreover from this(1) have "length (hp_records page) \<le> hq_limit q" by simp
  ultimately show ?thesis using s in_page f by blast
qed

definition demo_history :: journal_read where
  "demo_history = \<lparr>read_records = [demo_interrupted, (demo_record [demo_item ''/d/z'' 8 ItemSkipped])
     \<lparr>jr_operation_id := ''b-2'', jr_created_unix_ms := 6\<rparr>], read_uncommitted_snapshots = [''s'']\<rparr>"

definition demo_history_page :: "history_page io_result" where
  "demo_history_page = history_lookup ascii_debug demo_history
     (query_default\<lparr>hq_states := [ItemUnknown, ItemSkipped], hq_limit := 1\<rparr>)"

theorem history_page_spec_witness:
  "hp_matched_records (projr demo_history_page) = 2
   \<and> map jr_operation_id (hp_records (projr demo_history_page)) = [''b-2'']
   \<and> hp_uncommitted_snapshots (projr demo_history_page) = read_uncommitted_snapshots demo_history"
proof -
  have "\<not> isl demo_history_page" by code_simp
  then have "demo_history_page = Inr (projr demo_history_page)" by (cases demo_history_page) simp_all
  from history_page_spec [OF this [unfolded demo_history_page_def]]
  have "hp_uncommitted_snapshots (projr demo_history_page) = read_uncommitted_snapshots demo_history"
    unfolding demo_history_page_def by blast
  moreover have "hp_matched_records (projr demo_history_page) = 2"
    "map jr_operation_id (hp_records (projr demo_history_page)) = [''b-2'']"
    by code_simp+
  ultimately show ?thesis by blast
qed

text \<open>Paging loses and repeats nothing: the pages at offsets \<open>0\<close>, \<open>limit\<close>, \<open>2 * limit\<close>, \<dots> of
  one query put together are exactly the matching records, in order.\<close>

theorem pages_partition:
  assumes "0 < hq_limit q" and "length (matching q input) \<le> n * hq_limit q"
    and "\<And>k. k < n \<Longrightarrow> history_lookup dbg input (q\<lparr>hq_offset := k * hq_limit q\<rparr>) = Inr (page k)"
  shows "concat (map (\<lambda>k. hp_records (page k)) [0..<n]) = matching q input"
proof -
  let ?l = "hq_limit q" and ?xs = "matching q input"
  have "query_matches (q\<lparr>hq_offset := x\<rparr>) = query_matches q" for x
    by (simp add: fun_eq_iff query_matches_def cong: option.case_cong)
  then have "matching (q\<lparr>hq_offset := x\<rparr>) input = ?xs" for x
    by (simp add: matching_def)
  then have p: "hp_records (page k) = take ?l (drop (k * ?l) ?xs)" if "k < n" for k
    using history_page_spec [OF assms(3) [OF that]] by simp
  have "concat (map (\<lambda>k. take ?l (drop (k * ?l) ?xs)) [0..<m]) = take (m * ?l) ?xs" for m
    by (induction m) (simp_all add: take_add [symmetric] add.commute)
  then have "concat (map (\<lambda>k. hp_records (page k)) [0..<n]) = take (n * ?l) ?xs"
    using p by (metis (no_types, lifting) atLeastLessThan_iff map_cong set_upt)
  then show ?thesis using assms(2) by simp
qed

definition demo_page_at :: "nat \<Rightarrow> history_page io_result" where
  "demo_page_at k = history_lookup ascii_debug demo_history (query_default\<lparr>hq_limit := 1, hq_offset := k\<rparr>)"

theorem pages_partition_witness:
  "concat (map (\<lambda>k. hp_records (projr (demo_page_at k))) [0..<2])
     = matching (query_default\<lparr>hq_limit := 1\<rparr>) demo_history"
proof (rule pages_partition [where dbg = ascii_debug])
  show "0 < hq_limit (query_default\<lparr>hq_limit := 1\<rparr>)" by simp
  have "length (matching (query_default\<lparr>hq_limit := 1\<rparr>) demo_history) = 2" by code_simp
  then show "length (matching (query_default\<lparr>hq_limit := 1\<rparr>) demo_history)
      \<le> 2 * hq_limit (query_default\<lparr>hq_limit := 1\<rparr>)" by simp
  fix k :: nat assume "k < 2"
  have "\<not> isl (demo_page_at 0)" "\<not> isl (demo_page_at 1)" by code_simp+
  with \<open>k < 2\<close> have "\<not> isl (demo_page_at k)" by (auto simp: less_2_cases_iff)
  then have "demo_page_at k = Inr (projr (demo_page_at k))" by (cases "demo_page_at k") simp_all
  then show "history_lookup ascii_debug demo_history
      (query_default\<lparr>hq_limit := 1, hq_offset := k * hq_limit (query_default\<lparr>hq_limit := 1\<rparr>)\<rparr>)
      = Inr (projr (demo_page_at k))"
    by (simp add: demo_page_at_def)
qed

end
