(* ===== verification/Receipt.thy ===== *)
theory Receipt
  imports Model
begin

text \<open>
  \<open>receipt.rs\<close>: the life of one planned item, from planned over started to finished, as a
  state machine.
\<close>

datatype outcome = Succeeded | OutcomeSkipped reason_code | OutcomeFailed reason_code
  | OutcomeUnknown reason_code

datatype receipt_state = ReceiptPlanned | ReceiptStarted | ReceiptFinished outcome

record receipt =
  rcp_plan :: plan_id
  rcp_item :: plan_item
  rcp_versions :: versions
  rcp_state :: receipt_state

definition receipt_new :: "plan \<Rightarrow> resource_id \<Rightarrow> (error, receipt) result" where
  "receipt_new p rid =
     (case find (\<lambda>i. item_resource i = rid) (pl_items p) of
        None \<Rightarrow> Inl (error_at UnknownResource rid)
      | Some i \<Rightarrow> Inr \<lparr>rcp_plan = pl_id p, rcp_item = i, rcp_versions = pl_versions p,
          rcp_state = ReceiptPlanned\<rparr>)"

definition receipt_start :: "receipt \<Rightarrow> (error, unit) result \<times> receipt" where
  "receipt_start r =
     (if rcp_state r \<noteq> ReceiptPlanned then (Inl (error_new InvalidTransition), r)
      else (Inr (), r\<lparr>rcp_state := ReceiptStarted\<rparr>))"

definition receipt_finish :: "outcome \<Rightarrow> receipt \<Rightarrow> (error, unit) result \<times> receipt" where
  "receipt_finish out r =
     (case (rcp_state r, out) of
        (ReceiptStarted, _) \<Rightarrow> (Inr (), r\<lparr>rcp_state := ReceiptFinished out\<rparr>)
      | (ReceiptPlanned, OutcomeSkipped _) \<Rightarrow> (Inr (), r\<lparr>rcp_state := ReceiptFinished out\<rparr>)
      | _ \<Rightarrow> (Inl (error_new InvalidTransition), r))"

datatype receipt_op = Start | Finish outcome

fun receipt_do :: "receipt_op \<Rightarrow> receipt \<Rightarrow> (error, unit) result \<times> receipt" where
  "receipt_do Start r = receipt_start r"
| "receipt_do (Finish out) r = receipt_finish out r"

inductive receipt_step :: "receipt \<Rightarrow> receipt \<Rightarrow> bool" where
  "receipt_do x r = (res, r') \<Longrightarrow> receipt_step r r'"

inductive_cases receipt_stepE: "receipt_step r r'"

section \<open>The life of a receipt\<close>

lemma receipt_do_cases:
  assumes "receipt_do x r = (res, r')"
  shows "r' = r \<and> isl res
    \<or> (rcp_state r = ReceiptPlanned \<and> x = Start \<and> res = Inr () \<and> r' = r\<lparr>rcp_state := ReceiptStarted\<rparr>)
    \<or> (\<exists>out. x = Finish out \<and> res = Inr () \<and> r' = r\<lparr>rcp_state := ReceiptFinished out\<rparr>
        \<and> (rcp_state r = ReceiptStarted \<or> rcp_state r = ReceiptPlanned \<and> (\<exists>c. out = OutcomeSkipped c)))"
  using assms
  by (cases x) (auto simp: receipt_start_def receipt_finish_def split: if_splits receipt_state.splits outcome.splits)

text \<open>The states a receipt that was in the first state may be in later.\<close>

definition receipt_reaches :: "receipt_state \<Rightarrow> receipt_state \<Rightarrow> bool" where
  "receipt_reaches s t \<longleftrightarrow>
     (case s of ReceiptPlanned \<Rightarrow> True
      | ReceiptStarted \<Rightarrow> t \<noteq> ReceiptPlanned
      | ReceiptFinished out \<Rightarrow> t = s)"

lemma receipt_reaches_trans: "receipt_reaches s t \<Longrightarrow> receipt_reaches t u \<Longrightarrow> receipt_reaches s u"
  by (cases s; cases t) (auto simp: receipt_reaches_def)

lemma receipt_step_reaches:
  "receipt_step r r' \<Longrightarrow> receipt_reaches (rcp_state r) (rcp_state r')
     \<and> rcp_plan r' = rcp_plan r \<and> rcp_item r' = rcp_item r \<and> rcp_versions r' = rcp_versions r"
  by (erule receipt_stepE, drule receipt_do_cases)
    (auto simp: receipt_reaches_def split: receipt_state.splits)

lemma receipt_run_reaches:
  "receipt_step\<^sup>*\<^sup>* r r' \<Longrightarrow> receipt_reaches (rcp_state r) (rcp_state r')
     \<and> rcp_plan r' = rcp_plan r \<and> rcp_item r' = rcp_item r \<and> rcp_versions r' = rcp_versions r"
proof (induction rule: rtranclp_induct)
  case base
  then show ?case by (simp add: receipt_reaches_def split: receipt_state.splits)
next
  case (step s t)
  then show ?case using receipt_step_reaches [OF step(2)] receipt_reaches_trans by metis
qed

text \<open>A finished receipt is final: once a receipt has an outcome, no sequence of operations
  changes it, and both operations fail with \<open>InvalidTransition\<close>; the plan, item and versions of a
  receipt never change.\<close>

theorem receipt_final:
  assumes "receipt_step\<^sup>*\<^sup>* r r'" and "rcp_state r = ReceiptFinished out"
  shows "r' = r \<and> receipt_do x r' = (Inl (error_new InvalidTransition), r')"
proof -
  have "rcp_state r' = ReceiptFinished out" "rcp_plan r' = rcp_plan r" "rcp_item r' = rcp_item r"
    "rcp_versions r' = rcp_versions r"
    using receipt_run_reaches [OF assms(1)] assms(2) by (simp_all add: receipt_reaches_def)
  then show ?thesis
    using assms(2) by (cases x) (simp_all add: receipt_start_def receipt_finish_def)
qed

definition demo_receipt :: "receipt_state \<Rightarrow> receipt" where
  "demo_receipt s = \<lparr>rcp_plan = \<lparr>pid_session = 1, pid_value = 2\<rparr>,
     rcp_item = \<lparr>pi_observation = \<lparr>obs_id = \<lparr>rid_session = 1, rid_value = 1\<rparr>, obs_path = ''/d/a'',
         obs_observed_at = 0, obs_snapshot = \<lparr>snap_identity = None, snap_kind = KFile,
           snap_logical_bytes = None, snap_modified_at = None, snap_complete = True,
           snap_boundary = BoundaryVerified, snap_protection = ProtClear, snap_trash = CapAvailable,
           snap_owner = NotApplicable\<rparr>\<rparr>,
       pi_contract = ModelOnly, pi_rule_binding = None\<rparr>,
     rcp_versions = \<lparr>ver_engine = 1, ver_rules = 1\<rparr>, rcp_state = s\<rparr>"

theorem receipt_final_witness:
  "receipt_do Start (demo_receipt (ReceiptFinished Succeeded))
     = (Inl (error_new InvalidTransition), demo_receipt (ReceiptFinished Succeeded))"
  by (rule receipt_final [THEN conjunct2, OF rtranclp.rtrancl_refl]) (simp add: demo_receipt_def)

lemma receipt_acts_from:
  assumes "receipt_step r r'" and "rcp_state r' = ReceiptFinished out" and "rcp_state r = ReceiptPlanned"
  shows "\<exists>c. out = OutcomeSkipped c"
  using assms(1)
  by (rule receipt_stepE) (use assms(2,3) receipt_do_cases in fastforce)

text \<open>An effect is only reported for a started item: a receipt that was planned and now has an
  outcome other than a skip went through \<open>Started\<close> on the way.\<close>

theorem outcome_needs_start:
  assumes "receipt_step\<^sup>*\<^sup>* r r'" and "rcp_state r = ReceiptPlanned"
    and "rcp_state r' = ReceiptFinished out" and "\<nexists>c. out = OutcomeSkipped c"
  shows "\<exists>m. receipt_step\<^sup>*\<^sup>* r m \<and> rcp_state m = ReceiptStarted \<and> receipt_step\<^sup>*\<^sup>* m r'"
  using assms(1,3)
proof (induction rule: rtranclp_induct)
  case base
  then show ?case using assms(2) by simp
next
  case (step s t)
  show ?case
  proof (cases "rcp_state s")
    case ReceiptPlanned
    then show ?thesis using receipt_acts_from [OF step(2,4)] assms(4) by blast
  next
    case ReceiptStarted
    then show ?thesis using step by blast
  next
    case (ReceiptFinished out')
    then have "rcp_state t = ReceiptFinished out'"
      using receipt_step_reaches [OF step(2)] by (simp add: receipt_reaches_def)
    then have "out' = out" using step(4) by simp
    with step ReceiptFinished show ?thesis by (meson rtranclp.rtrancl_into_rtrancl)
  qed
qed

theorem outcome_needs_start_witness:
  "\<exists>m. receipt_step\<^sup>*\<^sup>* (demo_receipt ReceiptPlanned) m \<and> rcp_state m = ReceiptStarted"
proof -
  let ?r = demo_receipt
  have "receipt_step (?r ReceiptPlanned) (?r ReceiptStarted)"
    "receipt_step (?r ReceiptStarted) (?r (ReceiptFinished Succeeded))"
    by (rule receipt_step.intros [of Start _ "Inr ()"], simp add: receipt_start_def demo_receipt_def)
      (rule receipt_step.intros [of "Finish Succeeded" _ "Inr ()"],
        simp add: receipt_finish_def demo_receipt_def)
  then have "receipt_step\<^sup>*\<^sup>* (?r ReceiptPlanned) (?r (ReceiptFinished Succeeded))" by auto
  from outcome_needs_start [OF this, of Succeeded] show ?thesis by (auto simp: demo_receipt_def)
qed

end
