(* ===== verification/Execute.thy ===== *)
theory Execute
  imports Planner Journal
begin

text \<open>
  Explicit Trash sessions (\<open>execute.rs\<close>): \<open>Session::execute_with_clean_policy\<close>. The native
  platform, the journal and the policy guard are trait objects or closures of the sources; they
  are the fields of an environment over the state \<open>'w\<close> of the outside world. The native call
  receives two closures of the session, which it may call any number of times, in any order:
  the call is a tree of its uses of them (\<open>native\<close>), run by \<open>run_native\<close>.
\<close>

section \<open>Outcomes of native calls\<close>

datatype effect = Moved path | EffectRefused bytes | EffectFailed bytes
  | EffectUnknown bytes "recovery_evidence option"

datatype guard_decision = Proceed | GuardRefused bytes

datatype guard_point = AfterStarted | LastNative

fun guard_label :: "guard_point \<Rightarrow> bytes" where
  "guard_label AfterStarted = ''after_started''"
| "guard_label LastNative = ''last_native''"

fun io_display :: "io_error \<Rightarrow> bytes" where
  "io_display (Io k message) = message"
| "io_display Panicked = []"

definition resolve_guard_decision ::
  "guard_decision io_result \<Rightarrow> guard_point \<Rightarrow> guard_decision" where
  "resolve_guard_decision r pt =
     (case r of
        Inr d \<Rightarrow> d
      | Inl e \<Rightarrow> GuardRefused (''policy_guard_error_'' @ guard_label pt @ '': '' @ io_display e))"

definition model_error :: "(bytes \<Rightarrow> bytes) \<Rightarrow> error \<Rightarrow> io_error" where
  "model_error dbg e = Io InvalidInput (error_display dbg e)"

section \<open>The environment\<close>

datatype 'w native =
    Finished effect 'w
  | AskStop 'w "bool \<Rightarrow> 'w \<Rightarrow> 'w native"
  | AskGuard 'w "guard_decision \<Rightarrow> 'w \<Rightarrow> 'w native"

primrec run_native ::
  "('c \<Rightarrow> 'w \<Rightarrow> bool \<times> 'c \<times> 'w) \<Rightarrow> ('c \<Rightarrow> 'w \<Rightarrow> guard_decision \<times> 'c \<times> 'w)
     \<Rightarrow> 'w native \<Rightarrow> 'c \<Rightarrow> effect \<times> 'c \<times> 'w" where
  "run_native stop guard (Finished e w) c = (e, c, w)"
| "run_native stop guard (AskStop w k) c =
     (case stop c w of (b, c', w') \<Rightarrow> run_native stop guard (k b w') c')"
| "run_native stop guard (AskGuard w k) c =
     (case guard c w of (d, c', w') \<Rightarrow> run_native stop guard (k d w') c')"

lemma native_induct [case_names Finished AskStop AskGuard]:
  assumes "\<And>e w. P (Finished e w)"
    and "\<And>w k. (\<And>b w'. P (k b w')) \<Longrightarrow> P (AskStop w k)"
    and "\<And>w k. (\<And>d w'. P (k d w')) \<Longrightarrow> P (AskGuard w k)"
  shows "P n"
proof (induction n rule: native.induct)
  case (Finished e w)
  show ?case by (rule assms(1))
next
  case (AskStop w k)
  show ?case by (rule assms(2)) (rule AskStop.IH [OF rangeI rangeI])
next
  case (AskGuard w k)
  show ?case by (rule assms(3)) (rule AskGuard.IH [OF rangeI rangeI])
qed

record publication =
  cleanup_error :: "io_error option"

definition require_clean :: "publication \<Rightarrow> unit io_result" where
  "require_clean pub = (case cleanup_error pub of Some e \<Rightarrow> Inl e | None \<Rightarrow> Inr ())"

text \<open>
  \<open>xe_wall\<close> is \<open>SystemTime::now\<close>, read by \<open>journal::now_ms\<close>; \<open>xe_guard\<close> is \<open>GuardHook\<close>.
\<close>

record 'w exec_env =
  xe_env :: "'w env"
  xe_journal_path :: "path \<Rightarrow> native_path"
  xe_effect :: "path \<Rightarrow> 'w \<Rightarrow> 'w native"
  xe_new_id :: "'w \<Rightarrow> bytes io_result \<times> 'w"
  xe_publish :: "journal_record \<Rightarrow> bool \<Rightarrow> 'w \<Rightarrow> publication io_result \<times> 'w"
  xe_wall :: "'w \<Rightarrow> system_time \<times> 'w"
  xe_guard :: "(guard_point \<Rightarrow> path \<Rightarrow> 'w \<Rightarrow> guard_decision io_result \<times> 'w) option"

definition now_ms :: "'w exec_env \<Rightarrow> 'w \<Rightarrow> u64 io_result \<times> 'w" where
  "now_ms E w =
     (case xe_wall E w of
        (t, w') \<Rightarrow>
          (if t < 0 then Inl (invalid ''system clock is before the Unix epoch'')
           else if t div 1000000 < 18446744073709551616 then Inr (word_of_int (t div 1000000))
           else Inl (invalid ''timestamp overflow''), w'))"

section \<open>Reports\<close>

record exec_report =
  er_record :: journal_record
  er_journal_error :: "bytes option"

definition exit_code :: "exec_report \<Rightarrow> u8" where
  "exit_code r =
     (let items = jr_items (er_record r) in
      if er_journal_error r \<noteq> None \<or> list_ex (\<lambda>i. it_state i = ItemUnknown) items then 1
      else if list_all (\<lambda>i. it_state i = ItemSucceeded) items then 0
      else if list_ex (\<lambda>i. it_reason i = Some ''cancelled'') items then 130
      else 3)"

text \<open>\<open>report.record.items[index]\<close> changed by \<open>f\<close>\<close>

definition with_row :: "nat \<Rightarrow> (item_record \<Rightarrow> item_record) \<Rightarrow> exec_report \<Rightarrow> exec_report" where
  "with_row i f r =
     (let rc = er_record r; items = jr_items rc in
      r\<lparr>er_record := rc\<lparr>jr_items := items[i := f (items ! i)]\<rparr>\<rparr>)"

definition stop_for_journal_error :: "nat \<Rightarrow> io_error \<Rightarrow> exec_report \<Rightarrow> exec_report" where
  "stop_for_journal_error i e r =
     (let rc = er_record r; items = jr_items rc in
      r\<lparr>er_journal_error := Some (io_display e),
        er_record := rc\<lparr>jr_items := take (Suc i) items
          @ map (\<lambda>it. it\<lparr>it_state := ItemSkipped, it_reason := Some ''stopped_after_journal_failure''\<rparr>)
              (drop (Suc i) items)\<rparr>\<rparr>)"

section \<open>The records of the planned items\<close>

definition item_witness :: "(bytes \<Rightarrow> bytes) \<Rightarrow> rule_witness \<Rightarrow> witness_record" where
  "item_witness dbg w =
     \<lparr>wr_path = native_from_path dbg (rw_path w),
      wr_device = (case rw_identity w of Unix d i \<Rightarrow> d | Windows v f \<Rightarrow> 0),
      wr_inode = (case rw_identity w of Unix d i \<Rightarrow> i | Windows v f \<Rightarrow> 0),
      wr_kind = (case rw_kind w of
          KFile \<Rightarrow> ''file'' | KDirectory \<Rightarrow> ''directory'' | KLink \<Rightarrow> ''link'' | KOther \<Rightarrow> ''other''),
      wr_logical_bytes = rw_logical_bytes w,
      wr_modified = native_time_from (rw_modified_at w),
      wr_changed = native_time_from (rw_changed_at w),
      wr_created = native_time_from (rw_created_at w),
      wr_uid = rw_uid w, wr_gid = rw_gid w, wr_mode = rw_mode w,
      wr_nlink = rw_nlink w, wr_flags = rw_flags w\<rparr>"

definition item_rule_binding :: "(bytes \<Rightarrow> bytes) \<Rightarrow> rule_binding \<Rightarrow> binding_record" where
  "item_rule_binding dbg b =
     \<lparr>br_schema_version = rb_schema_version b, br_rule_id = rb_rule_id b,
      br_rule_version = rb_rule_version b,
      br_ruleset_schema_version = rb_ruleset_schema_version b,
      br_ruleset_revision = rb_ruleset_revision b,
      br_semantics = rb_semantics b, br_semantics_digest = rb_semantics_digest b,
      br_selected_root = native_from_path dbg (rb_selected_root b),
      br_exclusions = map (native_from_path dbg) (rb_exclusions b),
      br_target = item_witness dbg (rb_target b),
      br_source = item_witness dbg (rb_source b),
      br_root = item_witness dbg (rb_root b),
      br_target_ancestors = map (item_witness dbg) (rb_target_ancestors b),
      br_source_ancestors = map (item_witness dbg) (rb_source_ancestors b),
      br_warnings = rb_warnings b\<rparr>"

definition item_path :: "plan_item \<Rightarrow> path" where
  "item_path item = obs_path (pi_observation item)"

definition planned_row ::
  "(bytes \<Rightarrow> bytes) \<Rightarrow> (path \<Rightarrow> native_path) \<Rightarrow> u64 \<Rightarrow> plan_item \<Rightarrow> item_record io_result" where
  "planned_row dbg jp now item =
     (let snap = obs_snapshot (pi_observation item) in
      case snap_identity snap of
        Some (Unix dev ino) \<Rightarrow>
          rbind (ok_or (invalid ''native size is unknown'') (snap_logical_bytes snap)) (\<lambda>sz.
            Inr \<lparr>it_path = jp (item_path item), it_device = dev, it_inode = ino,
              it_logical_bytes = sz, it_state = ItemPlanned, it_reason = None,
              it_destination = None,
              it_rule_binding = map_option (item_rule_binding dbg) (pi_rule_binding item),
              it_recovery_evidence = None, it_updated_unix_ms = now\<rparr>)
      | _ \<Rightarrow> Inl (invalid ''native plan lacks Unix identity''))"

definition session_schema :: "policy_context option \<Rightarrow> plan \<Rightarrow> u32" where
  "session_schema policy preview =
     (if policy \<noteq> None then 3
      else if plan_schema_version preview = 5 then 5
      else if plan_schema_version preview = 4 then 4
      else if plan_schema_version preview = 3 then 2
      else 1)"

definition native_contract :: "execution_contract \<Rightarrow> bool" where
  "native_contract c \<longleftrightarrow> c \<in> {RevalidatedTrashV1, RevalidatedBundleTrashV1,
     RevalidatedPurgeTrashV1, RevalidatedCacheTrashV1}"

definition initial_record ::
  "(path \<Rightarrow> native_path) \<Rightarrow> policy_context option \<Rightarrow> plan \<Rightarrow> bytes \<Rightarrow> u64 \<Rightarrow> item_record list
     \<Rightarrow> journal_record" where
  "initial_record jp policy preview oid now rows =
     \<lparr>jr_schema_version = session_schema policy preview,
      jr_plan_schema_version = plan_schema_version preview,
      jr_engine_version = ver_engine (pl_versions preview),
      jr_rules_version = ver_rules (pl_versions preview),
      jr_operation_id = oid,
      jr_contract = contract_as_str (pl_contract preview),
      jr_scope = jp (pl_scope preview),
      jr_clean_policy = policy, jr_tool_operation = None, jr_related_context = None,
      jr_orphan_context = None, jr_delegation = None, jr_empty_trash_context = None,
      jr_runtime_context = None, jr_created_unix_ms = now, jr_items = rows\<rparr>"

section \<open>One item\<close>

definition skip_text :: "(bytes \<Rightarrow> bytes) \<Rightarrow> rejection \<Rightarrow> bytes" where
  "skip_text dbg s = reason_code_as_str (rej_code s)
     @ (case rej_probe_error s of None \<Rightarrow> [] | Some e \<Rightarrow> '': '' @ probe_error_display dbg e)"

definition skip_reason ::
  "(bytes \<Rightarrow> bytes) \<Rightarrow> reason_code option \<Rightarrow> rejection option \<Rightarrow> bool \<Rightarrow> bytes option" where
  "skip_reason dbg stop skip stopped =
     (case stop of
        Some c \<Rightarrow> Some (reason_code_as_str c)
      | None \<Rightarrow>
          (case skip of
             Some s \<Rightarrow> Some (skip_text dbg s)
           | None \<Rightarrow> if stopped then Some ''stopped_after_ambiguous_outcome'' else None))"

text \<open>What the two closures handed to the native call share: the planner and two results.\<close>

record callbacks =
  cb_planner :: planner
  cb_final_stop :: "reason_code option"
  cb_guard_result :: guard_decision

definition stop_callback ::
  "'w exec_env \<Rightarrow> plan \<Rightarrow> callbacks \<Rightarrow> 'w \<Rightarrow> bool \<times> callbacks \<times> 'w" where
  "stop_callback E preview c w =
     (case preflight_stop (xe_env E) preview (cb_planner c) w of
        (s, p, w') \<Rightarrow> (s \<noteq> None, c\<lparr>cb_planner := p, cb_final_stop := s\<rparr>, w'))"

definition guard_callback ::
  "'w exec_env \<Rightarrow> path \<Rightarrow> callbacks \<Rightarrow> 'w \<Rightarrow> guard_decision \<times> callbacks \<times> 'w" where
  "guard_callback E path c w =
     (case xe_guard E of
        None \<Rightarrow> (cb_guard_result c, c, w)
      | Some g \<Rightarrow>
          (case g LastNative path w of
             (r, w') \<Rightarrow>
               (let d = resolve_guard_decision r LastNative
                in (d, c\<lparr>cb_guard_result := d\<rparr>, w'))))"

fun effect_row ::
  "(path \<Rightarrow> native_path) \<Rightarrow> reason_code option \<Rightarrow> effect \<Rightarrow> item_record \<Rightarrow> item_record" where
  "effect_row jp final_stop (Moved dest) row =
     row\<lparr>it_state := ItemSucceeded, it_destination := Some (jp dest)\<rparr>"
| "effect_row jp final_stop (EffectRefused message) row =
     row\<lparr>it_state := ItemSkipped,
       it_reason := Some (case final_stop of Some c \<Rightarrow> reason_code_as_str c | None \<Rightarrow> message)\<rparr>"
| "effect_row jp final_stop (EffectFailed message) row =
     row\<lparr>it_state := ItemFailed, it_reason := Some message\<rparr>"
| "effect_row jp final_stop (EffectUnknown message evidence) row =
     row\<lparr>it_state := ItemUnknown, it_reason := Some message, it_recovery_evidence := evidence\<rparr>"

fun effect_stops :: "guard_decision \<Rightarrow> effect \<Rightarrow> bool" where
  "effect_stops d (EffectRefused _) \<longleftrightarrow> d \<noteq> Proceed"
| "effect_stops d (EffectUnknown _ _) \<longleftrightarrow> True"
| "effect_stops d _ \<longleftrightarrow> False"

definition native_item ::
  "'w exec_env \<Rightarrow> plan \<Rightarrow> nat \<Rightarrow> path \<Rightarrow> exec_report \<Rightarrow> planner \<Rightarrow> 'w
     \<Rightarrow> (exec_report \<times> bool) \<times> planner \<times> 'w" where
  "native_item E preview i path report p w =
     (case run_native (stop_callback E preview) (guard_callback E path) (xe_effect E path w)
             \<lparr>cb_planner = p, cb_final_stop = None, cb_guard_result = Proceed\<rparr> of
        (eff, c, w1) \<Rightarrow>
          ((with_row i (effect_row (xe_journal_path E) (cb_final_stop c) eff) report,
            effect_stops (cb_guard_result c) eff), cb_planner c, w1))"

definition guarded_item ::
  "'w exec_env \<Rightarrow> plan \<Rightarrow> nat \<Rightarrow> path \<Rightarrow> exec_report \<Rightarrow> planner \<Rightarrow> 'w
     \<Rightarrow> (exec_report \<times> bool) \<times> planner \<times> 'w" where
  "guarded_item E preview i path report p w =
     (case xe_guard E of
        None \<Rightarrow> native_item E preview i path report p w
      | Some g \<Rightarrow>
          (case g AfterStarted path w of
             (r, w1) \<Rightarrow>
               (case resolve_guard_decision r AfterStarted of
                  Proceed \<Rightarrow> native_item E preview i path report p w1
                | GuardRefused reason \<Rightarrow>
                    ((with_row i (\<lambda>row. row\<lparr>it_state := ItemSkipped,
                        it_reason := Some (reason @ ''; no_native_call''), it_destination := None\<rparr>) report,
                      True), p, w1))))"

text \<open>
  The steps of an iteration either leave the function with its result (\<open>Inl\<close>) or go on with the
  report and the flag \<open>stopped\<close>.
\<close>

type_synonym 'a flow = "exec_report io_result + 'a"

definition started_item ::
  "'w exec_env \<Rightarrow> plan \<Rightarrow> nat \<Rightarrow> path \<Rightarrow> exec_report \<Rightarrow> planner \<Rightarrow> 'w
     \<Rightarrow> (exec_report \<times> bool) flow \<times> planner \<times> 'w" where
  "started_item E preview i path report p w =
     (case now_ms E w of
        (Inl e, w1) \<Rightarrow> (Inl (Inl e), p, w1)
      | (Inr now, w1) \<Rightarrow>
          (let report1 = with_row i (\<lambda>row. row\<lparr>it_state := ItemStarted, it_updated_unix_ms := now\<rparr>) report in
           case xe_publish E (er_record report1) False w1 of
             (published, w2) \<Rightarrow>
               (case rbind published require_clean of
                  Inl e \<Rightarrow>
                    (Inl (Inr (stop_for_journal_error i e
                       (with_row i (\<lambda>row. row\<lparr>it_state := ItemSkipped,
                          it_reason := Some ''intent_publication_incomplete; no_native_call''\<rparr>) report1))),
                     p, w2)
                | Inr _ \<Rightarrow>
                    (case guarded_item E preview i path report1 p w2 of
                       (r, p', w3) \<Rightarrow> (Inr r, p', w3)))))"

definition confirmed_item ::
  "'w exec_env \<Rightarrow> nat \<Rightarrow> exec_report \<Rightarrow> 'w \<Rightarrow> exec_report flow \<times> 'w" where
  "confirmed_item E i report w =
     (case now_ms E w of
        (Inl e, w1) \<Rightarrow>
          (Inl (Inr (stop_for_journal_error i e
             (with_row i (\<lambda>row.
                (if it_state row \<in> {ItemSucceeded, ItemFailed} then row\<lparr>it_state := ItemUnknown\<rparr> else row)
                \<lparr>it_reason := Some (''outcome timestamp unavailable: '' @ io_display e)\<rparr>) report))), w1)
      | (Inr now, w1) \<Rightarrow>
          (let report1 = with_row i (\<lambda>row. row\<lparr>it_updated_unix_ms := now\<rparr>) report in
           case xe_publish E (er_record report1) False w1 of
             (Inl e, w2) \<Rightarrow>
               (Inl (Inr (stop_for_journal_error i e
                  (with_row i (\<lambda>row.
                     if it_state row \<noteq> ItemSkipped
                     then row\<lparr>it_state := ItemUnknown,
                       it_reason := Some ''native_outcome_not_confirmed_durable''\<rparr>
                     else row) report1))), w2)
           | (Inr pub, w2) \<Rightarrow>
               (case cleanup_error pub of
                  Some e \<Rightarrow> (Inl (Inr (stop_for_journal_error i e report1)), w2)
                | None \<Rightarrow> (Inr report1, w2))))"

definition acted_item ::
  "(bytes \<Rightarrow> bytes) \<Rightarrow> 'w exec_env \<Rightarrow> plan \<Rightarrow> rejection list \<Rightarrow> nat \<Rightarrow> plan_item \<Rightarrow> exec_report \<Rightarrow> bool
     \<Rightarrow> planner \<Rightarrow> 'w \<Rightarrow> (exec_report \<times> bool) flow \<times> planner \<times> 'w" where
  "acted_item dbg E preview skipped i item report stopped p w =
     (case preflight_stop (xe_env E) preview p w of
        (stop, p1, w1) \<Rightarrow>
          (case skip_reason dbg stop (find (\<lambda>s. rej_resource s = item_resource item) skipped) stopped of
             Some reason \<Rightarrow>
               (Inr (with_row i (\<lambda>row. row\<lparr>it_state := ItemSkipped, it_reason := Some reason\<rparr>) report,
                  stopped), p1, w1)
           | None \<Rightarrow> started_item E preview i (item_path item) report p1 w1))"

definition execute_item ::
  "(bytes \<Rightarrow> bytes) \<Rightarrow> 'w exec_env \<Rightarrow> plan \<Rightarrow> rejection list \<Rightarrow> nat \<Rightarrow> plan_item \<Rightarrow> exec_report \<Rightarrow> bool
     \<Rightarrow> planner \<Rightarrow> 'w \<Rightarrow> (exec_report \<times> bool) flow \<times> planner \<times> 'w" where
  "execute_item dbg E preview skipped i item report stopped p w =
     (case acted_item dbg E preview skipped i item report stopped p w of
        (Inl out, p1, w1) \<Rightarrow> (Inl out, p1, w1)
      | (Inr (report1, stopped1), p1, w1) \<Rightarrow>
          (case confirmed_item E i report1 w1 of
             (Inl out, w2) \<Rightarrow> (Inl out, p1, w2)
           | (Inr report2, w2) \<Rightarrow> (Inr (report2, stopped1), p1, w2)))"

fun execute_items ::
  "(bytes \<Rightarrow> bytes) \<Rightarrow> 'w exec_env \<Rightarrow> plan \<Rightarrow> rejection list \<Rightarrow> nat \<Rightarrow> plan_item list \<Rightarrow> exec_report \<Rightarrow> bool
     \<Rightarrow> planner \<Rightarrow> 'w \<Rightarrow> exec_report io_result \<times> planner \<times> 'w" where
  "execute_items dbg E preview skipped i [] report stopped p w = (Inr report, p, w)"
| "execute_items dbg E preview skipped i (item # rest) report stopped p w =
     (case execute_item dbg E preview skipped i item report stopped p w of
        (Inl out, p1, w1) \<Rightarrow> (out, p1, w1)
      | (Inr (report1, stopped1), p1, w1) \<Rightarrow>
          execute_items dbg E preview skipped (Suc i) rest report1 stopped1 p1 w1)"

section \<open>The session\<close>

text \<open>The part before the first publication: validation and the planned record.\<close>

definition session_report ::
  "(bytes \<Rightarrow> bytes) \<Rightarrow> 'w exec_env \<Rightarrow> plan \<Rightarrow> approval \<Rightarrow> policy_context option \<Rightarrow> planner \<Rightarrow> 'w
     \<Rightarrow> (rejection list \<times> exec_report) io_result \<times> planner \<times> 'w" where
  "session_report dbg E preview appr policy p w =
     (if \<not> native_contract (pl_contract preview)
      then (Inl (invalid ''model-only approval cannot authorize native execution''), p, w)
      else case planner_validate (xe_env E) preview appr p w of
        (Inl e, p1, w1) \<Rightarrow> (Inl (model_error dbg e), p1, w1)
      | (Inr validated, p1, w1) \<Rightarrow>
      (case now_ms E w1 of
        (Inl e, w2) \<Rightarrow> (Inl e, p1, w2)
      | (Inr now, w2) \<Rightarrow>
      (case traverse (planned_row dbg (xe_journal_path E) now) (pl_items preview) of
        Inl e \<Rightarrow> (Inl e, p1, w2)
      | Inr rows \<Rightarrow>
      (case xe_new_id E w2 of
        (Inl e, w3) \<Rightarrow> (Inl e, p1, w3)
      | (Inr oid, w3) \<Rightarrow>
          (Inr (vr_skipped validated,
             \<lparr>er_record = initial_record (xe_journal_path E) policy preview oid now rows,
              er_journal_error = None\<rparr>), p1, w3)))))"

definition execute_with_clean_policy ::
  "(bytes \<Rightarrow> bytes) \<Rightarrow> 'w exec_env \<Rightarrow> plan \<Rightarrow> approval \<Rightarrow> policy_context option \<Rightarrow> planner \<Rightarrow> 'w
     \<Rightarrow> exec_report io_result \<times> planner \<times> 'w" where
  "execute_with_clean_policy dbg E preview appr policy p w =
     (case session_report dbg E preview appr policy p w of
        (Inl e, p1, w1) \<Rightarrow> (Inl e, p1, w1)
      | (Inr (skipped, report), p1, w1) \<Rightarrow>
          (case xe_publish E (er_record report) True w1 of
             (published, w2) \<Rightarrow>
               (case rbind published require_clean of
                  Inl e \<Rightarrow> (Inl e, p1, w2)
                | Inr _ \<Rightarrow>
                    execute_items dbg E preview skipped 0 (pl_items preview) report False p1 w2)))"

text \<open>\<open>Session::execute\<close> passes no policy and no guard.\<close>

definition execute ::
  "(bytes \<Rightarrow> bytes) \<Rightarrow> 'w exec_env \<Rightarrow> plan \<Rightarrow> approval \<Rightarrow> planner \<Rightarrow> 'w
     \<Rightarrow> exec_report io_result \<times> planner \<times> 'w" where
  "execute dbg E preview appr p w =
     execute_with_clean_policy dbg (E\<lparr>xe_guard := None\<rparr>) preview appr None p w"

end
