(* ===== verification/Execute_Protocol.thy ===== *)
theory Execute_Protocol
  imports Execute
begin

text \<open>
  The contract of an execution as a protocol over what can be seen from outside: the records
  handed to the journal, the decisions of the guard, the native calls and their outcomes. An
  environment is observed by \<open>logged\<close>, which runs it unchanged and keeps the events; the
  protocol is a deterministic monitor over the events; the simulation shows that every run of the
  session is accepted.
\<close>

section \<open>Events\<close>

datatype event =
    EvPublish journal_record bool "publication io_result"
  | EvGuard guard_point path "guard_decision io_result"
  | EvCall path
  | EvReturn path effect

text \<open>\<open>logged E\<close>: the environment \<open>E\<close> with the list of its events beside its state.\<close>

definition unlogged :: "('w \<Rightarrow> 'a \<times> 'w) \<Rightarrow> 'w \<times> event list \<Rightarrow> 'a \<times> 'w \<times> event list" where
  "unlogged f s = (case f (fst s) of (x, w') \<Rightarrow> (x, w', snd s))"

definition with_event ::
  "('a \<Rightarrow> event) \<Rightarrow> ('w \<Rightarrow> 'a \<times> 'w) \<Rightarrow> 'w \<times> event list \<Rightarrow> 'a \<times> 'w \<times> event list" where
  "with_event ev f s = (case f (fst s) of (x, w') \<Rightarrow> (x, w', snd s @ [ev x]))"

primrec log_native :: "path \<Rightarrow> 'w native \<Rightarrow> event list \<Rightarrow> ('w \<times> event list) native" where
  "log_native path (Finished e w) l = Finished e (w, l @ [EvReturn path e])"
| "log_native path (AskStop w k) l = AskStop (w, l) (\<lambda>b s. log_native path (k b (fst s)) (snd s))"
| "log_native path (AskGuard w k) l = AskGuard (w, l) (\<lambda>d s. log_native path (k d (fst s)) (snd s))"

definition logged_env :: "'w env \<Rightarrow> ('w \<times> event list) env" where
  "logged_env E = \<lparr>env_now = unlogged (env_now E), env_next_id = unlogged (env_next_id E),
     env_inspect = (\<lambda>sc path. unlogged (env_inspect E sc path)),
     env_cancelled = unlogged (env_cancelled E)\<rparr>"

definition logged :: "'w exec_env \<Rightarrow> ('w \<times> event list) exec_env" where
  "logged E = \<lparr>xe_env = logged_env (xe_env E), xe_journal_path = xe_journal_path E,
     xe_effect = (\<lambda>path s. log_native path (xe_effect E path (fst s)) (snd s @ [EvCall path])),
     xe_new_id = unlogged (xe_new_id E),
     xe_publish = (\<lambda>r b. with_event (EvPublish r b) (xe_publish E r b)),
     xe_wall = unlogged (xe_wall E),
     xe_guard = map_option (\<lambda>g pt path. with_event (EvGuard pt path) (g pt path)) (xe_guard E)\<rparr>"

section \<open>The protocol\<close>

fun outcome_state :: "effect \<Rightarrow> item_state" where
  "outcome_state (Moved dest) = ItemSucceeded"
| "outcome_state (EffectRefused message) = ItemSkipped"
| "outcome_state (EffectFailed message) = ItemFailed"
| "outcome_state (EffectUnknown message evidence) = ItemUnknown"

text \<open>
  \<open>Between i h\<close>: the items before \<open>i\<close> are done; \<open>h\<close>: no native call may follow. \<open>Intent i\<close>: the
  intent to move item \<open>i\<close> is durable. \<open>Cleared\<close> and \<open>Declined\<close>: the guard has answered.
  \<open>Calling\<close>, \<open>Returned\<close>: the native call runs or has returned, with the last answer of the guard.
  \<open>Ended\<close>: a publication did not end cleanly.
\<close>

datatype phase = Between nat bool | Intent nat | Cleared nat | Declined nat
  | Calling nat guard_decision | Returned nat guard_decision effect | Ended

text \<open>A monitor that runs keeps the last record known to be durable.\<close>

datatype monitor = Fresh | Running phase journal_record

definition same_item :: "item_record \<Rightarrow> item_record \<Rightarrow> bool" where
  "same_item a b \<longleftrightarrow> it_path b = it_path a \<and> it_device b = it_device a \<and> it_inode b = it_inode a
     \<and> it_logical_bytes b = it_logical_bytes a \<and> it_rule_binding b = it_rule_binding a"

definition row_change :: "nat \<Rightarrow> journal_record \<Rightarrow> journal_record \<Rightarrow> bool" where
  "row_change i r r' \<longleftrightarrow> i < length (jr_items r)
     \<and> r' = r\<lparr>jr_items := (jr_items r)[i := jr_items r' ! i]\<rparr>
     \<and> same_item (jr_items r ! i) (jr_items r' ! i)"

definition published_to ::
  "publication io_result \<Rightarrow> phase \<Rightarrow> journal_record \<Rightarrow> journal_record \<Rightarrow> monitor" where
  "published_to x ph r r' =
     (case x of
        Inl e \<Rightarrow> Running Ended r
      | Inr pub \<Rightarrow> Running (if cleanup_error pub = None then ph else Ended) r')"

fun records_effect :: "(path \<Rightarrow> native_path) \<Rightarrow> effect \<Rightarrow> item_record \<Rightarrow> bool" where
  "records_effect jp (Moved dest) row \<longleftrightarrow>
     it_state row = ItemSucceeded \<and> it_destination row = Some (jp dest)"
| "records_effect jp e row \<longleftrightarrow> it_state row = outcome_state e"

definition fresh_record :: "(path \<Rightarrow> native_path) \<Rightarrow> path list \<Rightarrow> journal_record \<Rightarrow> bool" where
  "fresh_record jp ps r \<longleftrightarrow>
     list_all2 (\<lambda>p row. it_path row = jp p \<and> it_state row = ItemPlanned) ps (jr_items r)
     \<and> jr_empty_trash_context r = None \<and> jr_runtime_context r = None"

fun mon_publish ::
  "(nat \<Rightarrow> bool) \<Rightarrow> (path \<Rightarrow> native_path) \<Rightarrow> phase \<Rightarrow> item_record \<Rightarrow> phase option" where
  "mon_publish ready jp (Between i h) row =
     (if it_state row = ItemSkipped then Some (Between (Suc i) h)
      else if it_state row = ItemStarted \<and> \<not> h \<and> ready i then Some (Intent i)
      else None)"
| "mon_publish ready jp (Declined i) row =
     (if it_state row = ItemSkipped then Some (Between (Suc i) True) else None)"
| "mon_publish ready jp (Returned i d e) row =
     (if records_effect jp e row then Some (Between (Suc i) (effect_stops d e)) else None)"
| "mon_publish ready jp _ row = None"

fun phase_index :: "phase \<Rightarrow> nat" where
  "phase_index (Between i h) = i"
| "phase_index (Intent i) = i"
| "phase_index (Cleared i) = i"
| "phase_index (Declined i) = i"
| "phase_index (Calling i d) = i"
| "phase_index (Returned i d e) = i"
| "phase_index Ended = 0"

fun mon_phase :: "bool \<Rightarrow> path list \<Rightarrow> phase \<Rightarrow> event \<Rightarrow> phase option" where
  "mon_phase guarded ps (Intent i) (EvGuard pt p r) =
     (if guarded \<and> pt = AfterStarted \<and> p = ps ! i
      then Some (if resolve_guard_decision r pt = Proceed then Cleared i else Declined i) else None)"
| "mon_phase guarded ps (Intent i) (EvCall p) =
     (if \<not> guarded \<and> p = ps ! i then Some (Calling i Proceed) else None)"
| "mon_phase guarded ps (Cleared i) (EvCall p) =
     (if p = ps ! i then Some (Calling i Proceed) else None)"
| "mon_phase guarded ps (Calling i d) (EvGuard pt p r) =
     (if guarded \<and> pt = LastNative \<and> p = ps ! i
      then Some (Calling i (resolve_guard_decision r pt)) else None)"
| "mon_phase guarded ps (Calling i d) (EvReturn p e) =
     (if p = ps ! i then Some (Returned i d e) else None)"
| "mon_phase guarded ps _ _ = None"

fun mon_step ::
  "bool \<Rightarrow> (nat \<Rightarrow> bool) \<Rightarrow> (path \<Rightarrow> native_path) \<Rightarrow> path list \<Rightarrow> monitor \<Rightarrow> event \<Rightarrow> monitor option" where
  "mon_step guarded ready jp ps Fresh (EvPublish r initial x) =
     (if initial \<and> fresh_record jp ps r then Some (published_to x (Between 0 False) r r) else None)"
| "mon_step guarded ready jp ps (Running ph r) (EvPublish r' initial x) =
     (if \<not> initial \<and> ph \<noteq> Ended \<and> row_change (phase_index ph) r r'
      then map_option (\<lambda>ph'. published_to x ph' r r')
             (mon_publish ready jp ph (jr_items r' ! phase_index ph))
      else None)"
| "mon_step guarded ready jp ps (Running ph r) ev =
     map_option (\<lambda>ph'. Running ph' r) (mon_phase guarded ps ph ev)"
| "mon_step guarded ready jp ps Fresh _ = None"

fun mon_run ::
  "bool \<Rightarrow> (nat \<Rightarrow> bool) \<Rightarrow> (path \<Rightarrow> native_path) \<Rightarrow> path list \<Rightarrow> monitor \<Rightarrow> event list
     \<Rightarrow> monitor option" where
  "mon_run guarded ready jp ps m [] = Some m"
| "mon_run guarded ready jp ps m (ev # l) =
     (case mon_step guarded ready jp ps m ev of
        None \<Rightarrow> None
      | Some m' \<Rightarrow> mon_run guarded ready jp ps m' l)"

lemma mon_run_append:
  "mon_run g ready jp ps m (l @ l') =
     (case mon_run g ready jp ps m l of None \<Rightarrow> None | Some m' \<Rightarrow> mon_run g ready jp ps m' l')"
  by (induction l arbitrary: m) (auto split: option.splits)

lemma mon_run_snoc:
  "mon_run g ready jp ps m l = Some m' \<Longrightarrow>
     mon_run g ready jp ps m (l @ [ev]) = mon_step g ready jp ps m' ev"
  by (simp add: mon_run_append split: option.splits)

lemma mon_run_prefix:
  "mon_run g ready jp ps m (l @ l') = Some m'' \<Longrightarrow> \<exists>m'. mon_run g ready jp ps m l = Some m'"
  by (simp add: mon_run_append split: option.splits)

section \<open>Runs are accepted\<close>

definition monitored ::
  "'w exec_env \<Rightarrow> (nat \<Rightarrow> bool) \<Rightarrow> path list \<Rightarrow> event list \<Rightarrow> monitor \<Rightarrow> bool" where
  "monitored E ready ps l m \<longleftrightarrow>
     mon_run (xe_guard E \<noteq> None) ready (xe_journal_path E) ps Fresh l = Some m"

lemma monitored_step:
  "monitored E ready ps l m \<Longrightarrow>
   mon_step (xe_guard E \<noteq> None) ready (xe_journal_path E) ps m ev = Some m' \<Longrightarrow>
   monitored E ready ps (l @ [ev]) m'"
  by (simp add: monitored_def mon_run_append)

text \<open>What the end of a run says of its report: every item ended, and what it calls succeeded or
  failed is durable; without a journal error the whole record is.\<close>

definition reported ::
  "'w exec_env \<Rightarrow> (nat \<Rightarrow> bool) \<Rightarrow> path list \<Rightarrow> event list \<Rightarrow> exec_report \<Rightarrow> bool" where
  "reported E ready ps l rep \<longleftrightarrow>
     (\<exists>ph r. monitored E ready ps l (Running ph r)
        \<and> length (jr_items (er_record rep)) = length ps
        \<and> (\<forall>j < length ps. terminal_state (it_state (jr_items (er_record rep) ! j))
             \<and> (it_state (jr_items (er_record rep) ! j) \<in> {ItemSucceeded, ItemFailed} \<longrightarrow>
                  jr_items r ! j = jr_items (er_record rep) ! j))
        \<and> (er_journal_error rep = None \<longrightarrow> r = er_record rep))"

text \<open>A run may also leave with an error and no report.\<close>

definition left ::
  "'w exec_env \<Rightarrow> (nat \<Rightarrow> bool) \<Rightarrow> path list \<Rightarrow> event list \<Rightarrow> exec_report io_result \<Rightarrow> bool" where
  "left E ready ps l out \<longleftrightarrow>
     (case out of
        Inl e \<Rightarrow> (\<exists>m. monitored E ready ps l m)
      | Inr rep \<Rightarrow> reported E ready ps l rep)"

text \<open>The state of a run before item \<open>i\<close>, and once item \<open>i\<close> is decided but not published.\<close>

definition before_item ::
  "'w exec_env \<Rightarrow> (nat \<Rightarrow> bool) \<Rightarrow> path list \<Rightarrow> nat \<Rightarrow> event list \<Rightarrow> exec_report \<Rightarrow> bool \<Rightarrow> bool" where
  "before_item E ready ps i l rep h \<longleftrightarrow>
     monitored E ready ps l (Running (Between i h) (er_record rep)) \<and> er_journal_error rep = None
     \<and> length (jr_items (er_record rep)) = length ps
     \<and> (\<forall>j < i. terminal_state (it_state (jr_items (er_record rep) ! j)))"

definition decided_item ::
  "'w exec_env \<Rightarrow> (nat \<Rightarrow> bool) \<Rightarrow> path list \<Rightarrow> nat \<Rightarrow> event list \<Rightarrow> exec_report \<Rightarrow> bool \<Rightarrow> bool" where
  "decided_item E ready ps i l rep h \<longleftrightarrow>
     (\<exists>ph r. monitored E ready ps l (Running ph r) \<and> ph \<noteq> Ended \<and> phase_index ph = i
        \<and> row_change i r (er_record rep)
        \<and> mon_publish ready (xe_journal_path E) ph (jr_items (er_record rep) ! i) = Some (Between (Suc i) h)
        \<and> er_journal_error rep = None \<and> length (jr_items r) = length ps
        \<and> (\<forall>j < i. terminal_state (it_state (jr_items r ! j)))
        \<and> terminal_state (it_state (jr_items (er_record rep) ! i)))"

section \<open>Changing one row\<close>

lemma same_item_refl [simp]: "same_item a a"
  by (simp add: same_item_def)

lemma same_item_trans: "same_item a b \<Longrightarrow> same_item b c \<Longrightarrow> same_item a c"
  by (simp add: same_item_def)

lemma with_row_items [simp]:
  "jr_items (er_record (with_row i f rep)) = (jr_items (er_record rep))[i := f (jr_items (er_record rep) ! i)]"
  "er_journal_error (with_row i f rep) = er_journal_error rep"
  by (simp_all add: with_row_def Let_def)

lemma with_row_record:
  "er_record (with_row i f rep) =
     (er_record rep)\<lparr>jr_items := (jr_items (er_record rep))[i := f (jr_items (er_record rep) ! i)]\<rparr>"
  by (simp add: with_row_def Let_def)

lemma stop_items [simp]:
  "length (jr_items (er_record (stop_for_journal_error i e rep))) = length (jr_items (er_record rep))"
  "er_journal_error (stop_for_journal_error i e rep) = Some (io_display e)"
  by (simp_all add: stop_for_journal_error_def Let_def)

lemma stop_items_nth:
  "j < length (jr_items (er_record rep)) \<Longrightarrow>
     jr_items (er_record (stop_for_journal_error i e rep)) ! j =
       (if j \<le> i then jr_items (er_record rep) ! j
        else (jr_items (er_record rep) ! j)
          \<lparr>it_state := ItemSkipped, it_reason := Some ''stopped_after_journal_failure''\<rparr>)"
  by (auto simp: stop_for_journal_error_def Let_def nth_append min_def)

lemma row_change_with_row:
  assumes "row_change i r (er_record rep)"
    and "\<And>row. same_item row (f row)"
  shows "row_change i r (er_record (with_row i f rep))"
proof -
  have r: "er_record rep = r\<lparr>jr_items := (jr_items r)[i := jr_items (er_record rep) ! i]\<rparr>"
    and i: "i < length (jr_items r)" and s: "same_item (jr_items r ! i) (jr_items (er_record rep) ! i)"
    using assms(1) by (simp_all add: row_change_def)
  have n: "jr_items (er_record rep) = (jr_items r)[i := jr_items (er_record rep) ! i]"
    by (subst r) simp
  let ?row = "f (jr_items (er_record rep) ! i)"
  have "er_record (with_row i f rep) = r\<lparr>jr_items := (jr_items r)[i := ?row]\<rparr>"
    unfolding with_row_record by (subst (1 2) r) (simp, subst n, simp)
  then show ?thesis
    using i same_item_trans [OF s assms(2)] by (simp add: row_change_def)
qed

lemma row_change_first:
  "i < length (jr_items (er_record rep)) \<Longrightarrow> (\<And>row. same_item row (f row)) \<Longrightarrow>
     row_change i (er_record rep) (er_record (with_row i f rep))"
  by (rule row_change_with_row) (simp_all add: row_change_def)

lemma row_change_items:
  "row_change i r r' \<Longrightarrow> length (jr_items r') = length (jr_items r)"
  "row_change i r r' \<Longrightarrow> j \<noteq> i \<Longrightarrow> jr_items r' ! j = jr_items r ! j"
  unfolding row_change_def
  by (metis (no_types, lifting) journal_record.select_convs(16) journal_record.surjective
      journal_record.update_convs(16) length_list_update)
     (metis (no_types, lifting) journal_record.select_convs(16) journal_record.surjective
      journal_record.update_convs(16) nth_list_update_neq)

lemma mon_publish_row:
  "it_state row' = it_state row \<Longrightarrow> it_destination row' = it_destination row \<Longrightarrow>
     mon_publish ready jp ph row' = mon_publish ready jp ph row"
proof (cases ph)
  case (Returned i d e)
  assume "it_state row' = it_state row" "it_destination row' = it_destination row"
  then show ?thesis unfolding Returned by (cases e) auto
qed auto

lemma effect_row_same_item: "same_item row (effect_row jp s e row)"
  by (cases e) (simp_all add: same_item_def)

lemma effect_row_records: "records_effect jp e (effect_row jp s e row)"
  by (cases e) simp_all

lemma effect_row_terminal: "terminal_state (it_state (effect_row jp s e row))"
  by (cases e) (simp_all add: terminal_state_def)

section \<open>Observed environments\<close>

text \<open>
  The interface between a run and its events: \<open>lg\<close> reads the events from the state of the
  world. The journal, the guard and the native calls add one event each; the clocks, the probe,
  the cancellation flag and the identifiers add none.
\<close>

primrec native_logs :: "('w \<Rightarrow> event list) \<Rightarrow> path \<Rightarrow> 'w native \<Rightarrow> event list \<Rightarrow> bool" where
  "native_logs lg path (Finished e w) l \<longleftrightarrow> lg w = l @ [EvReturn path e]"
| "native_logs lg path (AskStop w k) l \<longleftrightarrow>
     lg w = l \<and> (\<forall>b w'. native_logs lg path (k b w') (lg w'))"
| "native_logs lg path (AskGuard w k) l \<longleftrightarrow>
     lg w = l \<and> (\<forall>d w'. native_logs lg path (k d w') (lg w'))"

locale observed =
  fixes E :: "'w exec_env" and lg :: "'w \<Rightarrow> event list"
  assumes clock: "env_now (xe_env E) w = (t, w') \<Longrightarrow> lg w' = lg w"
    and cancellation: "env_cancelled (xe_env E) w = (b, w') \<Longrightarrow> lg w' = lg w"
    and probe: "env_inspect (xe_env E) sc path w = (s, w') \<Longrightarrow> lg w' = lg w"
    and wall: "xe_wall E w = (t, w') \<Longrightarrow> lg w' = lg w"
    and new_id: "xe_new_id E w = (oid, w') \<Longrightarrow> lg w' = lg w"
    and publish: "xe_publish E r initial w = (x, w') \<Longrightarrow> lg w' = lg w @ [EvPublish r initial x]"
    and guard: "xe_guard E = Some g \<Longrightarrow> g pt path w = (d, w') \<Longrightarrow> lg w' = lg w @ [EvGuard pt path d]"
    and native: "native_logs lg path (xe_effect E path w) (lg w @ [EvCall path])"
begin

lemma stop_silent: "preflight_stop (xe_env E) preview p w = (s, p', w') \<Longrightarrow> lg w' = lg w"
  by (auto simp: preflight_stop_def planner_time_def split: prod.splits bool.splits sum.splits if_splits
      dest!: clock cancellation)

lemma item_silent: "preflight_item (xe_env E) preview item p w = (v, p', w') \<Longrightarrow> lg w' = lg w"
  by (auto simp: preflight_item_def Let_def split: prod.splits option.splits sum.splits if_splits
      dest!: stop_silent probe)

lemma items_silent: "preflight_items (xe_env E) preview is p w = (v, p', w') \<Longrightarrow> lg w' = lg w"
proof (induction "is" arbitrary: p w v p' w')
  case (Cons i "is")
  then show ?case by (auto split: prod.splits dest!: item_silent)
qed simp

lemma validate_silent: "planner_validate (xe_env E) preview appr p w = (v, p', w') \<Longrightarrow> lg w' = lg w"
  by (auto simp: planner_validate_def planner_time_def split: prod.splits sum.splits option.splits if_splits
      dest!: clock items_silent)

lemma now_silent: "now_ms E w = (r, w') \<Longrightarrow> lg w' = lg w"
  by (auto simp: now_ms_def split: prod.splits dest!: wall)

lemma run_native_logs:
  assumes "native_logs lg path n l" and "path = ps ! i"
    and "monitored E ready ps l (Running (Calling i (cb_guard_result c)) r)"
    and "run_native (stop_callback E preview) (guard_callback E path) n c = (e, c', w')"
  shows "monitored E ready ps (lg w') (Running (Returned i (cb_guard_result c') e) r)"
  using assms(1,3,4)
proof (induction n arbitrary: l c rule: native_induct)
  case (Finished e0 w0)
  then show ?case
    using monitored_step [OF Finished.prems(2), of "EvReturn path e"] assms(2) by auto
next
  case (AskStop w0 k)
  obtain b c1 w1 where s: "stop_callback E preview c w0 = (b, c1, w1)" by (metis prod_cases3)
  have "lg w1 = l" "cb_guard_result c1 = cb_guard_result c"
    using s AskStop.prems(1) by (auto simp: stop_callback_def split: prod.splits dest!: stop_silent)
  moreover have "native_logs lg path (k b w1) (lg w1)" using AskStop.prems(1) by simp
  moreover have "run_native (stop_callback E preview) (guard_callback E path) (k b w1) c1 = (e, c', w')"
    using AskStop.prems(3) s by simp
  ultimately show ?case using AskStop.IH AskStop.prems(2) by metis
next
  case (AskGuard w0 k)
  obtain d c1 w1 where s: "guard_callback E path c w0 = (d, c1, w1)" by (metis prod_cases3)
  have m: "monitored E ready ps (lg w1) (Running (Calling i (cb_guard_result c1)) r)"
  proof (cases "xe_guard E")
    case None
    then show ?thesis using s AskGuard.prems(1,2) by (auto simp: guard_callback_def)
  next
    case (Some g)
    obtain x where x: "g LastNative path w0 = (x, w1)" and d: "d = resolve_guard_decision x LastNative"
      and c1: "cb_guard_result c1 = d"
      using s Some by (auto simp: guard_callback_def Let_def split: prod.splits)
    have "lg w1 = l @ [EvGuard LastNative path x]" using guard [OF Some x] AskGuard.prems(1) by simp
    then show ?thesis
      using monitored_step [OF AskGuard.prems(2), of "EvGuard LastNative path x"] Some assms(2) c1 d by auto
  qed
  have "native_logs lg path (k d w1) (lg w1)" using AskGuard.prems(1) by simp
  moreover have "run_native (stop_callback E preview) (guard_callback E path) (k d w1) c1 = (e, c', w')"
    using AskGuard.prems(3) s by simp
  ultimately show ?case using AskGuard.IH m by metis
qed

text \<open>The native call of item \<open>i\<close>, its intent being durable and the guard, if any, having
  agreed.\<close>

lemma native_item_decides:
  assumes m: "monitored E ready ps (lg w) (Running ph (er_record rep))"
    and ph: "ph = Cleared i \<or> (ph = Intent i \<and> xe_guard E = None)"
    and path: "path = ps ! i" and i: "i < length ps"
    and len: "length (jr_items (er_record rep)) = length ps" and err: "er_journal_error rep = None"
    and ended: "\<forall>j < i. terminal_state (it_state (jr_items (er_record rep) ! j))"
    and run: "native_item E preview i path rep p w = ((rep', h), p', w')"
  shows "decided_item E ready ps i (lg w') rep' h"
proof -
  let ?c = "\<lparr>cb_planner = p, cb_final_stop = None, cb_guard_result = Proceed\<rparr>"
  obtain e c' where r: "run_native (stop_callback E preview) (guard_callback E path) (xe_effect E path w) ?c
      = (e, c', w')"
    and rep': "rep' = with_row i (effect_row (xe_journal_path E) (cb_final_stop c') e) rep"
    and h: "h = effect_stops (cb_guard_result c') e"
    using run by (auto simp: native_item_def split: prod.splits)
  have "monitored E ready ps (lg w @ [EvCall path]) (Running (Calling i (cb_guard_result ?c)) (er_record rep))"
    using monitored_step [OF m, of "EvCall path"] ph path by auto
  from run_native_logs [OF native path this r]
  have "monitored E ready ps (lg w') (Running (Returned i (cb_guard_result c') e) (er_record rep))" .
  moreover have "row_change i (er_record rep) (er_record rep')"
    unfolding rep' using i len by (intro row_change_first) (simp_all add: effect_row_same_item)
  moreover have "jr_items (er_record rep') ! i
      = effect_row (xe_journal_path E) (cb_final_stop c') e (jr_items (er_record rep) ! i)"
    using i len by (simp add: rep')
  ultimately show ?thesis
    unfolding decided_item_def
    using h len ended err i
    by (intro exI [of _ "Returned i (cb_guard_result c') e"] exI [of _ "er_record rep"])
      (simp add: effect_row_records effect_row_terminal rep')
qed

lemma guarded_item_decides:
  assumes m: "monitored E ready ps (lg w) (Running (Intent i) (er_record rep))"
    and path: "path = ps ! i" and i: "i < length ps"
    and len: "length (jr_items (er_record rep)) = length ps" and err: "er_journal_error rep = None"
    and ended: "\<forall>j < i. terminal_state (it_state (jr_items (er_record rep) ! j))"
    and run: "guarded_item E preview i path rep p w = ((rep', h), p', w')"
  shows "decided_item E ready ps i (lg w') rep' h"
proof (cases "xe_guard E")
  case None
  then show ?thesis using native_item_decides [OF m _ path i len err ended] run
    by (simp add: guarded_item_def)
next
  case (Some g)
  obtain x w1 where x: "g AfterStarted path w = (x, w1)" by fastforce
  have lg1: "lg w1 = lg w @ [EvGuard AfterStarted path x]" by (rule guard [OF Some x])
  show ?thesis
  proof (cases "resolve_guard_decision x AfterStarted")
    case Proceed
    have "monitored E ready ps (lg w1) (Running (Cleared i) (er_record rep))"
      using monitored_step [OF m, of "EvGuard AfterStarted path x"] Some Proceed path by (simp add: lg1)
    from native_item_decides [OF this _ path i len err ended] show ?thesis
      using run Some x Proceed by (simp add: guarded_item_def)
  next
    case (GuardRefused reason)
    let ?f = "\<lambda>row. row\<lparr>it_state := ItemSkipped, it_reason := Some (reason @ ''; no_native_call''),
      it_destination := None\<rparr>"
    have r: "rep' = with_row i ?f rep" "h = True" "w' = w1"
      using run Some x GuardRefused by (simp_all add: guarded_item_def)
    have "monitored E ready ps (lg w1) (Running (Declined i) (er_record rep))"
      using monitored_step [OF m, of "EvGuard AfterStarted path x"] Some GuardRefused path
      by (simp add: lg1)
    moreover have "row_change i (er_record rep) (er_record rep')"
      unfolding r using i len by (intro row_change_first) (simp_all add: same_item_def)
    ultimately show ?thesis
      unfolding decided_item_def
      using len ended err i
      by (intro exI [of _ "Declined i"] exI [of _ "er_record rep"]) (simp add: r terminal_state_def)
  qed
qed

end

section \<open>Items and sessions\<close>

lemma require_clean_iff [simp]: "require_clean pub = Inr () \<longleftrightarrow> cleanup_error pub = None"
  by (simp add: require_clean_def split: option.splits)

text \<open>A report that stops at item \<open>i\<close> because of the journal.\<close>

lemma reported_stop:
  assumes m: "monitored E ready ps l (Running ph r)"
    and len: "length (jr_items (er_record rep)) = length ps" and i: "i < length ps"
    and before: "\<And>j. j < i \<Longrightarrow> terminal_state (it_state (jr_items (er_record rep) ! j))
        \<and> jr_items r ! j = jr_items (er_record rep) ! j"
    and here: "terminal_state (it_state (jr_items (er_record rep) ! i))"
      "it_state (jr_items (er_record rep) ! i) \<in> {ItemSucceeded, ItemFailed} \<Longrightarrow>
         jr_items r ! i = jr_items (er_record rep) ! i"
  shows "reported E ready ps l (stop_for_journal_error i e rep)"
proof -
  let ?rep = "stop_for_journal_error i e rep"
  have "terminal_state (it_state (jr_items (er_record ?rep) ! j))
      \<and> (it_state (jr_items (er_record ?rep) ! j) \<in> {ItemSucceeded, ItemFailed} \<longrightarrow>
          jr_items r ! j = jr_items (er_record ?rep) ! j)" if j: "j < length ps" for j
  proof -
    have n: "jr_items (er_record ?rep) ! j = (if j \<le> i then jr_items (er_record rep) ! j
        else (jr_items (er_record rep) ! j)
          \<lparr>it_state := ItemSkipped, it_reason := Some ''stopped_after_journal_failure''\<rparr>)"
      using stop_items_nth [of j rep i e] j len by simp
    consider "j < i" | "j = i" | "i < j" by linarith
    then show ?thesis
    proof cases
      case 1
      then show ?thesis using before n by simp
    next
      case 2
      then show ?thesis using here n by simp
    next
      case 3
      then show ?thesis using n by (simp add: terminal_state_def)
    qed
  qed
  then show ?thesis unfolding reported_def using m len by (intro exI [of _ ph] exI [of _ r]) simp
qed

context observed
begin

lemma confirmed_item_protocol:
  assumes d: "decided_item E ready ps i (lg w) rep h"
    and run: "confirmed_item E i rep w = (res, w')"
  shows "case res of Inl out \<Rightarrow> left E ready ps (lg w') out
    | Inr rep' \<Rightarrow> before_item E ready ps (Suc i) (lg w') rep' h"
proof -
  let ?jp = "xe_journal_path E"
  from d obtain ph r where m: "monitored E ready ps (lg w) (Running ph r)" and ph: "ph \<noteq> Ended"
    "phase_index ph = i" and change: "row_change i r (er_record rep)"
    and pub: "mon_publish ready ?jp ph (jr_items (er_record rep) ! i) = Some (Between (Suc i) h)"
    and err: "er_journal_error rep = None" and len: "length (jr_items r) = length ps"
    and before: "\<forall>j < i. terminal_state (it_state (jr_items r ! j))"
    and here: "terminal_state (it_state (jr_items (er_record rep) ! i))"
    unfolding decided_item_def by blast
  have i: "i < length ps" using change len by (simp add: row_change_def)
  note items = row_change_items [OF change]
  obtain t w1 where t: "now_ms E w = (t, w1)" by fastforce
  have lg1: "lg w1 = lg w" by (rule now_silent [OF t])
  show ?thesis
  proof (cases t)
    case (Inl e)
    let ?f = "\<lambda>row. (if it_state row \<in> {ItemSucceeded, ItemFailed} then row\<lparr>it_state := ItemUnknown\<rparr> else row)
                \<lparr>it_reason := Some (''outcome timestamp unavailable: '' @ io_display e)\<rparr>"
    have "reported E ready ps (lg w1) (stop_for_journal_error i e (with_row i ?f rep))"
      unfolding lg1
      by (rule reported_stop [OF m]) (use i len items before here in \<open>auto simp: terminal_state_def\<close>)
    then show ?thesis using run t Inl by (auto simp: confirmed_item_def left_def)
  next
    case (Inr now)
    let ?rep1 = "with_row i (\<lambda>row. row\<lparr>it_updated_unix_ms := now\<rparr>) rep"
    have change1: "row_change i r (er_record ?rep1)"
      by (rule row_change_with_row [OF change]) (simp add: same_item_def)
    note items1 = row_change_items [OF change1]
    have row: "jr_items (er_record ?rep1) ! i = (jr_items (er_record rep) ! i)\<lparr>it_updated_unix_ms := now\<rparr>"
      using i len items by simp
    have pub1: "mon_publish ready ?jp ph (jr_items (er_record ?rep1) ! i) = Some (Between (Suc i) h)"
      unfolding row by (subst mon_publish_row [where row = "jr_items (er_record rep) ! i"]) (simp_all add: pub)
    obtain x w2 where x: "xe_publish E (er_record ?rep1) False w1 = (x, w2)" by fastforce
    have "lg w2 = lg w @ [EvPublish (er_record ?rep1) False x]"
      using publish [OF x] lg1 by simp
    then have m2: "monitored E ready ps (lg w2) (published_to x (Between (Suc i) h) r (er_record ?rep1))"
      using monitored_step [OF m, of "EvPublish (er_record ?rep1) False x"] ph change1 pub1 by simp
    have before1: "j < i \<Longrightarrow> terminal_state (it_state (jr_items (er_record ?rep1) ! j))" for j
      using before items1 by simp
    have here1: "terminal_state (it_state (jr_items (er_record ?rep1) ! i))" using here row by simp
    show ?thesis
    proof (cases x)
      case (Inl e)
      let ?f = "\<lambda>row. if it_state row \<noteq> ItemSkipped then row\<lparr>it_state := ItemUnknown,
          it_reason := Some ''native_outcome_not_confirmed_durable''\<rparr> else row"
      have "monitored E ready ps (lg w2) (Running Ended r)" using m2 Inl by (simp add: published_to_def)
      then have "reported E ready ps (lg w2) (stop_for_journal_error i e (with_row i ?f ?rep1))"
        by (rule reported_stop) (use i len items1 before in \<open>auto simp: terminal_state_def\<close>)
      then show ?thesis using run t x \<open>t = Inr now\<close> Inl by (auto simp: confirmed_item_def Let_def left_def)
    next
      case (Inr pub)
      show ?thesis
      proof (cases "cleanup_error pub")
        case None
        then have "before_item E ready ps (Suc i) (lg w2) ?rep1 h"
          unfolding before_item_def
          using m2 Inr err items1(1) len before1 here1 by (auto simp: published_to_def less_Suc_eq)
        then show ?thesis using run t x \<open>t = Inr now\<close> Inr None by (auto simp: confirmed_item_def Let_def)
      next
        case (Some e)
        have "monitored E ready ps (lg w2) (Running Ended (er_record ?rep1))"
          using m2 Inr Some by (simp add: published_to_def)
        then have "reported E ready ps (lg w2) (stop_for_journal_error i e ?rep1)"
          by (rule reported_stop) (use i len items1(1) before1 here1 in auto)
        then show ?thesis using run t x \<open>t = Inr now\<close> Inr Some
          by (auto simp: confirmed_item_def Let_def left_def)
      qed
    qed
  qed
qed

lemma started_item_protocol:
  assumes b: "before_item E ready ps i (lg w) rep False" and i: "i < length ps" and ready: "ready i"
    and path: "path = ps ! i"
    and run: "started_item E preview i path rep p w = (res, p', w')"
  shows "case res of Inl out \<Rightarrow> left E ready ps (lg w') out
    | Inr (rep', h) \<Rightarrow> decided_item E ready ps i (lg w') rep' h"
proof -
  have m: "monitored E ready ps (lg w) (Running (Between i False) (er_record rep))"
    and err: "er_journal_error rep = None" and len: "length (jr_items (er_record rep)) = length ps"
    and before: "\<forall>j < i. terminal_state (it_state (jr_items (er_record rep) ! j))"
    using b by (auto simp: before_item_def)
  obtain t w1 where t: "now_ms E w = (t, w1)" by fastforce
  have lg1: "lg w1 = lg w" by (rule now_silent [OF t])
  show ?thesis
  proof (cases t)
    case (Inl e)
    have "left E ready ps (lg w1) (Inl e)" unfolding left_def lg1 using m by auto
    then show ?thesis using run t Inl by (auto simp: started_item_def)
  next
    case (Inr now)
    let ?rep1 = "with_row i (\<lambda>row. row\<lparr>it_state := ItemStarted, it_updated_unix_ms := now\<rparr>) rep"
    have change: "row_change i (er_record rep) (er_record ?rep1)"
      by (rule row_change_first) (simp_all add: i len same_item_def)
    note items = row_change_items [OF change]
    obtain x w2 where x: "xe_publish E (er_record ?rep1) False w1 = (x, w2)" by fastforce
    have "lg w2 = lg w @ [EvPublish (er_record ?rep1) False x]"
      using publish [OF x] lg1 by simp
    then have m2: "monitored E ready ps (lg w2) (published_to x (Intent i) (er_record rep) (er_record ?rep1))"
      using monitored_step [OF m, of "EvPublish (er_record ?rep1) False x"] change ready i len by simp
    show ?thesis
    proof (cases "rbind x require_clean")
      case (Inl e)
      let ?f = "\<lambda>row. row\<lparr>it_state := ItemSkipped,
          it_reason := Some ''intent_publication_incomplete; no_native_call''\<rparr>"
      obtain ph r where m3: "monitored E ready ps (lg w2) (Running ph r)"
        and r: "r = er_record rep \<or> r = er_record ?rep1"
        using m2 by (cases x) (auto simp: published_to_def)
      have "reported E ready ps (lg w2) (stop_for_journal_error i e (with_row i ?f ?rep1))"
        by (rule reported_stop [OF m3]) (use i len before r in \<open>auto simp: terminal_state_def\<close>)
      then show ?thesis using run t x Inr Inl by (auto simp: started_item_def Let_def left_def)
    next
      case c: (Inr u)
      then have "monitored E ready ps (lg w2) (Running (Intent i) (er_record ?rep1))"
        using m2 by (auto simp: published_to_def)
      moreover obtain rep' h w3 q where g: "guarded_item E preview i path ?rep1 p w2 = ((rep', h), q, w3)"
        by (metis prod.exhaust)
      moreover have "\<forall>j < i. terminal_state (it_state (jr_items (er_record ?rep1) ! j))"
        using before items by simp
      ultimately have "decided_item E ready ps i (lg w3) rep' h"
        using guarded_item_decides [of ready ps w2 i ?rep1 path preview p rep' h q w3] path i len err by simp
      then show ?thesis using run t x Inr c g by (auto simp: started_item_def Let_def)
    qed
  qed
qed

lemma acted_item_protocol:
  assumes b: "before_item E ready ps i (lg w) rep h" and i: "i < length ps"
    and ready: "find (\<lambda>s. rej_resource s = item_resource item) skipped = None \<Longrightarrow> ready i"
    and path: "item_path item = ps ! i"
    and run: "acted_item dbg E preview skipped i item rep h p w = (res, p', w')"
  shows "case res of Inl out \<Rightarrow> left E ready ps (lg w') out
    | Inr (rep', h') \<Rightarrow> decided_item E ready ps i (lg w') rep' h'"
proof -
  obtain s p1 w1 where s: "preflight_stop (xe_env E) preview p w = (s, p1, w1)" by (metis prod_cases3)
  have lg1: "lg w1 = lg w" by (rule stop_silent [OF s])
  let ?skip = "find (\<lambda>s. rej_resource s = item_resource item) skipped"
  show ?thesis
  proof (cases "skip_reason dbg s ?skip h")
    case None
    then have "?skip = None" "h = False" by (auto simp: skip_reason_def split: option.splits if_splits)
    then show ?thesis
      using started_item_protocol [of ready ps i w1 rep "item_path item" preview p1 res p' w']
        b lg1 i ready path run s None
      by (simp add: acted_item_def)
  next
    case (Some reason)
    let ?rep1 = "with_row i (\<lambda>row. row\<lparr>it_state := ItemSkipped, it_reason := Some reason\<rparr>) rep"
    have len: "length (jr_items (er_record rep)) = length ps" using b by (simp add: before_item_def)
    have "row_change i (er_record rep) (er_record ?rep1)"
      by (rule row_change_first) (simp_all add: i len same_item_def)
    then have "decided_item E ready ps i (lg w1) ?rep1 h"
      unfolding decided_item_def lg1 using b i len
      by (intro exI [of _ "Between i h"] exI [of _ "er_record rep"]) (simp add: before_item_def terminal_state_def)
    then show ?thesis using run s Some by (auto simp: acted_item_def)
  qed
qed

lemma execute_item_protocol:
  assumes "before_item E ready ps i (lg w) rep h" and "i < length ps"
    and "find (\<lambda>s. rej_resource s = item_resource item) skipped = None \<Longrightarrow> ready i"
    and "item_path item = ps ! i"
    and run: "execute_item dbg E preview skipped i item rep h p w = (res, p', w')"
  shows "case res of Inl out \<Rightarrow> left E ready ps (lg w') out
    | Inr (rep', h') \<Rightarrow> before_item E ready ps (Suc i) (lg w') rep' h'"
proof -
  obtain a p1 w1 where a: "acted_item dbg E preview skipped i item rep h p w = (a, p1, w1)"
    by (metis prod_cases3)
  note act = acted_item_protocol [OF assms(1-4) a]
  show ?thesis
  proof (cases a)
    case (Inl out)
    then show ?thesis using act run a by (auto simp: execute_item_def)
  next
    case (Inr x)
    obtain rep1 h1 where x: "x = (rep1, h1)" by fastforce
    obtain c w2 where c: "confirmed_item E i rep1 w1 = (c, w2)" by fastforce
    have "decided_item E ready ps i (lg w1) rep1 h1" using act Inr x by simp
    from confirmed_item_protocol [OF this c] show ?thesis
      using run a Inr x c by (cases c) (auto simp: execute_item_def)
  qed
qed

lemma execute_items_protocol:
  assumes "before_item E ready ps i (lg w) rep h"
    and "ps = done_paths @ map item_path items" "length done_paths = i"
    and "\<And>k. k < length items \<Longrightarrow>
      find (\<lambda>s. rej_resource s = item_resource (items ! k)) skipped = None \<Longrightarrow> ready (i + k)"
    and "execute_items dbg E preview skipped i items rep h p w = (out, p', w')"
  shows "left E ready ps (lg w') out"
  using assms
proof (induction items arbitrary: i w rep h p done_paths)
  case Nil
  then show ?case
    by (auto simp: before_item_def left_def reported_def intro!: exI [of _ "Between (length ps) h"])
next
  case (Cons item items)
  obtain r p1 w1 where r: "execute_item dbg E preview skipped i item rep h p w = (r, p1, w1)"
    by (metis prod_cases3)
  have at: "i < length ps" "item_path item = ps ! i" using Cons.prems(2,3) by (auto simp: nth_append)
  have "find (\<lambda>s. rej_resource s = item_resource item) skipped = None \<Longrightarrow> ready i"
    using Cons.prems(4) [of 0] by simp
  note step = execute_item_protocol [OF Cons.prems(1) at(1) this at(2) r]
  show ?case
  proof (cases r)
    case (Inl out')
    then show ?thesis using step Cons.prems(5) r by simp
  next
    case (Inr x)
    obtain rep1 h1 where x: "x = (rep1, h1)" by fastforce
    have run: "execute_items dbg E preview skipped (Suc i) items rep1 h1 p1 w1 = (out, p', w')"
      using Cons.prems(5) r Inr x by simp
    have b: "before_item E ready ps (Suc i) (lg w1) rep1 h1" using step Inr x by simp
    have ready: "ready (Suc i + k)" if "k < length items"
      "find (\<lambda>s. rej_resource s = item_resource (items ! k)) skipped = None" for k
      using Cons.prems(4) [of "Suc k"] that by simp
    show ?thesis
      by (rule Cons.IH [OF b _ _ ready run, of "done_paths @ [item_path item]"])
        (use Cons.prems(2,3) in simp_all)
  qed
qed

lemma planned_rows_fresh:
  assumes "traverse (planned_row dbg jp now) items = Inr rows"
  shows "fresh_record jp (map item_path items) (initial_record jp policy preview oid now rows)"
    and "length rows = length items"
proof -
  have l: "list_all2 (\<lambda>item row. planned_row dbg jp now item = Inr row) items rows"
    using assms by simp
  then show "length rows = length items" by (simp add: list_all2_lengthD)
  have "list_all2 (\<lambda>item row. it_path row = jp (item_path item) \<and> it_state row = ItemPlanned) items rows"
    using l by (rule list_all2_mono)
      (auto simp: planned_row_def Let_def ok_or_def split: option.splits file_identity.splits)
  then show "fresh_record jp (map item_path items) (initial_record jp policy preview oid now rows)"
    by (simp add: fresh_record_def initial_record_def list_all2_map1)
qed

end

text \<open>The items a run may act on: those its validation did not skip.\<close>

definition callable :: "'w exec_env \<Rightarrow> plan \<Rightarrow> approval \<Rightarrow> planner \<Rightarrow> 'w \<Rightarrow> nat \<Rightarrow> bool" where
  "callable E preview appr p w i \<longleftrightarrow>
     (case planner_validate (xe_env E) preview appr p w of
        (Inl e, p1, w1) \<Rightarrow> False
      | (Inr v, p1, w1) \<Rightarrow>
          find (\<lambda>s. rej_resource s = item_resource (pl_items preview ! i)) (vr_skipped v) = None)"

context observed
begin

lemma session_report_protocol:
  assumes "session_report dbg E preview appr policy p w = (res, p', w')"
  shows "lg w' = lg w"
    and "res = Inr (skipped, rep) \<Longrightarrow>
      fresh_record (xe_journal_path E) (map item_path (pl_items preview)) (er_record rep)
      \<and> length (jr_items (er_record rep)) = length (pl_items preview) \<and> er_journal_error rep = None
      \<and> (\<exists>v p1 w1. planner_validate (xe_env E) preview appr p w = (Inr v, p1, w1) \<and> skipped = vr_skipped v)"
proof -
  show "lg w' = lg w"
    using assms
    by (auto simp: session_report_def split: if_splits prod.splits sum.splits
        dest!: validate_silent now_silent new_id)
  assume "res = Inr (skipped, rep)"
  then obtain v p1 w1 now rows oid where
    "planner_validate (xe_env E) preview appr p w = (Inr v, p1, w1)" "skipped = vr_skipped v"
    "traverse (planned_row dbg (xe_journal_path E) now) (pl_items preview) = Inr rows"
    "rep = \<lparr>er_record = initial_record (xe_journal_path E) policy preview oid now rows, er_journal_error = None\<rparr>"
    using assms by (auto simp: session_report_def simp del: traverse_Inr
        split: if_splits prod.splits sum.splits)
  then show "fresh_record (xe_journal_path E) (map item_path (pl_items preview)) (er_record rep)
      \<and> length (jr_items (er_record rep)) = length (pl_items preview) \<and> er_journal_error rep = None
      \<and> (\<exists>v p1 w1. planner_validate (xe_env E) preview appr p w = (Inr v, p1, w1) \<and> skipped = vr_skipped v)"
    using planned_rows_fresh by (auto simp: initial_record_def simp del: traverse_Inr)
qed

lemma execute_protocol:
  assumes w: "lg w = []"
    and run: "execute_with_clean_policy dbg E preview appr policy p w = (out, p', w')"
  shows "left E (callable E preview appr p w) (map item_path (pl_items preview)) (lg w') out"
proof -
  let ?ps = "map item_path (pl_items preview)" and ?ready = "callable E preview appr p w"
  have start: "monitored E ?ready ?ps [] Fresh" by (simp add: monitored_def)
  obtain s p1 w1 where s: "session_report dbg E preview appr policy p w = (s, p1, w1)"
    by (metis prod_cases3)
  have l1: "lg w1 = []" using session_report_protocol(1) [OF s] w by simp
  show ?thesis
  proof (cases s)
    case (Inl e)
    then show ?thesis using run s l1 start by (auto simp: execute_with_clean_policy_def left_def)
  next
    case (Inr y)
    obtain skipped rep where y: "y = (skipped, rep)" by fastforce
    obtain x w2 where x: "xe_publish E (er_record rep) True w1 = (x, w2)" by fastforce
    have l2: "lg w2 = [] @ [EvPublish (er_record rep) True x]" using publish [OF x] l1 by simp
    note rep = session_report_protocol(2) [OF s Inr [unfolded y]]
    have m2: "monitored E ?ready ?ps (lg w2) (published_to x (Between 0 False) (er_record rep) (er_record rep))"
      unfolding l2 by (rule monitored_step [OF start]) (simp add: rep)
    show ?thesis
    proof (cases "rbind x require_clean")
      case (Inl e)
      then have "out = Inl e" "w' = w2"
        using run s \<open>s = Inr y\<close> y x by (auto simp: execute_with_clean_policy_def)
      then show ?thesis using m2 by (auto simp: left_def)
    next
      case clean: (Inr u)
      have run2: "execute_items dbg E preview skipped 0 (pl_items preview) rep False p1 w2 = (out, p', w')"
        using run s Inr y x clean by (simp add: execute_with_clean_policy_def)
      have b: "before_item E ?ready ?ps 0 (lg w2) rep False"
        using m2 clean rep by (auto simp: before_item_def published_to_def)
      have ready: "?ready (0 + k)" if "k < length (pl_items preview)"
        "find (\<lambda>s. rej_resource s = item_resource (pl_items preview ! k)) skipped = None" for k
        using that rep by (auto simp: callable_def)
      show ?thesis by (rule execute_items_protocol [OF b _ _ ready run2, of "[]"]) simp_all
    qed
  qed
qed

end

section \<open>Observing does not disturb\<close>

text \<open>Every environment is observed by its log.\<close>

lemma native_logs_log_native: "native_logs snd path (log_native path n l) l"
  by (induction n arbitrary: l rule: native_induct) simp_all

interpretation logged_run: observed "logged E" snd for E :: "'w exec_env"
proof (unfold_locales, goal_cases)
  case (6 r initial w x w')
  then show ?case by (auto simp: logged_def with_event_def split: prod.splits)
next
  case (7 g pt path w d w')
  then show ?case by (auto simp: logged_def with_event_def split: prod.splits)
next
  case (8 path w)
  then show ?case by (simp add: logged_def native_logs_log_native)
qed (auto simp: logged_def logged_env_def unlogged_def split: prod.splits)

end
