(* ===== verification/Execute_Mirror.thy ===== *)
theory Execute_Mirror
  imports Execute_Protocol
begin

text \<open>
  Observing a run does not disturb it: with the events kept beside the world, every operation
  of an execution returns the same result, the same session and the same world.
\<close>

section \<open>Operations\<close>

text \<open>
  A computation over the logged world \<open>mirrors\<close> one over the plain world: same result, same
  session, same world.
\<close>

definition mirrors :: "('w \<times> event list \<Rightarrow> 'a \<times> 'b \<times> 'w \<times> event list) \<Rightarrow> ('w \<Rightarrow> 'a \<times> 'b \<times> 'w) \<Rightarrow> bool" where
  "mirrors f g \<longleftrightarrow> (\<forall>s. fst (f s) = fst (g (fst s)) \<and> fst (snd (f s)) = fst (snd (g (fst s)))
     \<and> fst (snd (snd (f s))) = snd (snd (g (fst s))))"

named_theorems mirror \<open>what the logged run shares with the plain run\<close>

lemma mirrorsD:
  assumes "mirrors f g"
  shows "fst (f s) = fst (g (fst s))" "fst (snd (f s)) = fst (snd (g (fst s)))"
    "fst (snd (snd (f s))) = snd (snd (g (fst s)))"
  using assms by (simp_all add: mirrors_def del: split_paired_All)

lemma mirror_op [mirror]:
  "fst (unlogged f s) = fst (f (fst s))" "fst (snd (unlogged f s)) = snd (f (fst s))"
  "fst (with_event ev f s) = fst (f (fst s))" "fst (snd (with_event ev f s)) = snd (f (fst s))"
  by (simp_all add: unlogged_def with_event_def split_beta)

lemma logged_simps [mirror]:
  "xe_env (logged E) = logged_env (xe_env E)" "xe_journal_path (logged E) = xe_journal_path E"
  "xe_guard (logged E) = map_option (\<lambda>g pt path. with_event (EvGuard pt path) (g pt path)) (xe_guard E)"
  "xe_wall (logged E) = unlogged (xe_wall E)" "xe_new_id (logged E) = unlogged (xe_new_id E)"
  "xe_publish (logged E) r b = with_event (EvPublish r b) (xe_publish E r b)"
  "xe_effect (logged E) path s = log_native path (xe_effect E path (fst s)) (snd s @ [EvCall path])"
  "env_now (logged_env F) = unlogged (env_now F)"
  "env_inspect (logged_env F) sc path = unlogged (env_inspect F sc path)"
  "env_cancelled (logged_env F) = unlogged (env_cancelled F)"
  by (simp_all add: logged_def logged_env_def)

lemma mirrors_time: "mirrors (planner_time (logged_env F) p) (planner_time F p)"
  by (simp add: mirrors_def planner_time_def split_beta mirror split: option.splits)

lemmas mirror_time [mirror] = mirrorsD [OF mirrors_time]

lemma mirrors_stop: "mirrors (preflight_stop (logged_env F) preview p) (preflight_stop F preview p)"
  by (simp add: mirrors_def preflight_stop_def split_beta mirror split: bool.splits sum.splits)

lemmas mirror_stop [mirror] = mirrorsD [OF mirrors_stop]

lemma mirrors_item: "mirrors (preflight_item (logged_env F) preview i p) (preflight_item F preview i p)"
  by (auto simp: mirrors_def preflight_item_def Let_def split_beta mirror split: option.splits sum.splits)

lemmas mirror_item [mirror] = mirrorsD [OF mirrors_item]

lemma mirrors_items: "mirrors (preflight_items (logged_env F) preview is p) (preflight_items F preview is p)"
proof (induction "is" arbitrary: p)
  case (Cons i "is")
  show ?case
    by (simp add: mirrors_def split_beta mirror mirrorsD [OF Cons.IH] split: sum.splits)
qed (simp add: mirrors_def)

lemmas mirror_items [mirror] = mirrorsD [OF mirrors_items]

lemma mirrors_validate:
  "mirrors (planner_validate (logged_env F) preview a p) (planner_validate F preview a p)"
  by (simp add: mirrors_def planner_validate_def split_beta mirror split: option.splits sum.splits)

lemmas mirror_validate [mirror] = mirrorsD [OF mirrors_validate]

lemma mirror_now [mirror]:
  "fst (now_ms (logged E) s) = fst (now_ms E (fst s))"
  "fst (snd (now_ms (logged E) s)) = snd (now_ms E (fst s))"
  by (simp_all add: now_ms_def split_beta mirror)

lemma mirrors_callbacks:
  "mirrors (stop_callback (logged E) preview c) (stop_callback E preview c)"
  "mirrors (guard_callback (logged E) path c) (guard_callback E path c)"
  by (simp_all add: mirrors_def stop_callback_def guard_callback_def Let_def split_beta mirror split: option.splits)

lemmas mirror_callbacks [mirror] = mirrors_callbacks [THEN mirrorsD(1)] mirrors_callbacks [THEN mirrorsD(2)]
  mirrors_callbacks [THEN mirrorsD(3)]

lemma mirrors_native:
  "mirrors (\<lambda>s. run_native (stop_callback (logged E) preview) (guard_callback (logged E) path)
       (log_native path (n (fst s)) (l s)) c)
     (\<lambda>w. run_native (stop_callback E preview) (guard_callback E path) (n w) c)"
proof -
  have "fst f = fst g \<and> fst (snd f) = fst (snd g) \<and> fst (snd (snd f)) = snd (snd g)"
    if "f = run_native (stop_callback (logged E) preview) (guard_callback (logged E) path) (log_native path m l) c"
      "g = run_native (stop_callback E preview) (guard_callback E path) m c" for f g m l
    unfolding that
    by (induction m arbitrary: l c rule: native_induct) (simp_all add: split_beta mirror)
  then show ?thesis by (simp add: mirrors_def del: split_paired_All)
qed

lemma mirrors_native_item: "mirrors (native_item (logged E) preview i path rep p) (native_item E preview i path rep p)"
  using mirrors_native [of E preview path "xe_effect E path" "\<lambda>s. snd s @ [EvCall path]"]
  by (simp add: mirrors_def native_item_def split_beta mirror)

lemmas mirror_native_item [mirror] = mirrorsD [OF mirrors_native_item]

lemma mirrors_guarded: "mirrors (guarded_item (logged E) preview i path rep p) (guarded_item E preview i path rep p)"
  by (simp add: mirrors_def guarded_item_def split_beta mirror split: option.splits guard_decision.splits)

lemmas mirror_guarded [mirror] = mirrorsD [OF mirrors_guarded]

lemma mirrors_started: "mirrors (started_item (logged E) preview i path rep p) (started_item E preview i path rep p)"
  by (simp add: mirrors_def started_item_def Let_def split_beta mirror del: rbind_Inr_iff split: sum.splits)

lemmas mirror_started [mirror] = mirrorsD [OF mirrors_started]

lemma mirror_confirmed [mirror]:
  "fst (confirmed_item (logged E) i rep s) = fst (confirmed_item E i rep (fst s))"
  "fst (snd (confirmed_item (logged E) i rep s)) = snd (confirmed_item E i rep (fst s))"
  by (simp_all add: confirmed_item_def Let_def split_beta mirror split: sum.splits option.splits)

lemma mirrors_acted:
  "mirrors (acted_item dbg (logged E) preview skipped i item rep h p) (acted_item dbg E preview skipped i item rep h p)"
  by (simp add: mirrors_def acted_item_def split_beta mirror split: option.splits)

lemmas mirror_acted [mirror] = mirrorsD [OF mirrors_acted]

lemma mirrors_execute_item:
  "mirrors (execute_item dbg (logged E) preview skipped i item rep h p) (execute_item dbg E preview skipped i item rep h p)"
  by (simp add: mirrors_def execute_item_def split_beta mirror split: sum.splits)

lemmas mirror_execute_item [mirror] = mirrorsD [OF mirrors_execute_item]

lemma mirrors_execute_items:
  "mirrors (execute_items dbg (logged E) preview skipped i items rep h p)
     (execute_items dbg E preview skipped i items rep h p)"
proof (induction items arbitrary: i rep h p)
  case (Cons item items)
  show ?case by (simp add: mirrors_def split_beta mirror mirrorsD [OF Cons.IH] split: sum.splits)
qed (simp add: mirrors_def)

lemmas mirror_execute_items [mirror] = mirrorsD [OF mirrors_execute_items]

lemma mirrors_session_report:
  "mirrors (session_report dbg (logged E) preview appr policy p) (session_report dbg E preview appr policy p)"
  by (simp add: mirrors_def session_report_def split_beta mirror del: traverse_Inr split: sum.splits)

lemmas mirror_session_report [mirror] = mirrorsD [OF mirrors_session_report]

lemma mirrors_execute:
  "mirrors (execute_with_clean_policy dbg (logged E) preview appr policy p)
     (execute_with_clean_policy dbg E preview appr policy p)"
  by (simp add: mirrors_def execute_with_clean_policy_def split_beta mirror del: rbind_Inr_iff split: sum.splits)
end
