(* ===== verification/Execute_Properties.thy ===== *)
theory Execute_Properties
  imports Execute_Mirror Planner_Properties Journal_Properties
begin

text \<open>
  What an execution promises: its events follow the protocol, an interruption at any moment
  leaves a record that accounts for every native call made, the final report tells the truth,
  calls are made at most once, in order, for validated items only, and never after an ambiguous
  outcome.
\<close>

section \<open>What the monitor implies\<close>

text \<open>
  The records that may be on disk after some events: the last record published with success and
  every later one whose publication failed (it may have reached the disk before the failure).
\<close>

fun disk_records :: "event list \<Rightarrow> journal_record list" where
  "disk_records [] = []"
| "disk_records (EvPublish r initial x # l) = r # (if isl x then disk_records l else [])"
| "disk_records (_ # l) = disk_records l"

definition on_disk :: "event list \<Rightarrow> journal_record list" where
  "on_disk l = disk_records (rev l)"

fun calls :: "event list \<Rightarrow> path list" where
  "calls [] = []"
| "calls (EvCall p # l) = p # calls l"
| "calls (_ # l) = calls l"

lemma calls_append [simp]: "calls (l @ l') = calls l @ calls l'"
  by (induction l rule: calls.induct) simp_all

lemma calls_mem: "EvCall p \<in> set l \<longleftrightarrow> p \<in> set (calls l)"
  by (induction l rule: calls.induct) auto

lemma on_disk_Nil [simp]: "on_disk [] = []"
  by (simp add: on_disk_def)

lemma on_disk_snoc [simp]:
  "on_disk (l @ [EvPublish r b x]) = r # (if isl x then on_disk l else [])"
  "on_disk (l @ [EvGuard pt p d]) = on_disk l"
  "on_disk (l @ [EvCall p]) = on_disk l"
  "on_disk (l @ [EvReturn p e]) = on_disk l"
  by (simp_all add: on_disk_def)

text \<open>A row accounts for a call: it says the call may be under way, or what it returned.\<close>

definition accounts :: "(path \<Rightarrow> native_path) \<Rightarrow> event list \<Rightarrow> path \<Rightarrow> item_record \<Rightarrow> bool" where
  "accounts jp l p row \<longleftrightarrow> it_path row = jp p
     \<and> (it_state row = ItemStarted \<or> (\<exists>e. EvReturn p e \<in> set l \<and> records_effect jp e row))"

definition covered ::
  "(path \<Rightarrow> native_path) \<Rightarrow> path list \<Rightarrow> event list \<Rightarrow> nat \<Rightarrow> journal_record \<Rightarrow> bool" where
  "covered jp ps l k r \<longleftrightarrow>
     (\<forall>p \<in> set (calls l). \<exists>j < k. j < length ps \<and> p = ps ! j \<and> accounts jp l p (jr_items r ! j))"

text \<open>What a row claims has happened.\<close>

definition truthful :: "(path \<Rightarrow> native_path) \<Rightarrow> event list \<Rightarrow> path \<Rightarrow> item_record \<Rightarrow> bool" where
  "truthful jp l p row \<longleftrightarrow>
     (it_state row = ItemSucceeded \<longrightarrow>
        (\<exists>dest. EvReturn p (Moved dest) \<in> set l \<and> it_destination row = Some (jp dest)))
     \<and> (it_state row = ItemFailed \<longrightarrow> (\<exists>message. EvReturn p (EffectFailed message) \<in> set l))"

definition sound_record ::
  "(path \<Rightarrow> native_path) \<Rightarrow> path list \<Rightarrow> event list \<Rightarrow> journal_record \<Rightarrow> bool" where
  "sound_record jp ps l r \<longleftrightarrow> length (jr_items r) = length ps
     \<and> (\<forall>j < length ps. it_path (jr_items r ! j) = jp (ps ! j) \<and> truthful jp l (ps ! j) (jr_items r ! j))
     \<and> jr_empty_trash_context r = None \<and> jr_runtime_context r = None"

fun phase_reach :: "nat \<Rightarrow> phase \<Rightarrow> nat" where
  "phase_reach n (Calling i d) = Suc i"
| "phase_reach n (Returned i d e) = Suc i"
| "phase_reach n Ended = n"
| "phase_reach n ph = phase_index ph"

fun phase_facts ::
  "(nat \<Rightarrow> bool) \<Rightarrow> path list \<Rightarrow> event list \<Rightarrow> journal_record \<Rightarrow> phase \<Rightarrow> bool" where
  "phase_facts ready ps l r (Intent i) \<longleftrightarrow>
     i < length ps \<and> ready i \<and> it_state (jr_items r ! i) = ItemStarted"
| "phase_facts ready ps l r (Cleared i) \<longleftrightarrow>
     i < length ps \<and> ready i \<and> it_state (jr_items r ! i) = ItemStarted"
| "phase_facts ready ps l r (Declined i) \<longleftrightarrow> i < length ps"
| "phase_facts ready ps l r (Calling i d) \<longleftrightarrow> i < length ps \<and> it_state (jr_items r ! i) = ItemStarted"
| "phase_facts ready ps l r (Returned i d e) \<longleftrightarrow> i < length ps \<and> EvReturn (ps ! i) e \<in> set l"
| "phase_facts ready ps l r _ \<longleftrightarrow> True"

text \<open>The invariant of the monitor over the events it has accepted.\<close>

definition mon_inv ::
  "(nat \<Rightarrow> bool) \<Rightarrow> (path \<Rightarrow> native_path) \<Rightarrow> path list \<Rightarrow> event list \<Rightarrow> monitor \<Rightarrow> bool" where
  "mon_inv ready jp ps l m \<longleftrightarrow>
     (case m of
        Fresh \<Rightarrow> l = []
      | Running ph r \<Rightarrow>
          r \<in> set (on_disk l) \<and> (ph \<noteq> Ended \<longrightarrow> set (on_disk l) = {r}) \<and> phase_facts ready ps l r ph
          \<and> phase_reach (length ps) ph \<le> length ps
          \<and> subseq (calls l) (map ((!) ps) (filter ready [0..<phase_reach (length ps) ph]))
          \<and> (\<forall>r' \<in> set (on_disk l). sound_record jp ps l r' \<and> covered jp ps l (phase_reach (length ps) ph) r'))"

lemma subseq_reach:
  "i \<le> k \<Longrightarrow> subseq xs (map f (filter P [0..<i])) \<Longrightarrow> subseq xs (map f (filter P [0..<k]))"
proof -
  assume "i \<le> k" "subseq xs (map f (filter P [0..<i]))"
  then have "[0..<k] = [0..<i] @ [i..<k]" by (metis le0 le_add_diff_inverse upt_add_eq_append)
  then show ?thesis using \<open>subseq xs _\<close> by (simp add: list_emb_prefix)
qed

lemma accounts_mono: "accounts jp l p row \<Longrightarrow> set l \<subseteq> set l' \<Longrightarrow> accounts jp l' p row"
  by (auto simp: accounts_def)

lemma covered_mono:
  assumes "covered jp ps l k r" "k \<le> k'" "calls l' = calls l" "set l \<subseteq> set l'"
  shows "covered jp ps l' k' r"
  unfolding covered_def
proof
  fix p assume "p \<in> set (calls l')"
  then obtain j where "j < k" "j < length ps" "p = ps ! j" "accounts jp l p (jr_items r ! j)"
    using assms(1,3) by (auto simp: covered_def)
  then show "\<exists>j < k'. j < length ps \<and> p = ps ! j \<and> accounts jp l' p (jr_items r ! j)"
    using assms(2) accounts_mono [OF _ assms(4)] by (intro exI [of _ j]) simp
qed

lemma sound_record_mono: "sound_record jp ps l r \<Longrightarrow> set l \<subseteq> set l' \<Longrightarrow> sound_record jp ps l' r"
  unfolding sound_record_def truthful_def by blast

lemma mon_publish_reach:
  "mon_publish ready jp ph row = Some ph' \<Longrightarrow> phase_index ph < n \<Longrightarrow>
     phase_reach n ph \<le> phase_reach n ph' \<and> phase_reach n ph' \<le> n \<and> ph' \<noteq> Ended"
  by (cases ph) (auto split: if_splits)

lemma mon_publish_truthful:
  assumes "mon_publish ready jp ph row = Some ph'" and "phase_facts ready ps l r ph"
  shows "truthful jp l (ps ! phase_index ph) row"
proof (cases ph)
  case (Returned i d e)
  then show ?thesis using assms by (cases e) (auto simp: truthful_def split: if_splits)
qed (use assms in \<open>auto simp: truthful_def split: if_splits\<close>)

lemma mon_inv_publish:
  assumes inv: "mon_inv ready jp ps l (Running ph r)" and ph: "ph \<noteq> Ended"
    and change: "row_change (phase_index ph) r r'"
    and pub: "mon_publish ready jp ph (jr_items r' ! phase_index ph) = Some ph'"
  shows "mon_inv ready jp ps (l @ [EvPublish r' False x]) (published_to x ph' r r')"
proof -
  let ?i = "phase_index ph" and ?l = "l @ [EvPublish r' False x]" and ?n = "length ps"
  have disk: "set (on_disk l) = {r}" and facts: "phase_facts ready ps l r ph"
    and sub: "subseq (calls l) (map ((!) ps) (filter ready [0..<phase_reach ?n ph]))"
    and sound: "sound_record jp ps l r" and cov: "covered jp ps l (phase_reach ?n ph) r"
    using inv ph by (auto simp: mon_inv_def)
  have i: "?i < ?n" using change sound by (simp add: row_change_def sound_record_def)
  note reach = mon_publish_reach [OF pub i]
  note items = row_change_items [OF change]
  have r': "r' = r\<lparr>jr_items := (jr_items r)[?i := jr_items r' ! ?i]\<rparr>"
    and same: "same_item (jr_items r ! ?i) (jr_items r' ! ?i)"
    using change by (simp_all add: row_change_def)
  have ctx: "jr_empty_trash_context r' = jr_empty_trash_context r"
    "jr_runtime_context r' = jr_runtime_context r"
    by (subst r', simp)+
  have sound': "sound_record jp ps ?l r'"
    unfolding sound_record_def
  proof (intro conjI allI impI)
    fix j assume j: "j < ?n"
    show "it_path (jr_items r' ! j) = jp (ps ! j)"
      using sound j same items(2) [of j] by (cases "j = ?i") (auto simp: sound_record_def same_item_def)
    show "truthful jp ?l (ps ! j) (jr_items r' ! j)"
    proof (cases "j = ?i")
      case True
      then show ?thesis using mon_publish_truthful [OF pub facts] by (auto simp: truthful_def)
    next
      case False
      then show ?thesis using sound j items(2) by (auto simp: sound_record_def truthful_def)
    qed
  qed (use sound items(1) ctx in \<open>simp_all add: sound_record_def\<close>)
  have cov': "covered jp ps ?l (phase_reach ?n ph') r'"
    unfolding covered_def
  proof
    fix p assume "p \<in> set (calls ?l)"
    then obtain j where j: "j < phase_reach ?n ph" "j < ?n" "p = ps ! j" "accounts jp l p (jr_items r ! j)"
      using cov by (auto simp: covered_def)
    have "accounts jp ?l p (jr_items r' ! j)"
    proof (cases "j = ?i")
      case True
      obtain d e where ph: "ph = Returned ?i d e"
        using j(1) True ph pub by (cases ph) auto
      have "it_path (jr_items r' ! j) = jp p" using sound' j by (simp add: sound_record_def)
      moreover have "EvReturn p e \<in> set l"
        using facts True j(3) by (subst (asm) ph) (auto simp: \<open>p = ps ! j\<close>)
      moreover have "records_effect jp e (jr_items r' ! j)"
        using pub True by (subst (asm) (1) ph) (auto split: if_splits)
      ultimately show ?thesis by (auto simp: accounts_def)
    next
      case False
      then show ?thesis using j(4) items(2) by (auto simp: accounts_def)
    qed
    then show "\<exists>j < phase_reach ?n ph'. j < ?n \<and> p = ps ! j \<and> accounts jp ?l p (jr_items r' ! j)"
      using j reach by (intro exI [of _ j]) simp
  qed
  have sub': "subseq (calls ?l) (map ((!) ps) (filter ready [0..<phase_reach ?n ph']))"
    using subseq_reach [OF reach [THEN conjunct1] sub] by simp
  have facts': "phase_facts ready ps ?l r' ph'"
    using pub i by (cases ph) (auto split: if_splits)
  have old: "sound_record jp ps ?l r" by (rule sound_record_mono [OF sound]) auto
  have old_cov: "covered jp ps ?l ?n r" by (rule covered_mono [OF cov]) (use reach in auto)
  have full: "phase_reach ?n ph' \<le> ?n" using reach by simp
  have cov_full: "covered jp ps ?l ?n r'" by (rule covered_mono [OF cov' full]) simp_all
  show ?thesis
  proof (cases x)
    case (Inl e)
    then show ?thesis
      using disk subseq_reach [OF full sub'] old old_cov sound' cov_full full
      by (simp add: mon_inv_def published_to_def)
  next
    case (Inr y)
    then show ?thesis
      using facts' sub' subseq_reach [OF full sub'] sound' cov' cov_full full
      by (simp add: mon_inv_def published_to_def)
  qed
qed

lemma mon_inv_phase:
  assumes inv: "mon_inv ready jp ps l (Running ph r)" and step: "mon_phase g ps ph ev = Some ph'"
  shows "mon_inv ready jp ps (l @ [ev]) (Running ph' r)"
proof -
  let ?n = "length ps"
  have ph: "ph \<noteq> Ended" using step by (cases ph) auto
  have disk: "set (on_disk l) = {r}" and facts: "phase_facts ready ps l r ph"
    and sub: "subseq (calls l) (map ((!) ps) (filter ready [0..<phase_reach ?n ph]))"
    and sound: "sound_record jp ps l r" and cov: "covered jp ps l (phase_reach ?n ph) r"
    using inv ph by (auto simp: mon_inv_def)
  have sound': "sound_record jp ps (l @ [ev]) r" by (rule sound_record_mono [OF sound]) auto
  have silent: "covered jp ps (l @ [ev]) k r" if "calls [ev] = []" "phase_reach ?n ph \<le> k" for k
    by (rule covered_mono [OF cov that(2)]) (use that(1) in auto)
  have call: "mon_inv ready jp ps (l @ [ev]) (Running ph' r)"
    if ev: "ev = EvCall (ps ! i)" and ph': "ph' = Calling i Proceed" and reach: "phase_reach ?n ph = i"
      and i: "i < ?n" "ready i" "it_state (jr_items r ! i) = ItemStarted" for i
  proof -
    have "covered jp ps (l @ [ev]) (Suc i) r"
      unfolding covered_def
    proof
      fix p assume "p \<in> set (calls (l @ [ev]))"
      then consider "p \<in> set (calls l)" | "p = ps ! i" using ev by auto
      then show "\<exists>j < Suc i. j < ?n \<and> p = ps ! j \<and> accounts jp (l @ [ev]) p (jr_items r ! j)"
      proof cases
        case 1
        then obtain j where "j < i" "j < ?n" "p = ps ! j" "accounts jp l p (jr_items r ! j)"
          using cov reach by (auto simp: covered_def)
        then show ?thesis using accounts_mono [of jp l p _ "l @ [ev]"] by (intro exI [of _ j]) auto
      next
        case 2
        then show ?thesis using i sound by (intro exI [of _ i]) (simp add: accounts_def sound_record_def)
      qed
    qed
    moreover have "subseq (calls (l @ [ev])) (map ((!) ps) (filter ready [0..<Suc i]))"
      using sub reach ev i(2) by (simp add: list_emb_append_mono)
    ultimately show ?thesis using disk sound' i(1,3) by (simp add: mon_inv_def ev ph')
  qed
  show ?thesis
  proof (cases ph)
    case (Intent i)
    then show ?thesis using step facts disk sound' sub call [of i] silent [of i]
      by (cases ev) (auto simp: mon_inv_def split: if_splits)
  next
    case (Cleared i)
    then show ?thesis using step facts disk sound' sub call [of i]
      by (cases ev) (auto simp: mon_inv_def split: if_splits)
  next
    case (Calling i d)
    then show ?thesis using step facts disk sound' sub silent [of "Suc i"]
      by (cases ev) (auto simp: mon_inv_def split: if_splits)
  qed (use step in auto)
qed

lemma mon_inv_run:
  assumes "mon_run g ready jp ps Fresh l = Some m"
  shows "mon_inv ready jp ps l m"
  using assms
proof (induction l arbitrary: m rule: rev_induct)
  case Nil
  then show ?case by (simp add: mon_inv_def)
next
  case (snoc ev l)
  then obtain m0 where m0: "mon_run g ready jp ps Fresh l = Some m0"
    using mon_run_prefix by blast
  have inv: "mon_inv ready jp ps l m0" by (rule snoc.IH [OF m0])
  have step: "mon_step g ready jp ps m0 ev = Some m" using snoc.prems mon_run_snoc [OF m0] by simp
  show ?case
  proof (cases m0)
    case Fresh
    then obtain r x where ev: "ev = EvPublish r True x" and fresh: "fresh_record jp ps r"
      and m: "m = published_to x (Between 0 False) r r"
      using step by (cases ev) (auto split: if_splits)
    have l: "l = []" using inv Fresh by (simp add: mon_inv_def)
    have "sound_record jp ps [ev] r"
      using fresh by (auto simp: fresh_record_def sound_record_def truthful_def list_all2_conv_all_nth)
    then show ?thesis
      using on_disk_snoc(1) [of "[]" r True x]
      by (cases x) (simp_all add: mon_inv_def l m ev published_to_def covered_def)
  next
    case (Running ph r)
    show ?thesis
    proof (cases "\<exists>r' b x. ev = EvPublish r' b x")
      case True
      then show ?thesis using step inv Running by (auto split: if_splits intro: mon_inv_publish)
    next
      case False
      then obtain ph' where "mon_phase g ps ph ev = Some ph'" "m = Running ph' r"
        using step Running by (cases ev) auto
      then show ?thesis using inv Running mon_inv_phase by blast
    qed
  qed
qed

text \<open>Once the monitor is halted no call is accepted.\<close>

fun halted :: "monitor \<Rightarrow> bool" where
  "halted (Running (Between i h) r) \<longleftrightarrow> h"
| "halted (Running (Declined i) r) \<longleftrightarrow> True"
| "halted (Running (Returned i d e) r) \<longleftrightarrow> effect_stops d e"
| "halted (Running Ended r) \<longleftrightarrow> True"
| "halted _ \<longleftrightarrow> False"

lemma halted_step:
  assumes "mon_step g ready jp ps m ev = Some m'" and "halted m"
  shows "halted m' \<and> calls [ev] = []"
  using assms
proof (cases m)
  case (Running ph r)
  then show ?thesis using assms
    by (cases ph; cases ev) (auto simp: published_to_def split: if_splits sum.splits)
qed simp

lemma halted_run:
  "mon_run g ready jp ps m l = Some m' \<Longrightarrow> halted m \<Longrightarrow> calls l = []"
proof (induction l arbitrary: m)
  case (Cons ev l)
  then obtain m1 where m1: "mon_step g ready jp ps m ev = Some m1" "mon_run g ready jp ps m1 l = Some m'"
    by (auto split: option.splits)
  then show ?case using halted_step [OF m1(1) Cons.prems(2)] Cons.IH [OF m1(2)]
    calls_append [of "[ev]" l] by simp
qed simp



section \<open>Runs of the session\<close>

lemma callable_logged: "callable (logged E) preview appr p (w, l) = callable E preview appr p w"
proof -
  have c: "callable F preview appr p v i \<longleftrightarrow>
      (case fst (planner_validate (xe_env F) preview appr p v) of
         Inl e \<Rightarrow> False
       | Inr r \<Rightarrow> find (\<lambda>s. rej_resource s = item_resource (pl_items preview ! i)) (vr_skipped r) = None)"
    for F :: "'b exec_env" and v i
    by (auto simp: callable_def split: prod.splits sum.splits)
  have c': "callable F preview appr p v i \<longleftrightarrow>
      (case fst (planner_validate (xe_env F) preview appr p v) of
         Inl e \<Rightarrow> False
       | Inr r \<Rightarrow> find (\<lambda>s. rej_resource s = item_resource (pl_items preview ! i)) (vr_skipped r) = None)"
    for F :: "('b \<times> event list) exec_env" and v i
    by (auto simp: callable_def split: prod.splits sum.splits)
  show ?thesis by (simp add: fun_eq_iff c c' mirror)
qed

lemma monitored_logged: "monitored (logged E) ready ps l = monitored E ready ps l"
  by (simp add: fun_eq_iff monitored_def mirror)

lemma reported_logged: "reported (logged E) ready ps l rep = reported E ready ps l rep"
  by (simp add: reported_def monitored_logged)

lemma logged_outcome:
  assumes "execute_with_clean_policy dbg (logged E) preview appr policy p (w, []) = (out, p', w', l)"
  shows "left E (callable E preview appr p w) (map item_path (pl_items preview)) l out"
proof -
  have "left (logged E) (callable E preview appr p w) (map item_path (pl_items preview)) l out"
    using logged_run.execute_protocol [OF _ assms] by (simp add: callable_logged mirror)
  then show ?thesis by (cases out) (simp_all add: left_def monitored_logged reported_logged)
qed

lemma left_accepted:
  assumes "left E ready ps l out"
  obtains m where "mon_run (xe_guard E \<noteq> None) ready (xe_journal_path E) ps Fresh l = Some m"
  using assms by (auto simp: left_def reported_def monitored_def split: sum.splits)

lemma mon_run_prefix_inv:
  assumes "mon_run g ready jp ps Fresh (l1 @ l2) = Some m"
  obtains m1 where "mon_inv ready jp ps l1 m1" "mon_run g ready jp ps Fresh l1 = Some m1"
    "mon_run g ready jp ps m1 l2 = Some m"
proof -
  obtain m1 where m1: "mon_run g ready jp ps Fresh l1 = Some m1"
    using mon_run_prefix [OF assms] by blast
  with assms have "mon_run g ready jp ps m1 l2 = Some m" by (simp add: mon_run_append)
  with m1 mon_inv_run [OF m1] that show thesis by blast
qed

lemma reconciled_plain:
  assumes "jr_empty_trash_context r = None" "jr_runtime_context r = None"
  shows "jr_items (reconciled r) = map (reconcile_item (jr_schema_version r)) (jr_items r)"
  using assms by (simp add: reconciled_def Let_def)

lemma mon_inv_crash:
  assumes inv: "mon_inv ready jp ps l m" and r: "r \<in> set (on_disk l)" and p: "EvCall p \<in> set l"
  shows "\<exists>row \<in> set (jr_items (reconciled r)). it_path row = jp p
    \<and> (it_state row = ItemUnknown \<or> (\<exists>e. EvReturn p e \<in> set l \<and> it_state row = outcome_state e))"
proof -
  obtain ph d where m: "m = Running ph d" using inv r by (cases m) (auto simp: mon_inv_def)
  then have sound: "sound_record jp ps l r" and cov: "covered jp ps l (phase_reach (length ps) ph) r"
    using inv r by (auto simp: mon_inv_def)
  then obtain j where j: "j < length ps" "accounts jp l p (jr_items r ! j)"
    using p by (auto simp: covered_def calls_mem)
  let ?row = "jr_items r ! j" and ?row' = "reconcile_item (jr_schema_version r) (jr_items r ! j)"
  have "?row' \<in> set (jr_items (reconciled r))"
    using sound j(1) by (simp add: reconciled_plain sound_record_def)
  moreover have "it_path ?row' = jp p" using j(2) by (simp add: accounts_def reconcile_item_def)
  moreover have "it_state ?row' = ItemUnknown \<or> (\<exists>e. EvReturn p e \<in> set l \<and> it_state ?row' = outcome_state e)"
  proof (cases "it_state ?row = ItemStarted")
    case True
    then show ?thesis by (simp add: reconcile_item_def)
  next
    case False
    then obtain e where e: "EvReturn p e \<in> set l" "records_effect jp e ?row" using j(2) by (auto simp: accounts_def)
    then have "it_state ?row = outcome_state e" by (cases e) auto
    then have "it_state ?row' = outcome_state e" by (cases e) (simp_all add: reconcile_item_def)
    with e(1) show ?thesis by blast
  qed
  ultimately show ?thesis by blast
qed

lemma unskipped_subseq_ready:
  "preflight_items E pl is p w = ((ready, skipped), p', w') \<Longrightarrow> rej_resource ` set skipped \<subseteq> S \<Longrightarrow>
     subseq (filter (\<lambda>i. item_resource i \<notin> S) is) ready"
proof (induction "is" arbitrary: p w ready skipped p' w')
  case (Cons i "is")
  obtain v p1 w1 where v: "preflight_item E pl i p w = (v, p1, w1)" by (metis prod_cases3)
  obtain rd sk p2 w2 where r: "preflight_items E pl is p1 w1 = ((rd, sk), p2, w2)"
    by (metis prod.exhaust)
  show ?case
  proof (cases v)
    case (Inl x)
    have "rej_resource x = item_resource i"
      using v Inl by (auto simp: preflight_item_def Let_def rejection_new_def
          split: prod.splits option.splits sum.splits if_splits)
    moreover have "ready = rd" "skipped = x # sk" using Cons.prems(1) v r Inl by simp_all
    ultimately show ?thesis using Cons.IH [OF r] Cons.prems(2) by auto
  next
    case (Inr j)
    have "j = i" using v Inr by (auto simp: preflight_item_def Let_def
          split: prod.splits option.splits sum.splits if_splits)
    moreover have "ready = j # rd" "skipped = sk" using Cons.prems(1) v r Inr by simp_all
    ultimately show ?thesis using Cons.IH [OF r] Cons.prems(2) by auto
  qed
qed simp

lemma callable_ready:
  assumes "planner_validate (xe_env E) preview appr p w = (Inr v, p1, w1)"
  shows "subseq (map ((!) (map item_path (pl_items preview)))
      (filter (callable E preview appr p w) [0..<length (pl_items preview)]))
    (map item_path (vr_ready v))"
proof -
  let ?S = "rej_resource ` set (vr_skipped v)" and ?items = "pl_items preview"
  have call: "callable E preview appr p w = (\<lambda>i. item_resource (?items ! i) \<notin> ?S)"
    by (auto simp: fun_eq_iff callable_def assms find_None_iff image_iff)
  have "subseq (filter (\<lambda>i. item_resource i \<notin> ?S) ?items) (vr_ready v)"
    using assms by (rule planner_validate_Inr) (auto dest: unskipped_subseq_ready)
  moreover have "map ((!) (map item_path ?items)) (filter (callable E preview appr p w) [0..<length ?items])
      = map item_path (filter (\<lambda>i. item_resource i \<notin> ?S) ?items)"
    (is "?lhs = _")
  proof -
    have "?lhs = map (item_path \<circ> (!) ?items) (filter (callable E preview appr p w) [0..<length ?items])"
      by (auto intro: map_cong)
    also have "\<dots> = map item_path (map ((!) ?items) (filter ((\<lambda>i. item_resource i \<notin> ?S) \<circ> (!) ?items) [0..<length ?items]))"
      by (simp add: call comp_def)
    also have "\<dots> = map item_path (filter (\<lambda>i. item_resource i \<notin> ?S) (map ((!) ?items) [0..<length ?items]))"
      by (simp only: filter_map)
    finally show ?thesis by (simp add: map_nth)
  qed
  ultimately show ?thesis by (simp add: subseq_map)
qed

section \<open>A scripted execution\<close>

text \<open>
  The session of the planner's scripted world under a native contract, with a platform that asks
  the guard and the stop flag before it moves a file, and loses track of \<open>/d/bc\<close>.
\<close>

definition demo_native :: "bytes \<Rightarrow> nat \<Rightarrow> nat native" where
  "demo_native p w = AskGuard w (\<lambda>d w1. AskStop w1 (\<lambda>stop w2.
     if d \<noteq> Proceed \<or> stop then Finished (EffectRefused ''stopped'') w2
     else if p = ''/d/bc'' then Finished (EffectUnknown ''no answer'' None) w2
     else Finished (Moved (''/t'' @ p)) w2))"

definition demo_exec :: "nat exec_env" where
  "demo_exec = \<lparr>xe_env = demo_env, xe_journal_path = native_from_path ascii_debug,
     xe_effect = demo_native, xe_new_id = (\<lambda>w. (Inr ''1-a'', w)),
     xe_publish = (\<lambda>r b w. (Inr \<lparr>cleanup_error = None\<rparr>, w)),
     xe_wall = (\<lambda>w. (int w * 1000000, w)), xe_guard = Some (\<lambda>pt p w. (Inr Proceed, w))\<rparr>"

definition demo_session :: planner where
  "demo_session = for_contract RevalidatedTrashV1 demo_p0"

definition demo_selection :: "(error, plan) result \<times> planner \<times> nat" where
  "demo_selection =
     (case discover demo_env ''/d/a'' demo_session 0 of
        (r1, p1, w1) \<Rightarrow>
          (case discover demo_env ''/d/bc'' p1 10 of
             (r2, p2, w2) \<Rightarrow>
               (case discover demo_env ''/d/def'' p2 20 of
                  (r3, p3, w3) \<Rightarrow>
                    prepare demo_env (map (\<lambda>r. obs_id (fnd_observation (projr r))) [r1, r2, r3]) [] 500 p3 30)))"

definition demo_preview :: plan where
  "demo_preview = projr (fst demo_selection)"

definition demo_approval :: "(error, approval) result \<times> planner \<times> nat" where
  "demo_approval = approve demo_env demo_preview (state_of demo_selection) 40"

definition demo_run :: "exec_report io_result \<times> planner \<times> nat \<times> event list" where
  "demo_run = execute_with_clean_policy ascii_debug (logged demo_exec) demo_preview
     (projr (fst demo_approval)) None (state_of demo_approval) (50, [])"

definition demo_report :: exec_report where
  "demo_report = projr (fst demo_run)"

definition demo_events :: "event list" where
  "demo_events = snd (snd (snd demo_run))"

lemma demo_run:
  "execute_with_clean_policy ascii_debug (logged demo_exec) demo_preview (projr (fst demo_approval)) None
     (state_of demo_approval) (50, [])
   = (Inr demo_report, fst (snd demo_run), fst (snd (snd demo_run)), demo_events)"
proof -
  obtain a b c d where r: "demo_run = (a, b, c, d)" by (metis prod_cases4)
  have "\<not> isl (fst demo_run)" by code_simp
  then show ?thesis
    unfolding demo_report_def demo_events_def demo_run_def [symmetric] r by (cases a) auto
qed

lemma demo_states: "map it_state (jr_items (er_record demo_report)) = [ItemSucceeded, ItemUnknown, ItemSkipped]"
  by code_simp

section \<open>What an execution promises\<close>

text \<open>C13: Every execution refines the journal protocol: whatever the platform, the journal, the guard
  and the clocks do, the monitor accepts the events of a run (a record is published before any
  native call, the intent for an item is durable and the guard has agreed before the item is
  acted on, the record of the outcome changes that item only and says what the call returned);
  observing the run does not change its result.\<close>

theorem execution_follows_protocol:
  assumes "execute_with_clean_policy dbg (logged E) preview appr policy p (w, []) = (out, p', w', l)"
  shows "(\<exists>m. mon_run (xe_guard E \<noteq> None) (callable E preview appr p w) (xe_journal_path E)
      (map item_path (pl_items preview)) Fresh l = Some m)
    \<and> execute_with_clean_policy dbg E preview appr policy p w = (out, p', w')"
proof -
  have "execute_with_clean_policy dbg E preview appr policy p w = (out, p', w')"
    using mirrorsD [OF mirrors_execute [of dbg E preview appr policy p], of "(w, [])"] assms
    by (cases "execute_with_clean_policy dbg E preview appr policy p w") simp
  then show ?thesis using left_accepted [OF logged_outcome [OF assms]] by blast
qed

theorem execution_follows_protocol_witness:
  "(\<exists>m. mon_run True (callable demo_exec demo_preview (projr (fst demo_approval)) (state_of demo_approval) 50)
      (native_from_path ascii_debug) [''/d/a'', ''/d/bc'', ''/d/def''] Fresh demo_events = Some m)
   \<and> calls demo_events = [''/d/a'', ''/d/bc'']"
proof -
  have "calls demo_events = [''/d/a'', ''/d/bc'']"
    "map item_path (pl_items demo_preview) = [''/d/a'', ''/d/bc'', ''/d/def'']"
    by code_simp+
  then show ?thesis using execution_follows_protocol [OF demo_run] by (simp add: demo_exec_def)
qed

text \<open>C14: No native call goes unrecorded: if the process is interrupted after any prefix of its
  events, every record that may then be on disk, read back, has for each native call that was
  begun a row of its path that is unknown or carries the outcome the call returned; it is
  never read as not started.\<close>

theorem interruption_accounts_for_calls:
  assumes "execute_with_clean_policy dbg (logged E) preview appr policy p (w, []) = (out, p', w', l)"
    and "prefix l1 l" and "r \<in> set (on_disk l1)" and "EvCall path \<in> set l1"
  shows "\<exists>row \<in> set (jr_items (reconciled r)). it_path row = xe_journal_path E path
    \<and> (it_state row = ItemUnknown
        \<or> (\<exists>e. EvReturn path e \<in> set l1 \<and> it_state row = outcome_state e))"
proof -
  obtain m where m: "mon_run (xe_guard E \<noteq> None) (callable E preview appr p w) (xe_journal_path E)
      (map item_path (pl_items preview)) Fresh l = Some m"
    using left_accepted [OF logged_outcome [OF assms(1)]] .
  obtain l2 where l: "l = l1 @ l2" using assms(2) by (auto simp: prefix_def)
  obtain m1 where "mon_inv (callable E preview appr p w) (xe_journal_path E)
      (map item_path (pl_items preview)) l1 m1"
    using mon_run_prefix_inv [OF m [unfolded l]] .
  from mon_inv_crash [OF this assms(3,4)] show ?thesis .
qed

theorem interruption_accounts_for_calls_witness:
  "\<exists>row \<in> set (jr_items (reconciled (hd (on_disk (take 5 demo_events))))).
     it_path row = native_from_path ascii_debug ''/d/a''
     \<and> (it_state row = ItemUnknown
         \<or> (\<exists>e. EvReturn ''/d/a'' e \<in> set (take 5 demo_events) \<and> it_state row = outcome_state e))"
proof -
  have d: "on_disk (take 5 demo_events) \<noteq> []" "''/d/a'' \<in> set (calls (take 5 demo_events))" by code_simp+
  have "xe_journal_path demo_exec = native_from_path ascii_debug" by (simp add: demo_exec_def)
  then show ?thesis
    using interruption_accounts_for_calls [OF demo_run take_is_prefix hd_in_set [OF d(1)]] d(2)
    by (simp add: calls_mem)
qed

lemma report_honest:
  assumes "execute_with_clean_policy dbg (logged E) preview appr policy p (w, []) = (Inr rep, p', w', l)"
  defines "rows \<equiv> jr_items (er_record rep)"
  shows "length rows = length (pl_items preview)
    \<and> (\<forall>j < length rows. terminal_state (it_state (rows ! j))
         \<and> truthful (xe_journal_path E) l (item_path (pl_items preview ! j)) (rows ! j)
         \<and> (it_state (rows ! j) \<in> {ItemSucceeded, ItemFailed} \<longrightarrow>
              (\<exists>r \<in> set (on_disk l). j < length (jr_items r) \<and> jr_items r ! j = rows ! j)))
    \<and> (er_journal_error rep = None \<longrightarrow> er_record rep \<in> set (on_disk l))"
proof -
  let ?ps = "map item_path (pl_items preview)" and ?ready = "callable E preview appr p w"
    and ?jp = "xe_journal_path E"
  have "reported E ?ready ?ps l rep" using logged_outcome [OF assms(1)] by (simp add: left_def)
  then obtain ph r where run: "monitored E ?ready ?ps l (Running ph r)" and len: "length rows = length ?ps"
    and rows: "\<forall>j < length ?ps. terminal_state (it_state (rows ! j))
        \<and> (it_state (rows ! j) \<in> {ItemSucceeded, ItemFailed} \<longrightarrow> jr_items r ! j = rows ! j)"
    and clean: "er_journal_error rep = None \<longrightarrow> r = er_record rep"
    by (auto simp: reported_def rows_def)
  have inv: "mon_inv ?ready ?jp ?ps l (Running ph r)"
    using run mon_inv_run by (auto simp: monitored_def)
  then have disk: "r \<in> set (on_disk l)" and sound: "sound_record ?jp ?ps l r"
    by (auto simp: mon_inv_def)
  have "truthful ?jp l (?ps ! j) (rows ! j)" if "j < length ?ps" for j
  proof (cases "it_state (rows ! j) \<in> {ItemSucceeded, ItemFailed}")
    case True
    then have "jr_items r ! j = rows ! j" using rows that by auto
    moreover have "truthful ?jp l (?ps ! j) (jr_items r ! j)"
      using sound that unfolding sound_record_def by blast
    ultimately show ?thesis by simp
  qed (simp add: truthful_def)
  moreover have "\<exists>r \<in> set (on_disk l). j < length (jr_items r) \<and> jr_items r ! j = rows ! j"
    if "j < length ?ps" "it_state (rows ! j) \<in> {ItemSucceeded, ItemFailed}" for j
    using that rows disk sound by (intro bexI [of _ r]) (auto simp: sound_record_def)
  ultimately show ?thesis using len rows clean disk by auto
qed

text \<open>C15: The report of an execution is complete and honest: every item of the plan has a final
  state; an item reported as moved was moved to the destination it names, one reported as failed
  was reported so by the platform, and both rows are on disk as reported; without a journal
  error the record on disk is the reported one.\<close>

theorem report_is_honest:
  assumes "execute_with_clean_policy dbg (logged E) preview appr policy p (w, []) = (Inr rep, p', w', l)"
  defines "rows \<equiv> jr_items (er_record rep)"
  shows "length rows = length (pl_items preview)
    \<and> (\<forall>j < length rows. terminal_state (it_state (rows ! j))
         \<and> truthful (xe_journal_path E) l (item_path (pl_items preview ! j)) (rows ! j)
         \<and> (it_state (rows ! j) \<in> {ItemSucceeded, ItemFailed} \<longrightarrow>
              (\<exists>r \<in> set (on_disk l). j < length (jr_items r) \<and> jr_items r ! j = rows ! j)))
    \<and> (er_journal_error rep = None \<longrightarrow> er_record rep \<in> set (on_disk l))"
  unfolding rows_def by (rule report_honest [OF assms(1)])

theorem report_is_honest_witness:
  "truthful (native_from_path ascii_debug) demo_events ''/d/a'' (jr_items (er_record demo_report) ! 0)
   \<and> it_state (jr_items (er_record demo_report) ! 0) = ItemSucceeded"
proof -
  have "map it_state (jr_items (er_record demo_report)) = [ItemSucceeded, ItemUnknown, ItemSkipped]"
    by (rule demo_states)
  moreover have "item_path (pl_items demo_preview ! 0) = ''/d/a''" by code_simp
  moreover have "xe_journal_path demo_exec = native_from_path ascii_debug" by (simp add: demo_exec_def)
  ultimately show ?thesis
    using report_is_honest [OF demo_run] by (cases "jr_items (er_record demo_report)") auto
qed

text \<open>C16: Native calls are made at most once per item, in the order of the plan, and only for items
  the validation of this very run found ready.\<close>

theorem calls_are_validated:
  assumes "execute_with_clean_policy dbg (logged E) preview appr policy p (w, []) = (out, p', w', l)"
    and "calls l \<noteq> []"
  shows "\<exists>v p1 w1. planner_validate (xe_env E) preview appr p w = (Inr v, p1, w1)
    \<and> subseq (calls l) (map item_path (vr_ready v))"
proof -
  let ?ps = "map item_path (pl_items preview)" and ?ready = "callable E preview appr p w"
  obtain m where m: "mon_run (xe_guard E \<noteq> None) ?ready (xe_journal_path E) ?ps Fresh l = Some m"
    using left_accepted [OF logged_outcome [OF assms(1)]] .
  obtain ph r where run: "m = Running ph r"
    using mon_inv_run [OF m] assms(2) by (cases m) (auto simp: mon_inv_def)
  have "phase_reach (length ?ps) ph \<le> length ?ps"
    "subseq (calls l) (map ((!) ?ps) (filter ?ready [0..<phase_reach (length ?ps) ph]))"
    using mon_inv_run [OF m] by (simp_all add: mon_inv_def run)
  then have sub: "subseq (calls l) (map ((!) ?ps) (filter ?ready [0..<length ?ps]))"
    by (rule subseq_reach)
  then have "filter ?ready [0..<length ?ps] \<noteq> []" using assms(2) by auto
  then obtain i where "?ready i" by (auto simp: filter_empty_conv)
  then obtain v p1 w1 where v: "planner_validate (xe_env E) preview appr p w = (Inr v, p1, w1)"
    by (auto simp: callable_def split: prod.splits sum.splits)
  show ?thesis
    using subseq_order.trans [OF sub] callable_ready [OF v] v by auto
qed

theorem calls_are_validated_witness:
  "\<exists>v p1 w1. planner_validate demo_env demo_preview (projr (fst demo_approval)) (state_of demo_approval) 50
      = (Inr v, p1, w1) \<and> subseq [''/d/a'', ''/d/bc''] (map item_path (vr_ready v))"
proof -
  have "calls demo_events = [''/d/a'', ''/d/bc'']" by code_simp
  then show ?thesis using calls_are_validated [OF demo_run] by (simp add: demo_exec_def)
qed



text \<open>The exit code tells the outcome: it is 0 exactly when the journal had no error and every
  item succeeded, and then every item of the plan was moved by a native call; it is 1 exactly when
  the journal failed or some outcome is unknown; 130 only when some item was cancelled.\<close>

theorem exit_code_means:
  assumes "execute_with_clean_policy dbg (logged E) preview appr policy p (w, []) = (Inr rep, p', w', l)"
  shows "(exit_code rep = 0 \<longleftrightarrow> er_journal_error rep = None
        \<and> (\<forall>row \<in> set (jr_items (er_record rep)). it_state row = ItemSucceeded))
    \<and> (exit_code rep = 0 \<longrightarrow>
        (\<forall>item \<in> set (pl_items preview). \<exists>dest. EvReturn (item_path item) (Moved dest) \<in> set l))
    \<and> (exit_code rep = 1 \<longleftrightarrow> er_journal_error rep \<noteq> None
        \<or> (\<exists>row \<in> set (jr_items (er_record rep)). it_state row = ItemUnknown))
    \<and> (exit_code rep = 130 \<longrightarrow>
        (\<exists>row \<in> set (jr_items (er_record rep)). it_reason row = Some ''cancelled''))"
proof -
  have code: "exit_code rep = 0 \<longleftrightarrow> er_journal_error rep = None
        \<and> (\<forall>row \<in> set (jr_items (er_record rep)). it_state row = ItemSucceeded)"
    by (auto simp: exit_code_def Let_def list_ex_iff list_all_iff)
  have len: "length (jr_items (er_record rep)) = length (pl_items preview)"
    and truth: "\<forall>j < length (pl_items preview).
      truthful (xe_journal_path E) l (item_path (pl_items preview ! j)) (jr_items (er_record rep) ! j)"
    using report_honest [OF assms] by auto
  have "\<exists>dest. EvReturn (item_path item) (Moved dest) \<in> set l"
    if zero: "exit_code rep = 0" and item: "item \<in> set (pl_items preview)" for item
  proof -
    obtain j where j: "j < length (pl_items preview)" "item = pl_items preview ! j"
      using item by (auto simp: in_set_conv_nth)
    then have "it_state (jr_items (er_record rep) ! j) = ItemSucceeded"
      using code zero len by simp
    then show ?thesis using truth j by (auto simp: truthful_def)
  qed
  then show ?thesis
    using code by (auto simp: exit_code_def Let_def list_ex_iff list_all_iff)
qed

theorem exit_code_means_witness:
  "exit_code demo_report = 1 \<and> (\<exists>row \<in> set (jr_items (er_record demo_report)). it_state row = ItemUnknown)"
proof -
  have "exit_code demo_report = 1" "er_journal_error demo_report = None" by code_simp+
  then show ?thesis using exit_code_means [OF demo_run] by simp
qed

section \<open>A clock that fails between two items\<close>

text \<open>
  The one way an execution that has moved a file returns an error instead of a report: the system
  clock is read before each intent and its failure leaves the function.
\<close>

definition demo_lost :: "exec_report io_result \<times> planner \<times> nat \<times> event list" where
  "demo_lost = execute_with_clean_policy ascii_debug
     (logged (demo_exec\<lparr>xe_wall := (\<lambda>w. (if w < 60 then int w * 1000000 else - 1, w))\<rparr>))
     demo_preview (projr (fst demo_approval)) None (state_of demo_approval) (50, [])"

lemma clock_failure_loses_report:
  "isl (fst demo_lost) \<and> list_ex (\<lambda>ev. case ev of EvReturn path (Moved dest) \<Rightarrow> path = ''/d/a'' | _ \<Rightarrow> False)
     (snd (snd (snd demo_lost)))"
  by code_simp

end
