(* ===== verification/Scan_Model.thy ===== *)
theory Scan_Model
  imports Model
begin

text \<open>
  The data of a scan (\<open>scan/mod.rs\<close>, the record of \<open>known_owner.rs\<close> and the signature of
  \<open>purge_preview.rs\<close> that an entry carries) and cancellable computations over it.
\<close>

section \<open>Codes and errors\<close>

datatype scan_code = ScInvalidLimits | ScInvalidRoot | ScUnsupportedPlatform | ScUnsupportedVolume
  | ScVolumeUnknown | ScPermissionDenied | ScBusy | ScNotFound | ScLinkSkipped | ScMountBoundary
  | ScCloudDirectorySkipped | ScDuplicateRoot | ScDuplicateDirectory | ScChangedEntry | ScIo
  | ScPolicyFailure | ScDepthLimit | ScOpenHandleLimit | ScEntryLimit | ScPathBytesLimit
  | ScDurationLimit | ScCancelled | ScOverflow | ScWorkerPanic | ScWorkerStartFailed | ScInternal

fun scan_code_as_str :: "scan_code \<Rightarrow> bytes" where
  "scan_code_as_str ScInvalidLimits = ''invalid_limits''"
| "scan_code_as_str ScInvalidRoot = ''invalid_root''"
| "scan_code_as_str ScUnsupportedPlatform = ''unsupported_platform''"
| "scan_code_as_str ScUnsupportedVolume = ''unsupported_volume''"
| "scan_code_as_str ScVolumeUnknown = ''volume_unknown''"
| "scan_code_as_str ScPermissionDenied = ''permission_denied''"
| "scan_code_as_str ScBusy = ''busy''"
| "scan_code_as_str ScNotFound = ''not_found''"
| "scan_code_as_str ScLinkSkipped = ''link_skipped''"
| "scan_code_as_str ScMountBoundary = ''mount_boundary''"
| "scan_code_as_str ScCloudDirectorySkipped = ''cloud_directory_skipped''"
| "scan_code_as_str ScDuplicateRoot = ''duplicate_root''"
| "scan_code_as_str ScDuplicateDirectory = ''duplicate_directory''"
| "scan_code_as_str ScChangedEntry = ''changed_entry''"
| "scan_code_as_str ScIo = ''io_error''"
| "scan_code_as_str ScPolicyFailure = ''policy_failure''"
| "scan_code_as_str ScDepthLimit = ''depth_limit''"
| "scan_code_as_str ScOpenHandleLimit = ''open_handle_limit''"
| "scan_code_as_str ScEntryLimit = ''entry_limit''"
| "scan_code_as_str ScPathBytesLimit = ''path_bytes_limit''"
| "scan_code_as_str ScDurationLimit = ''duration_limit''"
| "scan_code_as_str ScCancelled = ''cancelled''"
| "scan_code_as_str ScOverflow = ''measurement_overflow''"
| "scan_code_as_str ScWorkerPanic = ''worker_panic''"
| "scan_code_as_str ScWorkerStartFailed = ''worker_start_failed''"
| "scan_code_as_str ScInternal = ''internal_error''"

definition is_subtree_gap :: "scan_code \<Rightarrow> bool" where
  "is_subtree_gap c \<longleftrightarrow> c \<in> {ScPermissionDenied, ScBusy, ScNotFound, ScMountBoundary,
     ScCloudDirectorySkipped, ScChangedEntry, ScIo, ScDepthLimit, ScOpenHandleLimit}"

definition is_gap :: "scan_code \<Rightarrow> bool" where
  "is_gap c \<longleftrightarrow> c \<notin> {ScLinkSkipped, ScDuplicateRoot, ScDuplicateDirectory}"

record scan_error =
  se_code :: scan_code
  se_message :: bytes
  se_os_code :: "32 word option"

definition scan_error_new :: "scan_code \<Rightarrow> bytes \<Rightarrow> scan_error" where
  "scan_error_new c message = \<lparr>se_code = c, se_message = message, se_os_code = None\<rparr>"

definition scan_error_display :: "(bytes \<Rightarrow> bytes) \<Rightarrow> scan_error \<Rightarrow> bytes" where
  "scan_error_display dbg e = scan_code_as_str (se_code e) @ '': '' @ dbg (se_message e)"

section \<open>Limits\<close>

record scan_limits =
  sl_workers :: nat
  sl_queue_capacity :: nat
  sl_event_capacity :: nat
  sl_max_open_dirs :: nat
  sl_max_depth :: nat
  sl_max_entries :: nat
  sl_max_path_bytes :: nat
  sl_max_issues :: nat
  sl_time_budget :: duration
  sl_progress_every :: nat

definition seconds :: "nat \<Rightarrow> duration" where
  "seconds n = n * 1000000000"

definition scan_limits_default :: scan_limits where
  "scan_limits_default = \<lparr>sl_workers = 4, sl_queue_capacity = 64, sl_event_capacity = 128,
     sl_max_open_dirs = 128, sl_max_depth = 128, sl_max_entries = 100000,
     sl_max_path_bytes = 32 * 1024 * 1024, sl_max_issues = 128, sl_time_budget = seconds 30,
     sl_progress_every = 128\<rparr>"

definition scan_limits_validate :: "scan_limits \<Rightarrow> (scan_error, unit) result" where
  "scan_limits_validate l = ensure
     (1 \<le> sl_workers l \<and> sl_workers l \<le> 32
      \<and> 1 \<le> sl_queue_capacity l \<and> sl_queue_capacity l \<le> 4096
      \<and> 1 \<le> sl_event_capacity l \<and> sl_event_capacity l \<le> 4096
      \<and> sl_workers l + 2 \<le> sl_max_open_dirs l \<and> sl_max_open_dirs l \<le> 4096
      \<and> 1 \<le> sl_max_depth l \<and> sl_max_depth l \<le> 1024
      \<and> 1 \<le> sl_max_entries l \<and> sl_max_entries l \<le> 1000000
      \<and> 1 \<le> sl_max_path_bytes l \<and> sl_max_path_bytes l \<le> 256 * 1024 * 1024
      \<and> 1 \<le> sl_max_issues l \<and> sl_max_issues l \<le> 1024
      \<and> sl_time_budget l \<noteq> 0 \<and> sl_time_budget l \<le> seconds 86400
      \<and> 1 \<le> sl_progress_every l \<and> sl_progress_every l \<le> 65536)
     (scan_error_new ScInvalidLimits ''invalid scan resource limits'')"

section \<open>Entries and reports\<close>

record scan_task_id =
  st_process :: u32
  st_sequence :: u64

text \<open>\<open>ScanTaskId::new\<close>; the process-wide counter \<open>NEXT_TASK\<close> is passed and returned.\<close>

definition scan_task_id_new :: "u32 \<Rightarrow> u64 \<Rightarrow> (scan_error, scan_task_id) result \<times> u64" where
  "scan_task_id_new process counter =
     (case checked_add counter 1 of
        None \<Rightarrow> (Inl (scan_error_new ScInternal ''scan task IDs exhausted''), counter)
      | Some following \<Rightarrow> (Inr \<lparr>st_process = process, st_sequence = counter\<rparr>, following))"

record known_owner =
  ko_rule :: bytes
  ko_owner :: bytes
  ko_non_target :: bool
  ko_title :: bytes
  ko_explanation :: bytes
  ko_action :: bytes
  ko_simulator_udid :: "bytes option"
  ko_evidence :: "bytes list"

datatype artifact_signature =
    ProjectArtifact "bytes option" path "path list" bool
  | XcodeDerivedData bool "bytes list" "path option" bytes

datatype scan_status = StatusComplete | StatusPartial | StatusCancelled | StatusFailed

fun scan_status_as_str :: "scan_status \<Rightarrow> bytes" where
  "scan_status_as_str StatusComplete = ''complete''"
| "scan_status_as_str StatusPartial = ''partial''"
| "scan_status_as_str StatusCancelled = ''cancelled''"
| "scan_status_as_str StatusFailed = ''failed''"

fun scan_status_exit_code :: "scan_status \<Rightarrow> u8" where
  "scan_status_exit_code StatusComplete = 0"
| "scan_status_exit_code StatusPartial = 3"
| "scan_status_exit_code StatusCancelled = 130"
| "scan_status_exit_code StatusFailed = 1"

record scan_issue =
  si_owner :: "known_owner option"
  si_path :: "path option"
  si_code :: scan_code
  si_message :: bytes
  si_os_code :: "32 word option"

record scan_entry =
  sn_private_bytes :: "u64 option"
  sn_owner :: "known_owner option"
  sn_project_signature :: "artifact_signature option"
  sn_id :: u64
  sn_path :: path
  sn_kind :: resource_kind
  sn_identity :: file_identity
  sn_logical_bytes :: "u64 option"
  sn_allocated_bytes :: "u64 option"
  sn_modified_unix_ms :: "64 word option"
  sn_dataless :: bool
  sn_counted :: bool
  sn_depth :: nat

record scan_totals =
  tt_regular_files :: u64
  tt_unique_files :: u64
  tt_duplicate_files :: u64
  tt_directories :: u64
  tt_links :: u64
  tt_other :: u64
  tt_logical_bytes_known :: u64
  tt_logical_bytes_unknown_files :: u64
  tt_allocated_bytes_known :: u64
  tt_allocated_bytes_unknown_files :: u64

record scan_metrics =
  sm_elapsed_ms :: u64
  sm_first_result_ms :: "u64 option"
  sm_peak_workers :: nat
  sm_peak_queued_dirs :: nat
  sm_peak_open_dirs :: nat
  sm_peak_pending_events :: nat
  sm_retained_path_bytes :: nat
  sm_accepted_roots :: nat

record scan_report =
  sr_task_id :: scan_task_id
  sr_roots :: "path list"
  sr_scan_status :: scan_status
  sr_complete :: bool
  sr_entries :: "scan_entry list"
  sr_vcs_metadata :: "path list"
  sr_issues :: "scan_issue list"
  sr_issues_omitted :: nat
  sr_totals :: scan_totals
  sr_metrics :: scan_metrics

section \<open>Cancellable computations\<close>

text \<open>
  A cancellation flag is only ever set. What a computation can see of it is the number of checks
  that still find it clear (\<open>None\<close>: it is never set); each check consumes one.
\<close>

type_synonym polls = "nat option"

type_synonym 'a task = "polls \<Rightarrow> (scan_error, 'a \<times> polls) result"

definition cancelled_error :: scan_error where
  "cancelled_error = scan_error_new ScCancelled ''scan index cancelled''"

definition check_cancelled :: "unit task" where
  "check_cancelled k =
     (case k of
        None \<Rightarrow> Inr ((), None)
      | Some 0 \<Rightarrow> Inl cancelled_error
      | Some (Suc n) \<Rightarrow> Inr ((), Some n))"

definition tret :: "'a \<Rightarrow> 'a task" where
  "tret a k = Inr (a, k)"

definition tlift :: "(scan_error, 'a) result \<Rightarrow> 'a task" where
  "tlift r k = (case r of Inl e \<Rightarrow> Inl e | Inr a \<Rightarrow> Inr (a, k))"

definition tbind :: "'a task \<Rightarrow> ('a \<Rightarrow> 'b task) \<Rightarrow> 'b task" where
  "tbind m f k = (case m k of Inl e \<Rightarrow> Inl e | Inr (a, k') \<Rightarrow> f a k')"

text \<open>Loops: \<open>for x in xs { ... }\<close> with a state and an early return.\<close>

fun tfold :: "('a \<Rightarrow> 's \<Rightarrow> 's task) \<Rightarrow> 'a list \<Rightarrow> 's \<Rightarrow> 's task" where
  "tfold f [] s = tret s"
| "tfold f (x # xs) s = tbind (f x s) (\<lambda>s'. tfold f xs s')"

text \<open>
  Cancelling a computation can only cut it short: it either returns what it returns when it is
  left alone or it ends with the cancellation error.
\<close>

definition abortable :: "'a task \<Rightarrow> bool" where
  "abortable m \<longleftrightarrow>
     (\<forall>a k. m None = Inr (a, k) \<longrightarrow> k = None)
     \<and> (\<forall>n. m (Some n) = Inl cancelled_error
          \<or> (case m None of
               Inl e \<Rightarrow> m (Some n) = Inl e
             | Inr (a, k) \<Rightarrow> \<exists>n'. m (Some n) = Inr (a, Some n')))"

named_theorems task_simps \<open>what a computation returns when it is never cancelled\<close>
named_theorems abortable_intros \<open>computations that cancelling can only cut short\<close>

text \<open>The result of a computation that is never cancelled.\<close>

definition run_task :: "'a task \<Rightarrow> (scan_error, 'a) result" where
  "run_task m = (case m None of Inl e \<Rightarrow> Inl e | Inr (a, k) \<Rightarrow> Inr a)"

lemma abortable_check [abortable_intros]: "abortable check_cancelled"
  by (auto simp: abortable_def check_cancelled_def split: nat.splits)

lemma abortable_tret [abortable_intros]: "abortable (tret a)"
  by (simp add: abortable_def tret_def)

lemma abortable_tlift [abortable_intros]: "abortable (tlift r)"
  by (cases r) (simp_all add: abortable_def tlift_def)

lemma abortable_tbind [abortable_intros]:
  assumes m: "abortable m" and f: "\<And>a. abortable (f a)"
  shows "abortable (tbind m f)"
proof (cases "m None")
  case (Inl e)
  have "tbind m f (Some n) = Inl cancelled_error \<or> tbind m f (Some n) = Inl e" for n
  proof -
    have "m (Some n) = Inl cancelled_error \<or> m (Some n) = Inl e" using m Inl by (simp add: abortable_def)
    then show ?thesis by (auto simp: tbind_def)
  qed
  with Inl show ?thesis by (simp add: abortable_def tbind_def)
next
  case (Inr x)
  then obtain a where a: "m None = Inr (a, None)" using m by (cases x) (auto simp: abortable_def)
  have "tbind m f (Some n) = Inl cancelled_error
      \<or> (case f a None of Inl e \<Rightarrow> tbind m f (Some n) = Inl e
           | Inr (b, k) \<Rightarrow> \<exists>n'. tbind m f (Some n) = Inr (b, Some n'))" for n
  proof -
    have "m (Some n) = Inl cancelled_error \<or> (\<exists>n'. m (Some n) = Inr (a, Some n'))"
      using m a by (simp add: abortable_def)
    then show ?thesis
    proof
      assume "\<exists>n'. m (Some n) = Inr (a, Some n')"
      then obtain n' where eq: "tbind m f (Some n) = f a (Some n')" by (auto simp: tbind_def)
      show ?thesis using f [of a] unfolding abortable_def eq by blast
    qed (simp add: tbind_def)
  qed
  moreover have "k = None" if "f a None = Inr (b, k)" for b k
    using f [of a] that by (auto simp: abortable_def)
  ultimately show ?thesis using a by (simp add: abortable_def tbind_def)
qed

lemma abortable_tfold [abortable_intros]:
  assumes "\<And>x s. abortable (f x s)"
  shows "abortable (tfold f xs s)"
proof (induction xs arbitrary: s)
  case Nil
  show ?case by (simp add: abortable_tret)
next
  case (Cons x xs)
  show ?case by (simp add: abortable_tbind assms Cons.IH)
qed

lemma abortable_if [abortable_intros]:
  "(b \<Longrightarrow> abortable m) \<Longrightarrow> (\<not> b \<Longrightarrow> abortable m') \<Longrightarrow> abortable (if b then m else m')"
  by simp

text \<open>Uncancelled runs compose like results.\<close>

lemma run_task_check [task_simps]: "run_task check_cancelled = Inr ()"
  by (simp add: run_task_def check_cancelled_def)

lemma run_task_tret [task_simps]: "run_task (tret a) = Inr a"
  by (simp add: run_task_def tret_def)

lemma run_task_tlift [task_simps]: "run_task (tlift r) = r"
  by (cases r) (simp_all add: run_task_def tlift_def)

lemma run_task_tbind [task_simps]:
  "abortable m \<Longrightarrow> run_task (tbind m f) = rbind (run_task m) (\<lambda>a. run_task (f a))"
  by (auto simp: run_task_def tbind_def abortable_def split: sum.splits prod.splits)

lemma run_task_if: "run_task (if b then m else m') = (if b then run_task m else run_task m')"
  by simp

text \<open>A cancelled run returns what the uncancelled one returns, or the cancellation error.\<close>

lemma abortable_run:
  assumes m: "abortable m" and k: "m k = Inr (a, k')"
  shows "run_task m = Inr a"
proof (cases k)
  case None
  then show ?thesis using k by (simp add: run_task_def)
next
  case (Some n)
  have "cancelled_error \<noteq> cancelled_error \<or> (case m None of Inl e \<Rightarrow> m (Some n) = Inl e
      | Inr (a, k) \<Rightarrow> \<exists>n'. m (Some n) = Inr (a, Some n'))"
    using m k Some unfolding abortable_def by (metis Inr_Inl_False)
  then show ?thesis using k Some by (auto simp: run_task_def split: sum.splits)
qed

lemma abortable_run_Inl:
  assumes m: "abortable m" and k: "m k = Inl e"
  shows "e = cancelled_error \<or> run_task m = Inl e"
proof (cases k)
  case None
  then show ?thesis using k by (simp add: run_task_def)
next
  case (Some n)
  have "m (Some n) = Inl cancelled_error \<or> (case m None of Inl e \<Rightarrow> m (Some n) = Inl e
      | Inr (a, k) \<Rightarrow> \<exists>n'. m (Some n) = Inr (a, Some n'))"
    using m unfolding abortable_def by blast
  then show ?thesis using k Some by (auto simp: run_task_def split: sum.splits)
qed

text \<open>Loops that return keep an invariant of the elements consumed.\<close>

lemma tfold_invariant:
  assumes run: "run_task (tfold f xs s) = Inr s'" and f: "\<And>x s. abortable (f x s)"
    and init: "P [] s"
    and step: "\<And>pre x post s s'. xs = pre @ x # post \<Longrightarrow> P pre s \<Longrightarrow> run_task (f x s) = Inr s' \<Longrightarrow> P (pre @ [x]) s'"
  shows "P xs s'"
proof -
  have "P (pre @ post) s'" if "run_task (tfold f post s0) = Inr s'" "P pre s0" "xs = pre @ post" for pre post s0
    using that
  proof (induction post arbitrary: pre s0)
    case Nil
    then show ?case by (simp add: task_simps)
  next
    case (Cons x post)
    then obtain s1 where "run_task (f x s0) = Inr s1" "run_task (tfold f post s1) = Inr s'"
      by (auto simp: task_simps f)
    then show ?case using Cons.IH [of s1 "pre @ [x]"] step Cons.prems by simp
  qed
  then show ?thesis using run init by (metis append_Nil)
qed

lemma run_task_case_prod: "run_task (case x of (a, b) \<Rightarrow> f a b) = (case x of (a, b) \<Rightarrow> run_task (f a b))"
  by (cases x) simp

lemma run_task_case_option:
  "run_task (case x of None \<Rightarrow> m | Some a \<Rightarrow> f a) = (case x of None \<Rightarrow> run_task m | Some a \<Rightarrow> run_task (f a))"
  by (cases x) simp_all

end
