(* ===== verification/Scan_Sort.thy ===== *)
theory Scan_Sort
  imports Scan_Model "HOL-Library.Multiset"
begin

text \<open>
  The sort of the scan index (\<open>cancellable_sort\<close> of \<open>scan/index.rs\<close>): sorted chunks, then merge
  passes of doubling width between the slice and a scratch slice, with a cancellation check at
  each chunk. It is shown to be the insertion sort for every comparison that is a total preorder,
  stated as the interface \<open>comparator\<close>.
\<close>

section \<open>Comparisons\<close>

datatype ordering = Less | Equal | Greater

definition compare_keys :: "('a \<Rightarrow> 'k::linorder) \<Rightarrow> 'a \<Rightarrow> 'a \<Rightarrow> ordering" where
  "compare_keys f a b = (if f a < f b then Less else if f a = f b then Equal else Greater)"

text \<open>\<open>Ordering::then_with\<close>\<close>

definition then_with :: "ordering \<Rightarrow> ordering \<Rightarrow> ordering" where
  "then_with a b = (if a = Equal then b else a)"

fun insert_by :: "('a \<Rightarrow> 'a \<Rightarrow> ordering) \<Rightarrow> 'a \<Rightarrow> 'a list \<Rightarrow> 'a list" where
  "insert_by cmp x [] = [x]"
| "insert_by cmp x (y # ys) = (if cmp x y \<noteq> Greater then x # y # ys else y # insert_by cmp x ys)"

text \<open>
  \<open>slice::sort_unstable_by\<close>: a sorted permutation; the order of equal elements, which the
  standard library leaves open, is here the original one.
\<close>

definition sort_by :: "('a \<Rightarrow> 'a \<Rightarrow> ordering) \<Rightarrow> 'a list \<Rightarrow> 'a list" where
  "sort_by cmp xs = foldr (insert_by cmp) xs []"

text \<open>\<open>slice::chunks\<close>\<close>

function chunks :: "nat \<Rightarrow> 'a list \<Rightarrow> 'a list list" where
  "chunks n xs = (if n = 0 \<or> xs = [] then [] else take n xs # chunks n (drop n xs))"
  by pat_completeness auto

termination chunks
  by (relation "measure (\<lambda>(n, xs). length xs)") auto

declare chunks.simps [simp del]

section \<open>The sort\<close>

definition sort_chunk :: nat where
  "sort_chunk = 256"

fun sort_chunks :: "('a \<Rightarrow> 'a \<Rightarrow> ordering) \<Rightarrow> 'a list list \<Rightarrow> 'a list task" where
  "sort_chunks cmp [] = tret []"
| "sort_chunks cmp (c # cs) =
     tbind check_cancelled (\<lambda>_. tbind (sort_chunks cmp cs) (\<lambda>rest. tret (sort_by cmp c @ rest)))"

text \<open>
  The inner loop: \<open>n\<close> positions from \<open>pos\<close> on are left to fill from the runs at \<open>left\<close>, which
  ends at \<open>middle\<close>, and at \<open>right\<close>, which ends at \<open>stop\<close>.
\<close>

fun merge_run ::
  "('a \<Rightarrow> 'a \<Rightarrow> ordering) \<Rightarrow> 'a list \<Rightarrow> nat \<Rightarrow> nat \<Rightarrow> nat \<Rightarrow> nat \<Rightarrow> nat \<Rightarrow> nat \<Rightarrow> 'a list \<Rightarrow> 'a list task" where
  "merge_run cmp ids middle stop left right pos 0 scratch = tret scratch"
| "merge_run cmp ids middle stop left right pos (Suc n) scratch =
     tbind (if pos mod sort_chunk = 0 then check_cancelled else tret ()) (\<lambda>_.
       if left < middle \<and> (right = stop \<or> cmp (ids ! left) (ids ! right) \<noteq> Greater)
       then merge_run cmp ids middle stop (Suc left) right (Suc pos) n (scratch[pos := ids ! left])
       else merge_run cmp ids middle stop left (Suc right) (Suc pos) n (scratch[pos := ids ! right]))"

text \<open>\<open>(0..n).step_by(step)\<close>\<close>

definition step_by :: "nat \<Rightarrow> nat \<Rightarrow> nat list" where
  "step_by n step = map (\<lambda>i. i * step) [0..<(n + step - 1) div step]"

definition merge_at ::
  "('a \<Rightarrow> 'a \<Rightarrow> ordering) \<Rightarrow> nat \<Rightarrow> 'a list \<Rightarrow> nat \<Rightarrow> 'a list \<Rightarrow> 'a list task" where
  "merge_at cmp width ids start scratch =
     (let middle = min (start + width) (length ids);
          stop = min (middle + width) (length ids)
      in merge_run cmp ids middle stop start middle start (stop - start) scratch)"

definition merge_pass ::
  "('a \<Rightarrow> 'a \<Rightarrow> ordering) \<Rightarrow> nat \<Rightarrow> 'a list \<Rightarrow> 'a list \<Rightarrow> 'a list task" where
  "merge_pass cmp width ids scratch =
     tfold (merge_at cmp width ids) (step_by (length ids) (width * 2)) scratch"

definition copy_back :: "'a list \<Rightarrow> 'a list task" where
  "copy_back scratch =
     tfold (\<lambda>source ids. tbind check_cancelled (\<lambda>_. tret (ids @ source))) (chunks sort_chunk scratch) []"

function merge_passes ::
  "('a \<Rightarrow> 'a \<Rightarrow> ordering) \<Rightarrow> nat \<Rightarrow> nat \<Rightarrow> 'a list \<Rightarrow> 'a list \<Rightarrow> 'a list task" where
  "merge_passes cmp n width ids scratch =
     (if 0 < width \<and> width < n
      then tbind (merge_pass cmp width ids scratch) (\<lambda>scratch'.
             tbind (copy_back scratch') (\<lambda>ids'. merge_passes cmp n (width * 2) ids' scratch'))
      else tret ids)"
  by pat_completeness auto

termination merge_passes
  by (relation "measure (\<lambda>(cmp, n, width, ids, scratch). n - width)") auto

declare merge_passes.simps [simp del]

definition cancellable_sort :: "(u64 \<Rightarrow> u64 \<Rightarrow> ordering) \<Rightarrow> u64 list \<Rightarrow> u64 list task" where
  "cancellable_sort cmp ids =
     tbind (sort_chunks cmp (chunks sort_chunk ids)) (\<lambda>ids.
       if length ids \<le> sort_chunk then tbind check_cancelled (\<lambda>_. tret ids)
       else tbind (merge_passes cmp (length ids) sort_chunk ids (replicate (length ids) 0)) (\<lambda>ids.
              tbind check_cancelled (\<lambda>_. tret ids)))"

section \<open>Cancelling\<close>

lemma abortable_sort_chunks [abortable_intros]: "abortable (sort_chunks cmp cs)"
  by (induction cs) (simp_all add: abortable_intros)

lemma abortable_merge_run [abortable_intros]:
  "abortable (merge_run cmp ids middle stop left right pos n scratch)"
  by (induction n arbitrary: left right pos scratch) (simp_all add: abortable_intros)

lemma abortable_merge_pass [abortable_intros]: "abortable (merge_pass cmp width ids scratch)"
  unfolding merge_pass_def merge_at_def Let_def by (intro abortable_intros)

lemma abortable_copy_back [abortable_intros]: "abortable (copy_back scratch)"
  unfolding copy_back_def by (intro abortable_intros)

lemma abortable_merge_passes [abortable_intros]: "abortable (merge_passes cmp n width ids scratch)"
proof (induction cmp n width ids scratch rule: merge_passes.induct)
  case (1 cmp n width ids scratch)
  then show ?case
    by (subst merge_passes.simps) (auto intro!: abortable_intros)
qed

lemma abortable_cancellable_sort [abortable_intros]: "abortable (cancellable_sort cmp ids)"
  unfolding cancellable_sort_def by (intro abortable_intros)

section \<open>Lists in chunks\<close>

lemma chunks_Nil [simp]: "chunks n [] = []"
  by (simp add: chunks.simps)

lemma concat_chunks: "0 < n \<Longrightarrow> concat (chunks n xs) = xs"
proof (induction n xs rule: chunks.induct)
  case (1 n xs)
  then show ?case by (subst chunks.simps) simp
qed

lemma chunks_Cons: "0 < n \<Longrightarrow> xs \<noteq> [] \<Longrightarrow> chunks n xs = take n xs # chunks n (drop n xs)"
  by (subst chunks.simps) simp

lemma chunks_short: "xs \<noteq> [] \<Longrightarrow> length xs \<le> n \<Longrightarrow> chunks n xs = [xs]"
  by (cases n; subst chunks.simps) simp_all

text \<open>A step of a pass on two runs.\<close>

fun merge_by :: "('a \<Rightarrow> 'a \<Rightarrow> ordering) \<Rightarrow> 'a list \<Rightarrow> 'a list \<Rightarrow> 'a list" where
  "merge_by cmp [] ys = ys"
| "merge_by cmp xs [] = xs"
| "merge_by cmp (x # xs) (y # ys) =
     (if cmp x y \<noteq> Greater then x # merge_by cmp xs (y # ys) else y # merge_by cmp (x # xs) ys)"

lemma merge_by_Nil [simp]: "merge_by cmp xs [] = xs"
  by (cases xs) simp_all

lemma length_merge_by [simp]: "length (merge_by cmp xs ys) = length xs + length ys"
  by (induction cmp xs ys rule: merge_by.induct) simp_all

lemma length_insert_by [simp]: "length (insert_by cmp x xs) = Suc (length xs)"
  by (induction xs) simp_all

lemma length_sort_by [simp]: "length (sort_by cmp xs) = length xs"
  by (induction xs) (simp_all add: sort_by_def)

lemma sort_by_Cons: "sort_by cmp (x # xs) = insert_by cmp x (sort_by cmp xs)"
  by (simp add: sort_by_def)

lemma sort_by_Nil [simp]: "sort_by cmp [] = []"
  by (simp add: sort_by_def)

lemma sort_by_keys: "sort_by (compare_keys f) xs = sort_key f xs"
proof -
  have "insert_by (compare_keys f) x ys = insort_key f x ys" for x ys
    by (induction ys) (auto simp: compare_keys_def)
  then show ?thesis by (induction xs) (simp_all add: sort_by_def)
qed

lemma sort_chunks_run: "run_task (sort_chunks cmp cs) = Inr (concat (map (sort_by cmp) cs))"
  by (induction cs) (simp_all add: task_simps abortable_intros)

section \<open>One pass\<close>

definition slice :: "nat \<Rightarrow> nat \<Rightarrow> 'a list \<Rightarrow> 'a list" where
  "slice a b xs = take (b - a) (drop a xs)"

lemma slice_Cons: "a < b \<Longrightarrow> b \<le> length xs \<Longrightarrow> slice a b xs = xs ! a # slice (Suc a) b xs"
proof -
  assume "a < b" "b \<le> length xs"
  moreover from this have "b - a = Suc (b - Suc a)" by simp
  ultimately show ?thesis by (simp add: slice_def Cons_nth_drop_Suc [symmetric])
qed

lemma slice_empty [simp]: "slice a a xs = []"
  by (simp add: slice_def)

lemma length_slice: "b \<le> length xs \<Longrightarrow> length (slice a b xs) = b - a"
  by (simp add: slice_def)

lemma take_Suc_update: "i < length xs \<Longrightarrow> take (Suc i) (xs[i := x]) = take i xs @ [x]"
  by (simp add: take_Suc_conv_app_nth)

lemma merge_run_run:
  assumes "left \<le> middle" "middle \<le> right" "right \<le> stop" "stop \<le> length ids"
    and "n = (middle - left) + (stop - right)" and "pos + n \<le> length scratch"
  shows "run_task (merge_run cmp ids middle stop left right pos n scratch) =
    Inr (take pos scratch @ merge_by cmp (slice left middle ids) (slice right stop ids)
      @ drop (pos + n) scratch)"
  using assms
proof (induction n arbitrary: left right pos scratch)
  case 0
  then have "left = middle" "right = stop" by simp_all
  then show ?case by (simp add: task_simps)
next
  case (Suc n)
  have check: "run_task (if pos mod sort_chunk = 0 then check_cancelled else tret ()) = Inr ()"
    "abortable (if pos mod sort_chunk = 0 then check_cancelled else tret ())"
    by (simp_all add: task_simps abortable_intros)
  have p: "pos < length scratch" using Suc.prems by linarith
  show ?case
  proof (cases "left < middle \<and> (right = stop \<or> cmp (ids ! left) (ids ! right) \<noteq> Greater)")
    case True
    have l: "slice left middle ids = ids ! left # slice (Suc left) middle ids"
      using True Suc.prems by (intro slice_Cons) auto
    have m: "merge_by cmp (slice left middle ids) (slice right stop ids)
        = ids ! left # merge_by cmp (slice (Suc left) middle ids) (slice right stop ids)"
    proof (cases "right = stop")
      case False
      then have "slice right stop ids = ids ! right # slice (Suc right) stop ids"
        using Suc.prems by (intro slice_Cons) auto
      then show ?thesis using True False l by simp
    qed (simp add: l)
    have ih: "run_task (merge_run cmp ids middle stop (Suc left) right (Suc pos) n (scratch[pos := ids ! left])) =
      Inr (take (Suc pos) (scratch[pos := ids ! left])
        @ merge_by cmp (slice (Suc left) middle ids) (slice right stop ids)
        @ drop (Suc pos + n) (scratch[pos := ids ! left]))"
      by (rule Suc.IH) (use True Suc.prems in auto)
    show ?thesis using ih True p
      by (simp add: run_task_tbind check m take_Suc_update drop_update_cancel)
  next
    case False
    then have r: "right < stop" using Suc.prems by auto
    have s: "slice right stop ids = ids ! right # slice (Suc right) stop ids"
      using r Suc.prems by (intro slice_Cons) auto
    have m: "merge_by cmp (slice left middle ids) (slice right stop ids)
        = ids ! right # merge_by cmp (slice left middle ids) (slice (Suc right) stop ids)"
    proof (cases "left < middle")
      case True
      then have "slice left middle ids = ids ! left # slice (Suc left) middle ids"
        using Suc.prems by (intro slice_Cons) auto
      then show ?thesis using True False r s by simp
    next
      case left: False
      then have "left = middle" using Suc.prems by simp
      then show ?thesis by (simp add: s)
    qed
    have ih: "run_task (merge_run cmp ids middle stop left (Suc right) (Suc pos) n (scratch[pos := ids ! right])) =
      Inr (take (Suc pos) (scratch[pos := ids ! right])
        @ merge_by cmp (slice left middle ids) (slice (Suc right) stop ids)
        @ drop (Suc pos + n) (scratch[pos := ids ! right]))"
      by (rule Suc.IH) (use r Suc.prems in auto)
    have "run_task (merge_run cmp ids middle stop left right pos (Suc n) scratch)
        = run_task (merge_run cmp ids middle stop left (Suc right) (Suc pos) n (scratch[pos := ids ! right]))"
      unfolding merge_run.simps run_task_tbind [OF check(2)] check(1) if_not_P [OF False] by simp
    then show ?thesis using ih p by (simp add: m take_Suc_update drop_update_cancel)
  qed
qed

definition merge_halves :: "('a \<Rightarrow> 'a \<Rightarrow> ordering) \<Rightarrow> nat \<Rightarrow> 'a list \<Rightarrow> 'a list" where
  "merge_halves cmp w c = merge_by cmp (take w c) (drop w c)"

lemma length_merge_halves [simp]: "length (merge_halves cmp w c) = length c"
  by (simp add: merge_halves_def)

lemma run_task_tfold_Cons:
  "abortable (f x s) \<Longrightarrow> run_task (tfold f (x # xs) s) = rbind (run_task (f x s)) (\<lambda>s'. run_task (tfold f xs s'))"
  by (simp add: run_task_tbind)

lemma merge_start_run:
  assumes w: "0 < w" and len: "length scratch = length ids" and start: "start < length ids"
  shows "run_task (merge_at cmp w ids start scratch) =
    Inr (take start scratch @ merge_halves cmp w (take (w * 2) (drop start ids))
      @ drop (start + w * 2) scratch)"
proof -
  define middle where "middle = min (start + w) (length ids)"
  define stop where "stop = min (middle + w) (length ids)"
  have o: "start \<le> middle" "middle \<le> stop" "stop \<le> length ids" "start + (stop - start) = stop"
    using start by (auto simp: middle_def stop_def)
  have s: "slice start middle ids = take w (take (w * 2) (drop start ids))"
    using w by (auto simp: slice_def middle_def min_def)
  have t: "slice middle stop ids = drop w (take (w * 2) (drop start ids))"
    using w start by (auto simp: slice_def middle_def stop_def min_def drop_take algebra_simps)
  have d: "drop stop scratch = drop (start + w * 2) scratch"
    using len by (auto simp: stop_def middle_def min_def mult_2_right add.assoc)
  have "run_task (merge_run cmp ids middle stop start middle start (stop - start) scratch) =
    Inr (take start scratch @ merge_by cmp (slice start middle ids) (slice middle stop ids)
      @ drop (start + (stop - start)) scratch)"
    by (rule merge_run_run) (use o len start in auto)
  moreover have "merge_at cmp w ids start scratch
      = merge_run cmp ids middle stop start middle start (stop - start) scratch"
    by (simp add: merge_at_def Let_def middle_def stop_def)
  ultimately show ?thesis by (simp only: o(4) s t d merge_halves_def)
qed

lemma less_ceiling_div: "0 < s \<Longrightarrow> i < (n + s - 1) div s \<longleftrightarrow> i * s < (n :: nat)"
  by (simp add: Suc_le_eq [symmetric] less_eq_div_iff_mult_less_eq) linarith

lemma merge_pass_from:
  assumes w: "0 < w" and m: "m = (length ids + w * 2 - 1) div (w * 2)" and j: "j \<le> m"
    and len: "length scratch = length ids"
  shows "run_task (tfold (merge_at cmp w ids) (map (\<lambda>i. i * (w * 2)) [j..<m]) scratch)
    = Inr (take (j * (w * 2)) scratch @ concat (map (merge_halves cmp w) (chunks (w * 2) (drop (j * (w * 2)) ids))))"
  using j len
proof (induction "m - j" arbitrary: j scratch)
  case 0
  then have "\<not> j < m" by simp
  then have "length ids \<le> j * (w * 2)"
    using less_ceiling_div [of "w * 2" j "length ids"] w by (simp add: m)
  then show ?case using 0 by (simp add: task_simps)
next
  case (Suc d)
  let ?s = "w * 2" and ?start = "j * (w * 2)"
  have jm: "j < m" using Suc.hyps(2) by simp
  then have start: "?start < length ids"
    using less_ceiling_div [of ?s j "length ids"] w by (simp add: m)
  let ?c = "take ?s (drop ?start ids)"
  let ?scratch = "take ?start scratch @ merge_halves cmp w ?c @ drop (?start + ?s) scratch"
  have body: "run_task (merge_at cmp w ids ?start scratch) = Inr ?scratch" "abortable (merge_at cmp w ids ?start scratch)"
    using merge_start_run [OF w Suc.prems(2) start, of cmp]
    by (simp_all add: merge_at_def Let_def abortable_merge_run)
  have len': "length ?scratch = length ids" using Suc.prems(2) start by auto
  have upt: "[j..<m] = j # [Suc j..<m]" using jm by (rule upt_conv_Cons)
  have "run_task (tfold (merge_at cmp w ids) (map (\<lambda>i. i * ?s) [Suc j..<m]) ?scratch) =
      Inr (take (Suc j * ?s) ?scratch @ concat (map (merge_halves cmp w) (chunks ?s (drop (Suc j * ?s) ids))))"
    by (rule Suc.hyps(1)) (use Suc.hyps(2) jm len' in auto)
  moreover have "take (Suc j * ?s) ?scratch = take ?start scratch @ merge_halves cmp w ?c"
    using Suc.prems(2) start by (auto simp: min_def)
  moreover have "chunks ?s (drop ?start ids) = ?c # chunks ?s (drop (Suc j * ?s) ids)"
    using start w by (subst chunks.simps) (simp add: algebra_simps)
  ultimately show ?case by (simp add: upt run_task_tbind body)
qed

lemma merge_pass_run:
  assumes "0 < w" and "length scratch = length ids"
  shows "run_task (merge_pass cmp w ids scratch)
    = Inr (concat (map (merge_halves cmp w) (chunks (w * 2) ids)))"
  using merge_pass_from [OF assms(1) refl _ assms(2), of 0 cmp]
  by (simp add: merge_pass_def step_by_def)

lemma copy_back_run: "run_task (copy_back scratch) = Inr scratch"
proof -
  have "run_task (tfold (\<lambda>source ids. tbind check_cancelled (\<lambda>_. tret (ids @ source))) cs acc) = Inr (acc @ concat cs)"
    for cs :: "'a list list" and acc
    by (induction cs arbitrary: acc) (simp_all add: task_simps abortable_intros)
  then show ?thesis by (simp add: copy_back_def concat_chunks sort_chunk_def)
qed

section \<open>The sort is the insertion sort\<close>

lemma insert_by_set: "set (insert_by cmp x ys) = insert x (set ys)"
  by (induction ys) auto

lemma insert_by_mset: "mset (insert_by cmp x ys) = add_mset x (mset ys)"
  by (induction ys) auto

lemma sort_by_mset [simp]: "mset (sort_by cmp xs) = mset xs"
  by (induction xs) (simp_all add: sort_by_Cons insert_by_mset)

text \<open>An order that tells the elements apart leaves one sorted permutation.\<close>

lemma sorted_wrt_unique:
  assumes "sorted_wrt r xs" and "sorted_wrt r ys" and "mset xs = mset ys"
    and "\<And>a b. a \<in> set xs \<Longrightarrow> b \<in> set xs \<Longrightarrow> r a b \<Longrightarrow> r b a \<Longrightarrow> a = b"
  shows "xs = ys"
  using assms
proof (induction xs arbitrary: ys)
  case (Cons a xs)
  then obtain b ys' where ys: "ys = b # ys'" by (cases ys) auto
  have sets: "insert a (set xs) = insert b (set ys')"
    using Cons.prems(3) ys by (metis list.simps(15) set_mset_mset)
  then have "a = b \<or> r b a" and "a = b \<or> r a b" using Cons.prems(1, 2) ys by auto
  then have "a = b" using Cons.prems(4) [of a b] sets by auto
  then show ?case using Cons.IH [of ys'] Cons.prems ys by simp
qed simp

locale comparator =
  fixes cmp :: "'a \<Rightarrow> 'a \<Rightarrow> ordering"
  assumes total: "cmp a b = Greater \<Longrightarrow> cmp b a \<noteq> Greater"
    and trans: "cmp a b \<noteq> Greater \<Longrightarrow> cmp b c \<noteq> Greater \<Longrightarrow> cmp a c \<noteq> Greater"
begin

lemma insert_merge: "insert_by cmp x (merge_by cmp s t) = merge_by cmp (insert_by cmp x s) t"
proof (induction s arbitrary: t)
  case Nil
  show ?case by (induction t) simp_all
next
  case (Cons a s)
  note outer = Cons.IH
  show ?case
  proof (induction t)
    case Nil
    show ?case by (cases "insert_by cmp x (a # s)") simp_all
  next
    case (Cons b t)
    show ?case
    proof (cases "cmp a b \<noteq> Greater")
      case True
      then show ?thesis using outer [of "b # t"] trans [of x a b] by auto
    next
      case False
      then have "cmp b a \<noteq> Greater" using total by blast
      then show ?thesis using False Cons.IH trans [of x b a] by auto
    qed
  qed
qed


lemma merge_sorted: "merge_by cmp (sort_by cmp xs) (sort_by cmp ys) = sort_by cmp (xs @ ys)"
  by (induction xs) (simp_all add: sort_by_Cons insert_merge [symmetric])

lemma sort_by_blocks_pass:
  assumes "0 < w" and "ids = concat (map (sort_by cmp) (chunks w xs))"
  shows "concat (map (merge_halves cmp w) (chunks (w * 2) ids))
    = concat (map (sort_by cmp) (chunks (w * 2) xs))"
  using assms
proof (induction "length xs" arbitrary: xs ids rule: less_induct)
  case less
  show ?case
  proof (cases "xs = []")
    case True
    then show ?thesis using less.prems by simp
  next
    case False
    let ?rest = "drop (w * 2) xs" and ?ids' = "concat (map (sort_by cmp) (chunks w (drop (w * 2) xs)))"
    have split: "ids = sort_by cmp (take w xs) @ sort_by cmp (take w (drop w xs)) @ ?ids'"
    proof (cases "drop w xs = []")
      case True
      then show ?thesis using less.prems False by (simp add: chunks_Cons mult_2_right)
    next
      case more: False
      have "chunks w xs = take w xs # take w (drop w xs) # chunks w (drop w (drop w xs))"
        using chunks_Cons [OF less.prems(1) False] chunks_Cons [OF less.prems(1) more] by argo
      then show ?thesis by (subst less.prems(2)) (simp add: mult_2_right)
    qed
    have len: "length ids = length xs"
    proof -
      have "length (concat (map (sort_by cmp) cs)) = length (concat cs)" for cs by (induction cs) simp_all
      then show ?thesis using less.prems by (simp add: concat_chunks)
    qed
    have t: "take (w * 2) ids = sort_by cmp (take w xs) @ sort_by cmp (take w (drop w xs))"
      and d: "drop (w * 2) ids = ?ids'"
      unfolding split by (cases "length xs \<le> w * 2"; auto simp: mult_2_right min_def)+
    have "merge_halves cmp w (take (w * 2) ids) = sort_by cmp (take (w * 2) xs)"
    proof -
      have "merge_halves cmp w (take (w * 2) ids)
          = merge_by cmp (sort_by cmp (take w xs)) (sort_by cmp (take w (drop w xs)))"
        unfolding t merge_halves_def by (cases "length xs \<le> w") (simp_all add: min_def)
      also have "\<dots> = sort_by cmp (take w xs @ take w (drop w xs))" by (rule merge_sorted)
      finally show ?thesis by (simp add: mult_2_right take_add)
    qed
    moreover have "concat (map (merge_halves cmp w) (chunks (w * 2) ?ids'))
        = concat (map (sort_by cmp) (chunks (w * 2) ?rest))"
      by (rule less.hyps) (use less.prems(1) False in auto)
    moreover have "chunks (w * 2) ids = take (w * 2) ids # chunks (w * 2) ?ids'"
      using len False less.prems(1) d by (subst chunks.simps) auto
    moreover have "chunks (w * 2) xs = take (w * 2) xs # chunks (w * 2) ?rest"
      using False less.prems(1) by (subst chunks.simps) simp
    ultimately show ?thesis by simp
  qed
qed


lemma merge_passes_run:
  assumes "0 < w" and "length ids = n" and "length scratch = n"
    and "ids = concat (map (sort_by cmp) (chunks w xs))"
  shows "run_task (merge_passes cmp n w ids scratch) = Inr (sort_by cmp xs)"
  using assms
proof (induction "n - w" arbitrary: w ids scratch rule: less_induct)
  case less
  have len: "length xs = n"
  proof -
    have "length (concat (map (sort_by cmp) cs)) = length (concat cs)" for cs by (induction cs) simp_all
    then show ?thesis using less.prems by (simp add: concat_chunks)
  qed
  show ?case
  proof (cases "w < n")
    case True
    let ?ids = "concat (map (sort_by cmp) (chunks (w * 2) xs))"
    have pass: "run_task (merge_pass cmp w ids scratch) = Inr ?ids"
      using merge_pass_run [of w scratch ids cmp] sort_by_blocks_pass [OF less.prems(1,4)] less.prems
      by simp
    have "length (concat (map (sort_by cmp) cs)) = length (concat cs)" for cs by (induction cs) simp_all
    then have "length ?ids = n" using len less.prems(1) by (simp add: concat_chunks)
    then have "run_task (merge_passes cmp n (w * 2) ?ids ?ids) = Inr (sort_by cmp xs)"
      using less.prems(1) True by (intro less.hyps) auto
    then show ?thesis
      using True less.prems(1)
      by (subst merge_passes.simps) (simp add: run_task_tbind abortable_intros pass copy_back_run)
  next
    case False
    then have "ids = sort_by cmp xs"
      using less.prems(4) len by (cases "xs = []") (simp_all add: chunks_short)
    then show ?thesis using False by (subst merge_passes.simps) (simp add: task_simps)
  qed
qed

lemma insert_by_sorted:
  "sorted_wrt (\<lambda>a b. cmp a b \<noteq> Greater) ys \<Longrightarrow> sorted_wrt (\<lambda>a b. cmp a b \<noteq> Greater) (insert_by cmp x ys)"
proof (induction ys)
  case (Cons y ys)
  have "cmp x z \<noteq> Greater" if "cmp x y \<noteq> Greater" "z \<in> set ys" for z
    using trans [of x y z] that Cons.prems by simp
  then show ?case using Cons total [of x y] by (auto simp: insert_by_set)
qed simp

lemma sort_by_sorted: "sorted_wrt (\<lambda>a b. cmp a b \<noteq> Greater) (sort_by cmp xs)"
  by (induction xs) (simp_all add: sort_by_Cons insert_by_sorted)

lemma sort_by_only:
  assumes "mset ys = mset xs" and "sorted_wrt (\<lambda>a b. cmp a b \<noteq> Greater) ys"
    and "\<And>a b. a \<in> set xs \<Longrightarrow> b \<in> set xs \<Longrightarrow> cmp a b \<noteq> Greater \<Longrightarrow> cmp b a \<noteq> Greater \<Longrightarrow> a = b"
  shows "ys = sort_by cmp xs"
proof (rule sorted_wrt_unique [OF assms(2) sort_by_sorted])
  show "mset ys = mset (sort_by cmp xs)" by (simp add: assms(1))
  show "a = b" if "a \<in> set ys" "b \<in> set ys" "cmp a b \<noteq> Greater" "cmp b a \<noteq> Greater" for a b
    using assms(3) [of a b] that assms(1) by (metis set_mset_mset)
qed

end

lemma length_sort_blocks: "length (concat (map (sort_by cmp) cs)) = length (concat cs)"
  by (induction cs) simp_all

lemma cancellable_sort_run:
  assumes "comparator cmp"
  shows "run_task (cancellable_sort cmp ids) = Inr (sort_by cmp ids)"
proof -
  let ?ids = "concat (map (sort_by cmp) (chunks sort_chunk ids))"
  have pos: "0 < sort_chunk" by (simp add: sort_chunk_def)
  then have len: "length ?ids = length ids" by (simp add: length_sort_blocks concat_chunks)
  show ?thesis
  proof (cases "length ids \<le> sort_chunk")
    case True
    then have "?ids = sort_by cmp ids" by (cases "ids = []") (simp_all add: chunks_short)
    then show ?thesis using True
      by (simp add: cancellable_sort_def run_task_tbind abortable_intros sort_chunks_run task_simps)
  next
    case False
    have "run_task (merge_passes cmp (length ids) sort_chunk ?ids (replicate (length ids) 0)) = Inr (sort_by cmp ids)"
      by (rule comparator.merge_passes_run [OF assms pos len _ refl]) simp
    then show ?thesis using False len
      by (simp add: cancellable_sort_def run_task_tbind abortable_intros sort_chunks_run task_simps)
  qed
qed

lemma comparator_keys: "comparator (compare_keys f)"
  by unfold_locales (auto simp: compare_keys_def split: if_splits)

text \<open>Keys compared in turn, the first in reverse.\<close>

lemma comparator_then:
  assumes "comparator c"
  shows "comparator (\<lambda>a b. then_with (compare_keys f b a) (c a b))"
proof
  fix a b d
  show "then_with (compare_keys f b a) (c a b) = Greater \<Longrightarrow> then_with (compare_keys f a b) (c b a) \<noteq> Greater"
    using comparator.total [OF assms, of a b]
    by (auto simp: then_with_def compare_keys_def split: if_splits)
  show "then_with (compare_keys f b a) (c a b) \<noteq> Greater \<Longrightarrow>
      then_with (compare_keys f d b) (c b d) \<noteq> Greater \<Longrightarrow> then_with (compare_keys f d a) (c a d) \<noteq> Greater"
    using comparator.trans [OF assms, of a b d]
    by (auto simp: then_with_def compare_keys_def split: if_splits)
qed

text \<open>C23: The sort of the scan index sorts: for a comparison that is a total preorder and tells
  the ids apart, the chunked merge sort returns the only sorted permutation of the ids (whichever
  order the unstable sort of a chunk leaves equal elements in), which is the insertion sort of
  them; and cancelling it at any check either leaves that result or ends it with the cancellation
  error.\<close>

theorem cancellable_sort_sorts:
  assumes "comparator cmp"
    and "\<And>a b. a \<in> set ids \<Longrightarrow> b \<in> set ids \<Longrightarrow> cmp a b \<noteq> Greater \<Longrightarrow> cmp b a \<noteq> Greater \<Longrightarrow> a = b"
  shows "cancellable_sort cmp ids None = Inr (sort_by cmp ids, None)
    \<and> mset (sort_by cmp ids) = mset ids
    \<and> sorted_wrt (\<lambda>a b. cmp a b \<noteq> Greater) (sort_by cmp ids)
    \<and> (mset ys = mset ids \<longrightarrow> sorted_wrt (\<lambda>a b. cmp a b \<noteq> Greater) ys \<longrightarrow> ys = sort_by cmp ids)
    \<and> (cancellable_sort cmp ids (Some n) = Inl cancelled_error
        \<or> (\<exists>n'. cancellable_sort cmp ids (Some n) = Inr (sort_by cmp ids, Some n')))"
proof -
  have none: "cancellable_sort cmp ids None = Inr (sort_by cmp ids, None)"
    using cancellable_sort_run [OF assms(1), of ids] abortable_cancellable_sort [of cmp ids]
    by (auto simp: run_task_def abortable_def split: sum.splits)
  have "cancellable_sort cmp ids (Some n) = Inl cancelled_error
      \<or> (\<exists>n'. cancellable_sort cmp ids (Some n) = Inr (sort_by cmp ids, Some n'))"
    using abortable_cancellable_sort [of cmp ids] none by (simp add: abortable_def)
  then show ?thesis
    using none comparator.sort_by_sorted [OF assms(1)] comparator.sort_by_only [OF assms(1) _ _ assms(2)]
    by simp
qed

theorem cancellable_sort_sorts_witness:
  "cancellable_sort (compare_keys uint) [5, 2, 9, 2] None = Inr ([2, 2, 5, 9], None)"
proof -
  have "a = b" if "compare_keys uint a b \<noteq> Greater" "compare_keys uint b a \<noteq> Greater" for a b :: u64
    using that by (auto simp: compare_keys_def split: if_splits simp flip: word_uint_eq_iff)
  then show ?thesis
    using cancellable_sort_sorts [OF comparator_keys [of uint], of "[5, 2, 9, 2]"]
    by (simp add: sort_by_def compare_keys_def)
qed

end
