(* ===== verification/Scan_Index.thy ===== *)
theory Scan_Index
  imports Scan_Sort "HOL-Library.Option_ord"
begin

text \<open>
  The index over a scan report (\<open>scan/index.rs\<close>): the hierarchy of the observed entries, the
  coverage and the deduplicated totals of every directory, and the orders of its children.
  A \<open>HashMap\<close> of paths is a map from their components; the order in which it is iterated is a
  parameter. A \<open>HashSet\<close> that is iterated is a list without repetitions.
\<close>

section \<open>Data\<close>

datatype sort_choice = SortSize | SortName

datatype metric = Logical | Allocated

record directory_summary =
  ds_private_bytes :: "u64 option"
  ds_unique_files :: u64
  ds_logical_bytes_known :: u64
  ds_logical_bytes_unknown_files :: u64
  ds_allocated_bytes_known :: u64
  ds_allocated_bytes_unknown_files :: u64
  ds_complete :: bool

record dir_node =
  dn_children :: "u64 list"
  dn_size_orders :: "u64 list \<times> u64 list"
  dn_summary :: "directory_summary option"

record index_node =
  xn_parent :: "nat option"
  xn_directory :: "dir_node option"
  xn_contains_dataless :: bool

record scan_tree =
  tr_report :: scan_report
  tr_positions :: "u64 \<rightharpoonup> nat"
  tr_nodes :: "index_node list"
  tr_roots :: "u64 list"
  tr_root_size_orders :: "u64 list \<times> u64 list"
  tr_complete :: bool

definition dir_node_default :: dir_node where
  "dir_node_default = \<lparr>dn_children = [], dn_size_orders = ([], []), dn_summary = None\<rparr>"

definition index_invalid :: "bytes \<Rightarrow> scan_error" where
  "index_invalid message = scan_error_new ScInvalidRoot message"

section \<open>Measurements of an identity\<close>

record measurements =
  ms_private :: "u64 option"
  ms_logical :: "u64 option"
  ms_allocated :: "u64 option"

definition observe :: "measurements \<Rightarrow> measurements \<Rightarrow> measurements" where
  "observe a b = \<lparr>ms_private = (if ms_private a \<noteq> ms_private b then None else ms_private a),
     ms_logical = (if ms_logical a \<noteq> ms_logical b then None else ms_logical a),
     ms_allocated = (if ms_allocated a \<noteq> ms_allocated b then None else ms_allocated a)\<rparr>"

record identity_measurement =
  im_measurement :: measurements
  im_repeated :: bool

type_synonym identity_table = "file_identity \<rightharpoonup> identity_measurement"

definition observation_of :: "scan_entry \<Rightarrow> measurements" where
  "observation_of e = \<lparr>ms_private = sn_private_bytes e, ms_logical = sn_logical_bytes e,
     ms_allocated = sn_allocated_bytes e\<rparr>"

definition measure_entry :: "scan_entry \<Rightarrow> identity_table \<Rightarrow> identity_table" where
  "measure_entry e t =
     (if sn_kind e = KFile
      then t(sn_identity e \<mapsto>
        (case t (sn_identity e) of
           Some known \<Rightarrow> \<lparr>im_measurement = observe (im_measurement known) (observation_of e),
             im_repeated = True\<rparr>
         | None \<Rightarrow> \<lparr>im_measurement = observation_of e, im_repeated = False\<rparr>))
      else t)"

section \<open>Totals of a set of identities\<close>

record identity_bag =
  ib_identities :: "file_identity list"
  ib_singles :: directory_summary
  ib_shared :: directory_summary

definition empty_summary :: directory_summary where
  "empty_summary = \<lparr>ds_private_bytes = Some 0, ds_unique_files = 0, ds_logical_bytes_known = 0,
     ds_logical_bytes_unknown_files = 0, ds_allocated_bytes_known = 0,
     ds_allocated_bytes_unknown_files = 0, ds_complete = False\<rparr>"

definition bag_default :: identity_bag where
  "bag_default = \<lparr>ib_identities = [], ib_singles = empty_summary, ib_shared = empty_summary\<rparr>"

definition summary_add :: "u64 \<Rightarrow> u64 \<Rightarrow> (scan_error, u64) result" where
  "summary_add a b = ok_or (scan_error_new ScOverflow ''directory summary overflow'') (checked_add a b)"

text \<open>\<open>a.and_then(|a| b.and_then(|b| a.checked_add(b)))\<close>\<close>

definition option_add :: "u64 option \<Rightarrow> u64 option \<Rightarrow> u64 option" where
  "option_add a b =
     (case a of None \<Rightarrow> None | Some x \<Rightarrow> (case b of None \<Rightarrow> None | Some y \<Rightarrow> checked_add x y))"

definition merge_summary ::
  "directory_summary \<Rightarrow> directory_summary \<Rightarrow> (scan_error, directory_summary) result" where
  "merge_summary a b =
     rbind (summary_add (ds_unique_files a) (ds_unique_files b)) (\<lambda>files.
     rbind (summary_add (ds_logical_bytes_known a) (ds_logical_bytes_known b)) (\<lambda>logical.
     rbind (summary_add (ds_logical_bytes_unknown_files a) (ds_logical_bytes_unknown_files b)) (\<lambda>lu.
     rbind (summary_add (ds_allocated_bytes_known a) (ds_allocated_bytes_known b)) (\<lambda>alloc.
     rbind (summary_add (ds_allocated_bytes_unknown_files a) (ds_allocated_bytes_unknown_files b)) (\<lambda>au.
     Inr (a\<lparr>ds_private_bytes := option_add (ds_private_bytes a) (ds_private_bytes b),
       ds_unique_files := files, ds_logical_bytes_known := logical,
       ds_logical_bytes_unknown_files := lu, ds_allocated_bytes_known := alloc,
       ds_allocated_bytes_unknown_files := au\<rparr>))))))"

text \<open>One more file: the summary of a measurement and \<open>IdentityBag::insert\<close>.\<close>

definition add_measurement ::
  "measurements \<Rightarrow> directory_summary \<Rightarrow> (scan_error, directory_summary) result" where
  "add_measurement ms s =
     rbind (summary_add (ds_unique_files s) 1) (\<lambda>files.
     rbind (case ms_logical ms of
              Some b \<Rightarrow> rbind (summary_add (ds_logical_bytes_known s) b) (\<lambda>x. Inr (x, ds_logical_bytes_unknown_files s))
            | None \<Rightarrow> rbind (summary_add (ds_logical_bytes_unknown_files s) 1) (\<lambda>x. Inr (ds_logical_bytes_known s, x)))
       (\<lambda>(lk, lu).
     rbind (case ms_allocated ms of
              Some b \<Rightarrow> rbind (summary_add (ds_allocated_bytes_known s) b) (\<lambda>x. Inr (x, ds_allocated_bytes_unknown_files s))
            | None \<Rightarrow> rbind (summary_add (ds_allocated_bytes_unknown_files s) 1) (\<lambda>x. Inr (ds_allocated_bytes_known s, x)))
       (\<lambda>(ak, au).
     Inr (s\<lparr>ds_private_bytes := option_add (ds_private_bytes s) (ms_private ms),
       ds_unique_files := files, ds_logical_bytes_known := lk, ds_logical_bytes_unknown_files := lu,
       ds_allocated_bytes_known := ak, ds_allocated_bytes_unknown_files := au\<rparr>))))"

definition bag_insert :: "identity_table \<Rightarrow> file_identity \<Rightarrow> identity_bag \<Rightarrow> identity_bag task" where
  "bag_insert t i bag =
     tbind check_cancelled (\<lambda>_. tlift
       (let known = the (t i) in
        if im_repeated known then
          (if i \<in> set (ib_identities bag) then Inr bag
           else rbind (add_measurement (im_measurement known) (ib_shared bag)) (\<lambda>s.
             Inr (bag\<lparr>ib_identities := i # ib_identities bag, ib_shared := s\<rparr>)))
        else rbind (add_measurement (im_measurement known) (ib_singles bag)) (\<lambda>s.
             Inr (bag\<lparr>ib_singles := s\<rparr>))))"

definition bag_merge :: "identity_table \<Rightarrow> identity_bag \<Rightarrow> identity_bag \<Rightarrow> identity_bag task" where
  "bag_merge t bag other =
     tbind check_cancelled (\<lambda>_.
       let (a, b) = (if length (ib_identities bag) < length (ib_identities other) then (other, bag)
                     else (bag, other)) in
       tbind (tlift (merge_summary (ib_singles a) (ib_singles b))) (\<lambda>s.
         tfold (bag_insert t) (ib_identities b) (a\<lparr>ib_singles := s\<rparr>)))"

definition bag_summary :: "identity_bag \<Rightarrow> (scan_error, directory_summary) result" where
  "bag_summary bag = merge_summary (ib_singles bag) (ib_shared bag)"

section \<open>Registering the entries\<close>

definition validate_index_path :: "path \<Rightarrow> (scan_error, unit) result" where
  "validate_index_path p = ensure (valid_absolute_path p \<and> parent p \<noteq> None)
     (index_invalid ''scan index requires non-root absolute paths without parent traversal or NUL'')"

definition add_path_bytes :: "nat \<Rightarrow> path \<Rightarrow> nat \<Rightarrow> (scan_error, nat) result" where
  "add_path_bytes used p limit =
     (if used + length p \<le> limit then Inr (used + length p)
      else Inl (scan_error_new ScPathBytesLimit ''scan index path-byte limit''))"

definition register_root ::
  "scan_limits \<Rightarrow> path \<Rightarrow> nat \<times> component list set \<Rightarrow> (nat \<times> component list set) task" where
  "register_root limits root s =
     (case s of (used, seen) \<Rightarrow>
        tbind check_cancelled (\<lambda>_. tlift
          (rbind (validate_index_path root) (\<lambda>_.
           rbind (add_path_bytes used root (sl_max_path_bytes limits)) (\<lambda>used'.
             if components root \<in> seen then Inl (index_invalid ''duplicate explicit root path'')
             else Inr (used', insert (components root) seen))))))"

record register =
  rg_positions :: "u64 \<rightharpoonup> nat"
  rg_paths :: "component list \<rightharpoonup> nat"
  rg_measurements :: identity_table
  rg_path_bytes :: nat
  rg_nodes :: "index_node list"

definition register_empty :: register where
  "register_empty = \<lparr>rg_positions = Map.empty, rg_paths = Map.empty, rg_measurements = Map.empty,
     rg_path_bytes = 0, rg_nodes = []\<rparr>"

definition new_node :: "scan_entry \<Rightarrow> index_node" where
  "new_node e = \<lparr>xn_parent = None,
     xn_directory = (if sn_kind e = KDirectory then Some dir_node_default else None),
     xn_contains_dataless = sn_dataless e\<rparr>"

definition register_entry :: "scan_limits \<Rightarrow> scan_entry \<Rightarrow> register \<Rightarrow> register task" where
  "register_entry limits e g =
     (let position = length (rg_nodes g) in
      tbind check_cancelled (\<lambda>_. tlift
        (rbind (validate_index_path (sn_path e)) (\<lambda>_.
         rbind (add_path_bytes (rg_path_bytes g) (sn_path e) (sl_max_path_bytes limits)) (\<lambda>used.
           if rg_positions g (sn_id e) \<noteq> None then Inl (index_invalid ''duplicate scan entry ID'')
           else if rg_paths g (components (sn_path e)) \<noteq> None
           then Inl (index_invalid ''duplicate scan entry path'')
           else Inr \<lparr>rg_positions = (rg_positions g)(sn_id e \<mapsto> position),
                  rg_paths = (rg_paths g)(components (sn_path e) \<mapsto> position),
                  rg_measurements = measure_entry e (rg_measurements g),
                  rg_path_bytes = used,
                  rg_nodes = rg_nodes g @ [new_node e]\<rparr>)))))"

definition check_root_kind ::
  "scan_entry list \<Rightarrow> (component list \<rightharpoonup> nat) \<Rightarrow> path \<Rightarrow> unit \<Rightarrow> unit task" where
  "check_root_kind entries paths root s =
     tbind check_cancelled (\<lambda>_. tlift
       (case paths (components root) of
          None \<Rightarrow> Inr ()
        | Some p \<Rightarrow> ensure (sn_kind (entries ! p) = KDirectory)
            (index_invalid ''explicit root entry is not a directory'')))"

section \<open>The hierarchy\<close>

definition push_child :: "u64 \<Rightarrow> index_node \<Rightarrow> index_node" where
  "push_child child n =
     n\<lparr>xn_directory := map_option (\<lambda>d. d\<lparr>dn_children := dn_children d @ [child]\<rparr>) (xn_directory n)\<rparr>"

definition link_entry ::
  "scan_entry list \<Rightarrow> (component list \<rightharpoonup> nat) \<Rightarrow> component list set \<Rightarrow> nat
     \<Rightarrow> u64 list \<times> index_node list \<Rightarrow> (u64 list \<times> index_node list) task" where
  "link_entry entries paths explicit position s =
     (case s of (roots, nodes) \<Rightarrow>
        let e = entries ! position in
        tbind check_cancelled (\<lambda>_. tlift
          (case (case parent (sn_path e) of None \<Rightarrow> None | Some q \<Rightarrow> paths (components q)) of
             Some par \<Rightarrow>
               if sn_kind (entries ! par) \<noteq> KDirectory
               then Inl (index_invalid ''scan entry parent is not a directory'')
               else (let nodes1 = nodes[position := (nodes ! position)\<lparr>xn_parent := Some par\<rparr>]
                     in Inr (roots, nodes1[par := push_child (sn_id e) (nodes1 ! par)]))
           | None \<Rightarrow>
               if components (sn_path e) \<in> explicit then Inr (roots @ [sn_id e], nodes)
               else Inl (index_invalid ''scan entry has no observed parent or explicit root''))))"

section \<open>Coverage\<close>

text \<open>
  \<open>Path::ancestors\<close> inserted one after the other until one is there already; an ancestor is
  kept as its components.
\<close>

function insert_ancestors :: "path \<Rightarrow> component list set \<Rightarrow> component list set task" where
  "insert_ancestors p paths =
     tbind check_cancelled (\<lambda>_.
       if components p \<in> paths then tret paths
       else (case parent p of
               None \<Rightarrow> tret (insert (components p) paths)
             | Some q \<Rightarrow> insert_ancestors q (insert (components p) paths)))"
  by pat_completeness auto

termination insert_ancestors
  by (relation "measure (\<lambda>(p, paths). length (components p))") (auto dest: parent_length)

declare insert_ancestors.simps [simp del]

definition bounded_gap ::
  "scan_entry list \<Rightarrow> (component list \<rightharpoonup> nat) \<Rightarrow> scan_issue \<Rightarrow> bool" where
  "bounded_gap entries paths issue \<longleftrightarrow> is_subtree_gap (si_code issue)
     \<and> (case si_path issue of
          None \<Rightarrow> False
        | Some p \<Rightarrow> valid_absolute_path p
            \<and> (case paths (components p) of
                 None \<Rightarrow> True
               | Some position \<Rightarrow> sn_kind (entries ! position) = KDirectory))"

record coverage =
  cv_complete :: bool
  cv_localized :: bool
  cv_incomplete :: "component list set"

definition cover_issue ::
  "scan_entry list \<Rightarrow> (component list \<rightharpoonup> nat) \<Rightarrow> scan_issue \<Rightarrow> coverage \<Rightarrow> coverage task" where
  "cover_issue entries paths issue c =
     tbind check_cancelled (\<lambda>_.
       if \<not> is_gap (si_code issue) then tret c
       else if \<not> cv_localized c \<or> \<not> bounded_gap entries paths issue
       then tret (c\<lparr>cv_complete := False, cv_localized := False\<rparr>)
       else tbind (insert_ancestors (the (si_path issue)) (cv_incomplete c)) (\<lambda>inc.
              tret (c\<lparr>cv_complete := False, cv_incomplete := inc\<rparr>)))"

definition cover_root ::
  "scan_issue list \<Rightarrow> (component list \<rightharpoonup> nat) \<Rightarrow> path \<Rightarrow> coverage \<Rightarrow> coverage task" where
  "cover_root issues paths root c =
     tbind check_cancelled (\<lambda>_. tret
       (if paths (components root) = None
           \<and> \<not> list_ex (\<lambda>i. (case si_path i of None \<Rightarrow> False | Some p \<Rightarrow> path_eq p root)
                 \<and> si_code i \<in> {ScDuplicateRoot, ScDuplicateDirectory}) issues
        then c\<lparr>cv_complete := False, cv_localized := False\<rparr> else c))"

definition index_coverage ::
  "scan_report \<Rightarrow> (component list \<rightharpoonup> nat) \<Rightarrow> coverage task" where
  "index_coverage r paths =
     tbind (tfold (cover_issue (sr_entries r) paths) (sr_issues r)
        \<lparr>cv_complete = sr_complete r \<and> sr_scan_status r = StatusComplete \<and> sr_issues_omitted r = 0,
         cv_localized = sr_scan_status r = StatusPartial \<and> sr_issues_omitted r = 0,
         cv_incomplete = {}\<rparr>) (\<lambda>c.
       tfold (cover_root (sr_issues r) paths) (sr_roots r)
         (c\<lparr>cv_localized := cv_localized c \<and> \<not> cv_complete c \<and> cv_incomplete c \<noteq> {}\<rparr>))"

section \<open>Accounting\<close>

text \<open>
  \<open>while let Some(id) = pending.pop()\<close>: the stack is a list with its top first. The fuel bounds
  the number of entries visited; what is still pending is returned.
\<close>

fun descend ::
  "(u64 \<rightharpoonup> nat) \<Rightarrow> index_node list \<Rightarrow> nat \<Rightarrow> u64 list \<Rightarrow> nat list \<Rightarrow> (u64 list \<times> nat list) task" where
  "descend positions nodes fuel [] order = tret ([], order)"
| "descend positions nodes 0 (i # pending) order = tret (i # pending, order)"
| "descend positions nodes (Suc fuel) (i # pending) order =
     tbind check_cancelled (\<lambda>_.
       let position = the (positions i) in
       case xn_directory (nodes ! position) of
         None \<Rightarrow> descend positions nodes fuel pending (order @ [position])
       | Some d \<Rightarrow>
           tbind (tfold (\<lambda>child stack. tbind check_cancelled (\<lambda>_. tret (child # stack)))
                    (dn_children d) pending) (\<lambda>stack.
             descend positions nodes fuel stack (order @ [position])))"

definition complete_at :: "coverage \<Rightarrow> path \<Rightarrow> bool" where
  "complete_at c p \<longleftrightarrow> cv_complete c \<or> (cv_localized c \<and> components p \<notin> cv_incomplete c)"

definition into_parent ::
  "index_node list \<Rightarrow> nat \<Rightarrow> (identity_bag \<Rightarrow> identity_bag task) \<Rightarrow> identity_bag option list
     \<Rightarrow> identity_bag option list task" where
  "into_parent nodes position f bags =
     (case xn_parent (nodes ! position) of
        None \<Rightarrow> tret bags
      | Some par \<Rightarrow>
          tbind (f (case bags ! par of None \<Rightarrow> bag_default | Some bag \<Rightarrow> bag)) (\<lambda>bag.
            tret (bags[par := Some bag])))"

definition pass_dataless :: "nat \<Rightarrow> index_node list \<Rightarrow> index_node list" where
  "pass_dataless position nodes =
     (case xn_parent (nodes ! position) of
        None \<Rightarrow> nodes
      | Some par \<Rightarrow>
          nodes[par := (nodes ! par)\<lparr>xn_contains_dataless :=
            xn_contains_dataless (nodes ! par) \<or> xn_contains_dataless (nodes ! position)\<rparr>])"

definition final_summary :: "coverage \<Rightarrow> path \<Rightarrow> directory_summary \<Rightarrow> directory_summary" where
  "final_summary c p s =
     (if complete_at c p then s\<lparr>ds_complete := True\<rparr>
      else s\<lparr>ds_complete := False, ds_private_bytes := None\<rparr>)"

definition set_summary :: "directory_summary \<Rightarrow> index_node \<Rightarrow> index_node" where
  "set_summary s n = n\<lparr>xn_directory := map_option (\<lambda>d. d\<lparr>dn_summary := Some s\<rparr>) (xn_directory n)\<rparr>"

definition account ::
  "scan_entry list \<Rightarrow> identity_table \<Rightarrow> coverage \<Rightarrow> nat \<Rightarrow> index_node list \<times> identity_bag option list
     \<Rightarrow> (index_node list \<times> identity_bag option list) task" where
  "account entries t c position s =
     (case s of (nodes0, bags) \<Rightarrow>
        tbind check_cancelled (\<lambda>_.
          let e = entries ! position; nodes = pass_dataless position nodes0 in
          case sn_kind e of
            KFile \<Rightarrow>
              tbind (into_parent nodes position (bag_insert t (sn_identity e)) bags) (\<lambda>bags'.
                tret (nodes, bags'))
          | KDirectory \<Rightarrow>
              (let bag = (case bags ! position of None \<Rightarrow> bag_default | Some bag \<Rightarrow> bag);
                   bags1 = bags[position := None] in
               tbind (tlift (bag_summary bag)) (\<lambda>s.
               tbind (into_parent nodes position (\<lambda>b. bag_merge t b bag) bags1) (\<lambda>bags'.
                 tret (nodes[position := set_summary (final_summary c (sn_path e) s) (nodes ! position)],
                   bags'))))
          | _ \<Rightarrow> tret (nodes, bags)))"

section \<open>Orders\<close>

definition size_at :: "scan_entry list \<Rightarrow> index_node list \<Rightarrow> metric \<Rightarrow> nat \<Rightarrow> u64 option" where
  "size_at entries nodes metric position =
     (let e = entries ! position in
      case sn_kind e of
        KDirectory \<Rightarrow>
          (case (case xn_directory (nodes ! position) of None \<Rightarrow> None | Some d \<Rightarrow> dn_summary d) of
             None \<Rightarrow> None
           | Some s \<Rightarrow>
               (let (known, unknown) = (case metric of
                    Logical \<Rightarrow> (ds_logical_bytes_known s, ds_logical_bytes_unknown_files s)
                  | Allocated \<Rightarrow> (ds_allocated_bytes_known s, ds_allocated_bytes_unknown_files s)) in
                if (known = 0 \<and> 0 < unknown) \<or> (\<not> ds_complete s \<and> ds_unique_files s = 0) then None
                else Some known))
      | KFile \<Rightarrow> (case metric of Logical \<Rightarrow> sn_logical_bytes e | Allocated \<Rightarrow> sn_allocated_bytes e)
      | _ \<Rightarrow> None)"

definition compare_name :: "scan_entry list \<Rightarrow> bool \<Rightarrow> u64 \<Rightarrow> u64 \<Rightarrow> ordering" where
  "compare_name entries siblings a b =
     (if siblings then compare_keys (\<lambda>i. file_name (sn_path (entries ! unat i))) a b
      else compare_keys (\<lambda>i. components (sn_path (entries ! unat i))) a b)"

definition compare_size :: "scan_entry list \<Rightarrow> index_node list \<Rightarrow> bool \<Rightarrow> metric \<Rightarrow> u64 \<Rightarrow> u64 \<Rightarrow> ordering" where
  "compare_size entries nodes siblings metric a b =
     then_with (compare_keys (\<lambda>i. size_at entries nodes metric (unat i)) b a)
       (compare_name entries siblings a b)"

definition tmap :: "('a \<Rightarrow> 'b) \<Rightarrow> 'a list \<Rightarrow> 'b list task" where
  "tmap f xs = tfold (\<lambda>x ys. tbind check_cancelled (\<lambda>_. tret (ys @ [f x]))) xs []"

definition build_orders ::
  "scan_entry list \<Rightarrow> (u64 \<rightharpoonup> nat) \<Rightarrow> index_node list \<Rightarrow> u64 list \<Rightarrow> bool
     \<Rightarrow> (u64 list \<times> u64 list \<times> u64 list) task" where
  "build_orders entries positions nodes ids siblings =
     tbind (tmap (\<lambda>i. of_nat (the (positions i))) ids) (\<lambda>names0.
     tbind (cancellable_sort (compare_name entries siblings) names0) (\<lambda>names.
     tbind check_cancelled (\<lambda>_.
     tbind (cancellable_sort (compare_size entries nodes siblings Logical) names) (\<lambda>logical.
     tbind check_cancelled (\<lambda>_.
     tbind (cancellable_sort (compare_size entries nodes siblings Allocated) names) (\<lambda>allocated.
     tbind (tmap (\<lambda>i. sn_id (entries ! unat i)) names) (\<lambda>names'.
     tbind (tmap (\<lambda>i. sn_id (entries ! unat i)) logical) (\<lambda>logical'.
     tbind (tmap (\<lambda>i. sn_id (entries ! unat i)) allocated) (\<lambda>allocated'.
       tret (names', logical', allocated'))))))))))"

definition order_children ::
  "scan_entry list \<Rightarrow> (u64 \<rightharpoonup> nat) \<Rightarrow> nat \<Rightarrow> index_node list \<Rightarrow> index_node list task" where
  "order_children entries positions position nodes =
     tbind check_cancelled (\<lambda>_.
       case xn_directory (nodes ! position) of
         None \<Rightarrow> tret nodes
       | Some d \<Rightarrow>
           tbind (build_orders entries positions nodes (dn_children d) True) (\<lambda>(names, logical, allocated).
             tret (nodes[position := (nodes ! position)\<lparr>xn_directory :=
               Some (d\<lparr>dn_children := names, dn_size_orders := (logical, allocated)\<rparr>)\<rparr>])))"

section \<open>Building the index\<close>

definition register_report :: "scan_report \<Rightarrow> scan_limits \<Rightarrow> (component list set \<times> register) task" where
  "register_report r limits =
     tbind (tlift (scan_limits_validate limits)) (\<lambda>_.
     tbind check_cancelled (\<lambda>_.
     if sl_max_entries limits < length (sr_entries r)
     then tlift (Inl (scan_error_new ScEntryLimit ''scan index entry limit''))
     else if 64 < length (sr_roots r)
     then tlift (Inl (index_invalid ''scan index has too many explicit roots''))
     else
     tbind (tfold (register_root limits) (sr_roots r) (0, {})) (\<lambda>(root_bytes, explicit).
     tbind (tfold (\<lambda>e s. check_cancelled) (sr_entries r) ()) (\<lambda>_.
     tbind (tfold (register_entry limits) (sr_entries r) register_empty) (\<lambda>g.
     tbind (tfold (check_root_kind (sr_entries r) (rg_paths g)) (sr_roots r) ()) (\<lambda>_.
       tret (explicit, g)))))))"

text \<open>\<open>order\<close>: the order in which the map of the paths is iterated, as positions.\<close>

definition build_shared :: "nat list \<Rightarrow> scan_report \<Rightarrow> scan_limits \<Rightarrow> scan_tree task" where
  "build_shared order r limits =
     (let entries = sr_entries r in
      tbind (register_report r limits) (\<lambda>(explicit, g).
      tbind (tfold (link_entry entries (rg_paths g) explicit) order ([], rg_nodes g)) (\<lambda>(roots, nodes).
      tbind (index_coverage r (rg_paths g)) (\<lambda>c.
      tbind (descend (rg_positions g) nodes (length entries) (rev roots) []) (\<lambda>(pending, visited).
      tbind (tfold (account entries (rg_measurements g) c) (rev visited)
               (nodes, replicate (length entries) None)) (\<lambda>(nodes1, bags).
      tbind check_cancelled (\<lambda>_.
      tbind (tfold (order_children entries (rg_positions g)) [0..<length nodes1] nodes1) (\<lambda>nodes2.
      tbind (build_orders entries (rg_positions g) nodes2 roots False) (\<lambda>(names, logical, allocated).
        tret \<lparr>tr_report = r, tr_positions = rg_positions g, tr_nodes = nodes2, tr_roots = names,
          tr_root_size_orders = (logical, allocated), tr_complete = cv_complete c\<rparr>)))))))))"

section \<open>Queries\<close>

definition tree_entry :: "scan_tree \<Rightarrow> u64 \<Rightarrow> scan_entry option" where
  "tree_entry t i = map_option (\<lambda>p. sr_entries (tr_report t) ! p) (tr_positions t i)"

definition tree_contains_dataless :: "scan_tree \<Rightarrow> u64 \<Rightarrow> bool" where
  "tree_contains_dataless t i =
     (case tr_positions t i of None \<Rightarrow> False | Some p \<Rightarrow> xn_contains_dataless (tr_nodes t ! p))"

definition tree_directory :: "scan_tree \<Rightarrow> u64 \<Rightarrow> dir_node option" where
  "tree_directory t i =
     (case tr_positions t i of None \<Rightarrow> None | Some p \<Rightarrow> xn_directory (tr_nodes t ! p))"

definition tree_children :: "scan_tree \<Rightarrow> u64 \<Rightarrow> u64 list option" where
  "tree_children t i = map_option dn_children (tree_directory t i)"

definition tree_parent :: "scan_tree \<Rightarrow> u64 \<Rightarrow> u64 option" where
  "tree_parent t i =
     (case tr_positions t i of
        None \<Rightarrow> None
      | Some p \<Rightarrow> map_option (\<lambda>q. sn_id (sr_entries (tr_report t) ! q)) (xn_parent (tr_nodes t ! p)))"

definition tree_summary :: "scan_tree \<Rightarrow> u64 \<Rightarrow> directory_summary option" where
  "tree_summary t i = (case tree_directory t i of None \<Rightarrow> None | Some d \<Rightarrow> dn_summary d)"

definition tree_private_size :: "scan_tree \<Rightarrow> u64 \<Rightarrow> u64 option" where
  "tree_private_size t i =
     (case tree_entry t i of
        None \<Rightarrow> None
      | Some e \<Rightarrow>
          (if sn_kind e = KFile \<and> \<not> sn_dataless e then sn_private_bytes e
           else if sn_kind e = KDirectory
           then (case tree_summary t i of
                   None \<Rightarrow> None
                 | Some s \<Rightarrow> if ds_complete s then ds_private_bytes s else None)
           else None))"

definition tree_size :: "scan_tree \<Rightarrow> u64 \<Rightarrow> metric \<Rightarrow> u64 option" where
  "tree_size t i metric =
     (case tr_positions t i of
        None \<Rightarrow> None
      | Some p \<Rightarrow> size_at (sr_entries (tr_report t)) (tr_nodes t) metric p)"

fun ordered :: "'a \<Rightarrow> 'a \<times> 'a \<Rightarrow> sort_choice \<Rightarrow> metric \<Rightarrow> 'a" where
  "ordered names sizes SortName metric = names"
| "ordered names sizes SortSize Logical = fst sizes"
| "ordered names sizes SortSize Allocated = snd sizes"

definition ordered_children :: "scan_tree \<Rightarrow> u64 \<Rightarrow> sort_choice \<Rightarrow> metric \<Rightarrow> u64 list option" where
  "ordered_children t i choice metric =
     map_option (\<lambda>d. ordered (dn_children d) (dn_size_orders d) choice metric) (tree_directory t i)"

definition ordered_roots :: "scan_tree \<Rightarrow> sort_choice \<Rightarrow> metric \<Rightarrow> u64 list" where
  "ordered_roots t choice metric = ordered (tr_roots t) (tr_root_size_orders t) choice metric"

section \<open>The comparisons of the index\<close>

lemma compare_name_keys:
  "compare_name entries siblings = (if siblings
     then compare_keys (\<lambda>i. file_name (sn_path (entries ! unat i)))
     else compare_keys (\<lambda>i. components (sn_path (entries ! unat i))))"
  by (intro ext) (simp add: compare_name_def)

interpretation by_name: comparator "compare_name entries siblings" for entries siblings
  by (cases siblings) (simp_all add: compare_name_keys comparator_keys)

interpretation by_size: comparator "compare_size entries nodes siblings metric"
  for entries nodes siblings metric
  unfolding compare_size_def by (rule comparator_then) (rule by_name.comparator_axioms)

section \<open>Cancellation\<close>

text \<open>Every step of the index can only be cut short.\<close>

lemma abortable_register_root [abortable_intros]: "abortable (register_root limits root s)"
  by (cases s) (simp add: register_root_def abortable_intros)

lemma abortable_register_entry [abortable_intros]: "abortable (register_entry limits e g)"
  by (simp add: register_entry_def Let_def abortable_intros)

lemma abortable_check_root_kind [abortable_intros]: "abortable (check_root_kind entries paths root s)"
  by (simp add: check_root_kind_def abortable_intros)

lemma abortable_link_entry [abortable_intros]: "abortable (link_entry entries paths explicit position s)"
  by (cases s) (simp add: link_entry_def Let_def abortable_intros)

lemma abortable_insert_ancestors [abortable_intros]: "abortable (insert_ancestors p paths)"
proof (induction p paths rule: insert_ancestors.induct)
  case (1 p paths)
  then show ?case
    by (subst insert_ancestors.simps) (auto simp: abortable_intros split: option.split)
qed

lemma abortable_cover_issue [abortable_intros]: "abortable (cover_issue entries paths issue c)"
  by (simp add: cover_issue_def abortable_intros)

lemma abortable_cover_root [abortable_intros]: "abortable (cover_root issues paths root c)"
  by (simp add: cover_root_def abortable_intros)

lemma abortable_index_coverage [abortable_intros]: "abortable (index_coverage r paths)"
  by (simp add: index_coverage_def abortable_intros)

lemma abortable_descend [abortable_intros]: "abortable (descend positions nodes fuel pending order)"
  by (induction positions nodes fuel pending order rule: descend.induct)
    (auto simp: abortable_intros Let_def split: option.split)

lemma abortable_bag_insert [abortable_intros]: "abortable (bag_insert t i bag)"
  by (simp add: bag_insert_def abortable_intros)

lemma abortable_bag_merge [abortable_intros]: "abortable (bag_merge t bag other)"
  by (simp add: bag_merge_def Let_def abortable_intros)

lemma abortable_into_parent [abortable_intros]:
  "(\<And>b. abortable (f b)) \<Longrightarrow> abortable (into_parent nodes position f bags)"
  by (simp add: into_parent_def abortable_intros split: option.split)

lemma abortable_account [abortable_intros]: "abortable (account entries t c position s)"
  by (cases s) (simp add: account_def Let_def abortable_intros split: resource_kind.split)

lemma abortable_tmap [abortable_intros]: "abortable (tmap f xs)"
  by (simp add: tmap_def abortable_intros)

lemma abortable_build_orders [abortable_intros]: "abortable (build_orders entries positions nodes ids siblings)"
  by (simp add: build_orders_def abortable_intros)

lemma abortable_order_children [abortable_intros]: "abortable (order_children entries positions position nodes)"
  by (simp add: order_children_def abortable_intros split: option.split prod.split)

lemma abortable_register_report [abortable_intros]: "abortable (register_report r limits)"
  by (simp add: register_report_def abortable_intros split: prod.split)

lemma abortable_build_shared [abortable_intros]: "abortable (build_shared order r limits)"
  by (simp add: build_shared_def Let_def abortable_intros split: prod.split)

end
