(* ===== verification/Scan_Hierarchy.thy ===== *)
theory Scan_Hierarchy
  imports Scan_Index
begin

text \<open>
  The hierarchy that \<open>ScanTree::build_shared\<close> derives from a report: what registration and
  linking establish, and that the explicit-stack traversal visits every entry exactly once,
  parents first, within as many steps as there are entries.
\<close>

section \<open>What registration establishes\<close>

abbreviation path_at :: "scan_entry list \<Rightarrow> nat \<Rightarrow> component list" where
  "path_at entries p \<equiv> components (sn_path (entries ! p))"

definition indexed :: "('a \<Rightarrow> 'k) \<Rightarrow> 'a list \<Rightarrow> ('k \<rightharpoonup> nat) \<Rightarrow> bool" where
  "indexed key xs m \<longleftrightarrow> distinct (map key xs) \<and> (\<forall>k p. m k = Some p \<longleftrightarrow> p < length xs \<and> key (xs ! p) = k)"

lemma indexed_Nil [simp]: "indexed key [] Map.empty"
  by (simp add: indexed_def)

lemma indexed_snoc:
  assumes "indexed key xs m" and "m (key x) = None"
  shows "indexed key (xs @ [x]) (m(key x \<mapsto> length xs))"
proof -
  have new: "key x \<noteq> key (xs ! p)" if "p < length xs" for p
    using assms that by (metis indexed_def option.distinct(1))
  then have "key x \<notin> set (map key xs)" by (metis in_set_conv_nth length_map nth_map)
  moreover have "(m(key x \<mapsto> length xs)) k = Some p
      \<longleftrightarrow> p < length (xs @ [x]) \<and> key ((xs @ [x]) ! p) = k" for k p
    using assms(1) new [of p] by (auto simp: indexed_def nth_append less_Suc_eq)
  ultimately show ?thesis using assms(1) by (simp add: indexed_def)
qed

lemma indexed_at: "indexed key xs m \<Longrightarrow> p < length xs \<Longrightarrow> m (key (xs ! p)) = Some p"
  by (simp add: indexed_def)

lemma indexed_Some: "indexed key xs m \<Longrightarrow> m k = Some p \<Longrightarrow> p < length xs \<and> key (xs ! p) = k"
  by (simp add: indexed_def)

lemma indexed_inj: "indexed key xs m \<Longrightarrow> p < length xs \<Longrightarrow> q < length xs \<Longrightarrow> key (xs ! p) = key (xs ! q) \<Longrightarrow> p = q"
  by (metis indexed_at option.inject)

definition registered :: "scan_entry list \<Rightarrow> register \<Rightarrow> bool" where
  "registered entries g \<longleftrightarrow>
     indexed sn_id entries (rg_positions g)
     \<and> indexed (\<lambda>e. components (sn_path e)) entries (rg_paths g)
     \<and> rg_measurements g = fold measure_entry entries Map.empty
     \<and> rg_nodes g = map new_node entries
     \<and> list_all (\<lambda>e. valid_absolute_path (sn_path e) \<and> parent (sn_path e) \<noteq> None) entries"

lemma register_entry_registered:
  assumes "registered pre g" and "run_task (register_entry limits e g) = Inr g'"
  shows "registered (pre @ [e]) g'"
proof -
  from assms(2) have valid: "valid_absolute_path (sn_path e) \<and> parent (sn_path e) \<noteq> None"
    and fresh: "rg_positions g (sn_id e) = None" "rg_paths g (components (sn_path e)) = None"
    and g': "rg_positions g' = (rg_positions g)(sn_id e \<mapsto> length (rg_nodes g))"
      "rg_paths g' = (rg_paths g)(components (sn_path e) \<mapsto> length (rg_nodes g))"
      "rg_measurements g' = measure_entry e (rg_measurements g)" "rg_nodes g' = rg_nodes g @ [new_node e]"
    by (auto simp: register_entry_def Let_def task_simps abortable_intros validate_index_path_def split: if_splits)
  show ?thesis
    using assms(1) valid fresh g' indexed_snoc [of sn_id pre "rg_positions g" e]
      indexed_snoc [of "\<lambda>e. components (sn_path e)" pre "rg_paths g" e]
    by (simp add: registered_def)
qed

lemma register_report_registered:
  assumes "run_task (register_report r limits) = Inr (explicit, g)"
  shows "registered (sr_entries r) g" and "explicit = components ` set (sr_roots r)"
    and "length (sr_entries r) \<le> sl_max_entries limits"
proof -
  let ?steps = "tfold (register_entry limits) (sr_entries r) register_empty"
  let ?roots = "tfold (register_root limits) (sr_roots r) (0, {})"
  from assms have len: "length (sr_entries r) \<le> sl_max_entries limits" and roots: "\<exists>bytes. run_task ?roots = Inr (bytes, explicit)"
    and g: "run_task ?steps = Inr g"
    by (auto simp: register_report_def task_simps abortable_intros run_task_case_prod split: if_splits prod.splits)
  show "length (sr_entries r) \<le> sl_max_entries limits" by (rule len)
  show "registered (sr_entries r) g"
    by (rule tfold_invariant [OF g, where P = registered])
      (auto simp: abortable_intros registered_def [of "[]"] register_empty_def intro: register_entry_registered)
  obtain bytes where run: "run_task ?roots = Inr (bytes, explicit)" using roots by blast
  have "snd (bytes, explicit) = components ` set (sr_roots r)"
    by (rule tfold_invariant [OF run, where P = "\<lambda>pre s. snd s = components ` set pre"])
      (auto simp: abortable_intros register_root_def task_simps run_task_case_prod split: if_splits prod.splits)
  then show "explicit = components ` set (sr_roots r)" by simp
qed

section \<open>What linking establishes\<close>

text \<open>The position of the observed parent of an entry.\<close>

definition parent_at :: "scan_entry list \<Rightarrow> (component list \<rightharpoonup> nat) \<Rightarrow> nat \<Rightarrow> nat option" where
  "parent_at entries paths p =
     (case parent (sn_path (entries ! p)) of None \<Rightarrow> None | Some q \<Rightarrow> paths (components q))"

definition child_ids :: "scan_entry list \<Rightarrow> (nat \<Rightarrow> nat option) \<Rightarrow> nat list \<Rightarrow> nat option \<Rightarrow> u64 list" where
  "child_ids entries par ps q = map (\<lambda>p. sn_id (entries ! p)) (filter (\<lambda>p. par p = q) ps)"

definition linked_node :: "scan_entry list \<Rightarrow> (nat \<Rightarrow> nat option) \<Rightarrow> nat list \<Rightarrow> nat \<Rightarrow> index_node" where
  "linked_node entries par ps p = \<lparr>xn_parent = (if p \<in> set ps then par p else None),
     xn_directory = (if sn_kind (entries ! p) = KDirectory
       then Some (dir_node_default\<lparr>dn_children := child_ids entries par ps (Some p)\<rparr>) else None),
     xn_contains_dataless = sn_dataless (entries ! p)\<rparr>"

definition linked :: "scan_entry list \<Rightarrow> (nat \<Rightarrow> nat option) \<Rightarrow> nat list \<Rightarrow> u64 list \<Rightarrow> index_node list \<Rightarrow> bool" where
  "linked entries par ps roots nodes \<longleftrightarrow>
     roots = child_ids entries par ps None
     \<and> nodes = map (linked_node entries par ps) [0..<length entries]
     \<and> (\<forall>p\<in>set ps. \<forall>q. par p = Some q \<longrightarrow> sn_kind (entries ! q) = KDirectory)"

lemma parent_at_shorter:
  assumes "indexed (\<lambda>e. components (sn_path e)) entries paths" and "parent_at entries paths p = Some q"
  shows "q < length entries" and "length (path_at entries q) < length (path_at entries p)"
    and "\<exists>c. path_at entries p = path_at entries q @ [c]"
proof -
  obtain x where x: "parent (sn_path (entries ! p)) = Some x" "paths (components x) = Some q"
    using assms(2) by (auto simp: parent_at_def split: option.splits)
  have q: "q < length entries" "path_at entries q = components x"
    using indexed_Some [OF assms(1) x(2)] by simp_all
  then show "q < length entries" "length (path_at entries q) < length (path_at entries p)"
      "\<exists>c. path_at entries p = path_at entries q @ [c]"
    using parent_length [OF x(1)] parent_components [OF x(1)] by auto
qed

lemma child_ids_snoc:
  "child_ids entries par (ps @ [p]) q = child_ids entries par ps q @ (if par p = q then [sn_id (entries ! p)] else [])"
  by (simp add: child_ids_def)

lemma link_entry_linked:
  assumes par: "par = parent_at entries paths" and paths: "indexed (\<lambda>e. components (sn_path e)) entries paths"
    and lk: "linked entries par ps roots nodes" and p: "p < length entries" "p \<notin> set ps"
    and run: "run_task (link_entry entries paths explicit p (roots, nodes)) = Inr (roots', nodes')"
  shows "linked entries par (ps @ [p]) roots' nodes'"
    and "par p = None \<Longrightarrow> path_at entries p \<in> explicit"
proof -
  have found: "(case parent (sn_path (entries ! p)) of None \<Rightarrow> None | Some q \<Rightarrow> paths (components q)) = par p"
    by (simp add: par parent_at_def)
  have "linked entries par (ps @ [p]) roots' nodes' \<and> (par p = None \<longrightarrow> path_at entries p \<in> explicit)"
  proof (cases "par p")
    case None
    from run have "path_at entries p \<in> explicit" "roots' = roots @ [sn_id (entries ! p)]" "nodes' = nodes"
      by (auto simp: link_entry_def Let_def task_simps abortable_intros found None split: if_splits)
    moreover have "linked_node entries par (ps @ [p]) x = linked_node entries par ps x" for x
      using None by (simp add: linked_node_def child_ids_snoc)
    ultimately show ?thesis using None lk by (auto simp: linked_def child_ids_snoc)
  next
    case (Some q)
    have q: "q < length entries" "q \<noteq> p"
      using parent_at_shorter [OF paths] Some par by auto
    from run have dir: "sn_kind (entries ! q) = KDirectory" and roots: "roots' = roots"
      and nodes': "nodes' = (nodes[p := (nodes ! p)\<lparr>xn_parent := Some q\<rparr>])
          [q := push_child (sn_id (entries ! p)) (nodes[p := (nodes ! p)\<lparr>xn_parent := Some q\<rparr>] ! q)]"
      by (auto simp: link_entry_def Let_def task_simps abortable_intros found Some split: if_splits)
    have "nodes' = map (linked_node entries par (ps @ [p])) [0..<length entries]"
    proof (rule nth_equalityI)
      fix x assume "x < length nodes'"
      then have "x < length entries" using lk by (simp add: nodes' linked_def)
      then show "nodes' ! x = map (linked_node entries par (ps @ [p])) [0..<length entries] ! x"
        using lk p q Some dir
        by (cases "x = p"; cases "x = q")
          (simp_all add: nodes' linked_def linked_node_def child_ids_snoc push_child_def nth_list_update)
    qed (use lk in \<open>simp add: nodes' linked_def\<close>)
    then show ?thesis using Some lk dir roots by (auto simp: linked_def child_ids_snoc)
  qed
  then show "linked entries par (ps @ [p]) roots' nodes'" "par p = None \<Longrightarrow> path_at entries p \<in> explicit" by simp_all
qed

lemma link_report_linked:
  assumes paths: "indexed (\<lambda>e. components (sn_path e)) entries paths"
    and order: "distinct order" "set order = {..<length entries}"
    and run: "run_task (tfold (link_entry entries paths explicit) order ([], map new_node entries)) = Inr (roots, nodes)"
  shows "linked entries (parent_at entries paths) order roots nodes"
    and "\<And>p. p < length entries \<Longrightarrow> parent_at entries paths p = None \<Longrightarrow> path_at entries p \<in> explicit"
proof -
  let ?par = "parent_at entries paths"
  let ?P = "\<lambda>ps s. linked entries ?par ps (fst s) (snd s)
      \<and> (\<forall>p\<in>set ps. ?par p = None \<longrightarrow> path_at entries p \<in> explicit)"
  have "?P order (roots, nodes)"
  proof (rule tfold_invariant [OF run, where P = ?P])
    have "new_node (entries ! p) = linked_node entries ?par [] p" for p
      by (simp add: new_node_def linked_node_def dir_node_default_def child_ids_def)
    then have "map new_node entries = map (linked_node entries ?par []) [0..<length entries]"
      by (intro nth_equalityI) simp_all
    then show "?P [] ([], map new_node entries)"
      by (simp add: linked_def child_ids_def)
  next
    fix pre p post s s'
    assume split: "order = pre @ p # post" and inv: "?P pre s"
      and step: "run_task (link_entry entries paths explicit p s) = Inr s'"
    have p: "p < length entries" "p \<notin> set pre" using order split by auto
    show "?P (pre @ [p]) s'"
      using link_entry_linked [OF refl paths _ p, of "fst s" "snd s" explicit "fst s'" "snd s'"] inv step by auto
  qed (simp add: abortable_intros)
  then show "linked entries ?par order roots nodes"
    and "\<And>p. p < length entries \<Longrightarrow> ?par p = None \<Longrightarrow> path_at entries p \<in> explicit"
    using order(2) by auto
qed

section \<open>The traversal\<close>

text \<open>A parent function whose chains get shorter, as the parents of paths do.\<close>

definition forest :: "(nat \<Rightarrow> nat option) \<Rightarrow> nat \<Rightarrow> bool" where
  "forest par n \<longleftrightarrow> (\<exists>depth :: nat \<Rightarrow> nat. \<forall>p q. par p = Some q \<longrightarrow> q < n \<and> depth q < depth p)"

lemma parent_at_forest:
  "indexed (\<lambda>e. components (sn_path e)) entries paths \<Longrightarrow> forest (parent_at entries paths) (length entries)"
  unfolding forest_def by (rule exI [where x = "\<lambda>p. length (path_at entries p)"]) (auto dest: parent_at_shorter)

definition parents_first :: "(nat \<Rightarrow> nat option) \<Rightarrow> nat list \<Rightarrow> bool" where
  "parents_first par vis \<longleftrightarrow> (\<forall>pre p post q. vis = pre @ p # post \<longrightarrow> par p = Some q \<longrightarrow> q \<in> set pre)"

text \<open>The visited positions and the pending ones, as a traversal of the set \<open>U\<close> keeps them.\<close>

definition visiting :: "(nat \<Rightarrow> nat option) \<Rightarrow> nat set \<Rightarrow> nat list \<Rightarrow> nat list \<Rightarrow> bool" where
  "visiting par U pend vis \<longleftrightarrow> distinct (vis @ pend) \<and> set (vis @ pend) \<subseteq> U
     \<and> (\<forall>p\<in>U. par p = None \<longrightarrow> p \<in> set (vis @ pend))
     \<and> (\<forall>q\<in>set vis. \<forall>p\<in>U. par p = Some q \<longrightarrow> p \<in> set (vis @ pend))
     \<and> (\<forall>p\<in>set pend. \<forall>q. par p = Some q \<longrightarrow> q \<in> set vis)
     \<and> parents_first par vis"

lemma parents_first_Nil [simp]: "parents_first par []"
  by (simp add: parents_first_def)

lemma parents_first_snoc:
  "parents_first par vis \<Longrightarrow> (\<And>q. par p = Some q \<Longrightarrow> q \<in> set vis) \<Longrightarrow> parents_first par (vis @ [p])"
  by (auto simp: parents_first_def append_eq_append_conv2 append_eq_Cons_conv Cons_eq_append_conv)

lemma parents_first_member: "parents_first par vis \<Longrightarrow> p \<in> set vis \<Longrightarrow> par p = Some q \<Longrightarrow> q \<in> set vis"
  unfolding parents_first_def by (metis Un_iff set_append split_list)

lemma visiting_step:
  assumes v: "visiting par U (p # pend) vis"
    and cs: "distinct cs" "set cs = {c \<in> U. par c = Some p}"
  shows "visiting par U (cs @ pend) (vis @ [p])"
proof -
  have fresh: "c \<notin> set (vis @ p # pend)" if "c \<in> set cs" for c
  proof
    assume "c \<in> set (vis @ p # pend)"
    then have "p \<in> set vis"
      using v cs that parents_first_member [of par vis c p] by (auto simp: visiting_def)
    then show False using v by (simp add: visiting_def)
  qed
  have "parents_first par (vis @ [p])"
    by (rule parents_first_snoc) (use v in \<open>auto simp: visiting_def\<close>)
  moreover have "\<forall>q\<in>set (vis @ [p]). \<forall>c\<in>U. par c = Some q \<longrightarrow> c \<in> set ((vis @ [p]) @ cs @ pend)"
    using v cs by (auto simp: visiting_def)
  moreover have "\<forall>c\<in>set (cs @ pend). \<forall>q. par c = Some q \<longrightarrow> q \<in> set (vis @ [p])"
    using v cs by (auto simp: visiting_def)
  ultimately show ?thesis using v cs fresh by (auto simp: visiting_def)
qed

lemma visiting_full:
  assumes v: "visiting par U [] vis"
    and depth: "\<And>p q. p \<in> U \<Longrightarrow> par p = Some q \<Longrightarrow> q \<in> U \<and> depth q < (depth p :: nat)"
  shows "set vis = U"
proof -
  have "p \<in> U \<Longrightarrow> p \<in> set vis" for p
  proof (induction "depth p" arbitrary: p rule: less_induct)
    case less
    show ?case
    proof (cases "par p")
      case None
      then show ?thesis using v less.prems by (auto simp: visiting_def)
    next
      case (Some q)
      then have "q \<in> set vis" using less depth by blast
      then show ?thesis using v less.prems Some by (auto simp: visiting_def)
    qed
  qed
  then show ?thesis using v by (auto simp: visiting_def)
qed

lemma visiting_room: "visiting par U pend vis \<Longrightarrow> finite U \<Longrightarrow> length vis + length pend \<le> card U"
  by (metis card_mono distinct_card length_append visiting_def)

lemma push_all:
  "run_task (tfold (\<lambda>child stack. tbind check_cancelled (\<lambda>_. tret (child # stack))) cs pending) = Inr (rev cs @ pending)"
  by (induction cs arbitrary: pending) (simp_all add: task_simps abortable_intros)

lemma descend_visits:
  assumes positions: "indexed sn_id entries positions"
    and lk: "linked entries par order roots nodes" and order: "distinct order" "set order = {..<length entries}"
    and v: "visiting par {..<length entries} pend vis" and fuel: "length entries \<le> fuel + length vis"
  shows "\<exists>vis'. run_task (descend positions nodes fuel (map (\<lambda>p. sn_id (entries ! p)) pend) vis) = Inr ([], vis')
    \<and> visiting par {..<length entries} [] vis'"
  using v fuel
proof (induction fuel arbitrary: pend vis)
  case 0
  then have "length vis + length pend \<le> length entries" using visiting_room by fastforce
  then have "length pend = 0" using 0 by linarith
  then have "pend = []" by simp
  then show ?case using 0 by (simp add: task_simps)
next
  case (Suc fuel)
  show ?case
  proof (cases pend)
    case Nil
    then show ?thesis using Suc.prems by (simp add: task_simps)
  next
    case (Cons p rest)
    then have p: "p < length entries" using Suc.prems by (auto simp: visiting_def)
    have at: "positions (sn_id (entries ! p)) = Some p" by (rule indexed_at [OF positions p])
    let ?cs = "filter (\<lambda>c. par c = Some p) order"
    have cs: "distinct ?cs" "set ?cs = {c \<in> {..<length entries}. par c = Some p}" using order by auto
    have next_v: "visiting par {..<length entries} (rev ?cs @ rest) (vis @ [p])"
      by (rule visiting_step) (use Suc.prems Cons cs in simp_all)
    have node: "nodes ! p = linked_node entries par order p" using lk p by (simp add: linked_def)
    show ?thesis
    proof (cases "sn_kind (entries ! p) = KDirectory")
      case True
      then show ?thesis
        using Suc.IH [OF next_v] Suc.prems(2) Cons
        by (simp add: at node linked_node_def task_simps abortable_intros Let_def push_all child_ids_def rev_map)
    next
      case False
      then have "?cs = []" using lk order by (auto simp: linked_def filter_empty_conv)
      then show ?thesis
        using Suc.IH [OF next_v] Suc.prems(2) Cons False
        by (simp add: at node linked_node_def task_simps abortable_intros Let_def)
    qed
  qed
qed

lemma traversal_complete:
  assumes positions: "indexed sn_id entries positions" and f: "forest par (length entries)"
    and lk: "linked entries par order roots nodes" and order: "distinct order" "set order = {..<length entries}"
  shows "\<exists>vis. run_task (descend positions nodes (length entries) (rev roots) []) = Inr ([], vis)
    \<and> distinct vis \<and> set vis = {..<length entries} \<and> parents_first par vis"
proof -
  let ?tops = "rev (filter (\<lambda>p. par p = None) order)"
  have tops: "map (\<lambda>p. sn_id (entries ! p)) ?tops = rev roots"
    using lk by (simp add: linked_def child_ids_def rev_map)
  have start: "visiting par {..<length entries} ?tops []"
    using order by (auto simp: visiting_def)
  obtain vis where run: "run_task (descend positions nodes (length entries) (rev roots) []) = Inr ([], vis)"
    and v: "visiting par {..<length entries} [] vis"
    using descend_visits [OF positions lk order start] by (auto simp: tops)
  obtain depth :: "nat \<Rightarrow> nat" where d: "\<And>p q. par p = Some q \<Longrightarrow> q < length entries \<and> depth q < depth p"
    using f by (auto simp: forest_def)
  have "set vis = {..<length entries}"
    by (rule visiting_full [OF v, where depth = depth]) (use d in auto)
  then show ?thesis using run v by (auto simp: visiting_def)
qed

end
