(* ===== verification/Scan_Totals.thy ===== *)
theory Scan_Totals
  imports Scan_Hierarchy
begin

text \<open>
  The accounting of \<open>ScanTree::build_shared\<close>: the totals of a directory against a reference
  that sums over the set of file identities in its subtree. A bag that keeps the identities
  observed once only as running totals, and merges the smaller set into the larger one, has the
  same totals.
\<close>

section \<open>The reference totals\<close>

definition measured :: "identity_table \<Rightarrow> (measurements \<Rightarrow> u64 option) \<Rightarrow> file_identity \<Rightarrow> u64 option" where
  "measured t m i = (case t i of None \<Rightarrow> None | Some known \<Rightarrow> m (im_measurement known))"

definition repeated :: "identity_table \<Rightarrow> file_identity \<Rightarrow> bool" where
  "repeated t i \<longleftrightarrow> (case t i of None \<Rightarrow> False | Some known \<Rightarrow> im_repeated known)"

definition known_total :: "(file_identity \<Rightarrow> u64 option) \<Rightarrow> file_identity set \<Rightarrow> nat" where
  "known_total f I = (\<Sum>i\<in>I. case f i of None \<Rightarrow> 0 | Some b \<Rightarrow> unat b)"

definition unknown_files :: "(file_identity \<Rightarrow> u64 option) \<Rightarrow> file_identity set \<Rightarrow> nat" where
  "unknown_files f I = card {i\<in>I. f i = None}"

definition exact_total :: "(file_identity \<Rightarrow> u64 option) \<Rightarrow> file_identity set \<Rightarrow> u64 option" where
  "exact_total f I =
     (if unknown_files f I = 0 \<and> known_total f I < 2 ^ 64 then Some (of_nat (known_total f I)) else None)"

definition totals_of :: "identity_table \<Rightarrow> file_identity set \<Rightarrow> directory_summary \<Rightarrow> bool" where
  "totals_of t I s \<longleftrightarrow> unat (ds_unique_files s) = card I
     \<and> unat (ds_logical_bytes_known s) = known_total (measured t ms_logical) I
     \<and> unat (ds_logical_bytes_unknown_files s) = unknown_files (measured t ms_logical) I
     \<and> unat (ds_allocated_bytes_known s) = known_total (measured t ms_allocated) I
     \<and> unat (ds_allocated_bytes_unknown_files s) = unknown_files (measured t ms_allocated) I
     \<and> ds_private_bytes s = exact_total (measured t ms_private) I"

named_theorems total_simps \<open>totals of empty, extended and disjoint sets\<close>

lemma known_total_empty [total_simps]: "known_total f {} = 0"
  by (simp add: known_total_def)

lemma unknown_files_empty [total_simps]: "unknown_files f {} = 0"
  by (simp add: unknown_files_def)

lemma known_total_Un [total_simps]:
  "finite I \<Longrightarrow> finite J \<Longrightarrow> I \<inter> J = {} \<Longrightarrow> known_total f (I \<union> J) = known_total f I + known_total f J"
  by (simp add: known_total_def sum.union_disjoint)

lemma unknown_files_Un [total_simps]:
  assumes "finite I" "finite J" "I \<inter> J = {}"
  shows "unknown_files f (I \<union> J) = unknown_files f I + unknown_files f J"
proof -
  have "{i \<in> I \<union> J. f i = None} = {i\<in>I. f i = None} \<union> {i\<in>J. f i = None}" by blast
  then show ?thesis using assms by (simp add: unknown_files_def) (rule card_Un_disjoint; auto)
qed

lemma known_total_insert [total_simps]:
  "finite I \<Longrightarrow> i \<notin> I \<Longrightarrow>
     known_total f (insert i I) = (case f i of None \<Rightarrow> 0 | Some b \<Rightarrow> unat b) + known_total f I"
  by (simp add: known_total_def)

lemma unknown_files_insert [total_simps]:
  assumes "finite I" "i \<notin> I"
  shows "unknown_files f (insert i I) = (if f i = None then 1 else 0) + unknown_files f I"
proof -
  have "{j \<in> insert i I. f j = None} = (if f i = None then insert i {j\<in>I. f j = None} else {j\<in>I. f j = None})"
    by auto
  then show ?thesis using assms by (simp add: unknown_files_def)
qed

lemma exact_total_Un:
  assumes "finite I" "finite J" "I \<inter> J = {}"
  shows "exact_total f (I \<union> J) = option_add (exact_total f I) (exact_total f J)"
proof -
  have "unat (word_of_nat n :: u64) = n" if "n < 2 ^ 64" for n
    using that by (simp add: unat_of_nat)
  then show ?thesis
    using assms by (auto simp: exact_total_def option_add_def total_simps checked_add_nat)
qed

lemma exact_total_insert [total_simps]:
  assumes "finite I" "i \<notin> I"
  shows "exact_total f (insert i I) = option_add (exact_total f I) (f i)"
proof -
  have "unat (word_of_nat n :: u64) = n" if "n < 2 ^ 64" for n
    using that by (simp add: unat_of_nat)
  then show ?thesis
    using assms by (auto simp: exact_total_def option_add_def total_simps checked_add_nat add.commute split: option.split)
qed

lemma totals_of_empty: "totals_of t {} empty_summary"
  by (simp add: totals_of_def empty_summary_def exact_total_def total_simps)

lemma summary_add_Inr [simp]: "summary_add a b = Inr c \<longleftrightarrow> unat a + unat b = unat c"
  by (simp add: summary_add_def checked_add_eq_iff)

lemma merge_summary_totals:
  assumes "totals_of t I a" "totals_of t J b" "finite I" "finite J" "I \<inter> J = {}" "merge_summary a b = Inr c"
  shows "totals_of t (I \<union> J) c"
  using assms by (auto simp: totals_of_def merge_summary_def exact_total_Un total_simps card_Un_disjoint)

lemma add_measurement_totals:
  assumes s: "totals_of t I s" "finite I" "i \<notin> I" and known: "t i = Some known"
    and add: "add_measurement (im_measurement known) s = Inr s'"
  shows "totals_of t (insert i I) s'"
proof -
  have ms: "measured t m i = m (im_measurement known)" for m by (simp add: measured_def known)
  from add s show ?thesis
    by (auto simp: totals_of_def add_measurement_def ms total_simps split: option.splits)
qed

section \<open>The bag of a directory\<close>

definition bag_of :: "identity_table \<Rightarrow> file_identity set \<Rightarrow> identity_bag \<Rightarrow> bool" where
  "bag_of t I bag \<longleftrightarrow> finite I \<and> set (ib_identities bag) = {i\<in>I. repeated t i}
     \<and> totals_of t {i\<in>I. \<not> repeated t i} (ib_singles bag)
     \<and> totals_of t {i\<in>I. repeated t i} (ib_shared bag)"

lemma bag_of_empty: "bag_of t {} bag_default"
  by (simp add: bag_of_def bag_default_def totals_of_empty)

lemma bag_insert_of:
  assumes bag: "bag_of t I bag" and known: "t i = Some known" and new: "repeated t i \<or> i \<notin> I"
    and run: "run_task (bag_insert t i bag) = Inr bag'"
  shows "bag_of t (insert i I) bag'"
proof (cases "im_repeated known")
  case True
  then have rep: "repeated t i" by (simp add: repeated_def known)
  have sets: "{j \<in> insert i I. repeated t j} = insert i {j\<in>I. repeated t j}"
    "{j \<in> insert i I. \<not> repeated t j} = {j\<in>I. \<not> repeated t j}" using rep by auto
  show ?thesis
  proof (cases "i \<in> set (ib_identities bag)")
    case member: True
    then have "insert i I = I" using bag by (auto simp: bag_of_def)
    then show ?thesis using run bag member True
      by (simp add: bag_insert_def task_simps abortable_intros known)
  next
    case False
    then have i: "i \<notin> {j\<in>I. repeated t j}" using bag by (simp add: bag_of_def)
    obtain s' where s': "add_measurement (im_measurement known) (ib_shared bag) = Inr s'"
      and bag': "bag' = bag\<lparr>ib_identities := i # ib_identities bag, ib_shared := s'\<rparr>"
      using run False True by (auto simp: bag_insert_def task_simps abortable_intros known)
    have "totals_of t (insert i {j\<in>I. repeated t j}) s'"
      by (rule add_measurement_totals [where known = known]) (use bag i known s' in \<open>simp_all add: bag_of_def\<close>)
    then show ?thesis unfolding bag_of_def sets using bag by (simp add: bag_of_def bag')
  qed
next
  case False
  then have single: "\<not> repeated t i" by (simp add: repeated_def known)
  have sets: "{j \<in> insert i I. repeated t j} = {j\<in>I. repeated t j}"
    "{j \<in> insert i I. \<not> repeated t j} = insert i {j\<in>I. \<not> repeated t j}" using single by auto
  have i: "i \<notin> {j\<in>I. \<not> repeated t j}" using new single by simp
  obtain s' where s': "add_measurement (im_measurement known) (ib_singles bag) = Inr s'"
    and bag': "bag' = bag\<lparr>ib_singles := s'\<rparr>"
    using run False by (auto simp: bag_insert_def task_simps abortable_intros known)
  have "totals_of t (insert i {j\<in>I. \<not> repeated t j}) s'"
    by (rule add_measurement_totals [where known = known]) (use bag i known s' in \<open>simp_all add: bag_of_def\<close>)
  then show ?thesis unfolding bag_of_def sets using bag by (simp add: bag_of_def bag')
qed

lemma bag_insert_all:
  assumes "bag_of t I bag" and "\<And>i. i \<in> set is \<Longrightarrow> t i \<noteq> None \<and> repeated t i"
    and "run_task (tfold (bag_insert t) is bag) = Inr bag'"
  shows "bag_of t (I \<union> set is) bag'"
proof (rule tfold_invariant [OF assms(3), where P = "\<lambda>pre b. bag_of t (I \<union> set pre) b"])
  fix pre i post b b'
  assume split: "is = pre @ i # post" and b: "bag_of t (I \<union> set pre) b" and run: "run_task (bag_insert t i b) = Inr b'"
  obtain known where "t i = Some known" "repeated t i" using assms(2) [of i] split by auto
  then show "bag_of t (I \<union> set (pre @ [i])) b'" using bag_insert_of [OF b _ _ run] by simp
qed (simp_all add: assms(1) abortable_bag_insert)

lemma bag_merge_of:
  assumes a: "bag_of t I a" and b: "bag_of t J b" and dis: "\<And>i. i \<in> I \<Longrightarrow> i \<in> J \<Longrightarrow> repeated t i"
    and run: "run_task (bag_merge t a b) = Inr c"
  shows "bag_of t (I \<union> J) c"
proof -
  have merge: "bag_of t (I' \<union> J') c"
    if a: "bag_of t I' a'" and b: "bag_of t J' b'" and dis: "\<And>i. i \<in> I' \<Longrightarrow> i \<in> J' \<Longrightarrow> repeated t i"
      and s: "merge_summary (ib_singles a') (ib_singles b') = Inr s"
      and run: "run_task (tfold (bag_insert t) (ib_identities b') (a'\<lparr>ib_singles := s\<rparr>)) = Inr c"
    for I' J' a' b' s
  proof -
    have known: "\<And>i. i \<in> set (ib_identities b') \<Longrightarrow> t i \<noteq> None \<and> repeated t i"
      using b by (auto simp: bag_of_def repeated_def split: option.splits)
    let ?I = "I' \<union> {j\<in>J'. \<not> repeated t j}"
    have singles: "{j \<in> ?I. \<not> repeated t j} = {j\<in>I'. \<not> repeated t j} \<union> {j\<in>J'. \<not> repeated t j}"
      and shared: "{j \<in> ?I. repeated t j} = {j\<in>I'. repeated t j}" by auto
    have "totals_of t ({j\<in>I'. \<not> repeated t j} \<union> {j\<in>J'. \<not> repeated t j}) s"
      by (rule merge_summary_totals [OF _ _ _ _ _ s]) (use a b dis in \<open>auto simp: bag_of_def\<close>)
    then have "bag_of t ?I (a'\<lparr>ib_singles := s\<rparr>)"
      unfolding bag_of_def singles shared using a b by (simp add: bag_of_def)
    then have "bag_of t (?I \<union> set (ib_identities b')) c" by (rule bag_insert_all [OF _ known run])
    moreover have "?I \<union> set (ib_identities b') = I' \<union> J'" using b by (auto simp: bag_of_def)
    ultimately show ?thesis by simp
  qed
  show ?thesis
  proof (cases "length (ib_identities a) < length (ib_identities b)")
    case True
    then obtain s where "merge_summary (ib_singles b) (ib_singles a) = Inr s"
      "run_task (tfold (bag_insert t) (ib_identities a) (b\<lparr>ib_singles := s\<rparr>)) = Inr c"
      using run by (auto simp: bag_merge_def task_simps abortable_intros)
    then show ?thesis using merge [OF b a] dis by (simp add: Un_commute)
  next
    case False
    then obtain s where "merge_summary (ib_singles a) (ib_singles b) = Inr s"
      "run_task (tfold (bag_insert t) (ib_identities b) (a\<lparr>ib_singles := s\<rparr>)) = Inr c"
      using run by (auto simp: bag_merge_def task_simps abortable_intros)
    then show ?thesis using merge [OF a b] dis by simp
  qed
qed

lemma bag_summary_of:
  assumes "bag_of t I bag" and "bag_summary bag = Inr s"
  shows "totals_of t I s"
proof -
  have "{i\<in>I. \<not> repeated t i} \<union> {i\<in>I. repeated t i} = I" by auto
  then show ?thesis
    using merge_summary_totals [of t "{i\<in>I. \<not> repeated t i}" "ib_singles bag" "{i\<in>I. repeated t i}" "ib_shared bag" s] assms
    by (auto simp: bag_of_def bag_summary_def)
qed

section \<open>The measurements of an identity\<close>

definition files_of :: "scan_entry list \<Rightarrow> file_identity \<Rightarrow> scan_entry list" where
  "files_of entries i = filter (\<lambda>e. sn_kind e = KFile \<and> sn_identity e = i) entries"

definition identities :: "scan_entry list \<Rightarrow> identity_table" where
  "identities entries = fold measure_entry entries Map.empty"

lemma identities_snoc: "identities (entries @ [e]) = measure_entry e (identities entries)"
  by (simp add: identities_def)

text \<open>An identity is in the table when a file has it, repeated when two have, and measured when
  all its observations agree on a value.\<close>

lemma identities_None: "identities entries i = None \<longleftrightarrow> files_of entries i = []"
proof (induction entries rule: rev_induct)
  case (snoc e entries)
  then show ?case by (auto simp: identities_snoc measure_entry_def files_of_def)
qed (simp add: identities_def files_of_def)

lemma identities_repeated: "repeated (identities entries) i \<longleftrightarrow> 2 \<le> length (files_of entries i)"
proof (induction entries rule: rev_induct)
  case (snoc e entries)
  have "files_of entries i = [] \<longleftrightarrow> length (files_of entries i) = 0" by simp
  then show ?case
    using snoc identities_None [of entries i]
    by (auto simp: identities_snoc measure_entry_def repeated_def files_of_def split: option.splits)
      (metis One_nat_def Suc_leI length_greater_0_conv)+
qed (simp add: identities_def repeated_def files_of_def)

lemma not_repeated_unique:
  assumes "\<not> repeated (identities entries) i" and "p < length entries" "q < length entries"
    and "sn_kind (entries ! p) = KFile" "sn_kind (entries ! q) = KFile"
    and "sn_identity (entries ! p) = i" "sn_identity (entries ! q) = i"
  shows "p = q"
proof (rule ccontr)
  assume "p \<noteq> q"
  then have "2 \<le> card {x. x < length entries \<and> sn_kind (entries ! x) = KFile \<and> sn_identity (entries ! x) = i}"
    using card_mono [of "{x. x < length entries \<and> sn_kind (entries ! x) = KFile \<and> sn_identity (entries ! x) = i}" "{p, q}"] assms
    by simp
  then show False
    using assms(1) by (simp add: identities_repeated files_of_def length_filter_conv_card)
qed

text \<open>What \<open>m\<close> reads of an observation of an entry.\<close>

lemma identities_measured:
  assumes m: "\<And>a b. m (observe a b) = (if m a \<noteq> m b then None else m a)"
  shows "measured (identities entries) m i = Some b
    \<longleftrightarrow> files_of entries i \<noteq> [] \<and> (\<forall>e\<in>set (files_of entries i). m (observation_of e) = Some b)"
proof (induction entries rule: rev_induct)
  case (snoc e entries)
  show ?case
  proof (cases "sn_kind e = KFile \<and> sn_identity e = i")
    case True
    then have files: "files_of (entries @ [e]) i = files_of entries i @ [e]" by (simp add: files_of_def)
    show ?thesis
    proof (cases "identities entries i")
      case None
      then show ?thesis using True identities_None [of entries i]
        by (simp add: files identities_snoc measure_entry_def measured_def)
    next
      case (Some known)
      then have ne: "files_of entries i \<noteq> []" using identities_None [of entries i] by auto
      have "measured (identities (entries @ [e])) m i = m (observe (im_measurement known) (observation_of e))"
        using True Some by (simp add: identities_snoc measure_entry_def measured_def)
      moreover have "m (im_measurement known) = measured (identities entries) m i"
        using Some by (simp add: measured_def)
      ultimately show ?thesis using snoc ne by (auto simp: files m split: if_splits)
    qed
  next
    case False
    then show ?thesis using snoc by (auto simp: files_of_def identities_snoc measure_entry_def measured_def)
  qed
qed (simp add: identities_def measured_def files_of_def)

lemma observe_simps [simp]:
  "ms_private (observe a b) = (if ms_private a \<noteq> ms_private b then None else ms_private a)"
  "ms_logical (observe a b) = (if ms_logical a \<noteq> ms_logical b then None else ms_logical a)"
  "ms_allocated (observe a b) = (if ms_allocated a \<noteq> ms_allocated b then None else ms_allocated a)"
  by (simp_all add: observe_def)

section \<open>Subtrees\<close>

inductive below :: "(nat \<Rightarrow> nat option) \<Rightarrow> nat \<Rightarrow> nat \<Rightarrow> bool" for par where
  below_refl [simp]: "below par p p"
| below_parent: "below par p c \<Longrightarrow> par c = Some q \<Longrightarrow> below par p q"

inductive_cases below_cases: "below par p q"

definition ids_below :: "scan_entry list \<Rightarrow> (nat \<Rightarrow> nat option) \<Rightarrow> nat \<Rightarrow> file_identity set" where
  "ids_below entries par q = (\<lambda>p. sn_identity (entries ! p)) `
     {p. p < length entries \<and> sn_kind (entries ! p) = KFile \<and> below par p q}"

text \<open>What the finished children in \<open>D\<close> contribute to their parent \<open>q\<close>.\<close>

definition collected :: "scan_entry list \<Rightarrow> (nat \<Rightarrow> nat option) \<Rightarrow> nat set \<Rightarrow> nat \<Rightarrow> file_identity set" where
  "collected entries par D q = (\<Union>c\<in>{c\<in>D. par c = Some q}. ids_below entries par c)"

text \<open>The same chain from its other end.\<close>

lemma below_from_parent: "below par p q \<Longrightarrow> p = q \<or> (\<exists>r. par p = Some r \<and> below par r q)"
  by (induction rule: below.induct) (auto intro: below_parent)

lemma below_into: "below par p q \<Longrightarrow> par k = Some p \<Longrightarrow> below par k q"
  by (induction rule: below.induct) (auto intro: below_parent below_parent [OF below_refl])

lemma below_lessI: "below par p q \<Longrightarrow> p < n \<Longrightarrow> forest par n \<Longrightarrow> q < n"
  by (induction rule: below.induct) (auto simp: forest_def)

lemma below_depth:
  assumes "below par p q" and "\<And>p q. par p = Some q \<Longrightarrow> depth q < (depth p :: nat)"
  shows "p = q \<or> depth q < depth p"
  using assms(1) by induction (auto dest: assms(2))

lemma below_linear: "below par x p \<Longrightarrow> below par x q \<Longrightarrow> below par p q \<or> below par q p"
proof (induction arbitrary: q rule: below.induct)
  case (below_parent x c p)
  then consider "below par c q" | "below par q c" by blast
  then show ?case
  proof cases
    case 1
    then show ?thesis using below_from_parent [OF 1] below_parent.hyps(2) below.below_parent [of par c c p] by auto
  next
    case 2
    then show ?thesis using below.below_parent below_parent.hyps(2) by blast
  qed
qed simp

text \<open>The subtrees of two children of a directory are disjoint.\<close>

lemma below_siblings:
  assumes f: "forest par n" and "par c = Some q" "par d = Some q" and x: "below par x c" "below par x d"
  shows "c = d"
proof -
  obtain depth :: "nat \<Rightarrow> nat" where d: "\<And>p q. par p = Some q \<Longrightarrow> depth q < depth p"
    using f by (auto simp: forest_def)
  have only: "a = b" if ab: "below par a b" and pa: "par a = Some q" and pb: "par b = Some q" for a b
    using below_from_parent [OF ab]
  proof
    assume "\<exists>r. par a = Some r \<and> below par r b"
    then have "below par q b" using pa by simp
    then have "q = b \<or> depth b < depth q" by (rule below_depth) (rule d)
    then show ?thesis using d [OF pb] by auto
  qed
  show ?thesis using below_linear [OF x] only assms by blast
qed

lemma ids_below_children:
  assumes f: "forest par (length entries)" and p: "sn_kind (entries ! p) \<noteq> KFile"
    and done_children: "\<And>c. c < length entries \<Longrightarrow> par c = Some p \<Longrightarrow> c \<in> D"
  shows "ids_below entries par p = collected entries par D p"
proof (rule equalityI; rule subsetI)
  fix i assume "i \<in> ids_below entries par p"
  then obtain x where x: "x < length entries" "sn_kind (entries ! x) = KFile" "below par x p"
    and i: "i = sn_identity (entries ! x)" by (auto simp: ids_below_def)
  from x(3) obtain c where c: "par c = Some p" "below par x c"
    by (rule below_cases) (use x p in auto)
  moreover have "c \<in> D" using done_children c below_lessI [OF c(2) x(1) f] by blast
  ultimately show "i \<in> collected entries par D p" using x i by (auto simp: collected_def ids_below_def)
next
  fix i assume "i \<in> collected entries par D p"
  then show "i \<in> ids_below entries par p"
    by (auto simp: collected_def ids_below_def intro: below_parent)
qed

lemma ids_below_leaf:
  assumes f: "forest par (length entries)" and leaf: "\<And>c. c < length entries \<Longrightarrow> par c \<noteq> Some p"
    and p: "p < length entries"
  shows "ids_below entries par p = (if sn_kind (entries ! p) = KFile then {sn_identity (entries ! p)} else {})"
proof -
  have "below par x p \<longleftrightarrow> x = p" if "x < length entries" for x
  proof
    assume b: "below par x p"
    then show "x = p"
      by (rule below_cases) (use leaf below_lessI [OF _ that f] in blast)+
  qed simp
  then have "{x. x < length entries \<and> sn_kind (entries ! x) = KFile \<and> below par x p}
      = (if sn_kind (entries ! p) = KFile then {p} else {})" using p by auto
  then show ?thesis by (simp add: ids_below_def)
qed

lemma collected_insert:
  "collected entries par (insert p D) q
   = collected entries par D q \<union> (if par p = Some q then ids_below entries par p else {})"
  by (auto simp: collected_def)

lemma collected_disjoint:
  assumes f: "forest par (length entries)" and p: "par p = Some q" "p \<notin> D"
    and i: "i \<in> collected entries par D q" "i \<in> ids_below entries par p"
  shows "repeated (identities entries) i"
proof (rule ccontr)
  assume single: "\<not> repeated (identities entries) i"
  obtain c x y where c: "c \<in> D" "par c = Some q"
    and x: "x < length entries" "sn_kind (entries ! x) = KFile" "below par x c" "sn_identity (entries ! x) = i"
    and y: "y < length entries" "sn_kind (entries ! y) = KFile" "below par y p" "sn_identity (entries ! y) = i"
    using i by (auto simp: collected_def ids_below_def)
  have "x = y" by (rule not_repeated_unique [OF single]) (use x y in auto)
  then have "c = p" using below_siblings [OF f c(2) p(1)] x y by blast
  then show False using c p by simp
qed

lemma ids_below_known: "i \<in> ids_below entries par p \<Longrightarrow> identities entries i \<noteq> None"
  by (auto simp: ids_below_def identities_None files_of_def filter_empty_conv)

section \<open>The accounting loop\<close>

definition dir_totals :: "scan_entry list \<Rightarrow> (nat \<Rightarrow> nat option) \<Rightarrow> coverage \<Rightarrow> nat \<Rightarrow> dir_node \<Rightarrow> bool" where
  "dir_totals entries par c q d \<longleftrightarrow>
     (\<exists>s. dn_summary d = Some (final_summary c (sn_path (entries ! q)) s)
        \<and> totals_of (identities entries) (ids_below entries par q) s)"

definition node_accounted ::
  "scan_entry list \<Rightarrow> (nat \<Rightarrow> nat option) \<Rightarrow> nat list \<Rightarrow> coverage \<Rightarrow> nat set \<Rightarrow> nat \<Rightarrow> index_node \<Rightarrow> bool" where
  "node_accounted entries par order c D q x \<longleftrightarrow> xn_parent x = par q
     \<and> (if sn_kind (entries ! q) = KDirectory
        then (\<exists>d. xn_directory x = Some d \<and> dn_children d = child_ids entries par order (Some q)
               \<and> (q \<in> D \<longrightarrow> dir_totals entries par c q d))
        else xn_directory x = None)
     \<and> xn_contains_dataless x = (sn_dataless (entries ! q)
          \<or> (\<exists>p<length entries. sn_dataless (entries ! p) \<and> (\<exists>k\<in>D. par k = Some q \<and> below par p k)))"

definition accounted ::
  "scan_entry list \<Rightarrow> (nat \<Rightarrow> nat option) \<Rightarrow> nat list \<Rightarrow> coverage \<Rightarrow> nat set
     \<Rightarrow> index_node list \<times> identity_bag option list \<Rightarrow> bool" where
  "accounted entries par order c D s \<longleftrightarrow> length (fst s) = length entries \<and> length (snd s) = length entries
     \<and> (\<forall>q<length entries. node_accounted entries par order c D q (fst s ! q))
     \<and> (\<forall>q<length entries. q \<notin> D \<longrightarrow> bag_of (identities entries) (collected entries par D q)
          (case snd s ! q of None \<Rightarrow> bag_default | Some bag \<Rightarrow> bag))"

lemma into_parent_run:
  "(\<And>b. abortable (f b)) \<Longrightarrow> run_task (into_parent nodes p f bags) =
     (case xn_parent (nodes ! p) of
        None \<Rightarrow> Inr bags
      | Some q \<Rightarrow> rbind (run_task (f (case bags ! q of None \<Rightarrow> bag_default | Some bag \<Rightarrow> bag)))
          (\<lambda>bag. Inr (bags[q := Some bag])))"
  by (simp add: into_parent_def task_simps split: option.split)

lemma account_start:
  assumes "linked entries par order roots nodes" and "set order = {..<length entries}"
  shows "accounted entries par order c {} (nodes, replicate (length entries) None)"
proof -
  have "node_accounted entries par order c {} q (nodes ! q)" if "q < length entries" for q
    using assms that by (simp add: node_accounted_def linked_def linked_node_def dir_node_default_def)
  moreover have "length nodes = length entries" using assms by (simp add: linked_def)
  ultimately show ?thesis by (simp add: accounted_def collected_def bag_of_empty)
qed

text \<open>The subtree of an entry whose children are all finished contains a dataless entry exactly
  when its node says so.\<close>

lemma dataless_below:
  assumes f: "forest par (length entries)" and p: "p < length entries"
    and children: "\<And>k. k < length entries \<Longrightarrow> par k = Some p \<Longrightarrow> k \<in> D"
    and node: "node_accounted entries par order c D p x"
  shows "xn_contains_dataless x \<longleftrightarrow> (\<exists>y<length entries. sn_dataless (entries ! y) \<and> below par y p)"
proof
  assume "xn_contains_dataless x"
  then show "\<exists>y<length entries. sn_dataless (entries ! y) \<and> below par y p"
    using node p by (auto simp: node_accounted_def intro: below_parent)
next
  assume "\<exists>y<length entries. sn_dataless (entries ! y) \<and> below par y p"
  then obtain y where y: "y < length entries" "sn_dataless (entries ! y)" "below par y p" by blast
  from y(3) show "xn_contains_dataless x"
  proof (rule below_cases)
    fix k assume k: "below par y k" "par k = Some p"
    then have "k \<in> D" using children below_lessI [OF k(1) y(1) f] by blast
    then show ?thesis using k y node by (auto simp: node_accounted_def)
  qed (use y node in \<open>simp add: node_accounted_def\<close>)
qed

lemma node_accounted_other:
  "node_accounted entries par order c D x n \<Longrightarrow> x \<noteq> p \<Longrightarrow> par p \<noteq> Some x \<Longrightarrow>
     node_accounted entries par order c (insert p D) x n"
  by (simp add: node_accounted_def)

lemma node_accounted_parent:
  assumes "node_accounted entries par order c D x n" and "x \<notin> D" "x \<noteq> p" "par p = Some x"
    and "b \<longleftrightarrow> (\<exists>y<length entries. sn_dataless (entries ! y) \<and> below par y p)"
  shows "node_accounted entries par order c (insert p D) x
    (n\<lparr>xn_contains_dataless := xn_contains_dataless n \<or> b\<rparr>)"
  using assms by (auto simp: node_accounted_def)

lemma pass_dataless_nth:
  "p < length nodes \<Longrightarrow> x < length nodes \<Longrightarrow> pass_dataless p nodes ! x =
     (if xn_parent (nodes ! p) = Some x
      then (nodes ! x)\<lparr>xn_contains_dataless := xn_contains_dataless (nodes ! x) \<or> xn_contains_dataless (nodes ! p)\<rparr>
      else nodes ! x)"
  by (auto simp: pass_dataless_def nth_list_update split: option.splits)

lemma length_pass_dataless [simp]: "length (pass_dataless p nodes) = length nodes"
  by (simp add: pass_dataless_def split: option.splits)

text \<open>The bags after an entry \<open>p\<close> has handed its identities to its parent.\<close>

lemma into_parent_bags:
  assumes f: "forest par (length entries)" and p: "p < length entries" "p \<notin> D"
    and n: "xn_parent (nodes ! p) = par p" and len: "length bags = length entries"
    and bags: "\<forall>q<length entries. q \<notin> D \<longrightarrow> q \<noteq> p \<longrightarrow> bag_of (identities entries) (collected entries par D q)
          (case bags ! q of None \<Rightarrow> bag_default | Some bag \<Rightarrow> bag)"
    and abort: "\<And>b. abortable (g b)"
    and g: "\<And>q b b'. par p = Some q \<Longrightarrow> bag_of (identities entries) (collected entries par D q) b \<Longrightarrow>
        run_task (g b) = Inr b' \<Longrightarrow> bag_of (identities entries) (collected entries par D q \<union> ids_below entries par p) b'"
    and up: "\<And>q. par p = Some q \<Longrightarrow> q \<notin> D \<and> q \<noteq> p"
    and run: "run_task (into_parent nodes p g bags) = Inr bags'"
  shows "length bags' = length entries"
    and "\<forall>q<length entries. q \<notin> insert p D \<longrightarrow> bag_of (identities entries) (collected entries par (insert p D) q)
          (case bags' ! q of None \<Rightarrow> bag_default | Some bag \<Rightarrow> bag)"
proof -
  have "length bags' = length entries \<and> (\<forall>q<length entries. q \<notin> insert p D \<longrightarrow>
      bag_of (identities entries) (collected entries par (insert p D) q)
          (case bags' ! q of None \<Rightarrow> bag_default | Some bag \<Rightarrow> bag))"
  proof (cases "par p")
    case None
    then show ?thesis using run len bags n by (simp add: into_parent_run abort collected_insert)
  next
    case (Some q)
    then have q: "q < length entries" using f by (auto simp: forest_def)
    obtain b' where b': "run_task (g (case bags ! q of None \<Rightarrow> bag_default | Some bag \<Rightarrow> bag)) = Inr b'"
      and bags': "bags' = bags[q := Some b']"
      using run n Some by (auto simp: into_parent_run abort)
    have "bag_of (identities entries) (collected entries par D q \<union> ids_below entries par p) b'"
      by (rule g [OF Some _ b']) (use bags q up [OF Some] in simp)
    then show ?thesis using len bags Some by (auto simp: bags' collected_insert nth_list_update)
  qed
  then show "length bags' = length entries"
    and "\<forall>q<length entries. q \<notin> insert p D \<longrightarrow> bag_of (identities entries) (collected entries par (insert p D) q)
          (case bags' ! q of None \<Rightarrow> bag_default | Some bag \<Rightarrow> bag)" by simp_all
qed

lemma account_step:
  assumes f: "forest par (length entries)"
    and dirs: "\<And>k q. k < length entries \<Longrightarrow> par k = Some q \<Longrightarrow> sn_kind (entries ! q) = KDirectory"
    and p: "p < length entries" "p \<notin> D"
    and children: "\<And>k. k < length entries \<Longrightarrow> par k = Some p \<Longrightarrow> k \<in> D"
    and up: "\<And>q. par p = Some q \<Longrightarrow> q \<notin> D \<and> q \<noteq> p"
    and acc: "accounted entries par order c D (nodes, bags)"
    and run: "run_task (account entries (identities entries) c p (nodes, bags)) = Inr (nodes', bags')"
  shows "accounted entries par order c (insert p D) (nodes', bags')"
proof -
  let ?t = "identities entries"
  let ?N = "pass_dataless p nodes"
  have len: "length nodes = length entries" "length bags = length entries"
    and nodes: "\<And>q. q < length entries \<Longrightarrow> node_accounted entries par order c D q (nodes ! q)"
    and bags: "\<And>q. q < length entries \<Longrightarrow> q \<notin> D \<Longrightarrow> bag_of ?t (collected entries par D q)
          (case bags ! q of None \<Rightarrow> bag_default | Some bag \<Rightarrow> bag)"
    using acc by (auto simp: accounted_def)
  have parent: "xn_parent (nodes ! p) = par p" using nodes [OF p(1)] by (simp add: node_accounted_def)
  have self: "?N ! p = nodes ! p" "xn_parent (?N ! p) = par p"
    using up p len parent by (auto simp: pass_dataless_nth)
  have others: "node_accounted entries par order c (insert p D) x (?N ! x)" if "x < length entries" "x \<noteq> p" for x
  proof (cases "par p = Some x")
    case True
    have "?N ! x = (nodes ! x)\<lparr>xn_contains_dataless := xn_contains_dataless (nodes ! x) \<or> xn_contains_dataless (nodes ! p)\<rparr>"
      using p(1) that(1) len(1) True by (simp add: pass_dataless_nth parent)
    moreover have "x \<notin> D" using up [OF True] by simp
    ultimately show ?thesis
      using node_accounted_parent [OF nodes [OF that(1)] _ that(2) True dataless_below [OF f p(1) _ nodes [OF p(1)]]]
        children by simp
  next
    case False
    then show ?thesis
      using node_accounted_other [OF nodes [OF that(1)] that(2) False] that p len parent
      by (simp add: pass_dataless_nth)
  qed
  have nodes_ok: "\<forall>q<length entries. node_accounted entries par order c (insert p D) q (M ! q)"
    if "length M = length entries" "\<And>x. x < length entries \<Longrightarrow> x \<noteq> p \<Longrightarrow> M ! x = ?N ! x"
      "node_accounted entries par order c (insert p D) p (M ! p)" for M
  proof (intro allI impI)
    fix q assume q: "q < length entries"
    show "node_accounted entries par order c (insert p D) q (M ! q)"
      by (cases "q = p") (simp_all add: that(2, 3) others q)
  qed
  have leaf: "sn_kind (entries ! p) \<noteq> KDirectory \<Longrightarrow> node_accounted entries par order c (insert p D) p (?N ! p)"
    using nodes [OF p(1)] up by (auto simp: self node_accounted_def)
  have no_children: "sn_kind (entries ! p) \<noteq> KDirectory \<Longrightarrow> k < length entries \<Longrightarrow> par k \<noteq> Some p" for k
    using dirs by blast
  have bag_p: "\<forall>q<length entries. q \<notin> D \<longrightarrow> q \<noteq> p \<longrightarrow> bag_of ?t (collected entries par D q)
          (case (bags[p := x]) ! q of None \<Rightarrow> bag_default | Some bag \<Rightarrow> bag)" for x
    using bags by simp
  have other: ?thesis if k: "sn_kind (entries ! p) = KLink \<or> sn_kind (entries ! p) = KOther"
  proof -
    have "nodes' = ?N" "bags' = bags"
      using run k by (auto simp: account_def Let_def task_simps abortable_intros)
    moreover have "ids_below entries par p = {}"
      using ids_below_leaf [OF f no_children p(1)] k by auto
    ultimately show ?thesis
      using nodes_ok [of ?N] leaf k bags len by (auto simp: accounted_def collected_insert)
  qed
  show ?thesis
  proof (cases "sn_kind (entries ! p)")
    case KFile
    have ids: "ids_below entries par p = {sn_identity (entries ! p)}"
      using ids_below_leaf [OF f no_children p(1)] KFile by simp
    have step: "run_task (into_parent ?N p (bag_insert ?t (sn_identity (entries ! p))) bags) = Inr bags'"
      and nodes': "nodes' = ?N"
      using run KFile by (auto simp: account_def Let_def task_simps abortable_intros)
    have ins: "bag_of ?t (collected entries par D q \<union> ids_below entries par p) b'"
      if q: "par p = Some q" and b: "bag_of ?t (collected entries par D q) b"
        and b': "run_task (bag_insert ?t (sn_identity (entries ! p)) b) = Inr b'" for q b b'
    proof -
      obtain known where known: "?t (sn_identity (entries ! p)) = Some known"
        using ids_below_known [of "sn_identity (entries ! p)" entries par p] ids by auto
      have "repeated ?t (sn_identity (entries ! p)) \<or> sn_identity (entries ! p) \<notin> collected entries par D q"
        using collected_disjoint [OF f q p(2)] ids by blast
      then show ?thesis using bag_insert_of [OF b known _ b'] by (simp add: ids)
    qed
    show ?thesis
      using into_parent_bags [OF f p self(2) len(2) bag_p [of "bags ! p", simplified] abortable_bag_insert ins up step]
        nodes_ok [of nodes'] leaf KFile len by (simp add: accounted_def nodes')
  next
    case KDirectory
    let ?bag = "case bags ! p of None \<Rightarrow> bag_default | Some bag \<Rightarrow> bag"
    have bag: "bag_of ?t (ids_below entries par p) ?bag"
      using bags [OF p] ids_below_children [OF f _ children] KDirectory by simp
    obtain s where s: "bag_summary ?bag = Inr s"
      and step: "run_task (into_parent ?N p (\<lambda>b. bag_merge ?t b ?bag) (bags[p := None])) = Inr bags'"
      and nodes': "nodes' = ?N[p := set_summary (final_summary c (sn_path (entries ! p)) s) (?N ! p)]"
      using run KDirectory by (auto simp: account_def Let_def task_simps abortable_intros)
    have "node_accounted entries par order c (insert p D) p
        (set_summary (final_summary c (sn_path (entries ! p)) s) (nodes ! p))"
      using nodes [OF p(1)] up p(2) bag_summary_of [OF bag s] KDirectory
      by (auto simp: node_accounted_def set_summary_def dir_totals_def)
    then have node: "node_accounted entries par order c (insert p D) p (nodes' ! p)"
      using p len by (simp add: nodes' self)
    have merge: "bag_of ?t (collected entries par D q \<union> ids_below entries par p) b'"
      if q: "par p = Some q" and b: "bag_of ?t (collected entries par D q) b"
        and b': "run_task (bag_merge ?t b ?bag) = Inr b'" for q b b'
      by (rule bag_merge_of [OF b bag _ b']) (rule collected_disjoint [OF f q p(2)])
    show ?thesis
      using into_parent_bags [OF f p self(2) _ bag_p [of None] abortable_bag_merge merge up step]
        nodes_ok [of nodes'] node len by (simp add: accounted_def nodes')
  qed (simp_all add: other)
qed

text \<open>Every child is finished before its parent.\<close>

lemma children_finished:
  assumes vis: "parents_first par vis" "distinct vis" "set vis = {..<n}"
    and split: "rev vis = pre @ p # post" and k: "k < n" "par k = Some p"
  shows "k \<in> set pre"
proof -
  have eq: "vis = rev post @ p # rev pre" using split by (metis append.assoc append_Cons append_Nil rev.simps(2) rev_append rev_rev_ident)
  have apart: "p \<notin> set (rev post)" using vis(2) unfolding eq by simp
  have "k \<in> set (rev post) \<or> k = p \<or> k \<in> set pre" using k vis(3) unfolding eq by auto
  then show ?thesis
  proof (elim disjE)
    assume "k \<in> set (rev post)"
    then obtain a b where "rev post = a @ k # b" by (meson split_list)
    then have "vis = a @ k # (b @ p # rev pre)" and "set a \<subseteq> set (rev post)" unfolding eq by auto
    then show ?thesis using vis(1) k(2) apart unfolding parents_first_def by blast
  next
    assume "k = p"
    then show ?thesis using vis(1) k(2) apart eq unfolding parents_first_def by blast
  qed
qed

lemma account_all:
  assumes f: "forest par (length entries)"
    and lk: "linked entries par order roots nodes" and order: "set order = {..<length entries}"
    and vis: "parents_first par vis" "distinct vis" "set vis = {..<length entries}"
    and run: "run_task (tfold (account entries (identities entries) c) (rev vis)
        (nodes, replicate (length entries) None)) = Inr (nodes', bags')"
  shows "accounted entries par order c {..<length entries} (nodes', bags')"
proof -
  have dirs: "sn_kind (entries ! q) = KDirectory" if "k < length entries" "par k = Some q" for k q
    using lk order that by (auto simp: linked_def)
  have "accounted entries par order c (set (rev vis)) (nodes', bags')"
  proof (rule tfold_invariant [OF run, where P = "\<lambda>pre. accounted entries par order c (set pre)"])
    show "accounted entries par order c (set []) (nodes, replicate (length entries) None)"
      using account_start [OF lk order] by simp
  next
    fix pre p post s s'
    assume split: "rev vis = pre @ p # post" and inv: "accounted entries par order c (set pre) s"
      and step: "run_task (account entries (identities entries) c p s) = Inr s'"
    have "set (pre @ p # post) = set vis" "distinct (pre @ p # post)"
      unfolding split [symmetric] using vis by simp_all
    then have p: "p < length entries" "p \<notin> set pre" and post: "set pre \<inter> set post = {}" "p \<notin> set post"
      using vis by auto
    have "vis = rev post @ p # rev pre"
      using split by (metis append.assoc append_Cons append_Nil rev.simps(2) rev_append rev_rev_ident)
    then have up: "q \<notin> set pre \<and> q \<noteq> p" if "par p = Some q" for q
      using vis(1) that post unfolding parents_first_def by (metis disjoint_iff set_rev)
    have "accounted entries par order c (insert p (set pre)) (fst s', snd s')"
      by (rule account_step [where nodes = "fst s" and bags = "snd s", OF f dirs p children_finished [OF vis split] up])
        (use inv step in simp_all)
    then show "accounted entries par order c (set (pre @ [p])) s'" by simp
  qed (simp add: abortable_account)
  then show ?thesis using vis by simp
qed

end
