(* ===== verification/Scan_Tree.thy ===== *)
theory Scan_Tree
  imports Scan_Totals
begin

text \<open>
  The finished tree of \<open>ScanTree::build_shared\<close>: the orders of the children of a directory and of
  the roots, and what the queries return.
\<close>

section \<open>The orders\<close>

definition name_before :: "scan_entry list \<Rightarrow> bool \<Rightarrow> nat \<Rightarrow> nat \<Rightarrow> bool" where
  "name_before entries siblings p q \<longleftrightarrow>
     (if siblings then file_name (sn_path (entries ! p)) \<le> file_name (sn_path (entries ! q))
      else path_at entries p \<le> path_at entries q)"

definition size_before :: "scan_entry list \<Rightarrow> bool \<Rightarrow> (nat \<Rightarrow> u64 option) \<Rightarrow> nat \<Rightarrow> nat \<Rightarrow> bool" where
  "size_before entries siblings known p q \<longleftrightarrow>
     known q < known p \<or> (known p = known q \<and> name_before entries siblings p q)"

text \<open>\<open>ids\<close> are the ids of the positions \<open>ps\<close>, arranged by \<open>le\<close>.\<close>

definition arranged :: "scan_entry list \<Rightarrow> (nat \<Rightarrow> nat \<Rightarrow> bool) \<Rightarrow> nat list \<Rightarrow> u64 list \<Rightarrow> bool" where
  "arranged entries le ps ids \<longleftrightarrow>
     (\<exists>qs. mset qs = mset ps \<and> sorted_wrt le qs \<and> ids = map (\<lambda>p. sn_id (entries ! p)) qs)"

lemma compare_name_before:
  "compare_name entries siblings a b \<noteq> Greater \<longleftrightarrow> name_before entries siblings (unat a) (unat b)"
  by (auto simp: compare_name_def compare_keys_def name_before_def)

lemma compare_size_before:
  "compare_size entries nodes siblings metric a b \<noteq> Greater
     \<longleftrightarrow> size_before entries siblings (size_at entries nodes metric) (unat a) (unat b)"
  by (auto simp: compare_size_def then_with_def compare_name_before size_before_def compare_keys_def)

lemma tmap_run: "run_task (tmap f xs) = Inr (map f xs)"
proof -
  have "run_task (tfold (\<lambda>x ys. tbind check_cancelled (\<lambda>_. tret (ys @ [f x]))) xs ys) = Inr (ys @ map f xs)" for ys
    by (induction xs arbitrary: ys) (simp_all add: task_simps abortable_intros)
  then show ?thesis by (simp add: tmap_def)
qed

lemma build_orders_run:
  "run_task (build_orders entries positions nodes ids siblings) =
     (let names = sort_by (compare_name entries siblings) (map (\<lambda>i. of_nat (the (positions i))) ids);
          ident = map (\<lambda>i. sn_id (entries ! unat i)) in
      Inr (ident names, ident (sort_by (compare_size entries nodes siblings Logical) names),
        ident (sort_by (compare_size entries nodes siblings Allocated) names)))"
  by (simp add: build_orders_def task_simps abortable_intros tmap_run Let_def
      cancellable_sort_run by_name.comparator_axioms by_size.comparator_axioms)

lemma sorted_arranged:
  fixes ws :: "u64 list"
  assumes "comparator cmp" and "\<And>a b. cmp a b \<noteq> Greater \<longleftrightarrow> le (unat a) (unat b)"
    and "mset ws = mset (map of_nat ps)" and "\<And>p. p \<in> set ps \<Longrightarrow> p < 2 ^ 64"
  shows "arranged entries le ps (map (\<lambda>i. sn_id (entries ! unat i)) (sort_by cmp ws))"
  unfolding arranged_def
proof (intro exI conjI)
  have "mset (map unat (sort_by cmp ws)) = image_mset unat (mset (map (of_nat :: nat \<Rightarrow> u64) ps))"
    by (simp add: assms(3))
  also have "\<dots> = image_mset (\<lambda>p. unat (of_nat p :: u64)) (mset ps)" by (simp add: image_mset.compositionality comp_def)
  also have "\<dots> = image_mset (\<lambda>p. p) (mset ps)"
    by (rule image_mset_cong) (use assms(4) in \<open>auto simp: unat_of_nat\<close>)
  finally show "mset (map unat (sort_by cmp ws)) = mset ps" by simp
  show "sorted_wrt le (map unat (sort_by cmp ws))"
    using comparator.sort_by_sorted [OF assms(1), of ws] by (simp add: sorted_wrt_map assms(2))
qed simp

lemma build_orders_arranged:
  assumes run: "run_task (build_orders entries positions nodes (map (\<lambda>p. sn_id (entries ! p)) ps) siblings)
      = Inr (names, logical, allocated)"
    and positions: "indexed sn_id entries positions" and ps: "\<And>p. p \<in> set ps \<Longrightarrow> p < length entries"
    and len: "length entries < 2 ^ 64"
  shows "arranged entries (name_before entries siblings) ps names"
    and "arranged entries (size_before entries siblings (size_at entries nodes Logical)) ps logical"
    and "arranged entries (size_before entries siblings (size_at entries nodes Allocated)) ps allocated"
proof -
  have eq: "map (\<lambda>i. of_nat (the (positions i)) :: u64) (map (\<lambda>p. sn_id (entries ! p)) ps) = map of_nat ps"
    using indexed_at [OF positions ps] by simp
  have small: "p < 2 ^ 64" if "p \<in> set ps" for p using ps [OF that] len by simp
  have out: "names = map (\<lambda>i. sn_id (entries ! unat i)) (sort_by (compare_name entries siblings) (map of_nat ps))"
    "logical = map (\<lambda>i. sn_id (entries ! unat i)) (sort_by (compare_size entries nodes siblings Logical)
       (sort_by (compare_name entries siblings) (map of_nat ps)))"
    "allocated = map (\<lambda>i. sn_id (entries ! unat i)) (sort_by (compare_size entries nodes siblings Allocated)
       (sort_by (compare_name entries siblings) (map of_nat ps)))"
    using run unfolding build_orders_run eq Let_def by simp_all
  show "arranged entries (name_before entries siblings) ps names"
    "arranged entries (size_before entries siblings (size_at entries nodes Logical)) ps logical"
    "arranged entries (size_before entries siblings (size_at entries nodes Allocated)) ps allocated"
    unfolding out
    by (rule sorted_arranged [OF _ _ _ small]; simp add: compare_name_before compare_size_before
        by_name.comparator_axioms by_size.comparator_axioms)+
qed

section \<open>The finished nodes\<close>

definition children_at :: "(nat \<Rightarrow> nat option) \<Rightarrow> nat list \<Rightarrow> nat option \<Rightarrow> nat list" where
  "children_at par order q = filter (\<lambda>p. par p = q) order"

definition dir_arranged ::
  "scan_entry list \<Rightarrow> (nat \<Rightarrow> nat option) \<Rightarrow> nat list \<Rightarrow> (metric \<Rightarrow> nat \<Rightarrow> u64 option) \<Rightarrow> nat \<Rightarrow> dir_node \<Rightarrow> bool" where
  "dir_arranged entries par order known q d \<longleftrightarrow>
     arranged entries (name_before entries True) (children_at par order (Some q)) (dn_children d)
     \<and> arranged entries (size_before entries True (known Logical)) (children_at par order (Some q)) (fst (dn_size_orders d))
     \<and> arranged entries (size_before entries True (known Allocated)) (children_at par order (Some q)) (snd (dn_size_orders d))"

definition node_finished ::
  "scan_entry list \<Rightarrow> (nat \<Rightarrow> nat option) \<Rightarrow> nat list \<Rightarrow> coverage \<Rightarrow> (metric \<Rightarrow> nat \<Rightarrow> u64 option)
     \<Rightarrow> nat set \<Rightarrow> nat \<Rightarrow> index_node \<Rightarrow> bool" where
  "node_finished entries par order c known D q x \<longleftrightarrow> xn_parent x = par q
     \<and> (xn_contains_dataless x \<longleftrightarrow> (\<exists>y<length entries. sn_dataless (entries ! y) \<and> below par y q))
     \<and> (if sn_kind (entries ! q) = KDirectory
        then (\<exists>d. xn_directory x = Some d \<and> dir_totals entries par c q d
               \<and> (if q \<in> D then dir_arranged entries par order known q d
                  else dn_children d = map (\<lambda>p. sn_id (entries ! p)) (children_at par order (Some q))))
        else xn_directory x = None)"

lemma accounted_finished:
  assumes f: "forest par (length entries)" and acc: "accounted entries par order c {..<length entries} (nodes, bags)"
    and q: "q < length entries"
  shows "node_finished entries par order c known {} q (nodes ! q)"
proof -
  have node: "node_accounted entries par order c {..<length entries} q (nodes ! q)"
    using acc q by (simp add: accounted_def)
  show ?thesis
    using node dataless_below [OF f q _ node] q
    by (cases "sn_kind (entries ! q) = KDirectory")
      (auto simp: node_accounted_def node_finished_def child_ids_def children_at_def)
qed

definition summary_at :: "index_node list \<Rightarrow> nat \<Rightarrow> directory_summary option" where
  "summary_at nodes p = (case xn_directory (nodes ! p) of None \<Rightarrow> None | Some d \<Rightarrow> dn_summary d)"

lemma size_at_summary:
  "summary_at nodes p = summary_at nodes' p \<Longrightarrow> size_at entries nodes m p = size_at entries nodes' m p"
  by (simp only: size_at_def summary_at_def)

lemma order_children_finished:
  assumes positions: "indexed sn_id entries positions" and len: "length entries < 2 ^ 64"
    and order: "set order = {..<length entries}"
    and known: "known = size_at entries nodes"
    and p: "p < length entries" "p \<notin> D" and n: "length nodes = length entries"
    and fin: "\<And>q. q < length entries \<Longrightarrow> node_finished entries par order c known D q (nodes ! q)"
    and run: "run_task (order_children entries positions p nodes) = Inr nodes'"
  shows "length nodes' = length entries" and "summary_at nodes' = summary_at nodes"
    and "\<And>q. q < length entries \<Longrightarrow> node_finished entries par order c known (insert p D) q (nodes' ! q)"
proof -
  have other: "node_finished entries par order c known (insert p D) q x"
    if "node_finished entries par order c known D q x" "q \<noteq> p" for q x
    using that by (auto simp: node_finished_def)
  have "length nodes' = length entries \<and> summary_at nodes' = summary_at nodes
    \<and> (\<forall>q<length entries. node_finished entries par order c known (insert p D) q (nodes' ! q))"
  proof (cases "sn_kind (entries ! p) = KDirectory")
    case True
    then obtain d where d: "xn_directory (nodes ! p) = Some d" "dir_totals entries par c p d"
        "dn_children d = map (\<lambda>p. sn_id (entries ! p)) (children_at par order (Some p))"
      using fin [OF p(1)] p(2) by (auto simp: node_finished_def)
    obtain names logical allocated where
      orders: "run_task (build_orders entries positions nodes (dn_children d) True) = Inr (names, logical, allocated)"
      and nodes': "nodes' = nodes[p := (nodes ! p)\<lparr>xn_directory :=
               Some (d\<lparr>dn_children := names, dn_size_orders := (logical, allocated)\<rparr>)\<rparr>]"
      using run d(1) by (auto simp: order_children_def task_simps abortable_intros)
    have small: "q < length entries" if "q \<in> set (children_at par order (Some p))" for q
      using that order by (auto simp: children_at_def)
    note arr = build_orders_arranged [OF orders [unfolded d(3)] positions small len, folded known]
    have "node_finished entries par order c known (insert p D) p (nodes' ! p)"
      using fin [OF p(1)] d True arr p n by (simp add: node_finished_def nodes' dir_totals_def dir_arranged_def)
    moreover have "summary_at nodes' = summary_at nodes"
      by (rule ext) (use d n p in \<open>auto simp: summary_at_def nodes' nth_list_update\<close>)
    moreover have "nodes' ! q = nodes ! q" if "q \<noteq> p" for q
      using that by (simp add: nodes')
    ultimately show ?thesis using fin other n nodes' by (metis length_list_update)
  next
    case False
    then have "nodes' = nodes" using run fin [OF p(1)]
      by (simp add: order_children_def task_simps abortable_intros node_finished_def)
    moreover have "node_finished entries par order c known (insert p D) p (nodes ! p)"
      using fin [OF p(1)] False by (simp add: node_finished_def)
    ultimately show ?thesis using fin other n by metis
  qed
  then show "length nodes' = length entries" "summary_at nodes' = summary_at nodes"
    "\<And>q. q < length entries \<Longrightarrow> node_finished entries par order c known (insert p D) q (nodes' ! q)" by simp_all
qed

lemma order_all_finished:
  assumes positions: "indexed sn_id entries positions" and len: "length entries < 2 ^ 64"
    and order: "set order = {..<length entries}" and n: "length nodes = length entries"
    and fin: "\<And>q. q < length entries \<Longrightarrow> node_finished entries par order c (size_at entries nodes) {} q (nodes ! q)"
    and run: "run_task (tfold (order_children entries positions) [0..<length nodes] nodes) = Inr nodes'"
  shows "length nodes' = length entries"
    and "\<And>q. q < length entries \<Longrightarrow>
      node_finished entries par order c (size_at entries nodes') {..<length entries} q (nodes' ! q)"
proof -
  let ?known = "size_at entries nodes"
  let ?P = "\<lambda>pre N. length N = length entries \<and> summary_at N = summary_at nodes
    \<and> (\<forall>q<length entries. node_finished entries par order c ?known (set pre) q (N ! q))"
  have "?P [0..<length nodes] nodes'"
  proof (rule tfold_invariant [OF run, where P = ?P])
    show "?P [] nodes" using n fin by simp
  next
    fix pre p post N N'
    assume split: "[0..<length nodes] = pre @ p # post" and inv: "?P pre N"
      and step: "run_task (order_children entries positions p N) = Inr N'"
    have "p \<in> set [0..<length nodes]" unfolding split by simp
    moreover have "distinct (pre @ p # post)" by (simp flip: split)
    ultimately have p: "p < length entries" "p \<notin> set pre" using n by simp_all
    have known: "?known = size_at entries N"
      by (intro ext size_at_summary) (use inv in simp)
    have fin_N: "\<And>q. q < length entries \<Longrightarrow> node_finished entries par order c ?known (set pre) q (N ! q)"
      using inv by simp
    show "?P (pre @ [p]) N'"
      using order_children_finished [OF positions len order known p _ fin_N step] inv by simp
  qed (simp add: abortable_order_children)
  moreover from this have "?known = size_at entries nodes'"
    by (intro ext size_at_summary) simp
  ultimately show "length nodes' = length entries"
    "\<And>q. q < length entries \<Longrightarrow>
      node_finished entries par order c (size_at entries nodes') {..<length entries} q (nodes' ! q)"
    using n by (simp_all add: atLeast0LessThan)
qed

section \<open>The finished tree\<close>

text \<open>The parent positions of the finished tree, as the queries see them.\<close>

definition tree_par :: "scan_tree \<Rightarrow> nat \<Rightarrow> nat option" where
  "tree_par t p = (if p < length (tr_nodes t) then xn_parent (tr_nodes t ! p) else None)"

definition tree_finished :: "scan_report \<Rightarrow> nat list \<Rightarrow> register \<Rightarrow> coverage \<Rightarrow> scan_tree \<Rightarrow> bool" where
  "tree_finished r order g c t \<longleftrightarrow>
     (let entries = sr_entries r; par = parent_at entries (rg_paths g) in
      registered entries g \<and> forest par (length entries)
      \<and> tr_report t = r \<and> tr_positions t = rg_positions g \<and> tr_complete t = cv_complete c
      \<and> length (tr_nodes t) = length entries
      \<and> (\<forall>q<length entries. node_finished entries par order c (size_at entries (tr_nodes t)) {..<length entries} q
            (tr_nodes t ! q))
      \<and> (\<forall>p<length entries. par p = None \<longrightarrow> path_at entries p \<in> components ` set (sr_roots r))
      \<and> (\<forall>k<length entries. \<forall>q. par k = Some q \<longrightarrow> sn_kind (entries ! q) = KDirectory)
      \<and> arranged entries (name_before entries False) (children_at par order None) (tr_roots t)
      \<and> arranged entries (size_before entries False (size_at entries (tr_nodes t) Logical)) (children_at par order None)
          (fst (tr_root_size_orders t))
      \<and> arranged entries (size_before entries False (size_at entries (tr_nodes t) Allocated)) (children_at par order None)
          (snd (tr_root_size_orders t)))"

lemma build_shared_finished:
  assumes run: "run_task (build_shared order r limits) = Inr t"
    and order: "distinct order" "set order = {..<length (sr_entries r)}"
  shows "\<exists>explicit g c. run_task (register_report r limits) = Inr (explicit, g)
    \<and> run_task (index_coverage r (rg_paths g)) = Inr c \<and> tree_finished r order g c t"
proof -
  let ?es = "sr_entries r"
  obtain explicit g roots nodes c vis pending nodes1 bags nodes2 names logical allocated where
    reg: "run_task (register_report r limits) = Inr (explicit, g)"
    and link: "run_task (tfold (link_entry ?es (rg_paths g) explicit) order ([], rg_nodes g)) = Inr (roots, nodes)"
    and cov: "run_task (index_coverage r (rg_paths g)) = Inr c"
    and desc: "run_task (descend (rg_positions g) nodes (length ?es) (rev roots) []) = Inr (pending, vis)"
    and acc: "run_task (tfold (account ?es (rg_measurements g) c) (rev vis)
               (nodes, replicate (length ?es) None)) = Inr (nodes1, bags)"
    and ord: "run_task (tfold (order_children ?es (rg_positions g)) [0..<length nodes1] nodes1) = Inr nodes2"
    and top: "run_task (build_orders ?es (rg_positions g) nodes2 roots False) = Inr (names, logical, allocated)"
    and t: "t = \<lparr>tr_report = r, tr_positions = rg_positions g, tr_nodes = nodes2, tr_roots = names,
          tr_root_size_orders = (logical, allocated), tr_complete = cv_complete c\<rparr>"
    using run by (auto simp: build_shared_def Let_def task_simps abortable_intros run_task_case_prod split: prod.splits)
  let ?par = "parent_at ?es (rg_paths g)"
  have g: "registered ?es g" by (rule register_report_registered [OF reg])
  then have pos: "indexed sn_id ?es (rg_positions g)" and paths: "indexed (\<lambda>e. components (sn_path e)) ?es (rg_paths g)"
    and ids: "rg_measurements g = identities ?es" and news: "rg_nodes g = map new_node ?es"
    by (simp_all add: registered_def identities_def)
  have f: "forest ?par (length ?es)" by (rule parent_at_forest [OF paths])
  note lk = link_report_linked [OF paths order link [unfolded news]]
  have small: "length ?es < 2 ^ 64"
    using register_report_registered(3) [OF reg] reg
    by (auto simp: register_report_def task_simps abortable_intros scan_limits_validate_def)
  obtain vis' where "run_task (descend (rg_positions g) nodes (length ?es) (rev roots) []) = Inr ([], vis')"
      "distinct vis'" "set vis' = {..<length ?es}" "parents_first ?par vis'"
    using traversal_complete [OF pos f lk(1) order] by blast
  then have vis: "parents_first ?par vis" "distinct vis" "set vis = {..<length ?es}" using desc by simp_all
  have done1: "accounted ?es ?par order c {..<length ?es} (nodes1, bags)"
    by (rule account_all [OF f lk(1) order(2) vis acc [unfolded ids]])
  then have n1: "length nodes1 = length ?es" by (simp add: accounted_def)
  note fin = order_all_finished [OF pos small order(2) n1 accounted_finished [OF f done1] ord]
  have roots: "roots = map (\<lambda>p. sn_id (?es ! p)) (children_at ?par order None)"
    using lk(1) by (simp add: linked_def child_ids_def children_at_def)
  have in_range: "\<And>p. p \<in> set (children_at ?par order None) \<Longrightarrow> p < length ?es"
    using order(2) by (auto simp: children_at_def)
  have "tree_finished r order g c t"
    using g f fin lk order(2) build_orders_arranged [OF top [unfolded roots] pos in_range small]
      register_report_registered(2) [OF reg]
    by (auto simp: tree_finished_def Let_def t linked_def)
  then show ?thesis using reg cov by blast
qed

end
