(* ===== verification/Scan_Coverage.thy ===== *)
theory Scan_Coverage
  imports Scan_Index
begin

text \<open>
  The coverage of a report (\<open>index_coverage\<close>): a directory whose total is reported complete has
  no gap of the scan at or below it.
\<close>

definition ancestor_closed :: "component list set \<Rightarrow> bool" where
  "ancestor_closed S \<longleftrightarrow> (\<forall>x\<in>S. \<forall>y. y \<noteq> [] \<longrightarrow> prefix y x \<longrightarrow> y \<in> S)"

lemma root_parent:
  assumes "is_absolute p" "parent p = None"
  shows "components p = [RootDir]"
proof -
  obtain cs where cs: "components p = RootDir # cs" using assms(1) is_absolute_components by blast
  have "list_all inner_component cs" using wf_components_components [of p] unfolding cs by simp
  then have "RootDir \<notin> set cs" by (induction cs) auto
  then have "cs = []" using assms(2) cs by (cases cs rule: rev_cases) (auto simp: parent_None)
  then show ?thesis using cs by simp
qed

lemma parent_absolute: "is_absolute p \<Longrightarrow> parent p = Some q \<Longrightarrow> is_absolute q"
proof -
  assume p: "is_absolute p" "parent p = Some q"
  obtain c where c: "components p = components q @ [c]" "c \<noteq> RootDir" using parent_components [OF p(2)] by blast
  obtain cs where "components p = RootDir # cs" using p(1) is_absolute_components by blast
  then show ?thesis using c is_absolute_components by (cases "components q") auto
qed

lemma insert_ancestors_run:
  assumes "is_absolute p"
    and "\<And>y z. prefix y (components p) \<Longrightarrow> y \<in> S \<Longrightarrow> z \<noteq> [] \<Longrightarrow> prefix z y \<Longrightarrow> z \<in> S"
  shows "run_task (insert_ancestors p S) = Inr (S \<union> {y. y \<noteq> [] \<and> prefix y (components p)})"
  using assms
proof (induction p S rule: insert_ancestors.induct)
  case (1 p S)
  show ?case
  proof (cases "components p \<in> S")
    case True
    then have "{y. y \<noteq> [] \<and> prefix y (components p)} \<subseteq> S" using "1.prems"(2) by blast
    then show ?thesis using True
      by (subst insert_ancestors.simps) (simp add: task_simps abortable_intros Un_absorb2)
  next
    case False
    show ?thesis
    proof (cases "parent p")
      case None
      then have root: "components p = [RootDir]" by (rule root_parent [OF "1.prems"(1)])
      have "{y. y \<noteq> [] \<and> prefix y [RootDir]} = {[RootDir]}"
        by (auto simp: prefix_Cons)
      then show ?thesis using False None root
        by (subst insert_ancestors.simps) (simp add: task_simps abortable_intros)
    next
      case (Some q)
      obtain c where c: "components p = components q @ [c]" using parent_components [OF Some] by blast
      have step: "run_task (insert_ancestors q (insert (components p) S))
          = Inr (insert (components p) S \<union> {y. y \<noteq> [] \<and> prefix y (components q)})"
      proof (rule "1.IH" [OF False Some parent_absolute [OF "1.prems"(1) Some]])
        fix y z :: "component list"
        assume y: "prefix y (components q)" "y \<in> insert (components p) S" "z \<noteq> []" "prefix z y"
        then have "y \<noteq> components p" using c by (auto dest: prefix_length_le)
        then show "z \<in> insert (components p) S"
          using "1.prems"(2) [of y z] y c by (auto simp: prefix_snoc)
      qed
      have "insert (components p) S \<union> {y. y \<noteq> [] \<and> prefix y (components q)}
          = S \<union> {y. y \<noteq> [] \<and> prefix y (components p)}"
        unfolding c by (auto simp: prefix_snoc)
      then show ?thesis using False Some step
        by (subst insert_ancestors.simps) (simp add: task_simps abortable_intros)
    qed
  qed
qed

section \<open>What the coverage says\<close>

text \<open>After some issues: complete means none was a gap; localized means every gap had a path,
  whose ancestors are all marked.\<close>

definition covered :: "scan_issue list \<Rightarrow> coverage \<Rightarrow> bool" where
  "covered issues c \<longleftrightarrow> ancestor_closed (cv_incomplete c)
     \<and> (cv_complete c \<longrightarrow> list_all (\<lambda>i. \<not> is_gap (si_code i)) issues)
     \<and> (cv_localized c \<longrightarrow> list_all (\<lambda>i. is_gap (si_code i) \<longrightarrow>
          (\<exists>p. si_path i = Some p \<and> is_absolute p \<and> components p \<in> cv_incomplete c)) issues)"

lemma cover_issue_covered:
  assumes "covered issues c" and "run_task (cover_issue entries paths i c) = Inr c'"
  shows "covered (issues @ [i]) c' \<and> (cv_complete c' \<longrightarrow> cv_complete c) \<and> (cv_localized c' \<longrightarrow> cv_localized c)"
proof (cases "is_gap (si_code i)")
  case False
  then have "c' = c" using assms(2) by (simp add: cover_issue_def task_simps abortable_intros)
  then show ?thesis using assms(1) False by (simp add: covered_def)
next
  case gap: True
  show ?thesis
  proof (cases "cv_localized c \<and> bounded_gap entries paths i")
    case False
    then have "c' = c\<lparr>cv_complete := False, cv_localized := False\<rparr>"
      using assms(2) gap by (auto simp: cover_issue_def task_simps abortable_intros)
    then show ?thesis using assms(1) by (simp add: covered_def)
  next
    case True
    then obtain p where p: "si_path i = Some p" "valid_absolute_path p"
      by (auto simp: bounded_gap_def split: option.splits)
    then have abs: "is_absolute p" by (simp add: valid_absolute_path_def)
    let ?S = "cv_incomplete c" and ?new = "{y. y \<noteq> [] \<and> prefix y (components p)}"
    have run: "run_task (insert_ancestors p ?S) = Inr (?S \<union> ?new)"
      by (rule insert_ancestors_run [OF abs]) (use assms(1) in \<open>auto simp: covered_def ancestor_closed_def\<close>)
    have c': "c' = c\<lparr>cv_complete := False, cv_incomplete := ?S \<union> ?new\<rparr>"
      using assms(2) gap True p run by (auto simp: cover_issue_def task_simps abortable_intros)
    have "components p \<noteq> []" using abs is_absolute_components by auto
    moreover have "ancestor_closed (?S \<union> ?new)"
      using assms(1) by (auto simp: covered_def ancestor_closed_def intro: prefix_order.trans)
    ultimately show ?thesis
      using assms(1) True p abs c' by (auto simp: covered_def list_all_iff)
  qed
qed

lemma index_coverage_covered:
  assumes "run_task (index_coverage r paths) = Inr c"
  shows "covered (sr_issues r) c" and "cv_complete c \<or> cv_localized c \<Longrightarrow> sr_issues_omitted r = 0"
    and "cv_complete c \<Longrightarrow> sr_complete r \<and> sr_scan_status r = StatusComplete"
    and "cv_localized c \<Longrightarrow> sr_scan_status r = StatusPartial"
proof -
  let ?c0 = "\<lparr>cv_complete = sr_complete r \<and> sr_scan_status r = StatusComplete \<and> sr_issues_omitted r = 0,
         cv_localized = sr_scan_status r = StatusPartial \<and> sr_issues_omitted r = 0, cv_incomplete = {}\<rparr>"
  let ?le = "\<lambda>c. (cv_complete c \<longrightarrow> cv_complete ?c0) \<and> (cv_localized c \<longrightarrow> cv_localized ?c0)"
  obtain c1 where issues: "run_task (tfold (cover_issue (sr_entries r) paths) (sr_issues r) ?c0) = Inr c1"
    and roots: "run_task (tfold (cover_root (sr_issues r) paths) (sr_roots r)
         (c1\<lparr>cv_localized := cv_localized c1 \<and> \<not> cv_complete c1 \<and> cv_incomplete c1 \<noteq> {}\<rparr>)) = Inr c"
    using assms by (auto simp: index_coverage_def task_simps abortable_intros)
  have "covered (sr_issues r) c1 \<and> ?le c1"
  proof (rule tfold_invariant [OF issues, where P = "\<lambda>pre c. covered pre c \<and> ?le c"])
    show "covered [] ?c0 \<and> ?le ?c0" by (simp add: covered_def ancestor_closed_def)
    fix pre i post b b'
    assume "covered pre b \<and> ?le b" "run_task (cover_issue (sr_entries r) paths i b) = Inr b'"
    then show "covered (pre @ [i]) b' \<and> ?le b'" using cover_issue_covered by blast
  qed (rule abortable_cover_issue)
  then have start: "covered (sr_issues r) (c1\<lparr>cv_localized := cv_localized c1 \<and> \<not> cv_complete c1 \<and> cv_incomplete c1 \<noteq> {}\<rparr>)
      \<and> ?le (c1\<lparr>cv_localized := cv_localized c1 \<and> \<not> cv_complete c1 \<and> cv_incomplete c1 \<noteq> {}\<rparr>)"
    by (simp add: covered_def)
  have "covered (sr_issues r) c \<and> ?le c"
  proof (rule tfold_invariant [OF roots, where P = "\<lambda>pre c. covered (sr_issues r) c \<and> ?le c"])
    fix pre root post b b'
    assume "covered (sr_issues r) b \<and> ?le b" "run_task (cover_root (sr_issues r) paths root b) = Inr b'"
    then show "covered (sr_issues r) b' \<and> ?le b'"
      by (auto simp: abortable_intros cover_root_def task_simps covered_def split: if_splits)
  qed (use start in \<open>simp_all add: abortable_cover_root\<close>)
  then show "covered (sr_issues r) c" "cv_complete c \<or> cv_localized c \<Longrightarrow> sr_issues_omitted r = 0"
    "cv_complete c \<Longrightarrow> sr_complete r \<and> sr_scan_status r = StatusComplete"
    "cv_localized c \<Longrightarrow> sr_scan_status r = StatusPartial" by auto
qed

lemma complete_no_gap:
  assumes "covered issues c" and "complete_at c d" and "i \<in> set issues" and "is_gap (si_code i)"
    and "is_absolute d"
  shows "\<exists>p. si_path i = Some p \<and> \<not> starts_with p d"
proof -
  have loc: "cv_localized c" and out: "components d \<notin> cv_incomplete c"
    using assms by (auto simp: complete_at_def covered_def list_all_iff)
  then obtain p where p: "si_path i = Some p" "components p \<in> cv_incomplete c"
    using assms by (auto simp: covered_def list_all_iff)
  have "components d \<noteq> []" using assms(5) is_absolute_components by auto
  then have "\<not> starts_with p d"
    using out p assms(1) unfolding covered_def ancestor_closed_def starts_with_def by blast
  then show ?thesis using p by blast
qed

end
