(* ===== verification/Scan_Properties.thy ===== *)
theory Scan_Properties
  imports Scan_Tree Scan_Coverage
begin

text \<open>
  The properties of the scan index, stated over \<open>build_shared\<close> and the queries of the tree it
  returns, with a small report they are applied to.
\<close>

section \<open>Reference measurements\<close>

text \<open>The value all observations of a file identity agree on.\<close>

definition agreed :: "scan_entry list \<Rightarrow> (measurements \<Rightarrow> u64 option) \<Rightarrow> file_identity \<Rightarrow> u64 option" where
  "agreed entries m i =
     (case files_of entries i of
        [] \<Rightarrow> None
      | e # es \<Rightarrow> if list_all (\<lambda>e'. m (observation_of e') = m (observation_of e)) es then m (observation_of e) else None)"

lemma measured_agreed:
  assumes "\<And>a b. m (observe a b) = (if m a \<noteq> m b then None else m a)"
  shows "measured (identities entries) m = agreed entries m"
proof (rule ext)
  fix i
  have "measured (identities entries) m i = Some b \<longleftrightarrow> agreed entries m i = Some b" for b
    unfolding identities_measured [OF assms]
    by (cases "files_of entries i") (auto simp: agreed_def list_all_iff)
  then show "measured (identities entries) m i = agreed entries m i"
    by (metis not_None_eq)
qed

lemma measured_agreed_all:
  "measured (identities entries) ms_logical = agreed entries ms_logical"
  "measured (identities entries) ms_allocated = agreed entries ms_allocated"
  "measured (identities entries) ms_private = agreed entries ms_private"
  by (rule measured_agreed, simp)+

section \<open>From the finished tree to its queries\<close>

lemma below_cong:
  assumes "\<And>p. p < n \<Longrightarrow> par p = par' p" "forest par n"
  shows "below par p q \<Longrightarrow> p < n \<Longrightarrow> below par' p q"
proof (induction rule: below.induct)
  case (below_parent p c q)
  then have "c < n" using below_lessI assms(2) by blast
  then show ?case using below_parent assms(1) by (metis below.below_parent)
qed simp

lemma tree_finished_par:
  assumes fin: "tree_finished r order g c t" and p: "p < length (sr_entries r)"
  shows "tree_par t p = parent_at (sr_entries r) (rg_paths g) p"
  using assms by (simp add: tree_par_def tree_finished_def Let_def node_finished_def)

lemma tree_finished_forest:
  "tree_finished r order g c t \<Longrightarrow> forest (tree_par t) (length (sr_entries r))"
proof -
  assume fin: "tree_finished r order g c t"
  then have len: "length (tr_nodes t) = length (sr_entries r)"
    and f: "forest (parent_at (sr_entries r) (rg_paths g)) (length (sr_entries r))"
    by (simp_all add: tree_finished_def Let_def)
  show ?thesis
    using f tree_finished_par [OF fin] len unfolding forest_def tree_par_def by (metis option.distinct(1))
qed

lemma tree_finished_below:
  assumes fin: "tree_finished r order g c t" and p: "p < length (sr_entries r)"
  shows "below (tree_par t) p q \<longleftrightarrow> below (parent_at (sr_entries r) (rg_paths g)) p q"
proof -
  have f: "forest (parent_at (sr_entries r) (rg_paths g)) (length (sr_entries r))"
    using fin by (simp add: tree_finished_def Let_def)
  show ?thesis
    using below_cong [OF tree_finished_par [OF fin] tree_finished_forest [OF fin] _ p]
      below_cong [OF tree_finished_par [OF fin, symmetric] f _ p] by blast
qed

lemma tree_finished_position:
  assumes fin: "tree_finished r order g c t"
  shows "tr_positions t i = Some q \<longleftrightarrow> q < length (sr_entries r) \<and> sn_id (sr_entries r ! q) = i"
  using fin by (auto simp: tree_finished_def Let_def registered_def indexed_def)

lemma tree_finished_node:
  assumes "tree_finished r order g c t" and "tr_positions t i = Some q"
  shows "node_finished (sr_entries r) (parent_at (sr_entries r) (rg_paths g)) order c
    (size_at (sr_entries r) (tr_nodes t)) {..<length (sr_entries r)} q (tr_nodes t ! q)"
  using assms tree_finished_position [OF assms(1), of i q] by (simp add: tree_finished_def Let_def)

lemma tree_summary_finished:
  assumes fin: "tree_finished r order g c t" and i: "tree_summary t i = Some s"
  obtains q s0 where "tr_positions t i = Some q" "sn_kind (sr_entries r ! q) = KDirectory"
    "s = final_summary c (sn_path (sr_entries r ! q)) s0"
    "totals_of (identities (sr_entries r)) (ids_below (sr_entries r) (tree_par t) q) s0"
proof -
  obtain q d where q: "tr_positions t i = Some q" and d: "xn_directory (tr_nodes t ! q) = Some d" "dn_summary d = Some s"
    using i by (auto simp: tree_summary_def tree_directory_def split: option.splits)
  have "ids_below (sr_entries r) (tree_par t) q
      = ids_below (sr_entries r) (parent_at (sr_entries r) (rg_paths g)) q"
    using tree_finished_below [OF fin] by (auto simp: ids_below_def)
  then show ?thesis
    using that [OF q] tree_finished_node [OF fin q] d
    by (auto simp: node_finished_def dir_totals_def split: if_splits)
qed

section \<open>Properties\<close>

text \<open>C18: The total of a directory counts every file identity of its subtree once: the files, the
  known bytes and the files of unknown size are those of the set of identities below the directory,
  each with the value its observations in the whole report agree on; the private total is the exact
  sum when the directory is complete, every value is known and the sum fits, and absent
  otherwise.\<close>

theorem directory_totals_count_identities_once:
  assumes "run_task (build_shared order r limits) = Inr t"
    and "distinct order" "set order = {..<length (sr_entries r)}"
    and "tree_summary t i = Some s" "tr_positions t i = Some q"
  shows "let I = ids_below (sr_entries r) (tree_par t) q in
    unat (ds_unique_files s) = card I
    \<and> unat (ds_logical_bytes_known s) = known_total (agreed (sr_entries r) ms_logical) I
    \<and> unat (ds_logical_bytes_unknown_files s) = unknown_files (agreed (sr_entries r) ms_logical) I
    \<and> unat (ds_allocated_bytes_known s) = known_total (agreed (sr_entries r) ms_allocated) I
    \<and> unat (ds_allocated_bytes_unknown_files s) = unknown_files (agreed (sr_entries r) ms_allocated) I
    \<and> ds_private_bytes s = (if ds_complete s then exact_total (agreed (sr_entries r) ms_private) I else None)"
proof -
  obtain g c where "tree_finished r order g c t" using build_shared_finished [OF assms(1-3)] by blast
  then show ?thesis
    by (rule tree_summary_finished [OF _ assms(4)])
      (use assms(5) in \<open>auto simp: Let_def totals_of_def final_summary_def measured_agreed_all\<close>)
qed


lemma arranged_ids:
  assumes "arranged entries le ps ids" and "distinct ps" and "\<And>p. p \<in> set ps \<Longrightarrow> p < length entries"
    and "indexed sn_id entries positions"
  shows "distinct ids" and "set ids = (\<lambda>p. sn_id (entries ! p)) ` set ps"
    and "mset ids = image_mset (\<lambda>p. sn_id (entries ! p)) (mset ps)"
proof -
  obtain qs where qs: "mset qs = mset ps" "ids = map (\<lambda>p. sn_id (entries ! p)) qs"
    using assms(1) by (auto simp: arranged_def)
  then have set: "set qs = set ps" by (metis set_mset_mset)
  then have "distinct qs"
    using assms(2) qs(1) by (metis distinct_card card_distinct size_mset)
  moreover have "inj_on (\<lambda>p. sn_id (entries ! p)) (set qs)"
    using assms(3) set indexed_inj [OF assms(4)] by (auto simp: inj_on_def)
  ultimately show "distinct ids" by (simp add: qs distinct_map)
  show "set ids = (\<lambda>p. sn_id (entries ! p)) ` set ps" by (simp add: qs set)
  show "mset ids = image_mset (\<lambda>p. sn_id (entries ! p)) (mset ps)"
    by (simp add: qs(2) flip: qs(1))
qed

lemma arranged_sorted:
  assumes "arranged entries le ps ids" and "\<And>p. p \<in> set ps \<Longrightarrow> p < length entries"
    and "\<And>p q. p < length entries \<Longrightarrow> q < length entries \<Longrightarrow> le p q \<Longrightarrow> le' (sn_id (entries ! p)) (sn_id (entries ! q))"
  shows "sorted_wrt le' ids"
proof -
  obtain qs where qs: "mset qs = mset ps" "sorted_wrt le qs" "ids = map (\<lambda>p. sn_id (entries ! p)) qs"
    using assms(1) by (auto simp: arranged_def)
  then have "set qs = set ps" by (metis set_mset_mset)
  then show ?thesis
    using qs(2) sorted_wrt_mono_rel [of qs le "\<lambda>p q. le' (sn_id (entries ! p)) (sn_id (entries ! q))"] assms(2, 3)
    by (simp add: qs(3) sorted_wrt_map)
qed

definition name_of :: "scan_tree \<Rightarrow> u64 \<Rightarrow> bytes option" where
  "name_of t i = (case tree_entry t i of None \<Rightarrow> None | Some e \<Rightarrow> file_name (sn_path e))"

text \<open>What the queries return at a position.\<close>

lemma tree_finished_entry:
  assumes "tree_finished r order g c t" and "p < length (sr_entries r)"
  shows "tree_entry t (sn_id (sr_entries r ! p)) = Some (sr_entries r ! p)"
    and "tree_size t (sn_id (sr_entries r ! p)) m = size_at (sr_entries r) (tr_nodes t) m p"
    and "name_of t (sn_id (sr_entries r ! p)) = file_name (sn_path (sr_entries r ! p))"
    and "tree_parent t (sn_id (sr_entries r ! p))
      = map_option (\<lambda>q. sn_id (sr_entries r ! q)) (parent_at (sr_entries r) (rg_paths g) p)"
proof -
  have pos: "tr_positions t (sn_id (sr_entries r ! p)) = Some p"
    using tree_finished_position [OF assms(1)] assms(2) by simp
  have rep: "tr_report t = r" using assms(1) by (simp add: tree_finished_def Let_def)
  show entry: "tree_entry t (sn_id (sr_entries r ! p)) = Some (sr_entries r ! p)"
    by (simp add: tree_entry_def pos rep)
  show "tree_size t (sn_id (sr_entries r ! p)) m = size_at (sr_entries r) (tr_nodes t) m p"
    by (simp add: tree_size_def pos rep)
  show "name_of t (sn_id (sr_entries r ! p)) = file_name (sn_path (sr_entries r ! p))"
    by (simp add: name_of_def entry)
  show "tree_parent t (sn_id (sr_entries r ! p))
      = map_option (\<lambda>q. sn_id (sr_entries r ! q)) (parent_at (sr_entries r) (rg_paths g) p)"
    using tree_finished_node [OF assms(1) pos] by (simp add: tree_parent_def pos rep node_finished_def)
qed

lemma tree_finished_children:
  assumes fin: "tree_finished r order g c t" and i: "tree_directory t i = Some d"
    and order: "distinct order" "set order = {..<length (sr_entries r)}"
  shows "set (dn_children d) = {j. tree_parent t j = Some i}" and "distinct (dn_children d)"
    and "sorted_wrt (\<lambda>a b. name_of t a \<le> name_of t b) (dn_children d)"
    and "mset (ordered (dn_children d) (dn_size_orders d) SortSize m) = mset (dn_children d)"
    and "sorted_wrt (\<lambda>a b. tree_size t b m < tree_size t a m \<or> (tree_size t a m = tree_size t b m \<and> name_of t a \<le> name_of t b))
      (ordered (dn_children d) (dn_size_orders d) SortSize m)"
proof -
  let ?es = "sr_entries r" and ?par = "parent_at (sr_entries r) (rg_paths g)"
  obtain q where q: "tr_positions t i = Some q" and d: "xn_directory (tr_nodes t ! q) = Some d"
    using i by (auto simp: tree_directory_def split: option.splits)
  have qi: "q < length ?es" "sn_id (?es ! q) = i" using q tree_finished_position [OF fin] by auto
  have idx: "indexed sn_id ?es (rg_positions g)" and f: "forest ?par (length ?es)" and rep: "tr_report t = r"
    using fin by (simp_all add: tree_finished_def Let_def registered_def)
  let ?ps = "children_at ?par order (Some q)"
  have ps: "distinct ?ps" "set ?ps = {p. p < length ?es \<and> ?par p = Some q}" using order by (auto simp: children_at_def)
  then have in_range: "\<And>p. p \<in> set ?ps \<Longrightarrow> p < length ?es" by simp
  have arr: "dir_arranged ?es ?par order (size_at ?es (tr_nodes t)) q d"
    using tree_finished_node [OF fin q] d qi by (auto simp: node_finished_def split: if_splits)
  then have names: "arranged ?es (name_before ?es True) ?ps (dn_children d)"
    and sizes: "arranged ?es (size_before ?es True (size_at ?es (tr_nodes t) m)) ?ps
      (ordered (dn_children d) (dn_size_orders d) SortSize m)"
    by (cases m; simp add: dir_arranged_def)+
  note name_ids = arranged_ids [OF names ps(1) in_range idx]
  note size_ids = arranged_ids [OF sizes ps(1) in_range idx]
  have par_id: "sn_id (?es ! x) = i \<longleftrightarrow> x = q" if "x < length ?es" for x
    using indexed_inj [OF idx that qi(1)] qi by auto
  have "tree_parent t j = Some i \<longleftrightarrow> (\<exists>p<length ?es. sn_id (?es ! p) = j \<and> ?par p = Some q)" for j
  proof (cases "tr_positions t j")
    case None
    then show ?thesis using tree_finished_position [OF fin, of j] by (auto simp: tree_parent_def)
  next
    case (Some p)
    then have p: "p < length ?es" "sn_id (?es ! p) = j" using tree_finished_position [OF fin] by auto
    have "p' = p" if "p' < length ?es" "sn_id (?es ! p') = j" for p'
      using indexed_inj [OF idx that(1) p(1)] that(2) p(2) by simp
    moreover have "tree_parent t j = Some i \<longleftrightarrow> ?par p = Some q"
      using tree_finished_entry(4) [OF fin p(1)] p f par_id by (auto simp: forest_def)
    ultimately show ?thesis using p by metis
  qed
  then show "set (dn_children d) = {j. tree_parent t j = Some i}"
    using name_ids(2) ps(2) by auto
  show "distinct (dn_children d)" by (rule name_ids(1))
  show "mset (ordered (dn_children d) (dn_size_orders d) SortSize m) = mset (dn_children d)"
    using name_ids(3) size_ids(3) by simp
  show "sorted_wrt (\<lambda>a b. name_of t a \<le> name_of t b) (dn_children d)"
    by (rule arranged_sorted [OF names in_range])
      (simp_all add: name_before_def tree_finished_entry [OF fin])
  show "sorted_wrt (\<lambda>a b. tree_size t b m < tree_size t a m \<or> (tree_size t a m = tree_size t b m \<and> name_of t a \<le> name_of t b))
      (ordered (dn_children d) (dn_size_orders d) SortSize m)"
    by (rule arranged_sorted [OF sizes in_range])
      (auto simp: name_before_def size_before_def tree_finished_entry [OF fin])
qed

text \<open>C20: The children of a directory are exactly the entries whose parent path is the directory's
  path: the id lists of the three orders hold each of them once, the name order by final component,
  the size orders by the known size, largest first and unknown last, ties by name.\<close>

theorem children_are_ordered_entries:
  assumes "run_task (build_shared order r limits) = Inr t"
    and "distinct order" "set order = {..<length (sr_entries r)}"
    and "ordered_children t i SortName metric = Some names" "ordered_children t i SortSize metric = Some sizes"
  shows "distinct names \<and> mset sizes = mset names
    \<and> set names = {j. \<exists>e d q. tree_entry t j = Some e \<and> tree_entry t i = Some d
          \<and> parent (sn_path e) = Some q \<and> path_eq q (sn_path d)}
    \<and> sorted_wrt (\<lambda>a b. name_of t a \<le> name_of t b) names
    \<and> sorted_wrt (\<lambda>a b. tree_size t b metric < tree_size t a metric
          \<or> (tree_size t a metric = tree_size t b metric \<and> name_of t a \<le> name_of t b)) sizes"
proof -
  let ?es = "sr_entries r"
  obtain explicit g c where fin: "tree_finished r order g c t" using build_shared_finished [OF assms(1-3)] by blast
  obtain d where d: "tree_directory t i = Some d" and names: "names = dn_children d"
    and sizes: "sizes = ordered (dn_children d) (dn_size_orders d) SortSize metric"
    using assms(4, 5) by (auto simp: ordered_children_def)
  have rep: "tr_report t = r" and paths: "indexed (\<lambda>e. components (sn_path e)) ?es (rg_paths g)"
    and f: "forest (parent_at ?es (rg_paths g)) (length ?es)"
    using fin by (simp_all add: tree_finished_def Let_def registered_def)
  have entry: "tree_entry t j = Some e \<longleftrightarrow> (\<exists>p<length ?es. e = ?es ! p \<and> sn_id e = j)" for j e
    using tree_finished_position [OF fin, of j] by (auto simp: tree_entry_def rep)
  have "tree_parent t j = Some i \<longleftrightarrow> (\<exists>e d q. tree_entry t j = Some e \<and> tree_entry t i = Some d
          \<and> parent (sn_path e) = Some q \<and> path_eq q (sn_path d))" for j
  proof
    assume j: "tree_parent t j = Some i"
    then obtain p where "tr_positions t j = Some p" by (auto simp: tree_parent_def split: option.splits)
    then have p: "p < length ?es" "sn_id (?es ! p) = j" using tree_finished_position [OF fin] by auto
    obtain k where k: "parent_at ?es (rg_paths g) p = Some k" "sn_id (?es ! k) = i"
      using tree_finished_entry(4) [OF fin p(1)] p j by (cases "parent_at ?es (rg_paths g) p") simp_all
    then obtain q where q: "parent (sn_path (?es ! p)) = Some q" "rg_paths g (components q) = Some k"
      by (auto simp: parent_at_def split: option.splits)
    have kn: "k < length ?es" "path_eq q (sn_path (?es ! k))"
      using indexed_Some [OF paths q(2)] by (auto simp: path_eq_def)
    show "\<exists>e d q. tree_entry t j = Some e \<and> tree_entry t i = Some d
          \<and> parent (sn_path e) = Some q \<and> path_eq q (sn_path d)"
      using tree_finished_entry(1) [OF fin p(1)] tree_finished_entry(1) [OF fin kn(1)] p k q kn by auto
  next
    assume "\<exists>e d q. tree_entry t j = Some e \<and> tree_entry t i = Some d
          \<and> parent (sn_path e) = Some q \<and> path_eq q (sn_path d)"
    then obtain p k q where p: "p < length ?es" "sn_id (?es ! p) = j" and k: "k < length ?es" "sn_id (?es ! k) = i"
      and q: "parent (sn_path (?es ! p)) = Some q" "components q = path_at ?es k"
      by (auto simp: entry path_eq_def)
    have "rg_paths g (components q) = Some k" using indexed_at [OF paths k(1)] q(2) by simp
    then show "tree_parent t j = Some i"
      using tree_finished_entry(4) [OF fin p(1)] p k q by (simp add: parent_at_def)
  qed
  then show ?thesis
    using tree_finished_children [OF fin d assms(2, 3)] by (simp add: names sizes)
qed

text \<open>C21: The traversal of the hierarchy ends: after a report is registered and linked, in whatever
  order its paths are visited, as many steps as there are entries empty the stack, and the entries
  are then visited exactly once each, a parent always before its children.\<close>

theorem traversal_visits_each_entry_once:
  assumes "run_task (register_report r limits) = Inr (explicit, g)"
    and "distinct order" "set order = {..<length (sr_entries r)}"
    and "run_task (tfold (link_entry (sr_entries r) (rg_paths g) explicit) order ([], rg_nodes g)) = Inr (roots, nodes)"
  shows "\<exists>vis. run_task (descend (rg_positions g) nodes (length (sr_entries r)) (rev roots) []) = Inr ([], vis)
    \<and> distinct vis \<and> set vis = {..<length (sr_entries r)}
    \<and> parents_first (parent_at (sr_entries r) (rg_paths g)) vis"
proof -
  have "registered (sr_entries r) g" by (rule register_report_registered [OF assms(1)])
  then have pos: "indexed sn_id (sr_entries r) (rg_positions g)"
    and paths: "indexed (\<lambda>e. components (sn_path e)) (sr_entries r) (rg_paths g)"
    and nodes: "rg_nodes g = map new_node (sr_entries r)" by (simp_all add: registered_def)
  show ?thesis
    by (rule traversal_complete [OF pos parent_at_forest [OF paths]
          link_report_linked(1) [OF paths assms(2, 3, 4) [unfolded nodes]] assms(2, 3)])
qed

text \<open>C22: Building the index returns only for a well-formed report and cancelling can only cut it
  short: an accepted report has distinct ids, distinct absolute paths within the entry limit and an
  observed directory or a requested root above every entry; and a build that is cancelled at any of
  its checks ends with the cancellation error or returns what it returns undisturbed.\<close>

theorem index_accepts_only_forests:
  assumes "build_shared order r limits polls = Inr (t, polls')"
    and "distinct order" "set order = {..<length (sr_entries r)}"
  shows "run_task (build_shared order r limits) = Inr t
    \<and> build_shared order r limits None = Inr (t, None)
    \<and> (build_shared order r limits (Some n) = Inl cancelled_error
        \<or> (\<exists>n'. build_shared order r limits (Some n) = Inr (t, Some n')))
    \<and> distinct (map sn_id (sr_entries r)) \<and> distinct (map (\<lambda>e. components (sn_path e)) (sr_entries r))
    \<and> length (sr_entries r) \<le> sl_max_entries limits
    \<and> list_all (\<lambda>e. valid_absolute_path (sn_path e)
          \<and> ((\<exists>d q. d \<in> set (sr_entries r) \<and> sn_kind d = KDirectory \<and> parent (sn_path e) = Some q \<and> path_eq q (sn_path d))
             \<or> (\<exists>root\<in>set (sr_roots r). path_eq root (sn_path e)))) (sr_entries r)"
proof -
  let ?es = "sr_entries r"
  have run: "run_task (build_shared order r limits) = Inr t"
    by (rule abortable_run [OF abortable_build_shared assms(1)])
  then have none: "build_shared order r limits None = Inr (t, None)"
    using abortable_build_shared [of order r limits]
    by (auto simp: run_task_def abortable_def split: sum.splits)
  have cut: "build_shared order r limits (Some n) = Inl cancelled_error
        \<or> (\<exists>n'. build_shared order r limits (Some n) = Inr (t, Some n'))"
    using abortable_build_shared [of order r limits] none by (simp add: abortable_def)
  obtain explicit g c where reg: "run_task (register_report r limits) = Inr (explicit, g)"
    and fin: "tree_finished r order g c t" using build_shared_finished [OF run assms(2, 3)] by blast
  have g: "registered ?es g" using fin by (simp add: tree_finished_def Let_def)
  then have paths: "indexed (\<lambda>e. components (sn_path e)) ?es (rg_paths g)" by (simp add: registered_def)
  have above: "(\<exists>d q. d \<in> set ?es \<and> sn_kind d = KDirectory \<and> parent (sn_path (?es ! p)) = Some q \<and> path_eq q (sn_path d))
      \<or> (\<exists>root\<in>set (sr_roots r). path_eq root (sn_path (?es ! p)))" if p: "p < length ?es" for p
  proof (cases "parent_at ?es (rg_paths g) p")
    case None
    then have "path_at ?es p \<in> components ` set (sr_roots r)" using fin p by (simp add: tree_finished_def Let_def)
    then show ?thesis by (auto simp: path_eq_def)
  next
    case (Some k)
    then obtain q where q: "parent (sn_path (?es ! p)) = Some q" "rg_paths g (components q) = Some k"
      by (auto simp: parent_at_def split: option.splits)
    have k: "k < length ?es" "path_eq q (sn_path (?es ! k))"
      using indexed_Some [OF paths q(2)] by (auto simp: path_eq_def)
    moreover have "sn_kind (?es ! k) = KDirectory" using fin p Some by (simp add: tree_finished_def Let_def)
    ultimately show ?thesis using q nth_mem [OF k(1)] by blast
  qed
  then show ?thesis
    using run none cut g register_report_registered(3) [OF reg]
    by (simp add: registered_def indexed_def list_all_length)
qed

text \<open>An entry is reported to contain a dataless entry exactly when one is at or below it.\<close>

theorem contains_dataless_iff_below:
  assumes "run_task (build_shared order r limits) = Inr t"
    and "distinct order" "set order = {..<length (sr_entries r)}"
    and "tr_positions t i = Some q"
  shows "tree_contains_dataless t i \<longleftrightarrow> (\<exists>p<length (sr_entries r). sn_dataless (sr_entries r ! p) \<and> below (tree_par t) p q)"
proof -
  obtain explicit g c where fin: "tree_finished r order g c t" using build_shared_finished [OF assms(1-3)] by blast
  show ?thesis
    using tree_finished_node [OF fin assms(4)] tree_finished_below [OF fin]
    by (auto simp: tree_contains_dataless_def assms(4) node_finished_def)
qed

section \<open>A report\<close>

section \<open>A report\<close>

text \<open>A partial scan of \<open>/r\<close>: two names of one file, and a path that could not be read.\<close>

definition demo_entry :: "u64 \<Rightarrow> path \<Rightarrow> resource_kind \<Rightarrow> u64 \<Rightarrow> scan_entry" where
  "demo_entry i p k inode = \<lparr>sn_private_bytes = Some 100, sn_owner = None, sn_project_signature = None,
     sn_id = i, sn_path = p, sn_kind = k, sn_identity = Unix 1 inode, sn_logical_bytes = Some 100,
     sn_allocated_bytes = None, sn_modified_unix_ms = None, sn_dataless = (i = 13), sn_counted = True, sn_depth = 0\<rparr>"

definition demo_totals :: scan_totals where
  "demo_totals = \<lparr>tt_regular_files = 2, tt_unique_files = 1, tt_duplicate_files = 1, tt_directories = 2,
     tt_links = 0, tt_other = 0, tt_logical_bytes_known = 100, tt_logical_bytes_unknown_files = 0,
     tt_allocated_bytes_known = 0, tt_allocated_bytes_unknown_files = 1\<rparr>"

definition demo_metrics :: scan_metrics where
  "demo_metrics = \<lparr>sm_elapsed_ms = 1, sm_first_result_ms = None, sm_peak_workers = 1, sm_peak_queued_dirs = 1,
     sm_peak_open_dirs = 1, sm_peak_pending_events = 1, sm_retained_path_bytes = 14, sm_accepted_roots = 1\<rparr>"

definition demo_gap :: scan_issue where
  "demo_gap = \<lparr>si_owner = None, si_path = Some ''/r/z'', si_code = ScPermissionDenied, si_message = [],
     si_os_code = None\<rparr>"

definition demo_report :: scan_report where
  "demo_report = \<lparr>sr_task_id = \<lparr>st_process = 1, st_sequence = 1\<rparr>, sr_roots = [''/r''],
     sr_scan_status = StatusPartial, sr_complete = False,
     sr_entries = [demo_entry 10 ''/r'' KDirectory 2, demo_entry 11 ''/r/a'' KFile 5,
       demo_entry 12 ''/r/b'' KDirectory 3, demo_entry 13 ''/r/b/c'' KFile 5],
     sr_vcs_metadata = [], sr_issues = [demo_gap], sr_issues_omitted = 0,
     sr_totals = demo_totals, sr_metrics = demo_metrics\<rparr>"

definition demo_limits :: scan_limits where
  "demo_limits = \<lparr>sl_workers = 1, sl_queue_capacity = 1, sl_event_capacity = 1, sl_max_open_dirs = 4,
     sl_max_depth = 4, sl_max_entries = 8, sl_max_path_bytes = 64, sl_max_issues = 4,
     sl_time_budget = 1, sl_progress_every = 1\<rparr>"

definition demo_tree :: "(scan_error, scan_tree) result" where
  "demo_tree = run_task (build_shared [2, 0, 3, 1] demo_report demo_limits)"

lemma demo_limits_valid: "scan_limits_validate demo_limits = Inr ()"
  by (simp add: scan_limits_validate_def demo_limits_def seconds_def)

lemma demo_tree_facts:
  "case demo_tree of Inl _ \<Rightarrow> False | Inr t \<Rightarrow>
     tr_positions t 10 = Some 0 \<and> tr_positions t 12 = Some 2
     \<and> map_option ds_unique_files (tree_summary t 10) = Some 1
     \<and> map_option ds_logical_bytes_known (tree_summary t 10) = Some 100
     \<and> map_option ds_complete (tree_summary t 10) = Some False
     \<and> map_option ds_complete (tree_summary t 12) = Some True
     \<and> map_option sn_path (tree_entry t 12) = Some ''/r/b''
     \<and> ordered_children t 10 SortName Logical = Some [11, 12]
     \<and> ordered_children t 10 SortSize Logical = Some [11, 12]
     \<and> tree_contains_dataless t 10"
  by (simp add: demo_tree_def build_shared_def register_report_def task_simps abortable_intros demo_limits_valid)
    code_simp

lemma demo_tree_run: "run_task (build_shared [2, 0, 3, 1] demo_report demo_limits) = Inr (projr demo_tree)"
  using demo_tree_facts by (cases demo_tree) (simp_all add: demo_tree_def)

lemma demo_order: "distinct [2, 0, 3, 1 :: nat]" "set [2, 0, 3, 1] = {..<length (sr_entries demo_report)}"
  by (auto simp: demo_report_def)

lemmas demo_build = demo_tree_run demo_order

lemma demo_queries:
  "tr_positions (projr demo_tree) 10 = Some 0"
  "tree_contains_dataless (projr demo_tree) 10"
  "ordered_children (projr demo_tree) 10 SortName Logical = Some [11, 12]"
  "ordered_children (projr demo_tree) 10 SortSize Logical = Some [11, 12]"
  "\<exists>s. tree_summary (projr demo_tree) 10 = Some s \<and> ds_unique_files s = 1 \<and> ds_logical_bytes_known s = 100
     \<and> \<not> ds_complete s"
  "\<exists>s e. tree_summary (projr demo_tree) 12 = Some s \<and> ds_complete s
     \<and> tree_entry (projr demo_tree) 12 = Some e \<and> sn_path e = ''/r/b''"
proof -
  obtain t where t: "demo_tree = Inr t" using demo_tree_run demo_tree_def by metis
  have f: "tr_positions t 10 = Some 0" "tree_contains_dataless t 10"
    "ordered_children t 10 SortName Logical = Some [11, 12]" "ordered_children t 10 SortSize Logical = Some [11, 12]"
    "map_option ds_unique_files (tree_summary t 10) = Some 1"
    "map_option ds_logical_bytes_known (tree_summary t 10) = Some 100"
    "map_option ds_complete (tree_summary t 10) = Some False"
    "map_option ds_complete (tree_summary t 12) = Some True"
    "map_option sn_path (tree_entry t 12) = Some ''/r/b''"
    using demo_tree_facts unfolding t by simp_all
  show "tr_positions (projr demo_tree) 10 = Some 0" "tree_contains_dataless (projr demo_tree) 10"
    "ordered_children (projr demo_tree) 10 SortName Logical = Some [11, 12]"
    "ordered_children (projr demo_tree) 10 SortSize Logical = Some [11, 12]"
    by (simp_all add: t f(1-4))
  show "\<exists>s. tree_summary (projr demo_tree) 10 = Some s \<and> ds_unique_files s = 1 \<and> ds_logical_bytes_known s = 100
     \<and> \<not> ds_complete s"
    using f(5-7) by (cases "tree_summary t 10") (simp_all add: t)
  show "\<exists>s e. tree_summary (projr demo_tree) 12 = Some s \<and> ds_complete s
     \<and> tree_entry (projr demo_tree) 12 = Some e \<and> sn_path e = ''/r/b''"
    using f(8, 9) by (cases "tree_summary t 12"; cases "tree_entry t 12") (simp_all add: t)
qed

theorem directory_totals_count_identities_once_witness:
  "card (ids_below (sr_entries demo_report) (tree_par (projr demo_tree)) 0) = 1
   \<and> known_total (agreed (sr_entries demo_report) ms_logical)
       (ids_below (sr_entries demo_report) (tree_par (projr demo_tree)) 0) = 100"
proof -
  obtain s where s: "tree_summary (projr demo_tree) 10 = Some s" "ds_unique_files s = 1" "ds_logical_bytes_known s = 100"
    using demo_queries(5) by blast
  show ?thesis
    using directory_totals_count_identities_once [OF demo_build s(1) demo_queries(1)] s(2, 3) by (simp add: Let_def)
qed


theorem children_are_ordered_entries_witness:
  "sorted_wrt (\<lambda>a b. name_of (projr demo_tree) a \<le> name_of (projr demo_tree) b) [11, 12]
   \<and> {11, 12} = {j. \<exists>e d q. tree_entry (projr demo_tree) j = Some e \<and> tree_entry (projr demo_tree) 10 = Some d
        \<and> parent (sn_path e) = Some q \<and> path_eq q (sn_path d)}"
  using children_are_ordered_entries [OF demo_build demo_queries(3, 4)] by simp

theorem contains_dataless_iff_below_witness:
  "\<exists>p<length (sr_entries demo_report). sn_dataless (sr_entries demo_report ! p) \<and> below (tree_par (projr demo_tree)) p 0"
  using contains_dataless_iff_below [OF demo_build demo_queries(1)] demo_queries(2) by simp

theorem index_accepts_only_forests_witness:
  "build_shared [2, 0, 3, 1] demo_report demo_limits None = Inr (projr demo_tree, None)
   \<and> distinct (map sn_id (sr_entries demo_report))"
proof -
  obtain k where "build_shared [2, 0, 3, 1] demo_report demo_limits None = Inr (projr demo_tree, k)"
    using demo_tree_run by (auto simp: run_task_def split: sum.splits)
  then show ?thesis using index_accepts_only_forests [OF _ demo_order] by blast
qed

definition demo_register :: "(scan_error, component list set \<times> register) result" where
  "demo_register = run_task (register_report demo_report demo_limits)"

definition demo_links :: "(scan_error, u64 list \<times> index_node list) result" where
  "demo_links = (case demo_register of Inl e \<Rightarrow> Inl e | Inr (explicit, g) \<Rightarrow>
     run_task (tfold (link_entry (sr_entries demo_report) (rg_paths g) explicit) [2, 0, 3, 1] ([], rg_nodes g)))"

lemma demo_links_ok: "\<not> isl demo_links"
  by (simp add: demo_links_def demo_register_def register_report_def task_simps abortable_intros demo_limits_valid)
    code_simp

theorem traversal_visits_each_entry_once_witness:
  "\<exists>explicit g roots nodes vis. demo_register = Inr (explicit, g) \<and> demo_links = Inr (roots, nodes)
     \<and> run_task (descend (rg_positions g) nodes (length (sr_entries demo_report)) (rev roots) []) = Inr ([], vis)
     \<and> distinct vis \<and> set vis = {..<4}"
proof -
  obtain roots nodes where nodes: "demo_links = Inr (roots, nodes)"
    using demo_links_ok by (metis sum.collapse(2) surj_pair)
  then obtain explicit g where links: "demo_register = Inr (explicit, g)" "demo_links = Inr (roots, nodes)"
    unfolding demo_links_def by (auto split: sum.splits)
  have run: "run_task (tfold (link_entry (sr_entries demo_report) (rg_paths g) explicit) [2, 0, 3, 1] ([], rg_nodes g))
      = Inr (roots, nodes)"
    using nodes [unfolded demo_links_def links(1)] by (simp only: sum.case prod.case)
  have four: "length (sr_entries demo_report) = 4" by (simp add: demo_report_def)
  show ?thesis
    using traversal_visits_each_entry_once [OF links(1) [unfolded demo_register_def] demo_order run] links
    unfolding four by blast
qed

end
