(* ===== verification/Directory_Review.thy ===== *)
theory Directory_Review
  imports Scan_Properties
begin

text \<open>
  The review of one directory of a scan (\<open>scan/directory_review.rs\<close>): what the index observed
  of its subtree that blocks it, never an authorization. Both walks, up to the scope and down the
  subtree, take a bound on their steps and return what they had left.
\<close>

section \<open>Data\<close>

datatype directory_blocker_code = DbScopeRoot | DbProtectedLocation | DbIncompleteScan | DbExcludedOverlap
  | DbExcludedIdentityAlias | DbLink | DbSpecialEntry | DbDataless | DbVolumeIdentityMismatch
  | DbObservedFileAlias | DbObservedDirectoryAlias | DbUnknownMeasurements

datatype unverified_directory_gate = NativeIdentityAndFreshness | OwnershipPermissionsAndAcl
  | NativeVolumeCapability | NativePackageAndProtectedLocations | FullSubtreeCoverage
  | ExternalLinksAndExclusionResolution | ActivityAndConcurrentContents
  | ApprovedDirectoryExecutionAndRecoveryContract

definition unverified_gates :: "unverified_directory_gate list" where
  "unverified_gates = [NativeIdentityAndFreshness, OwnershipPermissionsAndAcl, NativeVolumeCapability,
     NativePackageAndProtectedLocations, FullSubtreeCoverage, ExternalLinksAndExclusionResolution,
     ActivityAndConcurrentContents, ApprovedDirectoryExecutionAndRecoveryContract]"

record directory_selection =
  ds_task_id :: scan_task_id
  ds_scope_id :: u64
  ds_directory_id :: u64

record directory_blocker =
  db_code :: directory_blocker_code
  db_entry_id :: u64

record directory_observed_counts =
  dc_entries :: nat
  dc_directories :: nat
  dc_file_names :: nat
  dc_links :: nat
  dc_other :: nat
  dc_dataless :: nat

record directory_assessment =
  da_selection :: directory_selection
  da_ancestors :: "u64 list"
  da_members :: "u64 list"
  da_counts :: directory_observed_counts
  da_blockers :: "directory_blocker list"
  da_blockers_omitted :: nat

definition max_exclusions :: nat where
  "max_exclusions = 32"

definition max_blocker_examples :: nat where
  "max_blocker_examples = 128"

section \<open>Blockers\<close>

definition block :: "directory_blocker_code \<Rightarrow> u64 \<Rightarrow> directory_assessment \<Rightarrow> directory_assessment" where
  "block c i a =
     (if length (da_blockers a) < max_blocker_examples
      then a\<lparr>da_blockers := da_blockers a @ [\<lparr>db_code = c, db_entry_id = i\<rparr>]\<rparr>
      else a\<lparr>da_blockers_omitted := Suc (da_blockers_omitted a)\<rparr>)"

definition block_if :: "bool \<Rightarrow> directory_blocker_code \<Rightarrow> u64 \<Rightarrow> directory_assessment \<Rightarrow> directory_assessment" where
  "block_if b c i a = (if b then block c i a else a)"

fun same_volume :: "file_identity \<Rightarrow> file_identity \<Rightarrow> bool" where
  "same_volume (Unix a i) (Unix b j) = (a = b)"
| "same_volume (Windows a i) (Windows b j) = (a = b)"
| "same_volume _ _ = False"

text \<open>The observations of a whole report per identity; an identity that is not there counts 0.\<close>

definition count_identity :: "scan_entry \<Rightarrow> (file_identity \<Rightarrow> nat) \<Rightarrow> (file_identity \<Rightarrow> nat)" where
  "count_identity e counts = counts(sn_identity e := Suc (counts (sn_identity e)))"

fun kind_barrier :: "resource_kind \<Rightarrow> bool \<Rightarrow> directory_blocker_code option" where
  "kind_barrier KDirectory alias = (if alias then Some DbObservedDirectoryAlias else None)"
| "kind_barrier KFile alias = (if alias then Some DbObservedFileAlias else None)"
| "kind_barrier KLink alias = Some DbLink"
| "kind_barrier KOther alias = Some DbSpecialEntry"

definition observe_barriers ::
  "scan_entry \<Rightarrow> (file_identity \<Rightarrow> nat) \<Rightarrow> file_identity set \<Rightarrow> scan_entry \<Rightarrow> directory_assessment
     \<Rightarrow> directory_assessment" where
  "observe_barriers scope counts excluded e a =
     (let a1 = block_if (sn_dataless e) DbDataless (sn_id e) a;
          a2 = block_if (\<not> same_volume (sn_identity scope) (sn_identity e)) DbVolumeIdentityMismatch (sn_id e) a1;
          a3 = block_if (sn_identity e \<in> excluded) DbExcludedIdentityAlias (sn_id e) a2 in
      case kind_barrier (sn_kind e) (1 < counts (sn_identity e)) of
        None \<Rightarrow> a3
      | Some c \<Rightarrow> block c (sn_id e) a3)"

section \<open>The walks\<close>

text \<open>\<open>while let Some(id) = parent\<close>, up to the scope.\<close>

fun climb ::
  "scan_tree \<Rightarrow> scan_entry \<Rightarrow> (scan_entry \<Rightarrow> directory_assessment \<Rightarrow> directory_assessment) \<Rightarrow> nat \<Rightarrow> u64 option
     \<Rightarrow> directory_assessment \<Rightarrow> (u64 option \<times> directory_assessment) task" where
  "climb t scope f fuel None a = tret (None, a)"
| "climb t scope f 0 (Some i) a = tret (Some i, a)"
| "climb t scope f (Suc fuel) (Some i) a =
     tbind check_cancelled (\<lambda>_.
       let a' = f (the (tree_entry t i)) (a\<lparr>da_ancestors := da_ancestors a @ [i]\<rparr>) in
       if i = sn_id scope then tret (None, a') else climb t scope f fuel (tree_parent t i) a')"

definition count_member :: "scan_entry \<Rightarrow> directory_observed_counts \<Rightarrow> directory_observed_counts" where
  "count_member e n =
     (let n1 = n\<lparr>dc_entries := Suc (dc_entries n)\<rparr>;
          n2 = (if sn_dataless e then n1\<lparr>dc_dataless := Suc (dc_dataless n1)\<rparr> else n1) in
      case sn_kind e of
        KDirectory \<Rightarrow> n2\<lparr>dc_directories := Suc (dc_directories n2)\<rparr>
      | KFile \<Rightarrow> n2\<lparr>dc_file_names := Suc (dc_file_names n2)\<rparr>
      | KLink \<Rightarrow> n2\<lparr>dc_links := Suc (dc_links n2)\<rparr>
      | KOther \<Rightarrow> n2\<lparr>dc_other := Suc (dc_other n2)\<rparr>)"

text \<open>\<open>while let Some(id) = pending.pop()\<close>: the children are pushed in reverse, so the first is on
  top.\<close>

fun collect_members ::
  "scan_tree \<Rightarrow> (scan_entry \<Rightarrow> directory_assessment \<Rightarrow> directory_assessment) \<Rightarrow> nat \<Rightarrow> u64 list
     \<Rightarrow> directory_assessment \<Rightarrow> (u64 list \<times> directory_assessment) task" where
  "collect_members t f fuel [] a = tret ([], a)"
| "collect_members t f 0 (i # pending) a = tret (i # pending, a)"
| "collect_members t f (Suc fuel) (i # pending) a =
     tbind check_cancelled (\<lambda>_.
       let e = the (tree_entry t i);
           a' = f e (a\<lparr>da_members := da_members a @ [i], da_counts := count_member e (da_counts a)\<rparr>) in
       collect_members t f fuel
         ((if sn_kind e = KDirectory then the (tree_children t i) else []) @ pending) a')"

section \<open>The assessment\<close>

definition review_invalid :: "bytes \<Rightarrow> scan_error" where
  "review_invalid message = scan_error_new ScInvalidRoot message"

definition exclude_entry ::
  "scan_tree \<Rightarrow> scan_entry \<Rightarrow> u64 \<Rightarrow> scan_entry list \<times> u64 set \<Rightarrow> (scan_entry list \<times> u64 set) task" where
  "exclude_entry t scope i s =
     (case s of (excluded, seen) \<Rightarrow>
        tbind check_cancelled (\<lambda>_. tlift
          (rbind (ok_or (review_invalid ''unknown exclusion entry'') (tree_entry t i)) (\<lambda>e.
             if \<not> starts_with (sn_path e) (sn_path scope) \<or> i \<in> seen
             then Inl (review_invalid ''exclusions must be distinct observed entries in this scope'')
             else Inr (excluded @ [e], insert i seen)))))"

text \<open>The blockers of the directory itself, before its ancestors and members.\<close>

definition target_blockers ::
  "scan_tree \<Rightarrow> scope \<Rightarrow> scan_entry \<Rightarrow> scan_entry \<Rightarrow> directory_summary \<Rightarrow> scan_entry list
     \<Rightarrow> directory_assessment \<Rightarrow> directory_assessment" where
  "target_blockers t policy scope target s excluded a =
     (let a1 = (if sn_id target = sn_id scope then block DbScopeRoot (sn_id target) a
                else block_if (scope_protects policy (sn_path target)) DbProtectedLocation (sn_id target) a);
          a2 = block_if (\<not> tr_complete t \<or> \<not> ds_complete s) DbIncompleteScan (sn_id target) a1;
          a3 = block_if (0 < ds_logical_bytes_unknown_files s \<or> 0 < ds_allocated_bytes_unknown_files s)
                 DbUnknownMeasurements (sn_id target) a2 in
      fold (\<lambda>e. block_if (overlaps (sn_path target) (sn_path e)) DbExcludedOverlap (sn_id e)) excluded a3)"

definition no_counts :: directory_observed_counts where
  "no_counts = \<lparr>dc_entries = 0, dc_directories = 0, dc_file_names = 0, dc_links = 0, dc_other = 0, dc_dataless = 0\<rparr>"

definition assessment_start :: "directory_selection \<Rightarrow> directory_assessment" where
  "assessment_start sel = \<lparr>da_selection = sel, da_ancestors = [], da_members = [],
     da_counts = no_counts,
     da_blockers = [], da_blockers_omitted = 0\<rparr>"

definition assess_directory ::
  "scan_tree \<Rightarrow> directory_selection \<Rightarrow> u64 list \<Rightarrow> directory_assessment task" where
  "assess_directory t sel excluded_ids =
     tbind check_cancelled (\<lambda>_.
     if ds_task_id sel \<noteq> sr_task_id (tr_report t)
     then tlift (Inl (scan_error_new ScChangedEntry ''directory selection belongs to another scan; refresh''))
     else if max_exclusions < length excluded_ids
     then tlift (Inl (scan_error_new ScInvalidLimits ''directory review accepts at most 32 exclusions''))
     else
     tbind (tlift (ok_or (review_invalid ''unknown scope entry'') (tree_entry t (ds_scope_id sel)))) (\<lambda>scope.
     tbind (tlift (ok_or (review_invalid ''unknown directory entry'') (tree_entry t (ds_directory_id sel)))) (\<lambda>target.
     if \<not> (case sr_roots (tr_report t) of [root] \<Rightarrow> path_eq root (sn_path scope) | _ \<Rightarrow> False)
        \<or> sn_kind scope \<noteq> KDirectory \<or> sn_kind target \<noteq> KDirectory
        \<or> \<not> starts_with (sn_path target) (sn_path scope)
     then tlift (Inl (review_invalid ''select a directory within one observed explicit scan root''))
     else
     tbind (tlift (case scope_new (sn_path scope) [] of
         Inl _ \<Rightarrow> Inl (review_invalid ''invalid directory scope'') | Inr policy \<Rightarrow> Inr policy)) (\<lambda>policy.
     tbind (tfold (exclude_entry t scope) excluded_ids ([], {})) (\<lambda>(excluded, seen).
     tbind (tfold (\<lambda>e counts. tbind check_cancelled (\<lambda>_. tret (count_identity e counts)))
              (sr_entries (tr_report t)) (\<lambda>_. 0)) (\<lambda>counts.
     let f = observe_barriers scope counts (sn_identity ` set excluded);
         fuel = length (sr_entries (tr_report t));
         a1 = target_blockers t policy scope target (the (tree_summary t (sn_id target))) excluded (assessment_start sel) in
     tbind (climb t scope f fuel (tree_parent t (sn_id target)) a1) (\<lambda>(up, a2).
     if sn_id target \<noteq> sn_id scope \<and> (da_ancestors a2 = [] \<or> last (da_ancestors a2) \<noteq> sn_id scope)
     then tlift (Inl (review_invalid ''directory ancestry is not connected to the observed scope''))
     else
     tbind (collect_members t f fuel [sn_id target] (a2\<lparr>da_ancestors := rev (da_ancestors a2)\<rparr>)) (\<lambda>(pending, a3).
     tbind check_cancelled (\<lambda>_. tret a3)))))))))"

section \<open>Blocking\<close>

lemma block_simps [simp]:
  "da_blockers (block c i a) \<noteq> []" "da_members (block c i a) = da_members a"
  "da_counts (block c i a) = da_counts a" "da_ancestors (block c i a) = da_ancestors a"
  "da_selection (block c i a) = da_selection a"
  by (auto simp: block_def max_blocker_examples_def)

lemma block_if_simps [simp]:
  "da_blockers (block_if b c i a) = [] \<longleftrightarrow> \<not> b \<and> da_blockers a = []" "da_members (block_if b c i a) = da_members a"
  "da_counts (block_if b c i a) = da_counts a" "da_ancestors (block_if b c i a) = da_ancestors a"
  "da_selection (block_if b c i a) = da_selection a"
  by (simp_all add: block_if_def)

text \<open>Nothing about an observed entry stands in the way of its directory.\<close>

definition barrier_free :: "scan_entry \<Rightarrow> (file_identity \<Rightarrow> nat) \<Rightarrow> file_identity set \<Rightarrow> scan_entry \<Rightarrow> bool" where
  "barrier_free scope counts excluded e \<longleftrightarrow> \<not> sn_dataless e \<and> same_volume (sn_identity scope) (sn_identity e)
     \<and> sn_identity e \<notin> excluded \<and> sn_kind e \<in> {KDirectory, KFile} \<and> counts (sn_identity e) \<le> 1"

lemma kind_barrier_None: "kind_barrier k alias = None \<longleftrightarrow> k \<in> {KDirectory, KFile} \<and> \<not> alias"
  by (cases k) auto

lemma observe_barriers_simps [simp]:
  "da_blockers (observe_barriers scope counts excluded e a) = []
     \<longleftrightarrow> barrier_free scope counts excluded e \<and> da_blockers a = []"
  "da_members (observe_barriers scope counts excluded e a) = da_members a"
  "da_counts (observe_barriers scope counts excluded e a) = da_counts a"
  "da_ancestors (observe_barriers scope counts excluded e a) = da_ancestors a"
  using kind_barrier_None [of "sn_kind e" "1 < counts (sn_identity e)"]
  by (auto simp: observe_barriers_def barrier_free_def Let_def split: option.split)

text \<open>At most the first examples are kept; the rest is counted.\<close>

definition examples_bounded :: "directory_assessment \<Rightarrow> bool" where
  "examples_bounded a \<longleftrightarrow> length (da_blockers a) \<le> max_blocker_examples
     \<and> (da_blockers_omitted a \<noteq> 0 \<longrightarrow> length (da_blockers a) = max_blocker_examples)"

lemma block_bounded: "examples_bounded a \<Longrightarrow> examples_bounded (block c i a)"
  by (auto simp: examples_bounded_def block_def)

lemma block_if_bounded: "examples_bounded a \<Longrightarrow> examples_bounded (block_if b c i a)"
  by (simp add: block_if_def block_bounded)

lemma observe_barriers_bounded: "examples_bounded a \<Longrightarrow> examples_bounded (observe_barriers scope counts excluded e a)"
  by (simp add: observe_barriers_def Let_def block_bounded block_if_bounded split: option.split)

lemma examples_bounded_update [simp]:
  "examples_bounded (a\<lparr>da_members := ms, da_counts := n\<rparr>) = examples_bounded a"
  "examples_bounded (a\<lparr>da_ancestors := xs\<rparr>) = examples_bounded a"
  by (simp_all add: examples_bounded_def)

lemma target_blockers_facts:
  "examples_bounded a \<Longrightarrow> examples_bounded (target_blockers t policy scope target s excluded a)"
  "da_members (target_blockers t policy scope target s excluded a) = da_members a"
  "da_counts (target_blockers t policy scope target s excluded a) = da_counts a"
  "da_ancestors (target_blockers t policy scope target s excluded a) = da_ancestors a"
  "da_blockers (target_blockers t policy scope target s excluded a) = [] \<longleftrightarrow> da_blockers a = []
     \<and> sn_id target \<noteq> sn_id scope \<and> \<not> scope_protects policy (sn_path target)
     \<and> tr_complete t \<and> ds_complete s \<and> ds_logical_bytes_unknown_files s = 0 \<and> ds_allocated_bytes_unknown_files s = 0
     \<and> list_all (\<lambda>e. \<not> overlaps (sn_path target) (sn_path e)) excluded"
proof -
  let ?f = "\<lambda>e. block_if (overlaps (sn_path target) (sn_path e)) DbExcludedOverlap (sn_id e)"
  have fold_facts: "(examples_bounded b \<longrightarrow> examples_bounded (fold ?f es b)) \<and> da_members (fold ?f es b) = da_members b
      \<and> da_counts (fold ?f es b) = da_counts b \<and> da_ancestors (fold ?f es b) = da_ancestors b
      \<and> (da_blockers (fold ?f es b) = [] \<longleftrightarrow> da_blockers b = [] \<and> list_all (\<lambda>e. \<not> overlaps (sn_path target) (sn_path e)) es)"
    for es b
    by (induction es arbitrary: b) (auto simp: block_if_bounded)
  show "examples_bounded a \<Longrightarrow> examples_bounded (target_blockers t policy scope target s excluded a)"
    "da_members (target_blockers t policy scope target s excluded a) = da_members a"
    "da_counts (target_blockers t policy scope target s excluded a) = da_counts a"
    "da_ancestors (target_blockers t policy scope target s excluded a) = da_ancestors a"
    by (simp_all add: target_blockers_def Let_def fold_facts block_if_bounded block_bounded)
  show "da_blockers (target_blockers t policy scope target s excluded a) = [] \<longleftrightarrow> da_blockers a = []
     \<and> sn_id target \<noteq> sn_id scope \<and> \<not> scope_protects policy (sn_path target)
     \<and> tr_complete t \<and> ds_complete s \<and> ds_logical_bytes_unknown_files s = 0 \<and> ds_allocated_bytes_unknown_files s = 0
     \<and> list_all (\<lambda>e. \<not> overlaps (sn_path target) (sn_path e)) excluded"
    by (auto simp: target_blockers_def Let_def fold_facts word_gt_0)
qed

section \<open>The walks end\<close>

lemma abortable_climb [abortable_intros]: "abortable (climb t scope f fuel i a)"
  by (induction t scope f fuel i a rule: climb.induct) (auto simp: abortable_intros Let_def)

lemma abortable_collect_members [abortable_intros]: "abortable (collect_members t f fuel pending a)"
  by (induction t f fuel pending a rule: collect_members.induct) (auto simp: abortable_intros Let_def)

lemma abortable_exclude_entry [abortable_intros]: "abortable (exclude_entry t scope i s)"
  by (cases s) (simp add: exclude_entry_def abortable_intros)

text \<open>What the walks keep: facts about the parts of the assessment that an observation does not
  touch, and what no blocker means.\<close>

definition observes :: "(scan_entry \<Rightarrow> bool) \<Rightarrow> (scan_entry \<Rightarrow> directory_assessment \<Rightarrow> directory_assessment) \<Rightarrow> bool" where
  "observes free f \<longleftrightarrow> (\<forall>e a. da_members (f e a) = da_members a \<and> da_counts (f e a) = da_counts a
     \<and> da_ancestors (f e a) = da_ancestors a \<and> (da_blockers (f e a) = [] \<longleftrightarrow> free e \<and> da_blockers a = [])
     \<and> (examples_bounded a \<longrightarrow> examples_bounded (f e a)))"

lemma observe_barriers_observes:
  "observes (barrier_free scope counts excluded) (observe_barriers scope counts excluded)"
  by (simp add: observes_def observe_barriers_bounded)

lemma climb_ends:
  assumes fin: "tree_finished r order g c t" and obs: "observes free f"
    and depth: "\<And>p q. tree_par t p = Some q \<Longrightarrow> depth q < (depth p :: nat)"
    and vis: "distinct vis" "set vis \<subseteq> {..<length (sr_entries r)}" "\<And>v p. v \<in> set vis \<Longrightarrow> start = Some p \<Longrightarrow> depth p < depth v"
    and start: "\<And>p. start = Some p \<Longrightarrow> p < length (sr_entries r)"
    and fuel: "length (sr_entries r) \<le> fuel + length vis"
  shows "\<exists>a'. run_task (climb t scope f fuel (map_option (\<lambda>p. sn_id (sr_entries r ! p)) start) a) = Inr (None, a')
    \<and> da_members a' = da_members a \<and> da_counts a' = da_counts a
    \<and> (da_blockers a' = [] \<longrightarrow> da_blockers a = []) \<and> (examples_bounded a \<longrightarrow> examples_bounded a')"
  using vis start fuel
proof (induction fuel arbitrary: start vis a)
  case (0 start vis a)
  have "start = None"
  proof (rule ccontr)
    assume "start \<noteq> None"
    then obtain p where p: "start = Some p" by blast
    have "length vis \<le> length (sr_entries r)"
      using card_mono [OF _ 0(2)] distinct_card [OF 0(1)] by simp
    then have "set vis = {..<length (sr_entries r)}"
      using 0 by (intro card_subset_eq) (simp_all add: distinct_card)
    then show False using 0(3) [of p p] 0(4) [OF p] p by auto
  qed
  then show ?case by (simp add: task_simps)
next
  case (Suc fuel start vis a)
  show ?case
  proof (cases start)
    case None
    then show ?thesis by (simp add: task_simps)
  next
    case (Some p)
    have p: "p < length (sr_entries r)" by (rule Suc.prems(4) [OF Some])
    let ?a = "f (sr_entries r ! p) (a\<lparr>da_ancestors := da_ancestors a @ [sn_id (sr_entries r ! p)]\<rparr>)"
    have a: "da_members ?a = da_members a" "da_counts ?a = da_counts a" "da_blockers ?a = [] \<longrightarrow> da_blockers a = []"
      "examples_bounded a \<longrightarrow> examples_bounded ?a" using obs by (simp_all add: observes_def)
    have up: "tree_parent t (sn_id (sr_entries r ! p)) = map_option (\<lambda>p. sn_id (sr_entries r ! p)) (tree_par t p)"
      using tree_finished_entry(4) [OF fin p] tree_finished_par [OF fin p] by simp
    have "p \<notin> set vis" using Suc.prems(3) [of p p] Some by auto
    moreover have "depth q < depth v" if "v \<in> set (p # vis)" "tree_par t p = Some q" for v q
      using that Suc.prems(3) [of v p] depth [of p q] Some by auto
    moreover have "q < length (sr_entries r)" if "tree_par t p = Some q" for q
      using tree_finished_forest [OF fin] that by (auto simp: forest_def)
    ultimately obtain a' where
      "run_task (climb t scope f fuel (map_option (\<lambda>p. sn_id (sr_entries r ! p)) (tree_par t p)) ?a) = Inr (None, a')"
      "da_members a' = da_members ?a" "da_counts a' = da_counts ?a" "da_blockers a' = [] \<longrightarrow> da_blockers ?a = []"
      "examples_bounded ?a \<longrightarrow> examples_bounded a'"
      using Suc.IH [of "p # vis" "tree_par t p" ?a] Suc.prems p by auto
    then show ?thesis
      using a by (auto simp: Some task_simps abortable_intros Let_def tree_finished_entry(1) [OF fin p] up)
  qed
qed

section \<open>The members are the subtree\<close>

lemma tree_children_positions:
  assumes fin: "tree_finished r order g c t" and order: "distinct order" "set order = {..<length (sr_entries r)}"
    and p: "p < length (sr_entries r)" "sn_kind (sr_entries r ! p) = KDirectory"
  shows "\<exists>qs. tree_children t (sn_id (sr_entries r ! p)) = Some (map (\<lambda>p. sn_id (sr_entries r ! p)) qs)
    \<and> distinct qs \<and> set qs = {k. k < length (sr_entries r) \<and> tree_par t k = Some p}"
proof -
  let ?ps = "children_at (parent_at (sr_entries r) (rg_paths g)) order (Some p)"
  have pos: "tr_positions t (sn_id (sr_entries r ! p)) = Some p" using tree_finished_position [OF fin] p by simp
  obtain d where d: "xn_directory (tr_nodes t ! p) = Some d"
    and "arranged (sr_entries r) (name_before (sr_entries r) True) ?ps (dn_children d)"
    using tree_finished_node [OF fin pos] p by (auto simp: node_finished_def dir_arranged_def)
  then obtain qs where qs: "mset qs = mset ?ps" "dn_children d = map (\<lambda>p. sn_id (sr_entries r ! p)) qs"
    by (auto simp: arranged_def)
  have "distinct ?ps" "set ?ps = {k. k < length (sr_entries r) \<and> tree_par t k = Some p}"
    using order tree_finished_par [OF fin] by (auto simp: children_at_def)
  then have "distinct qs" "set qs = {k. k < length (sr_entries r) \<and> tree_par t k = Some p}"
    using qs(1) by (metis card_distinct distinct_card size_mset set_mset_mset, metis set_mset_mset)
  then show ?thesis by (auto simp: tree_children_def tree_directory_def pos d qs(2))
qed

definition subtree :: "scan_report \<Rightarrow> scan_tree \<Rightarrow> nat \<Rightarrow> nat set" where
  "subtree r t q = {p. p < length (sr_entries r) \<and> below (tree_par t) p q}"

definition subtree_par :: "scan_tree \<Rightarrow> nat \<Rightarrow> nat \<Rightarrow> nat option" where
  "subtree_par t q p = (if p = q then None else tree_par t p)"

lemma subtree_child:
  assumes f: "forest (tree_par t) (length (sr_entries r))" and p: "p \<in> subtree r t q"
  shows "{k \<in> subtree r t q. subtree_par t q k = Some p} = {k. k < length (sr_entries r) \<and> tree_par t k = Some p}"
proof -
  obtain depth :: "nat \<Rightarrow> nat" where d: "\<And>p q. tree_par t p = Some q \<Longrightarrow> depth q < depth p"
    using f by (auto simp: forest_def)
  have "k \<noteq> q" if "tree_par t k = Some p" for k
    using below_depth [of "tree_par t" p q depth] p d that by (fastforce simp: subtree_def)
  moreover have "below (tree_par t) k q" if "tree_par t k = Some p" for k
    using that p by (auto simp: subtree_def intro: below_into)
  ultimately show ?thesis by (auto simp: subtree_def subtree_par_def split: if_splits)
qed

definition collected_members ::
  "scan_report \<Rightarrow> (scan_entry \<Rightarrow> bool) \<Rightarrow> bool \<Rightarrow> nat list \<Rightarrow> directory_assessment \<Rightarrow> bool" where
  "collected_members r free clear vis a \<longleftrightarrow> da_members a = map (\<lambda>p. sn_id (sr_entries r ! p)) vis
     \<and> da_counts a = fold count_member (map (\<lambda>p. sr_entries r ! p) vis) no_counts
     \<and> (da_blockers a = [] \<longrightarrow> clear \<and> list_all (\<lambda>p. free (sr_entries r ! p)) vis)
     \<and> examples_bounded a"

lemma collect_members_run:
  assumes fin: "tree_finished r order g c t" and order: "distinct order" "set order = {..<length (sr_entries r)}"
    and obs: "observes free f"
    and v: "visiting (subtree_par t q) (subtree r t q) pend vis"
    and acc: "collected_members r free clear vis a"
    and fuel: "length (sr_entries r) \<le> fuel + length vis"
  shows "\<exists>a' vis'. run_task (collect_members t f fuel (map (\<lambda>p. sn_id (sr_entries r ! p)) pend) a) = Inr ([], a')
    \<and> visiting (subtree_par t q) (subtree r t q) [] vis' \<and> collected_members r free clear vis' a'"
  using v acc fuel
proof (induction fuel arbitrary: pend vis a)
  case (0 pend vis a)
  have "finite (subtree r t q)" "card (subtree r t q) \<le> length (sr_entries r)"
    using card_mono [of "{..<length (sr_entries r)}" "subtree r t q"] by (auto simp: subtree_def)
  then have "length vis + length pend \<le> length (sr_entries r)"
    using visiting_room [OF 0(1)] by linarith
  then have "length pend = 0" using 0 by linarith
  then have "pend = []" by simp
  then show ?case using 0 by (auto simp: task_simps)
next
  case (Suc fuel pend vis a)
  show ?case
  proof (cases pend)
    case Nil
    then show ?thesis using Suc.prems by (auto simp: task_simps)
  next
    case (Cons p rest)
    then have p: "p \<in> subtree r t q" "p < length (sr_entries r)"
      using Suc.prems by (auto simp: visiting_def subtree_def)
    let ?e = "sr_entries r ! p"
    let ?a = "f ?e (a\<lparr>da_members := da_members a @ [sn_id ?e], da_counts := count_member ?e (da_counts a)\<rparr>)"
    have acc: "collected_members r free clear (vis @ [p]) ?a"
      using Suc.prems(2) obs by (simp add: collected_members_def observes_def)
    obtain qs where kids: "(if sn_kind ?e = KDirectory then the (tree_children t (sn_id ?e)) else [])
        = map (\<lambda>p. sn_id (sr_entries r ! p)) qs"
      and qs: "distinct qs" "set qs = {k. k < length (sr_entries r) \<and> tree_par t k = Some p}"
    proof (cases "sn_kind ?e = KDirectory")
      case True
      then show ?thesis using tree_children_positions [OF fin order p(2) True] that by auto
    next
      case False
      then have "{k. k < length (sr_entries r) \<and> tree_par t k = Some p} = {}"
        using fin tree_finished_par [OF fin] by (auto simp: tree_finished_def Let_def)
      then show ?thesis using that [of "[]"] False by simp
    qed
    have next_v: "visiting (subtree_par t q) (subtree r t q) (qs @ rest) (vis @ [p])"
      by (rule visiting_step [OF _ qs(1)])
        (use Suc.prems Cons qs(2) subtree_child [OF tree_finished_forest [OF fin] p(1)] in auto)
    then show ?thesis
      using Suc.IH [OF next_v acc] Suc.prems(3)
      by (simp add: Cons task_simps abortable_intros Let_def tree_finished_entry(1) [OF fin p(2)] kids)
  qed
qed

lemma collect_subtree:
  assumes fin: "tree_finished r order g c t" and order: "distinct order" "set order = {..<length (sr_entries r)}"
    and obs: "observes free f" and q: "q < length (sr_entries r)"
    and acc: "collected_members r free clear [] a"
  shows "\<exists>a' vis. run_task (collect_members t f (length (sr_entries r)) [sn_id (sr_entries r ! q)] a) = Inr ([], a')
    \<and> distinct vis \<and> set vis = subtree r t q \<and> collected_members r free clear vis a'"
proof -
  obtain depth :: "nat \<Rightarrow> nat" where d: "\<And>p q. tree_par t p = Some q \<Longrightarrow> q < length (sr_entries r) \<and> depth q < depth p"
    using tree_finished_forest [OF fin] by (auto simp: forest_def)
  have up: "k \<in> subtree r t q \<and> depth k < depth p" if "p \<in> subtree r t q" "subtree_par t q p = Some k" for p k
  proof -
    have "below (tree_par t) p q" "p \<noteq> q" "tree_par t p = Some k"
      using that by (auto simp: subtree_def subtree_par_def split: if_splits)
    then show ?thesis using below_from_parent [of "tree_par t" p q] d [of p k] by (auto simp: subtree_def)
  qed
  have only: "p = q" if "p \<in> subtree r t q" "subtree_par t q p = None" for p
    using that below_from_parent [of "tree_par t" p q] by (auto simp: subtree_def subtree_par_def split: if_splits)
  have "visiting (subtree_par t q) (subtree r t q) [q] []"
  proof -
    have "q \<in> subtree r t q" "subtree_par t q q = None" by (simp_all add: subtree_def subtree_par_def q)
    moreover have "\<forall>p\<in>subtree r t q. subtree_par t q p = None \<longrightarrow> p = q" using only by blast
    ultimately show ?thesis by (simp add: visiting_def)
  qed
  then obtain a' vis where run: "run_task (collect_members t f (length (sr_entries r)) [sn_id (sr_entries r ! q)] a) = Inr ([], a')"
    and v: "visiting (subtree_par t q) (subtree r t q) [] vis" and acc': "collected_members r free clear vis a'"
    using collect_members_run [OF fin order obs _ acc, of q "[q]" "length (sr_entries r)"] by auto
  have "set vis = subtree r t q" by (rule visiting_full [OF v up])
  then show ?thesis using run v acc' by (auto simp: visiting_def)
qed

section \<open>Properties\<close>

lemma count_identity_fold:
  "fold count_identity es (\<lambda>_. 0) i = length (filter (\<lambda>e. sn_identity e = i) es)"
proof -
  have "fold count_identity es counts i = counts i + length (filter (\<lambda>e. sn_identity e = i) es)" for counts
    by (induction es arbitrary: counts) (auto simp: count_identity_def)
  then show ?thesis by simp
qed

lemma count_run:
  "run_task (tfold (\<lambda>e counts. tbind check_cancelled (\<lambda>_. tret (count_identity e counts))) es counts)
   = Inr (fold count_identity es counts)"
  by (induction es arbitrary: counts) (simp_all add: task_simps abortable_intros)

lemma count_member_total:
  "dc_entries (fold count_member es n) = dc_entries n + length es
   \<and> dc_directories (fold count_member es n) + dc_file_names (fold count_member es n)
       + dc_links (fold count_member es n) + dc_other (fold count_member es n)
     = dc_directories n + dc_file_names n + dc_links n + dc_other n + length es"
  by (induction es arbitrary: n) (simp_all add: count_member_def Let_def split: resource_kind.split)

lemma exclude_entries_run:
  assumes "run_task (tfold (exclude_entry t scope) is ([], {})) = Inr (excluded, seen)"
  shows "excluded = map (\<lambda>i. the (tree_entry t i)) is" and "list_all (\<lambda>i. tree_entry t i \<noteq> None) is"
proof -
  have "fst (excluded, seen) = map (\<lambda>i. the (tree_entry t i)) is \<and> list_all (\<lambda>i. tree_entry t i \<noteq> None) is"
    by (rule tfold_invariant [OF assms, where
          P = "\<lambda>pre s. fst s = map (\<lambda>i. the (tree_entry t i)) pre \<and> list_all (\<lambda>i. tree_entry t i \<noteq> None) pre"])
      (auto simp: abortable_intros exclude_entry_def task_simps split: if_splits)
  then show "excluded = map (\<lambda>i. the (tree_entry t i)) is" "list_all (\<lambda>i. tree_entry t i \<noteq> None) is" by simp_all
qed

text \<open>What a returned assessment is made of.\<close>

lemma assess_directory_run:
  assumes fin: "tree_finished r order g c t" and order: "distinct order" "set order = {..<length (sr_entries r)}"
    and run: "run_task (assess_directory t sel ex) = Inr a"
  shows "\<exists>scope q policy vis. tree_entry t (ds_scope_id sel) = Some scope
    \<and> tr_positions t (ds_directory_id sel) = Some q
    \<and> distinct vis \<and> set vis = subtree r t q \<and> list_all (\<lambda>i. tree_entry t i \<noteq> None) ex
    \<and> collected_members r
        (barrier_free scope (fold count_identity (sr_entries r) (\<lambda>_. 0)) (sn_identity ` set (map (\<lambda>i. the (tree_entry t i)) ex)))
        (da_blockers (target_blockers t policy scope (sr_entries r ! q) (the (tree_summary t (ds_directory_id sel)))
           (map (\<lambda>i. the (tree_entry t i)) ex) (assessment_start sel)) = []) vis a"
proof -
  have rep: "tr_report t = r" using fin by (simp add: tree_finished_def Let_def)
  obtain scope target policy excluded seen up a2 pending where
    scope: "tree_entry t (ds_scope_id sel) = Some scope" and target: "tree_entry t (ds_directory_id sel) = Some target"
    and ex: "run_task (tfold (exclude_entry t scope) ex ([], {})) = Inr (excluded, seen)"
    and climb: "run_task (climb t scope (observe_barriers scope (fold count_identity (sr_entries r) (\<lambda>_. 0)) (sn_identity ` set excluded))
         (length (sr_entries r)) (tree_parent t (sn_id target))
         (target_blockers t policy scope target (the (tree_summary t (sn_id target))) excluded (assessment_start sel))) = Inr (up, a2)"
    and down: "run_task (collect_members t (observe_barriers scope (fold count_identity (sr_entries r) (\<lambda>_. 0)) (sn_identity ` set excluded))
         (length (sr_entries r)) [sn_id target] (a2\<lparr>da_ancestors := rev (da_ancestors a2)\<rparr>)) = Inr (pending, a)"
    using run by (auto simp: assess_directory_def task_simps abortable_intros count_run rep Let_def run_task_case_prod
        split: if_splits prod.splits)
  obtain q where q: "tr_positions t (ds_directory_id sel) = Some q" using target by (auto simp: tree_entry_def)
  then have qn: "q < length (sr_entries r)" "sn_id (sr_entries r ! q) = ds_directory_id sel"
    using tree_finished_position [OF fin] by auto
  have tq: "target = sr_entries r ! q" using target rep q by (simp add: tree_entry_def)
  let ?free = "barrier_free scope (fold count_identity (sr_entries r) (\<lambda>_. 0)) (sn_identity ` set excluded)"
  let ?a1 = "target_blockers t policy scope target (the (tree_summary t (sn_id target))) excluded (assessment_start sel)"
  obtain depth :: "nat \<Rightarrow> nat" where d: "\<And>p q. tree_par t p = Some q \<Longrightarrow> q < length (sr_entries r) \<and> depth q < depth p"
    using tree_finished_forest [OF fin] by (auto simp: forest_def)
  have up: "tree_parent t (sn_id target) = map_option (\<lambda>p. sn_id (sr_entries r ! p)) (tree_par t q)"
    using tree_finished_entry(4) [OF fin qn(1)] tree_finished_par [OF fin qn(1)] tq by simp
  have "\<exists>a'. run_task (climb t scope (observe_barriers scope (fold count_identity (sr_entries r) (\<lambda>_. 0)) (sn_identity ` set excluded))
         (length (sr_entries r)) (map_option (\<lambda>p. sn_id (sr_entries r ! p)) (tree_par t q)) ?a1) = Inr (None, a')
    \<and> da_members a' = da_members ?a1 \<and> da_counts a' = da_counts ?a1
    \<and> (da_blockers a' = [] \<longrightarrow> da_blockers ?a1 = []) \<and> (examples_bounded ?a1 \<longrightarrow> examples_bounded a')"
    by (rule climb_ends [OF fin observe_barriers_observes, where depth = depth and vis = "[]"]) (use d in auto)
  then have a2: "da_members a2 = da_members ?a1" "da_counts a2 = da_counts ?a1" "da_blockers a2 = [] \<longrightarrow> da_blockers ?a1 = []"
    "examples_bounded ?a1 \<longrightarrow> examples_bounded a2" using climb up by auto
  have "examples_bounded (assessment_start sel)"
    by (simp add: examples_bounded_def assessment_start_def)
  then have start: "collected_members r ?free (da_blockers ?a1 = []) [] (a2\<lparr>da_ancestors := rev (da_ancestors a2)\<rparr>)"
    using a2 target_blockers_facts(1) by (simp add: collected_members_def target_blockers_facts(2, 3)) (simp add: assessment_start_def)
  obtain a3 vis where "run_task (collect_members t (observe_barriers scope (fold count_identity (sr_entries r) (\<lambda>_. 0)) (sn_identity ` set excluded))
         (length (sr_entries r)) [sn_id target] (a2\<lparr>da_ancestors := rev (da_ancestors a2)\<rparr>)) = Inr ([], a3)"
    "distinct vis" "set vis = subtree r t q" "collected_members r ?free (da_blockers ?a1 = []) vis a3"
    using collect_subtree [OF fin order observe_barriers_observes qn(1) start] tq by auto
  then have "distinct vis" "set vis = subtree r t q" "collected_members r ?free (da_blockers ?a1 = []) vis a"
    using down by simp_all
  then show ?thesis
    using scope q exclude_entries_run [OF ex] tq qn(2) by auto
qed

lemma subtree_positions:
  assumes "tree_finished r order g c t"
  shows "(\<lambda>p. sn_id (sr_entries r ! p)) ` subtree r t q = {i. \<exists>p. tr_positions t i = Some p \<and> below (tree_par t) p q}"
  using tree_finished_position [OF assms] by (auto simp: subtree_def image_iff)

text \<open>The review of a directory returns every entry at or below it exactly once, with counts
  per kind that add up to them, and keeps at most 128 blockers, omitting more only when it has that
  many.\<close>

theorem assessment_lists_the_subtree:
  assumes "run_task (build_shared order r limits) = Inr t"
    and "distinct order" "set order = {..<length (sr_entries r)}"
    and "run_task (assess_directory t sel excluded) = Inr a" "tr_positions t (ds_directory_id sel) = Some q"
  shows "distinct (da_members a) \<and> set (da_members a) = {i. \<exists>p. tr_positions t i = Some p \<and> below (tree_par t) p q}
    \<and> dc_entries (da_counts a) = length (da_members a)
    \<and> dc_directories (da_counts a) + dc_file_names (da_counts a) + dc_links (da_counts a) + dc_other (da_counts a)
        = length (da_members a)
    \<and> length (da_blockers a) \<le> max_blocker_examples
    \<and> (da_blockers_omitted a \<noteq> 0 \<longrightarrow> length (da_blockers a) = max_blocker_examples)"
proof -
  obtain explicit g c where fin: "tree_finished r order g c t" using build_shared_finished [OF assms(1-3)] by blast
  obtain free clear vis where vis: "distinct vis" "set vis = subtree r t q" and a: "collected_members r free clear vis a"
    using assess_directory_run [OF fin assms(2-4)] assms(5) by auto
  have idx: "indexed sn_id (sr_entries r) (rg_positions g)"
    using fin by (simp add: tree_finished_def Let_def registered_def)
  have "inj_on (\<lambda>p. sn_id (sr_entries r ! p)) (set vis)"
    using indexed_inj [OF idx] by (auto simp: inj_on_def vis(2) subtree_def)
  then have "distinct (da_members a)" using a vis(1) by (simp add: collected_members_def distinct_map)
  moreover have "set (da_members a) = {i. \<exists>p. tr_positions t i = Some p \<and> below (tree_par t) p q}"
    using a vis(2) subtree_positions [OF fin] by (simp add: collected_members_def)
  ultimately show ?thesis
    using a count_member_total [of "map (\<lambda>p. sr_entries r ! p) vis" no_counts]
    by (simp add: collected_members_def examples_bounded_def) (simp add: no_counts_def)
qed

text \<open>C24: A review without blockers omitted none and speaks for the whole subtree: the scan and the
  directory are complete with every size known, the directory is neither the scope nor a protected
  location, no excluded entry overlaps it, and every entry at or below it is a materialized file or
  directory on the volume of the scope whose identity is observed once in the whole report.\<close>

theorem no_blocker_means_clean_subtree:
  assumes "run_task (build_shared order r limits) = Inr t"
    and "distinct order" "set order = {..<length (sr_entries r)}"
    and "run_task (assess_directory t sel excluded) = Inr a" "da_blockers a = []"
    and "tr_positions t (ds_directory_id sel) = Some q" "below (tree_par t) p q" "p < length (sr_entries r)"
    and "tree_entry t (ds_scope_id sel) = Some scope" "tree_summary t (ds_directory_id sel) = Some s"
  shows "let e = sr_entries r ! p; target = sr_entries r ! q in
    da_blockers_omitted a = 0 \<and> tr_complete t \<and> ds_complete s
    \<and> ds_logical_bytes_unknown_files s = 0 \<and> ds_allocated_bytes_unknown_files s = 0
    \<and> sn_id target \<noteq> sn_id scope \<and> \<not> system_protected (sn_path target)
    \<and> list_all (\<lambda>i. case tree_entry t i of None \<Rightarrow> False
        | Some x \<Rightarrow> \<not> overlaps (sn_path target) (sn_path x) \<and> sn_identity x \<noteq> sn_identity e) excluded
    \<and> \<not> sn_dataless e \<and> sn_kind e \<in> {KDirectory, KFile} \<and> same_volume (sn_identity scope) (sn_identity e)
    \<and> length (filter (\<lambda>x. sn_identity x = sn_identity e) (sr_entries r)) = 1"
proof -
  obtain explicit g c where fin: "tree_finished r order g c t" using build_shared_finished [OF assms(1-3)] by blast
  let ?e = "sr_entries r ! p"
  let ?counts = "fold count_identity (sr_entries r) (\<lambda>_. 0)"
  let ?ex = "map (\<lambda>i. the (tree_entry t i)) excluded"
  obtain policy vis where vis: "set vis = subtree r t q" and known: "list_all (\<lambda>i. tree_entry t i \<noteq> None) excluded"
    and a: "collected_members r (barrier_free scope ?counts (sn_identity ` set ?ex))
      (da_blockers (target_blockers t policy scope (sr_entries r ! q) s ?ex (assessment_start sel)) = []) vis a"
    using assess_directory_run [OF fin assms(2-4)] assms(6, 9, 10) by auto
  have policy: "\<not> scope_protects policy (sn_path (sr_entries r ! q)) \<Longrightarrow> \<not> system_protected (sn_path (sr_entries r ! q))"
    by (simp add: scope_protects_def)
  have target: "da_blockers (target_blockers t policy scope (sr_entries r ! q) s ?ex (assessment_start sel)) = []"
    and free: "barrier_free scope ?counts (sn_identity ` set ?ex) ?e" and om: "da_blockers_omitted a = 0"
    using a assms(5, 7, 8) vis by (auto simp: collected_members_def list_all_iff subtree_def examples_bounded_def max_blocker_examples_def)
  have "?e \<in> set (filter (\<lambda>x. sn_identity x = sn_identity ?e) (sr_entries r))" using assms(8) by simp
  then have "length (filter (\<lambda>x. sn_identity x = sn_identity ?e) (sr_entries r)) \<noteq> 0" by force
  moreover have "length (filter (\<lambda>x. sn_identity x = sn_identity ?e) (sr_entries r)) \<le> 1"
    using free by (simp add: barrier_free_def count_identity_fold)
  ultimately have once: "length (filter (\<lambda>x. sn_identity x = sn_identity ?e) (sr_entries r)) = 1" by linarith
  have "list_all (\<lambda>i. case tree_entry t i of None \<Rightarrow> False
        | Some x \<Rightarrow> \<not> overlaps (sn_path (sr_entries r ! q)) (sn_path x) \<and> sn_identity x \<noteq> sn_identity ?e) excluded"
    using known target free unfolding target_blockers_facts(5) barrier_free_def
    by (auto simp: list_all_iff image_iff split: option.split)
  then show ?thesis
    using target free once om policy by (simp add: target_blockers_facts(5) barrier_free_def Let_def)
qed

section \<open>A review\<close>

text \<open>A complete scan of \<open>/r\<close> with one file in \<open>/r/b\<close>, and the review of \<open>/r/b\<close>.\<close>

definition review_entry :: "u64 \<Rightarrow> path \<Rightarrow> resource_kind \<Rightarrow> scan_entry" where
  "review_entry i p k = \<lparr>sn_private_bytes = None, sn_owner = None, sn_project_signature = None,
     sn_id = i, sn_path = p, sn_kind = k, sn_identity = Unix 1 i, sn_logical_bytes = Some 7,
     sn_allocated_bytes = Some 8, sn_modified_unix_ms = None, sn_dataless = False, sn_counted = True, sn_depth = 0\<rparr>"

definition review_report :: scan_report where
  "review_report = demo_report\<lparr>sr_scan_status := StatusComplete, sr_complete := True, sr_issues := [],
     sr_entries := [review_entry 1 ''/r'' KDirectory, review_entry 2 ''/r/b'' KDirectory, review_entry 3 ''/r/b/c'' KFile]\<rparr>"

definition review_tree :: "(scan_error, scan_tree) result" where
  "review_tree = run_task (build_shared [0, 1, 2] review_report demo_limits)"

definition review_selection :: directory_selection where
  "review_selection = \<lparr>ds_task_id = \<lparr>st_process = 1, st_sequence = 1\<rparr>, ds_scope_id = 1, ds_directory_id = 2\<rparr>"

definition review :: "(scan_error, directory_assessment) result" where
  "review = (case review_tree of Inl e \<Rightarrow> Inl e | Inr t \<Rightarrow> run_task (assess_directory t review_selection []))"

lemma review_facts:
  "(case review_tree of Inl _ \<Rightarrow> False | Inr t \<Rightarrow>
     tr_positions t 2 = Some 1 \<and> tree_parent t 3 = Some 2 \<and> xn_parent (tr_nodes t ! 2) = Some 1
     \<and> 2 < length (tr_nodes t)
     \<and> map_option ds_complete (tree_summary t 2) = Some True \<and> map_option sn_id (tree_entry t 1) = Some 1)
   \<and> (case review of Inl _ \<Rightarrow> False | Inr a \<Rightarrow> da_blockers a = [] \<and> da_members a = [2, 3])"
  by (simp add: review_def review_tree_def build_shared_def register_report_def task_simps abortable_intros demo_limits_valid)
    code_simp

lemma review_run:
  "run_task (build_shared [0, 1, 2] review_report demo_limits) = Inr (projr review_tree)"
  "run_task (assess_directory (projr review_tree) review_selection []) = Inr (projr review)"
  "distinct [0, 1, 2 :: nat]" "set [0, 1, 2] = {..<length (sr_entries review_report)}"
proof -
  obtain t a where t: "review_tree = Inr t" and a: "review = Inr a"
    using review_facts by (auto split: sum.splits)
  show "run_task (build_shared [0, 1, 2] review_report demo_limits) = Inr (projr review_tree)"
    using t unfolding review_tree_def by simp
  have "run_task (assess_directory t review_selection []) = Inr a"
    using a unfolding review_def t by simp
  then show "run_task (assess_directory (projr review_tree) review_selection []) = Inr (projr review)"
    unfolding t a by simp
  show "distinct [0, 1, 2 :: nat]" by simp
  show "set [0, 1, 2] = {..<length (sr_entries review_report)}" by (auto simp: review_report_def)
qed

lemma review_values:
  "tr_positions (projr review_tree) (ds_directory_id review_selection) = Some 1"
  "da_blockers (projr review) = []" "da_members (projr review) = [2, 3]"
  "\<exists>s scope. tree_summary (projr review_tree) (ds_directory_id review_selection) = Some s
     \<and> tree_entry (projr review_tree) (ds_scope_id review_selection) = Some scope"
  "below (tree_par (projr review_tree)) 2 1"
proof -
  obtain t a where t: "review_tree = Inr t" and a: "review = Inr a"
    using review_facts by (auto split: sum.splits)
  have f: "tr_positions t 2 = Some 1" "xn_parent (tr_nodes t ! 2) = Some 1" "2 < length (tr_nodes t)"
    "map_option ds_complete (tree_summary t 2) = Some True" "map_option sn_id (tree_entry t 1) = Some 1"
    and g: "da_blockers a = []" "da_members a = [2, 3]"
    using review_facts unfolding t a by simp_all
  show "tr_positions (projr review_tree) (ds_directory_id review_selection) = Some 1"
    "da_blockers (projr review) = []" "da_members (projr review) = [2, 3]"
    by (simp_all add: t a f g review_selection_def)
  show "\<exists>s scope. tree_summary (projr review_tree) (ds_directory_id review_selection) = Some s
     \<and> tree_entry (projr review_tree) (ds_scope_id review_selection) = Some scope"
    using f(4, 5) by (cases "tree_summary t 2"; cases "tree_entry t 1") (simp_all add: t review_selection_def)
  have "tree_par t 2 = Some 1" using f(2, 3) by (simp add: tree_par_def)
  then show "below (tree_par (projr review_tree)) 2 1"
    by (auto simp: t intro: below_parent [OF below_refl])
qed

theorem assessment_lists_the_subtree_witness:
  "set (da_members (projr review)) = {i. \<exists>p. tr_positions (projr review_tree) i = Some p
      \<and> below (tree_par (projr review_tree)) p 1}
   \<and> dc_entries (da_counts (projr review)) = 2"
  using assessment_lists_the_subtree [OF review_run(1, 3, 4, 2) review_values(1)] review_values(3) by simp

theorem no_blocker_means_clean_subtree_witness:
  "tr_complete (projr review_tree)
   \<and> length (filter (\<lambda>x. sn_identity x = Unix 1 3) (sr_entries review_report)) = 1"
proof -
  obtain s scope where s: "tree_summary (projr review_tree) (ds_directory_id review_selection) = Some s"
    "tree_entry (projr review_tree) (ds_scope_id review_selection) = Some scope"
    using review_values(4) by blast
  have "2 < length (sr_entries review_report)" "sn_identity (sr_entries review_report ! 2) = Unix 1 3"
    by (simp_all add: review_report_def review_entry_def)
  then show ?thesis
    using no_blocker_means_clean_subtree [OF review_run(1, 3, 4, 2) review_values(2, 1, 5) _ s(2, 1)]
    by (simp add: Let_def)
qed

end
