(* ===== verification/Hex.thy ===== *)
theory Hex
  imports Text
begin

text \<open>
  Hexadecimal text: two digits for every byte, as the clean policy writes its paths and every
  digest is printed, the lower-case digits of a number (\<open>{:x}\<close>), and its decimal digits.
\<close>

section \<open>Hexadecimal text\<close>

definition hex_digit :: "int \<Rightarrow> char" where
  "hex_digit n = char_of (if n < 10 then 48 + n else 87 + n)"

text \<open>\<open>encode_hex\<close>: two lower-case digits for every byte.\<close>

definition encode_hex :: "bytes \<Rightarrow> bytes" where
  "encode_hex s = concat (map (\<lambda>c. [hex_digit (of_char c div 16), hex_digit (of_char c mod 16)]) s)"

text \<open>
  \<open>decode_hex\<close> takes the bytes of the text two by two. A pair that is not UTF-8 has no digits
  either, so \<open>str::from_utf8\<close> adds no failure of its own.
\<close>

fun decode_hex_pairs :: "bytes \<Rightarrow> bytes option" where
  "decode_hex_pairs [] = Some []"
| "decode_hex_pairs [a] = None"
| "decode_hex_pairs (a # b # s) =
     (case hex_pair a b of
        None \<Rightarrow> None
      | Some c \<Rightarrow> map_option (Cons c) (decode_hex_pairs s))"

definition decode_hex :: "bytes \<Rightarrow> bytes option" where
  "decode_hex text = (if odd (length text) then None else decode_hex_pairs text)"

text \<open>\<open>format!("{:x}", n)\<close>\<close>

function hex_number :: "nat \<Rightarrow> bytes" where
  "hex_number n =
     (if n < 16 then [hex_digit (int n)] else hex_number (n div 16) @ [hex_digit (int (n mod 16))])"
  by pat_completeness auto
termination by (relation "measure id") auto

declare hex_number.simps [simp del]

section \<open>Decoding what was encoded\<close>

lemma hex_digits:
  "list_all (\<lambda>n. hex_value (hex_digit n) = Some (nat n) \<and> hex_digit n \<noteq> CHR ''+''
     \<and> hex_digit n \<le> CHR 0x7F) [0..15]"
  by code_simp

lemma hex_digit:
  assumes "0 \<le> n" and "n < 16"
  shows "hex_value (hex_digit n) = Some (nat n)" "hex_digit n \<noteq> CHR ''+''" "hex_digit n \<le> CHR 0x7F"
  using hex_digits assms by (auto simp: list_all_iff)

lemma nibbles:
  "0 \<le> of_char c div (16 :: int)" "of_char c div 16 < (16 :: int)"
  "0 \<le> of_char c mod (16 :: int)" "of_char c mod 16 < (16 :: int)"
proof -
  have c: "(of_char c :: int) = int (of_char c)" by (rule of_nat_of_char [symmetric])
  have "of_char c < (256 :: nat)" by (rule nat_of_char_less_256)
  then show "of_char c div 16 < (16 :: int)" unfolding c by linarith
  show "0 \<le> of_char c div (16 :: int)" unfolding c by simp
qed simp_all

lemma hex_pair_digits:
  "hex_pair (hex_digit (of_char c div 16)) (hex_digit (of_char c mod 16)) = Some c"
proof -
  have c: "(of_char c :: int) = int (of_char c)" by (rule of_nat_of_char [symmetric])
  have "nat (of_char c div 16) = of_char c div 16" "nat (of_char c mod 16) = of_char c mod 16"
    unfolding c by (simp_all add: nat_div_distrib nat_mod_distrib)
  then show ?thesis by (simp add: hex_pair_def hex_digit nibbles)
qed

lemma encode_hex_simps [simp]:
  "encode_hex [] = []"
  "encode_hex (c # s) = hex_digit (of_char c div 16) # hex_digit (of_char c mod 16) # encode_hex s"
  by (simp_all add: encode_hex_def)

lemma length_encode_hex [simp]: "length (encode_hex s) = 2 * length s"
  by (induction s) auto

lemma decode_hex_pairs_encode [simp]: "decode_hex_pairs (encode_hex s) = Some s"
  by (induction s) (auto simp: hex_pair_digits)

lemma decode_hex_encode_hex [simp]: "decode_hex (encode_hex s) = Some s"
  by (simp add: decode_hex_def)

lemma encode_hex_ascii: "is_ascii (encode_hex s)"
  by (induction s) (simp_all add: is_ascii_def hex_digit nibbles)

section \<open>Decimal text\<close>

fun decimal :: "nat \<Rightarrow> bytes" where
  "decimal n = (if n < 10 then [char_of (48 + n)] else decimal (n div 10) @ [char_of (48 + n mod 10)])"

declare decimal.simps [simp del]

end
