(* ===== verification/Policy_Paths.thy ===== *)
theory Policy_Paths
  imports Journal Hex
begin

text \<open>
  The paths of the clean policy store (\<open>clean_policy/macos.rs\<close>): \<open>std::path::absolute\<close> and
  \<open>Path::strip_prefix\<close> as the store uses them, the hexadecimal wire format of a path and its
  decoders. A path keeps its raw bytes, because the store compares wire paths as text.
\<close>

section \<open>Absolute paths\<close>

text \<open>\<open>Component::as_os_str\<close>\<close>

fun component_os :: "component \<Rightarrow> bytes" where
  "component_os RootDir = ''/''"
| "component_os CurDir = ''.''"
| "component_os ParentDir = ''..''"
| "component_os (Normal s) = s"

text \<open>\<open>PathBuf::extend\<close>: every component is pushed.\<close>

definition path_extend :: "path \<Rightarrow> component list \<Rightarrow> path" where
  "path_extend p cs = foldl (\<lambda>q c. path_join q (component_os c)) p cs"

text \<open>
  \<open>std::path::absolute\<close> on Unix, \<open>cwd\<close> being what \<open>env::current_dir\<close> returns. A leading \<open>.\<close>
  is dropped, exactly two leading slashes and a trailing slash are kept, \<open>..\<close> is not resolved.
\<close>

definition components_after_dot :: "path \<Rightarrow> component list" where
  "components_after_dot p =
     (case components p of CurDir # cs \<Rightarrow> cs | cs \<Rightarrow> cs)"

definition two_slashes :: "path \<Rightarrow> bool" where
  "two_slashes p \<longleftrightarrow> prefix ''//'' p \<and> \<not> prefix ''///'' p"

definition keep_trailing :: "path \<Rightarrow> path \<Rightarrow> path" where
  "keep_trailing p q = (if p \<noteq> [] \<and> last p = CHR ''/'' then path_join q [] else q)"

definition absolute_from :: "path \<Rightarrow> path \<Rightarrow> path" where
  "absolute_from dir p =
     keep_trailing p
       (if is_absolute p then
          (if two_slashes p then path_extend ''//'' (tl (components_after_dot p))
           else path_extend [] (components_after_dot p))
        else path_extend dir (components_after_dot p))"

section \<open>Relative parts\<close>

text \<open>
  \<open>Path::strip_prefix\<close> with an absolute base: the raw text after the components of the base,
  without the empty and \<open>.\<close> pieces at its two ends.
\<close>

definition blank_piece :: "bytes \<Rightarrow> bool" where
  "blank_piece s \<longleftrightarrow> s = [] \<or> s = ''.''"

fun skip_components :: "nat \<Rightarrow> bytes list \<Rightarrow> bytes list" where
  "skip_components 0 ps = ps"
| "skip_components (Suc n) [] = []"
| "skip_components (Suc n) (p # ps) =
     (if blank_piece p then skip_components (Suc n) ps else skip_components n ps)"

definition trim_pieces :: "bytes list \<Rightarrow> bytes list" where
  "trim_pieces ps = rev (dropWhile blank_piece (rev (dropWhile blank_piece ps)))"

definition strip_prefix :: "path \<Rightarrow> path \<Rightarrow> path option" where
  "strip_prefix p base =
     (if starts_with p base
      then Some (join_with CHR ''/''
        (trim_pieces (skip_components (length (components base) - 1) (tl (split_on CHR ''/'' p)))))
      else None)"

section \<open>Wire paths\<close>

record wire_path =
  wp_encoding :: bytes
  wp_bytes_hex :: bytes
  wp_display :: bytes

definition clean_relative :: "path \<Rightarrow> bool" where
  "clean_relative p \<longleftrightarrow>
     list_all (\<lambda>c. c \<noteq> ParentDir \<and> c \<noteq> RootDir \<and> c \<noteq> CurDir) (components p)"

definition normalize_literal_relative :: "path \<Rightarrow> bytes io_result" where
  "normalize_literal_relative p =
     (if is_absolute p \<or> p = [] then Inl (Io InvalidInput ''entry must be a relative path'')
      else if \<not> clean_relative p then Inl (Io InvalidInput ''entry must be a clean relative path'')
      else Inr p)"

definition wire_of :: "(bytes \<Rightarrow> bytes) \<Rightarrow> bytes \<Rightarrow> wire_path" where
  "wire_of dbg bs = \<lparr>wp_encoding = ''unix_bytes'', wp_bytes_hex = encode_hex bs, wp_display = dbg bs\<rparr>"

definition encode_absolute :: "(bytes \<Rightarrow> bytes) \<Rightarrow> path \<Rightarrow> wire_path io_result" where
  "encode_absolute dbg p =
     (if \<not> is_absolute p then Inl (Io InvalidInput ''path must be absolute'')
      else Inr (wire_of dbg p))"

definition encode_relative :: "(bytes \<Rightarrow> bytes) \<Rightarrow> path \<Rightarrow> wire_path io_result" where
  "encode_relative dbg p = rbind (normalize_literal_relative p) (\<lambda>bs. Inr (wire_of dbg bs))"

definition decode_wire_bytes :: "wire_path \<Rightarrow> bytes io_result" where
  "decode_wire_bytes w =
     (if wp_encoding w \<noteq> ''unix_bytes'' then Inl (invalid ''unsupported path encoding'')
      else ok_or (invalid ''invalid hex path bytes'') (decode_hex (wp_bytes_hex w)))"

definition decode_absolute :: "wire_path \<Rightarrow> path io_result" where
  "decode_absolute w =
     rbind (decode_wire_bytes w) (\<lambda>bs.
       if bs = [] \<or> hd bs \<noteq> CHR ''/'' then Inl (invalid ''root path must be absolute'')
       else Inr bs)"

definition decode_relative_bytes :: "wire_path \<Rightarrow> bytes io_result" where
  "decode_relative_bytes w =
     rbind (decode_wire_bytes w) (\<lambda>bs.
       if bs = [] \<or> hd bs = CHR ''/'' then Inl (invalid ''entry path must be relative'')
       else if \<not> clean_relative bs then Inl (invalid ''entry path traversal is not accepted'')
       else Inr bs)"

definition decode_relative :: "wire_path \<Rightarrow> path io_result" where
  "decode_relative w = rbind (decode_relative_bytes w) Inr"

section \<open>Decoding what was encoded\<close>

lemma ascii_hd_plain: "is_ascii s \<Longrightarrow> s \<noteq> [] \<Longrightarrow> \<not> is_continuation (hd s)"
  by (cases s) (auto simp: is_ascii_def is_continuation_def less_eq_char_def)

lemma decode_pairs_ascii:
  "is_ascii s \<Longrightarrow> decode_pairs s = (case decode_hex_pairs s of Some bs \<Rightarrow> Decoded bs | None \<Rightarrow> NotHex)"
proof (induction s rule: decode_pairs.induct)
  case (3 a b s)
  then have s: "is_ascii s" by (simp add: is_ascii_def)
  then have no: "\<not> (s \<noteq> [] \<and> is_continuation (hd s))" using ascii_hd_plain by blast
  show ?case
    using 3(1) [OF no _ s] no
    by (cases "hex_pair a b") (auto split: option.splits hex_decoding.splits)
qed auto

lemma decoders_agree:
  "is_ascii s \<Longrightarrow> decode_hex_bytes s = (case decode_hex s of Some bs \<Rightarrow> Decoded bs | None \<Rightarrow> NotHex)"
  by (simp add: decode_hex_bytes_def decode_hex_def decode_pairs_ascii)

section \<open>Components of relative parts\<close>

lemma piece_blank: "piece s = [] \<longleftrightarrow> blank_piece s"
  by (auto simp: piece_def blank_piece_def)

lemma blank_pieces: "\<forall>s \<in> set ps. blank_piece s \<Longrightarrow> concat (map piece ps) = []"
  by (auto simp: piece_blank)

lemma pieces_dropWhile: "concat (map piece (dropWhile blank_piece ps)) = concat (map piece ps)"
  by (induction ps) (auto simp: piece_blank [symmetric])

lemma pieces_rev_dropWhile:
  "concat (map piece (rev (dropWhile blank_piece (rev ps)))) = concat (map piece ps)"
proof (induction ps rule: rev_induct)
  case (snoc p ps)
  then show ?case by (auto simp: piece_blank [symmetric])
qed simp

lemma pieces_trim: "concat (map piece (trim_pieces ps)) = concat (map piece ps)"
  by (simp add: trim_pieces_def pieces_rev_dropWhile pieces_dropWhile)

lemma pieces_skip: "concat (map piece (skip_components n ps)) = drop n (concat (map piece ps))"
proof (induction n ps rule: skip_components.induct)
  case (3 n p ps)
  then show ?case
    by (cases "blank_piece p") (auto simp: piece_def blank_piece_def)
qed auto

lemma set_skip: "set (skip_components n ps) \<subseteq> set ps"
  by (induction n ps rule: skip_components.induct) auto

lemma set_trim: "set (trim_pieces ps) \<subseteq> set ps"
  by (auto simp: trim_pieces_def dest!: set_dropWhileD)

lemma hd_trim: "trim_pieces ps \<noteq> [] \<Longrightarrow> \<not> blank_piece (hd (trim_pieces ps))"
proof -
  let ?ds = "dropWhile blank_piece ps"
  assume ne: "trim_pieces ps \<noteq> []"
  then have "?ds \<noteq> []" unfolding trim_pieces_def by force
  then have hd: "\<not> blank_piece (hd ?ds)" by (rule hd_dropWhile)
  obtain d ds where d: "?ds = d # ds" using \<open>?ds \<noteq> []\<close> by (cases ?ds) auto
  have "rev (dropWhile blank_piece (rev (d # ds))) = d # rev (dropWhile blank_piece (rev ds))"
    if "\<not> blank_piece d"
    using that by (induction ds rule: rev_induct) auto
  then show ?thesis using d hd by (simp add: trim_pieces_def)
qed

lemma components_join_pieces:
  assumes "\<forall>s \<in> set ps. CHR ''/'' \<notin> set s" and "ps \<noteq> [] \<Longrightarrow> \<not> blank_piece (hd ps)"
  shows "components (join_with CHR ''/'' ps) = concat (map piece ps)"
    and "\<not> is_absolute (join_with CHR ''/'' ps)"
proof -
  show rel: "\<not> is_absolute (join_with CHR ''/'' ps)"
  proof (cases "ps = []")
    case True
    then show ?thesis by (simp add: is_absolute_def)
  next
    case False
    then show ?thesis
      by (intro join_inner_relative) (use assms in \<open>auto simp: blank_piece_def\<close>)
  qed
  show "components (join_with CHR ''/'' ps) = concat (map piece ps)"
  proof (cases "ps = []")
    case True
    then show ?thesis by (simp add: components_def is_absolute_def)
  next
    case False
    then show ?thesis
      using assms rel split_on_join_with [OF False assms(1)]
      by (auto simp: components_def Let_def blank_piece_def)
  qed
qed

lemma strip_prefix_components:
  assumes "strip_prefix p base = Some r" and "is_absolute base"
  shows "components p = components base @ components r" and "\<not> is_absolute r"
proof -
  let ?ps = "tl (split_on CHR ''/'' p)"
  let ?n = "length (components base) - 1"
  from assms(1) have pre: "prefix (components base) (components p)"
    and r: "r = join_with CHR ''/'' (trim_pieces (skip_components ?n ?ps))"
    by (auto simp: strip_prefix_def starts_with_def split: if_splits)
  obtain cs where base: "components base = RootDir # cs"
    using assms(2) by (auto simp: is_absolute_components)
  have p: "components p = RootDir # concat (map piece ?ps)"
  proof -
    have abs: "is_absolute p"
      using pre base by (auto simp: is_absolute_components prefix_def)
    obtain q where q: "p = CHR ''/'' # q" using abs by (cases p) (auto simp: is_absolute_def)
    show ?thesis by (simp add: q components_root_sep)
  qed
  have no: "\<forall>s \<in> set (trim_pieces (skip_components ?n ?ps)). CHR ''/'' \<notin> set s"
    using set_trim [of "skip_components ?n ?ps"] set_skip [of ?n ?ps]
      list.set_sel(2) [of "split_on CHR ''/'' p"] split_on_no_sep by fastforce
  have "components r = drop ?n (concat (map piece ?ps))"
    unfolding r using components_join_pieces(1) [OF no hd_trim] by (simp add: pieces_trim pieces_skip)
  then show "components p = components base @ components r"
    using pre base p by (auto simp: prefix_def)
  show "\<not> is_absolute r"
    unfolding r by (rule components_join_pieces(2) [OF no hd_trim])
qed

section \<open>Round trips\<close>

lemma decode_wire_of [simp]: "decode_wire_bytes (wire_of dbg bs) = Inr bs"
  by (simp add: decode_wire_bytes_def wire_of_def ok_or_def)

lemma decode_encode_absolute: "encode_absolute dbg p = Inr w \<Longrightarrow> decode_absolute w = Inr p"
  by (cases p) (auto simp: encode_absolute_def decode_absolute_def is_absolute_def split: if_splits)

lemma encode_absolute_Inr: "encode_absolute dbg p = Inr w \<longleftrightarrow> is_absolute p \<and> w = wire_of dbg p"
  by (auto simp: encode_absolute_def)

lemma normalize_literal_relative_Inr:
  "normalize_literal_relative p = Inr bs
     \<longleftrightarrow> \<not> is_absolute p \<and> p \<noteq> [] \<and> clean_relative p \<and> bs = p"
  by (auto simp: normalize_literal_relative_def)

lemma decode_relative_bytes_Inr:
  "decode_relative_bytes w = Inr bs
     \<longleftrightarrow> decode_wire_bytes w = Inr bs \<and> \<not> is_absolute bs \<and> bs \<noteq> [] \<and> clean_relative bs"
proof (cases "decode_wire_bytes w")
  case (Inr a)
  then show ?thesis
    by (cases a; cases bs) (auto simp: decode_relative_bytes_def is_absolute_def)
qed (simp add: decode_relative_bytes_def)

lemma decode_relative_eq: "decode_relative w = decode_relative_bytes w"
  by (cases "decode_relative_bytes w") (auto simp: decode_relative_def)

lemma decode_encode_relative:
  "encode_relative dbg p = Inr w \<Longrightarrow> decode_relative_bytes w = Inr p"
  by (auto simp: encode_relative_def normalize_literal_relative_Inr decode_relative_bytes_Inr)

text \<open>The relative parts are made of names only.\<close>

lemma clean_relative_components:
  "clean_relative p \<Longrightarrow> \<exists>ns. components p = map Normal ns \<and> list_all plain_name ns"
proof -
  assume "clean_relative p"
  moreover have "list_all (\<lambda>c. c \<noteq> ParentDir \<and> c \<noteq> RootDir \<and> c \<noteq> CurDir) cs \<Longrightarrow> wf_components cs
      \<Longrightarrow> \<exists>ns. cs = map Normal ns \<and> list_all plain_name ns" for cs
  proof (induction cs)
    case (Cons c cs)
    then obtain ns where ns: "cs = map Normal ns" "list_all plain_name ns"
      using wf_components_inner by auto
    obtain s where "c = Normal s" "plain_name s"
      using Cons.prems by (cases c) auto
    with ns have "c # cs = map Normal (s # ns) \<and> list_all plain_name (s # ns)" by simp
    then show ?case by (rule exI)
  qed simp
  ultimately show ?thesis
    using wf_components_components by (auto simp: clean_relative_def)
qed


section \<open>Ancestors\<close>

text \<open>
  \<open>Path::parent\<close> with the raw text it returns: the pieces up to the last component but one. A
  leading \<open>.\<close> of a relative path is a component.
\<close>

definition trim_end :: "bytes list \<Rightarrow> bytes list" where
  "trim_end ps = rev (dropWhile blank_piece (rev ps))"

definition raw_parent :: "path \<Rightarrow> path option" where
  "raw_parent p =
     (let ps = split_on CHR ''/'' p in
      if is_absolute p then
        (let body = trim_end (tl ps) in
         if body = [] then None
         else Some (CHR ''/'' # join_with CHR ''/'' (trim_end (butlast body))))
      else if hd ps = ''.'' then
        (let body = trim_end (tl ps) in
         if body = [] then Some []
         else Some (join_with CHR ''/'' (''.'' # trim_end (butlast body))))
      else
        (let body = trim_end ps in
         if body = [] then None
         else Some (join_with CHR ''/'' (trim_end (butlast body)))))"

lemma trim_end_take: "\<exists>k \<le> length ps. trim_end ps = take k ps"
proof (induction ps rule: rev_induct)
  case (snoc p ps)
  then obtain k where "k \<le> length ps" "trim_end ps = take k ps" by blast
  then show ?case
    by (cases "blank_piece p") (auto simp: trim_end_def intro: exI [of _ k] exI [of _ "Suc (length ps)"])
qed (simp add: trim_end_def)

lemma trim_end_shorter:
  assumes "trim_end ps \<noteq> []"
  obtains k where "k < length ps" "trim_end (butlast (trim_end ps)) = take k ps"
proof -
  obtain n where n: "n \<le> length ps" "trim_end ps = take n ps" using trim_end_take by blast
  obtain k where k: "k \<le> length (butlast (take n ps))" "trim_end (butlast (take n ps)) = take k (butlast (take n ps))"
    using trim_end_take by blast
  have "n > 0" using assms n by (cases n) auto
  then have "k < length ps" and "trim_end (butlast (trim_end ps)) = take k ps"
    using n k by (auto simp: butlast_take min_def take_take split: if_splits)
  then show ?thesis by (rule that)
qed

lemma join_with_append:
  "xs \<noteq> [] \<Longrightarrow> ys \<noteq> [] \<Longrightarrow> join_with c (xs @ ys) = join_with c xs @ c # join_with c ys"
proof (induction c xs rule: join_with.induct)
  case (2 c p)
  then show ?case by (cases ys) auto
qed auto

lemma length_join_take:
  "k < length ps \<Longrightarrow> k = 0 \<longrightarrow> ps \<noteq> [[]] \<Longrightarrow> length (join_with c (take k ps)) < length (join_with c ps)"
proof (cases "k = 0")
  case True
  assume k: "k < length ps" "k = 0 \<longrightarrow> ps \<noteq> [[]]"
  then obtain x xs where "ps = x # xs" by (cases ps) auto
  then show ?thesis using True k by (cases xs) auto
next
  case False
  assume "k < length ps" "k = 0 \<longrightarrow> ps \<noteq> [[]]"
  then have "join_with c (take k ps @ drop k ps) = join_with c (take k ps) @ c # join_with c (drop k ps)"
    using False by (intro join_with_append) auto
  then show ?thesis by simp
qed

lemma raw_parent_shorter: "raw_parent p = Some q \<Longrightarrow> length q < length p"
proof -
  assume parent: "raw_parent p = Some q"
  obtain s ps where sp: "split_on CHR ''/'' p = s # ps" by (cases "split_on CHR ''/'' p") auto
  have p: "p = join_with CHR ''/'' (s # ps)"
    using join_with_split_on [of "CHR ''/''" p] sp by simp
  have grow: "length (join_with CHR ''/'' (s # take k ps)) < length p" if "k < length ps" for k
    using length_join_take [of "Suc k" "s # ps" "CHR ''/''"] that p by auto
  consider (abs) "is_absolute p" | (dot) "\<not> is_absolute p" "s = ''.''" | (rel) "\<not> is_absolute p" "s \<noteq> ''.''"
    by blast
  then show ?thesis
  proof cases
    case abs
    then have s: "s = []" using sp by (cases p) (auto simp: is_absolute_def)
    from parent abs sp have ne: "trim_end ps \<noteq> []"
      and q: "q = CHR ''/'' # join_with CHR ''/'' (trim_end (butlast (trim_end ps)))"
      by (auto simp: raw_parent_def Let_def split: if_splits)
    obtain k where k: "k < length ps" "trim_end (butlast (trim_end ps)) = take k ps"
      using trim_end_shorter [OF ne] .
    show ?thesis
    proof (cases "take k ps = []")
      case True
      have "length p > 1"
      proof -
        have "ps \<noteq> [[]]" using ne by (auto simp: trim_end_def blank_piece_def)
        moreover obtain x xs where "ps = x # xs" using k by (cases ps) auto
        ultimately show ?thesis using p s by (cases xs) auto
      qed
      then show ?thesis using q k True by simp
    next
      case False
      then have "q = join_with CHR ''/'' (s # take k ps)"
        using q k s by (cases "take k ps") auto
      then show ?thesis using grow k by simp
    qed
  next
    case dot
    show ?thesis
    proof (cases "trim_end ps = []")
      case True
      then show ?thesis using parent dot sp by (cases p) (auto simp: raw_parent_def Let_def)
    next
      case False
      then have q: "q = join_with CHR ''/'' (''.'' # trim_end (butlast (trim_end ps)))"
        using parent dot sp by (auto simp: raw_parent_def Let_def)
      obtain k where "k < length ps" "trim_end (butlast (trim_end ps)) = take k ps"
        using trim_end_shorter [OF False] .
      then show ?thesis using grow q dot by simp
    qed
  next
    case rel
    then have ne: "trim_end (s # ps) \<noteq> []"
      and q: "q = join_with CHR ''/'' (trim_end (butlast (trim_end (s # ps))))"
      using parent sp by (auto simp: raw_parent_def Let_def split: if_splits)
    obtain k where k: "k < length (s # ps)" "trim_end (butlast (trim_end (s # ps))) = take k (s # ps)"
      using trim_end_shorter [OF ne] .
    have "s # ps \<noteq> [[]]" using ne by (auto simp: trim_end_def blank_piece_def)
    then show ?thesis using length_join_take [OF k(1)] k(2) q p by simp
  qed
qed

text \<open>\<open>Path::ancestors\<close>: the path, then its parents.\<close>

function ancestors :: "path \<Rightarrow> path list" where
  "ancestors p = p # (case raw_parent p of None \<Rightarrow> [] | Some q \<Rightarrow> ancestors q)"
  by pat_completeness auto

termination ancestors
  by (relation "measure length") (auto dest: raw_parent_shorter)

declare ancestors.simps [simp del]

end
