(* ===== verification/Ordered_Map.thy ===== *)
theory Ordered_Map
  imports "HOL-Library.Multiset"
begin

text \<open>\<open>BTreeMap\<close> as the list of its bindings in the order of the keys.\<close>

text \<open>\<open>BTreeMap::insert\<close> on the ordered list of the bindings: a later value replaces.\<close>

fun btree_insert :: "'k :: linorder \<Rightarrow> 'v \<Rightarrow> ('k \<times> 'v) list \<Rightarrow> ('k \<times> 'v) list" where
  "btree_insert k v [] = [(k, v)]"
| "btree_insert k v ((k', v') # m) =
     (if k < k' then (k, v) # (k', v') # m
      else if k = k' then (k, v) # m
      else (k', v') # btree_insert k v m)"

lemma btree_insert_keys: "set (map fst (btree_insert k v m)) = insert k (set (map fst m))"
  by (induction k v m rule: btree_insert.induct) auto

lemma btree_insert_sorted:
  "sorted_wrt (<) (map fst m) \<Longrightarrow> sorted_wrt (<) (map fst (btree_insert k v m))"
proof (induction k v m rule: btree_insert.induct)
  case (2 k v k' v' m)
  then show ?case
    using btree_insert_keys [of k v m] by (auto simp: less_trans)
qed simp

lemma btree_insert_new:
  "k \<notin> set (map fst m) \<Longrightarrow> mset (btree_insert k v m) = add_mset (k, v) (mset m)"
  by (induction k v m rule: btree_insert.induct) auto

end
