(* ===== verification/Policy_Model.thy ===== *)
theory Policy_Model
  imports Policy_Paths Ordered_Map "HOL-Library.Product_Lexorder"
begin

text \<open>
  The data of the clean policy (\<open>clean_policy.rs\<close>) and the operations of the store that touch no
  file (\<open>clean_policy/macos.rs\<close>): validation, the selection of a root record, the order of the
  entries, the comparison of two snapshots.
\<close>

section \<open>Data\<close>

record unix_identity =
  ui_device :: u64
  ui_inode :: u64

datatype entry_kind = EkFile | EkDirectory

record unix_entry_identity =
  uei_device :: u64
  uei_inode :: u64
  uei_kind :: entry_kind

record entry_record =
  en_literal_relative_path :: wire_path
  en_entry_identity :: unix_entry_identity
  en_created_unix_ms :: u64

record policy_root =
  ro_root_path :: wire_path
  ro_root_identity :: unix_identity
  ro_created_unix_ms :: u64
  ro_entries :: "entry_record list"

record policy_file =
  pf_schema_version :: u32
  pf_kind :: bytes
  pf_roots :: "policy_root list"

datatype policy_file_state =
    FsAbsent path "path option" "unix_identity option"
  | FsPresent path unix_identity u64 "u64 option" bytes

record exclusion_entry_status =
  xs_relative_path :: path
  xs_missing_attention :: bool

record policy_snapshot =
  ps_file_state :: policy_file_state
  ps_root :: "policy_root option"
  ps_effective_exclusions :: "path list"
  ps_missing_attention_entries :: "path list"

record global_policy_snapshot =
  gp_file_state :: policy_file_state
  gp_effective_exclusions :: "path list"
  gp_roots :: "policy_root list"

datatype policy_guard_status = GuardUnchanged | GuardPolicyRefused bytes

record config_path =
  cf_directory :: path
  cf_file :: path

definition policy_schema_version :: u32 where
  "policy_schema_version = 1"

definition policy_kind :: bytes where
  "policy_kind = ''sayaka_clean_exclusions''"

definition max_policy_bytes :: int where
  "max_policy_bytes = 65536"

definition max_roots :: int where
  "max_roots = 512"

definition max_entries_per_root :: int where
  "max_entries_per_root = 512"

section \<open>Equality of snapshots\<close>

text \<open>
  The derived \<open>PartialEq\<close> of the snapshots compares each \<open>PathBuf\<close> by its components and every
  other field as it is.
\<close>

fun option_path_eq :: "path option \<Rightarrow> path option \<Rightarrow> bool" where
  "option_path_eq None None \<longleftrightarrow> True"
| "option_path_eq (Some p) (Some q) \<longleftrightarrow> path_eq p q"
| "option_path_eq _ _ \<longleftrightarrow> False"

fun file_state_eq :: "policy_file_state \<Rightarrow> policy_file_state \<Rightarrow> bool" where
  "file_state_eq (FsAbsent p par i) (FsAbsent p' par' i') \<longleftrightarrow>
     path_eq p p' \<and> option_path_eq par par' \<and> i = i'"
| "file_state_eq (FsPresent p i n m h) (FsPresent p' i' n' m' h') \<longleftrightarrow>
     path_eq p p' \<and> i = i' \<and> n = n' \<and> m = m' \<and> h = h'"
| "file_state_eq _ _ \<longleftrightarrow> False"

definition snapshot_eq :: "policy_snapshot \<Rightarrow> policy_snapshot \<Rightarrow> bool" where
  "snapshot_eq a b \<longleftrightarrow>
     file_state_eq (ps_file_state a) (ps_file_state b)
     \<and> ps_root a = ps_root b
     \<and> list_all2 path_eq (ps_effective_exclusions a) (ps_effective_exclusions b)
     \<and> list_all2 path_eq (ps_missing_attention_entries a) (ps_missing_attention_entries b)"

definition global_snapshot_eq :: "global_policy_snapshot \<Rightarrow> global_policy_snapshot \<Rightarrow> bool" where
  "global_snapshot_eq a b \<longleftrightarrow>
     file_state_eq (gp_file_state a) (gp_file_state b)
     \<and> list_all2 path_eq (gp_effective_exclusions a) (gp_effective_exclusions b)
     \<and> gp_roots a = gp_roots b"

fun policy_change_reason :: "policy_file_state \<Rightarrow> policy_file_state \<Rightarrow> bytes" where
  "policy_change_reason (FsAbsent _ _ _) (FsPresent _ _ _ _ _) = ''policy_created_after_approval''"
| "policy_change_reason (FsPresent _ _ _ _ _) (FsAbsent _ _ _) = ''policy_removed_after_approval''"
| "policy_change_reason (FsPresent _ i _ _ h) (FsPresent _ i' _ _ h') =
     (if h \<noteq> h' \<or> i \<noteq> i' then ''policy_content_changed_after_approval''
      else ''policy_snapshot_changed_after_approval'')"
| "policy_change_reason (FsAbsent _ _ _) (FsAbsent _ _ _) = ''policy_snapshot_changed_after_approval''"

section \<open>Validation\<close>

text \<open>\<open>for entry in &root.entries\<close>: every key decodes and is new.\<close>

fun check_entries :: "bytes set \<Rightarrow> entry_record list \<Rightarrow> unit io_result" where
  "check_entries seen [] = Inr ()"
| "check_entries seen (e # es) =
     rbind (decode_relative_bytes (en_literal_relative_path e)) (\<lambda>key.
       if key \<in> seen then Inl (invalid ''duplicate exclusion entry'')
       else check_entries (insert key seen) es)"

fun check_roots :: "bytes set \<Rightarrow> unix_identity set \<Rightarrow> policy_root list \<Rightarrow> unit io_result" where
  "check_roots paths ids [] = Inr ()"
| "check_roots paths ids (r # rs) =
     (if max_entries_per_root < int (length (ro_entries r))
      then Inl (invalid ''too many exclusions for one root'')
      else rbind (decode_absolute (ro_root_path r)) (\<lambda>p.
        if p \<in> paths then Inl (invalid ''duplicate root path record'')
        else if ro_root_identity r \<in> ids then Inl (invalid ''duplicate root identity record'')
        else rbind (check_entries {} (ro_entries r)) (\<lambda>_.
          check_roots (insert p paths) (insert (ro_root_identity r) ids) rs)))"

definition validate_policy :: "policy_file \<Rightarrow> unit io_result" where
  "validate_policy f =
     (if pf_schema_version f \<noteq> policy_schema_version \<or> pf_kind f \<noteq> policy_kind
      then Inl (invalid ''unsupported clean policy schema'')
      else if max_roots < int (length (pf_roots f)) then Inl (invalid ''too many policy roots'')
      else check_roots {} {} (pf_roots f))"

section \<open>The order of the entries\<close>

fun index_entries ::
  "(bytes \<times> entry_record) list \<Rightarrow> entry_record list \<Rightarrow> (bytes \<times> entry_record) list io_result" where
  "index_entries m [] = Inr m"
| "index_entries m (e # es) =
     rbind (decode_relative_bytes (en_literal_relative_path e)) (\<lambda>key.
       index_entries (btree_insert key e m) es)"

definition normalize_entries :: "policy_root \<Rightarrow> policy_root io_result" where
  "normalize_entries r =
     rbind (index_entries [] (ro_entries r)) (\<lambda>m. Inr (r\<lparr>ro_entries := map snd m\<rparr>))"

section \<open>Finding a root record\<close>

definition select_root_for_execution ::
  "(bytes \<Rightarrow> bytes) \<Rightarrow> policy_root list \<Rightarrow> path \<Rightarrow> unix_identity \<Rightarrow> policy_root option io_result" where
  "select_root_for_execution dbg roots root identity =
     (case filter (\<lambda>r. ro_root_identity r = identity) roots of
        [r] \<Rightarrow> Inr (Some r)
      | _ # _ # _ \<Rightarrow> Inl (invalid ''ambiguous clean policy root identity'')
      | [] \<Rightarrow>
          rbind (encode_absolute dbg root) (\<lambda>encoded.
            if list_ex (\<lambda>r. ro_root_path r = encoded) roots
            then Inl (Io PermissionDeniedKind
              ''clean policy root record is stale and requires explicit repair'')
            else Inr None))"

definition select_root_for_management ::
  "(bytes \<Rightarrow> bytes) \<Rightarrow> policy_root list \<Rightarrow> path \<Rightarrow> policy_root option io_result" where
  "select_root_for_management dbg roots root =
     rbind (encode_absolute dbg root) (\<lambda>encoded. Inr (find (\<lambda>r. ro_root_path r = encoded) roots))"

text \<open>\<open>find_root_record_mut\<close>: the position of the record, for the update in place.\<close>

definition find_position :: "('a \<Rightarrow> bool) \<Rightarrow> 'a list \<Rightarrow> nat option" where
  "find_position P xs = find (\<lambda>i. P (xs ! i)) [0..<length xs]"

definition find_root_record_mut ::
  "(bytes \<Rightarrow> bytes) \<Rightarrow> policy_file \<Rightarrow> path \<Rightarrow> nat option io_result" where
  "find_root_record_mut dbg f root =
     rbind (encode_absolute dbg root) (\<lambda>encoded.
       Inr (find_position (\<lambda>r. ro_root_path r = encoded) (pf_roots f)))"

text \<open>
  \<open>ensure_root_record\<close>: the policy and the position of the record in it; a new record is stamped
  with the clock, \<open>None\<close> standing for that case.
\<close>

definition matching_roots :: "policy_file \<Rightarrow> unix_identity \<Rightarrow> nat list" where
  "matching_roots f identity =
     filter (\<lambda>i. ro_root_identity (pf_roots f ! i) = identity) [0..<length (pf_roots f)]"

definition existing_root_record ::
  "policy_file \<Rightarrow> wire_path \<Rightarrow> unix_identity \<Rightarrow> (policy_file \<times> nat) option io_result" where
  "existing_root_record f encoded identity =
     (case matching_roots f identity of
        i # rest \<Rightarrow>
          if rest \<noteq> [] then Inl (invalid ''ambiguous root records for same identity'')
          else Inr (Some (f\<lparr>pf_roots := (pf_roots f)[i := (pf_roots f ! i)\<lparr>ro_root_path := encoded\<rparr>]\<rparr>, i))
      | [] \<Rightarrow>
          if list_ex (\<lambda>r. ro_root_path r = encoded) (pf_roots f)
          then Inl (Io PermissionDeniedKind ''stored root path exists with different identity'')
          else Inr None)"

definition push_root_record ::
  "policy_file \<Rightarrow> wire_path \<Rightarrow> unix_identity \<Rightarrow> u64 \<Rightarrow> policy_file \<times> nat" where
  "push_root_record f encoded identity now =
     (f\<lparr>pf_roots := pf_roots f @ [\<lparr>ro_root_path = encoded, ro_root_identity = identity,
          ro_created_unix_ms = now, ro_entries = []\<rparr>]\<rparr>, length (pf_roots f))"

section \<open>Removal\<close>

definition entry_key :: "entry_record \<Rightarrow> bytes" where
  "entry_key e = (case decode_relative_bytes (en_literal_relative_path e) of Inr k \<Rightarrow> k | Inl _ \<Rightarrow> [])"

definition retain_entries :: "bytes set \<Rightarrow> policy_root \<Rightarrow> policy_root" where
  "retain_entries keys r = r\<lparr>ro_entries := filter (\<lambda>e. entry_key e \<notin> keys) (ro_entries r)\<rparr>"

definition remove_from_policy ::
  "(bytes \<Rightarrow> bytes) \<Rightarrow> path \<Rightarrow> bytes set \<Rightarrow> policy_file \<Rightarrow> (nat \<times> policy_file) io_result" where
  "remove_from_policy dbg root keys f =
     rbind (find_root_record_mut dbg f root) (\<lambda>found.
       case found of
         None \<Rightarrow> Inr (0, f)
       | Some i \<Rightarrow>
           let r = pf_roots f ! i; r' = retain_entries keys r in
           Inr (length (ro_entries r) - length (ro_entries r'),
             f\<lparr>pf_roots := (pf_roots f)[i := r']\<rparr>))"

definition remove_root_from_policy ::
  "(bytes \<Rightarrow> bytes) \<Rightarrow> path \<Rightarrow> policy_file \<Rightarrow> (bool \<times> policy_file) io_result" where
  "remove_root_from_policy dbg root f =
     rbind (encode_absolute dbg root) (\<lambda>encoded.
       let roots = filter (\<lambda>r. ro_root_path r \<noteq> encoded) (pf_roots f) in
       Inr (length (pf_roots f) \<noteq> length roots, f\<lparr>pf_roots := roots\<rparr>))"

section \<open>What validation accepts\<close>

definition root_key :: "policy_root \<Rightarrow> bytes" where
  "root_key r = (case decode_absolute (ro_root_path r) of Inr p \<Rightarrow> p | Inl _ \<Rightarrow> [])"

definition entry_ok :: "entry_record \<Rightarrow> bool" where
  "entry_ok e \<longleftrightarrow> decode_relative_bytes (en_literal_relative_path e) = Inr (entry_key e)"

definition root_ok :: "policy_root \<Rightarrow> bool" where
  "root_ok r \<longleftrightarrow> int (length (ro_entries r)) \<le> max_entries_per_root
     \<and> decode_absolute (ro_root_path r) = Inr (root_key r)
     \<and> list_all entry_ok (ro_entries r) \<and> distinct (map entry_key (ro_entries r))"

definition policy_ok :: "policy_file \<Rightarrow> bool" where
  "policy_ok f \<longleftrightarrow> pf_schema_version f = policy_schema_version \<and> pf_kind f = policy_kind
     \<and> int (length (pf_roots f)) \<le> max_roots \<and> list_all root_ok (pf_roots f)
     \<and> distinct (map root_key (pf_roots f)) \<and> distinct (map ro_root_identity (pf_roots f))"

lemma entry_ok_key: "decode_relative_bytes (en_literal_relative_path e) = Inr k \<longleftrightarrow> entry_ok e \<and> entry_key e = k"
  by (auto simp: entry_ok_def entry_key_def split: sum.splits)

lemma root_key_iff:
  "decode_absolute (ro_root_path r) = Inr p
     \<longleftrightarrow> decode_absolute (ro_root_path r) = Inr (root_key r) \<and> root_key r = p"
  by (auto simp: root_key_def split: sum.splits)

lemma check_entries_iff:
  "check_entries seen es = Inr ()
     \<longleftrightarrow> list_all entry_ok es \<and> distinct (map entry_key es) \<and> (\<forall>e \<in> set es. entry_key e \<notin> seen)"
proof (induction es arbitrary: seen)
  case (Cons e es)
  have "check_entries seen (e # es) = Inr ()
      \<longleftrightarrow> entry_ok e \<and> entry_key e \<notin> seen \<and> check_entries (insert (entry_key e) seen) es = Inr ()"
    by (auto simp: entry_ok_key)
  also have "\<dots> \<longleftrightarrow> list_all entry_ok (e # es) \<and> distinct (map entry_key (e # es))
      \<and> (\<forall>x \<in> set (e # es). entry_key x \<notin> seen)"
    unfolding Cons.IH by (auto simp: image_iff)
  finally show ?case .
qed simp

lemma check_roots_iff:
  "check_roots ps ids rs = Inr ()
     \<longleftrightarrow> list_all root_ok rs \<and> distinct (map root_key rs) \<and> distinct (map ro_root_identity rs)
        \<and> (\<forall>r \<in> set rs. root_key r \<notin> ps \<and> ro_root_identity r \<notin> ids)"
proof (induction rs arbitrary: ps ids)
  case (Cons r rs)
  show ?case
  proof (cases "decode_absolute (ro_root_path r)")
    case (Inl e)
    then show ?thesis by (auto simp: root_ok_def)
  next
    case (Inr p)
    then have "root_key r = p" by (simp add: root_key_def)
    then show ?thesis
      using Inr Cons.IH
      by (auto simp: root_ok_def check_entries_iff not_less) (metis image_eqI)+
  qed
qed simp

lemma validate_policy_iff: "validate_policy f = Inr () \<longleftrightarrow> policy_ok f"
  by (auto simp: validate_policy_def policy_ok_def check_roots_iff)

section \<open>What ordering the entries does\<close>

lemma index_entries_spec:
  assumes "index_entries m es = Inr m'"
    and "sorted_wrt (<) (map fst m)" and "distinct (map fst m @ map entry_key es)"
  shows "list_all entry_ok es \<and> sorted_wrt (<) (map fst m')
     \<and> mset m' = mset m + mset (map (\<lambda>e. (entry_key e, e)) es)"
  using assms
proof (induction m es arbitrary: m' rule: index_entries.induct)
  case (2 m e es)
  obtain k where k: "decode_relative_bytes (en_literal_relative_path e) = Inr k"
    and r: "index_entries (btree_insert k e m) es = Inr m'"
    using "2.prems"(1) by auto
  have e: "entry_ok e" "entry_key e = k" using k by (auto simp: entry_ok_key)
  have new: "k \<notin> set (map fst m)" using "2.prems"(3) e(2) by auto
  have "distinct (map fst (btree_insert k e m))"
    using btree_insert_sorted [OF "2.prems"(2)] strict_sorted_iff by blast
  then have dist: "distinct (map fst (btree_insert k e m) @ map entry_key es)"
    using "2.prems"(3) e(2) btree_insert_keys [of k e m] by auto
  show ?case
    using "2.IH" [OF r btree_insert_sorted [OF "2.prems"(2)] dist] k e
    by (simp add: btree_insert_new [OF new])
qed simp

lemma index_entries_total:
  "list_all entry_ok es \<Longrightarrow> \<exists>m'. index_entries m es = Inr m'"
  by (induction es arbitrary: m) (auto simp: entry_ok_def)

lemma normalize_entries_spec:
  assumes "normalize_entries r = Inr r'" and "distinct (map entry_key (ro_entries r))"
  shows "mset (ro_entries r') = mset (ro_entries r)" and "sorted (map entry_key (ro_entries r'))"
    and "list_all entry_ok (ro_entries r)" and "r' = r\<lparr>ro_entries := ro_entries r'\<rparr>"
proof -
  from assms(1) obtain m where m: "index_entries [] (ro_entries r) = Inr m"
    and r': "r' = r\<lparr>ro_entries := map snd m\<rparr>"
    by (auto simp: normalize_entries_def)
  have spec: "list_all entry_ok (ro_entries r)" "sorted_wrt (<) (map fst m)"
    "mset m = mset (map (\<lambda>e. (entry_key e, e)) (ro_entries r))"
    using index_entries_spec [OF m] assms(2) by auto
  have "mset (map snd m) = mset (map snd (map (\<lambda>e. (entry_key e, e)) (ro_entries r)))"
    using arg_cong [OF spec(3), of "image_mset snd"] by (simp only: mset_map)
  then show "mset (ro_entries r') = mset (ro_entries r)"
    by (simp add: r' comp_def)
  have "\<forall>x \<in> set m. fst x = entry_key (snd x)"
    using spec(3) [THEN mset_eq_setD] by auto
  then have keys: "map entry_key (map snd m) = map fst m" by auto
  then show "sorted (map entry_key (ro_entries r'))"
    using spec(2) strict_sorted_iff [of "map fst m"] by (simp add: r' keys del: map_map)
  show "list_all entry_ok (ro_entries r)" by (rule spec(1))
  show "r' = r\<lparr>ro_entries := ro_entries r'\<rparr>" by (simp add: r')
qed

end
