(* ===== verification/Actions.thy ===== *)
theory Actions
  imports Journal_Model
begin

text \<open>
  Actions: calls of the operating system composed by \<open>?\<close>, as functions from the state of the
  outside world to an outcome and the next state; \<open>act\<close> are those whose error is an
  \<open>io::Error\<close>. A world can be observed by a log of the calls
  that matter (\<open>noted\<close>; \<open>pass\<close> for the others). Three notions follow an action through the log:
  \<open>quiet\<close> (it logs nothing), \<open>leads\<close> (a monitor over the log accepts its calls and ends in a
  known phase) and \<open>alike\<close> (observing it changes neither its outcome nor the world).
\<close>

section \<open>Calls\<close>

text \<open>Descriptors are numbers.\<close>

type_synonym fd = nat

type_synonym ('w, 'x, 'a) eact = "'w \<Rightarrow> ('x, 'a) result \<times> 'w"

type_synonym ('w, 'a) act = "('w, io_error, 'a) eact"

definition aret :: "'a \<Rightarrow> ('w, 'x, 'a) eact" where
  "aret a = (\<lambda>w. (Inr a, w))"

definition afail :: "'x \<Rightarrow> ('w, 'x, 'a) eact" where
  "afail e = (\<lambda>w. (Inl e, w))"

definition alift :: "('x, 'a) result \<Rightarrow> ('w, 'x, 'a) eact" where
  "alift r = (\<lambda>w. (r, w))"

definition abind :: "('w, 'x, 'a) eact \<Rightarrow> ('a \<Rightarrow> ('w, 'x, 'b) eact) \<Rightarrow> ('w, 'x, 'b) eact" where
  "abind m f = (\<lambda>w. case m w of (Inl e, w') \<Rightarrow> (Inl e, w') | (Inr a, w') \<Rightarrow> f a w')"

text \<open>\<open>match call() { ... }\<close>: both outcomes are handled.\<close>

definition amatch :: "('w, 'x, 'a) eact \<Rightarrow> (('x, 'a) result \<Rightarrow> ('w, 'y, 'b) eact) \<Rightarrow> ('w, 'y, 'b) eact" where
  "amatch m f = (\<lambda>w. case m w of (r, w') \<Rightarrow> f r w')"

lemma abind_Inr [simp]:
  "abind m f w = (Inr b, w') \<longleftrightarrow> (\<exists>a v. m w = (Inr a, v) \<and> f a v = (Inr b, w'))"
  by (auto simp: abind_def split: prod.splits sum.splits)

lemma act_simps [simp]:
  "aret a w = (Inr a, w)" "afail e w = (Inl e, w)" "alift r w = (r, w)"
  by (simp_all add: aret_def afail_def alift_def)

definition afinally :: "('w, 'x, 'a) eact \<Rightarrow> ('w \<Rightarrow> 'w) \<Rightarrow> ('w, 'x, 'a) eact" where
  "afinally m f = (\<lambda>w. case m w of (r, w') \<Rightarrow> (r, f w'))"

definition aon_error :: "('w, 'x, 'a) eact \<Rightarrow> ('w \<Rightarrow> 'w) \<Rightarrow> ('w, 'x, 'a) eact" where
  "aon_error m f = (\<lambda>w. case m w of (Inl e, w') \<Rightarrow> (Inl e, f w') | (Inr a, w') \<Rightarrow> (Inr a, w'))"

definition atest :: "('w \<Rightarrow> bool \<times> 'w) \<Rightarrow> ('w, 'x, bool) eact" where
  "atest t = (\<lambda>w. case t w of (b, w') \<Rightarrow> (Inr b, w'))"

text \<open>The text of an error, as \<open>Display\<close> prints it.\<close>

definition io_text :: "io_error \<Rightarrow> bytes" where
  "io_text e = (case e of Io k message \<Rightarrow> message | Panicked \<Rightarrow> [])"

lemma abind_assoc: "abind (abind m f) g = abind m (\<lambda>a. abind (f a) g)"
  by (auto simp: abind_def fun_eq_iff split: sum.splits prod.splits)

lemma abind_choice: "abind (if b then m else n) g = (if b then abind m g else abind n g)"
  by simp

lemma abind_returned: "abind (aret a) g = g a" "abind (afail e) g = afail e"
  by (simp_all add: abind_def fun_eq_iff)

text \<open>The laws that flatten a sequence of actions.\<close>

lemmas monad_laws = abind_assoc abind_choice abind_returned

section \<open>Observed calls\<close>

definition pass :: "('w \<Rightarrow> 'a \<times> 'w) \<Rightarrow> 'w \<times> 'e list \<Rightarrow> 'a \<times> 'w \<times> 'e list" where
  "pass f s = (case f (fst s) of (x, w) \<Rightarrow> (x, w, snd s))"

definition noted ::
  "('a \<Rightarrow> 'e) \<Rightarrow> ('w \<Rightarrow> 'a \<times> 'w) \<Rightarrow> 'w \<times> 'e list \<Rightarrow> 'a \<times> 'w \<times> 'e list" where
  "noted ev f s = (case f (fst s) of (x, w) \<Rightarrow> (x, w, snd s @ [ev x]))"

text \<open>A monitor is a partial step function on its phases; it refuses an event by \<open>None\<close>.\<close>

fun trace_run :: "('p \<Rightarrow> 'e \<Rightarrow> 'p option) \<Rightarrow> 'p \<Rightarrow> 'e list \<Rightarrow> 'p option" where
  "trace_run st ph [] = Some ph"
| "trace_run st ph (ev # l) = (case st ph ev of None \<Rightarrow> None | Some ph' \<Rightarrow> trace_run st ph' l)"

lemma trace_run_append:
  "trace_run st ph (l @ l') = (case trace_run st ph l of None \<Rightarrow> None | Some ph' \<Rightarrow> trace_run st ph' l')"
  by (induction l arbitrary: ph) (auto split: option.splits)

section \<open>Actions that log nothing\<close>

definition quiet :: "('w \<times> 'e list, 'x, 'a) eact \<Rightarrow> bool" where
  "quiet m \<longleftrightarrow> (\<forall>s. snd (snd (m s)) = snd s)"

named_theorems quiet_intros \<open>calls that leave the log as it is\<close>

lemma quiet_pass [quiet_intros]: "quiet (pass f)"
  by (simp add: quiet_def pass_def split: prod.splits)

lemma quiet_aret [quiet_intros]: "quiet (aret a)"
  by (simp add: quiet_def)

lemma quiet_afail [quiet_intros]: "quiet (afail e)"
  by (simp add: quiet_def)

lemma quiet_alift [quiet_intros]: "quiet (alift r)"
  by (simp add: quiet_def)

lemma quiet_abind [quiet_intros]:
  assumes "quiet m" and "\<And>a. quiet (f a)"
  shows "quiet (abind m f)"
  unfolding quiet_def
proof
  fix s
  obtain r s' where m: "m s = (r, s')" by (cases "m s") auto
  then have "snd s' = snd s" using assms(1) by (metis quiet_def snd_conv)
  moreover have "snd (snd (f a s')) = snd s'" for a
    using assms(2) unfolding quiet_def by blast
  ultimately show "snd (snd (abind m f s)) = snd s"
    using m by (auto simp: abind_def split: sum.splits)
qed

lemma quiet_amatch [quiet_intros]:
  assumes "quiet m" and "\<And>r. quiet (f r)"
  shows "quiet (amatch m f)"
  using assms by (auto simp: quiet_def amatch_def split: prod.splits) (metis snd_conv)

lemma quiet_atest [quiet_intros]: "quiet (atest (pass f))"
  by (simp add: quiet_def atest_def pass_def split: prod.splits)

lemma quiet_if [quiet_intros]: "quiet m \<Longrightarrow> quiet n \<Longrightarrow> quiet (if b then m else n)"
  by simp

lemma quiet_case_option [quiet_intros]:
  "quiet m \<Longrightarrow> (\<And>a. quiet (f a)) \<Longrightarrow> quiet (case x of None \<Rightarrow> m | Some a \<Rightarrow> f a)"
  by (cases x) auto

lemma quiet_case_sum [quiet_intros]:
  "(\<And>e. quiet (g e)) \<Longrightarrow> (\<And>a. quiet (f a)) \<Longrightarrow> quiet (case x of Inl e \<Rightarrow> g e | Inr a \<Rightarrow> f a)"
  by (cases x) auto

lemma quiet_case_prod [quiet_intros]: "(\<And>a b. quiet (f a b)) \<Longrightarrow> quiet (case x of (a, b) \<Rightarrow> f a b)"
  by (cases x) auto

section \<open>A logic for the monitor\<close>

text \<open>
  \<open>leads st start ph m Q\<close>: started when the monitor is in \<open>ph\<close>, the action \<open>m\<close> makes calls the
  monitor accepts and ends with an outcome and a phase that satisfy \<open>Q\<close>.
\<close>

definition leads ::
  "('p \<Rightarrow> 'e \<Rightarrow> 'p option) \<Rightarrow> 'p \<Rightarrow> 'p \<Rightarrow> ('w \<times> 'e list, 'x, 'a) eact
     \<Rightarrow> (('x, 'a) result \<Rightarrow> 'p \<Rightarrow> bool) \<Rightarrow> bool" where
  "leads st start ph m Q \<longleftrightarrow>
     (\<forall>w l. trace_run st start l = Some ph \<longrightarrow>
        (case m (w, l) of (r, w', l') \<Rightarrow> \<exists>ph'. trace_run st start l' = Some ph' \<and> Q r ph'))"

lemma leadsI:
  assumes "\<And>w l r w' l'. trace_run st start l = Some ph \<Longrightarrow> m (w, l) = (r, w', l')
     \<Longrightarrow> \<exists>ph'. trace_run st start l' = Some ph' \<and> Q r ph'"
  shows "leads st start ph m Q"
  using assms by (auto simp: leads_def split: prod.splits)

lemma leadsD:
  assumes "leads st start ph m Q" and "trace_run st start l = Some ph" and "m (w, l) = (r, w', l')"
  shows "\<exists>ph'. trace_run st start l' = Some ph' \<and> Q r ph'"
  using assms(1) [unfolded leads_def, rule_format, OF assms(2), of w] assms(3) by simp

lemma leads_weaken:
  "leads st start ph m P \<Longrightarrow> (\<And>r ph'. P r ph' \<Longrightarrow> Q r ph') \<Longrightarrow> leads st start ph m Q"
  by (rule leadsI) (blast dest: leadsD)

lemma leads_quiet:
  assumes "quiet m" and "\<And>r. Q r ph"
  shows "leads st start ph m Q"
proof (rule leadsI)
  fix w l r w' l'
  assume "trace_run st start l = Some ph" "m (w, l) = (r, w', l')"
  moreover from this have "l' = l" using assms(1) by (metis quiet_def snd_conv)
  ultimately show "\<exists>ph'. trace_run st start l' = Some ph' \<and> Q r ph'"
    using assms(2) by auto
qed

text \<open>A quiet action with what is known of its results.\<close>

lemma leads_quiet_result:
  assumes "quiet m" and "\<And>s. Q (fst (m s)) ph"
  shows "leads st start ph m Q"
proof (rule leadsI)
  fix w l r w' l'
  assume run: "trace_run st start l = Some ph" "m (w, l) = (r, w', l')"
  then have "l' = l" using assms(1) by (metis quiet_def snd_conv)
  then show "\<exists>ph'. trace_run st start l' = Some ph' \<and> Q r ph'"
    using run assms(2) [of "(w, l)"] by auto
qed

lemma leads_aret: "Q (Inr a) ph \<Longrightarrow> leads st start ph (aret a) Q"
  by (simp add: leads_def)

lemma leads_afail: "Q (Inl e) ph \<Longrightarrow> leads st start ph (afail e) Q"
  by (simp add: leads_def)

lemma leads_abind:
  assumes "leads st start ph m P" and "\<And>e ph'. P (Inl e) ph' \<Longrightarrow> Q (Inl e) ph'"
    and "\<And>a ph'. P (Inr a) ph' \<Longrightarrow> leads st start ph' (f a) Q"
  shows "leads st start ph (abind m f) Q"
proof (rule leadsI)
  fix w l r w' l'
  assume l: "trace_run st start l = Some ph" and r: "abind m f (w, l) = (r, w', l')"
  obtain x w1 l1 where m: "m (w, l) = (x, w1, l1)" by (cases "m (w, l)") auto
  obtain ph1 where run: "trace_run st start l1 = Some ph1" and P: "P x ph1"
    using leadsD [OF assms(1) l m] by blast
  show "\<exists>ph'. trace_run st start l' = Some ph' \<and> Q r ph'"
  proof (cases x)
    case (Inl e)
    then show ?thesis using m r run P assms(2) by (auto simp: abind_def)
  next
    case (Inr a)
    then have "f a (w1, l1) = (r, w', l')" using m r by (simp add: abind_def)
    then show ?thesis using leadsD [OF assms(3) run] P Inr by blast
  qed
qed

lemma leads_amatch:
  assumes "leads st start ph m P" and "\<And>r ph'. P r ph' \<Longrightarrow> leads st start ph' (f r) Q"
  shows "leads st start ph (amatch m f) Q"
proof (rule leadsI)
  fix w l r w' l'
  assume l: "trace_run st start l = Some ph" and r: "amatch m f (w, l) = (r, w', l')"
  obtain x w1 l1 where m: "m (w, l) = (x, w1, l1)" by (cases "m (w, l)") auto
  obtain ph1 where run: "trace_run st start l1 = Some ph1" and P: "P x ph1"
    using leadsD [OF assms(1) l m] by blast
  have "f x (w1, l1) = (r, w', l')" using m r by (simp add: amatch_def)
  then show "\<exists>ph'. trace_run st start l' = Some ph' \<and> Q r ph'"
    using leadsD [OF assms(2) [OF P] run] by blast
qed

text \<open>A read before the rest: nothing happened if it fails.\<close>

lemma leads_read:
  assumes "quiet m" and "\<And>e. Q (Inl e) ph" and "\<And>a. leads st start ph (f a) Q"
  shows "leads st start ph (abind m f) Q"
proof (rule leads_abind)
  show "leads st start ph m (\<lambda>r ph'. ph' = ph)" by (rule leads_quiet [OF assms(1)]) (rule refl)
qed (use assms in auto)

lemma leads_noted:
  assumes "\<And>r. st ph (ev r) = Some (after r)" and "\<And>r. Q r (after r)"
  shows "leads st start ph (noted ev m) Q"
  by (rule leadsI) (use assms in \<open>auto simp: noted_def trace_run_append split: prod.splits\<close>)

text \<open>A logged call before the rest, whatever its outcome.\<close>

lemma leads_step:
  assumes "\<And>r. st ph (ev r) = Some (after r)" and "\<And>e. Q (Inl e) (after (Inl e))"
    and "\<And>a. leads st start (after (Inr a)) (f a) Q"
  shows "leads st start ph (abind (noted ev m) f) Q"
proof (rule leads_abind)
  show "leads st start ph (noted ev m) (\<lambda>r ph'. ph' = after r)"
    by (rule leads_noted) (simp_all add: assms(1))
qed (use assms in auto)

text \<open>The end of a scope, where a drop is logged.\<close>

definition released :: "'e \<Rightarrow> ('w \<Rightarrow> 'w) \<Rightarrow> 'w \<times> 'e list \<Rightarrow> 'w \<times> 'e list" where
  "released ev f s = (f (fst s), snd s @ [ev])"

lemma leads_released_finally:
  assumes "leads st start ph m (\<lambda>r ph'. \<exists>ph''. st ph' ev = Some ph'' \<and> Q r ph'')"
  shows "leads st start ph (afinally m (released ev f)) Q"
proof (rule leadsI)
  fix w l r w' l'
  assume l: "trace_run st start l = Some ph" and r: "afinally m (released ev f) (w, l) = (r, w', l')"
  obtain x w1 l1 where m: "m (w, l) = (x, w1, l1)" by (cases "m (w, l)") auto
  obtain ph1 ph2 where "trace_run st start l1 = Some ph1" "st ph1 ev = Some ph2" "Q x ph2"
    using leadsD [OF assms l m] by blast
  then show "\<exists>ph'. trace_run st start l' = Some ph' \<and> Q r ph'"
    using m r by (auto simp: afinally_def released_def trace_run_append)
qed

lemma leads_released_on_error:
  assumes "leads st start ph m (\<lambda>r ph'. case r of
      Inr a \<Rightarrow> Q (Inr a) ph'
    | Inl e \<Rightarrow> \<exists>ph''. st ph' ev = Some ph'' \<and> Q (Inl e) ph'')"
  shows "leads st start ph (aon_error m (released ev f)) Q"
proof (rule leadsI)
  fix w l r w' l'
  assume l: "trace_run st start l = Some ph" and r: "aon_error m (released ev f) (w, l) = (r, w', l')"
  obtain x w1 l1 where m: "m (w, l) = (x, w1, l1)" by (cases "m (w, l)") auto
  obtain ph1 where "trace_run st start l1 = Some ph1" "case x of
      Inr a \<Rightarrow> Q (Inr a) ph1
    | Inl e \<Rightarrow> \<exists>ph''. st ph1 ev = Some ph'' \<and> Q (Inl e) ph''"
    using leadsD [OF assms l m] by blast
  then show "\<exists>ph'. trace_run st start l' = Some ph' \<and> Q r ph'"
    using m r by (auto simp: aon_error_def released_def trace_run_append split: sum.splits)
qed

section \<open>Runs with and without a log\<close>

definition alike :: "('w \<times> 'e list, 'x, 'a) eact \<Rightarrow> ('w, 'x, 'a) eact \<Rightarrow> bool" where
  "alike m n \<longleftrightarrow> (\<forall>w r w' l. n w = (r, w') \<longrightarrow> (\<exists>l'. m (w, l) = (r, w', l')))"

lemma alikeI: "(\<And>w r w' l. n w = (r, w') \<Longrightarrow> \<exists>l'. m (w, l) = (r, w', l')) \<Longrightarrow> alike m n"
  by (auto simp: alike_def)

lemma alikeD: "alike m n \<Longrightarrow> n w = (r, w') \<Longrightarrow> \<exists>l'. m (w, l) = (r, w', l')"
  by (auto simp: alike_def)

named_theorems alike_intros \<open>actions that run alike with and without a log\<close>

lemma alike_pass [alike_intros]: "alike (pass f) f"
  by (simp add: alike_def pass_def split: prod.splits)

lemma alike_noted [alike_intros]: "alike (noted ev f) f"
  by (simp add: alike_def noted_def split: prod.splits)

lemma alike_basic [alike_intros]:
  "alike (aret a) (aret a)" "alike (afail e) (afail e)" "alike (alift r) (alift r)"
  by (simp_all add: alike_def)

lemma alike_abind [alike_intros]:
  assumes "alike m n" and "\<And>a. alike (f a) (g a)"
  shows "alike (abind m f) (abind n g)"
proof (rule alikeI)
  fix w r w' l
  assume run: "abind n g w = (r, w')"
  obtain x w1 where n: "n w = (x, w1)" by (cases "n w") auto
  obtain l1 where m: "m (w, l) = (x, w1, l1)" using alikeD [OF assms(1) n] by blast
  show "\<exists>l'. abind m f (w, l) = (r, w', l')"
  proof (cases x)
    case (Inl e)
    then show ?thesis using run m n by (simp add: abind_def)
  next
    case (Inr a)
    then show ?thesis using run m n alikeD [OF assms(2) [of a]] by (simp add: abind_def)
  qed
qed

lemma alike_amatch [alike_intros]:
  assumes "alike m n" and "\<And>r. alike (f r) (g r)"
  shows "alike (amatch m f) (amatch n g)"
proof (rule alikeI)
  fix w r w' l
  assume run: "amatch n g w = (r, w')"
  obtain x w1 where n: "n w = (x, w1)" by (cases "n w") auto
  obtain l1 where m: "m (w, l) = (x, w1, l1)" using alikeD [OF assms(1) n] by blast
  show "\<exists>l'. amatch m f (w, l) = (r, w', l')"
    using run m n alikeD [OF assms(2) [of x]] by (simp add: amatch_def)
qed

lemma alike_atest [alike_intros]: "alike (atest (pass f)) (atest f)"
  by (simp add: alike_def atest_def pass_def split: prod.splits)

lemma alike_if [alike_intros]:
  "alike m m' \<Longrightarrow> alike n n' \<Longrightarrow> alike (if b then m else n) (if b then m' else n')"
  by simp

lemma alike_case_option [alike_intros]:
  "alike m m' \<Longrightarrow> (\<And>a. alike (f a) (f' a)) \<Longrightarrow>
     alike (case x of None \<Rightarrow> m | Some a \<Rightarrow> f a) (case x of None \<Rightarrow> m' | Some a \<Rightarrow> f' a)"
  by (cases x) auto

lemma alike_case_sum [alike_intros]:
  "(\<And>e. alike (g e) (g' e)) \<Longrightarrow> (\<And>a. alike (f a) (f' a)) \<Longrightarrow>
     alike (case x of Inl e \<Rightarrow> g e | Inr a \<Rightarrow> f a) (case x of Inl e \<Rightarrow> g' e | Inr a \<Rightarrow> f' a)"
  by (cases x) auto

lemma alike_case_prod [alike_intros]:
  "(\<And>a b. alike (f a b) (f' a b)) \<Longrightarrow> alike (case x of (a, b) \<Rightarrow> f a b) (case x of (a, b) \<Rightarrow> f' a b)"
  by (cases x) auto

section \<open>Logs only grow\<close>

text \<open>
  What an action does and logs does not depend on what has been logged before, so the log of a
  composition is the concatenation of the logs of its parts.
\<close>

definition appends :: "('w \<times> 'e list, 'x, 'a) eact \<Rightarrow> bool" where
  "appends m \<longleftrightarrow> (\<forall>w l r w' l'. m (w, []) = (r, w', l') \<longrightarrow> m (w, l) = (r, w', l @ l'))"

named_theorems appends_intros \<open>actions that only append to the log\<close>

lemma appendsI: "(\<And>w l r w' l'. m (w, []) = (r, w', l') \<Longrightarrow> m (w, l) = (r, w', l @ l')) \<Longrightarrow> appends m"
  unfolding appends_def by blast

lemma appendsD: "appends m \<Longrightarrow> m (w, []) = (r, w', l') \<Longrightarrow> m (w, l) = (r, w', l @ l')"
  unfolding appends_def by blast

lemma appends_run:
  assumes "appends m" and "m (w, l) = (r, w', l')"
  obtains l1 where "m (w, []) = (r, w', l1)" and "l' = l @ l1"
proof -
  obtain x v l1 where m: "m (w, []) = (x, v, l1)" by (cases "m (w, [])") auto
  show thesis using that [of l1] m assms(2) appendsD [OF assms(1) m, of l] by simp
qed

lemma appends_noted [appends_intros]: "appends (noted ev m)"
  by (rule appendsI) (auto simp: noted_def split: prod.splits)

lemma appends_basic [appends_intros]: "appends (aret a)" "appends (afail e)" "appends (alift r)"
  by (auto intro: appendsI)

lemma appends_amatch [appends_intros]:
  assumes m: "appends m" and f: "\<And>r. appends (f r)"
  shows "appends (amatch m f)"
proof (rule appendsI)
  fix w l r w' l'
  assume run: "amatch m f (w, []) = (r, w', l')"
  obtain x w1 l1 where 1: "m (w, []) = (x, w1, l1)" by (cases "m (w, [])") auto
  then have "f x (w1, l1) = (r, w', l')" using run by (simp add: amatch_def)
  then obtain l2 where "f x (w1, []) = (r, w', l2)" "l' = l1 @ l2" by (rule appends_run [OF f])
  then show "amatch m f (w, l) = (r, w', l @ l')"
    using appendsD [OF m 1] appendsD [OF f] by (simp add: amatch_def)
qed

lemma appends_abind [appends_intros]:
  assumes "appends m" and "\<And>a. appends (f a)"
  shows "appends (abind m f)"
proof -
  have "abind m f = amatch m (\<lambda>r. case r of Inl e \<Rightarrow> afail e | Inr a \<Rightarrow> f a)"
    by (auto simp: abind_def amatch_def fun_eq_iff split: sum.splits prod.splits)
  then show ?thesis using assms by (auto intro!: appends_intros split: sum.split)
qed

lemma appends_if [appends_intros]:
  "(b \<Longrightarrow> appends m) \<Longrightarrow> (\<not> b \<Longrightarrow> appends n) \<Longrightarrow> appends (if b then m else n)"
  by simp

lemma appends_case_sum [appends_intros]:
  "(\<And>e. appends (g e)) \<Longrightarrow> (\<And>a. appends (f a)) \<Longrightarrow> appends (case x of Inl e \<Rightarrow> g e | Inr a \<Rightarrow> f a)"
  by (cases x) auto

lemma appends_case_prod [appends_intros]: "(\<And>a b. appends (f a b)) \<Longrightarrow> appends (case x of (a, b) \<Rightarrow> f a b)"
  by (cases x) auto

text \<open>The two parts of a composition that returned.\<close>

lemma appends_abind_run:
  assumes "appends m" and "\<And>a. appends (f a)" and "abind m f (w, []) = (Inr b, w', l)"
  obtains a w1 l1 l2 where "m (w, []) = (Inr a, w1, l1)" "f a (w1, []) = (Inr b, w', l2)" "l = l1 @ l2"
proof -
  obtain a w1 l1 where m: "m (w, []) = (Inr a, w1, l1)" and "f a (w1, l1) = (Inr b, w', l)"
    using assms(3) by auto
  then show thesis using that appends_run [OF assms(2)] by metis
qed

end
