(* ===== verification/Policy_Store.thy ===== *)
theory Policy_Store
  imports Policy_Model Model Actions
begin

text \<open>
  The clean policy store over the file system (\<open>clean_policy/macos.rs\<close>): reading the policy,
  replacing it under a lock, and the public operations. The operating system, the JSON and the
  digest library are the fields of a record over the state \<open>'w\<close> of the outside world, which
  other processes may change between any two calls. A call is a function from the state to its
  outcome and the next state. Descriptors are numbers; the only drop that has an effect the store
  relies on is the one of the lock file, which releases the lock.
\<close>

section \<open>The outside world\<close>

datatype node_type = FtFile | FtDirectory | FtSymlink | FtOther

record file_meta =
  fm_type :: node_type
  fm_dev :: u64
  fm_ino :: u64
  fm_nlink :: u64
  fm_uid :: u32
  fm_mode :: u32
  fm_len :: u64
  fm_modified :: "system_time option"

text \<open>The fields of the native \<open>stat\<close> the store reads, at their macOS widths.\<close>

record native_stat =
  st_dev :: "32 word"
  st_ino :: u64
  st_nlink :: "16 word"
  st_mode :: "16 word"

record 'w policy_os =
  po_current_dir :: "('w, path) act"
  po_lstat :: "path \<Rightarrow> ('w, file_meta) act"
  po_exists :: "path \<Rightarrow> 'w \<Rightarrow> bool \<times> 'w"
  po_read :: "path \<Rightarrow> ('w, bytes) act"
  po_create_dir :: "path \<Rightarrow> ('w, unit) act"
  po_set_mode :: "path \<Rightarrow> u32 \<Rightarrow> ('w, unit) act"
  po_open_lock :: "path \<Rightarrow> ('w, fd) act"
  po_file_meta :: "fd \<Rightarrow> ('w, file_meta) act"
  po_flock :: "fd \<Rightarrow> ('w, unit) act"
  po_drop :: "fd \<Rightarrow> 'w \<Rightarrow> 'w"
  po_create_new :: "path \<Rightarrow> ('w, fd) act"
  po_write_all :: "fd \<Rightarrow> bytes \<Rightarrow> ('w, unit) act"
  po_sync_all :: "fd \<Rightarrow> ('w, unit) act"
  po_rename :: "path \<Rightarrow> path \<Rightarrow> ('w, unit) act"
  po_now :: "'w \<Rightarrow> system_time \<times> 'w"
  po_open_dir :: "path \<Rightarrow> ('w, fd) act"
  po_fstat :: "fd \<Rightarrow> ('w, native_stat) act"
  po_openat_dir :: "fd \<Rightarrow> bytes \<Rightarrow> ('w, fd) act"
  po_statat :: "fd \<Rightarrow> bytes \<Rightarrow> ('w, native_stat) act"
  po_env :: "bytes \<Rightarrow> bytes option"
  po_euid :: u32
  po_parse :: "bytes \<Rightarrow> policy_file io_result"
  po_print :: "policy_file \<Rightarrow> bytes io_result"
  po_digest :: "bytes \<Rightarrow> bytes"
  po_dbg :: "bytes \<Rightarrow> bytes"

definition sha256_hex :: "'w policy_os \<Rightarrow> bytes \<Rightarrow> bytes" where
  "sha256_hex os bs = encode_hex (po_digest os bs)"

definition policy_now_ms :: "'w policy_os \<Rightarrow> ('w, u64) act" where
  "policy_now_ms os w =
     (case po_now os w of
        (t, w') \<Rightarrow>
          (if t < 0 then Inl (Io OtherKind ''clock before epoch'')
           else if t div 1000000 < 18446744073709551616 then Inr (word_of_int (t div 1000000))
           else Inl (Io OtherKind ''out of range integral type conversion attempted''), w'))"

definition system_time_ms :: "system_time option \<Rightarrow> u64 option" where
  "system_time_ms t =
     (case t of
        None \<Rightarrow> None
      | Some s \<Rightarrow>
          if s < 0 \<or> 18446744073709551616 \<le> s div 1000000 then None
          else Some (word_of_int (s div 1000000)))"

definition identity_from_meta :: "file_meta \<Rightarrow> unix_identity" where
  "identity_from_meta m = \<lparr>ui_device = fm_dev m, ui_inode = fm_ino m\<rparr>"

definition path_identity :: "'w policy_os \<Rightarrow> path \<Rightarrow> ('w, unix_identity) act" where
  "path_identity os p = abind (po_lstat os p) (\<lambda>m. aret (identity_from_meta m))"

definition not_found :: "io_error \<Rightarrow> bool" where
  "not_found e = (case e of Io NotFoundKind _ \<Rightarrow> True | _ \<Rightarrow> False)"

section \<open>Paths of the caller\<close>

definition os_absolute :: "'w policy_os \<Rightarrow> path \<Rightarrow> ('w, path) act" where
  "os_absolute os p =
     (if p = [] then afail (Io InvalidInput ''cannot make an empty path absolute'')
      else if is_absolute p then aret (absolute_from [] p)
      else abind (po_current_dir os) (\<lambda>dir. aret (absolute_from dir p)))"

definition normalize_root_like_input :: "'w policy_os \<Rightarrow> path \<Rightarrow> ('w, path) act" where
  "normalize_root_like_input os p =
     (if has_parent_dir p then afail (Io InvalidInput ''parent traversal is not accepted'')
      else abind (os_absolute os p) (\<lambda>a.
        if \<not> is_absolute a \<or> parent a = None \<or> contains_nul a
        then afail (Io InvalidInput ''root must be a non-root absolute path'')
        else aret a))"

definition normalize_abs_dir :: "'w policy_os \<Rightarrow> path \<Rightarrow> ('w, path) act" where
  "normalize_abs_dir os p =
     abind (os_absolute os p) (\<lambda>a.
       if \<not> is_absolute a \<or> contains_nul a
       then afail (Io InvalidInput ''config directory must be an absolute path'')
       else aret a)"

definition normalize_existing_root :: "'w policy_os \<Rightarrow> path \<Rightarrow> ('w, path) act" where
  "normalize_existing_root os p =
     abind (normalize_root_like_input os p) (\<lambda>a.
     abind (po_lstat os a) (\<lambda>m.
       if fm_type m \<noteq> FtDirectory
       then afail (Io InvalidInput ''root must be an existing physical directory'')
       else aret a))"

definition policy_file_name :: bytes where
  "policy_file_name = ''exclusions-v1.json''"

definition policy_lock_name :: bytes where
  "policy_lock_name = ''.exclusions-v1.lock''"

definition config_in :: "path \<Rightarrow> config_path" where
  "config_in dir = \<lparr>cf_directory = dir, cf_file = path_join dir policy_file_name\<rparr>"

text \<open>\<open>var_os(name).filter(|value| !value.is_empty())\<close>\<close>

definition env_value :: "'w policy_os \<Rightarrow> bytes \<Rightarrow> bytes option" where
  "env_value os name = (case po_env os name of None \<Rightarrow> None | Some v \<Rightarrow> if v = [] then None else Some v)"

definition resolve_config_path :: "'w policy_os \<Rightarrow> path option \<Rightarrow> ('w, config_path) act" where
  "resolve_config_path os override =
     (case override of
        Some p \<Rightarrow>
          abind (normalize_abs_dir os p) (\<lambda>dir.
          abind (normalize_abs_dir os p) (\<lambda>dir'.
            aret \<lparr>cf_directory = dir, cf_file = path_join dir' policy_file_name\<rparr>))
      | None \<Rightarrow>
     (case env_value os ''SAYAKA_CONFIG_DIR'' of
        Some v \<Rightarrow> abind (normalize_abs_dir os v) (\<lambda>dir. aret (config_in dir))
      | None \<Rightarrow>
     (case env_value os ''XDG_CONFIG_HOME'' of
        Some v \<Rightarrow> abind (normalize_abs_dir os v) (\<lambda>dir. aret (config_in (path_join dir ''sayaka'')))
      | None \<Rightarrow>
     (case env_value os ''HOME'' of
        None \<Rightarrow> afail (Io InvalidInput ''HOME is unavailable'')
      | Some v \<Rightarrow> abind (normalize_abs_dir os v) (\<lambda>dir. aret (config_in (path_join dir ''.config/sayaka'')))))))"


section \<open>Entries below an open root\<close>

record entry_observation =
  eo_device :: u64
  eo_inode :: u64
  eo_nlink :: u64
  eo_kind :: entry_kind

datatype anchored_state = AnPresent entry_observation | AnMissing | AnNeedsAttention

definition observed_identity :: "entry_observation \<Rightarrow> unix_entry_identity" where
  "observed_identity ob = \<lparr>uei_device = eo_device ob, uei_inode = eo_inode ob, uei_kind = eo_kind ob\<rparr>"

text \<open>\<open>match stat.st_mode & S_IFMT\<close> with the macOS values of the file type bits\<close>

definition stat_kind :: "native_stat \<Rightarrow> entry_kind option" where
  "stat_kind st =
     (let ty = and (st_mode st) 61440 in
      if ty = 32768 then Some EkFile else if ty = 16384 then Some EkDirectory else None)"

definition anchored_observation :: "native_stat \<Rightarrow> anchored_state" where
  "anchored_observation st =
     (case stat_kind st of
        None \<Rightarrow> AnNeedsAttention
      | Some k \<Rightarrow> AnPresent \<lparr>eo_device = ucast (st_dev st), eo_inode = st_ino st,
          eo_nlink = ucast (st_nlink st), eo_kind = k\<rparr>)"

definition anchored_error :: "bool \<Rightarrow> io_error \<Rightarrow> ('w, anchored_state) act" where
  "anchored_error require_exists e =
     (if not_found e then
        (if require_exists then afail (Io InvalidInput ''entry must be an existing path within root'')
         else aret AnMissing)
      else aret AnNeedsAttention)"

text \<open>Every name but the last is opened as a directory without following a link.\<close>

fun walk_anchored :: "'w policy_os \<Rightarrow> bool \<Rightarrow> fd \<Rightarrow> bytes list \<Rightarrow> ('w, anchored_state) act" where
  "walk_anchored os req cur [] = aret AnMissing"
| "walk_anchored os req cur [name] =
     amatch (po_statat os cur name) (\<lambda>r.
       case r of Inl e \<Rightarrow> anchored_error req e | Inr st \<Rightarrow> aret (anchored_observation st))"
| "walk_anchored os req cur (name # next # names) =
     amatch (po_openat_dir os cur name) (\<lambda>r.
       case r of Inl e \<Rightarrow> anchored_error req e | Inr fd \<Rightarrow> walk_anchored os req fd (next # names))"

fun normal_names :: "component list \<Rightarrow> bytes list option" where
  "normal_names [] = Some []"
| "normal_names (Normal s # cs) = map_option (Cons s) (normal_names cs)"
| "normal_names (_ # cs) = None"

definition inspect_anchored_from_fd ::
  "'w policy_os \<Rightarrow> fd \<Rightarrow> path \<Rightarrow> bool \<Rightarrow> ('w, anchored_state) act" where
  "inspect_anchored_from_fd os root_fd relative req =
     (case normal_names (components relative) of
        None \<Rightarrow> afail (Io InvalidInput ''entry must be a clean relative path'')
      | Some names \<Rightarrow>
          if names = [] then afail (Io InvalidInput ''entry must not be the root itself'')
          else walk_anchored os req root_fd names)"

definition stat_identity :: "native_stat \<Rightarrow> unix_identity" where
  "stat_identity st = \<lparr>ui_device = ucast (st_dev st), ui_inode = st_ino st\<rparr>"

definition inspect_anchored_entry ::
  "'w policy_os \<Rightarrow> path \<Rightarrow> path \<Rightarrow> bool \<Rightarrow> ('w, anchored_state) act" where
  "inspect_anchored_entry os root relative req =
     abind (po_open_dir os root) (\<lambda>root_fd.
     abind (po_lstat os root) (\<lambda>root_meta.
     abind (po_fstat os root_fd) (\<lambda>observed.
       if stat_identity observed \<noteq> identity_from_meta root_meta
       then afail (Io PermissionDeniedKind ''root identity changed during policy operation'')
       else inspect_anchored_from_fd os root_fd relative req)))"

section \<open>Entries of the caller\<close>

definition outside_root :: "path \<Rightarrow> path \<Rightarrow> bool" where
  "outside_root root a \<longleftrightarrow> has_parent_dir a \<or> \<not> starts_with a root \<or> path_eq a root"

text \<open>\<open>strip_prefix(root).map_err(io::Error::other)?\<close>\<close>

definition relative_to :: "path \<Rightarrow> path \<Rightarrow> path io_result" where
  "relative_to root a = ok_or (Io OtherKind ''prefix not found'') (strip_prefix a root)"

definition normalize_entry_inside_root :: "'w policy_os \<Rightarrow> path \<Rightarrow> path \<Rightarrow> ('w, path) act" where
  "normalize_entry_inside_root os root v =
     abind (os_absolute os v) (\<lambda>a.
       if outside_root root a
       then afail (Io InvalidInput ''entry must be an existing path within root'')
       else abind (alift (relative_to root a)) (\<lambda>relative.
            abind (inspect_anchored_entry os root relative True) (\<lambda>st.
              case st of
                AnPresent _ \<Rightarrow> aret a
              | _ \<Rightarrow> afail (Io InvalidInput ''entry must be an existing path within root''))))"

definition normalize_remove_entry :: "'w policy_os \<Rightarrow> path \<Rightarrow> path \<Rightarrow> ('w, bytes) act" where
  "normalize_remove_entry os root entry =
     (if is_absolute entry then
        abind (os_absolute os entry) (\<lambda>a.
          if outside_root root a then afail (Io InvalidInput ''entry must be within root'')
          else abind (alift (relative_to root a)) (\<lambda>relative.
               abind (inspect_anchored_entry os root relative False) (\<lambda>st.
                 case st of
                   AnNeedsAttention \<Rightarrow>
                     afail (Io InvalidInput ''entry must be a physical path within root'')
                 | _ \<Rightarrow> alift (normalize_literal_relative relative))))
      else alift (normalize_literal_relative entry))"

section \<open>Evaluating the entries of a root\<close>

fun evaluate_loop ::
  "'w policy_os \<Rightarrow> path \<Rightarrow> path list \<Rightarrow> path list \<Rightarrow> entry_record list
     \<Rightarrow> ('w, path list \<times> path list) act" where
  "evaluate_loop os root_path effective missing [] = aret (effective, missing)"
| "evaluate_loop os root_path effective missing (e # es) =
     abind (alift (decode_relative (en_literal_relative_path e))) (\<lambda>relative.
     abind (inspect_anchored_entry os root_path relative False) (\<lambda>st.
       if (case st of AnPresent ob \<Rightarrow> observed_identity ob = en_entry_identity e | _ \<Rightarrow> False)
       then evaluate_loop os root_path (effective @ [path_join root_path relative]) missing es
       else evaluate_loop os root_path effective (missing @ [path_join root_path relative]) es))"

definition evaluate_entries ::
  "'w policy_os \<Rightarrow> policy_root \<Rightarrow> path \<Rightarrow> unix_identity \<Rightarrow> ('w, path list \<times> path list) act" where
  "evaluate_entries os root root_path identity =
     (if ro_root_identity root \<noteq> identity
      then afail (Io PermissionDeniedKind ''stored root identity does not match current root identity'')
      else evaluate_loop os root_path [] [] (ro_entries root))"

section \<open>Reading the policy\<close>

definition verify_ancestors :: "'w policy_os \<Rightarrow> path list \<Rightarrow> ('w, unit) act" where
  "verify_ancestors os ps =
     foldr (\<lambda>p rest. abind (po_lstat os p) (\<lambda>m.
       if fm_type m = FtSymlink
       then afail (Io PermissionDeniedKind ''config path must not traverse symlinks'')
       else rest)) ps (aret ())"

definition private_mode :: "'w policy_os \<Rightarrow> file_meta \<Rightarrow> bool" where
  "private_mode os m \<longleftrightarrow> fm_uid m = po_euid os \<and> and (fm_mode m) 63 = 0"

definition verify_private_regular_file ::
  "'w policy_os \<Rightarrow> path \<Rightarrow> file_meta \<Rightarrow> ('w, unit) act" where
  "verify_private_regular_file os p m =
     (if fm_type m \<noteq> FtFile \<or> fm_nlink m \<noteq> 1
      then afail (Io PermissionDeniedKind ''clean policy must be a private regular file'')
      else if \<not> private_mode os m
      then afail (Io PermissionDeniedKind ''clean policy must be 0600 and owned by current user'')
      else verify_ancestors os (ancestors p))"

fun first_existing ::
  "'w policy_os \<Rightarrow> path list \<Rightarrow> ('w, path option \<times> unix_identity option) act" where
  "first_existing os [] = aret (None, None)"
| "first_existing os (p # ps) =
     amatch (po_lstat os p) (\<lambda>r.
       case r of
         Inr m \<Rightarrow> aret (Some p, Some (identity_from_meta m))
       | Inl e \<Rightarrow> if not_found e then first_existing os ps else afail e)"

definition nearest_existing_parent ::
  "'w policy_os \<Rightarrow> path \<Rightarrow> ('w, path option \<times> unix_identity option) act" where
  "nearest_existing_parent os p = first_existing os (tl (ancestors p))"

datatype loaded_policy = LoadedAbsent policy_file_state | LoadedPresent policy_file_state policy_file

definition load_policy_readonly :: "'w policy_os \<Rightarrow> config_path \<Rightarrow> ('w, loaded_policy) act" where
  "load_policy_readonly os config =
     (let p = cf_file config in
      amatch (po_lstat os p) (\<lambda>r.
        case r of
          Inl e \<Rightarrow>
            if not_found e then
              abind (nearest_existing_parent os p) (\<lambda>(par, identity).
                aret (LoadedAbsent (FsAbsent p par identity)))
            else afail (Io PermissionDeniedKind (''cannot inspect clean policy file: '' @ io_text e))
        | Inr m \<Rightarrow>
            abind (verify_private_regular_file os p m) (\<lambda>_.
            abind (po_read os p) (\<lambda>bs.
              if max_policy_bytes < int (length bs) then afail (invalid ''clean policy exceeds 64 KiB'')
              else abind (alift (po_parse os bs)) (\<lambda>policy.
                aret (LoadedPresent
                  (FsPresent p (identity_from_meta m) (fm_len m) (system_time_ms (fm_modified m))
                     (sha256_hex os bs)) policy))))))"

section \<open>Snapshots\<close>

definition empty_snapshot :: "policy_file_state \<Rightarrow> policy_snapshot" where
  "empty_snapshot state = \<lparr>ps_file_state = state, ps_root = None,
     ps_effective_exclusions = [], ps_missing_attention_entries = []\<rparr>"

definition snapshot_for_root :: "'w policy_os \<Rightarrow> config_path \<Rightarrow> path \<Rightarrow> ('w, policy_snapshot) act" where
  "snapshot_for_root os config root0 =
     abind (normalize_existing_root os root0) (\<lambda>root.
     abind (path_identity os root) (\<lambda>root_identity.
     abind (load_policy_readonly os config) (\<lambda>loaded.
       case loaded of
         LoadedAbsent state \<Rightarrow> aret (empty_snapshot state)
       | LoadedPresent state policy \<Rightarrow>
           abind (alift (validate_policy policy)) (\<lambda>_.
           abind (alift (select_root_for_execution (po_dbg os) (pf_roots policy) root root_identity)) (\<lambda>selected.
             case selected of
               None \<Rightarrow> aret (empty_snapshot state)
             | Some record \<Rightarrow>
                 abind (evaluate_entries os record root root_identity) (\<lambda>(effective, missing).
                   aret \<lparr>ps_file_state = state, ps_root = Some record,
                     ps_effective_exclusions = effective,
                     ps_missing_attention_entries = missing\<rparr>))))))"

definition guard_snapshot ::
  "'w policy_os \<Rightarrow> config_path \<Rightarrow> path \<Rightarrow> policy_snapshot \<Rightarrow> ('w, policy_guard_status) act" where
  "guard_snapshot os config root expected =
     abind (snapshot_for_root os config root) (\<lambda>current.
       if snapshot_eq current expected then aret GuardUnchanged
       else aret (GuardPolicyRefused
         (policy_change_reason (ps_file_state expected) (ps_file_state current))))"


text \<open>\<open>snapshot_all\<close>: an entry that needs attention in any root refuses the whole snapshot.\<close>

fun collect_all :: "'w policy_os \<Rightarrow> path list \<Rightarrow> policy_root list \<Rightarrow> ('w, path list) act" where
  "collect_all os acc [] = aret acc"
| "collect_all os acc (r # rs) =
     abind (alift (decode_absolute (ro_root_path r))) (\<lambda>p.
     abind (path_identity os p) (\<lambda>identity.
     abind (evaluate_entries os r p identity) (\<lambda>(effective, missing).
       if missing \<noteq> [] then afail (Io OtherKind ''policy_needs_attention'')
       else collect_all os (acc @ effective) rs)))"

definition snapshot_all :: "'w policy_os \<Rightarrow> config_path \<Rightarrow> ('w, global_policy_snapshot) act" where
  "snapshot_all os config =
     abind (load_policy_readonly os config) (\<lambda>loaded.
     abind (case loaded of
         LoadedAbsent state \<Rightarrow> aret (state, [])
       | LoadedPresent state policy \<Rightarrow>
           abind (alift (validate_policy policy)) (\<lambda>_. aret (state, pf_roots policy))) (\<lambda>(state, roots).
     abind (collect_all os [] roots) (\<lambda>effective.
       aret \<lparr>gp_file_state = state, gp_effective_exclusions = effective, gp_roots = roots\<rparr>)))"

definition guard_all :: "'w policy_os \<Rightarrow> config_path \<Rightarrow> global_policy_snapshot \<Rightarrow> ('w, unit) act" where
  "guard_all os config expected =
     abind (snapshot_all os config) (\<lambda>current.
       if \<not> global_snapshot_eq current expected then afail (Io OtherKind ''policy_changed'')
       else aret ())"

text \<open>The entries whose stored path decodes, with that path (\<open>filter_map\<close>).\<close>

definition readable_entries :: "policy_root \<Rightarrow> (entry_record \<times> path) list" where
  "readable_entries r =
     List.map_filter (\<lambda>e. case decode_relative (en_literal_relative_path e) of
         Inr relative \<Rightarrow> Some (e, relative) | Inl _ \<Rightarrow> None) (ro_entries r)"

fun entry_statuses ::
  "'w policy_os \<Rightarrow> path \<Rightarrow> (entry_record \<times> path) list \<Rightarrow> ('w, exclusion_entry_status list) act" where
  "entry_statuses os root [] = aret []"
| "entry_statuses os root ((e, relative) # es) =
     amatch (inspect_anchored_entry os root relative False) (\<lambda>r.
       let attention = (case r of
           Inr (AnPresent ob) \<Rightarrow> observed_identity ob \<noteq> en_entry_identity e
         | _ \<Rightarrow> True) in
       abind (entry_statuses os root es) (\<lambda>rest.
         aret (\<lparr>xs_relative_path = relative, xs_missing_attention = attention\<rparr> # rest)))"

definition managed_snapshot ::
  "'w policy_os \<Rightarrow> path \<Rightarrow> policy_file_state \<Rightarrow> policy_root \<Rightarrow> ('w, policy_snapshot) act" where
  "managed_snapshot os root state record =
     amatch (po_lstat os root) (\<lambda>r.
       abind (case r of
           Inr m \<Rightarrow> evaluate_entries os record root (identity_from_meta m)
         | Inl _ \<Rightarrow> aret ([], map (\<lambda>(_, relative). path_join root relative) (readable_entries record)))
       (\<lambda>(effective, missing).
         aret \<lparr>ps_file_state = state, ps_root = Some record,
           ps_effective_exclusions = effective, ps_missing_attention_entries = missing\<rparr>))"

definition list_root_entries ::
  "'w policy_os \<Rightarrow> config_path \<Rightarrow> path \<Rightarrow> ('w, policy_snapshot \<times> exclusion_entry_status list) act" where
  "list_root_entries os config root0 =
     abind (normalize_root_like_input os root0) (\<lambda>root.
     abind (load_policy_readonly os config) (\<lambda>loaded.
     abind (case loaded of
         LoadedAbsent state \<Rightarrow> aret (empty_snapshot state)
       | LoadedPresent state policy \<Rightarrow>
           abind (alift (validate_policy policy)) (\<lambda>_.
           abind (alift (select_root_for_management (po_dbg os) (pf_roots policy) root)) (\<lambda>selected.
             case selected of
               None \<Rightarrow> aret (empty_snapshot state)
             | Some record \<Rightarrow> managed_snapshot os root state record))) (\<lambda>found.
     abind (case ps_root found of
         None \<Rightarrow> aret []
       | Some record \<Rightarrow> entry_statuses os root (readable_entries record)) (\<lambda>statuses.
       aret (found, statuses)))))"

section \<open>Replacing the policy\<close>

definition ensure_private_config_dir :: "'w policy_os \<Rightarrow> path \<Rightarrow> ('w, unit) act" where
  "ensure_private_config_dir os p =
     (case raw_parent p of
        None \<Rightarrow> afail (Io InvalidInput ''config directory has no parent'')
      | Some par \<Rightarrow>
          abind (atest (po_exists os par)) (\<lambda>there.
            if \<not> there then afail (Io NotFoundKind ''config parent does not exist'')
            else
              abind (abind (atest (po_exists os p)) (\<lambda>present.
                if present then aret ()
                else abind (po_create_dir os p) (\<lambda>_. po_set_mode os p 448))) (\<lambda>_.
              abind (po_lstat os p) (\<lambda>m.
                if fm_type m \<noteq> FtDirectory
                then afail (Io PermissionDeniedKind ''config directory must be a private directory'')
                else if \<not> private_mode os m
                then afail (Io PermissionDeniedKind
                  ''config directory must be 0700 and owned by current user'')
                else aret ()))))"

definition acquire_lock :: "'w policy_os \<Rightarrow> config_path \<Rightarrow> ('w, fd) act" where
  "acquire_lock os config =
     (let p = path_join (cf_directory config) policy_lock_name in
      abind (po_open_lock os p) (\<lambda>lock.
        aon_error
          (abind (po_file_meta os lock) (\<lambda>m.
           abind (verify_private_regular_file os p m) (\<lambda>_.
           amatch (po_flock os lock) (\<lambda>r.
             case r of
               Inl e \<Rightarrow> afail (Io WouldBlockKind (''clean policy lock busy: '' @ io_text e))
             | Inr _ \<Rightarrow> aret lock))))
          (po_drop os lock)))"

definition ensure_expected_observed_state ::
  "'w policy_os \<Rightarrow> config_path \<Rightarrow> loaded_policy \<Rightarrow> ('w, unit) act" where
  "ensure_expected_observed_state os config loaded =
     (let p = cf_file config in
      case loaded of
        LoadedAbsent state \<Rightarrow>
          amatch (po_lstat os p) (\<lambda>r.
            case r of
              Inr _ \<Rightarrow> afail (Io AlreadyExistsKind ''clean policy changed while updating (now present)'')
            | Inl e \<Rightarrow>
                if not_found e then
                  (case state of
                     FsAbsent _ par identity \<Rightarrow>
                       abind (nearest_existing_parent os p) (\<lambda>(par', identity').
                         if \<not> option_path_eq par' par \<or> identity' \<noteq> identity
                         then afail (Io PermissionDeniedKind ''clean policy parent changed while updating'')
                         else aret ())
                   | FsPresent _ _ _ _ _ \<Rightarrow> aret ())
                else afail (Io PermissionDeniedKind
                  (''cannot inspect clean policy before publish: '' @ io_text e)))
      | LoadedPresent state _ \<Rightarrow>
          abind (po_lstat os p) (\<lambda>m.
          abind (verify_private_regular_file os p m) (\<lambda>_.
          abind (po_read os p) (\<lambda>bs.
            case state of
              FsPresent _ identity len _ hash \<Rightarrow>
                if fm_dev m \<noteq> ui_device identity \<or> fm_ino m \<noteq> ui_inode identity \<or> fm_len m \<noteq> len
                   \<or> sha256_hex os bs \<noteq> hash
                then afail (Io AlreadyExistsKind ''clean policy changed while updating'')
                else aret ()
            | FsAbsent _ _ _ \<Rightarrow> afail (invalid ''unexpected absent state for present policy'')))))"

definition stage_path :: "config_path \<Rightarrow> path" where
  "stage_path config = path_join (cf_directory config) ''.exclusions-v1.json.next''"

text \<open>The steps after the staging file was created, while it is open.\<close>

definition publish_stage ::
  "'w policy_os \<Rightarrow> config_path \<Rightarrow> bytes \<Rightarrow> loaded_policy \<Rightarrow> fd \<Rightarrow> ('w, unit) act" where
  "publish_stage os config bs loaded file =
     (let stage = stage_path config in
      abind (po_write_all os file bs) (\<lambda>_.
      abind (po_sync_all os file) (\<lambda>_.
      abind (po_lstat os stage) (\<lambda>m.
      abind (verify_private_regular_file os stage m) (\<lambda>_.
      abind (ensure_expected_observed_state os config loaded) (\<lambda>_.
      abind (po_rename os stage (cf_file config)) (\<lambda>_.
      abind (po_set_mode os (cf_file config) 384) (\<lambda>_.
      abind (po_read os (cf_file config)) (\<lambda>written.
        if sha256_hex os written \<noteq> sha256_hex os bs
        then afail (Io OtherKind ''clean policy readback hash mismatch'')
        else aret ())))))))))"

definition write_policy_atomic ::
  "'w policy_os \<Rightarrow> config_path \<Rightarrow> policy_file \<Rightarrow> loaded_policy \<Rightarrow> ('w, unit) act" where
  "write_policy_atomic os config policy loaded =
     abind (alift (po_print os policy)) (\<lambda>bs.
       if max_policy_bytes < int (length bs) then afail (invalid ''clean policy exceeds 64 KiB'')
       else
         abind (atest (po_exists os (stage_path config))) (\<lambda>stale.
           if stale then afail (Io AlreadyExistsKind ''stale clean policy staging file exists'')
           else
             abind (po_create_new os (stage_path config)) (\<lambda>file.
               afinally (publish_stage os config bs loaded file) (po_drop os file))))"

definition empty_policy :: policy_file where
  "empty_policy = \<lparr>pf_schema_version = policy_schema_version, pf_kind = policy_kind, pf_roots = []\<rparr>"

definition loaded_roots :: "loaded_policy \<Rightarrow> policy_file" where
  "loaded_roots loaded = (case loaded of LoadedAbsent _ \<Rightarrow> empty_policy | LoadedPresent _ policy \<Rightarrow> policy)"

text \<open>
  The updater changes the policy in place; what it also stores in a variable of its caller is
  the other half of its result.
\<close>

definition update_policy ::
  "'w policy_os \<Rightarrow> config_path \<Rightarrow> (policy_file \<Rightarrow> ('w, 'r \<times> policy_file) act) \<Rightarrow> ('w, 'r) act" where
  "update_policy os config updater =
     abind (ensure_private_config_dir os (cf_directory config)) (\<lambda>_.
     abind (acquire_lock os config) (\<lambda>lock.
       afinally
         (abind (load_policy_readonly os config) (\<lambda>loaded.
          abind (updater (loaded_roots loaded)) (\<lambda>(result, policy).
          abind (alift (validate_policy policy)) (\<lambda>_.
          abind (write_policy_atomic os config policy loaded) (\<lambda>_. aret result)))))
         (po_drop os lock)))"


section \<open>Changing the exclusions\<close>

definition ensure_root_record ::
  "'w policy_os \<Rightarrow> policy_file \<Rightarrow> path \<Rightarrow> unix_identity \<Rightarrow> ('w, policy_file \<times> nat) act" where
  "ensure_root_record os f root identity =
     abind (alift (encode_absolute (po_dbg os) root)) (\<lambda>encoded.
     abind (alift (existing_root_record f encoded identity)) (\<lambda>found.
       case found of
         Some r \<Rightarrow> aret r
       | None \<Rightarrow> abind (policy_now_ms os) (\<lambda>now. aret (push_root_record f encoded identity now))))"

text \<open>
  One value of \<open>add_entries\<close>: \<open>known\<close> holds the keys of the map \<open>existing\<close>, \<open>es\<close> the entries of
  the record.
\<close>

definition add_entry ::
  "'w policy_os \<Rightarrow> path \<Rightarrow> path \<Rightarrow> bytes set \<times> entry_record list
     \<Rightarrow> ('w, bytes set \<times> entry_record list) act" where
  "add_entry os root v state =
     abind (normalize_entry_inside_root os root v) (\<lambda>a.
     abind (alift (relative_to root a)) (\<lambda>relative.
     abind (inspect_anchored_entry os root relative True) (\<lambda>st.
       case st of
         AnPresent ob \<Rightarrow>
           if eo_kind ob = EkFile \<and> eo_nlink ob \<noteq> 1
           then afail (Io InvalidInput ''hardlink ambiguity is not supported'')
           else if relative \<in> fst state then aret state
           else abind (alift (encode_relative (po_dbg os) relative)) (\<lambda>encoded.
                abind (policy_now_ms os) (\<lambda>now.
                  aret (insert relative (fst state),
                    snd state @ [\<lparr>en_literal_relative_path = encoded,
                      en_entry_identity = observed_identity ob, en_created_unix_ms = now\<rparr>])))
       | _ \<Rightarrow> afail (Io InvalidInput ''entry must be an existing physical path within root''))))"

fun add_each ::
  "'w policy_os \<Rightarrow> path \<Rightarrow> path list \<Rightarrow> bytes set \<times> entry_record list
     \<Rightarrow> ('w, bytes set \<times> entry_record list) act" where
  "add_each os root [] state = aret state"
| "add_each os root (v # vs) state = abind (add_entry os root v state) (add_each os root vs)"

definition add_to_policy ::
  "'w policy_os \<Rightarrow> path \<Rightarrow> unix_identity \<Rightarrow> path list \<Rightarrow> policy_file \<Rightarrow> ('w, unit \<times> policy_file) act" where
  "add_to_policy os root identity vs f =
     abind (ensure_root_record os f root identity) (\<lambda>(g, i).
       let record = pf_roots g ! i in
       abind (alift (traverse (\<lambda>e. decode_relative_bytes (en_literal_relative_path e)) (ro_entries record)))
         (\<lambda>keys.
       abind (add_each os root vs (set keys, ro_entries record)) (\<lambda>(_, es).
       abind (alift (normalize_entries (record\<lparr>ro_entries := es\<rparr>))) (\<lambda>record'.
         aret ((), g\<lparr>pf_roots := (pf_roots g)[i := record']\<rparr>)))))"

definition add_entries ::
  "'w policy_os \<Rightarrow> config_path \<Rightarrow> path \<Rightarrow> path list \<Rightarrow> ('w, unit) act" where
  "add_entries os config root0 vs =
     (if vs = [] then afail (Io InvalidInput ''at least one path is required'')
      else
        abind (normalize_existing_root os root0) (\<lambda>root.
        abind (path_identity os root) (\<lambda>identity.
          update_policy os config (add_to_policy os root identity vs))))"

fun remove_keys :: "'w policy_os \<Rightarrow> path \<Rightarrow> path list \<Rightarrow> ('w, bytes list) act" where
  "remove_keys os root [] = aret []"
| "remove_keys os root (v # vs) =
     abind (normalize_remove_entry os root v) (\<lambda>k.
     abind (remove_keys os root vs) (\<lambda>ks. aret (k # ks)))"

definition remove_entries ::
  "'w policy_os \<Rightarrow> config_path \<Rightarrow> path \<Rightarrow> path list \<Rightarrow> ('w, nat) act" where
  "remove_entries os config root0 vs =
     (if vs = [] then afail (Io InvalidInput ''at least one path is required'')
      else
        abind (normalize_root_like_input os root0) (\<lambda>root.
        abind (remove_keys os root vs) (\<lambda>keys.
          update_policy os config (\<lambda>f. alift (remove_from_policy (po_dbg os) root (set keys) f)))))"

definition remove_root :: "'w policy_os \<Rightarrow> config_path \<Rightarrow> path \<Rightarrow> ('w, bool) act" where
  "remove_root os config root0 =
     abind (normalize_root_like_input os root0) (\<lambda>root.
       update_policy os config (\<lambda>f. alift (remove_root_from_policy (po_dbg os) root f)))"

end
