(* ===== verification/Policy_Protocol.thy ===== *)
theory Policy_Protocol
  imports Policy_Store
begin

text \<open>
  What a change of the clean policy does to the file system, as a protocol over the calls that
  change it. A world is observed by \<open>logged_os\<close>, which runs it unchanged and keeps those calls
  with their outcomes; the protocol is a monitor over the calls; a small program logic
  (\<open>leads\<close>) shows that every change is accepted, whatever the operating system answers.
\<close>

section \<open>Calls that change something\<close>

datatype policy_event =
    PeMkdir path "unit io_result"
  | PeChmod path u32 "unit io_result"
  | PeOpenLock path "fd io_result"
  | PeFlock fd "unit io_result"
  | PeCreate path "fd io_result"
  | PeWrite fd bytes "unit io_result"
  | PeSync fd "unit io_result"
  | PeRename path path "unit io_result"
  | PeDrop fd

definition logged_os :: "'w policy_os \<Rightarrow> ('w \<times> policy_event list) policy_os" where
  "logged_os os = \<lparr>
     po_current_dir = pass (po_current_dir os),
     po_lstat = (\<lambda>p. pass (po_lstat os p)),
     po_exists = (\<lambda>p. pass (po_exists os p)),
     po_read = (\<lambda>p. pass (po_read os p)),
     po_create_dir = (\<lambda>p. noted (PeMkdir p) (po_create_dir os p)),
     po_set_mode = (\<lambda>p n. noted (PeChmod p n) (po_set_mode os p n)),
     po_open_lock = (\<lambda>p. noted (PeOpenLock p) (po_open_lock os p)),
     po_file_meta = (\<lambda>d. pass (po_file_meta os d)),
     po_flock = (\<lambda>d. noted (PeFlock d) (po_flock os d)),
     po_drop = (\<lambda>d s. (po_drop os d (fst s), snd s @ [PeDrop d])),
     po_create_new = (\<lambda>p. noted (PeCreate p) (po_create_new os p)),
     po_write_all = (\<lambda>d bs. noted (PeWrite d bs) (po_write_all os d bs)),
     po_sync_all = (\<lambda>d. noted (PeSync d) (po_sync_all os d)),
     po_rename = (\<lambda>p q. noted (PeRename p q) (po_rename os p q)),
     po_now = pass (po_now os),
     po_open_dir = (\<lambda>p. pass (po_open_dir os p)),
     po_fstat = (\<lambda>d. pass (po_fstat os d)),
     po_openat_dir = (\<lambda>d n. pass (po_openat_dir os d n)),
     po_statat = (\<lambda>d n. pass (po_statat os d n)),
     po_env = po_env os, po_euid = po_euid os, po_parse = po_parse os, po_print = po_print os,
     po_digest = po_digest os, po_dbg = po_dbg os\<rparr>"

section \<open>The monitor\<close>

text \<open>
  \<open>UpOpened\<close>, \<open>UpLocked\<close>: the lock file is open, then locked. \<open>UpStaged\<close>, \<open>UpWritten\<close>,
  \<open>UpSynced\<close>, \<open>UpRenamed\<close>, \<open>UpPublished\<close>: the staging file is open as well, and how far it got.
  \<open>UpClosing ds\<close>: nothing but the drops of \<open>ds\<close> may follow. \<open>UpReleasing\<close>, \<open>UpCommitted\<close>: the new
  policy is in place; the lock is held, then free.
\<close>

datatype update_phase = UpStart | UpMade | UpReady | UpOpened fd | UpLocked fd
  | UpStaged fd fd | UpWritten fd fd bytes | UpSynced fd fd bytes | UpRenamed fd fd bytes
  | UpPublished fd fd bytes | UpReleasing fd bytes | UpCommitted bytes | UpClosing "fd list"

definition on_ok :: "'a io_result \<Rightarrow> ('a \<Rightarrow> update_phase) \<Rightarrow> fd list \<Rightarrow> update_phase" where
  "on_ok r ph ds = (case r of Inr a \<Rightarrow> ph a | Inl _ \<Rightarrow> UpClosing ds)"

definition up_step ::
  "config_path \<Rightarrow> (bytes \<Rightarrow> bool) \<Rightarrow> update_phase \<Rightarrow> policy_event \<Rightarrow> update_phase option" where
  "up_step c good ph ev =
     (case ev of
        PeMkdir p r \<Rightarrow>
          if ph = UpStart \<and> p = cf_directory c then Some (on_ok r (\<lambda>_. UpMade) []) else None
      | PeChmod p n r \<Rightarrow>
          (case ph of
             UpMade \<Rightarrow>
               if p = cf_directory c \<and> n = 448 then Some (on_ok r (\<lambda>_. UpReady) []) else None
           | UpRenamed l f bs \<Rightarrow>
               if p = cf_file c \<and> n = 384 then Some (on_ok r (\<lambda>_. UpPublished l f bs) [f, l]) else None
           | _ \<Rightarrow> None)
      | PeOpenLock p r \<Rightarrow>
          if ph \<in> {UpStart, UpReady} \<and> p = path_join (cf_directory c) policy_lock_name
          then Some (on_ok r UpOpened []) else None
      | PeFlock d r \<Rightarrow> if ph = UpOpened d then Some (on_ok r (\<lambda>_. UpLocked d) [d]) else None
      | PeCreate p r \<Rightarrow>
          (case ph of
             UpLocked l \<Rightarrow> if p = stage_path c then Some (on_ok r (UpStaged l) [l]) else None
           | _ \<Rightarrow> None)
      | PeWrite d bs r \<Rightarrow>
          (case ph of
             UpStaged l f \<Rightarrow>
               if d = f \<and> good bs then Some (on_ok r (\<lambda>_. UpWritten l f bs) [f, l]) else None
           | _ \<Rightarrow> None)
      | PeSync d r \<Rightarrow>
          (case ph of
             UpWritten l f bs \<Rightarrow>
               if d = f then Some (on_ok r (\<lambda>_. UpSynced l f bs) [f, l]) else None
           | _ \<Rightarrow> None)
      | PeRename p q r \<Rightarrow>
          (case ph of
             UpSynced l f bs \<Rightarrow>
               if p = stage_path c \<and> q = cf_file c
               then Some (on_ok r (\<lambda>_. UpRenamed l f bs) [f, l]) else None
           | _ \<Rightarrow> None)
      | PeDrop d \<Rightarrow>
          (case ph of
             UpOpened l \<Rightarrow> if d = l then Some (UpClosing []) else None
           | UpLocked l \<Rightarrow> if d = l then Some (UpClosing []) else None
           | UpSynced l f bs \<Rightarrow> if d = f then Some (UpClosing [l]) else None
           | UpPublished l f bs \<Rightarrow> if d = f then Some (UpReleasing l bs) else None
           | UpReleasing l bs \<Rightarrow> if d = l then Some (UpCommitted bs) else None
           | UpClosing (x # xs) \<Rightarrow> if d = x then Some (UpClosing xs) else None
           | _ \<Rightarrow> None))"

abbreviation up_run ::
  "config_path \<Rightarrow> (bytes \<Rightarrow> bool) \<Rightarrow> update_phase \<Rightarrow> policy_event list \<Rightarrow> update_phase option" where
  "up_run c good \<equiv> trace_run (up_step c good)"

text \<open>A policy that is valid and fits is the only thing ever written.\<close>

definition good_policy_bytes :: "'w policy_os \<Rightarrow> bytes \<Rightarrow> bool" where
  "good_policy_bytes os bs \<longleftrightarrow>
     (\<exists>f. policy_ok f \<and> po_print os f = Inr bs \<and> int (length bs) \<le> max_policy_bytes)"

fun no_descriptor :: "update_phase \<Rightarrow> bool" where
  "no_descriptor UpStart = True"
| "no_descriptor UpReady = True"
| "no_descriptor (UpCommitted bs) = True"
| "no_descriptor (UpClosing ds) = (ds = [])"
| "no_descriptor _ = False"

text \<open>
  A run of a change: its calls follow the protocol, no descriptor stays open, and a success
  means that a new policy is in place.
\<close>

definition follows_protocol ::
  "'w policy_os \<Rightarrow> config_path \<Rightarrow> 'r io_result \<times> 'w \<times> policy_event list \<Rightarrow> bool" where
  "follows_protocol os c out \<longleftrightarrow>
     (case out of (r, w, l) \<Rightarrow>
        (case up_run c (good_policy_bytes os) UpStart l of
           None \<Rightarrow> False
         | Some ph \<Rightarrow> no_descriptor ph \<and> (isl r \<or> (\<exists>bs. ph = UpCommitted bs \<and> good_policy_bytes os bs))))"

section \<open>Calls that change nothing\<close>

lemma quiet_reads [quiet_intros]:
  "quiet (po_current_dir (logged_os os))" "quiet (po_lstat (logged_os os) p)"
  "quiet (atest (po_exists (logged_os os) p))" "quiet (po_read (logged_os os) p)"
  "quiet (po_file_meta (logged_os os) d)" "quiet (po_open_dir (logged_os os) p)"
  "quiet (po_fstat (logged_os os) d)" "quiet (po_openat_dir (logged_os os) d n)"
  "quiet (po_statat (logged_os os) d n)"
  by (simp_all add: logged_os_def quiet_pass quiet_atest)

lemma quiet_now [quiet_intros]: "quiet (policy_now_ms (logged_os os))"
  by (simp add: quiet_def policy_now_ms_def logged_os_def pass_def split: prod.splits)

lemma quiet_case_anchored [quiet_intros]:
  "(\<And>ob. quiet (f ob)) \<Longrightarrow> quiet m \<Longrightarrow> quiet n \<Longrightarrow>
     quiet (case x of AnPresent ob \<Rightarrow> f ob | AnMissing \<Rightarrow> m | AnNeedsAttention \<Rightarrow> n)"
  by (cases x) auto

lemma quiet_case_loaded [quiet_intros]:
  "(\<And>st. quiet (f st)) \<Longrightarrow> (\<And>st p. quiet (g st p)) \<Longrightarrow>
     quiet (case x of LoadedAbsent st \<Rightarrow> f st | LoadedPresent st p \<Rightarrow> g st p)"
  by (cases x) auto

lemma quiet_case_state [quiet_intros]:
  "(\<And>p q i. quiet (f p q i)) \<Longrightarrow> (\<And>p i n m h. quiet (g p i n m h)) \<Longrightarrow>
     quiet (case x of FsAbsent p q i \<Rightarrow> f p q i | FsPresent p i n m h \<Rightarrow> g p i n m h)"
  by (cases x) auto

lemma quiet_os_absolute [quiet_intros]: "quiet (os_absolute (logged_os os) p)"
  unfolding os_absolute_def by (intro quiet_intros)

lemma quiet_root_input [quiet_intros]: "quiet (normalize_root_like_input (logged_os os) p)"
  unfolding normalize_root_like_input_def by (intro quiet_intros)

lemma quiet_existing_root [quiet_intros]: "quiet (normalize_existing_root (logged_os os) p)"
  unfolding normalize_existing_root_def by (intro quiet_intros)

lemma quiet_path_identity [quiet_intros]: "quiet (path_identity (logged_os os) p)"
  unfolding path_identity_def by (intro quiet_intros)

lemma quiet_anchored_error [quiet_intros]: "quiet (anchored_error req e)"
  unfolding anchored_error_def by (intro quiet_intros)

lemma quiet_walk [quiet_intros]: "quiet (walk_anchored (logged_os os) req d names)"
  by (induction "logged_os os" req d names rule: walk_anchored.induct)
     (simp_all add: quiet_intros split: sum.splits)

lemma quiet_inspect [quiet_intros]: "quiet (inspect_anchored_entry (logged_os os) root r req)"
  unfolding inspect_anchored_entry_def inspect_anchored_from_fd_def by (intro quiet_intros)

lemma quiet_entry_inside [quiet_intros]: "quiet (normalize_entry_inside_root (logged_os os) root v)"
  unfolding normalize_entry_inside_root_def by (intro quiet_intros)

lemma quiet_remove_entry [quiet_intros]: "quiet (normalize_remove_entry (logged_os os) root v)"
  unfolding normalize_remove_entry_def by (intro quiet_intros)

lemma quiet_remove_keys [quiet_intros]: "quiet (remove_keys (logged_os os) root vs)"
  by (induction vs) (auto intro!: quiet_intros simp del: act_simps)

lemma quiet_verify_ancestors [quiet_intros]: "quiet (verify_ancestors (logged_os os) ps)"
  by (induction ps) (auto simp: verify_ancestors_def intro!: quiet_intros simp del: act_simps)

lemma quiet_verify [quiet_intros]: "quiet (verify_private_regular_file (logged_os os) p m)"
  unfolding verify_private_regular_file_def by (intro quiet_intros)

lemma quiet_first_existing [quiet_intros]: "quiet (first_existing (logged_os os) ps)"
  by (induction ps) (auto intro!: quiet_intros simp del: act_simps)

lemma quiet_nearest [quiet_intros]: "quiet (nearest_existing_parent (logged_os os) p)"
  unfolding nearest_existing_parent_def by (intro quiet_intros)

lemma quiet_load [quiet_intros]: "quiet (load_policy_readonly (logged_os os) c)"
  unfolding load_policy_readonly_def Let_def by (intro quiet_intros)

lemma quiet_expected [quiet_intros]: "quiet (ensure_expected_observed_state (logged_os os) c loaded)"
  unfolding ensure_expected_observed_state_def Let_def by (intro quiet_intros)

lemma quiet_ensure_root [quiet_intros]: "quiet (ensure_root_record (logged_os os) f root i)"
  unfolding ensure_root_record_def by (intro quiet_intros)

lemma quiet_add_entry [quiet_intros]: "quiet (add_entry (logged_os os) root v st)"
  unfolding add_entry_def by (intro quiet_intros)

lemma quiet_add_each [quiet_intros]: "quiet (add_each (logged_os os) root vs st)"
  by (induction vs arbitrary: st) (auto intro!: quiet_intros simp del: act_simps)

lemma quiet_add_to_policy [quiet_intros]: "quiet (add_to_policy (logged_os os) root i vs f)"
  unfolding add_to_policy_def Let_def by (intro quiet_intros)


section \<open>Calls under the monitor\<close>

text \<open>A call the monitor watches, before the rest.\<close>

lemma leads_call:
  assumes "\<And>r. up_step c good ph (ev r) = Some (on_ok r after ds)"
    and "\<And>e. Q (Inl e) (UpClosing ds)" and "\<And>a. leads (up_step c good) UpStart (after a) (f a) Q"
  shows "leads (up_step c good) UpStart ph (abind (noted ev m) f) Q"
proof (rule leads_abind)
  show "leads (up_step c good) UpStart ph (noted ev m) (\<lambda>r ph'. ph' = on_ok r after ds)"
    by (rule leads_noted) (auto simp: assms(1))
qed (use assms in \<open>auto simp: on_ok_def\<close>)

lemma logged_drop: "po_drop (logged_os os) d = released (PeDrop d) (po_drop os d)"
  by (simp add: logged_os_def released_def fun_eq_iff)

lemma leads_finally:
  assumes "leads (up_step c good) UpStart ph m (\<lambda>r ph'. \<exists>ph''. up_step c good ph' (PeDrop d) = Some ph'' \<and> Q r ph'')"
  shows "leads (up_step c good) UpStart ph (afinally m (po_drop (logged_os os) d)) Q"
  unfolding logged_drop by (rule leads_released_finally) (rule assms)

lemma leads_on_error:
  assumes "leads (up_step c good) UpStart ph m (\<lambda>r ph'. case r of
      Inr a \<Rightarrow> Q (Inr a) ph'
    | Inl e \<Rightarrow> \<exists>ph''. up_step c good ph' (PeDrop d) = Some ph'' \<and> Q (Inl e) ph'')"
  shows "leads (up_step c good) UpStart ph (aon_error m (po_drop (logged_os os) d)) Q"
  unfolding logged_drop by (rule leads_released_on_error) (rule assms)

section \<open>The steps of a change\<close>

lemma logged_calls:
  "po_create_dir (logged_os os) p = noted (PeMkdir p) (po_create_dir os p)"
  "po_set_mode (logged_os os) p n = noted (PeChmod p n) (po_set_mode os p n)"
  "po_open_lock (logged_os os) p = noted (PeOpenLock p) (po_open_lock os p)"
  "po_flock (logged_os os) d = noted (PeFlock d) (po_flock os d)"
  "po_create_new (logged_os os) p = noted (PeCreate p) (po_create_new os p)"
  "po_write_all (logged_os os) d bs = noted (PeWrite d bs) (po_write_all os d bs)"
  "po_sync_all (logged_os os) d = noted (PeSync d) (po_sync_all os d)"
  "po_rename (logged_os os) p q = noted (PeRename p q) (po_rename os p q)"
  by (simp_all add: logged_os_def)

lemma logged_library [simp]:
  "po_print (logged_os os) = po_print os" "po_parse (logged_os os) = po_parse os"
  "sha256_hex (logged_os os) = sha256_hex os" "po_dbg (logged_os os) = po_dbg os"
  by (simp_all add: logged_os_def sha256_hex_def fun_eq_iff)


definition dir_ready :: "unit io_result \<Rightarrow> update_phase \<Rightarrow> bool" where
  "dir_ready r ph \<longleftrightarrow> (if isl r then no_descriptor ph else ph = UpStart \<or> ph = UpReady)"

lemma dir_ready_simps [simp]:
  "dir_ready (Inl e) ph \<longleftrightarrow> no_descriptor ph"
  "dir_ready (Inr u) ph \<longleftrightarrow> ph = UpStart \<or> ph = UpReady"
  by (simp_all add: dir_ready_def)

lemma leads_make_dir:
  "leads (up_step c good) UpStart UpStart (abind (po_create_dir (logged_os os) (cf_directory c))
     (\<lambda>_. po_set_mode (logged_os os) (cf_directory c) 448)) dir_ready"
  unfolding logged_calls
proof (rule leads_call [where after = "\<lambda>_. UpMade" and ds = "[]"])
  show "leads (up_step c good) UpStart UpMade (noted (PeChmod (cf_directory c) 448) (po_set_mode os (cf_directory c) 448)) dir_ready"
    by (rule leads_noted [where after = "\<lambda>r. on_ok r (\<lambda>_. UpReady) []"])
       (auto simp: up_step_def on_ok_def dir_ready_def split: sum.splits)
qed (simp_all add: up_step_def)

lemma leads_present_dir:
  "leads (up_step c good) UpStart UpStart (abind (atest (po_exists (logged_os os) (cf_directory c))) (\<lambda>present.
     if present then aret ()
     else abind (po_create_dir (logged_os os) (cf_directory c))
       (\<lambda>_. po_set_mode (logged_os os) (cf_directory c) 448))) dir_ready"
  by (rule leads_read) (auto intro: quiet_intros leads_aret leads_make_dir)

lemma leads_check_dir:
  assumes "ph = UpStart \<or> ph = UpReady"
  shows "leads (up_step c good) UpStart ph (abind (po_lstat (logged_os os) p) (\<lambda>m.
     if a m then afail e1 else if b m then afail e2 else aret ())) dir_ready"
  by (rule leads_read) (use assms in \<open>auto intro: quiet_intros leads_aret leads_afail\<close>)

lemma leads_config_dir:
  "leads (up_step c good) UpStart UpStart (ensure_private_config_dir (logged_os os) (cf_directory c)) dir_ready"
proof (cases "raw_parent (cf_directory c)")
  case None
  then show ?thesis by (auto simp: ensure_private_config_dir_def intro!: leads_afail)
next
  case (Some par)
  show ?thesis
    unfolding ensure_private_config_dir_def Some option.case
  proof (rule leads_read, goal_cases)
    case (3 there)
    show ?case
      by (cases there)
         (auto intro!: leads_afail leads_abind [OF leads_present_dir] leads_check_dir)
  qed (simp_all add: quiet_intros)
qed


definition lock_taken :: "fd io_result \<Rightarrow> update_phase \<Rightarrow> bool" where
  "lock_taken r ph \<longleftrightarrow> ph = on_ok r UpLocked []"

lemma leads_lock:
  assumes "ph = UpStart \<or> ph = UpReady"
  shows "leads (up_step c good) UpStart ph (acquire_lock (logged_os os) c) lock_taken"
  unfolding acquire_lock_def Let_def logged_calls
proof (rule leads_call [where after = UpOpened and ds = "[]"])
  fix l
  let ?P = "\<lambda>r ph'. case r of
      Inr a \<Rightarrow> lock_taken (Inr a) ph'
    | Inl e \<Rightarrow> \<exists>ph''. up_step c good ph' (PeDrop l) = Some ph'' \<and> lock_taken (Inl e) ph''"
  have flock: "leads (up_step c good) UpStart (UpOpened l) (amatch (noted (PeFlock l) (po_flock os l)) (\<lambda>r.
      case r of Inl e \<Rightarrow> afail (f e) | Inr _ \<Rightarrow> aret l)) ?P" for f
  proof (rule leads_amatch)
    show "leads (up_step c good) UpStart (UpOpened l) (noted (PeFlock l) (po_flock os l))
        (\<lambda>r ph'. ph' = on_ok r (\<lambda>_. UpLocked l) [l])"
      by (rule leads_noted) (simp_all add: up_step_def)
  qed (auto simp: on_ok_def lock_taken_def up_step_def intro: leads_afail leads_aret split: sum.splits)
  have verify: "leads (up_step c good) UpStart (UpOpened l) (abind (verify_private_regular_file (logged_os os) p m) (\<lambda>_. k)) ?P"
    if "leads (up_step c good) UpStart (UpOpened l) k ?P" for p m k
    by (rule leads_read) (use that in \<open>auto simp: up_step_def lock_taken_def on_ok_def intro: quiet_intros\<close>)
  have meta: "leads (up_step c good) UpStart (UpOpened l) (abind (po_file_meta (logged_os os) l) k) ?P"
    if "\<And>m. leads (up_step c good) UpStart (UpOpened l) (k m) ?P" for k
    by (rule leads_read) (use that in \<open>auto simp: up_step_def lock_taken_def on_ok_def intro: quiet_intros\<close>)
  show "leads (up_step c good) UpStart (UpOpened l)
      (aon_error (abind (po_file_meta (logged_os os) l) (\<lambda>m.
         abind (verify_private_regular_file (logged_os os) (path_join (cf_directory c) policy_lock_name) m)
           (\<lambda>_. amatch (noted (PeFlock l) (po_flock os l)) (\<lambda>r.
             case r of Inl e \<Rightarrow> afail (Io WouldBlockKind (''clean policy lock busy: '' @ io_text e))
             | Inr _ \<Rightarrow> aret l)))) (po_drop (logged_os os) l)) lock_taken"
    by (rule leads_on_error) (rule meta, rule verify, rule flock)
qed (use assms in \<open>auto simp: up_step_def lock_taken_def on_ok_def\<close>)

text \<open>
  What the staging leaves when its descriptor is dropped: the lock is all that is open, or the
  new policy is in place.
\<close>

definition stage_left :: "fd \<Rightarrow> fd \<Rightarrow> bytes \<Rightarrow> unit io_result \<Rightarrow> update_phase \<Rightarrow> bool" where
  "stage_left l f bs r ph \<longleftrightarrow>
     ph = UpPublished l f bs \<or> isl r \<and> (ph = UpClosing [f, l] \<or> ph = UpSynced l f bs)"

lemma leads_publish:
  assumes "good bs"
  shows "leads (up_step c good) UpStart (UpStaged l f) (publish_stage (logged_os os) c bs loaded f) (stage_left l f bs)"
proof -
  let ?Q = "stage_left l f bs"
  have readback: "leads (up_step c good) UpStart (UpPublished l f bs) (abind (po_read (logged_os os) p) (\<lambda>written.
      if a written then afail e else aret ())) ?Q" for p a e
    by (rule leads_read) (auto simp: stage_left_def intro: quiet_intros leads_afail leads_aret)
  have chmod: "leads (up_step c good) UpStart (UpRenamed l f bs) (abind (noted (PeChmod (cf_file c) 384) m) (\<lambda>_. k)) ?Q"
    if "leads (up_step c good) UpStart (UpPublished l f bs) k ?Q" for m k
    by (rule leads_call [where after = "\<lambda>_. UpPublished l f bs" and ds = "[f, l]"])
       (use that in \<open>auto simp: up_step_def stage_left_def\<close>)
  have rename: "leads (up_step c good) UpStart (UpSynced l f bs)
      (abind (noted (PeRename (stage_path c) (cf_file c)) m) (\<lambda>_. k)) ?Q"
    if "leads (up_step c good) UpStart (UpRenamed l f bs) k ?Q" for m k
    by (rule leads_call [where after = "\<lambda>_. UpRenamed l f bs" and ds = "[f, l]"])
       (use that in \<open>auto simp: up_step_def stage_left_def\<close>)
  have look: "leads (up_step c good) UpStart (UpSynced l f bs) (abind m k) ?Q"
    if "quiet m" "\<And>a. leads (up_step c good) UpStart (UpSynced l f bs) (k a) ?Q" for m :: "(_, 'c) act" and k
    by (rule leads_read) (use that in \<open>auto simp: stage_left_def\<close>)
  have sync: "leads (up_step c good) UpStart (UpWritten l f bs) (abind (noted (PeSync f) m) (\<lambda>_. k)) ?Q"
    if "leads (up_step c good) UpStart (UpSynced l f bs) k ?Q" for m k
    by (rule leads_call [where after = "\<lambda>_. UpSynced l f bs" and ds = "[f, l]"])
       (use that in \<open>auto simp: up_step_def stage_left_def\<close>)
  have wr: "leads (up_step c good) UpStart (UpStaged l f) (abind (noted (PeWrite f bs) m) (\<lambda>_. k)) ?Q"
    if "leads (up_step c good) UpStart (UpWritten l f bs) k ?Q" for m k
    by (rule leads_call [where after = "\<lambda>_. UpWritten l f bs" and ds = "[f, l]"])
       (use that assms in \<open>auto simp: up_step_def stage_left_def\<close>)
  show ?thesis
    unfolding publish_stage_def Let_def logged_calls
    by (intro wr sync rename chmod readback look quiet_intros)
qed


definition write_left :: "(bytes \<Rightarrow> bool) \<Rightarrow> fd \<Rightarrow> 'a io_result \<Rightarrow> update_phase \<Rightarrow> bool" where
  "write_left good l r ph \<longleftrightarrow>
     (\<exists>bs. ph = UpReleasing l bs \<and> good bs) \<or> isl r \<and> (ph = UpLocked l \<or> ph = UpClosing [l])"

lemma leads_stage:
  assumes "good bs"
  shows "leads (up_step c good) UpStart (UpLocked l) (abind (po_create_new (logged_os os) (stage_path c)) (\<lambda>d.
      afinally (publish_stage (logged_os os) c bs loaded d) (po_drop (logged_os os) d))) (write_left good l)"
  unfolding logged_calls
proof (rule leads_call [where after = "UpStaged l" and ds = "[l]"])
  fix d
  show "leads (up_step c good) UpStart (UpStaged l d)
      (afinally (publish_stage (logged_os os) c bs loaded d) (po_drop (logged_os os) d)) (write_left good l)"
  proof (rule leads_finally, rule leads_weaken [OF leads_publish])
    show "good bs" by (rule assms)
    fix r ph
    assume "stage_left l d bs r ph"
    then show "\<exists>ph''. up_step c good ph (PeDrop d) = Some ph'' \<and> write_left good l r ph''"
      using assms by (auto simp: stage_left_def up_step_def write_left_def)
  qed
qed (simp_all add: up_step_def write_left_def)

lemma leads_write:
  assumes "policy_ok f"
  shows "leads (up_step c (good_policy_bytes os)) UpStart (UpLocked l)
     (write_policy_atomic (logged_os os) c f loaded) (write_left (good_policy_bytes os) l)"
proof (cases "po_print os f")
  case (Inl e)
  then show ?thesis
    by (auto simp: write_policy_atomic_def write_left_def abind_def leads_def)
next
  case (Inr bs)
  let ?good = "good_policy_bytes os"
  have fail: "leads (up_step c ?good) UpStart (UpLocked l) (afail e) (write_left ?good l)" for e :: io_error
    by (rule leads_afail) (simp add: write_left_def)
  have fits: "?good bs" if "\<not> max_policy_bytes < int (length bs)"
    using that assms Inr by (auto simp: good_policy_bytes_def)
  have print: "alift (po_print (logged_os os) f) = aret bs"
    by (simp add: Inr alift_def aret_def)
  have bound: "abind (aret bs) k = k bs" for k :: "bytes \<Rightarrow> ('x, unit) act"
    by (simp add: abind_def fun_eq_iff)
  show ?thesis
    unfolding write_policy_atomic_def print bound
  proof (cases "max_policy_bytes < int (length bs)")
    case False
    have "leads (up_step c ?good) UpStart (UpLocked l) (abind (atest (po_exists (logged_os os) (stage_path c))) (\<lambda>stale.
        if stale then afail e
        else abind (po_create_new (logged_os os) (stage_path c)) (\<lambda>d.
          afinally (publish_stage (logged_os os) c bs loaded d) (po_drop (logged_os os) d))))
        (write_left ?good l)" for e
      by (rule leads_read) (auto simp: write_left_def intro!: quiet_intros fail leads_stage fits False)
    then show "leads (up_step c ?good) UpStart (UpLocked l) (if max_policy_bytes < int (length bs)
        then afail (invalid ''clean policy exceeds 64 KiB'')
        else abind (atest (po_exists (logged_os os) (stage_path c))) (\<lambda>stale.
          if stale then afail (Io AlreadyExistsKind ''stale clean policy staging file exists'')
          else abind (po_create_new (logged_os os) (stage_path c)) (\<lambda>d.
            afinally (publish_stage (logged_os os) c bs loaded d) (po_drop (logged_os os) d))))
        (write_left ?good l)" using False by simp
  qed (simp add: fail)
qed

text \<open>A change as a whole, for an updater that changes no file itself.\<close>

definition update_left :: "(bytes \<Rightarrow> bool) \<Rightarrow> 'a io_result \<Rightarrow> update_phase \<Rightarrow> bool" where
  "update_left good r ph \<longleftrightarrow> no_descriptor ph \<and> (isl r \<or> (\<exists>bs. ph = UpCommitted bs \<and> good bs))"

lemma leads_update:
  fixes os :: "'w policy_os"
  assumes "\<And>f. quiet (updater f)"
  shows "leads (up_step c (good_policy_bytes os)) UpStart UpStart (update_policy (logged_os os) c updater)
     (update_left (good_policy_bytes os))"
  unfolding update_policy_def
proof (rule leads_abind [OF leads_config_dir])
  let ?good = "good_policy_bytes os"
  fix u :: unit and ph
  assume "dir_ready (Inr u) ph"
  then have ph: "ph = UpStart \<or> ph = UpReady" by simp
  show "leads (up_step c ?good) UpStart ph (abind (acquire_lock (logged_os os) c) (\<lambda>lock.
      afinally (abind (load_policy_readonly (logged_os os) c) (\<lambda>loaded.
        abind (updater (loaded_roots loaded)) (\<lambda>(result, policy).
        abind (alift (validate_policy policy)) (\<lambda>_.
        abind (write_policy_atomic (logged_os os) c policy loaded) (\<lambda>_. aret result)))))
      (po_drop (logged_os os) lock))) (update_left ?good)"
  proof (rule leads_abind [OF leads_lock [OF ph]])
    fix l ph1
    assume "lock_taken (Inr l) ph1"
    then have ph1: "ph1 = UpLocked l" by (simp add: lock_taken_def on_ok_def)
    have quiet_step: "leads (up_step c ?good) UpStart (UpLocked l) (abind m k) (write_left ?good l)"
      if "quiet m" "\<And>a. leads (up_step c ?good) UpStart (UpLocked l) (k a) (write_left ?good l)"
      for m :: "('w \<times> policy_event list, 'c) act" and k :: "'c \<Rightarrow> ('w \<times> policy_event list, 'b) act"
      by (rule leads_read) (use that in \<open>auto simp: write_left_def\<close>)
    have commit: "leads (up_step c ?good) UpStart (UpLocked l) (abind (alift (validate_policy policy)) (\<lambda>_.
        abind (write_policy_atomic (logged_os os) c policy loaded) (\<lambda>_. aret result)))
        (write_left ?good l)" for policy loaded and result :: 'b
    proof (cases "validate_policy policy")
      case (Inl e)
      then show ?thesis by (auto simp: leads_def abind_def write_left_def)
    next
      case (Inr v)
      then have ok: "policy_ok policy" using validate_policy_iff by simp
      have eq: "abind (alift (validate_policy policy)) (\<lambda>_. k) = k" for k :: "('w \<times> policy_event list, 'b) act"
        by (simp add: Inr abind_def fun_eq_iff)
      show ?thesis
        unfolding eq
        by (rule leads_abind [OF leads_write [OF ok]]) (auto simp: write_left_def intro!: leads_aret)
    qed
    show "leads (up_step c ?good) UpStart ph1 (afinally (abind (load_policy_readonly (logged_os os) c) (\<lambda>loaded.
        abind (updater (loaded_roots loaded)) (\<lambda>(result, policy).
        abind (alift (validate_policy policy)) (\<lambda>_.
        abind (write_policy_atomic (logged_os os) c policy loaded) (\<lambda>_. aret result)))))
      (po_drop (logged_os os) l)) (update_left ?good)"
      unfolding ph1
    proof (rule leads_finally, rule leads_weaken)
      show "leads (up_step c ?good) UpStart (UpLocked l) (abind (load_policy_readonly (logged_os os) c) (\<lambda>loaded.
          abind (updater (loaded_roots loaded)) (\<lambda>(result, policy).
          abind (alift (validate_policy policy)) (\<lambda>_.
          abind (write_policy_atomic (logged_os os) c policy loaded) (\<lambda>_. aret result)))))
          (write_left ?good l)"
        by (intro quiet_step quiet_load assms) (auto intro: commit split: prod.splits)
      fix r :: "'b io_result" and ph2
      assume "write_left ?good l r ph2"
      then show "\<exists>ph''. up_step c ?good ph2 (PeDrop l) = Some ph'' \<and> update_left ?good r ph''"
        by (auto simp: write_left_def up_step_def update_left_def)
    qed
  qed (auto simp: lock_taken_def on_ok_def update_left_def)
qed (auto simp: update_left_def)

lemma leads_follows:
  "leads (up_step c (good_policy_bytes os)) UpStart UpStart m (update_left (good_policy_bytes os)) \<Longrightarrow>
     follows_protocol os c (m (w, []))"
  unfolding follows_protocol_def
  by (cases "m (w, [])") (auto simp: update_left_def dest!: leadsD [where l = "[]"])

end
