(* ===== verification/Policy_Mirror.thy ===== *)
theory Policy_Mirror
  imports Policy_Protocol
begin

text \<open>
  The log of a change of the clean policy is an observation: the logged run has the outcome and
  the state of the plain one. The rules of \<open>alike_intros\<close> follow the actions of the store.
\<close>

section \<open>The actions of the store\<close>

lemma alike_drop: "po_drop (logged_os os) d (w, l) = (po_drop os d w, l @ [PeDrop d])"
  by (simp add: logged_os_def)

lemma alike_finally [alike_intros]:
  assumes "alike m n"
  shows "alike (afinally m (po_drop (logged_os os) d)) (afinally n (po_drop os d))"
proof (rule alikeI)
  fix w r w' l
  assume run: "afinally n (po_drop os d) w = (r, w')"
  obtain x w1 where n: "n w = (x, w1)" by (cases "n w") auto
  obtain l1 where m: "m (w, l) = (x, w1, l1)" using alikeD [OF assms n] by blast
  show "\<exists>l'. afinally m (po_drop (logged_os os) d) (w, l) = (r, w', l')"
    using run m n by (simp add: afinally_def alike_drop)
qed

lemma alike_on_error [alike_intros]:
  assumes "alike m n"
  shows "alike (aon_error m (po_drop (logged_os os) d)) (aon_error n (po_drop os d))"
proof (rule alikeI)
  fix w r w' l
  assume run: "aon_error n (po_drop os d) w = (r, w')"
  obtain x w1 where n: "n w = (x, w1)" by (cases "n w") auto
  obtain l1 where m: "m (w, l) = (x, w1, l1)" using alikeD [OF assms n] by blast
  show "\<exists>l'. aon_error m (po_drop (logged_os os) d) (w, l) = (r, w', l')"
    using run m n by (cases x) (auto simp: aon_error_def alike_drop)
qed

lemma alike_reads [alike_intros]:
  "alike (po_current_dir (logged_os os)) (po_current_dir os)"
  "alike (po_lstat (logged_os os) p) (po_lstat os p)"
  "alike (atest (po_exists (logged_os os) p)) (atest (po_exists os p))"
  "alike (po_read (logged_os os) p) (po_read os p)"
  "alike (po_file_meta (logged_os os) d) (po_file_meta os d)"
  "alike (po_open_dir (logged_os os) p) (po_open_dir os p)"
  "alike (po_fstat (logged_os os) d) (po_fstat os d)"
  "alike (po_openat_dir (logged_os os) d n) (po_openat_dir os d n)"
  "alike (po_statat (logged_os os) d n) (po_statat os d n)"
  by (simp_all add: logged_os_def alike_pass alike_atest)

lemma alike_calls [alike_intros]:
  "alike (po_create_dir (logged_os os) p) (po_create_dir os p)"
  "alike (po_set_mode (logged_os os) p n) (po_set_mode os p n)"
  "alike (po_open_lock (logged_os os) p) (po_open_lock os p)"
  "alike (po_flock (logged_os os) d) (po_flock os d)"
  "alike (po_create_new (logged_os os) p) (po_create_new os p)"
  "alike (po_write_all (logged_os os) d bs) (po_write_all os d bs)"
  "alike (po_sync_all (logged_os os) d) (po_sync_all os d)"
  "alike (po_rename (logged_os os) p q) (po_rename os p q)"
  by (simp_all add: logged_calls alike_noted)

lemma alike_now [alike_intros]: "alike (policy_now_ms (logged_os os)) (policy_now_ms os)"
  by (simp add: alike_def policy_now_ms_def logged_os_def pass_def split: prod.splits)

lemma alike_case_anchored [alike_intros]:
  "(\<And>ob. alike (f ob) (f' ob)) \<Longrightarrow> alike m m' \<Longrightarrow> alike n n' \<Longrightarrow>
     alike (case x of AnPresent ob \<Rightarrow> f ob | AnMissing \<Rightarrow> m | AnNeedsAttention \<Rightarrow> n)
       (case x of AnPresent ob \<Rightarrow> f' ob | AnMissing \<Rightarrow> m' | AnNeedsAttention \<Rightarrow> n')"
  by (cases x) auto

lemma alike_case_loaded [alike_intros]:
  "(\<And>st. alike (f st) (f' st)) \<Longrightarrow> (\<And>st p. alike (g st p) (g' st p)) \<Longrightarrow>
     alike (case x of LoadedAbsent st \<Rightarrow> f st | LoadedPresent st p \<Rightarrow> g st p)
       (case x of LoadedAbsent st \<Rightarrow> f' st | LoadedPresent st p \<Rightarrow> g' st p)"
  by (cases x) auto

lemma alike_case_state [alike_intros]:
  "(\<And>p q i. alike (f p q i) (f' p q i)) \<Longrightarrow> (\<And>p i n m h. alike (g p i n m h) (g' p i n m h)) \<Longrightarrow>
     alike (case x of FsAbsent p q i \<Rightarrow> f p q i | FsPresent p i n m h \<Rightarrow> g p i n m h)
       (case x of FsAbsent p q i \<Rightarrow> f' p q i | FsPresent p i n m h \<Rightarrow> g' p i n m h)"
  by (cases x) auto

lemma private_mode_logged [simp]: "private_mode (logged_os os) = private_mode os"
  by (simp add: private_mode_def logged_os_def fun_eq_iff)

lemma alike_paths [alike_intros]:
  "alike (os_absolute (logged_os os) p) (os_absolute os p)"
  "alike (path_identity (logged_os os) p) (path_identity os p)"
  unfolding os_absolute_def path_identity_def by (intro alike_intros)+

lemma alike_roots [alike_intros]:
  "alike (normalize_root_like_input (logged_os os) p) (normalize_root_like_input os p)"
  "alike (normalize_existing_root (logged_os os) p) (normalize_existing_root os p)"
  unfolding normalize_root_like_input_def normalize_existing_root_def by (intro alike_intros)+

lemma alike_anchored_error [alike_intros]: "alike (anchored_error req e) (anchored_error req e)"
  unfolding anchored_error_def by (intro alike_intros)

lemma alike_walk [alike_intros]:
  "alike (walk_anchored (logged_os os) req d names) (walk_anchored os req d names)"
  by (induction os req d names rule: walk_anchored.induct)
     (auto intro!: alike_intros simp del: act_simps)

lemma alike_inspect [alike_intros]:
  "alike (inspect_anchored_entry (logged_os os) root r req) (inspect_anchored_entry os root r req)"
  unfolding inspect_anchored_entry_def inspect_anchored_from_fd_def by (intro alike_intros)

lemma alike_inputs [alike_intros]:
  "alike (normalize_entry_inside_root (logged_os os) root v) (normalize_entry_inside_root os root v)"
  "alike (normalize_remove_entry (logged_os os) root v) (normalize_remove_entry os root v)"
  unfolding normalize_entry_inside_root_def normalize_remove_entry_def by (intro alike_intros)+

lemma alike_remove_keys [alike_intros]:
  "alike (remove_keys (logged_os os) root vs) (remove_keys os root vs)"
  by (induction vs) (auto intro!: alike_intros simp del: act_simps)

lemma alike_verify_ancestors [alike_intros]:
  "alike (verify_ancestors (logged_os os) ps) (verify_ancestors os ps)"
  by (induction ps) (auto simp: verify_ancestors_def intro!: alike_intros simp del: act_simps)

lemma alike_verify [alike_intros]:
  "alike (verify_private_regular_file (logged_os os) p m) (verify_private_regular_file os p m)"
  unfolding verify_private_regular_file_def private_mode_logged by (intro alike_intros)

lemma alike_first_existing [alike_intros]:
  "alike (first_existing (logged_os os) ps) (first_existing os ps)"
  by (induction ps) (auto intro!: alike_intros simp del: act_simps)

lemma alike_load [alike_intros]:
  "alike (load_policy_readonly (logged_os os) c) (load_policy_readonly os c)"
  unfolding load_policy_readonly_def nearest_existing_parent_def Let_def logged_library
  by (intro alike_intros)

lemma alike_expected [alike_intros]:
  "alike (ensure_expected_observed_state (logged_os os) c loaded)
     (ensure_expected_observed_state os c loaded)"
  unfolding ensure_expected_observed_state_def nearest_existing_parent_def Let_def logged_library
  by (intro alike_intros)

lemma alike_write [alike_intros]:
  "alike (write_policy_atomic (logged_os os) c f loaded) (write_policy_atomic os c f loaded)"
  unfolding write_policy_atomic_def publish_stage_def Let_def logged_library by (intro alike_intros)

lemma alike_update [alike_intros]:
  assumes "\<And>f. alike (u f) (u' f)"
  shows "alike (update_policy (logged_os os) c u) (update_policy os c u')"
  unfolding update_policy_def ensure_private_config_dir_def acquire_lock_def Let_def private_mode_logged
  by (intro alike_intros assms)

lemma alike_add_each [alike_intros]:
  "alike (add_each (logged_os os) root vs st) (add_each os root vs st)"
proof (induction vs arbitrary: st)
  case (Cons v vs)
  then show ?case unfolding add_each.simps add_entry_def logged_library by (intro alike_intros)
qed (auto intro!: alike_intros simp del: act_simps)

lemma alike_changes:
  "alike (add_entries (logged_os os) c root vs) (add_entries os c root vs)"
  "alike (remove_entries (logged_os os) c root vs) (remove_entries os c root vs)"
  "alike (remove_root (logged_os os) c root) (remove_root os c root)"
  unfolding add_entries_def remove_entries_def remove_root_def add_to_policy_def ensure_root_record_def
    Let_def logged_library
  by (intro alike_intros)+

end
