(* ===== verification/Policy_Properties.thy ===== *)
theory Policy_Properties
  imports Policy_Mirror
begin

text \<open>
  Properties of the clean policy store: the wire format, what a snapshot accounts for, what a
  change does to the records, and that every change replaces the file by a valid policy under the
  lock. The demonstrations run the store on a small file system.
\<close>

section \<open>What a snapshot accounts for\<close>

definition unchanged_entry :: "entry_record \<Rightarrow> anchored_state \<Rightarrow> bool" where
  "unchanged_entry e st \<longleftrightarrow>
     (case st of AnPresent ob \<Rightarrow> observed_identity ob = en_entry_identity e | _ \<Rightarrow> False)"

text \<open>\<open>b\<close> tells what a fresh observation of the entry \<open>e\<close> below \<open>root\<close> said.\<close>

definition observed_entry :: "'w policy_os \<Rightarrow> path \<Rightarrow> entry_record \<Rightarrow> bool \<Rightarrow> bool" where
  "observed_entry os root e b \<longleftrightarrow> entry_ok e
     \<and> (\<exists>w w' st. inspect_anchored_entry os root (entry_key e) False w = (Inr st, w')
          \<and> b = unchanged_entry e st)"

definition places :: "path \<Rightarrow> entry_record list \<Rightarrow> bool list \<Rightarrow> path list" where
  "places root es bs = map (\<lambda>(e, b). path_join root (entry_key e)) (filter snd (zip es bs))"

lemma places_simps [simp]:
  "places root [] [] = []"
  "places root (e # es) (b # bs) = (if b then [path_join root (entry_key e)] else []) @ places root es bs"
  by (simp_all add: places_def)

lemma evaluate_loop_spec:
  "evaluate_loop os root eff miss es w = (Inr (eff', miss'), w') \<Longrightarrow>
     \<exists>bs. list_all2 (observed_entry os root) es bs \<and> eff' = eff @ places root es bs
       \<and> miss' = miss @ places root es (map Not bs)"
proof (induction es arbitrary: eff miss w)
  case (Cons e es)
  from Cons.prems obtain st w1 where key: "entry_ok e"
    and st: "inspect_anchored_entry os root (entry_key e) False w = (Inr st, w1)"
    and rest: "(if unchanged_entry e st
      then evaluate_loop os root (eff @ [path_join root (entry_key e)]) miss es
      else evaluate_loop os root eff (miss @ [path_join root (entry_key e)]) es) w1 = (Inr (eff', miss'), w')"
    by (auto simp: decode_relative_eq entry_ok_key unchanged_entry_def)
  have e: "observed_entry os root e (unchanged_entry e st)"
    using key st by (auto simp: observed_entry_def)
  show ?case
  proof (cases "unchanged_entry e st")
    case True
    then obtain bs where "list_all2 (observed_entry os root) es bs"
      "eff' = eff @ places root (e # es) (True # bs)" "miss' = miss @ places root (e # es) (map Not (True # bs))"
      using rest Cons.IH [of "eff @ [path_join root (entry_key e)]" miss w1] by auto
    then show ?thesis using e True by (intro exI [of _ "True # bs"]) simp
  next
    case False
    then obtain bs where "list_all2 (observed_entry os root) es bs"
      "eff' = eff @ places root (e # es) (False # bs)" "miss' = miss @ places root (e # es) (map Not (False # bs))"
      using rest Cons.IH [of eff "miss @ [path_join root (entry_key e)]" w1] by auto
    then show ?thesis using e False by (intro exI [of _ "False # bs"]) simp
  qed
qed simp

lemma evaluate_entries_spec:
  assumes "evaluate_entries os r root identity w = (Inr (eff, miss), w')"
  shows "ro_root_identity r = identity" and "\<exists>bs. list_all2 (observed_entry os root) (ro_entries r) bs
    \<and> eff = places root (ro_entries r) bs \<and> miss = places root (ro_entries r) (map Not bs)"
proof -
  show i: "ro_root_identity r = identity"
    using assms by (auto simp: evaluate_entries_def split: if_splits)
  then show "\<exists>bs. list_all2 (observed_entry os root) (ro_entries r) bs
    \<and> eff = places root (ro_entries r) bs \<and> miss = places root (ro_entries r) (map Not bs)"
    using assms evaluate_loop_spec [of os root "[]" "[]" "ro_entries r" w eff miss w']
    by (simp add: evaluate_entries_def)
qed

lemma select_root_for_execution_spec:
  assumes "select_root_for_execution dbg roots root identity = Inr sel"
  shows "case sel of
      Some r \<Rightarrow> filter (\<lambda>x. ro_root_identity x = identity) roots = [r]
    | None \<Rightarrow> (\<forall>r \<in> set roots. ro_root_identity r \<noteq> identity \<and> ro_root_path r \<noteq> wire_of dbg root)"
  using assms
  by (auto simp: select_root_for_execution_def list_ex_iff encode_absolute_Inr filter_empty_conv
      split: list.splits if_splits)

text \<open>
  What the answer of \<open>snapshot_for_root\<close> says of the policy that was loaded for the directory
  \<open>root\<close> with the identity \<open>identity\<close>.
\<close>

definition snapshot_accounts ::
  "'w policy_os \<Rightarrow> path \<Rightarrow> unix_identity \<Rightarrow> loaded_policy \<Rightarrow> policy_snapshot \<Rightarrow> bool" where
  "snapshot_accounts os root identity loaded s \<longleftrightarrow>
     (case loaded of
        LoadedAbsent state \<Rightarrow> s = empty_snapshot state
      | LoadedPresent state f \<Rightarrow> policy_ok f \<and> ps_file_state s = state
          \<and> (case filter (\<lambda>r. ro_root_identity r = identity) (pf_roots f) of
               [] \<Rightarrow> s = empty_snapshot state
                 \<and> list_all (\<lambda>r. ro_root_path r \<noteq> wire_of (po_dbg os) root) (pf_roots f)
             | r # _ \<Rightarrow> ps_root s = Some r
                 \<and> (\<exists>bs. list_all2 (observed_entry os root) (ro_entries r) bs
                      \<and> ps_effective_exclusions s = places root (ro_entries r) bs
                      \<and> ps_missing_attention_entries s = places root (ro_entries r) (map Not bs))))"

text \<open>C26: A snapshot for a directory that is granted rests on a policy file that was read during
  the call and is valid, or that was seen to be absent. If the policy has a record for the
  identity of the directory, every entry of that record is accounted for exactly once: it is an
  effective exclusion exactly if a fresh look below the opened directory found the same kind,
  device and inode, and it needs attention otherwise. If the policy has no such record, no record
  is stored under the path of the directory either.\<close>

theorem snapshot_accounts_for_every_entry:
  assumes "snapshot_for_root os c root0 w = (Inr s, w')"
  shows "\<exists>root identity loaded w1 w2 w3.
     normalize_existing_root os root0 w = (Inr root, w1) \<and> path_identity os root w1 = (Inr identity, w2)
     \<and> load_policy_readonly os c w2 = (Inr loaded, w3) \<and> snapshot_accounts os root identity loaded s"
proof -
  obtain root w1 identity w2 loaded w4 where root: "normalize_existing_root os root0 w = (Inr root, w1)"
    and identity: "path_identity os root w1 = (Inr identity, w2)"
    and loaded: "load_policy_readonly os c w2 = (Inr loaded, w4)"
    and rest: "(case loaded of
        LoadedAbsent state \<Rightarrow> aret (empty_snapshot state)
      | LoadedPresent state policy \<Rightarrow>
          abind (alift (validate_policy policy)) (\<lambda>_.
          abind (alift (select_root_for_execution (po_dbg os) (pf_roots policy) root identity)) (\<lambda>selected.
            case selected of
              None \<Rightarrow> aret (empty_snapshot state)
            | Some record \<Rightarrow>
                abind (evaluate_entries os record root identity) (\<lambda>(effective, missing).
                  aret \<lparr>ps_file_state = state, ps_root = Some record,
                    ps_effective_exclusions = effective,
                    ps_missing_attention_entries = missing\<rparr>)))) w4 = (Inr s, w')"
    using assms by (auto simp: snapshot_for_root_def)
  have "snapshot_accounts os root identity loaded s"
  proof (cases loaded)
    case (LoadedAbsent state)
    then show ?thesis using rest by (simp add: snapshot_accounts_def)
  next
    case (LoadedPresent state f)
    then obtain sel where ok: "policy_ok f"
      and sel: "select_root_for_execution (po_dbg os) (pf_roots f) root identity = Inr sel"
      and ans: "(case sel of None \<Rightarrow> aret (empty_snapshot state)
        | Some record \<Rightarrow> abind (evaluate_entries os record root identity) (\<lambda>(effective, missing).
            aret \<lparr>ps_file_state = state, ps_root = Some record, ps_effective_exclusions = effective,
              ps_missing_attention_entries = missing\<rparr>)) w4 = (Inr s, w')"
      using rest by (auto simp: validate_policy_iff)
    note found = select_root_for_execution_spec [OF sel]
    show ?thesis
    proof (cases sel)
      case None
      then have "filter (\<lambda>r. ro_root_identity r = identity) (pf_roots f) = []"
        using found by (auto simp: filter_empty_conv)
      then show ?thesis
        using None found ok ans LoadedPresent
        by (auto simp: snapshot_accounts_def list_all_iff empty_snapshot_def)
    next
      case (Some r)
      then obtain eff miss where "evaluate_entries os r root identity w4 = (Inr (eff, miss), w')"
        and s: "s = \<lparr>ps_file_state = state, ps_root = Some r, ps_effective_exclusions = eff,
          ps_missing_attention_entries = miss\<rparr>"
        using ans by auto
      from evaluate_entries_spec(2) [OF this(1)] show ?thesis
        using Some found ok s LoadedPresent by (simp add: snapshot_accounts_def)
    qed
  qed
  then show ?thesis using root identity loaded by blast
qed


section \<open>What adding does\<close>

text \<open>An argument names the entry \<open>k\<close> of the directory.\<close>

definition names_entry :: "'w policy_os \<Rightarrow> path \<Rightarrow> path \<Rightarrow> bytes \<Rightarrow> bool" where
  "names_entry os root v k \<longleftrightarrow>
     (\<exists>w w' a. normalize_entry_inside_root os root v w = (Inr a, w') \<and> strip_prefix a root = Some k)"

text \<open>A new entry: it was seen below the directory with the identity it records, and it is not a
  file with several links.\<close>

definition fresh_entry :: "'w policy_os \<Rightarrow> path \<Rightarrow> path list \<Rightarrow> entry_record \<Rightarrow> bool" where
  "fresh_entry os root vs e \<longleftrightarrow> entry_ok e \<and> list_ex (\<lambda>v. names_entry os root v (entry_key e)) vs
     \<and> (\<exists>w w' ob. inspect_anchored_entry os root (entry_key e) True w = (Inr (AnPresent ob), w')
          \<and> en_entry_identity e = observed_identity ob \<and> (eo_kind ob = EkFile \<longrightarrow> eo_nlink ob = 1))"

lemma add_entry_spec:
  assumes "add_entry os root v (ks, es) w = (Inr (ks', es'), w')"
  shows "\<exists>new k. es' = es @ new \<and> ks' = ks \<union> set (map entry_key new) \<and> names_entry os root v k \<and> k \<in> ks'
     \<and> distinct (map entry_key new) \<and> ks \<inter> set (map entry_key new) = {} \<and> list_all (fresh_entry os root [v]) new"
proof -
  obtain a w1 k w2 st where a: "normalize_entry_inside_root os root v w = (Inr a, w1)"
    and k: "strip_prefix a root = Some k"
    and st: "inspect_anchored_entry os root k True w1 = (Inr st, w2)"
    and rest: "(case st of
        AnPresent ob \<Rightarrow>
          if eo_kind ob = EkFile \<and> eo_nlink ob \<noteq> 1
          then afail (Io InvalidInput ''hardlink ambiguity is not supported'')
          else if k \<in> ks then aret (ks, es)
          else abind (alift (encode_relative (po_dbg os) k)) (\<lambda>encoded.
               abind (policy_now_ms os) (\<lambda>now.
                 aret (insert k ks, es @ [\<lparr>en_literal_relative_path = encoded,
                     en_entry_identity = observed_identity ob, en_created_unix_ms = now\<rparr>])))
      | _ \<Rightarrow> afail (Io InvalidInput ''entry must be an existing physical path within root'')) w2
      = (Inr (ks', es'), w')"
    using assms unfolding add_entry_def relative_to_def fst_conv snd_conv by auto
  obtain ob where ob: "st = AnPresent ob" and link: "eo_kind ob = EkFile \<longrightarrow> eo_nlink ob = 1"
    using rest by (cases st) (auto split: if_splits)
  have named: "names_entry os root v k" using a k by (auto simp: names_entry_def)
  show ?thesis
  proof (cases "k \<in> ks")
    case True
    then show ?thesis using rest ob link named by (intro exI [of _ "[]"] exI [of _ k]) auto
  next
    case False
    then obtain encoded now where enc: "encode_relative (po_dbg os) k = Inr encoded"
      and out: "ks' = insert k ks" "es' = es @ [\<lparr>en_literal_relative_path = encoded,
        en_entry_identity = observed_identity ob, en_created_unix_ms = now\<rparr>]"
      using rest ob link by auto
    let ?e = "\<lparr>en_literal_relative_path = encoded, en_entry_identity = observed_identity ob,
      en_created_unix_ms = now\<rparr>"
    have key: "entry_ok ?e \<and> entry_key ?e = k"
      using decode_encode_relative [OF enc] by (simp add: entry_ok_key [symmetric])
    then have "fresh_entry os root [v] ?e"
      using named st ob link by (auto simp: fresh_entry_def)
    then show ?thesis
      using out key named False by (intro exI [of _ "[?e]"] exI [of _ k]) auto
  qed
qed

lemma fresh_entry_mono: "fresh_entry os root vs e \<Longrightarrow> set vs \<subseteq> set vs' \<Longrightarrow> fresh_entry os root vs' e"
  by (auto simp: fresh_entry_def list_ex_iff)

lemma add_each_spec:
  "add_each os root vs (ks, es) w = (Inr (ks', es'), w') \<Longrightarrow>
     \<exists>new. es' = es @ new \<and> ks' = ks \<union> set (map entry_key new)
       \<and> distinct (map entry_key new) \<and> ks \<inter> set (map entry_key new) = {}
       \<and> list_all (fresh_entry os root vs) new \<and> (\<forall>v \<in> set vs. \<exists>k \<in> ks'. names_entry os root v k)"
proof (induction vs arbitrary: ks es w)
  case (Cons v vs)
  then obtain ks1 es1 w1 where one: "add_entry os root v (ks, es) w = (Inr (ks1, es1), w1)"
    and rest: "add_each os root vs (ks1, es1) w1 = (Inr (ks', es'), w')"
    by auto
  obtain new k where new: "es1 = es @ new" "ks1 = ks \<union> set (map entry_key new)"
    "names_entry os root v k" "k \<in> ks1" "distinct (map entry_key new)"
    "ks \<inter> set (map entry_key new) = {}" "list_all (fresh_entry os root [v]) new"
    using add_entry_spec [OF one] by blast
  obtain more where more: "es' = es1 @ more" "ks' = ks1 \<union> set (map entry_key more)"
    "distinct (map entry_key more)" "ks1 \<inter> set (map entry_key more) = {}"
    "list_all (fresh_entry os root vs) more" "\<forall>v \<in> set vs. \<exists>k \<in> ks'. names_entry os root v k"
    using Cons.IH [OF rest] by blast
  have "list_all (fresh_entry os root (v # vs)) (new @ more)"
    using new(7) more(5) by (auto simp: list_all_iff intro: fresh_entry_mono)
  then show ?case
    using new more by (intro exI [of _ "new @ more"]) auto
qed simp


lemma abindE:
  assumes "abind m f w = (Inr b, w')"
  obtains a v where "m w = (Inr a, v)" "f a v = (Inr b, w')"
  using assms by auto

definition root_entries :: "policy_file \<Rightarrow> unix_identity \<Rightarrow> entry_record list" where
  "root_entries f identity = concat (map ro_entries (filter (\<lambda>r. ro_root_identity r = identity) (pf_roots f)))"

definition other_roots :: "policy_file \<Rightarrow> unix_identity \<Rightarrow> policy_root list" where
  "other_roots f identity = filter (\<lambda>r. ro_root_identity r \<noteq> identity) (pf_roots f)"

lemma filter_update_out:
  "i < length xs \<Longrightarrow> \<not> P (xs ! i) \<Longrightarrow> \<not> P y \<Longrightarrow> filter P (xs[i := y]) = filter P xs"
  by (induction xs arbitrary: i) (auto simp: nth_Cons split: nat.splits)

lemma filter_distinct_one:
  "distinct (map f xs) \<Longrightarrow> x \<in> set xs \<Longrightarrow> filter (\<lambda>y. f y = f x) xs = [x]"
proof (induction xs)
  case (Cons a xs)
  show ?case
  proof (cases "a = x")
    case True
    then have "filter (\<lambda>y. f y = f x) xs = []" using Cons.prems by (auto simp: filter_empty_conv image_iff)
    then show ?thesis using True by simp
  next
    case False
    then have "x \<in> set xs" "f a \<noteq> f x" using Cons.prems by auto
    then show ?thesis using Cons by simp
  qed
qed simp

lemma policy_ok_entries:
  assumes "policy_ok f"
  shows "list_all entry_ok (root_entries f identity) \<and> distinct (map entry_key (root_entries f identity))"
proof (cases "filter (\<lambda>r. ro_root_identity r = identity) (pf_roots f)")
  case Nil
  then show ?thesis by (simp add: root_entries_def)
next
  case (Cons r rs)
  then have "r \<in> set (filter (\<lambda>r. ro_root_identity r = identity) (pf_roots f))" by simp
  then have r: "r \<in> set (pf_roots f)" "ro_root_identity r = identity" by simp_all
  then have "filter (\<lambda>x. ro_root_identity x = identity) (pf_roots f) = [r]"
    using filter_distinct_one [of ro_root_identity "pf_roots f" r] assms by (simp add: policy_ok_def)
  moreover have "root_ok r" using r assms by (auto simp: policy_ok_def list_all_iff)
  ultimately show ?thesis by (simp add: root_entries_def root_ok_def)
qed

lemma matching_roots_hd:
  assumes "matching_roots f identity = i # rest"
  shows "i < length (pf_roots f)" and "ro_root_identity (pf_roots f ! i) = identity"
proof -
  have "i \<in> set (matching_roots f identity)" using assms by simp
  then show "i < length (pf_roots f)" and "ro_root_identity (pf_roots f ! i) = identity"
    by (auto simp: matching_roots_def)
qed

lemma ensure_root_record_spec:
  assumes "ensure_root_record os f root identity w = (Inr (g, i), w')" and "policy_ok f"
  shows "i < length (pf_roots g)" and "ro_root_identity (pf_roots g ! i) = identity"
    and "ro_root_path (pf_roots g ! i) = wire_of (po_dbg os) root"
    and "ro_entries (pf_roots g ! i) = root_entries f identity"
    and "other_roots g identity = other_roots f identity"
proof -
  from assms(1) obtain found where enc: "is_absolute root"
    and found: "existing_root_record f (wire_of (po_dbg os) root) identity = Inr found"
    and rest: "(case found of Some r \<Rightarrow> aret r
      | None \<Rightarrow> abind (policy_now_ms os) (\<lambda>now.
          aret (push_root_record f (wire_of (po_dbg os) root) identity now))) w = (Inr (g, i), w')"
    by (auto simp: ensure_root_record_def encode_absolute_Inr)
  have "i < length (pf_roots g) \<and> ro_root_identity (pf_roots g ! i) = identity
      \<and> ro_root_path (pf_roots g ! i) = wire_of (po_dbg os) root
      \<and> ro_entries (pf_roots g ! i) = root_entries f identity
      \<and> other_roots g identity = other_roots f identity"
  proof (cases "matching_roots f identity")
    case Nil
    then have none: "filter (\<lambda>r. ro_root_identity r = identity) (pf_roots f) = []"
      by (fastforce simp: matching_roots_def filter_empty_conv in_set_conv_nth)
    have "found = None" using found Nil by (auto simp: existing_root_record_def split: if_splits)
    then show ?thesis
      using rest none by (auto simp: push_root_record_def root_entries_def other_roots_def)
  next
    case (Cons k ks)
    note k = matching_roots_hd [OF Cons]
    have "found = Some (f\<lparr>pf_roots := (pf_roots f)[k := (pf_roots f ! k)\<lparr>ro_root_path := wire_of (po_dbg os) root\<rparr>]\<rparr>, k)"
      using found Cons by (auto simp: existing_root_record_def split: if_splits)
    then have g: "g = f\<lparr>pf_roots := (pf_roots f)[k := (pf_roots f ! k)\<lparr>ro_root_path := wire_of (po_dbg os) root\<rparr>]\<rparr>"
      and i: "i = k" using rest by auto
    have "filter (\<lambda>r. ro_root_identity r = identity) (pf_roots f) = [pf_roots f ! k]"
      using filter_distinct_one [of ro_root_identity "pf_roots f" "pf_roots f ! k"] assms(2) k
      by (simp add: policy_ok_def)
    then have "root_entries f identity = ro_entries (pf_roots f ! k)" by (simp add: root_entries_def)
    moreover have "other_roots g identity = other_roots f identity"
      unfolding g other_roots_def using k by (simp add: filter_update_out)
    ultimately show ?thesis using g i k by simp
  qed
  then show "i < length (pf_roots g)" and "ro_root_identity (pf_roots g ! i) = identity"
    and "ro_root_path (pf_roots g ! i) = wire_of (po_dbg os) root"
    and "ro_entries (pf_roots g ! i) = root_entries f identity"
    and "other_roots g identity = other_roots f identity" by simp_all
qed

lemma traverse_entry_keys:
  "list_all entry_ok es \<Longrightarrow>
     traverse (\<lambda>e. decode_relative_bytes (en_literal_relative_path e)) es = Inr ks \<longleftrightarrow> ks = map entry_key es"
proof (induction es arbitrary: ks)
  case (Cons e es)
  then have "decode_relative_bytes (en_literal_relative_path e) = Inr (entry_key e)"
    by (simp add: entry_ok_def)
  then show ?case using Cons by (auto simp del: traverse_Inr)
qed (auto simp del: traverse_Inr)

text \<open>Adding entries to a valid policy touches only the record of the directory: the records of
  all other directories stay as they are and in their order, no entry of the directory is lost or
  changed, the new entries are the ones the arguments name and the record did not have, each with
  the identity just observed and never a file with several links, every argument has its entry,
  and the entries end up ordered by their path. The record carries the path it was named by.\<close>

theorem add_to_policy_spec:
  assumes "policy_ok f" and "add_to_policy os root identity vs f w = (Inr ((), g), w')"
  shows "\<exists>r new. r \<in> set (pf_roots g) \<and> ro_root_identity r = identity
     \<and> ro_root_path r = wire_of (po_dbg os) root
     \<and> other_roots g identity = other_roots f identity
     \<and> mset (ro_entries r) = mset (root_entries f identity @ new)
     \<and> sorted (map entry_key (ro_entries r)) \<and> distinct (map entry_key (ro_entries r))
     \<and> list_all (fresh_entry os root vs) new
     \<and> list_all (\<lambda>v. list_ex (\<lambda>e. names_entry os root v (entry_key e)) (ro_entries r)) vs"
proof -
  let ?old = "root_entries f identity"
  have old: "list_all entry_ok ?old" "distinct (map entry_key ?old)"
    using policy_ok_entries [OF assms(1)] by auto
  obtain h i w1 where ens: "ensure_root_record os f root identity w = (Inr (h, i), w1)"
    and rest: "abind (alift (traverse (\<lambda>e. decode_relative_bytes (en_literal_relative_path e))
        (ro_entries (pf_roots h ! i)))) (\<lambda>keys.
      abind (add_each os root vs (set keys, ro_entries (pf_roots h ! i))) (\<lambda>(_, es).
      abind (alift (normalize_entries ((pf_roots h ! i)\<lparr>ro_entries := es\<rparr>))) (\<lambda>record'.
        aret ((), h\<lparr>pf_roots := (pf_roots h)[i := record']\<rparr>)))) w1 = (Inr ((), g), w')"
    using assms(2) unfolding add_to_policy_def Let_def by (elim abindE) (auto split: prod.splits)
  note h = ensure_root_record_spec [OF ens assms(1)]
  have trav: "traverse (\<lambda>e. decode_relative_bytes (en_literal_relative_path e)) ?old = Inr (map entry_key ?old)"
    using traverse_entry_keys [OF old(1)] by blast
  obtain ks es w2 r where each: "add_each os root vs (set (map entry_key ?old), ?old) w1 = (Inr (ks, es), w2)"
    and norm: "normalize_entries ((pf_roots h ! i)\<lparr>ro_entries := es\<rparr>) = Inr r"
    and g: "g = h\<lparr>pf_roots := (pf_roots h)[i := r]\<rparr>"
    using rest unfolding h(4) trav by auto
  obtain new where new: "es = ?old @ new" "ks = set (map entry_key ?old) \<union> set (map entry_key new)"
    "distinct (map entry_key new)" "set (map entry_key ?old) \<inter> set (map entry_key new) = {}"
    "list_all (fresh_entry os root vs) new" "\<forall>v \<in> set vs. \<exists>k \<in> ks. names_entry os root v k"
    using add_each_spec [OF each] by blast
  have dist: "distinct (map entry_key es)" using new old by auto
  have n: "mset (ro_entries r) = mset es" "sorted (map entry_key (ro_entries r))"
    "r = (pf_roots h ! i)\<lparr>ro_entries := ro_entries r\<rparr>"
    using normalize_entries_spec [OF norm] dist by auto
  have ri: "ro_root_identity r = identity" "ro_root_path r = wire_of (po_dbg os) root"
    using n(3) h(2,3) by (metis policy_root.select_convs(1,2) policy_root.surjective policy_root.update_convs(4))+
  have keys: "set (map entry_key (ro_entries r)) = ks"
    using mset_eq_setD [OF n(1)] new by auto
  have "distinct (map entry_key (ro_entries r))"
    using dist mset_eq_imp_distinct_iff [of "map entry_key (ro_entries r)" "map entry_key es"] n(1)
    by (simp add: mset_map)
  moreover have "other_roots g identity = other_roots f identity"
    using h(1,2,5) ri(1) by (simp add: g other_roots_def filter_update_out)
  moreover have "r \<in> set (pf_roots g)" using g h(1) by (simp add: set_update_memI)
  moreover have "list_all (\<lambda>v. list_ex (\<lambda>e. names_entry os root v (entry_key e)) (ro_entries r)) vs"
    using new(6) keys [symmetric] by (auto simp: list_all_iff list_ex_iff)
  ultimately show ?thesis using ri n new by (intro exI [of _ r] exI [of _ new]) auto
qed


section \<open>What removing does\<close>

lemma retain_entries_keeps:
  "ro_root_path (retain_entries keys r) = ro_root_path r"
  "ro_root_identity (retain_entries keys r) = ro_root_identity r"
  "root_key (retain_entries keys r) = root_key r"
  by (simp_all add: retain_entries_def root_key_def)

lemma int_length_filter: "int (length xs) \<le> m \<Longrightarrow> int (length (filter P xs)) \<le> m"
  by (meson length_filter_le of_nat_mono order_trans)

lemma retain_entries_ok: "root_ok r \<Longrightarrow> root_ok (retain_entries keys r)"
  by (auto simp: root_ok_def retain_entries_def list_all_iff root_key_def distinct_map_filter
      intro: int_length_filter)

lemma policy_ok_map:
  assumes "policy_ok f" and "\<And>r. root_ok r \<Longrightarrow> root_ok (h r)"
    and "\<And>r. root_key (h r) = root_key r" and "\<And>r. ro_root_identity (h r) = ro_root_identity r"
  shows "policy_ok (f\<lparr>pf_roots := map h (pf_roots f)\<rparr>)"
  using assms by (auto simp: policy_ok_def list_all_iff comp_def)

lemma policy_ok_filter:
  "policy_ok f \<Longrightarrow> policy_ok (f\<lparr>pf_roots := filter P (pf_roots f)\<rparr>)"
  by (auto simp: policy_ok_def list_all_iff distinct_map_filter intro: int_length_filter)

lemma find_position_spec:
  "find_position P xs = Some i \<Longrightarrow> i < length xs \<and> P (xs ! i)"
  "find_position P xs = None \<Longrightarrow> \<forall>x \<in> set xs. \<not> P x"
  by (auto simp: find_position_def find_Some_iff find_None_iff in_set_conv_nth)

lemma same_path_same_record:
  assumes "policy_ok f" and "i < length (pf_roots f)" and "j < length (pf_roots f)"
    and "ro_root_path (pf_roots f ! i) = ro_root_path (pf_roots f ! j)"
  shows "i = j"
proof -
  have "root_key (pf_roots f ! i) = root_key (pf_roots f ! j)"
    using assms(4) by (simp add: root_key_def)
  then show ?thesis
    using assms(1-3) by (auto simp: policy_ok_def distinct_conv_nth)
qed

lemma update_as_map:
  assumes "i < length xs" and "\<And>j. j < length xs \<Longrightarrow> P (xs ! j) \<longleftrightarrow> j = i"
  shows "xs[i := h (xs ! i)] = map (\<lambda>x. if P x then h x else x) xs"
  using assms by (intro nth_equalityI) (auto simp: nth_list_update)

text \<open>Removing is exact and keeps a valid policy valid. \<open>remove_entries\<close> takes from the record
  stored under the path of the directory exactly the entries with one of the given keys, counts
  them, and leaves every other record as it is; \<open>remove_root\<close> takes exactly that record. Where
  no record is stored under the path, nothing changes.\<close>

theorem removals_are_exact:
  fixes dbg :: "bytes \<Rightarrow> bytes"
  assumes "policy_ok f" and "is_absolute root"
  defines "here \<equiv> \<lambda>r. ro_root_path r = wire_of dbg root"
  shows "\<exists>n g h. remove_from_policy dbg root keys f = Inr (n, g)
     \<and> g = f\<lparr>pf_roots := map (\<lambda>r. if here r then retain_entries keys r else r) (pf_roots f)\<rparr>
     \<and> n = length (filter (\<lambda>e. entry_key e \<in> keys) (concat (map ro_entries (filter here (pf_roots f)))))
     \<and> policy_ok g
     \<and> remove_root_from_policy dbg root f = Inr (list_ex here (pf_roots f), h)
     \<and> h = f\<lparr>pf_roots := filter (\<lambda>r. \<not> here r) (pf_roots f)\<rparr> \<and> policy_ok h"
proof -
  let ?g = "f\<lparr>pf_roots := map (\<lambda>r. if here r then retain_entries keys r else r) (pf_roots f)\<rparr>"
  let ?h = "f\<lparr>pf_roots := filter (\<lambda>r. \<not> here r) (pf_roots f)\<rparr>"
  let ?n = "length (filter (\<lambda>e. entry_key e \<in> keys) (concat (map ro_entries (filter here (pf_roots f)))))"
  have enc: "encode_absolute dbg root = Inr (wire_of dbg root)"
    using assms(2) by (simp add: encode_absolute_Inr)
  have remove: "remove_from_policy dbg root keys f = Inr (?n, ?g)"
  proof (cases "find_position here (pf_roots f)")
    case None
    then have no: "\<forall>r \<in> set (pf_roots f). \<not> here r" by (rule find_position_spec)
    then have "filter here (pf_roots f) = []" "map (\<lambda>r. if here r then retain_entries keys r else r) (pf_roots f) = pf_roots f"
      by (auto simp: filter_empty_conv intro: map_idI)
    then show ?thesis
      using None enc by (simp add: remove_from_policy_def find_root_record_mut_def here_def)
  next
    case (Some i)
    note i = find_position_spec(1) [OF Some]
    have only: "here (pf_roots f ! j) \<longleftrightarrow> j = i" if "j < length (pf_roots f)" for j
      using that i same_path_same_record [OF assms(1), of i j] by (auto simp: here_def)
    have "filter here (pf_roots f) = [pf_roots f ! i]"
    proof -
      have "filter (\<lambda>r. ro_root_path r = ro_root_path (pf_roots f ! i)) (pf_roots f) = [pf_roots f ! i]"
        using assms(1) i same_path_same_record [OF assms(1)]
        by (intro filter_distinct_one) (auto simp: distinct_conv_nth)
      then show ?thesis using i by (simp add: here_def)
    qed
    moreover have "length (ro_entries r) - length (filter (\<lambda>e. entry_key e \<notin> keys) (ro_entries r))
        = length (filter (\<lambda>e. entry_key e \<in> keys) (ro_entries r))" for r
      using sum_length_filter_compl [of "\<lambda>e. entry_key e \<in> keys" "ro_entries r"] by simp
    ultimately show ?thesis
      using Some enc update_as_map [OF _ only, of "retain_entries keys"] i
      by (simp add: remove_from_policy_def find_root_record_mut_def here_def Let_def retain_entries_def)
  qed
  have root: "remove_root_from_policy dbg root f = Inr (list_ex here (pf_roots f), ?h)"
  proof -
    have "length (pf_roots f) \<noteq> length (filter (\<lambda>r. \<not> here r) (pf_roots f)) \<longleftrightarrow> list_ex here (pf_roots f)"
      by (metis (no_types, lifting) filter_True length_filter_less list_ex_iff nat_neq_iff)
    then show ?thesis using enc by (simp add: remove_root_from_policy_def Let_def here_def)
  qed
  have "policy_ok ?g"
    by (rule policy_ok_map [OF assms(1)]) (auto intro: retain_entries_ok simp: retain_entries_keeps)
  then show ?thesis using remove root policy_ok_filter [OF assms(1)] by blast
qed


section \<open>What a whole snapshot accounts for\<close>

lemma collect_all_spec:
  "collect_all os acc rs w = (Inr eff, w') \<Longrightarrow>
     \<exists>rest. eff = acc @ concat rest \<and> list_all2 (\<lambda>r ps. \<exists>v v'. path_identity os (root_key r) v = (Inr (ro_root_identity r), v')
        \<and> list_all (\<lambda>e. observed_entry os (root_key r) e True) (ro_entries r)
        \<and> ps = map (\<lambda>e. path_join (root_key r) (entry_key e)) (ro_entries r)) rs rest"
proof (induction rs arbitrary: acc w)
  case (Cons r rs)
  obtain w1 eff1 w2 where p: "decode_absolute (ro_root_path r) = Inr (root_key r)"
    and i: "path_identity os (root_key r) w = (Inr (ro_root_identity r), w1)"
    and ev: "evaluate_entries os r (root_key r) (ro_root_identity r) w1 = (Inr (eff1, []), w2)"
    and rest: "collect_all os (acc @ eff1) rs w2 = (Inr eff, w')"
  proof -
    obtain p where p: "decode_absolute (ro_root_path r) = Inr p"
      and more: "abind (path_identity os p) (\<lambda>identity.
        abind (evaluate_entries os r p identity) (\<lambda>(effective, missing).
          if missing \<noteq> [] then afail (Io OtherKind ''policy_needs_attention'')
          else collect_all os (acc @ effective) rs)) w = (Inr eff, w')"
      using Cons.prems by auto
    obtain identity w1 eff1 miss w2 where i: "path_identity os p w = (Inr identity, w1)"
      and ev: "evaluate_entries os r p identity w1 = (Inr (eff1, miss), w2)"
      and rest: "(if miss \<noteq> [] then afail (Io OtherKind ''policy_needs_attention'')
          else collect_all os (acc @ eff1) rs) w2 = (Inr eff, w')"
      using more by (auto split: prod.splits)
    have "p = root_key r" using p by (simp add: root_key_def)
    moreover have "identity = ro_root_identity r" using evaluate_entries_spec(1) [OF ev] by simp
    moreover have "miss = []" "collect_all os (acc @ eff1) rs w2 = (Inr eff, w')"
      using rest by (auto split: if_splits)
    ultimately show ?thesis using that p i ev by simp
  qed
  obtain bs where bs: "list_all2 (observed_entry os (root_key r)) (ro_entries r) bs"
    "eff1 = places (root_key r) (ro_entries r) bs" "[] = places (root_key r) (ro_entries r) (map Not bs)"
    using evaluate_entries_spec(2) [OF ev] by blast
  have all: "list_all2 P es bs \<Longrightarrow> [] = places root es (map Not bs) \<Longrightarrow>
      list_all (\<lambda>e. P e True) es \<and> places root es bs = map (\<lambda>e. path_join root (entry_key e)) es" for P es bs root
    by (induction es bs rule: list_all2_induct) (auto split: if_splits)
  obtain more where "eff = (acc @ eff1) @ concat more" and more: "list_all2 (\<lambda>r ps. \<exists>v v'.
        path_identity os (root_key r) v = (Inr (ro_root_identity r), v')
        \<and> list_all (\<lambda>e. observed_entry os (root_key r) e True) (ro_entries r)
        \<and> ps = map (\<lambda>e. path_join (root_key r) (entry_key e)) (ro_entries r)) rs more"
    using Cons.IH [OF rest] by blast
  then show ?case
    using all [OF bs(1,3)] bs(2) i by (intro exI [of _ "eff1 # more"]) auto
qed simp

text \<open>The snapshot of all directories is all or nothing. It is granted only for an absent policy
  or a valid one, and then every entry of every record is an effective exclusion, in the order of
  the records, each seen unchanged below a directory that still has its recorded identity; one
  missing, changed or unreadable entry, or one directory that was replaced, refuses it.\<close>

theorem snapshot_all_is_complete:
  assumes "snapshot_all os c w = (Inr s, w')"
  shows "\<exists>loaded w1. load_policy_readonly os c w = (Inr loaded, w1)
     \<and> policy_ok (loaded_roots loaded) \<and> gp_roots s = pf_roots (loaded_roots loaded)
     \<and> gp_effective_exclusions s
         = concat (map (\<lambda>r. map (\<lambda>e. path_join (root_key r) (entry_key e)) (ro_entries r)) (gp_roots s))
     \<and> list_all (\<lambda>r. (\<exists>v v'. path_identity os (root_key r) v = (Inr (ro_root_identity r), v'))
         \<and> list_all (\<lambda>e. observed_entry os (root_key r) e True) (ro_entries r)) (gp_roots s)"
proof -
  obtain loaded w1 state roots w2 eff where loaded: "load_policy_readonly os c w = (Inr loaded, w1)"
    and roots: "(case loaded of LoadedAbsent state \<Rightarrow> aret (state, [])
      | LoadedPresent state policy \<Rightarrow> abind (alift (validate_policy policy)) (\<lambda>_. aret (state, pf_roots policy))) w1
      = (Inr (state, roots), w2)"
    and eff: "collect_all os [] roots w2 = (Inr eff, w')"
    and s: "s = \<lparr>gp_file_state = state, gp_effective_exclusions = eff, gp_roots = roots\<rparr>"
    using assms unfolding snapshot_all_def by (elim abindE) (auto split: prod.splits)
  have "policy_ok empty_policy" by (simp add: empty_policy_def policy_ok_def max_roots_def)
  then have ok: "policy_ok (loaded_roots loaded) \<and> roots = pf_roots (loaded_roots loaded)"
    using roots by (cases loaded) (auto simp: loaded_roots_def empty_policy_def validate_policy_iff)
  obtain rest where "eff = concat rest" and rest: "list_all2 (\<lambda>r ps. \<exists>v v'.
        path_identity os (root_key r) v = (Inr (ro_root_identity r), v')
        \<and> list_all (\<lambda>e. observed_entry os (root_key r) e True) (ro_entries r)
        \<and> ps = map (\<lambda>e. path_join (root_key r) (entry_key e)) (ro_entries r)) roots rest"
    using collect_all_spec [OF eff] by auto
  moreover have "rest = map (\<lambda>r. map (\<lambda>e. path_join (root_key r) (entry_key e)) (ro_entries r)) roots"
    using rest by (induction rule: list_all2_induct) auto
  moreover have "list_all (\<lambda>r. (\<exists>v v'. path_identity os (root_key r) v = (Inr (ro_root_identity r), v'))
         \<and> list_all (\<lambda>e. observed_entry os (root_key r) e True) (ro_entries r)) roots"
    using rest by (induction rule: list_all2_induct) auto
  ultimately show ?thesis using loaded ok s by auto
qed

section \<open>Changes as wholes\<close>

text \<open>A run without a log, and what the log of the same run shows.\<close>

definition accepted_run ::
  "'w policy_os \<Rightarrow> config_path \<Rightarrow> ('w, 'a) act \<Rightarrow> ('w \<times> policy_event list, 'a) act \<Rightarrow> 'w \<Rightarrow> bool" where
  "accepted_run os c plain observed w \<longleftrightarrow>
     (\<exists>l. observed (w, []) = (fst (plain w), snd (plain w), l)) \<and> follows_protocol os c (observed (w, []))"

lemma accepted_runI:
  assumes "alike observed plain"
    and "leads (up_step c (good_policy_bytes os)) UpStart UpStart observed (update_left (good_policy_bytes os))"
  shows "accepted_run os c plain observed w"
  using alikeD [OF assms(1), of w "fst (plain w)" "snd (plain w)" "[]"] leads_follows [OF assms(2)]
  by (auto simp: accepted_run_def)

lemma leads_change:
  assumes "quiet m" and "\<And>a. leads (up_step c good) UpStart UpStart (f a) (update_left good)"
  shows "leads (up_step c good) UpStart UpStart (abind m f) (update_left good)"
  by (rule leads_read) (use assms in \<open>auto simp: update_left_def\<close>)

lemma leads_refused: "leads (up_step c good) UpStart UpStart (afail e) (update_left good)"
  by (rule leads_afail) (simp add: update_left_def)

text \<open>C25: Whatever the file system answers, and whatever other processes do between two calls, each
  of the three changes of the policy changes the file system by a prefix of one sequence: make
  the directory and its mode, open and take the lock, create the staging file, write it, sync it,
  rename it over the policy, set its mode, release. What is written is always a valid policy of
  at most 64 KiB, the rename comes only after a successful write and sync and under the lock,
  nothing follows a failed step but the closing of what is open, no descriptor stays open, and
  success is reported only with a new policy in place.\<close>

theorem changes_replace_the_policy_safely:
  "accepted_run os c (add_entries os c root vs) (add_entries (logged_os os) c root vs) w
   \<and> accepted_run os c (remove_entries os c root vs) (remove_entries (logged_os os) c root vs) w
   \<and> accepted_run os c (remove_root os c root) (remove_root (logged_os os) c root) w"
proof (intro conjI accepted_runI alike_changes)
  show "leads (up_step c (good_policy_bytes os)) UpStart UpStart (add_entries (logged_os os) c root vs)
      (update_left (good_policy_bytes os))"
    unfolding add_entries_def
    by (auto intro!: leads_change leads_refused quiet_intros leads_update)
  show "leads (up_step c (good_policy_bytes os)) UpStart UpStart (remove_entries (logged_os os) c root vs)
      (update_left (good_policy_bytes os))"
    unfolding remove_entries_def
    by (auto intro!: leads_change leads_refused quiet_intros leads_update)
  show "leads (up_step c (good_policy_bytes os)) UpStart UpStart (remove_root (logged_os os) c root)
      (update_left (good_policy_bytes os))"
    unfolding remove_root_def by (intro leads_change quiet_intros leads_update)
qed


section \<open>The wire format\<close>

definition journal_path :: "wire_path \<Rightarrow> policy_path_record" where
  "journal_path w = \<lparr>pp_encoding = wp_encoding w, pp_bytes_hex = wp_bytes_hex w, pp_display = wp_display w\<rparr>"

text \<open>C27: Paths survive the wire. What the store encodes, absolute or relative, it decodes to the same
  raw bytes; encoding fails exactly for the paths the store must refuse, so no two paths share a
  wire form. The journal reads the same text to the same bytes: it accepts every encoded absolute
  path without a NUL byte, and on ASCII text its decoder agrees with the one of the store.\<close>

theorem wire_paths_round_trip:
  "(case encode_absolute dbg p of Inr w \<Rightarrow> decode_absolute w = Inr p | Inl e \<Rightarrow> \<not> is_absolute p)
   \<and> (case encode_relative dbg p of
        Inr w \<Rightarrow> decode_relative w = Inr p
      | Inl e \<Rightarrow> is_absolute p \<or> p = [] \<or> \<not> clean_relative p)
   \<and> (is_absolute p \<and> \<not> contains_nul p \<longrightarrow>
        validate_clean_policy_path dbg (journal_path (wire_of dbg p)) True = Inr ())
   \<and> (is_ascii s \<longrightarrow> decode_hex_bytes s = (case decode_hex s of Some bs \<Rightarrow> Decoded bs | None \<Rightarrow> NotHex))"
proof (intro conjI impI)
  show "case encode_absolute dbg p of Inr w \<Rightarrow> decode_absolute w = Inr p | Inl e \<Rightarrow> \<not> is_absolute p"
    by (cases "encode_absolute dbg p")
       (simp_all add: decode_encode_absolute, auto simp: encode_absolute_def split: if_splits)
  show "case encode_relative dbg p of Inr w \<Rightarrow> decode_relative w = Inr p
      | Inl e \<Rightarrow> is_absolute p \<or> p = [] \<or> \<not> clean_relative p"
    by (cases "encode_relative dbg p")
       (auto simp: decode_relative_eq decode_encode_relative encode_relative_def
          normalize_literal_relative_def split: if_splits)
next
  assume p: "is_absolute p \<and> \<not> contains_nul p"
  have "decode_hex_bytes (encode_hex p) = Decoded p"
    using decoders_agree [OF encode_hex_ascii [of p]] by simp
  then show "validate_clean_policy_path dbg (journal_path (wire_of dbg p)) True = Inr ()"
    using p by (cases p) (auto simp: validate_clean_policy_path_def journal_path_def wire_of_def
        contains_nul_def is_absolute_def simp del: encode_hex_simps simp flip: length_0_conv)
qed (rule decoders_agree)

section \<open>Texts of one path\<close>

text \<open>
  The store finds a record by the text of its path, and a path keeps the slash it was given with.
  A record stored for \<open>p/\<close> is not found under \<open>p\<close>, although the two are one path: the directory
  may have been replaced, and the execution is granted without the exclusions instead of being
  refused.
\<close>

lemma trailing_slash_hides_a_stale_root:
  assumes "is_absolute p" and "last p \<noteq> CHR ''/''" and "ro_root_path r = wire_of dbg (p @ ''/'')"
    and "ro_root_identity r \<noteq> identity"
  shows "path_eq (p @ ''/'') p" and "decode_absolute (ro_root_path r) = Inr (p @ ''/'')"
    and "select_root_for_execution dbg [r] p identity = Inr None"
    and "select_root_for_management dbg [r] p = Inr None"
    and "select_root_for_execution dbg [r] (p @ ''/'') identity
      = Inl (Io PermissionDeniedKind ''clean policy root record is stale and requires explicit repair'')"
proof -
  have ne: "p \<noteq> []" using assms(1) by (auto simp: is_absolute_def)
  have enc: "encode_absolute dbg p = Inr (wire_of dbg p)"
    "encode_absolute dbg (p @ ''/'') = Inr (wire_of dbg (p @ ''/''))"
    using assms(1) ne by (auto simp: encode_absolute_Inr is_absolute_def split: list.splits)
  have "decode_wire_bytes (wire_of dbg p) \<noteq> decode_wire_bytes (wire_of dbg (p @ ''/''))" by simp
  then have other: "wire_of dbg (p @ ''/'') \<noteq> wire_of dbg p" by metis
  show "path_eq (p @ ''/'') p"
    using components_append_sep [OF ne, of "[]"] by (simp add: path_eq_def)
  show "decode_absolute (ro_root_path r) = Inr (p @ ''/'')"
    using decode_encode_absolute [OF enc(2)] assms(3) by simp
  show "select_root_for_execution dbg [r] p identity = Inr None"
    "select_root_for_management dbg [r] p = Inr None"
    using assms(3,4) enc other
    by (auto simp: select_root_for_execution_def select_root_for_management_def)
  show "select_root_for_execution dbg [r] (p @ ''/'') identity
      = Inl (Io PermissionDeniedKind ''clean policy root record is stale and requires explicit repair'')"
    using assms(3,4) enc by (simp add: select_root_for_execution_def)
qed

text \<open>An entry that is given with a leading \<open>./\<close> can be added but not removed.\<close>

lemma leading_dot_is_not_removed:
  "normalize_remove_entry os root (''./'' @ p) w
     = (Inl (Io InvalidInput ''entry must be a clean relative path''), w)"
proof -
  have "components (''./'' @ p) = CurDir # concat (map piece (split_on CHR ''/'' p))"
    by (simp add: components_def is_absolute_def)
  then show ?thesis
    by (simp add: normalize_remove_entry_def normalize_literal_relative_def clean_relative_def is_absolute_def)
qed


section \<open>A small file system\<close>

text \<open>
  The world is what the policy file and the staging file hold. The directory \<open>/d\<close> is the inode 2
  of the device 1 and holds the file \<open>x\<close>, inode 7; the policy directory is \<open>/c/s\<close>.
\<close>

type_synonym policy_demo_world = "bytes option \<times> bytes option"

definition policy_demo_config :: config_path where
  "policy_demo_config = \<lparr>cf_directory = ''/c/s'', cf_file = ''/c/s/exclusions-v1.json''\<rparr>"

definition policy_demo_meta :: "node_type \<Rightarrow> u64 \<Rightarrow> u32 \<Rightarrow> file_meta" where
  "policy_demo_meta ty ino mode = \<lparr>fm_type = ty, fm_dev = 1, fm_ino = ino, fm_nlink = 1, fm_uid = 5,
     fm_mode = mode, fm_len = 3, fm_modified = None\<rparr>"

definition policy_demo_stat :: "u64 \<Rightarrow> 16 word \<Rightarrow> native_stat" where
  "policy_demo_stat ino mode = \<lparr>st_dev = 1, st_ino = ino, st_nlink = 1, st_mode = mode\<rparr>"

definition no_file :: io_error where
  "no_file = Io NotFoundKind ''no such file''"

definition policy_demo_file :: "bytes option \<Rightarrow> u64 \<Rightarrow> file_meta io_result" where
  "policy_demo_file content ino = (case content of None \<Rightarrow> Inl no_file | Some _ \<Rightarrow> Inr (policy_demo_meta FtFile ino 384))"

definition policy_demo_record :: policy_root where
  "policy_demo_record = \<lparr>ro_root_path = wire_of id ''/d'', ro_root_identity = \<lparr>ui_device = 1, ui_inode = 2\<rparr>,
     ro_created_unix_ms = 9, ro_entries = [
       \<lparr>en_literal_relative_path = wire_of id ''w'', en_entry_identity = \<lparr>uei_device = 1, uei_inode = 4,
          uei_kind = EkFile\<rparr>, en_created_unix_ms = 9\<rparr>,
       \<lparr>en_literal_relative_path = wire_of id ''x'', en_entry_identity = \<lparr>uei_device = 1, uei_inode = 7,
          uei_kind = EkFile\<rparr>, en_created_unix_ms = 9\<rparr>]\<rparr>"

definition policy_demo_policy :: policy_file where
  "policy_demo_policy = \<lparr>pf_schema_version = 1, pf_kind = policy_kind, pf_roots = [policy_demo_record]\<rparr>"

definition policy_demo_os :: "policy_demo_world policy_os" where
  "policy_demo_os = \<lparr>
     po_current_dir = (\<lambda>w. (Inr ''/d'', w)),
     po_lstat = (\<lambda>p w.
       (if p = cf_file policy_demo_config then policy_demo_file (fst w) 20
        else if p = stage_path policy_demo_config then policy_demo_file (snd w) 21
        else Inr (policy_demo_meta FtDirectory (if p = ''/d'' then 2 else 3) 448), w)),
     po_exists = (\<lambda>p w. (if p = stage_path policy_demo_config then snd w \<noteq> None else True, w)),
     po_read = (\<lambda>p w. (case fst w of None \<Rightarrow> Inl no_file | Some bs \<Rightarrow> Inr bs, w)),
     po_create_dir = (\<lambda>p w. (Inr (), w)),
     po_set_mode = (\<lambda>p n w. (Inr (), w)),
     po_open_lock = (\<lambda>p w. (Inr 11, w)),
     po_file_meta = (\<lambda>d w. (Inr (policy_demo_meta FtFile 22 384), w)),
     po_flock = (\<lambda>d w. (Inr (), w)),
     po_drop = (\<lambda>d w. w),
     po_create_new = (\<lambda>p w. (Inr 12, (fst w, Some []))),
     po_write_all = (\<lambda>d bs w. (Inr (), (fst w, Some bs))),
     po_sync_all = (\<lambda>d w. (Inr (), w)),
     po_rename = (\<lambda>p q w. (Inr (), (snd w, None))),
     po_now = (\<lambda>w. (5000000, w)),
     po_open_dir = (\<lambda>p w. (Inr 13, w)),
     po_fstat = (\<lambda>d w. (Inr (policy_demo_stat 2 16832), w)),
     po_openat_dir = (\<lambda>d n w. (Inl no_file, w)),
     po_statat = (\<lambda>d n w. (if n = ''x'' then Inr (policy_demo_stat 7 33152) else Inl no_file, w)),
     po_env = (\<lambda>n. None), po_euid = 5,
     po_parse = (\<lambda>bs.
       if bs = ''two'' then Inr policy_demo_policy
       else if bs = ''one'' then Inr (policy_demo_policy\<lparr>pf_roots := [policy_demo_record\<lparr>ro_entries := tl (ro_entries policy_demo_record)\<rparr>]\<rparr>)
       else Inl (invalid ''not a policy'')),
     po_print = (\<lambda>f. Inr (concat (map (\<lambda>r. concat (map (wp_bytes_hex \<circ> en_literal_relative_path) (ro_entries r)))
       (pf_roots f)))),
     po_digest = id, po_dbg = id\<rparr>"

lemma policy_demo_add_runs:
  "snd (snd (add_entries (logged_os policy_demo_os) policy_demo_config ''.'' [''./x'', ''/d/x''] ((None, None), [])))
     = [PeOpenLock ''/c/s/.exclusions-v1.lock'' (Inr 11), PeFlock 11 (Inr ()),
        PeCreate ''/c/s/.exclusions-v1.json.next'' (Inr 12), PeWrite 12 ''78'' (Inr ()), PeSync 12 (Inr ()),
        PeRename ''/c/s/.exclusions-v1.json.next'' ''/c/s/exclusions-v1.json'' (Inr ()),
        PeChmod ''/c/s/exclusions-v1.json'' 384 (Inr ()), PeDrop 12, PeDrop 11]"
  by code_simp

lemma policy_demo_add_result:
  "add_entries policy_demo_os policy_demo_config ''.'' [''./x'', ''/d/x''] (None, None) = (Inr (), Some ''78'', None)"
  by code_simp

lemma policy_demo_snapshot:
  "snapshot_for_root policy_demo_os policy_demo_config ''/d'' (Some ''two'', None)
     = (Inr \<lparr>ps_file_state = FsPresent ''/c/s/exclusions-v1.json'' \<lparr>ui_device = 1, ui_inode = 20\<rparr> 3 None ''74776f'',
         ps_root = Some policy_demo_record, ps_effective_exclusions = [''/d/x''],
         ps_missing_attention_entries = [''/d/w'']\<rparr>, (Some ''two'', None))"
  by code_simp


lemma policy_demo_policy_ok: "policy_ok policy_demo_policy" "policy_ok empty_policy"
proof -
  have "validate_policy policy_demo_policy = Inr ()" "validate_policy empty_policy = Inr ()" by code_simp+
  then show "policy_ok policy_demo_policy" "policy_ok empty_policy" by (simp_all add: validate_policy_iff)
qed

theorem snapshot_accounts_for_every_entry_witness:
  "\<exists>root identity loaded w1 w2 w3.
     normalize_existing_root policy_demo_os ''/d'' (Some ''two'', None) = (Inr root, w1)
     \<and> path_identity policy_demo_os root w1 = (Inr identity, w2)
     \<and> load_policy_readonly policy_demo_os policy_demo_config w2 = (Inr loaded, w3)
     \<and> snapshot_accounts policy_demo_os root identity loaded
         \<lparr>ps_file_state = FsPresent ''/c/s/exclusions-v1.json'' \<lparr>ui_device = 1, ui_inode = 20\<rparr> 3 None ''74776f'',
           ps_root = Some policy_demo_record, ps_effective_exclusions = [''/d/x''],
           ps_missing_attention_entries = [''/d/w'']\<rparr>"
  by (rule snapshot_accounts_for_every_entry [OF policy_demo_snapshot])

definition policy_demo_added :: policy_file where
  "policy_demo_added = empty_policy\<lparr>pf_roots := [\<lparr>ro_root_path = wire_of id ''/d'',
     ro_root_identity = \<lparr>ui_device = 1, ui_inode = 2\<rparr>, ro_created_unix_ms = 5, ro_entries = [
       \<lparr>en_literal_relative_path = wire_of id ''x'', en_entry_identity = \<lparr>uei_device = 1, uei_inode = 7,
          uei_kind = EkFile\<rparr>, en_created_unix_ms = 5\<rparr>]\<rparr>]\<rparr>"

lemma policy_demo_adds:
  "add_to_policy policy_demo_os ''/d'' \<lparr>ui_device = 1, ui_inode = 2\<rparr> [''./x'', ''/d/x''] empty_policy (None, None)
     = (Inr ((), policy_demo_added), (None, None))"
  by code_simp

theorem add_to_policy_spec_witness:
  "\<exists>r. r \<in> set (pf_roots policy_demo_added) \<and> ro_root_path r = wire_of id ''/d''
     \<and> list_all (\<lambda>v. list_ex (\<lambda>e. names_entry policy_demo_os ''/d'' v (entry_key e)) (ro_entries r)) [''./x'', ''/d/x'']"
  using add_to_policy_spec [OF policy_demo_policy_ok(2) policy_demo_adds] by (auto simp: policy_demo_os_def)

theorem removals_are_exact_witness:
  "\<exists>g. remove_from_policy id ''/d'' {''x'', ''y''} policy_demo_policy = Inr (1, g) \<and> policy_ok g"
proof -
  have abs: "is_absolute ''/d''" by (simp add: is_absolute_def)
  have n: "length (filter (\<lambda>e. entry_key e \<in> {''x'', ''y''})
      (concat (map ro_entries (filter (\<lambda>r. ro_root_path r = wire_of id ''/d'') (pf_roots policy_demo_policy))))) = 1"
    by code_simp
  show ?thesis
    using removals_are_exact [OF policy_demo_policy_ok(1) abs, of id "{''x'', ''y''}"] unfolding n by blast
qed

lemma policy_demo_snapshot_all:
  "snapshot_all policy_demo_os policy_demo_config (Some ''one'', None)
     = (Inr \<lparr>gp_file_state = FsPresent ''/c/s/exclusions-v1.json'' \<lparr>ui_device = 1, ui_inode = 20\<rparr> 3 None ''6f6e65'',
         gp_effective_exclusions = [''/d/x''],
         gp_roots = [policy_demo_record\<lparr>ro_entries := tl (ro_entries policy_demo_record)\<rparr>]\<rparr>, (Some ''one'', None))"
  "fst (snapshot_all policy_demo_os policy_demo_config (Some ''two'', None)) = Inl (Io OtherKind ''policy_needs_attention'')"
  by code_simp+

theorem snapshot_all_is_complete_witness:
  "\<exists>loaded w1. load_policy_readonly policy_demo_os policy_demo_config (Some ''one'', None) = (Inr loaded, w1)
     \<and> pf_roots (loaded_roots loaded) = [policy_demo_record\<lparr>ro_entries := tl (ro_entries policy_demo_record)\<rparr>]
     \<and> policy_ok (loaded_roots loaded)"
  using snapshot_all_is_complete [OF policy_demo_snapshot_all(1)] by auto

theorem wire_paths_round_trip_witness:
  "decode_absolute (wire_of id ''/d/x'') = Inr ''/d/x''
   \<and> validate_clean_policy_path id (journal_path (wire_of id ''/d/x'')) True = Inr ()
   \<and> decode_hex_bytes ''2f'' = Decoded ''/''"
proof -
  have "is_absolute ''/d/x''" "\<not> contains_nul ''/d/x''" "is_ascii ''2f''" "decode_hex ''2f'' = Some ''/''"
    by code_simp+
  then show ?thesis
    using wire_paths_round_trip [where dbg = id and p = "''/d/x''" and s = "''2f''"] by (auto simp: encode_absolute_Inr encode_absolute_def)
qed

end
