(* ===== verification/Execute_Invariant.thy ===== *)
theory Execute_Invariant
  imports Execute_Protocol
begin

text \<open>
  Invariants of the outside world under an execution: what every operation of the environment
  keeps, the session keeps. The interpretation on the logged environment shows that the guard
  events of a run are answers of the guard itself.
\<close>

section \<open>The environment as an interface\<close>

text \<open>A native call keeps \<open>I\<close> if it does so between any two uses of its closures.\<close>

primrec native_keeps :: "('w \<Rightarrow> bool) \<Rightarrow> 'w native \<Rightarrow> bool" where
  "native_keeps I (Finished e w) = I w"
| "native_keeps I (AskStop w k) = (I w \<and> (\<forall>b w'. I w' \<longrightarrow> native_keeps I (k b w')))"
| "native_keeps I (AskGuard w k) = (I w \<and> (\<forall>d w'. I w' \<longrightarrow> native_keeps I (k d w')))"

locale world_invariant =
  fixes I :: "'w \<Rightarrow> bool" and E :: "'w exec_env"
  assumes now: "I w \<Longrightarrow> I (snd (env_now (xe_env E) w))"
    and inspect: "I w \<Longrightarrow> I (snd (env_inspect (xe_env E) sc path w))"
    and cancelled: "I w \<Longrightarrow> I (snd (env_cancelled (xe_env E) w))"
    and wall: "I w \<Longrightarrow> I (snd (xe_wall E w))"
    and new_id: "I w \<Longrightarrow> I (snd (xe_new_id E w))"
    and publish: "I w \<Longrightarrow> I (snd (xe_publish E r b w))"
    and guard: "xe_guard E = Some g \<Longrightarrow> I w \<Longrightarrow> I (snd (g pt path w))"
    and effect: "I w \<Longrightarrow> native_keeps I (xe_effect E path w)"
begin

lemma keeps_time: "I w \<Longrightarrow> I (snd (snd (planner_time (xe_env E) p w)))"
  using now by (simp add: planner_time_def split_beta split: option.splits)

lemma keeps_stop: "I w \<Longrightarrow> I (snd (snd (preflight_stop (xe_env E) preview p w)))"
  using cancelled keeps_time by (simp add: preflight_stop_def split_beta split: bool.splits sum.splits)

lemma keeps_item: "I w \<Longrightarrow> I (snd (snd (preflight_item (xe_env E) preview i p w)))"
  using keeps_stop inspect
  by (auto simp: preflight_item_def Let_def split_beta split: option.splits sum.splits)

lemma keeps_items: "I w \<Longrightarrow> I (snd (snd (preflight_items (xe_env E) preview is p w)))"
  by (induction "is" arbitrary: p w) (auto simp: split_beta keeps_item split: sum.splits)

lemma keeps_validate: "I w \<Longrightarrow> I (snd (snd (planner_validate (xe_env E) preview a p w)))"
  using keeps_time keeps_items
  by (simp add: planner_validate_def split_beta split: option.splits sum.splits)

lemma keeps_now: "I w \<Longrightarrow> I (snd (now_ms E w))"
  using wall by (simp add: now_ms_def split_beta)

lemma keeps_stop_callback: "I w \<Longrightarrow> I (snd (snd (stop_callback E preview c w)))"
  using keeps_stop by (simp add: stop_callback_def split_beta)

lemma keeps_guard_callback: "I w \<Longrightarrow> I (snd (snd (guard_callback E path c w)))"
  using guard by (simp add: guard_callback_def Let_def split_beta split: option.splits)

lemma keeps_native:
  "native_keeps I n \<Longrightarrow> I (snd (snd (run_native (stop_callback E preview) (guard_callback E path) n c)))"
proof (induction n arbitrary: c rule: native_induct)
  case (AskStop w k)
  then show ?case using keeps_stop_callback [of w preview c] by (simp add: split_beta)
next
  case (AskGuard w k)
  then show ?case using keeps_guard_callback [of w path c] by (simp add: split_beta)
qed simp

lemma keeps_native_item: "I w \<Longrightarrow> I (snd (snd (native_item E preview i path rep p w)))"
  using keeps_native [OF effect] by (simp add: native_item_def split_beta)

lemma keeps_guarded: "I w \<Longrightarrow> I (snd (snd (guarded_item E preview i path rep p w)))"
  using guard keeps_native_item
  by (simp add: guarded_item_def split_beta split: option.splits guard_decision.splits)

lemma keeps_started: "I w \<Longrightarrow> I (snd (snd (started_item E preview i path rep p w)))"
  using keeps_now [of w] publish keeps_guarded
  by (simp add: started_item_def Let_def split_beta del: rbind_Inr_iff split: sum.splits)

lemma keeps_confirmed: "I w \<Longrightarrow> I (snd (confirmed_item E i rep w))"
  using keeps_now [of w] publish
  by (simp add: confirmed_item_def Let_def split_beta split: sum.splits option.splits)

lemma keeps_acted: "I w \<Longrightarrow> I (snd (snd (acted_item dbg E preview skipped i item rep h p w)))"
  using keeps_stop [of w] keeps_started by (simp add: acted_item_def split_beta split: option.splits)

lemma keeps_execute_item: "I w \<Longrightarrow> I (snd (snd (execute_item dbg E preview skipped i item rep h p w)))"
  using keeps_acted [of w] keeps_confirmed by (simp add: execute_item_def split_beta split: sum.splits)

lemma keeps_execute_items:
  "I w \<Longrightarrow> I (snd (snd (execute_items dbg E preview skipped i items rep h p w)))"
proof (induction items arbitrary: i rep h p w)
  case (Cons item items)
  then show ?case using keeps_execute_item [of w] by (simp add: split_beta split: sum.splits)
qed simp

lemma keeps_report: "I w \<Longrightarrow> I (snd (snd (session_report dbg E preview appr policy p w)))"
  using keeps_validate [of w] keeps_now new_id
  by (simp add: session_report_def split_beta del: traverse_Inr split: sum.splits)

lemma keeps_execute: "I w \<Longrightarrow> I (snd (snd (execute_with_clean_policy dbg E preview appr policy p w)))"
  using keeps_report [of w] publish keeps_execute_items
  by (simp add: execute_with_clean_policy_def split_beta del: rbind_Inr_iff split: sum.splits)

end

section \<open>The guard events of a run\<close>

definition genuine_guards :: "'w exec_env \<Rightarrow> 'w \<times> event list \<Rightarrow> bool" where
  "genuine_guards E s \<longleftrightarrow>
     (\<forall>pt path r. EvGuard pt path r \<in> set (snd s) \<longrightarrow>
        (\<exists>g w w'. xe_guard E = Some g \<and> g pt path w = (r, w')))"

lemma genuine_unlogged: "genuine_guards E s \<Longrightarrow> genuine_guards E (snd (unlogged f s))"
  by (auto simp: genuine_guards_def unlogged_def split: prod.splits)

lemma genuine_event:
  "genuine_guards E s \<Longrightarrow> (\<And>x pt path r. ev x \<noteq> EvGuard pt path r) \<Longrightarrow>
     genuine_guards E (snd (with_event ev f s))"
  by (auto simp: genuine_guards_def with_event_def split: prod.splits) metis

lemma genuine_native: "genuine_guards E (w, l) \<Longrightarrow> native_keeps (genuine_guards E) (log_native path n l)"
proof (induction n arbitrary: w l rule: native_induct)
  case (Finished e w)
  then show ?case by (auto simp: genuine_guards_def)
next
  case (AskStop v k)
  then show ?case by (auto simp: genuine_guards_def intro!: AskStop.IH)
next
  case (AskGuard v k)
  then show ?case by (auto simp: genuine_guards_def intro!: AskGuard.IH)
qed

interpretation guard_events: world_invariant "genuine_guards E" "logged E" for E
proof unfold_locales
  fix w :: "'a \<times> event list" and g pt path
  assume w: "genuine_guards E w" and g: "xe_guard (logged E) = Some g"
  then obtain h where h: "xe_guard E = Some h" "g = (\<lambda>pt path. with_event (EvGuard pt path) (h pt path))"
    by (auto simp: logged_def)
  obtain r v where "h pt path (fst w) = (r, v)" by (cases "h pt path (fst w)") auto
  then show "genuine_guards E (snd (g pt path w))"
    using w h by (auto simp: genuine_guards_def with_event_def)
next
  fix w :: "'a \<times> event list" and path
  assume "genuine_guards E w"
  then show "native_keeps (genuine_guards E) (xe_effect (logged E) path w)"
    by (cases w) (auto simp: logged_def genuine_guards_def intro!: genuine_native [of E "fst w"])
qed (auto simp: logged_def logged_env_def intro: genuine_unlogged genuine_event)

end
