(* ===== verification/Policy_Session.thy ===== *)
theory Policy_Session
  imports Policy_Properties Execute_Properties Execute_Invariant
begin

text \<open>
  The clean session of \<open>execute/macos.rs\<close> (\<open>CleanSession\<close>): it binds a native execution to a
  snapshot of the clean policy. The policy store, the planner, the execution and the journal meet
  here: the snapshot is recorded in the journal, and the guard of the execution reads the policy
  again around every native call. The inner \<open>TrashSession\<close> reads the file system through the
  platform crate and is a parameter.
\<close>

section \<open>Journal context\<close>

text \<open>\<open>display_path_record\<close>\<close>

definition display_path_record :: "(bytes \<Rightarrow> bytes) \<Rightarrow> path \<Rightarrow> policy_path_record" where
  "display_path_record dbg p =
     (let w = native_from_path dbg p in
      \<lparr>pp_encoding = np_encoding w, pp_bytes_hex = encode_hex (np_bytes w), pp_display = np_display w\<rparr>)"

definition json_u64 :: "u64 \<Rightarrow> json" where
  "json_u64 n = JNumber (decimal (unat n))"

definition json_path :: "policy_path_record \<Rightarrow> json" where
  "json_path p = JObject [(''encoding'', JString (pp_encoding p)), (''bytes_hex'', JString (pp_bytes_hex p)),
     (''display'', JString (pp_display p))]"

definition json_identity :: "unix_identity \<Rightarrow> json" where
  "json_identity i = JObject [(''device'', json_u64 (ui_device i)), (''inode'', json_u64 (ui_inode i))]"

definition json_option :: "('a \<Rightarrow> json) \<Rightarrow> 'a option \<Rightarrow> json" where
  "json_option f x = (case x of None \<Rightarrow> JNull | Some a \<Rightarrow> f a)"

fun file_state_json :: "(bytes \<Rightarrow> bytes) \<Rightarrow> policy_file_state \<Rightarrow> json" where
  "file_state_json dbg (FsAbsent p par i) = JObject [
     (''state'', JString ''absent''),
     (''expected_path'', json_path (display_path_record dbg p)),
     (''nearest_existing_parent'', json_option (\<lambda>q. json_path (display_path_record dbg q)) par),
     (''nearest_existing_parent_identity'', json_option json_identity i)]"
| "file_state_json dbg (FsPresent p i n m h) = JObject [
     (''state'', JString ''present''),
     (''path'', json_path (display_path_record dbg p)),
     (''identity'', json_identity i),
     (''length'', json_u64 n),
     (''modified_unix_ms'', json_option json_u64 m),
     (''sha256'', JString h)]"

definition clean_policy_context_record ::
  "'w policy_os \<Rightarrow> path \<Rightarrow> policy_snapshot \<Rightarrow> ('w, policy_context) act" where
  "clean_policy_context_record os root s =
     abind (po_lstat os root) (\<lambda>m.
       aret \<lparr>pc_schema_version = 1, pc_kind = ''sayaka_clean_policy_context'',
         pc_root_path = display_path_record (po_dbg os) root,
         pc_root_identity = \<lparr>pir_device = fm_dev m, pir_inode = fm_ino m\<rparr>,
         pc_file_state = file_state_json (po_dbg os) (ps_file_state s),
         pc_effective_exclusions = map (display_path_record (po_dbg os)) (ps_effective_exclusions s)\<rparr>)"

section \<open>The session\<close>

text \<open>The fields of \<open>RuleCandidate\<close> the session reads.\<close>

record clean_candidate =
  cc_rule_id :: bytes
  cc_target_path :: path
  cc_target_identity :: file_identity

text \<open>The hash map \<open>discovered\<close>, keyed by path: a later candidate of a path replaces.\<close>

definition discovered_targets :: "clean_candidate list \<Rightarrow> (component list \<rightharpoonup> bytes \<times> u64 \<times> u64)" where
  "discovered_targets cs =
     foldl (\<lambda>m c. case cc_target_identity c of
         Unix d i \<Rightarrow> m(components (cc_target_path c) \<mapsto> (cc_rule_id c, d, i))
       | Windows v f \<Rightarrow> m) Map.empty cs"

definition check_clean_item :: "(component list \<rightharpoonup> bytes \<times> u64 \<times> u64) \<Rightarrow> plan_item \<Rightarrow> unit io_result" where
  "check_clean_item found item =
     (case found (components (item_path item)) of
        None \<Rightarrow> Inl (invalid ''selected candidate is missing from discovery set'')
      | Some (rule, device, inode) \<Rightarrow>
          if (case pi_rule_binding item of None \<Rightarrow> True | Some b \<Rightarrow> rb_rule_id b \<noteq> rule)
          then Inl (invalid ''selected candidate rule binding changed; rerun clean preview'')
          else
            (case snap_identity (obs_snapshot (pi_observation item)) of
               Some (Unix d i) \<Rightarrow>
                 if d \<noteq> device \<or> i \<noteq> inode
                 then Inl (invalid ''selected candidate changed after discovery; rerun clean preview'')
                 else Inr ()
             | _ \<Rightarrow> Inl (invalid ''selected native candidate lacks Unix identity'')))"

record clean_session =
  cl_root :: path
  cl_config :: config_path
  cl_snapshot :: policy_snapshot
  cl_preview :: plan
  cl_planner :: planner
  cl_context :: policy_context

text \<open>
  \<open>CleanSession::prepare_rule_selection\<close>; \<open>inner\<close> is \<open>TrashSession::prepare_rule_selection\<close> for
  the scope and the rule, of the selection and the exclusions.
\<close>

definition prepare_clean_session ::
  "'w policy_os \<Rightarrow> (path list \<Rightarrow> path list \<Rightarrow> ('w, planner \<times> plan) act) \<Rightarrow> path \<Rightarrow> clean_candidate list
     \<Rightarrow> path list \<Rightarrow> config_path \<Rightarrow> policy_snapshot \<Rightarrow> ('w, clean_session) act" where
  "prepare_clean_session os inner root candidates selected config s =
     (if selected = [] \<or> max_items < length selected
      then afail (invalid ''select between 1 and 32 explicit files for clean execution'')
      else
        let found = discovered_targets candidates in
        if list_ex (\<lambda>p. found (components p) = None) selected
        then afail (invalid ''selected path is not a current clean discovery candidate'')
        else
          abind (inner selected (ps_effective_exclusions s)) (\<lambda>(planner, preview).
          abind (alift (check_all (check_clean_item found) (pl_items preview))) (\<lambda>_.
          abind (clean_policy_context_record os root s) (\<lambda>context.
            aret \<lparr>cl_root = root, cl_config = config, cl_snapshot = s, cl_preview = preview,
              cl_planner = planner, cl_context = context\<rparr>))))"

definition approve_clean ::
  "'w policy_os \<Rightarrow> 'w env \<Rightarrow> clean_session \<Rightarrow> 'w \<Rightarrow> approval io_result \<times> clean_session \<times> 'w" where
  "approve_clean os E s w =
     (case guard_snapshot os (cl_config s) (cl_root s) (cl_snapshot s) w of
        (Inl e, w1) \<Rightarrow> (Inl e, s, w1)
      | (Inr (GuardPolicyRefused reason), w1) \<Rightarrow>
          (Inl (Io PermissionDeniedKind (reason @ ''; no_native_call'')), s, w1)
      | (Inr GuardUnchanged, w1) \<Rightarrow>
          (case approve E (cl_preview s) (cl_planner s) w1 of
             (Inl e, p, w2) \<Rightarrow> (Inl (model_error (po_dbg os) e), s\<lparr>cl_planner := p\<rparr>, w2)
           | (Inr a, p, w2) \<Rightarrow> (Inr a, s\<lparr>cl_planner := p\<rparr>, w2)))"

fun refusal_marker :: "guard_point \<Rightarrow> bytes" where
  "refusal_marker AfterStarted = ''policy_refused_after_started''"
| "refusal_marker LastNative = ''policy_refused_last_native_guard''"

definition clean_guard ::
  "'w policy_os \<Rightarrow> config_path \<Rightarrow> path \<Rightarrow> policy_snapshot \<Rightarrow> guard_point \<Rightarrow> path
     \<Rightarrow> 'w \<Rightarrow> guard_decision io_result \<times> 'w" where
  "clean_guard os config root expected pt p =
     abind (guard_snapshot os config root expected) (\<lambda>st.
       aret (case st of
           GuardUnchanged \<Rightarrow> Proceed
         | GuardPolicyRefused reason \<Rightarrow> GuardRefused (refusal_marker pt @ '':'' @ reason)))"

definition guarded_env :: "'w policy_os \<Rightarrow> clean_session \<Rightarrow> 'w exec_env \<Rightarrow> 'w exec_env" where
  "guarded_env os s E = E\<lparr>xe_guard := Some (clean_guard os (cl_config s) (cl_root s) (cl_snapshot s))\<rparr>"

definition execute_clean ::
  "'w policy_os \<Rightarrow> 'w exec_env \<Rightarrow> clean_session \<Rightarrow> approval \<Rightarrow> 'w
     \<Rightarrow> exec_report io_result \<times> planner \<times> 'w" where
  "execute_clean os E s appr w =
     execute_with_clean_policy (po_dbg os) (guarded_env os s E) (cl_preview s) appr
       (Some (cl_context s)) (cl_planner s) w"


section \<open>The guard around native calls\<close>

lemma clean_guard_proceeds:
  assumes "clean_guard os config root expected pt p w = (Inr Proceed, w')"
  shows "\<exists>cur. snapshot_for_root os config root w = (Inr cur, w') \<and> snapshot_eq cur expected"
proof -
  obtain st v where "guard_snapshot os config root expected w = (Inr st, v)"
    and st: "(case st of GuardUnchanged \<Rightarrow> Proceed
      | GuardPolicyRefused reason \<Rightarrow> GuardRefused (refusal_marker pt @ '':'' @ reason)) = Proceed" "v = w'"
    using assms by (auto simp: clean_guard_def)
  moreover have "st = GuardUnchanged" using st(1) by (cases st) auto
  ultimately show ?thesis by (auto simp: guard_snapshot_def split: if_splits)
qed

lemma resolve_proceeds: "resolve_guard_decision r pt = Proceed \<longleftrightarrow> r = Inr Proceed"
  by (auto simp: resolve_guard_decision_def split: sum.splits)

text \<open>The monitor of a guarded run accepts a call only right after the guard let it through.\<close>

lemma call_follows_guard:
  assumes "mon_run True ready jp ps Fresh (l1 @ EvCall path # l2) = Some m"
  shows "\<exists>l0. l1 = l0 @ [EvGuard AfterStarted path (Inr Proceed)]"
proof -
  obtain m1 m2 where run: "mon_run True ready jp ps Fresh l1 = Some m1"
    and call: "mon_step True ready jp ps m1 (EvCall path) = Some m2"
    using assms by (auto simp: mon_run_append split: option.splits)
  obtain i r where m1: "m1 = Running (Cleared i) r" and path: "path = ps ! i"
  proof (cases m1)
    case Fresh
    then show thesis using call by simp
  next
    case (Running ph r)
    then show thesis using call that by (cases ph) (auto split: if_splits)
  qed
  show ?thesis
  proof (cases l1 rule: rev_cases)
    case Nil
    then show ?thesis using run m1 by simp
  next
    case (snoc l0 ev)
    then obtain m0 where step: "mon_step True ready jp ps m0 ev = Some m1"
      using run by (auto simp: mon_run_append split: option.splits)
    have "ev = EvGuard AfterStarted path (Inr Proceed)"
    proof (cases m0)
      case Fresh
      then show ?thesis using step m1 by (cases ev) (auto simp: published_to_def split: if_splits sum.splits)
    next
      case (Running ph q)
      show ?thesis
      proof (cases ev)
        case (EvPublish r' initial x)
        then show ?thesis
          using step m1 Running
          by (cases ph) (auto simp: published_to_def split: if_splits sum.splits option.splits)
      next
        case (EvGuard pt p d)
        then show ?thesis
          using step m1 Running path by (cases ph) (auto simp: resolve_proceeds split: if_splits)
      next
        case (EvCall p)
        then show ?thesis using step m1 Running by (cases ph) (auto split: if_splits)
      next
        case (EvReturn p e)
        then show ?thesis using step m1 Running by (cases ph) (auto split: if_splits)
      qed
    qed
    then show ?thesis using snoc by blast
  qed
qed

text \<open>C28: A clean session makes no native call under a stale policy: immediately before every native
  call the guard read the policy again, that reading was granted, and it was equal to the
  snapshot the session was prepared and approved with. So a policy that was created, removed or
  changed in between, an excluded entry that moved, or a policy that cannot be read stops the
  session before the call.\<close>

theorem clean_calls_follow_a_fresh_policy:
  assumes "execute_with_clean_policy (po_dbg os) (logged (guarded_env os s E)) (cl_preview s) appr
      (Some (cl_context s)) (cl_planner s) (w, []) = (out, p', w', l1 @ EvCall path # l2)"
  shows "execute_clean os E s appr w = (out, p', w')
    \<and> (\<exists>l0 w1 w2 cur. l1 = l0 @ [EvGuard AfterStarted path (Inr Proceed)]
        \<and> snapshot_for_root os (cl_config s) (cl_root s) w1 = (Inr cur, w2)
        \<and> snapshot_eq cur (cl_snapshot s))"
proof -
  let ?E = "guarded_env os s E"
  have guard: "xe_guard ?E = Some (clean_guard os (cl_config s) (cl_root s) (cl_snapshot s))"
    by (simp add: guarded_env_def)
  have plain: "execute_clean os E s appr w = (out, p', w')"
    using mirrorsD [OF mirrors_execute [of "po_dbg os" ?E "cl_preview s" appr "Some (cl_context s)" "cl_planner s"],
        of "(w, [])"] assms
    by (cases "execute_clean os E s appr w") (simp add: execute_clean_def)
  obtain m where "mon_run (xe_guard ?E \<noteq> None) (callable ?E (cl_preview s) appr (cl_planner s) w)
      (xe_journal_path ?E) (map item_path (pl_items (cl_preview s))) Fresh (l1 @ EvCall path # l2) = Some m"
    using left_accepted [OF logged_outcome [OF assms]] .
  then obtain l0 where l1: "l1 = l0 @ [EvGuard AfterStarted path (Inr Proceed)]"
    using call_follows_guard guard by fastforce
  have "genuine_guards ?E (w', l1 @ EvCall path # l2)"
    using guard_events.keeps_execute [of ?E "(w, [])" "po_dbg os" "cl_preview s" appr
        "Some (cl_context s)" "cl_planner s"] assms
    by (simp add: genuine_guards_def)
  then obtain v v' where "clean_guard os (cl_config s) (cl_root s) (cl_snapshot s) AfterStarted path v
      = (Inr Proceed, v')"
    unfolding genuine_guards_def guard l1 by fastforce
  from clean_guard_proceeds [OF this] show ?thesis using plain l1 by blast
qed

section \<open>The context in the journal\<close>

lemma journal_path_accepted:
  assumes "is_absolute p" and "\<not> contains_nul p"
  shows "validate_clean_policy_path dbg (display_path_record dbg p) True = Inr ()"
proof -
  have "decode_hex_bytes (encode_hex p) = Decoded p"
    using decoders_agree [OF encode_hex_ascii [of p]] by simp
  moreover have "encode_hex p \<noteq> []" using assms(1) by (cases p) (auto simp: is_absolute_def)
  ultimately show ?thesis
    using assms by (cases p) (auto simp: validate_clean_policy_path_def display_path_record_def
        native_from_path_def contains_nul_def is_absolute_def simp del: encode_hex_simps)
qed

text \<open>The journal accepts the context a clean session records: for a directory with an absolute
  path and at most 32 exclusions, all of them absolute and without a NUL byte, the context is
  valid, names the directory and the exclusions by their exact bytes, and keeps their order.\<close>

theorem clean_context_is_journalled:
  assumes "clean_policy_context_record os root s w = (Inr c, w')"
    and "is_absolute root" and "\<not> contains_nul root"
    and "length (ps_effective_exclusions s) \<le> max_items"
    and "list_all (\<lambda>p. is_absolute p \<and> \<not> contains_nul p) (ps_effective_exclusions s)"
  shows "validate_clean_policy_context (po_dbg os) c = Inr ()
     \<and> decode_hex_bytes (pp_bytes_hex (pc_root_path c)) = Decoded root
     \<and> map (\<lambda>p. decode_hex_bytes (pp_bytes_hex p)) (pc_effective_exclusions c)
         = map Decoded (ps_effective_exclusions s)"
proof -
  have dec: "decode_hex_bytes (encode_hex p) = Decoded p" for p
    using decoders_agree [OF encode_hex_ascii [of p]] by simp
  have state: "json_get ''state'' (file_state_json dbg st) = Some (JString (case st of
      FsAbsent _ _ _ \<Rightarrow> ''absent'' | FsPresent _ _ _ _ _ \<Rightarrow> ''present''))" for dbg st
    by (cases st) auto
  show ?thesis
    using assms journal_path_accepted
    by (auto simp: clean_policy_context_record_def validate_clean_policy_context_def list_all_iff state
        display_path_record_def native_from_path_def dec)
qed


section \<open>A clean run\<close>

text \<open>A file system without a policy file, beside the scripted platform of the execution.\<close>

definition still_os :: "nat policy_os" where
  "still_os = \<lparr>
     po_current_dir = (\<lambda>w. (Inr ''/d'', w)),
     po_lstat = (\<lambda>p w. (if p = cf_file policy_demo_config then Inl no_file
       else Inr (policy_demo_meta FtDirectory 2 448), w)),
     po_exists = (\<lambda>p w. (True, w)), po_read = (\<lambda>p w. (Inl no_file, w)),
     po_create_dir = (\<lambda>p w. (Inr (), w)), po_set_mode = (\<lambda>p n w. (Inr (), w)),
     po_open_lock = (\<lambda>p w. (Inl no_file, w)), po_file_meta = (\<lambda>d w. (Inl no_file, w)),
     po_flock = (\<lambda>d w. (Inr (), w)), po_drop = (\<lambda>d w. w),
     po_create_new = (\<lambda>p w. (Inl no_file, w)), po_write_all = (\<lambda>d bs w. (Inl no_file, w)),
     po_sync_all = (\<lambda>d w. (Inl no_file, w)), po_rename = (\<lambda>p q w. (Inl no_file, w)),
     po_now = (\<lambda>w. (0, w)), po_open_dir = (\<lambda>p w. (Inl no_file, w)),
     po_fstat = (\<lambda>d w. (Inl no_file, w)), po_openat_dir = (\<lambda>d n w. (Inl no_file, w)),
     po_statat = (\<lambda>d n w. (Inl no_file, w)), po_env = (\<lambda>n. None), po_euid = 5,
     po_parse = (\<lambda>bs. Inl no_file), po_print = (\<lambda>f. Inl no_file), po_digest = id,
     po_dbg = ascii_debug\<rparr>"

definition still_snapshot :: policy_snapshot where
  "still_snapshot = empty_snapshot (FsAbsent ''/c/s/exclusions-v1.json'' (Some ''/c/s'')
     (Some \<lparr>ui_device = 1, ui_inode = 2\<rparr>))"

lemma still_guard: "guard_snapshot still_os policy_demo_config ''/d'' still_snapshot w = (Inr GuardUnchanged, w)"
  by code_simp

definition still_session :: clean_session where
  "still_session = \<lparr>cl_root = ''/d'', cl_config = policy_demo_config, cl_snapshot = still_snapshot,
     cl_preview = demo_preview, cl_planner = state_of demo_approval,
     cl_context = projr (fst (clean_policy_context_record still_os ''/d'' still_snapshot 0))\<rparr>"

lemma still_env: "guarded_env still_os still_session demo_exec = demo_exec"
  by (simp add: guarded_env_def still_session_def demo_exec_def clean_guard_def fun_eq_iff abind_def still_guard)

definition clean_run :: "exec_report io_result \<times> planner \<times> nat \<times> event list" where
  "clean_run = execute_with_clean_policy ascii_debug (logged demo_exec) demo_preview
     (projr (fst demo_approval)) (Some (cl_context still_session)) (state_of demo_approval) (50, [])"

lemma clean_run_calls: "calls (snd (snd (snd clean_run))) = [''/d/a'', ''/d/bc'']"
  by code_simp

theorem clean_calls_follow_a_fresh_policy_witness:
  "\<exists>l1 l2 l0 w1 w2 cur. snd (snd (snd clean_run)) = l1 @ EvCall ''/d/a'' # l2
    \<and> l1 = l0 @ [EvGuard AfterStarted ''/d/a'' (Inr Proceed)]
    \<and> snapshot_for_root still_os policy_demo_config ''/d'' w1 = (Inr cur, w2)
    \<and> snapshot_eq cur still_snapshot"
proof -
  have "EvCall ''/d/a'' \<in> set (snd (snd (snd clean_run)))"
    by (simp add: calls_mem clean_run_calls)
  then obtain l1 l2 where l: "snd (snd (snd clean_run)) = l1 @ EvCall ''/d/a'' # l2"
    by (auto dest: split_list)
  obtain a b c d where r: "clean_run = (a, b, c, d)" by (metis prod_cases4)
  have "execute_with_clean_policy (po_dbg still_os) (logged (guarded_env still_os still_session demo_exec))
      (cl_preview still_session) (projr (fst demo_approval)) (Some (cl_context still_session))
      (cl_planner still_session) (50, []) = (a, b, c, l1 @ EvCall ''/d/a'' # l2)"
    using l r unfolding still_env by (simp add: still_os_def clean_run_def still_session_def)
  from clean_calls_follow_a_fresh_policy [OF this] show ?thesis
    using l by (auto simp: still_session_def)
qed

theorem clean_context_is_journalled_witness:
  "validate_clean_policy_context ascii_debug (projr (fst (clean_policy_context_record still_os ''/d''
     (still_snapshot\<lparr>ps_effective_exclusions := [''/d/x'']\<rparr>) 0))) = Inr ()"
proof -
  obtain c where c: "clean_policy_context_record still_os ''/d''
      (still_snapshot\<lparr>ps_effective_exclusions := [''/d/x'']\<rparr>) 0 = (Inr c, 0)"
    by (simp add: clean_policy_context_record_def abind_def still_os_def policy_demo_config_def)
  have "is_absolute ''/d''" "\<not> contains_nul ''/d''" "is_absolute ''/d/x''" "\<not> contains_nul ''/d/x''"
    by code_simp+
  moreover have "length (ps_effective_exclusions (still_snapshot\<lparr>ps_effective_exclusions := [''/d/x'']\<rparr>)) \<le> max_items"
    by (simp add: max_items_def)
  moreover have "po_dbg still_os = ascii_debug" by (simp add: still_os_def)
  ultimately show ?thesis
    using clean_context_is_journalled [OF c] by (simp add: c)
qed

end
