(* ===== verification/Journal_Store.thy ===== *)
theory Journal_Store
  imports Execute Actions Hex Ordered_Map
begin

text \<open>
  The journal store (\<open>journal/store.rs\<close>): a private directory with one file for every operation,
  read and written under an exclusive lock. The operating system, \<open>serde_json\<close> and SHA-256 are the
  fields of a record over the state \<open>'w\<close> of the outside world. A call fails with an
  \<open>io::Error\<close>, whose kind tells the two codes the store matches on (\<open>EEXIST\<close>, \<open>ENOENT\<close>). Of the
  drops of descriptors only the one of the lock matters: it releases the lock.
\<close>

section \<open>The outside world\<close>

text \<open>The fields of the native \<open>stat\<close> the store reads, at their macOS widths.\<close>

record file_stat =
  sf_dev :: "32 word"
  sf_ino :: u64
  sf_mode :: "16 word"
  sf_nlink :: "16 word"
  sf_uid :: u32
  sf_size :: "64 word"
  sf_mtime :: "64 word"
  sf_mtime_nsec :: "64 word"
  sf_ctime :: "64 word"
  sf_ctime_nsec :: "64 word"

text \<open>
  \<open>js_open_dir\<close> opens a directory without following any link, \<open>js_openat_lock\<close> the lock file
  (creating it when asked to), \<open>js_openat_new\<close> a file that must not exist, \<open>js_openat_read\<close> a file
  to read. \<open>js_list\<close> opens the directory again and reads it: the results of the iterator in their
  order. \<open>js_read\<close> reads up to a number of bytes. \<open>js_next_id\<close> is the counter of the process.
\<close>

record 'w store_os =
  js_open_dir :: "path \<Rightarrow> ('w, fd) act"
  js_mkdirat :: "fd \<Rightarrow> bytes \<Rightarrow> ('w, unit) act"
  js_fstat :: "fd \<Rightarrow> ('w, file_stat) act"
  js_fstatfs_flags :: "fd \<Rightarrow> ('w, u32) act"
  js_statat :: "fd \<Rightarrow> bytes \<Rightarrow> ('w, file_stat) act"
  js_has_acl :: "fd \<Rightarrow> ('w, bool) act"
  js_openat_lock :: "fd \<Rightarrow> bool \<Rightarrow> ('w, fd) act"
  js_flock :: "fd \<Rightarrow> ('w, unit) act"
  js_drop :: "fd \<Rightarrow> 'w \<Rightarrow> 'w"
  js_openat_new :: "fd \<Rightarrow> bytes \<Rightarrow> ('w, fd) act"
  js_openat_read :: "fd \<Rightarrow> bytes \<Rightarrow> ('w, fd) act"
  js_list :: "fd \<Rightarrow> ('w, bytes io_result list) act"
  js_read :: "fd \<Rightarrow> int \<Rightarrow> ('w, bytes) act"
  js_write_all :: "fd \<Rightarrow> bytes \<Rightarrow> ('w, unit) act"
  js_full_sync :: "fd \<Rightarrow> ('w, unit) act"
  js_fsync :: "fd \<Rightarrow> ('w, unit) act"
  js_renameat :: "fd \<Rightarrow> bytes \<Rightarrow> bytes \<Rightarrow> ('w, unit) act"
  js_unlinkat :: "fd \<Rightarrow> bytes \<Rightarrow> ('w, unit) act"
  js_wall :: "'w \<Rightarrow> system_time \<times> 'w"
  js_instant :: "'w \<Rightarrow> int \<times> 'w"
  js_next_id :: "'w \<Rightarrow> u64 \<times> 'w"
  js_pid :: u32
  js_euid :: u32
  js_parse :: "bytes \<Rightarrow> journal_record io_result"
  js_print :: "journal_record \<Rightarrow> bytes io_result"
  js_digest :: "bytes \<Rightarrow> bytes"
  js_dbg :: "bytes \<Rightarrow> bytes"

definition always :: "('w \<Rightarrow> 'a \<times> 'w) \<Rightarrow> ('w, 'a) act" where
  "always f = (\<lambda>w. case f w of (a, w') \<Rightarrow> (Inr a, w'))"

definition max_record_bytes :: int where
  "max_record_bytes = 1048576"

definition max_records :: int where
  "max_records = 1024"

definition max_read_bytes :: int where
  "max_read_bytes = 16777216"

definition store_now_ms :: "'w store_os \<Rightarrow> ('w, u64) act" where
  "store_now_ms os =
     abind (always (js_wall os)) (\<lambda>t.
       if t < 0 then afail (invalid ''system clock is before the Unix epoch'')
       else if t div 1000000 < 18446744073709551616 then aret (word_of_int (t div 1000000))
       else afail (invalid ''timestamp overflow''))"

section \<open>Checks of a descriptor\<close>

definition check_acl :: "'w store_os \<Rightarrow> fd \<Rightarrow> ('w, unit) act" where
  "check_acl os d =
     abind (js_has_acl os d) (\<lambda>acl.
       if acl then afail (invalid ''journal storage must not have extended ACL entries'') else aret ())"

definition regular_private :: "'w store_os \<Rightarrow> file_stat \<Rightarrow> bool" where
  "regular_private os st \<longleftrightarrow> and (sf_mode st) 61440 = 32768 \<and> sf_nlink st = 1
     \<and> sf_uid st = js_euid os \<and> and (sf_mode st) 63 = 0"

definition check_file :: "'w store_os \<Rightarrow> fd \<Rightarrow> ('w, unit) act" where
  "check_file os d =
     abind (js_fstat os d) (\<lambda>st.
       if \<not> regular_private os st
       then afail (invalid ''journal files must be private, singly linked, user-owned regular files'')
       else check_acl os d)"

section \<open>Opening the store\<close>

record store =
  so_directory :: fd
  so_lock :: fd
  so_path :: path

definition create_state_directory :: "'w store_os \<Rightarrow> path \<Rightarrow> ('w, unit) act" where
  "create_state_directory os p =
     (case parent p of
        None \<Rightarrow> afail (invalid ''state directory has no parent'')
      | Some up \<Rightarrow>
     (case file_name p of
        None \<Rightarrow> afail (invalid ''state directory has no name'')
      | Some name \<Rightarrow>
          abind (js_open_dir os up) (\<lambda>d.
          amatch (js_mkdirat os d name) (\<lambda>r.
            case r of
              Inr _ \<Rightarrow> js_fsync os d
            | Inl (Io AlreadyExistsKind _) \<Rightarrow> aret ()
            | Inl e \<Rightarrow> afail e))))"

definition private_directory :: "'w store_os \<Rightarrow> file_stat \<Rightarrow> bool" where
  "private_directory os st \<longleftrightarrow> sf_uid st = js_euid os \<and> and (sf_mode st) 63 = 0"

definition lock_directory :: "'w store_os \<Rightarrow> fd \<Rightarrow> fd \<Rightarrow> ('w, unit) act" where
  "lock_directory os directory lock =
     abind (check_file os lock) (\<lambda>_.
     abind (amatch (js_flock os lock) (\<lambda>r.
       case r of
         Inl e \<Rightarrow> afail (Io WouldBlockKind (''state directory is busy or cannot be locked: '' @ io_text e))
       | Inr _ \<Rightarrow> aret ())) (\<lambda>_.
     abind (js_statat os directory ''.lock'') (\<lambda>named.
     abind (js_fstat os lock) (\<lambda>held.
       if sf_ino named \<noteq> sf_ino held \<or> sf_dev named \<noteq> sf_dev held
       then afail (invalid ''journal lock changed'')
       else js_fsync os directory))))"

definition open_store :: "'w store_os \<Rightarrow> path \<Rightarrow> bool \<Rightarrow> ('w, store) act" where
  "open_store os p create =
     abind (alift (state_directory_ok p)) (\<lambda>_.
     abind (if create then create_state_directory os p else aret ()) (\<lambda>_.
     abind (js_open_dir os p) (\<lambda>directory.
     abind (js_fstat os directory) (\<lambda>st.
       if \<not> private_directory os st
       then afail (invalid ''state directory must be owned by this user with mode 0700'')
       else abind (check_acl os directory) (\<lambda>_.
     abind (js_fstatfs_flags os directory) (\<lambda>flags.
       if and flags 4096 = 0 then afail (invalid ''journal requires a local filesystem'')
       else abind (js_openat_lock os directory create) (\<lambda>lock.
       aon_error (abind (lock_directory os directory lock) (\<lambda>_.
         aret \<lparr>so_directory = directory, so_lock = lock, so_path = p\<rparr>)) (js_drop os lock))))))))"

definition unchanged :: "'w store_os \<Rightarrow> store \<Rightarrow> ('w, unit) act" where
  "unchanged os s =
     abind (js_open_dir os (so_path s)) (\<lambda>current.
     abind (js_fstat os (so_directory s)) (\<lambda>old.
     abind (js_fstat os current) (\<lambda>new.
       if sf_dev old \<noteq> sf_dev new \<or> sf_ino old \<noteq> sf_ino new \<or> \<not> private_directory os new
       then afail (invalid ''journal directory identity or permissions changed'')
       else check_acl os current)))"

section \<open>Writing\<close>

definition json_name :: "bytes \<Rightarrow> bytes" where
  "json_name i = i @ ''.json''"

definition pending_name :: "bytes \<Rightarrow> bytes" where
  "pending_name i = i @ ''.pending''"

definition next_name :: "bytes \<Rightarrow> bytes" where
  "next_name i = i @ ''.next''"

definition write_snapshot :: "'w store_os \<Rightarrow> store \<Rightarrow> bytes \<Rightarrow> journal_record \<Rightarrow> ('w, fd) act" where
  "write_snapshot os s name r =
     abind (alift (record_validate (js_dbg os) r)) (\<lambda>_.
     abind (alift (js_print os r)) (\<lambda>bs.
       if max_record_bytes < int (length bs) then afail (invalid ''journal record exceeds byte budget'')
       else abind (js_openat_new os (so_directory s) name) (\<lambda>f.
            abind (check_file os f) (\<lambda>_.
            abind (js_write_all os f bs) (\<lambda>_.
            abind (js_full_sync os f) (\<lambda>_. aret f))))))"

definition read_record :: "'w store_os \<Rightarrow> store \<Rightarrow> bytes \<Rightarrow> ('w, journal_record \<times> nat) act" where
  "read_record os s name =
     abind (js_openat_read os (so_directory s) name) (\<lambda>f.
     abind (check_file os f) (\<lambda>_.
     abind (js_read os f (max_record_bytes + 1)) (\<lambda>bs.
       if max_record_bytes < int (length bs) then afail (invalid ''journal record exceeds byte budget'')
       else abind (alift (js_parse os bs)) (\<lambda>r.
            abind (alift (record_validate (js_dbg os) r)) (\<lambda>_.
              if (case strip_suffix name ''.json'' of
                    Some i \<Rightarrow> Some i | None \<Rightarrow> strip_suffix name ''.pending'') \<noteq> Some (jr_operation_id r)
              then afail (invalid ''journal filename and record identity disagree'')
              else aret (r, length bs))))))"

text \<open>
  The conservative receipt: an outcome the last record on disk does not have yet is unknown in
  it.
\<close>

definition conservative_item :: "journal_record option \<Rightarrow> nat \<Rightarrow> item_record \<Rightarrow> item_record" where
  "conservative_item previous n i =
     (let old = (case previous of None \<Rightarrow> None
        | Some p \<Rightarrow> if n < length (jr_items p) then Some (jr_items p ! n) else None)
      in if (it_state i = ItemSucceeded \<or> it_state i = ItemFailed)
            \<and> (case old of None \<Rightarrow> True | Some j \<Rightarrow> it_state j \<noteq> it_state i)
         then i\<lparr>it_state := ItemUnknown, it_reason := Some ''outcome_publication_not_confirmed''\<rparr>
         else i)"

definition conservative :: "journal_record option \<Rightarrow> journal_record \<Rightarrow> journal_record" where
  "conservative previous r =
     (let r1 = r\<lparr>jr_items := map (\<lambda>(n, i). conservative_item previous n i) (enumerate 0 (jr_items r))\<rparr>;
          r2 = (case jr_runtime_context r1 of
                  None \<Rightarrow> r1
                | Some c \<Rightarrow> r1\<lparr>jr_runtime_context :=
                    Some (runtime_unconfirmed (Option.bind previous jr_runtime_context) c)\<rparr>)
      in if jr_empty_trash_context r2 \<noteq> None then trash_unconfirmed r2 else r2)"

datatype publish_point = AfterRenameDirectorySync | FinalFileSync | MarkerRemoval | MarkerDirectorySync

definition previous_record ::
  "'w store_os \<Rightarrow> store \<Rightarrow> bytes \<Rightarrow> bool \<Rightarrow> ('w, journal_record option) act" where
  "previous_record os s name initial =
     (if initial then
        amatch (js_statat os (so_directory s) name) (\<lambda>r.
          case r of
            Inl (Io NotFoundKind _) \<Rightarrow> aret None
          | Inr _ \<Rightarrow> afail (invalid ''journal operation identifier already exists'')
          | Inl e \<Rightarrow> afail e)
      else abind (read_record os s name) (\<lambda>(r, _). aret (Some r)))"

definition remove_marker ::
  "'w store_os \<Rightarrow> store \<Rightarrow> bytes \<Rightarrow> (publish_point \<Rightarrow> ('w, unit) act) \<Rightarrow> ('w, unit) act" where
  "remove_marker os s marker checkpoint =
     abind (unchanged os s) (\<lambda>_.
     abind (checkpoint MarkerRemoval) (\<lambda>_.
     abind (js_unlinkat os (so_directory s) marker) (\<lambda>_.
     abind (checkpoint MarkerDirectorySync) (\<lambda>_.
       js_fsync os (so_directory s)))))"

definition cleanup_failed :: "io_error \<Rightarrow> io_error" where
  "cleanup_failed e =
     (case e of
        Io k m \<Rightarrow> Io k (''receipt is durable; publication marker cleanup failed: '' @ m)
      | Panicked \<Rightarrow> Panicked)"

definition publish_with ::
  "'w store_os \<Rightarrow> store \<Rightarrow> (publish_point \<Rightarrow> ('w, unit) act) \<Rightarrow> journal_record \<Rightarrow> bool
     \<Rightarrow> ('w, publication) act" where
  "publish_with os s checkpoint r initial =
     (let name = json_name (jr_operation_id r);
          marker = pending_name (jr_operation_id r);
          stage = next_name (jr_operation_id r) in
      abind (alift (record_validate (js_dbg os) r)) (\<lambda>_.
      abind (unchanged os s) (\<lambda>_.
      abind (previous_record os s name initial) (\<lambda>previous.
      abind (write_snapshot os s marker (conservative previous r)) (\<lambda>marker_file.
      abind (js_fsync os (so_directory s)) (\<lambda>_.
      abind (js_full_sync os marker_file) (\<lambda>_.
      abind (write_snapshot os s stage r) (\<lambda>file.
      abind (unchanged os s) (\<lambda>_.
      abind (js_renameat os (so_directory s) stage name) (\<lambda>_.
      abind (checkpoint AfterRenameDirectorySync) (\<lambda>_.
      abind (js_fsync os (so_directory s)) (\<lambda>_.
      abind (checkpoint FinalFileSync) (\<lambda>_.
      abind (js_full_sync os file) (\<lambda>_.
      amatch (remove_marker os s marker checkpoint) (\<lambda>cleanup.
        aret \<lparr>cleanup_error = (case cleanup of Inl e \<Rightarrow> Some (cleanup_failed e) | Inr _ \<Rightarrow> None)\<rparr>)))))))))))))))"

definition publish :: "'w store_os \<Rightarrow> store \<Rightarrow> journal_record \<Rightarrow> bool \<Rightarrow> ('w, publication) act" where
  "publish os s r initial = publish_with os s (\<lambda>_. aret ()) r initial"

section \<open>Reading the journal\<close>

datatype entry_use = Committed | Pending | Staged

text \<open>The identifier a file name stands for, and in which of its three roles.\<close>

definition classify_name :: "bytes \<Rightarrow> (bytes \<times> entry_use) io_result" where
  "classify_name n =
     (if \<not> valid_utf8 n then Inl (invalid ''unrecognized journal entry'')
      else
        rbind (case strip_suffix n ''.pending'' of
            Some i \<Rightarrow> Inr (i, Pending)
          | None \<Rightarrow>
          (case strip_suffix n ''.next'' of
            Some i \<Rightarrow> Inr (i, Staged)
          | None \<Rightarrow>
          (case strip_suffix n ''.json'' of
            Some i \<Rightarrow> Inr (i, Committed)
          | None \<Rightarrow> Inl (invalid ''unrecognized journal entry'')))) (\<lambda>(i, u).
        if \<not> valid_id i then Inl (invalid ''invalid journal filename'') else Inr (i, u)))"

type_synonym name_index = "(bytes \<times> bool \<times> bool) list"

definition note_name :: "bytes \<Rightarrow> entry_use \<Rightarrow> name_index \<Rightarrow> name_index" where
  "note_name i u m =
     (let (committed, pending) = (case map_of m i of None \<Rightarrow> (False, False) | Some x \<Rightarrow> x) in
      btree_insert i (committed \<or> u = Committed, pending \<or> u = Pending) m)"

definition skipped_names :: "bytes list" where
  "skipped_names = [''.'', ''..'', ''.lock'']"

fun collect_names ::
  "bytes io_result list \<Rightarrow> name_index \<Rightarrow> bytes list \<Rightarrow> (name_index \<times> bytes list) io_result" where
  "collect_names [] m us = Inr (m, us)"
| "collect_names (Inl e # es) m us = Inl e"
| "collect_names (Inr n # es) m us =
     (if n \<in> set skipped_names then collect_names es m us
      else rbind (classify_name n) (\<lambda>(i, u).
        let m' = note_name i u m in
        if max_records < int (length m') then Inl (invalid ''journal record count exceeds budget'')
        else collect_names es m' (if u = Committed then us else us @ [n])))"

fun read_named ::
  "'w store_os \<Rightarrow> store \<Rightarrow> nat \<Rightarrow> name_index \<Rightarrow> ('w, journal_record list) act" where
  "read_named os s used [] = aret []"
| "read_named os s used ((i, committed, pending) # m) =
     (if \<not> committed \<and> \<not> pending then afail (invalid ''orphaned journal staging snapshot'')
      else abind (read_record os s (if pending then pending_name i else json_name i)) (\<lambda>(r, n).
        if max_read_bytes < int (used + n)
        then afail (invalid ''journal read exceeds total byte budget'')
        else abind (read_named os s (used + n) m) (\<lambda>rs. aret (reconciled r # rs))))"

definition store_records :: "'w store_os \<Rightarrow> store \<Rightarrow> ('w, journal_read) act" where
  "store_records os s =
     abind (unchanged os s) (\<lambda>_.
     abind (js_list os (so_directory s)) (\<lambda>entries.
     abind (alift (collect_names entries [] [])) (\<lambda>(m, us).
     abind (read_named os s 0 m) (\<lambda>rs.
       aret \<lparr>read_records = sort_key jr_operation_id rs, read_uncommitted_snapshots = sort us\<rparr>))))"

section \<open>Identifiers\<close>

definition format_id :: "u32 \<Rightarrow> u64 \<Rightarrow> u64 \<Rightarrow> bytes" where
  "format_id pid now counter =
     hex_number (unat pid) @ ''-'' @ hex_number (unat now) @ ''-'' @ hex_number (unat counter)"

definition fresh_id :: "'w store_os \<Rightarrow> ('w, bytes) act" where
  "fresh_id os =
     abind (always (js_next_id os)) (\<lambda>counter.
     abind (store_now_ms os) (\<lambda>now. aret (format_id (js_pid os) now counter)))"

definition store_new_id :: "'w store_os \<Rightarrow> store \<Rightarrow> ('w, bytes) act" where
  "store_new_id os s =
     abind (store_records os s) (\<lambda>snapshot.
       if read_uncommitted_snapshots snapshot \<noteq> []
       then afail (invalid ''uncommitted journal snapshots exist; inspect receipts and archive state before a new operation'')
       else if max_records \<le> int (length (read_records snapshot))
       then afail (invalid ''journal record limit reached; export and explicitly archive completed records'')
       else fresh_id os)"

text \<open>The clock is read before the counter here.\<close>

definition empty_trash_id :: "'w store_os \<Rightarrow> store \<Rightarrow> ('w, bytes) act" where
  "empty_trash_id os s =
     abind (unchanged os s) (\<lambda>_.
     abind (store_now_ms os) (\<lambda>now.
     abind (always (js_next_id os)) (\<lambda>counter. aret (format_id (js_pid os) now counter))))"

definition store_identity :: "'w store_os \<Rightarrow> store \<Rightarrow> ('w, u64 \<times> u64) act" where
  "store_identity os s =
     abind (unchanged os s) (\<lambda>_.
     abind (js_fstat os (so_directory s)) (\<lambda>st. aret (scast (sf_dev st), sf_ino st)))"

definition clear_empty_trash_guard :: "'w store_os \<Rightarrow> store \<Rightarrow> bytes \<Rightarrow> ('w, unit) act" where
  "clear_empty_trash_guard os s i =
     abind (unchanged os s) (\<lambda>_.
       if \<not> valid_id i then afail (invalid ''invalid guard id'')
       else abind (store_records os s) (\<lambda>snapshot.
         if read_uncommitted_snapshots snapshot \<noteq> [] \<or>
            (case read_records snapshot of
               [r] \<Rightarrow> jr_operation_id r \<noteq> i \<or> jr_schema_version r \<noteq> 10
             | _ \<Rightarrow> True)
         then afail (invalid ''inconsistent empty Trash guard'')
         else abind (js_unlinkat os (so_directory s) (json_name i)) (\<lambda>_.
              abind (js_fsync os (so_directory s)) (\<lambda>_. unchanged os s))))"

section \<open>Source evidence\<close>

text \<open>
  The budget is shared by all source roots and is changed in place: it is part of the state, so
  what was spent before an error stays spent.
\<close>

record evidence_budget =
  eb_entries :: nat
  eb_records :: nat
  eb_bytes :: nat
  eb_deadline :: int

record evidence_stamp =
  es_device :: u64
  es_inode :: u64
  es_size :: "64 word"
  es_mtime :: "64 word \<times> 64 word"
  es_ctime :: "64 word \<times> 64 word"

record source_evidence =
  se_record :: journal_record
  se_digest :: bytes
  se_stamp :: evidence_stamp

definition outside :: "('w, 'a) act \<Rightarrow> ('w \<times> evidence_budget, 'a) act" where
  "outside m = (\<lambda>(w, b). case m w of (r, w') \<Rightarrow> (r, w', b))"

definition budget :: "('w \<times> evidence_budget, evidence_budget) act" where
  "budget = (\<lambda>(w, b). (Inr b, w, b))"

definition spend :: "(evidence_budget \<Rightarrow> evidence_budget) \<Rightarrow> ('w \<times> evidence_budget, unit) act" where
  "spend f = (\<lambda>(w, b). (Inr (), w, f b))"

definition check_deadline :: "'w store_os \<Rightarrow> ('w \<times> evidence_budget, unit) act" where
  "check_deadline os =
     abind budget (\<lambda>b.
     abind (outside (always (js_instant os))) (\<lambda>now.
       if eb_deadline b \<le> now then afail (invalid ''source observation deadline exceeded'') else aret ()))"

definition capture_stamp :: "'w store_os \<Rightarrow> fd \<Rightarrow> ('w, evidence_stamp) act" where
  "capture_stamp os f =
     abind (js_fstat os f) (\<lambda>st. aret \<lparr>
       es_device = scast (sf_dev st), es_inode = sf_ino st, es_size = sf_size st,
       es_mtime = (sf_mtime st, sf_mtime_nsec st), es_ctime = (sf_ctime st, sf_ctime_nsec st)\<rparr>)"

text \<open>No publication of the operation may be pending.\<close>

fun resolved :: "'w store_os \<Rightarrow> store \<Rightarrow> bytes list \<Rightarrow> ('w, unit) act" where
  "resolved os s [] = aret ()"
| "resolved os s (n # ns) =
     amatch (js_statat os (so_directory s) n) (\<lambda>r.
       case r of
         Inl (Io NotFoundKind _) \<Rightarrow> resolved os s ns
       | _ \<Rightarrow> afail (invalid ''source publication is unresolved''))"

definition same_named_file :: "file_stat \<Rightarrow> evidence_stamp \<Rightarrow> bool" where
  "same_named_file st stamp \<longleftrightarrow> scast (sf_dev st) = es_device stamp \<and> sf_ino st = es_inode stamp"

definition source_bytes ::
  "'w store_os \<Rightarrow> store \<Rightarrow> bytes \<Rightarrow> ('w \<times> evidence_budget, bytes \<times> evidence_stamp) act" where
  "source_bytes os s name =
     abind (outside (js_openat_read os (so_directory s) name)) (\<lambda>f.
     abind (outside (check_file os f)) (\<lambda>_.
     abind (outside (capture_stamp os f)) (\<lambda>stamp.
     abind budget (\<lambda>b.
       let limit = min max_record_bytes (max_read_bytes - int (eb_bytes b)) in
     abind (spend (\<lambda>b. b\<lparr>eb_records := eb_records b + 1\<rparr>)) (\<lambda>_.
     abind (outside (js_read os f (limit + 1))) (\<lambda>bs.
     abind (spend (\<lambda>b. b\<lparr>eb_bytes := eb_bytes b + length bs\<rparr>)) (\<lambda>_.
     abind (check_deadline os) (\<lambda>_.
       if limit < int (length bs) then afail (invalid ''source bytes changed or exceeded budget'')
       else
     abind (outside (capture_stamp os f)) (\<lambda>stamp'.
       if stamp' \<noteq> stamp then afail (invalid ''source bytes changed or exceeded budget'')
       else
     abind (outside (check_file os f)) (\<lambda>_.
     abind (outside (js_statat os (so_directory s) name)) (\<lambda>named.
       if \<not> same_named_file named stamp then afail (invalid ''source file replaced'')
       else aret (bs, stamp))))))))))))"

definition source_record ::
  "'w store_os \<Rightarrow> store \<Rightarrow> bytes \<Rightarrow> ('w \<times> evidence_budget, source_evidence) act" where
  "source_record os s i =
     abind (check_deadline os) (\<lambda>_.
     abind (outside (unchanged os s)) (\<lambda>_.
     abind budget (\<lambda>b.
       if \<not> valid_id i \<or> max_records \<le> int (eb_records b) \<or> max_read_bytes \<le> int (eb_bytes b)
       then afail (invalid ''source budget or identity invalid'')
       else
     abind (outside (resolved os s [pending_name i, next_name i])) (\<lambda>_.
     abind (source_bytes os s (json_name i)) (\<lambda>(bs, stamp).
     abind (alift (js_parse os bs)) (\<lambda>r.
     abind (alift (record_validate (js_dbg os) r)) (\<lambda>_.
       if jr_operation_id r \<noteq> i then afail (invalid ''source name mismatch'')
       else
     abind (outside (unchanged os s)) (\<lambda>_.
     abind (check_deadline os) (\<lambda>_.
       aret \<lparr>se_record = r, se_digest = encode_hex (js_digest os bs), se_stamp = stamp\<rparr>)))))))))"

text \<open>
  The names of the source directory, as the set \<open>BTreeSet\<close> keeps them. \<open>MAX_RECORDS - b.records\<close>
  is a subtraction of \<open>usize\<close>, which fails below zero.
\<close>

fun source_names ::
  "'w store_os \<Rightarrow> bytes io_result list \<Rightarrow> bytes list \<Rightarrow> ('w \<times> evidence_budget, bytes list) act" where
  "source_names os [] names = aret names"
| "source_names os (e # es) names =
     abind (check_deadline os) (\<lambda>_.
     abind budget (\<lambda>b.
       if 10000 \<le> int (eb_entries b) then afail (invalid ''source directory entry budget exceeded'')
       else
     abind (spend (\<lambda>b. b\<lparr>eb_entries := eb_entries b + 1\<rparr>)) (\<lambda>_.
     abind (alift e) (\<lambda>n.
       if n \<in> set skipped_names then source_names os es names
       else if \<not> valid_utf8 n then afail (invalid ''unknown source filename'')
       else (case strip_suffix n ''.json'' of
           None \<Rightarrow> afail (invalid ''uncommitted or unexpected source entry'')
         | Some i \<Rightarrow>
             if \<not> valid_id i \<or> i \<in> set names
             then afail (invalid ''source record budget or identity invalid'')
             else if max_records < int (eb_records b) then afail Panicked
             else if max_records - int (eb_records b) < int (length names + 1)
             then afail (invalid ''source record budget or identity invalid'')
             else source_names os es (insort i names))))))"

fun source_each ::
  "'w store_os \<Rightarrow> store \<Rightarrow> bytes list \<Rightarrow> ('w \<times> evidence_budget, source_evidence list) act" where
  "source_each os s [] = aret []"
| "source_each os s (i # is) =
     abind (source_record os s i) (\<lambda>e.
     abind (source_each os s is) (\<lambda>es. aret (e # es)))"

definition source_records ::
  "'w store_os \<Rightarrow> store \<Rightarrow> ('w \<times> evidence_budget, source_evidence list) act" where
  "source_records os s =
     abind (outside (unchanged os s)) (\<lambda>_.
     abind (check_deadline os) (\<lambda>_.
     abind (outside (js_list os (so_directory s))) (\<lambda>entries.
     abind (source_names os entries []) (\<lambda>names.
     abind (source_each os s names) (\<lambda>es.
     abind (outside (unchanged os s)) (\<lambda>_.
     abind (check_deadline os) (\<lambda>_. aret es)))))))"

end
