(* ===== verification/Journal_Store_Protocol.thy ===== *)
theory Journal_Store_Protocol
  imports Journal_Store
begin

text \<open>
  The publication of a record as a protocol over the calls that read or change the directory, and
  what these calls leave on the disk. The store is observed by \<open>logged_store\<close>, which runs it
  unchanged and keeps the calls with their outcomes; a monitor says which call may follow which;
  a model of the disk says which directories a power loss may leave behind.
\<close>

section \<open>Calls\<close>

datatype store_event =
    SeMkdir fd bytes "unit io_result"
  | SeOpenLock fd bool "fd io_result"
  | SeFlock fd "unit io_result"
  | SeDrop fd
  | SeRead fd int "bytes io_result"
  | SeCreate fd bytes "fd io_result"
  | SeWrite fd bytes "unit io_result"
  | SeFullSync fd "unit io_result"
  | SeFsync fd "unit io_result"
  | SeRename fd bytes bytes "unit io_result"
  | SeUnlink fd bytes "unit io_result"

definition logged_store :: "'w store_os \<Rightarrow> ('w \<times> store_event list) store_os" where
  "logged_store os = \<lparr>
     js_open_dir = (\<lambda>p. pass (js_open_dir os p)),
     js_mkdirat = (\<lambda>d n. noted (SeMkdir d n) (js_mkdirat os d n)),
     js_fstat = (\<lambda>f. pass (js_fstat os f)),
     js_fstatfs_flags = (\<lambda>f. pass (js_fstatfs_flags os f)),
     js_statat = (\<lambda>d n. pass (js_statat os d n)),
     js_has_acl = (\<lambda>f. pass (js_has_acl os f)),
     js_openat_lock = (\<lambda>d c. noted (SeOpenLock d c) (js_openat_lock os d c)),
     js_flock = (\<lambda>f. noted (SeFlock f) (js_flock os f)),
     js_drop = (\<lambda>f s. (js_drop os f (fst s), snd s @ [SeDrop f])),
     js_openat_new = (\<lambda>d n. noted (SeCreate d n) (js_openat_new os d n)),
     js_openat_read = (\<lambda>d n. pass (js_openat_read os d n)),
     js_list = (\<lambda>d. pass (js_list os d)),
     js_read = (\<lambda>f n. noted (SeRead f n) (js_read os f n)),
     js_write_all = (\<lambda>f bs. noted (SeWrite f bs) (js_write_all os f bs)),
     js_full_sync = (\<lambda>f. noted (SeFullSync f) (js_full_sync os f)),
     js_fsync = (\<lambda>f. noted (SeFsync f) (js_fsync os f)),
     js_renameat = (\<lambda>d a b. noted (SeRename d a b) (js_renameat os d a b)),
     js_unlinkat = (\<lambda>d n. noted (SeUnlink d n) (js_unlinkat os d n)),
     js_wall = pass (js_wall os),
     js_instant = pass (js_instant os),
     js_next_id = pass (js_next_id os),
     js_pid = js_pid os, js_euid = js_euid os, js_parse = js_parse os, js_print = js_print os,
     js_digest = js_digest os, js_dbg = js_dbg os\<rparr>"

section \<open>The disk\<close>

text \<open>
  A file of the directory is one that was there before (\<open>Kept\<close>, with its contents) or the
  \<open>k\<close>th one created since (\<open>Created\<close>). A change of the directory waits until \<open>fsync\<close> on the
  directory has sent it to the drive and a full sync has flushed the drive; a power loss in between
  keeps any part of the waiting changes. A failed rename or unlink may have happened; a failed open
  creates nothing. \<open>dk_settled\<close> holds the durable directories that are possible.
\<close>

datatype stored = Kept bytes | Created nat

type_synonym names = "bytes \<rightharpoonup> stored"

datatype name_op = LinkFile bytes nat | MoveName bytes bytes | DropName bytes

fun apply_op :: "name_op \<Rightarrow> names \<Rightarrow> names" where
  "apply_op (LinkFile n k) m = m(n \<mapsto> Created k)"
| "apply_op (MoveName a b) m = (case m a of None \<Rightarrow> m | Some f \<Rightarrow> (m(b \<mapsto> f))(a := None))"
| "apply_op (DropName n) m = m(n := None)"

record waiting =
  wt_sent :: bool
  wt_certain :: bool
  wt_op :: name_op

datatype file_state = Unsynced bytes | Synced bytes | Garbled

record disk =
  dk_settled :: "names set"
  dk_waiting :: "waiting list"
  dk_files :: "file_state list"
  dk_open :: "fd \<rightharpoonup> nat"

fun outcomes :: "(bool \<times> name_op) list \<Rightarrow> names \<Rightarrow> names set" where
  "outcomes [] m = {m}"
| "outcomes ((certain, x) # ps) m =
     outcomes ps (apply_op x m) \<union> (if certain then {} else outcomes ps m)"

fun written_state :: "bytes \<Rightarrow> 'a io_result \<Rightarrow> file_state \<Rightarrow> file_state" where
  "written_state bs (Inl _) _ = Garbled"
| "written_state bs (Inr _) (Unsynced old) = Unsynced (old @ bs)"
| "written_state bs (Inr _) (Synced old) = Unsynced (old @ bs)"
| "written_state bs (Inr _) Garbled = Garbled"

fun synced_state :: "file_state \<Rightarrow> file_state" where
  "synced_state (Unsynced bs) = Synced bs"
| "synced_state st = st"

definition change_file :: "fd \<Rightarrow> (file_state \<Rightarrow> file_state) \<Rightarrow> disk \<Rightarrow> disk" where
  "change_file f g k =
     (case dk_open k f of
        None \<Rightarrow> k
      | Some i \<Rightarrow> k\<lparr>dk_files := (dk_files k)[i := g (dk_files k ! i)]\<rparr>)"

definition add_waiting :: "bool \<Rightarrow> name_op \<Rightarrow> disk \<Rightarrow> disk" where
  "add_waiting certain x k =
     k\<lparr>dk_waiting := dk_waiting k @ [\<lparr>wt_sent = False, wt_certain = certain, wt_op = x\<rparr>]\<rparr>"

definition flush :: "disk \<Rightarrow> disk" where
  "flush k = k\<lparr>
     dk_settled := (\<Union>m \<in> dk_settled k.
       outcomes (map (\<lambda>x. (wt_certain x, wt_op x)) (filter wt_sent (dk_waiting k))) m),
     dk_waiting := filter (\<lambda>x. \<not> wt_sent x) (dk_waiting k)\<rparr>"

fun disk_step :: "fd \<Rightarrow> disk \<Rightarrow> store_event \<Rightarrow> disk" where
  "disk_step d k (SeCreate d' n (Inr f)) =
     (if d' \<noteq> d then k
      else let i = length (dk_files k) in
        (add_waiting True (LinkFile n i) k)\<lparr>dk_files := dk_files k @ [Unsynced []], dk_open := (dk_open k)(f \<mapsto> i)\<rparr>)"
| "disk_step d k (SeWrite f bs r) = change_file f (written_state bs r) k"
| "disk_step d k (SeFullSync f (Inr _)) = flush (change_file f synced_state k)"
| "disk_step d k (SeFsync f (Inr _)) =
     (if f \<noteq> d then k else k\<lparr>dk_waiting := map (\<lambda>x. x\<lparr>wt_sent := True\<rparr>) (dk_waiting k)\<rparr>)"
| "disk_step d k (SeRename d' a b r) = (if d' \<noteq> d then k else add_waiting (\<not> isl r) (MoveName a b) k)"
| "disk_step d k (SeUnlink d' n r) = (if d' \<noteq> d then k else add_waiting (\<not> isl r) (DropName n) k)"
| "disk_step d k ev = k"

definition disk_after :: "fd \<Rightarrow> disk \<Rightarrow> store_event list \<Rightarrow> disk" where
  "disk_after d = foldl (disk_step d)"

definition settled_disk :: "(bytes \<rightharpoonup> bytes) \<Rightarrow> disk" where
  "settled_disk before = \<lparr>dk_settled = {\<lambda>n. map_option Kept (before n)}, dk_waiting = [],
     dk_files = [], dk_open = Map.empty\<rparr>"

definition crash_names :: "disk \<Rightarrow> names set" where
  "crash_names k = (\<Union>m \<in> dk_settled k. outcomes (map (\<lambda>x. (False, wt_op x)) (dk_waiting k)) m)"

definition contents_of :: "(nat \<Rightarrow> bytes) \<Rightarrow> stored \<Rightarrow> bytes" where
  "contents_of c f = (case f of Kept bs \<Rightarrow> bs | Created i \<Rightarrow> c i)"

definition keeps_synced :: "(nat \<Rightarrow> bytes) \<Rightarrow> file_state list \<Rightarrow> bool" where
  "keeps_synced c fs \<longleftrightarrow> (\<forall>i < length fs. case fs ! i of Synced bs \<Rightarrow> c i = bs | _ \<Rightarrow> True)"

text \<open>A directory that may be found after the power was lost: what was not synced is arbitrary.\<close>

definition crash_image :: "disk \<Rightarrow> (bytes \<rightharpoonup> bytes) \<Rightarrow> bool" where
  "crash_image k img \<longleftrightarrow>
     (\<exists>m \<in> crash_names k. \<exists>c. keeps_synced c (dk_files k) \<and> img = (\<lambda>n. map_option (contents_of c) (m n)))"

section \<open>The protocol of a publication\<close>

record publication_plan =
  pp_directory :: fd
  pp_id :: bytes
  pp_initial :: bool
  pp_fallback :: "bytes option \<Rightarrow> bytes io_result"
  pp_final :: "bytes io_result"

abbreviation pp_marker :: "publication_plan \<Rightarrow> bytes" where
  "pp_marker P \<equiv> pending_name (pp_id P)"

abbreviation pp_stage :: "publication_plan \<Rightarrow> bytes" where
  "pp_stage P \<equiv> next_name (pp_id P)"

abbreviation pp_name :: "publication_plan \<Rightarrow> bytes" where
  "pp_name P \<equiv> json_name (pp_id P)"

text \<open>
  How far a publication got: the previous record was read (its bytes are kept by every later
  phase), the marker is open, written, synced, linked by a sent directory and durable, then the
  same for the receipt, then the marker is unlinked (successfully or not) and the directory
  synced. \<open>PubStop\<close> follows a call that failed.
\<close>

datatype publish_phase = PubStart | PubFound bytes
  | PubMarker "bytes option" fd | PubMarkerWritten "bytes option" fd
  | PubMarkerSynced "bytes option" fd | PubMarkerSent "bytes option" fd | PubMarked "bytes option"
  | PubStage "bytes option" fd | PubStageWritten "bytes option" fd | PubStageSynced "bytes option" fd
  | PubRenamed "bytes option" fd | PubSent "bytes option" fd | PubCommitted "bytes option"
  | PubUnlinked "bytes option" bool | PubDone "bytes option" bool | PubStop

definition or_stop :: "'a io_result \<Rightarrow> ('a \<Rightarrow> publish_phase) \<Rightarrow> publish_phase" where
  "or_stop r after = (case r of Inr a \<Rightarrow> after a | Inl _ \<Rightarrow> PubStop)"

definition create_step ::
  "publication_plan \<Rightarrow> publish_phase \<Rightarrow> bytes \<Rightarrow> fd io_result \<Rightarrow> publish_phase option" where
  "create_step P ph n r =
     (case ph of
        PubStart \<Rightarrow> if pp_initial P \<and> n = pp_marker P then Some (or_stop r (PubMarker None)) else None
      | PubFound bs \<Rightarrow> if n = pp_marker P then Some (or_stop r (PubMarker (Some bs))) else None
      | PubMarked p \<Rightarrow> if n = pp_stage P then Some (or_stop r (PubStage p)) else None
      | _ \<Rightarrow> None)"

definition write_step ::
  "publication_plan \<Rightarrow> publish_phase \<Rightarrow> fd \<Rightarrow> bytes \<Rightarrow> unit io_result \<Rightarrow> publish_phase option" where
  "write_step P ph f bs r =
     (case ph of
        PubMarker p m \<Rightarrow>
          if f = m \<and> pp_fallback P p = Inr bs then Some (or_stop r (\<lambda>_. PubMarkerWritten p m)) else None
      | PubStage p g \<Rightarrow>
          if f = g \<and> pp_final P = Inr bs then Some (or_stop r (\<lambda>_. PubStageWritten p g)) else None
      | _ \<Rightarrow> None)"

definition full_sync_step :: "publish_phase \<Rightarrow> fd \<Rightarrow> unit io_result \<Rightarrow> publish_phase option" where
  "full_sync_step ph f r =
     (case ph of
        PubMarkerWritten p m \<Rightarrow> if f = m then Some (or_stop r (\<lambda>_. PubMarkerSynced p m)) else None
      | PubMarkerSent p m \<Rightarrow> if f = m then Some (or_stop r (\<lambda>_. PubMarked p)) else None
      | PubStageWritten p g \<Rightarrow> if f = g then Some (or_stop r (\<lambda>_. PubStageSynced p g)) else None
      | PubSent p g \<Rightarrow> if f = g then Some (or_stop r (\<lambda>_. PubCommitted p)) else None
      | _ \<Rightarrow> None)"

definition fsync_step :: "publish_phase \<Rightarrow> unit io_result \<Rightarrow> publish_phase option" where
  "fsync_step ph r =
     (case ph of
        PubMarkerSynced p m \<Rightarrow> Some (or_stop r (\<lambda>_. PubMarkerSent p m))
      | PubRenamed p g \<Rightarrow> Some (or_stop r (\<lambda>_. PubSent p g))
      | PubUnlinked p True \<Rightarrow> Some (PubDone p (\<not> isl r))
      | _ \<Rightarrow> None)"

fun publish_step ::
  "publication_plan \<Rightarrow> publish_phase \<Rightarrow> store_event \<Rightarrow> publish_phase option" where
  "publish_step P ph (SeRead f n r) =
     (if ph = PubStart \<and> \<not> pp_initial P then Some (or_stop r PubFound) else None)"
| "publish_step P ph (SeCreate d n r) = (if d = pp_directory P then create_step P ph n r else None)"
| "publish_step P ph (SeWrite f bs r) = write_step P ph f bs r"
| "publish_step P ph (SeFullSync f r) = full_sync_step ph f r"
| "publish_step P ph (SeFsync f r) = (if f = pp_directory P then fsync_step ph r else None)"
| "publish_step P ph (SeRename d a b r) =
     (case ph of
        PubStageSynced p g \<Rightarrow>
          if d = pp_directory P \<and> a = pp_stage P \<and> b = pp_name P
          then Some (or_stop r (\<lambda>_. PubRenamed p g)) else None
      | _ \<Rightarrow> None)"
| "publish_step P ph (SeUnlink d n r) =
     (case ph of
        PubCommitted p \<Rightarrow>
          if d = pp_directory P \<and> n = pp_marker P then Some (PubUnlinked p (\<not> isl r)) else None
      | _ \<Rightarrow> None)"
| "publish_step P ph ev = None"

fun committed :: "publish_phase \<Rightarrow> bool" where
  "committed (PubCommitted p) = True"
| "committed (PubUnlinked p u) = True"
| "committed (PubDone p u) = True"
| "committed _ = False"

definition publication_of :: "'w store_os \<Rightarrow> store \<Rightarrow> journal_record \<Rightarrow> bool \<Rightarrow> publication_plan" where
  "publication_of os s r initial = \<lparr>
     pp_directory = so_directory s, pp_id = jr_operation_id r, pp_initial = initial,
     pp_fallback = (\<lambda>p. case p of
         None \<Rightarrow> js_print os (conservative None r)
       | Some bs \<Rightarrow> rbind (js_parse os bs) (\<lambda>old. js_print os (conservative (Some old) r))),
     pp_final = js_print os r\<rparr>"

section \<open>The store follows the protocol\<close>

lemma logged_store_calls:
  "js_openat_new (logged_store os) d n = noted (SeCreate d n) (js_openat_new os d n)"
  "js_write_all (logged_store os) f bs = noted (SeWrite f bs) (js_write_all os f bs)"
  "js_full_sync (logged_store os) f = noted (SeFullSync f) (js_full_sync os f)"
  "js_fsync (logged_store os) f = noted (SeFsync f) (js_fsync os f)"
  "js_renameat (logged_store os) d a b = noted (SeRename d a b) (js_renameat os d a b)"
  "js_unlinkat (logged_store os) d n = noted (SeUnlink d n) (js_unlinkat os d n)"
  "js_read (logged_store os) f n' = noted (SeRead f n') (js_read os f n')"
  by (simp_all add: logged_store_def)

lemma logged_store_library [simp]:
  "js_print (logged_store os) = js_print os" "js_parse (logged_store os) = js_parse os"
  "js_dbg (logged_store os) = js_dbg os" "js_euid (logged_store os) = js_euid os"
  "js_digest (logged_store os) = js_digest os" "js_pid (logged_store os) = js_pid os"
  by (simp_all add: logged_store_def)

lemma logged_checks [simp]:
  "regular_private (logged_store os) = regular_private os"
  "private_directory (logged_store os) = private_directory os"
  by (simp_all add: regular_private_def private_directory_def fun_eq_iff)

lemma quiet_store_reads [quiet_intros]:
  "quiet (js_open_dir (logged_store os) p)" "quiet (js_fstat (logged_store os) f)"
  "quiet (js_statat (logged_store os) d n)" "quiet (js_has_acl (logged_store os) f)"
  "quiet (js_openat_read (logged_store os) d n)"
  by (simp_all add: logged_store_def quiet_pass)

lemma quiet_store_checks [quiet_intros]:
  "quiet (check_acl (logged_store os) f)" "quiet (check_file (logged_store os) f)"
  "quiet (unchanged (logged_store os) s)"
  unfolding check_acl_def check_file_def unchanged_def by (intro quiet_intros)+

text \<open>What a publication leaves: a success means that the receipt is durable.\<close>

definition published :: "'a io_result \<Rightarrow> publish_phase \<Rightarrow> bool" where
  "published r ph \<longleftrightarrow> isl r \<or> committed ph"

lemma published_Inl [simp]: "published (Inl e) ph"
  by (simp add: published_def)

lemma publish_call:
  assumes "\<And>r. publish_step P ph (ev r) = Some (or_stop r after)"
    and "\<And>a. leads (publish_step P) PubStart (after a) (f a) published"
  shows "leads (publish_step P) PubStart ph (abind (noted ev m) f) published"
  by (rule leads_step [where after = "\<lambda>r. or_stop r after"]) (use assms in \<open>auto simp: or_stop_def\<close>)

lemma publish_read:
  assumes "quiet m" and "\<And>a. leads (publish_step P) PubStart ph (f a) published"
  shows "leads (publish_step P) PubStart ph (abind m f) published"
  by (rule leads_read) (use assms in auto)

lemma publish_known:
  assumes "\<And>a. x = Inr a \<Longrightarrow> leads (publish_step P) PubStart ph (f a) published"
  shows "leads (publish_step P) PubStart ph (abind (alift x) f) published"
  using assms by (cases x) (auto simp: leads_def abind_def)

lemma publish_refused: "leads (publish_step P) PubStart ph (afail e) published"
  by (rule leads_afail) simp

lemma publish_snapshot:
  assumes "\<And>r. publish_step P ph (SeCreate (so_directory s) n r) = Some (or_stop r opened)"
    and "\<And>f bs r. js_print os rec = Inr bs \<Longrightarrow>
       publish_step P (opened f) (SeWrite f bs r) = Some (or_stop r (\<lambda>_. written f))"
    and "\<And>f r. publish_step P (written f) (SeFullSync f r) = Some (or_stop r (\<lambda>_. synced f))"
    and "\<And>f. leads (publish_step P) PubStart (synced f) (k f) published"
  shows "leads (publish_step P) PubStart ph (abind (write_snapshot (logged_store os) s n rec) k) published"
proof -
  have fill: "leads (publish_step P) PubStart (opened f) (abind (check_file (logged_store os) f) (\<lambda>_.
      abind (noted (SeWrite f bs) w) (\<lambda>_. abind (noted (SeFullSync f) y) (\<lambda>_. k f)))) published"
    if "js_print os rec = Inr bs" for f bs w y
  proof (rule publish_read [OF quiet_store_checks(2)])
    show "leads (publish_step P) PubStart (opened f)
        (abind (noted (SeWrite f bs) w) (\<lambda>_. abind (noted (SeFullSync f) y) (\<lambda>_. k f))) published"
    proof (rule publish_call [where after = "\<lambda>_. written f"])
      show "leads (publish_step P) PubStart (written f) (abind (noted (SeFullSync f) y) (\<lambda>_. k f)) published"
        by (rule publish_call [where after = "\<lambda>_. synced f"]) (rule assms(3), rule assms(4))
    qed (rule assms(2) [OF that])
  qed
  have create: "leads (publish_step P) PubStart ph (abind (noted (SeCreate (so_directory s) n) c) (\<lambda>f.
      abind (check_file (logged_store os) f) (\<lambda>_.
      abind (noted (SeWrite f bs) (w f)) (\<lambda>_. abind (noted (SeFullSync f) (y f)) (\<lambda>_. k f))))) published"
    if "js_print os rec = Inr bs" for c bs w y
    by (rule publish_call [where after = opened]) (rule assms(1), rule fill [OF that])
  show ?thesis
    unfolding write_snapshot_def monad_laws logged_store_calls logged_store_library
    by (rule publish_known, rule publish_known) (simp add: publish_refused create)
qed

lemma publish_remove:
  assumes "pp_directory P = so_directory s"
  shows "leads (publish_step P) PubStart (PubCommitted p)
    (remove_marker (logged_store os) s (pp_marker P) (\<lambda>_. aret ())) (\<lambda>_. committed)"
  unfolding remove_marker_def monad_laws logged_store_calls
proof (rule leads_read [OF quiet_store_checks(3)])
  show "leads (publish_step P) PubStart (PubCommitted p)
      (abind (noted (SeUnlink (so_directory s) (pp_marker P)) (js_unlinkat os (so_directory s) (pp_marker P)))
        (\<lambda>_. noted (SeFsync (so_directory s)) (js_fsync os (so_directory s)))) (\<lambda>_. committed)"
  proof (rule leads_step [where after = "\<lambda>r. PubUnlinked p (\<not> isl r)"])
    show "leads (publish_step P) PubStart (PubUnlinked p (\<not> isl (Inr a)))
        (noted (SeFsync (so_directory s)) (js_fsync os (so_directory s))) (\<lambda>_. committed)" for a :: unit
      by (rule leads_noted [where after = "\<lambda>r. PubDone p (\<not> isl r)"])
         (simp_all add: assms fsync_step_def)
  qed (simp_all add: assms)
qed simp

text \<open>The phase after the previous record was looked up.\<close>

definition looked_up :: "publication_plan \<Rightarrow> bytes option \<Rightarrow> publish_phase" where
  "looked_up P p = (case p of None \<Rightarrow> PubStart | Some bs \<Rightarrow> PubFound bs)"

definition previous_of :: "'w store_os \<Rightarrow> bytes option \<Rightarrow> journal_record option \<Rightarrow> bool" where
  "previous_of os p previous \<longleftrightarrow>
     (case p of None \<Rightarrow> previous = None | Some bs \<Rightarrow> \<exists>old. js_parse os bs = Inr old \<and> previous = Some old)"

lemma publish_previous:
  assumes "pp_initial P = initial"
    and "\<And>p previous. previous_of os p previous \<Longrightarrow> (p = None \<longleftrightarrow> initial) \<Longrightarrow>
       leads (publish_step P) PubStart (looked_up P p) (k previous) published"
  shows "leads (publish_step P) PubStart PubStart
    (abind (previous_record (logged_store os) s n initial) k) published"
proof (cases initial)
  case True
  have start: "leads (publish_step P) PubStart PubStart (k None) published"
    using assms(2) [of None None] True by (simp add: previous_of_def looked_up_def)
  have "leads (publish_step P) PubStart PubStart (amatch (js_statat (logged_store os) (so_directory s) n) (\<lambda>r.
      case r of
        Inl (Io NotFoundKind _) \<Rightarrow> aret None
      | Inr _ \<Rightarrow> afail (invalid ''journal operation identifier already exists'')
      | Inl e \<Rightarrow> afail e)) (\<lambda>r ph. ph = PubStart \<and> (isl r \<or> r = Inr None))"
    by (rule leads_quiet_result [OF quiet_amatch])
       (auto intro!: quiet_intros simp: amatch_def split: sum.splits io_error.splits io_kind.splits prod.splits)
  then show ?thesis
    unfolding previous_record_def if_P [OF True]
    by (rule leads_abind) (auto intro: start)
next
  case False
  have found: "leads (publish_step P) PubStart (PubFound bs) (k (Some old)) published"
    if "js_parse os bs = Inr old" for bs old
    using assms(2) [of "Some bs" "Some old"] that False by (simp add: previous_of_def looked_up_def)
  have parsed: "leads (publish_step P) PubStart (PubFound bs)
      (if max_record_bytes < int (length bs) then afail e
       else abind (alift (js_parse os bs)) (\<lambda>r. abind (alift (v r)) (\<lambda>_. if c r then afail e' else k (Some r)))) published"
    for bs e e' v c
    by (auto intro!: publish_known publish_refused found)
  have reading: "leads (publish_step P) PubStart PubStart (abind (noted (SeRead f n) m) (\<lambda>bs.
      if max_record_bytes < int (length bs) then afail e
      else abind (alift (js_parse os bs)) (\<lambda>r. abind (alift (v r)) (\<lambda>_. if c r then afail e' else k (Some r))))) published"
    for f n m e e' v c
    by (rule publish_call [where after = PubFound]) (simp add: assms(1) False, rule parsed)
  show ?thesis
    unfolding previous_record_def if_not_P [OF False] read_record_def monad_laws logged_store_calls
      logged_store_library prod.case
    by (rule publish_read [OF quiet_store_reads(5)], rule publish_read [OF quiet_store_checks(2)],
        rule reading)
qed

lemma publication_fields [simp]:
  "pp_directory (publication_of os s r initial) = so_directory s"
  "pp_id (publication_of os s r initial) = jr_operation_id r"
  "pp_initial (publication_of os s r initial) = initial"
  "pp_final (publication_of os s r initial) = js_print os r"
  by (simp_all add: publication_of_def)

lemma fallback_of:
  "previous_of os p previous \<Longrightarrow>
     pp_fallback (publication_of os s r initial) p = js_print os (conservative previous r)"
  by (auto simp: publication_of_def previous_of_def split: option.splits)

lemma publish_stage:
  fixes r initial os s
  defines "P \<equiv> publication_of os s r initial"
  shows "leads (publish_step P) PubStart (PubMarked p)
    (abind (write_snapshot (logged_store os) s (next_name (jr_operation_id r)) r) (\<lambda>g.
     abind (unchanged (logged_store os) s) (\<lambda>_.
     abind (noted (SeRename (so_directory s) (next_name (jr_operation_id r)) (json_name (jr_operation_id r))) x1) (\<lambda>_.
     abind (noted (SeFsync (so_directory s)) x2) (\<lambda>_.
     abind (noted (SeFullSync g) (x3 g)) (\<lambda>_.
     amatch (remove_marker (logged_store os) s (pending_name (jr_operation_id r)) (\<lambda>_. aret ())) (\<lambda>c.
       aret (f c)))))))) published"
proof (rule publish_snapshot [where opened = "PubStage p" and written = "PubStageWritten p" and synced = "PubStageSynced p"])
  fix g
  have cleaned: "leads (publish_step P) PubStart (PubCommitted p)
      (amatch (remove_marker (logged_store os) s (pending_name (jr_operation_id r)) (\<lambda>_. aret ())) (\<lambda>c. aret (f c))) published"
    using publish_remove [of P s p os]
    by (auto intro!: leads_amatch leads_aret simp: P_def published_def)
  have flushed: "leads (publish_step P) PubStart (PubSent p g) (abind (noted (SeFullSync g) (x3 g)) (\<lambda>_.
      amatch (remove_marker (logged_store os) s (pending_name (jr_operation_id r)) (\<lambda>_. aret ())) (\<lambda>c. aret (f c)))) published"
    by (rule publish_call [where after = "\<lambda>_. PubCommitted p"]) (simp add: full_sync_step_def, rule cleaned)
  have sent: "leads (publish_step P) PubStart (PubRenamed p g) (abind (noted (SeFsync (so_directory s)) x2) (\<lambda>_.
      abind (noted (SeFullSync g) (x3 g)) (\<lambda>_.
      amatch (remove_marker (logged_store os) s (pending_name (jr_operation_id r)) (\<lambda>_. aret ())) (\<lambda>c. aret (f c))))) published"
    by (rule publish_call [where after = "\<lambda>_. PubSent p g"]) (simp add: fsync_step_def P_def, rule flushed)
  show "leads (publish_step P) PubStart (PubStageSynced p g) (abind (unchanged (logged_store os) s) (\<lambda>_.
     abind (noted (SeRename (so_directory s) (next_name (jr_operation_id r)) (json_name (jr_operation_id r))) x1) (\<lambda>_.
     abind (noted (SeFsync (so_directory s)) x2) (\<lambda>_.
     abind (noted (SeFullSync g) (x3 g)) (\<lambda>_.
     amatch (remove_marker (logged_store os) s (pending_name (jr_operation_id r)) (\<lambda>_. aret ())) (\<lambda>c.
       aret (f c))))))) published"
  proof (rule publish_read [OF quiet_store_checks(3)], rule publish_call [where after = "\<lambda>_. PubRenamed p g"])
  qed (simp add: P_def, rule sent)
qed (simp_all add: P_def create_step_def write_step_def full_sync_step_def)

lemma publish_marker:
  fixes r initial os s
  defines "P \<equiv> publication_of os s r initial"
  assumes "previous_of os p previous" and "p = None \<longleftrightarrow> initial"
    and "leads (publish_step P) PubStart (PubMarked p) k published"
  shows "leads (publish_step P) PubStart (looked_up P p)
    (abind (write_snapshot (logged_store os) s (pending_name (jr_operation_id r)) (conservative previous r)) (\<lambda>m.
     abind (noted (SeFsync (so_directory s)) x1) (\<lambda>_.
     abind (noted (SeFullSync m) (x2 m)) (\<lambda>_. k)))) published"
proof (rule publish_snapshot [where opened = "PubMarker p" and written = "PubMarkerWritten p" and synced = "PubMarkerSynced p"])
  fix m
  have sent: "leads (publish_step P) PubStart (PubMarkerSent p m) (abind (noted (SeFullSync m) (x2 m)) (\<lambda>_. k)) published"
    by (rule publish_call [where after = "\<lambda>_. PubMarked p"]) (simp add: full_sync_step_def, rule assms(4))
  show "leads (publish_step P) PubStart (PubMarkerSynced p m) (abind (noted (SeFsync (so_directory s)) x1) (\<lambda>_.
     abind (noted (SeFullSync m) (x2 m)) (\<lambda>_. k))) published"
    by (rule publish_call [where after = "\<lambda>_. PubMarkerSent p m"]) (simp add: fsync_step_def P_def, rule sent)
next
  fix f bs and x :: "unit io_result"
  assume "js_print os (conservative previous r) = Inr bs"
  then show "publish_step P (PubMarker p f) (SeWrite f bs x) = Some (or_stop x (\<lambda>_. PubMarkerWritten p f))"
    using fallback_of [OF assms(2)] by (simp add: write_step_def P_def)
qed (use assms(3) in \<open>auto simp: P_def looked_up_def create_step_def full_sync_step_def split: option.splits\<close>)

lemma publish_leads:
  "leads (publish_step (publication_of os s r initial)) PubStart PubStart
     (publish (logged_store os) s r initial) published"
  unfolding publish_def publish_with_def Let_def logged_store_calls logged_store_library monad_laws
proof (rule publish_known, rule publish_read [OF quiet_store_checks(3)], rule publish_previous)
qed (simp, rule publish_marker, assumption+, rule publish_stage)

text \<open>The log of every publication is accepted, and a success is committed.\<close>

lemma publish_accepted:
  assumes "publish (logged_store os) s r initial (w, []) = (x, w', l)"
  obtains ph where "trace_run (publish_step (publication_of os s r initial)) PubStart l = Some ph"
    and "published x ph"
  using leadsD [OF publish_leads _ assms] by auto

end
