(* ===== verification/Journal_Store_Crash.thy ===== *)
theory Journal_Store_Crash
  imports Journal_Store_Protocol
begin

text \<open>
  What a power loss leaves of a publication: the state of the disk in every phase of the protocol,
  and the directories that may be found afterwards.
\<close>

section \<open>The disk in every phase\<close>

lemma publication_names [simp]:
  "pending_name i \<noteq> next_name j" "next_name j \<noteq> pending_name i"
  "pending_name i \<noteq> json_name j" "json_name j \<noteq> pending_name i"
  "next_name i \<noteq> json_name j" "json_name j \<noteq> next_name i"
  by (auto simp: pending_name_def next_name_def json_name_def dest: arg_cong [where f = last])

definition waits :: "bool \<Rightarrow> bool \<Rightarrow> name_op \<Rightarrow> waiting" where
  "waits sent certain x = \<lparr>wt_sent = sent, wt_certain = certain, wt_op = x\<rparr>"

lemma waits_simps [simp]:
  "wt_sent (waits a b x) = a" "wt_certain (waits a b x) = b" "wt_op (waits a b x) = x"
  "(waits a b x)\<lparr>wt_sent := c\<rparr> = waits c b x"
  by (simp_all add: waits_def)

definition disk_shape :: "names set \<Rightarrow> waiting list \<Rightarrow> file_state list \<Rightarrow> disk \<Rightarrow> bool" where
  "disk_shape settled ws fs k \<longleftrightarrow> dk_settled k = settled \<and> dk_waiting k = ws \<and> dk_files k = fs"

definition marker_op :: "publication_plan \<Rightarrow> name_op" where
  "marker_op P = LinkFile (pp_marker P) 0"

definition stage_op :: "publication_plan \<Rightarrow> name_op" where
  "stage_op P = LinkFile (pp_stage P) 1"

definition receipt_op :: "publication_plan \<Rightarrow> name_op" where
  "receipt_op P = MoveName (pp_stage P) (pp_name P)"

definition marked :: "publication_plan \<Rightarrow> names \<Rightarrow> names" where
  "marked P m = apply_op (marker_op P) m"

definition received :: "publication_plan \<Rightarrow> names \<Rightarrow> names" where
  "received P m = apply_op (receipt_op P) (apply_op (stage_op P) (marked P m))"

text \<open>The texts of the marker and of the receipt, which are known once they were written.\<close>

definition marker_text :: "publication_plan \<Rightarrow> bytes option \<Rightarrow> bytes" where
  "marker_text P p = projr (pp_fallback P p)"

definition receipt_text :: "publication_plan \<Rightarrow> bytes" where
  "receipt_text P = projr (pp_final P)"

definition marker_known :: "publication_plan \<Rightarrow> bytes option \<Rightarrow> bool" where
  "marker_known P p \<longleftrightarrow> pp_fallback P p = Inr (marker_text P p)"

definition receipt_known :: "publication_plan \<Rightarrow> bool" where
  "receipt_known P \<longleftrightarrow> pp_final P = Inr (receipt_text P)"

fun disk_is :: "publication_plan \<Rightarrow> names \<Rightarrow> publish_phase \<Rightarrow> disk \<Rightarrow> bool" where
  "disk_is P m PubStart k \<longleftrightarrow> disk_shape {m} [] [] k"
| "disk_is P m (PubFound bs) k \<longleftrightarrow> disk_shape {m} [] [] k"
| "disk_is P m (PubMarker p f) k \<longleftrightarrow>
     disk_shape {m} [waits False True (marker_op P)] [Unsynced []] k \<and> dk_open k f = Some 0"
| "disk_is P m (PubMarkerWritten p f) k \<longleftrightarrow> marker_known P p \<and>
     disk_shape {m} [waits False True (marker_op P)] [Unsynced (marker_text P p)] k \<and> dk_open k f = Some 0"
| "disk_is P m (PubMarkerSynced p f) k \<longleftrightarrow> marker_known P p \<and>
     disk_shape {m} [waits False True (marker_op P)] [Synced (marker_text P p)] k \<and> dk_open k f = Some 0"
| "disk_is P m (PubMarkerSent p f) k \<longleftrightarrow> marker_known P p \<and>
     disk_shape {m} [waits True True (marker_op P)] [Synced (marker_text P p)] k \<and> dk_open k f = Some 0"
| "disk_is P m (PubMarked p) k \<longleftrightarrow> marker_known P p \<and>
     disk_shape {marked P m} [] [Synced (marker_text P p)] k"
| "disk_is P m (PubStage p g) k \<longleftrightarrow> marker_known P p \<and>
     disk_shape {marked P m} [waits False True (stage_op P)] [Synced (marker_text P p), Unsynced []] k
     \<and> dk_open k g = Some 1"
| "disk_is P m (PubStageWritten p g) k \<longleftrightarrow> marker_known P p \<and> receipt_known P \<and>
     disk_shape {marked P m} [waits False True (stage_op P)]
       [Synced (marker_text P p), Unsynced (receipt_text P)] k \<and> dk_open k g = Some 1"
| "disk_is P m (PubStageSynced p g) k \<longleftrightarrow> marker_known P p \<and> receipt_known P \<and>
     disk_shape {marked P m} [waits False True (stage_op P)]
       [Synced (marker_text P p), Synced (receipt_text P)] k \<and> dk_open k g = Some 1"
| "disk_is P m (PubRenamed p g) k \<longleftrightarrow> marker_known P p \<and> receipt_known P \<and>
     disk_shape {marked P m} [waits False True (stage_op P), waits False True (receipt_op P)]
       [Synced (marker_text P p), Synced (receipt_text P)] k \<and> dk_open k g = Some 1"
| "disk_is P m (PubSent p g) k \<longleftrightarrow> marker_known P p \<and> receipt_known P \<and>
     disk_shape {marked P m} [waits True True (stage_op P), waits True True (receipt_op P)]
       [Synced (marker_text P p), Synced (receipt_text P)] k \<and> dk_open k g = Some 1"
| "disk_is P m (PubCommitted p) k \<longleftrightarrow> marker_known P p \<and> receipt_known P \<and>
     disk_shape {received P m} [] [Synced (marker_text P p), Synced (receipt_text P)] k"
| "disk_is P m (PubUnlinked p u) k \<longleftrightarrow> marker_known P p \<and> receipt_known P \<and>
     disk_shape {received P m} [waits False u (DropName (pp_marker P))]
       [Synced (marker_text P p), Synced (receipt_text P)] k"
| "disk_is P m (PubDone p v) k \<longleftrightarrow> marker_known P p \<and> receipt_known P \<and>
     disk_shape {received P m} [waits v True (DropName (pp_marker P))]
       [Synced (marker_text P p), Synced (receipt_text P)] k"
| "disk_is P m PubStop k \<longleftrightarrow> True"

lemma or_stop_cases:
  "or_stop r after = ph \<longleftrightarrow> (case r of Inl e \<Rightarrow> ph = PubStop | Inr a \<Rightarrow> ph = after a)"
  by (auto simp: or_stop_def split: sum.splits)

lemmas disk_simps = disk_shape_def change_file_def add_waiting_def flush_def Let_def
  marked_def received_def

lemma disk_is_step:
  assumes "disk_is P m ph k" and "publish_step P ph ev = Some ph'"
  shows "disk_is P m ph' (disk_step (pp_directory P) k ev)"
proof (cases ev)
  case (SeCreate d n r)
  then show ?thesis using assms
    by (cases r; cases ph)
       (auto simp: create_step_def or_stop_def disk_simps waits_def marker_op_def stage_op_def split: if_splits)
next
  case (SeWrite f bs r)
  then show ?thesis using assms
    by (cases r; cases ph)
       (auto simp: write_step_def or_stop_def disk_simps marker_known_def receipt_known_def
          marker_text_def receipt_text_def split: if_splits)
next
  case (SeFullSync f r)
  then show ?thesis using assms
    by (cases r; cases ph) (auto simp: full_sync_step_def or_stop_def disk_simps split: if_splits)
next
  case (SeFsync f r)
  then show ?thesis using assms
    by (cases r; cases ph) (auto simp: fsync_step_def or_stop_def disk_simps split: if_splits bool.splits)
next
  case (SeRename d a b r)
  then show ?thesis using assms
    by (cases r; cases ph) (auto simp: or_stop_def disk_simps waits_def receipt_op_def split: if_splits)
next
  case (SeUnlink d n r)
  then show ?thesis using assms
    by (cases r; cases ph) (auto simp: disk_simps waits_def split: if_splits)
next
  case (SeRead f n r)
  then show ?thesis using assms by (cases r) (auto simp: or_stop_def split: if_splits)
qed (use assms in auto)

section \<open>What may be found\<close>

definition base_names :: "(bytes \<rightharpoonup> bytes) \<Rightarrow> names" where
  "base_names before = (\<lambda>n. map_option Kept (before n))"

definition others_kept :: "publication_plan \<Rightarrow> (bytes \<rightharpoonup> bytes) \<Rightarrow> (bytes \<rightharpoonup> bytes) \<Rightarrow> bool" where
  "others_kept P before img \<longleftrightarrow> (\<forall>n. n \<in> {pp_name P, pp_marker P, pp_stage P} \<or> img n = before n)"

definition image_kept :: "publication_plan \<Rightarrow> (bytes \<rightharpoonup> bytes) \<Rightarrow> (bytes \<rightharpoonup> bytes) \<Rightarrow> bool" where
  "image_kept P before img \<longleftrightarrow> img (pp_name P) = before (pp_name P)
     \<and> (img (pp_marker P) = before (pp_marker P) \<or> img (pp_marker P) \<noteq> None)"

definition image_marked ::
  "publication_plan \<Rightarrow> bytes option \<Rightarrow> (bytes \<rightharpoonup> bytes) \<Rightarrow> (bytes \<rightharpoonup> bytes) \<Rightarrow> bool" where
  "image_marked P p before img \<longleftrightarrow> marker_known P p \<and> img (pp_marker P) = Some (marker_text P p)
     \<and> (img (pp_name P) = before (pp_name P)
        \<or> receipt_known P \<and> img (pp_name P) = Some (receipt_text P))"

definition image_received :: "publication_plan \<Rightarrow> bytes option \<Rightarrow> (bytes \<rightharpoonup> bytes) \<Rightarrow> bool" where
  "image_received P p img \<longleftrightarrow> receipt_known P \<and> img (pp_name P) = Some (receipt_text P)
     \<and> (img (pp_marker P) = None \<or> marker_known P p \<and> img (pp_marker P) = Some (marker_text P p))"

text \<open>The part of the protocol a phase belongs to: what a crash may leave is the same in all of it.\<close>

fun found_in :: "publication_plan \<Rightarrow> (bytes \<rightharpoonup> bytes) \<Rightarrow> publish_phase \<Rightarrow> (bytes \<rightharpoonup> bytes) \<Rightarrow> bool" where
  "found_in P before PubStart img \<longleftrightarrow> image_kept P before img"
| "found_in P before (PubFound bs) img \<longleftrightarrow> image_kept P before img"
| "found_in P before (PubMarker p f) img \<longleftrightarrow> image_kept P before img"
| "found_in P before (PubMarkerWritten p f) img \<longleftrightarrow> image_kept P before img"
| "found_in P before (PubMarkerSynced p f) img \<longleftrightarrow> image_kept P before img"
| "found_in P before (PubMarkerSent p f) img \<longleftrightarrow> image_kept P before img"
| "found_in P before (PubMarked p) img \<longleftrightarrow> image_marked P p before img"
| "found_in P before (PubStage p g) img \<longleftrightarrow> image_marked P p before img"
| "found_in P before (PubStageWritten p g) img \<longleftrightarrow> image_marked P p before img"
| "found_in P before (PubStageSynced p g) img \<longleftrightarrow> image_marked P p before img"
| "found_in P before (PubRenamed p g) img \<longleftrightarrow> image_marked P p before img"
| "found_in P before (PubSent p g) img \<longleftrightarrow> image_marked P p before img"
| "found_in P before (PubCommitted p) img \<longleftrightarrow> image_received P p img"
| "found_in P before (PubUnlinked p u) img \<longleftrightarrow> image_received P p img"
| "found_in P before (PubDone p v) img \<longleftrightarrow> image_received P p img"
| "found_in P before PubStop img \<longleftrightarrow> True"

lemma crash_names_simps:
  assumes "dk_settled k = {m}"
  shows "dk_waiting k = [] \<Longrightarrow> crash_names k = {m}"
    and "dk_waiting k = [waits a b x] \<Longrightarrow> crash_names k = {apply_op x m, m}"
    and "dk_waiting k = [waits a b x, waits a' b' y] \<Longrightarrow>
      crash_names k = {apply_op y (apply_op x m), apply_op x m, apply_op y m, m}"
  using assms by (auto simp: crash_names_def)

lemma contents_kept: "map_option (contents_of c) (base_names before n) = before n"
  by (cases "before n") (auto simp: base_names_def contents_of_def)

lemmas names_simps = marked_def received_def marker_op_def stage_op_def receipt_op_def contents_kept

lemma crash_imageE:
  assumes "crash_image k img"
  obtains m c where "m \<in> crash_names k" and "keeps_synced c (dk_files k)"
    and "img = (\<lambda>n. map_option (contents_of c) (m n))"
  using assms by (auto simp: crash_image_def)

text \<open>Before the marker is durable, it may be torn, but the receipt is the old one.\<close>

lemma image_early:
  assumes "crash_image k img" and "dk_settled k = {base_names before}"
    and "dk_waiting k = [] \<or> (\<exists>a b. dk_waiting k = [waits a b (marker_op P)])"
  shows "others_kept P before img \<and> image_kept P before img"
proof -
  obtain m c where img: "img = (\<lambda>n. map_option (contents_of c) (m n))" and m: "m \<in> crash_names k"
    using crash_imageE [OF assms(1)] by blast
  have "m = base_names before \<or> m = apply_op (marker_op P) (base_names before)"
    using m assms(3) crash_names_simps [OF assms(2)] by auto
  then show ?thesis
    by (auto simp: img others_kept_def image_kept_def names_simps)
qed

text \<open>Once it is durable, a reader finds the marker, whatever became of the receipt.\<close>

lemma image_staging:
  assumes "crash_image k img" and "dk_settled k = {marked P (base_names before)}"
    and "dk_waiting k = [] \<or> (\<exists>a b. dk_waiting k = [waits a b (stage_op P)])"
    and "marker_known P p" and "dk_files k = Synced (marker_text P p) # fs"
  shows "others_kept P before img \<and> image_marked P p before img"
proof -
  obtain m c where img: "img = (\<lambda>n. map_option (contents_of c) (m n))" and m: "m \<in> crash_names k"
    and c: "keeps_synced c (dk_files k)"
    using crash_imageE [OF assms(1)] by blast
  have "c 0 = marker_text P p" using c assms(5) by (auto simp: keeps_synced_def)
  moreover have "m = marked P (base_names before) \<or> m = apply_op (stage_op P) (marked P (base_names before))"
    using m assms(3) crash_names_simps [OF assms(2)] by auto
  ultimately show ?thesis
    by (auto simp: img others_kept_def image_marked_def names_simps contents_of_def assms(4) split: if_splits)
qed

lemma synced_contents:
  assumes "keeps_synced c (dk_files k)" and "dk_files k = [Synced x, Synced y]"
  shows "c 0 = x" and "c 1 = y"
  using assms by (auto simp: keeps_synced_def numeral_2_eq_2 less_Suc_eq)

lemma image_renaming:
  assumes "crash_image k img" and "dk_settled k = {marked P (base_names before)}"
    and "dk_waiting k = [waits a b (stage_op P), waits a' b' (receipt_op P)]"
    and "marker_known P p" and "receipt_known P"
    and "dk_files k = [Synced (marker_text P p), Synced (receipt_text P)]"
    and "before (pp_stage P) = None"
  shows "others_kept P before img \<and> image_marked P p before img"
proof -
  let ?m = "marked P (base_names before)"
  obtain m c where img: "img = (\<lambda>n. map_option (contents_of c) (m n))" and m: "m \<in> crash_names k"
    and c: "keeps_synced c (dk_files k)"
    using crash_imageE [OF assms(1)] by blast
  have "apply_op (receipt_op P) ?m = ?m"
    using assms(7) by (simp add: names_simps base_names_def)
  then have "m = ?m \<or> m = apply_op (stage_op P) ?m \<or> m = received P (base_names before)"
    using m crash_names_simps(3) [OF assms(2,3)] by (auto simp: received_def)
  then show ?thesis
    using synced_contents [OF c assms(6)] assms(4,5)
    by (auto simp: img others_kept_def image_marked_def names_simps contents_of_def split: if_splits)
qed

text \<open>Once the receipt is durable, it is found, with or without the marker.\<close>

lemma image_late:
  assumes "crash_image k img" and "dk_settled k = {received P (base_names before)}"
    and "dk_waiting k = [] \<or> (\<exists>a b. dk_waiting k = [waits a b (DropName (pp_marker P))])"
    and "marker_known P p" and "receipt_known P"
    and "dk_files k = [Synced (marker_text P p), Synced (receipt_text P)]"
  shows "others_kept P before img \<and> image_received P p img"
proof -
  let ?m = "received P (base_names before)"
  obtain m c where img: "img = (\<lambda>n. map_option (contents_of c) (m n))" and m: "m \<in> crash_names k"
    and c: "keeps_synced c (dk_files k)"
    using crash_imageE [OF assms(1)] by blast
  have "m = ?m \<or> m = apply_op (DropName (pp_marker P)) ?m"
    using m assms(3) crash_names_simps [OF assms(2)] by auto
  then show ?thesis
    using synced_contents [OF c assms(6)] assms(4,5)
    by (auto simp: img others_kept_def image_received_def names_simps contents_of_def split: if_splits)
qed

lemma image_of_phase:
  assumes "disk_is P (base_names before) ph k" and "crash_image k img"
    and "before (pp_stage P) = None" and "ph \<noteq> PubStop"
  shows "others_kept P before img \<and> found_in P before ph img"
  using assms
  by (cases ph)
     (auto simp: disk_shape_def dest: image_early image_staging image_renaming image_late)

section \<open>Every moment of a publication\<close>

lemma stop_is_final: "publish_step P PubStop ev = None"
  by (cases ev) (simp_all add: create_step_def write_step_def full_sync_step_def fsync_step_def)

lemma disk_of_trace:
  "trace_run (publish_step P) PubStart l = Some ph \<Longrightarrow>
     disk_is P (base_names before) ph (disk_after (pp_directory P) (settled_disk before) l)"
proof (induction l arbitrary: ph rule: rev_induct)
  case Nil
  then show ?case
    by (auto simp: disk_after_def settled_disk_def disk_shape_def base_names_def)
next
  case (snoc ev l)
  then obtain ph1 where run: "trace_run (publish_step P) PubStart l = Some ph1"
    and ev: "publish_step P ph1 ev = Some ph"
    by (auto simp: trace_run_append split: option.splits)
  show ?case
    using disk_is_step [OF snoc.IH [OF run] ev] by (simp add: disk_after_def)
qed

lemma change_file_keeps [simp]:
  "dk_settled (change_file f g k) = dk_settled k" "dk_waiting (change_file f g k) = dk_waiting k"
  by (simp_all add: change_file_def split: option.splits)

text \<open>A call that fails leaves what its phase may leave.\<close>

lemma image_of_stop:
  assumes "disk_is P (base_names before) ph k" and "publish_step P ph ev = Some PubStop"
    and "crash_image (disk_step (pp_directory P) k ev) img" and "before (pp_stage P) = None"
  shows "others_kept P before img \<and> found_in P before ph img"
proof -
  have live: "ph \<noteq> PubStop" using assms(2) stop_is_final by auto
  have same: ?thesis if "disk_step (pp_directory P) k ev = k"
    using image_of_phase [OF assms(1) _ assms(4) live] assms(3) that by simp
  show ?thesis
  proof (cases ev)
    case (SeWrite f bs r)
    let ?k = "disk_step (pp_directory P) k ev"
    consider m p where "ph = PubMarker p m" | g p where "ph = PubStage p g"
      using assms(2) SeWrite by (cases ph) (auto simp: write_step_def)
    then show ?thesis
    proof cases
      case 1
      then have "dk_settled ?k = {base_names before}" "dk_waiting ?k = [waits False True (marker_op P)]"
        using assms(1) by (simp_all add: SeWrite disk_shape_def)
      then have "others_kept P before img \<and> image_kept P before img"
        by (intro image_early [OF assms(3)] disjI2 exI)
      then show ?thesis using 1 by simp
    next
      case 2
      have f: "f = g" using assms(2) SeWrite 2 by (auto simp: write_step_def split: if_splits)
      have "dk_settled ?k = {marked P (base_names before)}" "dk_waiting ?k = [waits False True (stage_op P)]"
        using assms(1) by (simp_all add: SeWrite disk_shape_def 2)
      moreover have "marker_known P p" "dk_files ?k = Synced (marker_text P p) # tl (dk_files ?k)"
        using assms(1) by (simp_all add: SeWrite disk_shape_def change_file_def 2 f)
      ultimately have "others_kept P before img \<and> image_marked P p before img"
        by (intro image_staging [OF assms(3)] disjI2 exI)
      then show ?thesis using 2 by simp
    qed
  next
    case (SeRename d a b r)
    let ?k = "disk_step (pp_directory P) k ev"
    obtain p g where ph: "ph = PubStageSynced p g"
      using assms(2) SeRename by (cases ph) auto
    have "dk_settled ?k = {marked P (base_names before)}"
      "dk_waiting ?k = [waits False True (stage_op P), waits False (\<not> isl r) (receipt_op P)]"
      "marker_known P p" "receipt_known P" "dk_files ?k = [Synced (marker_text P p), Synced (receipt_text P)]"
      using assms(1,2) SeRename ph
      by (auto simp: disk_shape_def add_waiting_def waits_def receipt_op_def split: if_splits)
    then have "others_kept P before img \<and> image_marked P p before img"
      by (intro image_renaming [OF assms(3)] assms(4))
    then show ?thesis using ph by simp
  next
    case (SeCreate d n r)
    then show ?thesis
      using same assms(2)
      by (cases r; cases ph) (auto simp: create_step_def or_stop_def split: if_splits)
  next
    case (SeFullSync f r)
    then show ?thesis
      using same assms(2)
      by (cases r; cases ph) (auto simp: full_sync_step_def or_stop_def split: if_splits)
  next
    case (SeFsync f r)
    then show ?thesis
      using same assms(2)
      by (cases r; cases ph) (auto simp: fsync_step_def or_stop_def split: if_splits bool.splits)
  next
    case (SeUnlink d n r)
    then show ?thesis
      using assms(2) by (cases ph) (auto split: if_splits)
  next
    case (SeRead f n r)
    then show ?thesis using same by simp
  qed (use assms(2) in auto)
qed

text \<open>The bytes of the previous record, as far as a phase knows them.\<close>

fun seen_in :: "publish_phase \<Rightarrow> bytes option set" where
  "seen_in PubStart = {}"
| "seen_in (PubFound bs) = {Some bs}"
| "seen_in (PubMarker p f) = {p}"
| "seen_in (PubMarkerWritten p f) = {p}"
| "seen_in (PubMarkerSynced p f) = {p}"
| "seen_in (PubMarkerSent p f) = {p}"
| "seen_in (PubMarked p) = {p}"
| "seen_in (PubStage p g) = {p}"
| "seen_in (PubStageWritten p g) = {p}"
| "seen_in (PubStageSynced p g) = {p}"
| "seen_in (PubRenamed p g) = {p}"
| "seen_in (PubSent p g) = {p}"
| "seen_in (PubCommitted p) = {p}"
| "seen_in (PubUnlinked p u) = {p}"
| "seen_in (PubDone p v) = {p}"
| "seen_in PubStop = {}"

definition found_before :: "bool \<Rightarrow> store_event list \<Rightarrow> bytes option \<Rightarrow> bool" where
  "found_before initial l p \<longleftrightarrow>
     (case p of None \<Rightarrow> initial | Some bs \<Rightarrow> \<not> initial \<and> (\<exists>f n. SeRead f n (Inr bs) \<in> set l))"

lemma seen_step:
  assumes "publish_step P ph ev = Some ph'" and "p \<in> seen_in ph'"
  shows "p \<in> seen_in ph \<or> p = None \<and> pp_initial P
    \<or> (\<exists>bs f n. p = Some bs \<and> \<not> pp_initial P \<and> ev = SeRead f n (Inr bs))"
proof (cases ev)
  case (SeRead f n r)
  then show ?thesis using assms by (cases r) (auto simp: or_stop_def split: if_splits)
next
  case (SeCreate d n r)
  then show ?thesis using assms
    by (cases r; cases ph) (auto simp: create_step_def or_stop_def split: if_splits)
next
  case (SeWrite f bs r)
  then show ?thesis using assms
    by (cases r; cases ph) (auto simp: write_step_def or_stop_def split: if_splits)
next
  case (SeFullSync f r)
  then show ?thesis using assms
    by (cases r; cases ph) (auto simp: full_sync_step_def or_stop_def split: if_splits)
next
  case (SeFsync f r)
  then show ?thesis using assms
    by (cases r; cases ph) (auto simp: fsync_step_def or_stop_def split: if_splits bool.splits)
next
  case (SeRename d a b r)
  then show ?thesis using assms by (cases r; cases ph) (auto simp: or_stop_def split: if_splits)
next
  case (SeUnlink d n r)
  then show ?thesis using assms by (cases ph) (auto split: if_splits)
qed (use assms in auto)

lemma seen_of_trace:
  "trace_run (publish_step P) PubStart l = Some ph \<Longrightarrow> p \<in> seen_in ph \<Longrightarrow> found_before (pp_initial P) l p"
proof (induction l arbitrary: ph rule: rev_induct)
  case (snoc ev l)
  then obtain ph1 where run: "trace_run (publish_step P) PubStart l = Some ph1"
    and ev: "publish_step P ph1 ev = Some ph"
    by (auto simp: trace_run_append split: option.splits)
  have "found_before (pp_initial P) l p" if "p \<in> seen_in ph1"
    using snoc.IH [OF run that] .
  then show ?case
    using seen_step [OF ev snoc.prems(2)] by (cases p) (auto simp: found_before_def)
qed auto

lemma found_seen:
  "found_in P before ph img \<Longrightarrow> ph \<noteq> PubStop \<Longrightarrow>
     image_kept P before img \<or> (\<exists>p \<in> seen_in ph. image_marked P p before img \<or> image_received P p img)"
  by (cases ph) auto

lemma image_of_trace:
  assumes "trace_run (publish_step P) PubStart l = Some ph"
    and "crash_image (disk_after (pp_directory P) (settled_disk before) l) img"
    and "before (pp_stage P) = None"
  shows "others_kept P before img \<and>
     (image_kept P before img
      \<or> (\<exists>p. found_before (pp_initial P) l p \<and> (image_marked P p before img \<or> image_received P p img)))"
proof (cases "ph = PubStop")
  case False
  then show ?thesis
    using image_of_phase [OF disk_of_trace [OF assms(1)] assms(2,3)] found_seen seen_of_trace [OF assms(1)]
    by blast
next
  case True
  obtain l0 ev where l: "l = l0 @ [ev]" using assms(1) True by (cases l rule: rev_cases) auto
  then obtain ph0 where run: "trace_run (publish_step P) PubStart l0 = Some ph0"
    and ev: "publish_step P ph0 ev = Some PubStop"
    using assms(1) True by (auto simp: trace_run_append split: option.splits)
  have img: "crash_image (disk_step (pp_directory P)
      (disk_after (pp_directory P) (settled_disk before) l0) ev) img"
    using assms(2) l by (simp add: disk_after_def)
  have "ph0 \<noteq> PubStop" using ev stop_is_final by auto
  then have "image_kept P before img
      \<or> (\<exists>p. found_before (pp_initial P) l0 p \<and> (image_marked P p before img \<or> image_received P p img))"
    and "others_kept P before img"
    using image_of_stop [OF disk_of_trace [OF run] ev img assms(3)] found_seen seen_of_trace [OF run] by blast+
  then show ?thesis
    by (auto simp: l found_before_def split: option.splits)
qed

lemma trace_run_prefix:
  assumes "trace_run st ph l = Some ph'" and "prefix l0 l"
  obtains ph0 where "trace_run st ph l0 = Some ph0"
  using assms by (auto simp: prefix_def trace_run_append split: option.splits)

end
