(* ===== verification/Journal_Store_Records.thy ===== *)
theory Journal_Store_Records
  imports Journal_Store Journal_Properties
begin

text \<open>
  The records the store writes and reads: the conservative receipt is acceptable and claims no
  outcome that the last record does not have, and what a read of the journal returns.
\<close>

section \<open>The conservative receipt\<close>

text \<open>An item that keeps its target, and may have become unknown.\<close>

definition demoted :: "item_record \<Rightarrow> item_record \<Rightarrow> bool" where
  "demoted i j \<longleftrightarrow> j = i \<or> (\<exists>x. j = i\<lparr>it_state := ItemUnknown, it_reason := x\<rparr>)"

lemma demoted_keeps:
  assumes "demoted i j"
  shows "it_path j = it_path i" "it_device j = it_device i" "it_inode j = it_inode i"
    "it_logical_bytes j = it_logical_bytes i" "it_destination j = it_destination i"
    "it_rule_binding j = it_rule_binding i" "it_recovery_evidence j = it_recovery_evidence i"
    "it_updated_unix_ms j = it_updated_unix_ms i"
  using assms by (auto simp: demoted_def)

lemma demoted_binding: "demoted i j \<Longrightarrow> check_binding dbg bound j = check_binding dbg bound i"
  by (auto simp: demoted_def check_binding_def validate_rule_binding_def binding_matches_item_def
      split: option.splits bool.splits)

lemma demoted_consistent: "demoted i j \<Longrightarrow> item_consistent tool i \<Longrightarrow> item_consistent tool j"
  by (auto simp: demoted_def item_consistent_def)

lemma demoted_evidence:
  assumes "demoted i j" and "check_optional (check_evidence dbg i) (it_recovery_evidence i) = Inr ()"
  shows "check_optional (check_evidence dbg j) (it_recovery_evidence i) = Inr ()"
  using assms
  by (cases "it_recovery_evidence i") (auto simp: demoted_def check_optional_def check_evidence_def evidence_ok_def)

lemma check_items_demoted:
  assumes "list_all2 demoted is js" and "check_items dbg tool bound ids paths is = Inr ()"
  shows "check_items dbg tool bound ids paths js = Inr ()"
  using assms
proof (induction arbitrary: ids paths rule: list_all2_induct)
  case (Cons i "is" j js)
  from Cons.prems have rest: "check_items dbg tool bound (insert (it_device i, it_inode i) ids)
      (insert (np_bytes (it_path i)) paths) is = Inr ()"
    and i: "native_validate dbg (it_path i) = Inr ()" "item_consistent tool i"
      "check_binding dbg bound i = Inr ()" "check_optional (native_validate dbg) (it_destination i) = Inr ()"
      "check_optional (check_evidence dbg i) (it_recovery_evidence i) = Inr ()"
      "tool \<or> (it_device i, it_inode i) \<notin> ids" "np_bytes (it_path i) \<notin> paths"
    by (auto split: if_splits)
  show ?case
    using i Cons.IH [OF rest] demoted_evidence [OF Cons.hyps(1) i(5)] demoted_consistent [OF Cons.hyps(1) i(2)]
    by (simp add: demoted_keeps [OF Cons.hyps(1)] demoted_binding [OF Cons.hyps(1)])
qed simp

lemma orphan_bindings_demoted:
  assumes "list_all2 demoted is js"
  shows "orphan_bindings dbg c home q seen (zip bs js) = orphan_bindings dbg c home q seen (zip bs is)"
  using assms
proof (induction arbitrary: bs seen rule: list_all2_induct)
  case (Cons i "is" j js)
  show ?case
  proof (cases bs)
    case (Cons b bs')
    show ?thesis
      unfolding Cons zip_Cons_Cons orphan_bindings.simps demoted_keeps [OF \<open>demoted i j\<close>] Cons.IH ..
  qed simp
qed simp

lemma related_bindings_demoted:
  assumes "list_all2 demoted is js" and "jr_scope r' = jr_scope r"
  shows "related_bindings dbg r' c seen (zip bs js) = related_bindings dbg r c seen (zip bs is)"
  using assms(1)
proof (induction arbitrary: bs seen rule: list_all2_induct)
  case (Cons i "is" j js)
  show ?case
  proof (cases bs)
    case (Cons b bs')
    have ok: "related_binding_ok seen b j = related_binding_ok seen b i"
      by (simp add: related_binding_ok_def demoted_keeps [OF \<open>demoted i j\<close>])
    show ?thesis
      unfolding Cons zip_Cons_Cons related_bindings.simps ok assms(2) Cons.IH ..
  qed simp
qed simp

lemma trash_record_demoted:
  assumes v: "validate_trash_record dbg r = Inr ()" and js: "list_all2 demoted (jr_items r) js"
  shows "validate_trash_record dbg (r\<lparr>jr_items := js\<rparr>) = Inr ()"
    (is "validate_trash_record dbg ?r' = _")
proof -
  have len: "length js = length (jr_items r)" and nil: "(js = []) = (jr_items r = [])"
    using js by (auto dest: list_all2_lengthD)
  have p: "has_profile ?r' q = has_profile r q" for q by (simp add: has_profile_def)
  have k: "known_profile ?r' = known_profile r" by (simp add: known_profile_def p)
  have "orphan_validate dbg x ?r' = orphan_validate dbg x r" for x
    by (simp add: orphan_validate_def len nil orphan_bindings_demoted [OF js] cong: if_cong)
  then have o': "check_orphan dbg ?r' = check_orphan dbg r"
    by (simp add: check_orphan_def p split: option.splits bool.splits)
  have c: "check_clean dbg ?r' = check_clean dbg r" by (simp add: check_clean_def p split: option.splits)
  have t: "check_tool ?r' = check_tool r" by (simp add: check_tool_def p len split: option.splits bool.splits)
  have d: "check_delegation ?r' = check_delegation r"
    by (simp add: check_delegation_def p len split: option.splits bool.splits)
  have "related_header_ok ?r' x = related_header_ok r x" for x by (simp add: related_header_ok_def len)
  then have l: "check_related dbg ?r' = check_related dbg r"
    by (simp add: check_related_def p related_bindings_demoted [OF js, of ?r' r] split: option.splits bool.splits)
  show ?thesis
    using v check_items_demoted [OF js] unfolding validate_trash_record_iff o' k c t d l p
    by (simp add: len nil)
qed

lemma conservative_items:
  "list_all2 demoted (jr_items r) (map (\<lambda>(n, i). conservative_item previous n i) (enumerate 0 (jr_items r)))"
  by (auto simp: list_all2_conv_all_nth nth_enumerate_eq conservative_item_def demoted_def Let_def)

text \<open>A record of the contract of emptying the Trash is made unknown as a whole.\<close>

lemma conservative_empty_trash:
  assumes "jr_runtime_context r = None" and "jr_empty_trash_context r = Some c"
    and "length (tc_known_items c) = length (jr_items r)"
  shows "conservative previous r = trash_unconfirmed r"
proof -
  let ?js = "map (\<lambda>(n, i). conservative_item previous n i) (enumerate 0 (jr_items r))"
  have "map unconfirmed_item ?js = map unconfirmed_item (jr_items r)"
    by (rule nth_equalityI)
       (auto simp: nth_enumerate_eq unconfirmed_item_def conservative_item_def Let_def)
  then show ?thesis
    using assms by (simp add: conservative_def trash_unconfirmed_def Let_def)
qed

lemma conservative_runtime:
  assumes "jr_runtime_context r = Some c" and "jr_empty_trash_context r = None" and "jr_items r = []"
  shows "conservative previous r
     = r\<lparr>jr_runtime_context := Some (runtime_unconfirmed (Option.bind previous jr_runtime_context) c)\<rparr>"
  using assms by (simp add: conservative_def Let_def)

lemma conservative_trash:
  assumes "jr_runtime_context r = None" and "jr_empty_trash_context r = None"
  shows "conservative previous r
     = r\<lparr>jr_items := map (\<lambda>(n, i). conservative_item previous n i) (enumerate 0 (jr_items r))\<rparr>"
  using assms by (simp add: conservative_def Let_def)

lemma trash_known_length:
  "trash_validate dbg c r = Inr () \<Longrightarrow> length (tc_known_items c) = length (jr_items r)"
  by (auto simp: trash_validate_iff trash_header2_def)

lemma conservative_valid:
  assumes "record_validate dbg r = Inr ()"
  shows "record_validate dbg (conservative previous r) = Inr ()"
  using assms
proof (cases rule: record_shapes)
  case (runtime c)
  then show ?thesis
    using runtime_unconfirmed_valid [OF runtime(3)]
    by (simp add: conservative_runtime record_validate_def)
next
  case (empty_trash c)
  obtain c' where "jr_empty_trash_context (trash_unconfirmed r) = Some c'"
    "trash_validate dbg c' (trash_unconfirmed r) = Inr ()"
    using trash_unconfirmed_valid [OF empty_trash(3,4)] by blast
  then show ?thesis
    using empty_trash conservative_empty_trash [OF empty_trash(2,3) trash_known_length [OF empty_trash(4)]]
    by (simp add: record_validate_def trash_unconfirmed_other)
next
  case trash
  then show ?thesis
    using trash_record_demoted [OF trash(5) conservative_items]
    by (simp add: conservative_trash record_validate_def)
qed

text \<open>An outcome of an item in a record.\<close>

definition claims_outcome :: "journal_record \<Rightarrow> nat \<Rightarrow> item_state \<Rightarrow> bool" where
  "claims_outcome r n st \<longleftrightarrow> n < length (jr_items r) \<and> it_state (jr_items r ! n) = st
     \<and> (st = ItemSucceeded \<or> st = ItemFailed)"

lemma conservative_length [simp]: "length (jr_items (conservative previous r)) = length (jr_items r)"
  by (auto simp: conservative_def trash_unconfirmed_def Let_def split: option.splits)

lemma unconfirmed_claims:
  assumes "claims_outcome (trash_unconfirmed r) n st"
  shows "claims_outcome r n st"
  using assms
  by (auto simp: claims_outcome_def trash_unconfirmed_def Let_def unconfirmed_item_def nth_append
      split: option.splits if_splits)

lemma conservative_claims:
  assumes "claims_outcome (conservative previous r) n st"
  shows "\<exists>p. previous = Some p \<and> claims_outcome p n st"
proof -
  let ?r1 = "r\<lparr>jr_items := map (\<lambda>(n, i). conservative_item previous n i) (enumerate 0 (jr_items r))\<rparr>"
  let ?r2 = "case jr_runtime_context ?r1 of
      None \<Rightarrow> ?r1
    | Some c \<Rightarrow> ?r1\<lparr>jr_runtime_context :=
        Some (runtime_unconfirmed (Option.bind previous jr_runtime_context) c)\<rparr>"
  have "conservative previous r = trash_unconfirmed ?r2 \<or> conservative previous r = ?r2"
    unfolding conservative_def Let_def by presburger
  then have "claims_outcome ?r2 n st"
    using assms unconfirmed_claims by metis
  moreover have "jr_items ?r2 = jr_items ?r1"
    by (cases "jr_runtime_context ?r1") simp_all
  ultimately have "claims_outcome ?r1 n st"
    by (simp only: claims_outcome_def)
  then show ?thesis
    by (auto simp: claims_outcome_def nth_enumerate_eq conservative_item_def Let_def
        split: option.splits if_splits)
qed

section \<open>Reading the journal\<close>

lemma btree_insert_subset: "set (btree_insert k v m) \<subseteq> insert (k, v) (set m)"
  by (induction k v m rule: btree_insert.induct) auto

lemma length_btree_insert: "length (btree_insert k v m) \<le> Suc (length m)"
  by (induction k v m rule: btree_insert.induct) auto

text \<open>
  The index of the names is in the order of the identifiers, within the limit, and a marker in it
  is listed as uncommitted.
\<close>

definition index_ok :: "name_index \<Rightarrow> bytes list \<Rightarrow> bool" where
  "index_ok m us \<longleftrightarrow> sorted_wrt (<) (map fst m) \<and> int (length m) \<le> max_records
     \<and> (\<forall>(i, c, p) \<in> set m. valid_id i \<and> (p \<longrightarrow> pending_name i \<in> set us))"

lemma classify_name_Inr:
  assumes "classify_name n = Inr (i, u)"
  shows "valid_id i" and "u = Pending \<Longrightarrow> n = pending_name i"
  using assms
  by (auto simp: classify_name_def pending_name_def split: if_splits option.splits)

lemma index_ok_note:
  assumes "index_ok m us" and "classify_name n = Inr (i, u)"
    and "int (length (note_name i u m)) \<le> max_records"
  shows "index_ok (note_name i u m) (if u = Committed then us else us @ [n])"
proof -
  obtain c p where flags: "(case map_of m i of None \<Rightarrow> (False, False) | Some x \<Rightarrow> x) = (c, p)"
    by (meson surj_pair)
  have upd: "note_name i u m = btree_insert i (c \<or> u = Committed, p \<or> u = Pending) m"
    by (simp add: note_name_def flags)
  have old: "pending_name i \<in> set us" if "p"
  proof -
    have "map_of m i = Some (c, p)" using flags that by (auto split: option.splits)
    then have "(i, c, p) \<in> set m" by (rule map_of_SomeD)
    then show ?thesis using assms(1) that by (auto simp: index_ok_def)
  qed
  have "sorted_wrt (<) (map fst (note_name i u m))"
    using btree_insert_sorted assms(1) by (auto simp: upd index_ok_def)
  moreover have "\<forall>(j, b, q) \<in> set (note_name i u m).
      valid_id j \<and> (q \<longrightarrow> pending_name j \<in> set (if u = Committed then us else us @ [n]))"
  proof (intro ballI)
    fix x
    assume "x \<in> set (note_name i u m)"
    then have "x = (i, c \<or> u = Committed, p \<or> u = Pending) \<or> x \<in> set m"
      unfolding upd by (blast dest: subsetD [OF btree_insert_subset])
    then show "case x of (j, b, q) \<Rightarrow>
        valid_id j \<and> (q \<longrightarrow> pending_name j \<in> set (if u = Committed then us else us @ [n]))"
      using assms(1) old classify_name_Inr [OF assms(2)] by (auto simp: index_ok_def)
  qed
  ultimately show ?thesis using assms(3) by (simp add: index_ok_def)
qed

lemma collect_names_ok:
  "collect_names es m us = Inr (m', us') \<Longrightarrow> index_ok m us \<Longrightarrow> index_ok m' us'"
proof (induction es m us rule: collect_names.induct)
  case (3 n es m us)
  show ?case
  proof (cases "n \<in> set skipped_names")
    case False
    then obtain i u where c: "classify_name n = Inr (i, u)" using "3.prems"(1) by auto
    then have rest: "collect_names es (note_name i u m) (if u = Committed then us else us @ [n]) = Inr (m', us')"
      and small: "int (length (note_name i u m)) \<le> max_records"
      using "3.prems"(1) False by (auto simp: Let_def split: if_splits)
    show ?thesis
      using "3.IH"(2) [OF False refl _ rest] index_ok_note [OF "3.prems"(2) c small] small by simp
  qed (use 3 in simp)
qed auto

lemma named_identifier:
  "(case strip_suffix (pending_name i) ''.json'' of
      Some j \<Rightarrow> Some j | None \<Rightarrow> strip_suffix (pending_name i) ''.pending'') = Some i"
  "(case strip_suffix (json_name i) ''.json'' of
      Some j \<Rightarrow> Some j | None \<Rightarrow> strip_suffix (json_name i) ''.pending'') = Some i"
proof -
  have "strip_suffix (pending_name i) ''.json'' = None"
    by (auto simp: strip_suffix_def pending_name_def suffix_def dest: arg_cong [where f = last])
  then show "(case strip_suffix (pending_name i) ''.json'' of
      Some j \<Rightarrow> Some j | None \<Rightarrow> strip_suffix (pending_name i) ''.pending'') = Some i"
    by (simp add: pending_name_def)
  show "(case strip_suffix (json_name i) ''.json'' of
      Some j \<Rightarrow> Some j | None \<Rightarrow> strip_suffix (json_name i) ''.pending'') = Some i"
    by (simp add: json_name_def strip_suffix_def suffix_def)
qed

lemma read_record_Inr:
  assumes "read_record os s (if pending then pending_name i else json_name i) w = (Inr (r, n), w')"
  shows "record_validate (js_dbg os) r = Inr ()" and "jr_operation_id r = i"
  using assms named_identifier [of i]
  by (auto simp: read_record_def split: if_splits)

definition read_of :: "'w store_os \<Rightarrow> bytes \<times> bool \<times> bool \<Rightarrow> journal_record \<Rightarrow> bool" where
  "read_of os x r \<longleftrightarrow>
     (\<exists>r0. r = reconciled r0 \<and> record_validate (js_dbg os) r0 = Inr () \<and> jr_operation_id r0 = fst x)"

lemma read_named_Inr:
  "read_named os s used m w = (Inr rs, w') \<Longrightarrow> list_all2 (read_of os) m rs"
proof (induction m arbitrary: used rs w w')
  case (Cons x m)
  obtain i c p where x: "x = (i, c, p)" by (cases x)
  from Cons.prems obtain r n w1 rs' w2 where
    r: "read_record os s (if p then pending_name i else json_name i) w = (Inr (r, n), w1)"
    and rest: "read_named os s (used + n) m w1 = (Inr rs', w2)" and rs: "rs = reconciled r # rs'"
    by (auto simp: x split: if_splits prod.splits)
  show ?case
    using read_record_Inr [OF r] Cons.IH [OF rest] by (auto simp: x rs read_of_def)
qed simp

lemma reconciled_operation_id [simp]: "jr_operation_id (reconciled r) = jr_operation_id r"
  by (simp add: reconciled_def Let_def trash_unconfirmed_other split: option.splits)

lemma store_records_Inr:
  assumes "store_records os s w = (Inr jr, w')"
  obtains m us where "index_ok m us" and "read_uncommitted_snapshots jr = sort us"
    and "list_all2 (read_of os) m (read_records jr)"
proof -
  from assms obtain entries m us rs w1 w2 where
    names: "collect_names entries [] [] = Inr (m, us)"
    and rs: "read_named os s 0 m w1 = (Inr rs, w2)"
    and jr: "jr = \<lparr>read_records = sort_key jr_operation_id rs, read_uncommitted_snapshots = sort us\<rparr>"
    by (auto simp: store_records_def split: prod.splits)
  have ok: "index_ok m us"
    using collect_names_ok [OF names] by (simp add: index_ok_def max_records_def)
  have read: "list_all2 (read_of os) m rs" by (rule read_named_Inr [OF rs])
  have "map jr_operation_id rs = map fst m"
    using read by (induction rule: list_all2_induct) (auto simp: read_of_def)
  then have "sorted (map jr_operation_id rs)"
    using ok by (simp add: index_ok_def strict_sorted_imp_sorted)
  then have "sort_key jr_operation_id rs = rs" by (rule sort_key_id_if_sorted)
  then show thesis using that [OF ok] read jr by simp
qed

section \<open>Fresh identifiers\<close>

lemma hex_number_length: "n < 16 ^ Suc k \<Longrightarrow> length (hex_number n) \<le> Suc k"
proof (induction k arbitrary: n)
  case (Suc k)
  then show ?case using Suc.IH [of "n div 16"] by (subst hex_number.simps) (auto simp: less_mult_imp_div_less)
qed (simp add: hex_number.simps)

lemma hex_digit_ascii: "list_all (\<lambda>n. is_ascii_hexdigit (hex_digit n)) [0..15]"
  by code_simp

lemma hex_number_digits: "list_all is_ascii_hexdigit (hex_number n)"
proof (induction n rule: hex_number.induct)
  case (1 n)
  have "is_ascii_hexdigit (hex_digit (int k))" if "k < 16" for k
    using hex_digit_ascii that by (auto simp: list_all_iff)
  then show ?case using 1 by (subst hex_number.simps) simp
qed

lemma hex_number_nonempty [simp]: "hex_number n \<noteq> []"
  by (subst hex_number.simps) simp

lemma format_id_valid: "valid_id (format_id pid now counter)"
proof -
  have "unat pid < 16 ^ Suc 7" "unat now < 16 ^ Suc 15" "unat counter < 16 ^ Suc 15"
    using unsigned_less [of pid, where 'a = nat] unsigned_less [of now, where 'a = nat]
      unsigned_less [of counter, where 'a = nat] by simp_all
  then have "length (hex_number (unat pid)) \<le> 8" "length (hex_number (unat now)) \<le> 16"
    "length (hex_number (unat counter)) \<le> 16"
    using hex_number_length [of "unat pid" 7] hex_number_length [of "unat now" 15]
      hex_number_length [of "unat counter" 15] by simp_all
  moreover have "list_all (\<lambda>b. is_ascii_hexdigit b \<or> b = CHR ''-'') (hex_number n)" for n
    using hex_number_digits [of n] by (simp add: list_all_iff)
  ultimately show ?thesis by (simp add: valid_id_def format_id_def)
qed

lemma fresh_id_valid: "fresh_id os w = (Inr i, w') \<Longrightarrow> valid_id i"
  by (auto simp: fresh_id_def format_id_valid)

end
