(* ===== verification/Journal_Store_Properties.thy ===== *)
theory Journal_Store_Properties
  imports Journal_Store_Crash Journal_Store_Records
begin

text \<open>
  What the journal store promises: a publication survives a power loss at any moment, what it
  reports as published is durable, an open store holds its lock, and a file system that serves
  every call lets a publication complete. A small store on which each promise is exercised.
\<close>

section \<open>Opening\<close>

text \<open>
  The lock of a store that is being opened. \<open>LockBusy\<close>: the lock file is open but not locked;
  \<open>LockFree\<close>: there is no descriptor of it left.
\<close>

datatype lock_phase = LockFree | LockBusy fd | LockHeld fd | LockGone

fun lock_step :: "lock_phase \<Rightarrow> store_event \<Rightarrow> lock_phase option" where
  "lock_step ph (SeOpenLock d c (Inr f)) = (if ph = LockFree then Some (LockBusy f) else None)"
| "lock_step ph (SeFlock f (Inr _)) = (if ph = LockBusy f then Some (LockHeld f) else None)"
| "lock_step ph (SeDrop f) = (if ph = LockBusy f \<or> ph = LockHeld f then Some LockGone else None)"
| "lock_step ph ev = Some ph"

definition lock_left :: "store io_result \<Rightarrow> lock_phase \<Rightarrow> bool" where
  "lock_left r ph \<longleftrightarrow>
     (case r of Inr s \<Rightarrow> ph = LockHeld (so_lock s) | Inl _ \<Rightarrow> ph = LockFree \<or> ph = LockGone)"

lemma lock_left_simps [simp]:
  "lock_left (Inr s) ph \<longleftrightarrow> ph = LockHeld (so_lock s)"
  "lock_left (Inl e) ph \<longleftrightarrow> ph = LockFree \<or> ph = LockGone"
  by (simp_all add: lock_left_def)

lemma logged_open_calls:
  "js_mkdirat (logged_store os) d n = noted (SeMkdir d n) (js_mkdirat os d n)"
  "js_openat_lock (logged_store os) d c = noted (SeOpenLock d c) (js_openat_lock os d c)"
  "js_flock (logged_store os) f = noted (SeFlock f) (js_flock os f)"
  by (simp_all add: logged_store_def)

lemma quiet_statfs [quiet_intros]: "quiet (js_fstatfs_flags (logged_store os) f)"
  by (simp add: logged_store_def quiet_pass)

lemma lock_idle:
  assumes "\<And>r. lock_step ph (ev r) = Some ph"
  shows "leads lock_step LockFree ph (noted ev m) (\<lambda>r ph'. ph' = ph)"
  by (rule leads_noted [where after = "\<lambda>_. ph"]) (simp_all add: assms)

lemma fsync_idle: "lock_step ph (SeFsync f r) = Some ph"
  by (cases r) auto

lemma leads_create_state:
  "leads lock_step LockFree LockFree (create_state_directory (logged_store os) p) (\<lambda>r ph. ph = LockFree)"
proof -
  have sync: "leads lock_step LockFree LockFree (js_fsync (logged_store os) d) (\<lambda>r ph. ph = LockFree)" for d
    unfolding logged_store_calls by (rule lock_idle) (rule fsync_idle)
  have mkdir: "leads lock_step LockFree LockFree (js_mkdirat (logged_store os) d n) (\<lambda>r ph. ph = LockFree)" for d n
    unfolding logged_open_calls by (rule lock_idle) simp
  have made: "leads lock_step LockFree LockFree (amatch (js_mkdirat (logged_store os) d n) (\<lambda>r.
      case r of
        Inr _ \<Rightarrow> js_fsync (logged_store os) d
      | Inl (Io AlreadyExistsKind _) \<Rightarrow> aret ()
      | Inl e \<Rightarrow> afail e)) (\<lambda>r ph. ph = LockFree)" for d n
    by (rule leads_amatch [OF mkdir])
       (auto intro: sync leads_aret leads_afail split: sum.splits io_error.splits io_kind.splits)
  show ?thesis
    unfolding create_state_directory_def
    by (auto intro!: leads_afail leads_read quiet_store_reads made split: option.splits)
qed

lemma leads_lock_directory:
  "leads lock_step LockFree (LockBusy lock) (lock_directory (logged_store os) d lock)
     (\<lambda>r ph. ph = LockHeld lock \<or> isl r \<and> ph = LockBusy lock)"
    (is "leads _ _ _ _ ?Q")
proof -
  have sync: "leads lock_step LockFree (LockHeld lock) (js_fsync (logged_store os) d) ?Q"
    unfolding logged_store_calls
    by (rule leads_weaken [OF lock_idle]) (auto simp: fsync_idle)
  have held: "leads lock_step LockFree (LockHeld lock)
      (abind (js_statat (logged_store os) d n) (\<lambda>named.
       abind (js_fstat (logged_store os) lock) (\<lambda>held.
         if c named held then afail e else js_fsync (logged_store os) d))) ?Q" for n c e
    by (rule leads_read [OF quiet_store_reads(3)], simp, rule leads_read [OF quiet_store_reads(2)], simp)
       (auto intro: sync leads_afail)
  have flock: "leads lock_step LockFree (LockBusy lock)
      (abind (amatch (noted (SeFlock lock) m) (\<lambda>r. case r of Inl e \<Rightarrow> afail (g e) | Inr _ \<Rightarrow> aret ())) (\<lambda>_. k)) ?Q"
    if "leads lock_step LockFree (LockHeld lock) k ?Q" for m g k
  proof (rule leads_abind)
    show "leads lock_step LockFree (LockBusy lock)
        (amatch (noted (SeFlock lock) m) (\<lambda>r. case r of Inl e \<Rightarrow> afail (g e) | Inr _ \<Rightarrow> aret ()))
        (\<lambda>r ph. ph = (if isl r then LockBusy lock else LockHeld lock))"
    proof (rule leads_amatch)
      show "leads lock_step LockFree (LockBusy lock) (noted (SeFlock lock) m)
          (\<lambda>r ph. ph = (if isl r then LockBusy lock else LockHeld lock))"
      proof (rule leads_noted)
        show "lock_step (LockBusy lock) (SeFlock lock r) = Some (if isl r then LockBusy lock else LockHeld lock)"
          for r by (cases r) auto
      qed simp
    qed (auto intro: leads_aret leads_afail split: sum.splits)
  qed (use that in auto)
  show ?thesis
    unfolding lock_directory_def logged_open_calls
    by (rule leads_read [OF quiet_store_checks(2)], simp, rule flock, rule held)
qed

lemma store_drop: "js_drop (logged_store os) f = released (SeDrop f) (js_drop os f)"
  by (simp add: logged_store_def released_def fun_eq_iff)

lemma leads_open:
  "leads lock_step LockFree LockFree (open_store (logged_store os) p create) lock_left"
proof -
  have locked: "leads lock_step LockFree (LockBusy lock)
      (aon_error (abind (lock_directory (logged_store os) d lock) (\<lambda>_.
         aret \<lparr>so_directory = d, so_lock = lock, so_path = p\<rparr>)) (released (SeDrop lock) (js_drop os lock)))
      lock_left" for d lock
    by (rule leads_released_on_error, rule leads_abind [OF leads_lock_directory]) (auto intro: leads_aret)
  have opened: "leads lock_step LockFree LockFree (abind (noted (SeOpenLock d create) m) k) lock_left"
    if "\<And>lock. leads lock_step LockFree (LockBusy lock) (k lock) lock_left" for d m k
    by (rule leads_step [where after = "\<lambda>r. case r of Inl _ \<Rightarrow> LockFree | Inr f \<Rightarrow> LockBusy f"])
       (use that in \<open>auto split: sum.splits\<close>)
  have quiet: "leads lock_step LockFree LockFree (abind m k) lock_left"
    if "quiet m" "\<And>a. leads lock_step LockFree LockFree (k a) lock_left" for m :: "(_, 'a) act" and k
    by (rule leads_read) (use that in auto)
  have refused: "leads lock_step LockFree LockFree (afail e) lock_left" for e
    by (rule leads_afail) simp
  have volume: "leads lock_step LockFree LockFree (abind (js_fstatfs_flags (logged_store os) d) (\<lambda>flags.
      if c flags then afail e else k d)) lock_left"
    if "leads lock_step LockFree LockFree (k d) lock_left" for d c e k
    by (rule leads_read [OF quiet_statfs]) (use that refused in auto)
  have guarded: "leads lock_step LockFree LockFree (if b then afail e else abind (check_acl (logged_store os) d) (\<lambda>_. k)) lock_left"
    if "leads lock_step LockFree LockFree k lock_left" for d b e k
    by (cases b) (auto intro: refused leads_read [OF quiet_store_checks(1)] that)
  have start: "leads lock_step LockFree LockFree (if create then create_state_directory (logged_store os) p else aret ())
      (\<lambda>r ph. ph = LockFree)"
    using leads_create_state by (auto intro: leads_aret)
  show ?thesis
    unfolding open_store_def store_drop logged_open_calls
    by (rule leads_read [OF quiet_alift], simp, rule leads_abind [OF start], simp, simp,
        rule leads_read [OF quiet_store_reads(1)], simp,
        rule leads_read [OF quiet_store_reads(2)], simp,
        rule guarded, rule volume, rule opened, rule locked)
qed

section \<open>The log is an observation\<close>

lemma alike_store_calls [alike_intros]:
  "alike (js_open_dir (logged_store os) p) (js_open_dir os p)"
  "alike (js_mkdirat (logged_store os) d n) (js_mkdirat os d n)"
  "alike (js_fstat (logged_store os) f) (js_fstat os f)"
  "alike (js_fstatfs_flags (logged_store os) f) (js_fstatfs_flags os f)"
  "alike (js_statat (logged_store os) d n) (js_statat os d n)"
  "alike (js_has_acl (logged_store os) f) (js_has_acl os f)"
  "alike (js_openat_lock (logged_store os) d c) (js_openat_lock os d c)"
  "alike (js_flock (logged_store os) f) (js_flock os f)"
  "alike (js_openat_new (logged_store os) d n) (js_openat_new os d n)"
  "alike (js_openat_read (logged_store os) d n) (js_openat_read os d n)"
  "alike (js_read (logged_store os) f k) (js_read os f k)"
  "alike (js_write_all (logged_store os) f bs) (js_write_all os f bs)"
  "alike (js_full_sync (logged_store os) f) (js_full_sync os f)"
  "alike (js_fsync (logged_store os) f) (js_fsync os f)"
  "alike (js_renameat (logged_store os) d a b) (js_renameat os d a b)"
  "alike (js_unlinkat (logged_store os) d n) (js_unlinkat os d n)"
  by (simp_all add: logged_store_def alike_pass alike_noted)

lemma alike_case_io [alike_intros]:
  "(\<And>k m. alike (f k m) (g k m)) \<Longrightarrow> alike x y \<Longrightarrow>
     alike (case e of Io k m \<Rightarrow> f k m | Panicked \<Rightarrow> x) (case e of Io k m \<Rightarrow> g k m | Panicked \<Rightarrow> y)"
  by (cases e) auto

lemma alike_case_kind [alike_intros]:
  "alike a a' \<Longrightarrow> alike b b' \<Longrightarrow> alike c c' \<Longrightarrow> alike d d' \<Longrightarrow> alike e e' \<Longrightarrow> alike f f' \<Longrightarrow> alike g g'
     \<Longrightarrow> alike h h' \<Longrightarrow>
     alike (case k of InvalidData \<Rightarrow> a | InvalidInput \<Rightarrow> b | UnsupportedKind \<Rightarrow> c
         | PermissionDeniedKind \<Rightarrow> d | NotFoundKind \<Rightarrow> e | AlreadyExistsKind \<Rightarrow> f | WouldBlockKind \<Rightarrow> g | OtherKind \<Rightarrow> h)
       (case k of InvalidData \<Rightarrow> a' | InvalidInput \<Rightarrow> b' | UnsupportedKind \<Rightarrow> c'
         | PermissionDeniedKind \<Rightarrow> d' | NotFoundKind \<Rightarrow> e' | AlreadyExistsKind \<Rightarrow> f' | WouldBlockKind \<Rightarrow> g' | OtherKind \<Rightarrow> h')"
  by (cases k) auto

lemma alike_store_checks [alike_intros]:
  "alike (check_acl (logged_store os) f) (check_acl os f)"
  "alike (check_file (logged_store os) f) (check_file os f)"
  "alike (unchanged (logged_store os) s) (unchanged os s)"
  unfolding check_acl_def check_file_def unchanged_def logged_checks by (intro alike_intros)+

lemma alike_snapshot [alike_intros]:
  "alike (write_snapshot (logged_store os) s n r) (write_snapshot os s n r)"
  "alike (read_record (logged_store os) s n) (read_record os s n)"
  unfolding write_snapshot_def read_record_def logged_store_library by (intro alike_intros)+

lemma alike_previous [alike_intros]:
  "alike (previous_record (logged_store os) s n initial) (previous_record os s n initial)"
  unfolding previous_record_def by (intro alike_intros)

lemma alike_publish: "alike (publish (logged_store os) s r initial) (publish os s r initial)"
  unfolding publish_def publish_with_def remove_marker_def Let_def logged_store_library
  by (intro alike_intros)

section \<open>A file system that serves every call\<close>

definition succeeds :: "('w, 'a) act \<Rightarrow> ('a \<Rightarrow> bool) \<Rightarrow> bool" where
  "succeeds m Q \<longleftrightarrow> (\<forall>w. \<exists>a w'. m w = (Inr a, w') \<and> Q a)"

lemma succeeds_aret: "Q a \<Longrightarrow> succeeds (aret a) Q"
  by (simp add: succeeds_def)

lemma succeeds_abind:
  assumes "succeeds m P" and "\<And>a. P a \<Longrightarrow> succeeds (f a) Q"
  shows "succeeds (abind m f) Q"
  using assms unfolding succeeds_def abind_def by (metis (no_types, lifting) old.prod.case old.sum.simps(6))

lemma succeeds_amatch:
  assumes "succeeds m P" and "\<And>a. P a \<Longrightarrow> succeeds (f (Inr a)) Q"
  shows "succeeds (amatch m f) Q"
  unfolding succeeds_def amatch_def
proof
  fix w
  obtain a v where "m w = (Inr a, v)" "P a" using assms(1) unfolding succeeds_def by blast
  then show "\<exists>b w'. (case m w of (r, w') \<Rightarrow> f r w') = (Inr b, w') \<and> Q b"
    using assms(2) by (simp add: succeeds_def)
qed

lemma succeeds_alift: "x = Inr a \<Longrightarrow> Q a \<Longrightarrow> succeeds (alift x) Q"
  by (simp add: succeeds_def)

text \<open>
  Every call succeeds: the directory of the store is where it was, its files are private and
  regular, the text of every record fits.
\<close>

definition serves :: "'w store_os \<Rightarrow> store \<Rightarrow> (fd \<Rightarrow> file_stat) \<Rightarrow> bool" where
  "serves os s st \<longleftrightarrow>
     (\<forall>f. succeeds (js_fstat os f) (\<lambda>x. x = st f))
     \<and> succeeds (js_open_dir os (so_path s)) (\<lambda>d. sf_dev (st d) = sf_dev (st (so_directory s))
          \<and> sf_ino (st d) = sf_ino (st (so_directory s)) \<and> private_directory os (st d))
     \<and> (\<forall>f. succeeds (js_has_acl os f) (\<lambda>acl. \<not> acl))
     \<and> (\<forall>n. succeeds (js_openat_new os (so_directory s) n) (\<lambda>f. regular_private os (st f)))
     \<and> (\<forall>f bs. succeeds (js_write_all os f bs) (\<lambda>_. True))
     \<and> (\<forall>f. succeeds (js_full_sync os f) (\<lambda>_. True))
     \<and> (\<forall>f. succeeds (js_fsync os f) (\<lambda>_. True))
     \<and> (\<forall>d a b. succeeds (js_renameat os d a b) (\<lambda>_. True))
     \<and> (\<forall>d n. succeeds (js_unlinkat os d n) (\<lambda>_. True))
     \<and> (\<forall>r. \<exists>bs. js_print os r = Inr bs \<and> int (length bs) \<le> max_record_bytes)"

lemma serves_acl: "serves os s st \<Longrightarrow> succeeds (check_acl os f) (\<lambda>_. True)"
  unfolding check_acl_def
  by (rule succeeds_abind [where P = "\<lambda>acl. \<not> acl"]) (auto simp: serves_def intro: succeeds_aret)

lemma serves_file: "serves os s st \<Longrightarrow> regular_private os (st f) \<Longrightarrow> succeeds (check_file os f) (\<lambda>_. True)"
  unfolding check_file_def
  by (rule succeeds_abind [where P = "\<lambda>x. x = st f"]) (auto simp: serves_acl, simp add: serves_def)

lemma serves_unchanged:
  assumes "serves os s st"
  shows "succeeds (unchanged os s) (\<lambda>_. True)"
  unfolding unchanged_def
proof (rule succeeds_abind [where P = "\<lambda>d. sf_dev (st d) = sf_dev (st (so_directory s))
    \<and> sf_ino (st d) = sf_ino (st (so_directory s)) \<and> private_directory os (st d)"])
  fix d
  assume d: "sf_dev (st d) = sf_dev (st (so_directory s))
    \<and> sf_ino (st d) = sf_ino (st (so_directory s)) \<and> private_directory os (st d)"
  have stat: "succeeds (js_fstat os f) (\<lambda>x. x = st f)" for f
    using assms by (simp add: serves_def)
  show "succeeds (abind (js_fstat os (so_directory s)) (\<lambda>old. abind (js_fstat os d) (\<lambda>new.
      if sf_dev old \<noteq> sf_dev new \<or> sf_ino old \<noteq> sf_ino new \<or> \<not> private_directory os new
      then afail (invalid ''journal directory identity or permissions changed'')
      else check_acl os d))) (\<lambda>_. True)"
    by (rule succeeds_abind [OF stat], rule succeeds_abind [OF stat]) (use d serves_acl [OF assms] in auto)
qed (use assms in \<open>simp add: serves_def\<close>)

lemma serves_snapshot:
  assumes "serves os s st" and "record_validate (js_dbg os) r = Inr ()"
  shows "succeeds (write_snapshot os s n r) (\<lambda>_. True)"
proof -
  obtain bs where bs: "js_print os r = Inr bs" "int (length bs) \<le> max_record_bytes"
    using assms(1) unfolding serves_def by blast
  have new: "succeeds (js_openat_new os (so_directory s) n) (\<lambda>f. regular_private os (st f))"
    and wr: "succeeds (js_write_all os f bs) (\<lambda>_. True)" and sync: "succeeds (js_full_sync os f) (\<lambda>_. True)" for f
    using assms(1) by (auto simp: serves_def)
  show ?thesis
    unfolding write_snapshot_def
    by (rule succeeds_abind [OF succeeds_alift [OF assms(2)]], simp,
        rule succeeds_abind [OF succeeds_alift [where Q = "\<lambda>x. x = bs", OF bs(1)]], simp)
       (use bs(2) in \<open>auto intro!: succeeds_abind [OF new] succeeds_abind [OF serves_file [OF assms(1)]]
          succeeds_abind [OF wr] succeeds_abind [OF sync] succeeds_aret\<close>)
qed

section \<open>A small store\<close>

text \<open>
  Every call succeeds; the descriptor of a file is the length of its name plus ten. A record is printed
  as one word that tells whether it knows the outcome of its items.
\<close>

definition store_demo_stat :: "fd \<Rightarrow> file_stat" where
  "store_demo_stat f = \<lparr>sf_dev = 1, sf_ino = (if f = 7 then 2 else word_of_nat (f + 100)),
     sf_mode = (if f = 7 then 16832 else 33152), sf_nlink = 1, sf_uid = 501, sf_size = 0, sf_mtime = 0,
     sf_mtime_nsec = 0, sf_ctime = 0, sf_ctime_nsec = 0\<rparr>"

definition store_demo_print :: "journal_record \<Rightarrow> bytes" where
  "store_demo_print r = (if list_ex (\<lambda>i. it_state i = ItemUnknown) (jr_items r) then ''unknown'' else ''final'')"

definition store_demo_record :: "item_state \<Rightarrow> journal_record" where
  "store_demo_record st = demo_record [demo_item ''/d/a'' 2 st]"

definition store_demo_os :: "unit store_os" where
  "store_demo_os = \<lparr>
     js_open_dir = (\<lambda>p. aret 7), js_mkdirat = (\<lambda>d n. aret ()), js_fstat = (\<lambda>f. aret (store_demo_stat f)),
     js_fstatfs_flags = (\<lambda>f. aret 4096),
     js_statat = (\<lambda>d n. if n = ''.lock'' then aret (store_demo_stat 5) else afail (Io NotFoundKind ''absent'')),
     js_has_acl = (\<lambda>f. aret False), js_openat_lock = (\<lambda>d c. aret 5), js_flock = (\<lambda>f. aret ()),
     js_drop = (\<lambda>f w. w), js_openat_new = (\<lambda>d n. aret (length n + 10)),
     js_openat_read = (\<lambda>d n. aret (length n + 10)), js_list = (\<lambda>d. aret [Inr ''a-1.json'', Inr ''.lock'']),
     js_read = (\<lambda>f n. aret ''started''), js_write_all = (\<lambda>f bs. aret ()),
     js_full_sync = (\<lambda>f. aret ()), js_fsync = (\<lambda>f. aret ()),
     js_renameat = (\<lambda>d a b. aret ()), js_unlinkat = (\<lambda>d n. aret ()),
     js_wall = (\<lambda>w. (0, w)), js_instant = (\<lambda>w. (0, w)), js_next_id = (\<lambda>w. (1, w)),
     js_pid = 16, js_euid = 501, js_parse = (\<lambda>bs. Inr (store_demo_record ItemStarted)),
     js_print = (\<lambda>r. Inr (store_demo_print r)), js_digest = (\<lambda>bs. bs), js_dbg = ascii_debug\<rparr>"

definition store_demo :: store where
  "store_demo = \<lparr>so_directory = 7, so_lock = 5, so_path = ''/state''\<rparr>"

definition store_demo_log :: "store_event list" where
  "store_demo_log =
     [SeRead 18 1048577 (Inr ''started''),
      SeCreate 7 ''a-1.pending'' (Inr 21), SeWrite 21 ''unknown'' (Inr ()), SeFullSync 21 (Inr ()),
      SeFsync 7 (Inr ()), SeFullSync 21 (Inr ()),
      SeCreate 7 ''a-1.next'' (Inr 18), SeWrite 18 ''final'' (Inr ()), SeFullSync 18 (Inr ()),
      SeRename 7 ''a-1.next'' ''a-1.json'' (Inr ()), SeFsync 7 (Inr ()), SeFullSync 18 (Inr ()),
      SeUnlink 7 ''a-1.pending'' (Inr ()), SeFsync 7 (Inr ())]"

lemma store_demo_published:
  "publish (logged_store store_demo_os) store_demo (store_demo_record ItemSucceeded) False ((), [])
     = (Inr \<lparr>cleanup_error = None\<rparr>, (), store_demo_log)"
  by code_simp

lemma store_demo_valid: "record_validate ascii_debug (store_demo_record ItemSucceeded) = Inr ()"
  by code_simp

definition store_demo_before :: "bytes \<rightharpoonup> bytes" where
  "store_demo_before = [''a-1.json'' \<mapsto> ''started'']"

lemma store_demo_settled:
  "so_directory store_demo = 7"
  "store_demo_before (next_name (jr_operation_id (store_demo_record ItemSucceeded))) = None"
  by (simp_all add: store_demo_def store_demo_before_def next_name_def store_demo_record_def demo_record_def)

definition store_demo_found :: "bytes \<rightharpoonup> bytes" where
  "store_demo_found = [''a-1.json'' \<mapsto> ''final'', ''a-1.pending'' \<mapsto> ''unknown'']"

definition store_demo_plan :: publication_plan where
  "store_demo_plan = publication_of store_demo_os store_demo (store_demo_record ItemSucceeded) False"

definition store_demo_contents :: "nat \<Rightarrow> bytes" where
  "store_demo_contents i = (if i = 0 then ''unknown'' else ''final'')"

lemma store_demo_traces:
  "trace_run (publish_step store_demo_plan) PubStart (take 10 store_demo_log) = Some (PubRenamed (Some ''started'') 18)"
  "trace_run (publish_step store_demo_plan) PubStart store_demo_log = Some (PubDone (Some ''started'') True)"
  by code_simp+

lemma store_demo_plan_facts:
  "pp_directory store_demo_plan = 7" "pp_id store_demo_plan = ''a-1''"
  "marker_text store_demo_plan (Some ''started'') = ''unknown''" "receipt_text store_demo_plan = ''final''"
  by code_simp+

lemma store_demo_names:
  "pending_name ''a-1'' = ''a-1.pending''" "next_name ''a-1'' = ''a-1.next''" "json_name ''a-1'' = ''a-1.json''"
  by (simp_all add: pending_name_def next_name_def json_name_def)

text \<open>The power is lost after the rename: both the receipt and the marker may be found.\<close>

lemma store_demo_crash:
  "crash_image (disk_after 7 (settled_disk store_demo_before) (take 10 store_demo_log)) store_demo_found"
proof -
  let ?k = "disk_after 7 (settled_disk store_demo_before) (take 10 store_demo_log)"
  let ?m = "received store_demo_plan (base_names store_demo_before)"
  have "disk_is store_demo_plan (base_names store_demo_before) (PubRenamed (Some ''started'') 18) ?k"
    using disk_of_trace [OF store_demo_traces(1)] by (simp add: store_demo_plan_facts)
  then have k: "dk_settled ?k = {marked store_demo_plan (base_names store_demo_before)}"
    "dk_waiting ?k = [waits False True (stage_op store_demo_plan), waits False True (receipt_op store_demo_plan)]"
    "dk_files ?k = [Synced ''unknown'', Synced ''final'']"
    by (simp_all add: disk_shape_def store_demo_plan_facts)
  have "?m \<in> crash_names ?k"
    using crash_names_simps(3) [OF k(1,2)] by (simp add: received_def)
  moreover have "keeps_synced store_demo_contents (dk_files ?k)"
    by (auto simp: k(3) keeps_synced_def store_demo_contents_def less_Suc_eq)
  moreover have "store_demo_found = (\<lambda>n. map_option (contents_of store_demo_contents) (?m n))"
    by (auto simp: fun_eq_iff store_demo_found_def store_demo_before_def names_simps base_names_def
        store_demo_plan_facts store_demo_names contents_of_def store_demo_contents_def)
  ultimately show ?thesis unfolding crash_image_def by blast
qed

lemma store_demo_crash_end:
  "crash_image (disk_after 7 (settled_disk store_demo_before) store_demo_log) [''a-1.json'' \<mapsto> ''final'']"
proof -
  let ?k = "disk_after 7 (settled_disk store_demo_before) store_demo_log"
  let ?m = "apply_op (DropName ''a-1.pending'') (received store_demo_plan (base_names store_demo_before))"
  have "disk_is store_demo_plan (base_names store_demo_before) (PubDone (Some ''started'') True) ?k"
    using disk_of_trace [OF store_demo_traces(2)] by (simp add: store_demo_plan_facts)
  then have k: "dk_settled ?k = {received store_demo_plan (base_names store_demo_before)}"
    "dk_waiting ?k = [waits True True (DropName ''a-1.pending'')]"
    "dk_files ?k = [Synced ''unknown'', Synced ''final'']"
    by (simp_all add: disk_shape_def store_demo_plan_facts store_demo_names)
  have "?m \<in> crash_names ?k" using crash_names_simps(2) [OF k(1,2)] by simp
  moreover have "keeps_synced store_demo_contents (dk_files ?k)"
    by (auto simp: k(3) keeps_synced_def store_demo_contents_def less_Suc_eq)
  moreover have "[''a-1.json'' \<mapsto> ''final''] = (\<lambda>n. map_option (contents_of store_demo_contents) (?m n))"
    by (auto simp: fun_eq_iff store_demo_before_def names_simps base_names_def
        store_demo_plan_facts store_demo_names contents_of_def store_demo_contents_def)
  ultimately show ?thesis unfolding crash_image_def by blast
qed

section \<open>The promises\<close>

text \<open>C29: A power loss at any moment of a publication leaves every other file as it was and one of
  three situations: the last record is untouched and there is no readable claim beside it but a
  marker that was being written; the conservative receipt is there in full, with the last record
  or the new one beside it; or the new record is there in full. A new record is never found
  without the conservative receipt before it is durable itself.\<close>

theorem publication_survives_power_loss:
  assumes "publish (logged_store os) s r initial (w, []) = (x, w', l)"
    and "prefix l0 l" and "before (next_name (jr_operation_id r)) = None"
    and "crash_image (disk_after (so_directory s) (settled_disk before) l0) img"
  shows "others_kept (publication_of os s r initial) before img \<and>
    (image_kept (publication_of os s r initial) before img
     \<or> (\<exists>p. found_before initial l0 p \<and>
          (image_marked (publication_of os s r initial) p before img
           \<or> image_received (publication_of os s r initial) p img)))"
proof -
  let ?P = "publication_of os s r initial"
  obtain ph where run: "trace_run (publish_step ?P) PubStart l = Some ph"
    using publish_accepted [OF assms(1)] by blast
  obtain ph0 where "trace_run (publish_step ?P) PubStart l0 = Some ph0"
    by (rule trace_run_prefix [OF run assms(2)])
  then show ?thesis
    using image_of_trace [of ?P l0 ph0 before img, unfolded publication_fields, OF _ assms(4,3)] by blast
qed

text \<open>C30: What a publication reports as published is durable: after any power loss the new record is
  found in full, alone or beside the conservative receipt.\<close>

theorem published_receipt_is_durable:
  assumes "publish (logged_store os) s r initial (w, []) = (Inr pub, w', l)"
    and "before (next_name (jr_operation_id r)) = None"
    and "crash_image (disk_after (so_directory s) (settled_disk before) l) img"
  shows "\<exists>p. found_before initial l p \<and> image_received (publication_of os s r initial) p img"
proof -
  let ?P = "publication_of os s r initial"
  obtain ph where run: "trace_run (publish_step ?P) PubStart l = Some ph" and "committed ph"
    using publish_accepted [OF assms(1)] by (auto simp: published_def)
  then have "found_in ?P before ph img"
    using image_of_phase [OF disk_of_trace [OF run], unfolded publication_fields, OF assms(3,2)]
    by (cases "ph = PubStop") auto
  then show ?thesis
    using seen_of_trace [OF run] \<open>committed ph\<close> by (cases ph) auto
qed


text \<open>C33: A read of the journal returns at most 1024 records, in the order of their distinct and valid
  identifiers, each of them an acceptable record as it is read after an interruption.\<close>

theorem journal_read_is_conservative:
  assumes "store_records os s w = (Inr jr, w')"
  shows "sorted_wrt (<) (map jr_operation_id (read_records jr))
    \<and> int (length (read_records jr)) \<le> max_records
    \<and> list_all (\<lambda>r. valid_id (jr_operation_id r) \<and> record_validate (js_dbg os) r = Inr ()
        \<and> (\<exists>r0. r = reconciled r0 \<and> record_validate (js_dbg os) r0 = Inr ())) (read_records jr)"
proof -
  obtain m us where m: "index_ok m us" and rs: "list_all2 (read_of os) m (read_records jr)"
    using store_records_Inr [OF assms] by blast
  have ids: "map jr_operation_id (read_records jr) = map fst m"
    using rs by (induction rule: list_all2_induct) (auto simp: read_of_def)
  have "valid_id (jr_operation_id r)" if "r \<in> set (read_records jr)" for r
  proof -
    have "jr_operation_id r \<in> set (map fst m)" using that by (simp flip: ids)
    then show ?thesis using m by (auto simp: index_ok_def)
  qed
  moreover have "\<exists>r0. r = reconciled r0 \<and> record_validate (js_dbg os) r0 = Inr ()"
    if "r \<in> set (read_records jr)" for r
    using rs that by (induction rule: list_all2_induct) (auto simp: read_of_def)
  ultimately show ?thesis
    using m list_all2_lengthD [OF rs] reconciled_keeps_valid
    unfolding ids by (fastforce simp: index_ok_def list_all_iff)
qed

text \<open>A new operation gets a valid identifier, and only when nothing of an earlier one is
  uncommitted and there is room for its record.\<close>

theorem new_operation_needs_settled_journal:
  assumes "store_new_id os s w = (Inr i, w')"
  shows "valid_id i \<and> (\<exists>jr v. store_records os s w = (Inr jr, v)
    \<and> read_uncommitted_snapshots jr = [] \<and> int (length (read_records jr)) < max_records)"
  using assms fresh_id_valid by (fastforce simp: store_new_id_def split: if_splits)

text \<open>C34: A store that was opened holds its lock, and after a refused opening no descriptor of the
  lock file is left.\<close>

theorem open_store_holds_lock:
  assumes "open_store (logged_store os) p create (w, []) = (r, w', l)"
  shows "\<exists>ph. trace_run lock_step LockFree l = Some ph \<and> lock_left r ph"
  using leadsD [OF leads_open _ assms] by simp


section \<open>The promises on the small store\<close>

theorem publication_survives_power_loss_witness:
  "others_kept store_demo_plan store_demo_before store_demo_found \<and>
    (image_kept store_demo_plan store_demo_before store_demo_found
     \<or> (\<exists>p. found_before False (take 10 store_demo_log) p \<and>
          (image_marked store_demo_plan p store_demo_before store_demo_found
           \<or> image_received store_demo_plan p store_demo_found)))"
  unfolding store_demo_plan_def
  by (rule publication_survives_power_loss [OF store_demo_published])
     (simp_all add: take_is_prefix store_demo_crash store_demo_settled)

theorem published_receipt_is_durable_witness:
  "\<exists>p. found_before False store_demo_log p \<and> image_received store_demo_plan p [''a-1.json'' \<mapsto> ''final'']"
  unfolding store_demo_plan_def
  by (rule published_receipt_is_durable [OF store_demo_published, where before = store_demo_before])
     (simp_all add: store_demo_crash_end store_demo_settled)


definition store_demo_read :: journal_read where
  "store_demo_read = \<lparr>read_records = [reconciled (store_demo_record ItemStarted)], read_uncommitted_snapshots = []\<rparr>"

lemma store_demo_reads: "store_records store_demo_os store_demo () = (Inr store_demo_read, ())"
  by code_simp

theorem journal_read_is_conservative_witness:
  "sorted_wrt (<) (map jr_operation_id (read_records store_demo_read))
    \<and> int (length (read_records store_demo_read)) \<le> max_records
    \<and> list_all (\<lambda>r. valid_id (jr_operation_id r) \<and> record_validate (js_dbg store_demo_os) r = Inr ()
        \<and> (\<exists>r0. r = reconciled r0 \<and> record_validate (js_dbg store_demo_os) r0 = Inr ())) (read_records store_demo_read)"
  by (rule journal_read_is_conservative [OF store_demo_reads])

lemma store_demo_new_id: "store_new_id store_demo_os store_demo () = (Inr ''10-0-1'', ())"
  by code_simp

theorem new_operation_needs_settled_journal_witness:
  "valid_id ''10-0-1'' \<and> (\<exists>jr v. store_records store_demo_os store_demo () = (Inr jr, v)
    \<and> read_uncommitted_snapshots jr = [] \<and> int (length (read_records jr)) < max_records)"
  by (rule new_operation_needs_settled_journal [OF store_demo_new_id])

definition store_demo_opening :: "store_event list" where
  "store_demo_opening = [SeMkdir 7 ''state'' (Inr ()), SeFsync 7 (Inr ()), SeOpenLock 7 True (Inr 5),
     SeFlock 5 (Inr ()), SeFsync 7 (Inr ())]"

lemma store_demo_opens:
  "open_store (logged_store store_demo_os) ''/state'' True ((), []) = (Inr store_demo, (), store_demo_opening)"
  by code_simp

theorem open_store_holds_lock_witness:
  "\<exists>ph. trace_run lock_step LockFree store_demo_opening = Some ph \<and> lock_left (Inr store_demo) ph"
  by (rule open_store_holds_lock [OF store_demo_opens])

lemma store_demo_serves: "serves store_demo_os store_demo store_demo_stat"
  unfolding serves_def
  by (auto simp: store_demo_os_def store_demo_def store_demo_stat_def private_directory_def regular_private_def
      store_demo_print_def max_record_bytes_def intro!: succeeds_aret)


end
