(* ===== verification/Rule_Evidence.thy ===== *)
theory Rule_Evidence
  imports Actions Scan_Model
begin

text \<open>
  The native evidence of a rule preview (\<open>HostNativeEvidence\<close> of \<open>rules.rs\<close>, on macOS, and
  \<open>ReadOnlyPolicy\<close> of \<open>platform-macos/src/lib.rs\<close>): the metadata of a scanned file, found by
  descending from its root through the directories the scan saw, and its first four bytes. The
  system calls and the cancellation flag are the fields of a record over the state \<open>'w\<close> of the
  outside world; descriptors are closed by their drop, which nothing here relies on.
\<close>

section \<open>The system\<close>

text \<open>The fields of the native \<open>stat\<close> that are read, at their macOS widths.\<close>

record evidence_stat =
  es_dev :: "32 word"
  es_ino :: u64
  es_mode :: "16 word"
  es_nlink :: "16 word"
  es_uid :: u32
  es_flags :: u32

text \<open>
  Directories and files are opened with \<open>O_NOFOLLOW_ANY\<close> (\<open>0x2000_0000\<close>), a name is examined
  with \<open>AT_SYMLINK_NOFOLLOW\<close>. What is left of the cancellation flag (\<open>polls\<close>) is read and
  advanced in the state.
\<close>

record 'w evidence_os =
  ev_polls :: "'w \<Rightarrow> polls"
  ev_put_polls :: "polls \<Rightarrow> 'w \<Rightarrow> 'w"
  ev_get_policy :: "('w, 32 word) act"
  ev_set_policy :: "32 word \<Rightarrow> ('w, unit) act"
  ev_open_dir :: "path \<Rightarrow> ('w, fd) act"
  ev_openat_dir :: "fd \<Rightarrow> bytes \<Rightarrow> ('w, fd) act"
  ev_openat_file :: "fd \<Rightarrow> bytes \<Rightarrow> ('w, fd) act"
  ev_fstat :: "fd \<Rightarrow> ('w, evidence_stat) act"
  ev_statat :: "fd \<Rightarrow> bytes \<Rightarrow> ('w, evidence_stat) act"
  ev_read :: "fd \<Rightarrow> nat \<Rightarrow> ('w, u8 list) act"
  ev_euid :: u32

definition is_cancelled :: "'w evidence_os \<Rightarrow> 'w \<Rightarrow> bool \<times> 'w" where
  "is_cancelled os w =
     (case ev_polls os w of
        None \<Rightarrow> (False, w)
      | Some 0 \<Rightarrow> (True, w)
      | Some (Suc n) \<Rightarrow> (False, ev_put_polls os (Some n) w))"

definition cancelled_now :: "'w evidence_os \<Rightarrow> ('w, 'x, bool) eact" where
  "cancelled_now os = atest (is_cancelled os)"

section \<open>Facts\<close>

datatype native_error = NeChanged | NeDataless | NePolicyFailure | NeUnsupported | NeCancelled
  | NeReadFailed | NeShortRead

record native_facts =
  nf_identity :: file_identity
  nf_kind :: resource_kind
  nf_nlink :: "u64 option"
  nf_uid :: "u32 option"
  nf_dataless :: bool

unbundle bit_operations_syntax

definition mode_kind :: "16 word \<Rightarrow> resource_kind" where
  "mode_kind mode =
     (let format = mode AND 0xF000 in
      if format = 0x8000 then KFile
      else if format = 0x4000 then KDirectory
      else if format = 0xA000 then KLink
      else KOther)"

definition from_stat :: "evidence_stat \<Rightarrow> native_facts" where
  "from_stat st = \<lparr>nf_identity = Unix (ucast (es_dev st)) (es_ino st),
     nf_kind = mode_kind (es_mode st), nf_nlink = Some (ucast (es_nlink st)),
     nf_uid = Some (es_uid st), nf_dataless = (es_flags st AND 0x40000000 \<noteq> 0)\<rparr>"

definition unix_identity_known :: "file_identity \<Rightarrow> bool" where
  "unix_identity_known i = (case i of Unix d n \<Rightarrow> True | Windows v f \<Rightarrow> False)"

text \<open>\<open>.map_err(|_| e)\<close>\<close>

definition or_fail :: "'x \<Rightarrow> ('w, 'a) act \<Rightarrow> ('w, 'x, 'a) eact" where
  "or_fail e m = amatch m (\<lambda>r. case r of Inl _ \<Rightarrow> afail e | Inr a \<Rightarrow> aret a)"

section \<open>The read-only policy of the thread\<close>

definition policy_enter :: "'w evidence_os \<Rightarrow> ('w, 32 word) act" where
  "policy_enter os =
     abind (ev_get_policy os) (\<lambda>previous. abind (ev_set_policy os 1) (\<lambda>_. aret previous))"

text \<open>
  \<open>restore\<close> consumes the guard: when it fails the guard is still active, and its drop tries once
  more and only reports a second failure.
\<close>

definition policy_restore :: "'w evidence_os \<Rightarrow> 32 word \<Rightarrow> ('w, unit) act" where
  "policy_restore os previous =
     amatch (ev_set_policy os previous) (\<lambda>r. case r of
         Inr _ \<Rightarrow> aret ()
       | Inl e \<Rightarrow> amatch (ev_set_policy os previous) (\<lambda>_. afail e))"

definition under_policy ::
  "'w evidence_os \<Rightarrow> ('w, native_error, 'a) eact \<Rightarrow> ('w, native_error, 'a) eact" where
  "under_policy os body =
     abind (or_fail NePolicyFailure (policy_enter os)) (\<lambda>previous.
     amatch body (\<lambda>checked.
     amatch (policy_restore os previous) (\<lambda>restored. case restored of
         Inr _ \<Rightarrow> alift checked
       | Inl _ \<Rightarrow> afail NePolicyFailure)))"

section \<open>The descent\<close>

text \<open>
  A directory must be the one the scan saw. A dataless directory has an error of its own when
  the metadata is inspected (\<open>dl = NeDataless\<close>) and counts as changed when the marker is read.
\<close>

definition open_directory ::
  "'w evidence_os \<Rightarrow> native_error \<Rightarrow> ('w, fd) act \<Rightarrow> file_identity \<Rightarrow> ('w, native_error, fd) eact" where
  "open_directory os dl opener expected =
     abind (or_fail NeChanged opener) (\<lambda>d.
     abind (or_fail NeChanged (ev_fstat os d)) (\<lambda>st.
       if nf_kind (from_stat st) \<noteq> KDirectory \<or> nf_identity (from_stat st) \<noteq> expected then afail NeChanged
       else if nf_dataless (from_stat st) then afail dl
       else aret d))"

fun walk_ancestors ::
  "'w evidence_os \<Rightarrow> native_error \<Rightarrow> fd \<Rightarrow> (bytes \<times> file_identity) list \<Rightarrow> ('w, native_error, fd) eact" where
  "walk_ancestors os dl d [] = aret d"
| "walk_ancestors os dl d ((name, expected) # rest) =
     abind (cancelled_now os) (\<lambda>stop.
       if stop then afail NeCancelled
       else abind (open_directory os dl (ev_openat_dir os d name) expected) (\<lambda>child.
         walk_ancestors os dl child rest))"

definition leaf_name :: "path \<Rightarrow> ('w, native_error, bytes) eact" where
  "leaf_name relative = alift (ok_or NeChanged (file_name relative))"

definition inspect_checked ::
  "'w evidence_os \<Rightarrow> path \<Rightarrow> file_identity \<Rightarrow> path \<Rightarrow> (bytes \<times> file_identity) list
     \<Rightarrow> ('w, native_error, native_facts) eact" where
  "inspect_checked os root root_identity relative ancestors =
     abind (open_directory os NeDataless (ev_open_dir os root) root_identity) (\<lambda>top.
     abind (walk_ancestors os NeDataless top ancestors) (\<lambda>d.
     abind (cancelled_now os) (\<lambda>stop.
       if stop then afail NeCancelled
       else abind (leaf_name relative) (\<lambda>leaf.
         abind (or_fail NeChanged (ev_statat os d leaf)) (\<lambda>st. aret (from_stat st))))))"

definition inspect_with_ancestry ::
  "'w evidence_os \<Rightarrow> path \<Rightarrow> file_identity \<Rightarrow> path \<Rightarrow> (bytes \<times> file_identity) list
     \<Rightarrow> ('w, native_error, native_facts) eact" where
  "inspect_with_ancestry os root root_identity relative ancestors =
     (if \<not> unix_identity_known root_identity then afail NeUnsupported
      else under_policy os (inspect_checked os root root_identity relative ancestors))"

section \<open>The marker\<close>

definition still_file :: "file_identity \<Rightarrow> evidence_stat \<Rightarrow> bool" where
  "still_file expected st \<longleftrightarrow> nf_identity (from_stat st) = expected
     \<and> nf_kind (from_stat st) = KFile \<and> \<not> nf_dataless (from_stat st)"

definition check_file_still ::
  "file_identity \<Rightarrow> ('w, evidence_stat) act \<Rightarrow> ('w, native_error, unit) eact" where
  "check_file_still expected stat_call =
     abind (or_fail NeChanged stat_call) (\<lambda>st. alift (ensure (still_file expected st) NeChanged))"

text \<open>
  The loop that fills the buffer of four bytes; \<open>acc\<close> is what has been read. A read stores at
  most the rest of the buffer and \<open>0\<close> bytes is the end of the file, so the loop ends.
\<close>

function read_marker ::
  "'w evidence_os \<Rightarrow> fd \<Rightarrow> u8 list \<Rightarrow> ('w, native_error, u8 list) eact" where
  "read_marker os f acc w =
     (if 4 \<le> length acc then (Inr acc, w)
      else case is_cancelled os w of (stop, w1) \<Rightarrow>
        if stop then (Inl NeCancelled, w1)
        else case ev_read os f (4 - length acc) w1 of
          (Inl _, w2) \<Rightarrow> (Inl NeReadFailed, w2)
        | (Inr bs, w2) \<Rightarrow>
            if bs = [] then (Inl NeShortRead, w2)
            else read_marker os f (acc @ take (4 - length acc) bs) w2)"
  by pat_completeness auto

termination
  by (relation "measure (\<lambda>(os, f, acc, w). 4 - length acc)") (auto simp: min_def simp flip: length_greater_0_conv)

declare read_marker.simps [simp del]

definition prefix4_checked ::
  "'w evidence_os \<Rightarrow> path \<Rightarrow> file_identity \<Rightarrow> path \<Rightarrow> (bytes \<times> file_identity) list \<Rightarrow> file_identity
     \<Rightarrow> ('w, native_error, u8 list) eact" where
  "prefix4_checked os root root_identity relative ancestors expected =
     abind (open_directory os NeChanged (ev_open_dir os root) root_identity) (\<lambda>top.
     abind (walk_ancestors os NeChanged top ancestors) (\<lambda>d.
     abind (leaf_name relative) (\<lambda>leaf.
     abind (check_file_still expected (ev_statat os d leaf)) (\<lambda>_.
     abind (or_fail NeChanged (ev_openat_file os d leaf)) (\<lambda>f.
     abind (check_file_still expected (ev_fstat os f)) (\<lambda>_.
     abind (read_marker os f []) (\<lambda>bs.
     abind (check_file_still expected (ev_fstat os f)) (\<lambda>_. aret bs))))))))"

definition read_prefix4_with_ancestry ::
  "'w evidence_os \<Rightarrow> path \<Rightarrow> file_identity \<Rightarrow> path \<Rightarrow> (bytes \<times> file_identity) list \<Rightarrow> file_identity
     \<Rightarrow> ('w, native_error, u8 list) eact" where
  "read_prefix4_with_ancestry os root root_identity relative ancestors expected =
     (if \<not> unix_identity_known root_identity \<or> \<not> unix_identity_known expected then afail NeUnsupported
      else under_policy os (prefix4_checked os root root_identity relative ancestors expected))"

section \<open>The trait\<close>

record 'w native_evidence =
  ne_current_uid :: "u32 option"
  ne_inspect :: "path \<Rightarrow> file_identity \<Rightarrow> path \<Rightarrow> (bytes \<times> file_identity) list
    \<Rightarrow> ('w, native_error, native_facts) eact"
  ne_prefix4 :: "path \<Rightarrow> file_identity \<Rightarrow> path \<Rightarrow> (bytes \<times> file_identity) list \<Rightarrow> file_identity
    \<Rightarrow> ('w, native_error, u8 list) eact"

definition host_native_evidence :: "'w evidence_os \<Rightarrow> 'w native_evidence" where
  "host_native_evidence os = \<lparr>ne_current_uid = Some (ev_euid os),
     ne_inspect = inspect_with_ancestry os, ne_prefix4 = read_prefix4_with_ancestry os\<rparr>"

end
