(* ===== verification/Rule_Preview.thy ===== *)
theory Rule_Preview
  imports Rule_Evidence Rule_Targets Scan_Index Policy_Paths
begin

text \<open>
  The preview of the two built-in rules (\<open>rules.rs\<close>): every entry of a scan whose name a rule
  targets becomes a candidate, when the scan and the native evidence support it, or a refusal.
  The two functions \<open>preview_with_provider\<close> and \<open>preview_javac_with_provider\<close> have the index,
  the places, the checks and the accounting in common; the definitions here that both use are
  named for what they do. The explanatory texts of the rule catalogue are left out.
\<close>

section \<open>Rules\<close>

datatype rule_action = PreviewOnly | ManualReview | ExplicitNativeTrash

record rule_definition =
  rd_id :: bytes
  rd_version :: u32
  rd_ruleset_schema_version :: u32
  rd_ruleset_revision :: u32
  rd_actions :: "rule_action list"

definition preview_schema_version :: u32 where "preview_schema_version = 1"
definition ruleset_schema_version :: u32 where "ruleset_schema_version = 1"
definition builtin_ruleset_revision :: u32 where "builtin_ruleset_revision = 3"

definition cpython_rule :: rule_definition where
  "cpython_rule = \<lparr>rd_id = cpython_rule_id, rd_version = 2,
     rd_ruleset_schema_version = ruleset_schema_version,
     rd_ruleset_revision = builtin_ruleset_revision,
     rd_actions = [PreviewOnly, ManualReview, ExplicitNativeTrash]\<rparr>"

definition javac_rule :: rule_definition where
  "javac_rule = \<lparr>rd_id = javac_rule_id, rd_version = 1,
     rd_ruleset_schema_version = ruleset_schema_version,
     rd_ruleset_revision = builtin_ruleset_revision,
     rd_actions = [PreviewOnly, ManualReview, ExplicitNativeTrash]\<rparr>"

datatype rule_kind = CpythonPyc | JavacClass

definition builtin_rule :: "bytes \<Rightarrow> (rule_definition \<times> rule_kind) option" where
  "builtin_rule rule_id =
     (if rule_id = cpython_rule_id then Some (cpython_rule, CpythonPyc)
      else if rule_id = javac_rule_id then Some (javac_rule, JavacClass)
      else None)"

definition builtin_rules :: "rule_definition list" where "builtin_rules = [cpython_rule, javac_rule]"

definition is_builtin_rule :: "bytes \<Rightarrow> bool" where
  "is_builtin_rule rule_id = list_ex (\<lambda>rule. rd_id rule = rule_id) builtin_rules"

record rule_binding_metadata =
  rbm_rule_id :: bytes
  rbm_rule_version :: u32
  rbm_ruleset_schema_version :: u32
  rbm_ruleset_revision :: u32
  rbm_semantics :: bytes
  rbm_semantics_digest :: bytes

definition binding_metadata :: "bytes \<Rightarrow> rule_binding_metadata option" where
  "binding_metadata rule_id =
     (if rule_id = cpython_rule_id then Some \<lparr>rbm_rule_id = cpython_rule_id, rbm_rule_version = 2,
        rbm_ruleset_schema_version = ruleset_schema_version, rbm_ruleset_revision = builtin_ruleset_revision,
        rbm_semantics = cpython_semantics, rbm_semantics_digest = cpython_semantics_digest\<rparr>
      else if rule_id = javac_rule_id then Some \<lparr>rbm_rule_id = javac_rule_id, rbm_rule_version = 1,
        rbm_ruleset_schema_version = ruleset_schema_version, rbm_ruleset_revision = builtin_ruleset_revision,
        rbm_semantics = javac_semantics, rbm_semantics_digest = javac_semantics_digest\<rparr>
      else None)"

lemma builtin_rule_known: "is_builtin_rule rule_id \<longleftrightarrow> builtin_rule rule_id \<noteq> None"
  "builtin_rule rule_id \<noteq> None \<longleftrightarrow> binding_metadata rule_id \<noteq> None"
  by (auto simp: is_builtin_rule_def builtin_rules_def builtin_rule_def binding_metadata_def cpython_rule_def javac_rule_def)

section \<open>Refusals, candidates and previews\<close>

datatype refusal_code = UnsupportedRulePlatform | ScanIncomplete | CandidateNotRegularFile
  | CandidateDatalessOrCloud | NotPycacheChild | InvalidPep3147Name | InvalidJavacClassName
  | SourceMissing | SourceNotRegularFile | SourceIsLink | SourceDatalessOrCloud | SourceOutsideRoot
  | ProtectedPath | IdentityUnknown | IdentityChanged | DuplicateOrHardlinkAmbiguous
  | NativePolicyFailure | TargetMarkerReadFailed | TargetMarkerShortRead | TargetMarkerMismatch
  | OwnerUnknownOrRunning | RuleCancelled | BudgetExceeded

record rule_refusal =
  rf_rule_id :: bytes
  rf_rule_version :: u32
  rf_ruleset_revision :: u32
  rf_code :: refusal_code
  rf_path :: "path option"
  rf_message :: bytes

definition rule_refusal_at :: "rule_definition \<Rightarrow> scan_entry \<Rightarrow> refusal_code \<Rightarrow> bytes \<Rightarrow> rule_refusal" where
  "rule_refusal_at rule e code message = \<lparr>rf_rule_id = rd_id rule, rf_rule_version = rd_version rule,
     rf_ruleset_revision = rd_ruleset_revision rule, rf_code = code, rf_path = Some (sn_path e),
     rf_message = message\<rparr>"

definition rule_global_refusal :: "rule_definition \<Rightarrow> refusal_code \<Rightarrow> bytes \<Rightarrow> rule_refusal" where
  "rule_global_refusal rule code message = \<lparr>rf_rule_id = rd_id rule, rf_rule_version = rd_version rule,
     rf_ruleset_revision = rd_ruleset_revision rule, rf_code = code, rf_path = None,
     rf_message = message\<rparr>"

record rule_candidate =
  rc_rule_id :: bytes
  rc_rule_version :: u32
  rc_ruleset_revision :: u32
  rc_action :: rule_action
  rc_target_entry_id :: u64
  rc_source_entry_id :: u64
  rc_target_path :: path
  rc_source_path :: path
  rc_target_identity :: file_identity
  rc_source_identity :: file_identity
  rc_matched_logical_bytes :: "u64 option"
  rc_source_relation :: bytes
  rc_observed_target_marker :: "bytes option"
  rc_observed_cache_tag :: bytes
  rc_observed_optimization_tag :: "bytes option"

record rule_preview =
  rv_schema_version :: u32
  rv_kind :: bytes
  rv_ruleset_schema_version :: u32
  rv_ruleset_revision :: u32
  rv_rule_id :: bytes
  rv_rule_version :: u32
  rv_scan_task_id :: bytes
  rv_status :: bytes
  rv_complete :: bool
  rv_roots :: "path list"
  rv_issues :: "scan_issue list"
  rv_issues_omitted :: nat
  rv_candidates :: "rule_candidate list"
  rv_refusals :: "rule_refusal list"
  rv_matched_bytes_known :: u64
  rv_matched_bytes_unknown_files :: u64
  rv_effects_performed :: bool

definition compatible_with_current_ruleset :: "rule_preview \<Rightarrow> bool" where
  "compatible_with_current_ruleset v \<longleftrightarrow> rv_ruleset_revision v = builtin_ruleset_revision"

datatype preview_error = InvalidRuleId | PreviewScan scan_error

datatype rule_run_status = RunComplete | RunPartial | RunCancelled

fun run_status_as_str :: "rule_run_status \<Rightarrow> bytes" where
  "run_status_as_str RunComplete = scan_status_as_str StatusComplete"
| "run_status_as_str RunPartial = scan_status_as_str StatusPartial"
| "run_status_as_str RunCancelled = scan_status_as_str StatusCancelled"

definition run_status_complete :: "rule_run_status \<Rightarrow> bool" where
  "run_status_complete s \<longleftrightarrow> s = RunComplete"

text \<open>\<open>Display\<close> of a task id: two decimal numbers.\<close>

definition scan_task_id_display :: "scan_task_id \<Rightarrow> bytes" where
  "scan_task_id_display i = decimal (unat (st_process i)) @ '':'' @ decimal (unat (st_sequence i))"

section \<open>What is known of the entries\<close>

text \<open>\<open>max_by_key\<close> returns the last of the longest roots.\<close>

definition explicit_root_for_path :: "path list \<Rightarrow> path \<Rightarrow> path option" where
  "explicit_root_for_path roots p =
     foldl (\<lambda>best root. case best of
         None \<Rightarrow> Some root
       | Some b \<Rightarrow> if length b \<le> length root then Some root else Some b)
       None (filter (starts_with p) roots)"

text \<open>A map keyed by paths identifies paths with the same components.\<close>

record rule_index =
  ri_by_path :: "component list \<rightharpoonup> scan_entry"
  ri_root_by_entry :: "u64 \<rightharpoonup> path option"

definition index_empty :: rule_index where
  "index_empty = \<lparr>ri_by_path = Map.empty, ri_root_by_entry = Map.empty\<rparr>"

definition index_insert :: "path list \<Rightarrow> scan_entry \<Rightarrow> rule_index \<Rightarrow> rule_index" where
  "index_insert roots e idx = \<lparr>ri_by_path = (ri_by_path idx)(components (sn_path e) \<mapsto> e),
     ri_root_by_entry = (ri_root_by_entry idx)(sn_id e \<mapsto> explicit_root_for_path roots (sn_path e))\<rparr>"

text \<open>The loop over the entries; the flag tells that it was cut short.\<close>

fun index_entries_of ::
  "'w evidence_os \<Rightarrow> path list \<Rightarrow> scan_entry list \<Rightarrow> rule_index \<Rightarrow> ('w, 'x, rule_index \<times> bool) eact" where
  "index_entries_of os roots [] idx = aret (idx, False)"
| "index_entries_of os roots (e # es) idx =
     abind (cancelled_now os) (\<lambda>stop.
       if stop then aret (idx, True)
       else index_entries_of os roots es (index_insert roots e idx))"

definition root_of :: "rule_index \<Rightarrow> scan_entry \<Rightarrow> path option" where
  "root_of idx e = (case ri_root_by_entry idx (sn_id e) of None \<Rightarrow> None | Some r \<Rightarrow> r)"

definition root_key :: "rule_index \<Rightarrow> scan_entry \<Rightarrow> component list option option" where
  "root_key idx e = map_option (map_option components) (ri_root_by_entry idx (sn_id e))"

definition entry_at :: "rule_index \<Rightarrow> path \<Rightarrow> scan_entry option" where
  "entry_at idx p = ri_by_path idx (components p)"

definition directory_entry :: "scan_entry option \<Rightarrow> scan_entry option" where
  "directory_entry x = (case x of None \<Rightarrow> None | Some e \<Rightarrow> if sn_kind e = KDirectory then Some e else None)"

definition path_protected :: "scope list \<Rightarrow> path \<Rightarrow> bool" where
  "path_protected scopes p \<longleftrightarrow> list_ex (\<lambda>s. scope_protects s p) scopes"

definition root_scopes :: "path list \<Rightarrow> scope list" where
  "root_scopes roots = List.map_filter (\<lambda>root. case scope_new root [] of Inl _ \<Rightarrow> None | Inr s \<Rightarrow> Some s) roots"

fun ancestor_chain ::
  "rule_index \<Rightarrow> path \<Rightarrow> component list \<Rightarrow> (bytes \<times> file_identity) list option" where
  "ancestor_chain idx current [] = Some []"
| "ancestor_chain idx current (Normal name # rest) =
     (let current' = path_join current name in
      case entry_at idx current' of
        None \<Rightarrow> None
      | Some e \<Rightarrow>
          if sn_kind e \<noteq> KDirectory then None
          else map_option (Cons (name, sn_identity e)) (ancestor_chain idx current' rest))"
| "ancestor_chain idx current (_ # rest) = None"

definition ancestor_identities ::
  "rule_index \<Rightarrow> path \<Rightarrow> path \<Rightarrow> (bytes \<times> file_identity) list option" where
  "ancestor_identities idx root relative =
     (case parent relative of
        None \<Rightarrow> Some []
      | Some up \<Rightarrow> ancestor_chain idx root (components up))"

section \<open>How the examination of an entry ends\<close>

text \<open>\<open>continue\<close> without a refusal, \<open>continue\<close> with one, and the \<open>break\<close> of a cancellation.\<close>

datatype entry_exit = Skip | Refuse refusal_code bytes | Halt bytes

definition halt_if_cancelled :: "'w evidence_os \<Rightarrow> bytes \<Rightarrow> ('w, entry_exit, unit) eact" where
  "halt_if_cancelled os message =
     abind (cancelled_now os) (\<lambda>stop. if stop then afail (Halt message) else aret ())"

section \<open>The checks against the scan\<close>

definition candidate_checks :: "scope list \<Rightarrow> scan_entry \<Rightarrow> (entry_exit, unit) result" where
  "candidate_checks scopes e =
     rbind (ensure (sn_kind e = KFile)
              (Refuse CandidateNotRegularFile ''candidate is not a regular file'')) (\<lambda>_.
     rbind (ensure (\<not> sn_dataless e)
              (Refuse CandidateDatalessOrCloud ''candidate is cloud-only or dataless'')) (\<lambda>_.
     ensure (\<not> path_protected scopes (sn_path e))
       (Refuse ProtectedPath ''candidate path is protected'')))"

definition pyc_source :: "rule_index \<Rightarrow> scan_entry \<Rightarrow> (entry_exit, parsed_cache_name \<times> scan_entry) result" where
  "pyc_source idx e =
     rbind (ok_or (Refuse NotPycacheChild ''candidate has no parent directory'') (parent (sn_path e))) (\<lambda>dir.
     rbind (ensure (file_name dir = Some ''__pycache__'')
              (Refuse NotPycacheChild ''candidate is not directly under __pycache__'')) (\<lambda>_.
     rbind (ok_or (Refuse InvalidPep3147Name ''candidate has no file name'') (file_name (sn_path e))) (\<lambda>name.
     rbind (ok_or (Refuse InvalidPep3147Name ''candidate name is not a supported CPython cache tag'')
              (parse_cpython_name name)) (\<lambda>parsed.
     rbind (ok_or (Refuse SourceMissing ''source directory is unavailable'') (parent dir)) (\<lambda>up.
     rbind (ok_or (Refuse SourceMissing ''source .py is not observed in this scan'')
              (entry_at idx (path_join up (pcn_module_basename parsed @ ''.py'')))) (\<lambda>s.
       Inr (parsed, s)))))))"

definition class_source :: "rule_index \<Rightarrow> scan_entry \<Rightarrow> (entry_exit, explicit_rule_selection \<times> scan_entry) result" where
  "class_source idx e =
     rbind (ok_or (Refuse InvalidJavacClassName ''candidate name is not a supported same-stem javac .class target'')
              (explicit_selection_for_javac (sn_path e))) (\<lambda>selection.
     rbind (ok_or (Refuse SourceMissing ''source .java is not observed in this scan'')
              (entry_at idx (ers_source_path selection))) (\<lambda>s.
       Inr (selection, s)))"

text \<open>\<open>what\<close> is how the rule calls its target.\<close>

definition source_checks ::
  "rule_index \<Rightarrow> scope list \<Rightarrow> bytes \<Rightarrow> scan_entry \<Rightarrow> scan_entry \<Rightarrow> (entry_exit, unit) result" where
  "source_checks idx scopes what e s =
     rbind (ensure (root_key idx e = root_key idx s)
              (Refuse SourceOutsideRoot (''source and '' @ what @ '' are not in the same explicit root''))) (\<lambda>_.
     rbind (ensure (sn_kind s \<noteq> KLink)
              (Refuse SourceIsLink ''source is a link and is not accepted'')) (\<lambda>_.
     rbind (ensure (sn_kind s = KFile)
              (Refuse SourceNotRegularFile ''source is not a regular file'')) (\<lambda>_.
     rbind (ensure (\<not> sn_dataless s)
              (Refuse SourceDatalessOrCloud ''source is cloud-only or dataless'')) (\<lambda>_.
     rbind (ensure (\<not> path_protected scopes (sn_path s))
              (Refuse ProtectedPath ''source path is protected'')) (\<lambda>_.
     ensure (sn_counted e \<and> sn_counted s \<and> sn_identity e \<noteq> sn_identity s)
       (Refuse DuplicateOrHardlinkAmbiguous ''hardlink or duplicate identity ambiguity''))))))"

text \<open>Where the native evidence finds a file.\<close>

record rule_place =
  rp_root :: path
  rp_root_identity :: file_identity
  rp_relative :: path
  rp_ancestors :: "(bytes \<times> file_identity) list"

definition rule_places ::
  "rule_index \<Rightarrow> scan_entry \<Rightarrow> scan_entry \<Rightarrow> (entry_exit, rule_place \<times> rule_place) result" where
  "rule_places idx e s =
     rbind (ok_or (Refuse IdentityUnknown ''candidate has no explicit root membership'') (root_of idx e)) (\<lambda>target_root.
     rbind (ok_or (Refuse IdentityUnknown ''source has no explicit root membership'') (root_of idx s)) (\<lambda>source_root.
     rbind (ok_or (Refuse IdentityUnknown ''target root directory identity is unavailable in scan facts'')
              (directory_entry (entry_at idx target_root))) (\<lambda>target_root_entry.
     rbind (ok_or (Refuse IdentityUnknown ''source root directory identity is unavailable in scan facts'')
              (directory_entry (entry_at idx source_root))) (\<lambda>source_root_entry.
     rbind (ok_or (Refuse IdentityUnknown ''target relative path cannot be derived from explicit root'')
              (strip_prefix (sn_path e) target_root)) (\<lambda>target_relative.
     rbind (ok_or (Refuse IdentityUnknown ''source relative path cannot be derived from explicit root'')
              (strip_prefix (sn_path s) source_root)) (\<lambda>source_relative.
     rbind (ok_or (Refuse IdentityUnknown ''target ancestor identities are unavailable in scan facts'')
              (ancestor_identities idx target_root target_relative)) (\<lambda>target_ancestors.
     rbind (ok_or (Refuse IdentityUnknown ''source ancestor identities are unavailable in scan facts'')
              (ancestor_identities idx source_root source_relative)) (\<lambda>source_ancestors.
       Inr (\<lparr>rp_root = target_root, rp_root_identity = sn_identity target_root_entry,
              rp_relative = target_relative, rp_ancestors = target_ancestors\<rparr>,
            \<lparr>rp_root = source_root, rp_root_identity = sn_identity source_root_entry,
              rp_relative = source_relative, rp_ancestors = source_ancestors\<rparr>)))))))))"

section \<open>The native evidence\<close>

definition inspect_place ::
  "'w evidence_os \<Rightarrow> 'w native_evidence \<Rightarrow> bytes \<Rightarrow> refusal_code \<Rightarrow> rule_place
     \<Rightarrow> ('w, entry_exit, native_facts) eact" where
  "inspect_place os provider what dataless place =
     amatch (ne_inspect provider (rp_root place) (rp_root_identity place) (rp_relative place) (rp_ancestors place))
       (\<lambda>r. let changed = Refuse IdentityChanged (what @ '' or '' @ what @ '' ancestry changed after scan'') in
          case r of
            Inr facts \<Rightarrow> aret facts
          | Inl NeCancelled \<Rightarrow>
              abind (cancelled_now os) (\<lambda>stop. afail
                (if stop then Halt ''rule preview cancelled during metadata verification'' else changed))
          | Inl NePolicyFailure \<Rightarrow>
              afail (Refuse NativePolicyFailure ''native read-only policy setup or restoration failed'')
          | Inl NeDataless \<Rightarrow>
              afail (Refuse dataless (what @ '' or '' @ what @ '' ancestor became cloud-only or dataless''))
          | Inl NeUnsupported \<Rightarrow>
              afail (Refuse UnsupportedRulePlatform ''native owner/link evidence unavailable on this platform'')
          | Inl _ \<Rightarrow> afail changed)"

definition owned_by :: "u32 option \<Rightarrow> u32 option \<Rightarrow> u32 option \<Rightarrow> bool" where
  "owned_by current target source =
     (case (current, target, source) of
        (Some c, Some t, Some s) \<Rightarrow> c = t \<and> c = s
      | _ \<Rightarrow> False)"

definition facts_checks ::
  "u32 option \<Rightarrow> scan_entry \<Rightarrow> scan_entry \<Rightarrow> native_facts \<Rightarrow> native_facts \<Rightarrow> (entry_exit, unit) result" where
  "facts_checks current e s target source =
     rbind (ensure (nf_identity target = sn_identity e \<and> nf_identity source = sn_identity s)
              (Refuse IdentityChanged ''target or source identity changed after scan'')) (\<lambda>_.
     rbind (ensure (nf_kind target = KFile \<and> nf_kind source = KFile)
              (Refuse IdentityChanged ''target or source kind changed after scan'')) (\<lambda>_.
     rbind (ensure (nf_nlink target = Some 1 \<and> nf_nlink source = Some 1)
              (Refuse DuplicateOrHardlinkAmbiguous ''link count is not exactly one for target/source'')) (\<lambda>_.
     ensure (owned_by current (nf_uid target) (nf_uid source))
       (Refuse OwnerUnknownOrRunning ''owner evidence is unknown or not current user''))))"

section \<open>CPython caches\<close>

definition pyc_candidate :: "scan_entry \<Rightarrow> scan_entry \<Rightarrow> parsed_cache_name \<Rightarrow> rule_candidate" where
  "pyc_candidate e s parsed = \<lparr>rc_rule_id = cpython_rule_id, rc_rule_version = rd_version cpython_rule,
     rc_ruleset_revision = builtin_ruleset_revision, rc_action = ManualReview,
     rc_target_entry_id = sn_id e, rc_source_entry_id = sn_id s,
     rc_target_path = sn_path e, rc_source_path = sn_path s,
     rc_target_identity = sn_identity e, rc_source_identity = sn_identity s,
     rc_matched_logical_bytes = sn_logical_bytes e, rc_source_relation = ''pep3147_parent_source_py'',
     rc_observed_target_marker = None, rc_observed_cache_tag = pcn_cache_tag parsed,
     rc_observed_optimization_tag = pcn_optimization parsed\<rparr>"

definition pyc_facts ::
  "'w evidence_os \<Rightarrow> 'w native_evidence \<Rightarrow> scan_entry \<Rightarrow> scan_entry \<Rightarrow> rule_place \<times> rule_place
     \<Rightarrow> ('w, entry_exit, unit) eact" where
  "pyc_facts os provider e s places =
     abind (inspect_place os provider ''target'' CandidateDatalessOrCloud (fst places)) (\<lambda>target.
     abind (halt_if_cancelled os ''rule preview cancelled during metadata verification'') (\<lambda>_.
     abind (inspect_place os provider ''source'' SourceDatalessOrCloud (snd places)) (\<lambda>source.
     abind (halt_if_cancelled os ''rule preview cancelled during metadata verification'') (\<lambda>_.
     abind (alift (ensure (\<not> nf_dataless target)
       (Refuse CandidateDatalessOrCloud ''target became cloud-only or dataless after scan''))) (\<lambda>_.
     abind (alift (ensure (\<not> nf_dataless source)
       (Refuse SourceDatalessOrCloud ''source became cloud-only or dataless after scan''))) (\<lambda>_.
       alift (facts_checks (ne_current_uid provider) e s target source)))))))"

definition examine_pyc ::
  "'w evidence_os \<Rightarrow> 'w native_evidence \<Rightarrow> scope list \<Rightarrow> rule_index \<Rightarrow> scan_entry
     \<Rightarrow> ('w, entry_exit, rule_candidate) eact" where
  "examine_pyc os provider scopes idx e =
     abind (halt_if_cancelled os ''rule preview cancelled during rule matching'') (\<lambda>_.
     abind (alift (ensure (looks_like_pyc (sn_path e)) Skip)) (\<lambda>_.
     abind (alift (candidate_checks scopes e)) (\<lambda>_.
     abind (alift (pyc_source idx e)) (\<lambda>(parsed, s).
     abind (alift (source_checks idx scopes ''cache'' e s)) (\<lambda>_.
     abind (halt_if_cancelled os ''rule preview cancelled before metadata verification'') (\<lambda>_.
     abind (alift (rule_places idx e s)) (\<lambda>places.
     abind (pyc_facts os provider e s places) (\<lambda>_.
       aret (pyc_candidate e s parsed)))))))))"

section \<open>Class files\<close>

definition class_magic :: "u8 list" where "class_magic = [0xCA, 0xFE, 0xBA, 0xBE]"

definition class_marker ::
  "'w evidence_os \<Rightarrow> 'w native_evidence \<Rightarrow> scan_entry \<Rightarrow> rule_place \<Rightarrow> ('w, entry_exit, unit) eact" where
  "class_marker os provider e place =
     amatch (ne_prefix4 provider (rp_root place) (rp_root_identity place) (rp_relative place)
               (rp_ancestors place) (sn_identity e))
       (\<lambda>r. let changed = Refuse IdentityChanged ''target changed during marker verification'' in
          case r of
            Inr marker \<Rightarrow> alift (ensure (marker = class_magic)
              (Refuse TargetMarkerMismatch ''class marker mismatch: expected cafebabe''))
          | Inl NeCancelled \<Rightarrow>
              abind (cancelled_now os) (\<lambda>stop. afail
                (if stop then Halt ''rule preview cancelled during marker verification'' else changed))
          | Inl NePolicyFailure \<Rightarrow>
              afail (Refuse NativePolicyFailure ''native read-only policy setup or restoration failed'')
          | Inl NeShortRead \<Rightarrow>
              afail (Refuse TargetMarkerShortRead ''class marker read returned fewer than 4 bytes'')
          | Inl NeReadFailed \<Rightarrow> afail (Refuse TargetMarkerReadFailed ''class marker read failed'')
          | Inl NeDataless \<Rightarrow>
              afail (Refuse CandidateDatalessOrCloud
                ''target became cloud-only or dataless during marker verification'')
          | Inl NeUnsupported \<Rightarrow>
              afail (Refuse UnsupportedRulePlatform
                ''native marker verification is unavailable on this platform'')
          | Inl NeChanged \<Rightarrow> afail changed)"

definition class_candidate :: "scan_entry \<Rightarrow> scan_entry \<Rightarrow> explicit_rule_selection \<Rightarrow> rule_candidate" where
  "class_candidate e s selection = \<lparr>rc_rule_id = javac_rule_id, rc_rule_version = rd_version javac_rule,
     rc_ruleset_revision = builtin_ruleset_revision, rc_action = ManualReview,
     rc_target_entry_id = sn_id e, rc_source_entry_id = sn_id s,
     rc_target_path = sn_path e, rc_source_path = sn_path s,
     rc_target_identity = sn_identity e, rc_source_identity = sn_identity s,
     rc_matched_logical_bytes = sn_logical_bytes e, rc_source_relation = ers_source_relation selection,
     rc_observed_target_marker = Some ''cafebabe'', rc_observed_cache_tag = [],
     rc_observed_optimization_tag = None\<rparr>"

definition class_facts ::
  "'w evidence_os \<Rightarrow> 'w native_evidence \<Rightarrow> scan_entry \<Rightarrow> scan_entry \<Rightarrow> rule_place \<times> rule_place
     \<Rightarrow> ('w, entry_exit, unit) eact" where
  "class_facts os provider e s places =
     abind (inspect_place os provider ''target'' CandidateDatalessOrCloud (fst places)) (\<lambda>target.
     abind (inspect_place os provider ''source'' SourceDatalessOrCloud (snd places)) (\<lambda>source.
     abind (alift (ensure (\<not> (nf_dataless target \<or> nf_dataless source))
       (Refuse CandidateDatalessOrCloud ''target/source became cloud-only or dataless after scan''))) (\<lambda>_.
       alift (facts_checks (ne_current_uid provider) e s target source))))"

definition examine_class ::
  "'w evidence_os \<Rightarrow> 'w native_evidence \<Rightarrow> scope list \<Rightarrow> rule_index \<Rightarrow> scan_entry
     \<Rightarrow> ('w, entry_exit, rule_candidate) eact" where
  "examine_class os provider scopes idx e =
     abind (halt_if_cancelled os ''rule preview cancelled during rule matching'') (\<lambda>_.
     abind (alift (ensure (looks_like_class (sn_path e)) Skip)) (\<lambda>_.
     abind (alift (candidate_checks scopes e)) (\<lambda>_.
     abind (alift (class_source idx e)) (\<lambda>(selection, s).
     abind (alift (source_checks idx scopes ''class'' e s)) (\<lambda>_.
     abind (alift (rule_places idx e s)) (\<lambda>places.
     abind (class_facts os provider e s places) (\<lambda>_.
     abind (class_marker os provider e (fst places)) (\<lambda>_.
       aret (class_candidate e s selection)))))))))"

section \<open>The loop over the entries\<close>

record rule_matches =
  mt_cancelled :: bool
  mt_candidates :: "rule_candidate list"
  mt_refusals :: "rule_refusal list"
  mt_known :: u64
  mt_unknown :: u64

definition refuse_entry :: "rule_definition \<Rightarrow> scan_entry \<Rightarrow> refusal_code \<Rightarrow> bytes \<Rightarrow> rule_matches \<Rightarrow> rule_matches" where
  "refuse_entry rule e code message s =
     s\<lparr>mt_refusals := mt_refusals s @ [rule_refusal_at rule e code message]\<rparr>"

definition halt_matching :: "rule_definition \<Rightarrow> bytes \<Rightarrow> rule_matches \<Rightarrow> rule_matches" where
  "halt_matching rule message s =
     s\<lparr>mt_cancelled := True, mt_refusals := mt_refusals s @ [rule_global_refusal rule RuleCancelled message]\<rparr>"

definition accept_entry :: "rule_definition \<Rightarrow> scan_entry \<Rightarrow> rule_candidate \<Rightarrow> rule_matches \<Rightarrow> rule_matches" where
  "accept_entry rule e c s =
     (case sn_logical_bytes e of
        Some n \<Rightarrow>
          (case checked_add (mt_known s) n of
             Some n' \<Rightarrow> s\<lparr>mt_known := n', mt_candidates := mt_candidates s @ [c]\<rparr>
           | None \<Rightarrow> refuse_entry rule e BudgetExceeded ''matched-bytes sum overflow'' s)
      | None \<Rightarrow>
          (case checked_add (mt_unknown s) 1 of
             Some n' \<Rightarrow> s\<lparr>mt_unknown := n', mt_candidates := mt_candidates s @ [c]\<rparr>
           | None \<Rightarrow> refuse_entry rule e BudgetExceeded ''unknown-byte file counter overflow'' s))"

text \<open>What an examination does to the answers; a cancellation ends the loop.\<close>

definition answer_entry ::
  "rule_definition \<Rightarrow> scan_entry \<Rightarrow> (entry_exit, rule_candidate) result \<Rightarrow> rule_matches \<Rightarrow> rule_matches" where
  "answer_entry rule e r s =
     (case r of
        Inr c \<Rightarrow> accept_entry rule e c s
      | Inl Skip \<Rightarrow> s
      | Inl (Refuse code message) \<Rightarrow> refuse_entry rule e code message s
      | Inl (Halt message) \<Rightarrow> halt_matching rule message s)"

definition ends_loop :: "(entry_exit, rule_candidate) result \<Rightarrow> bool" where
  "ends_loop r = (case r of Inl (Halt message) \<Rightarrow> True | _ \<Rightarrow> False)"

fun match_entries ::
  "rule_definition \<Rightarrow> (scan_entry \<Rightarrow> ('w, entry_exit, rule_candidate) eact) \<Rightarrow> scan_entry list
     \<Rightarrow> rule_matches \<Rightarrow> ('w, 'x, rule_matches) eact" where
  "match_entries rule examine [] s = aret s"
| "match_entries rule examine (e # es) s =
     amatch (examine e) (\<lambda>r.
       if ends_loop r then aret (answer_entry rule e r s)
       else match_entries rule examine es (answer_entry rule e r s))"

section \<open>The preview\<close>

definition matches_start :: "rule_definition \<Rightarrow> bool \<Rightarrow> bytes option \<Rightarrow> rule_matches" where
  "matches_start rule complete halted = \<lparr>mt_cancelled = (halted \<noteq> None), mt_candidates = [],
     mt_refusals =
       (case halted of None \<Rightarrow> [] | Some message \<Rightarrow> [rule_global_refusal rule RuleCancelled message])
       @ (if complete then []
          else [rule_global_refusal rule ScanIncomplete ''scan is partial; preview reflects observed subset only'']),
     mt_known = 0, mt_unknown = 0\<rparr>"

definition index_for_rules ::
  "'w evidence_os \<Rightarrow> scan_report \<Rightarrow> ('w, 'x, rule_index \<times> bytes option) eact" where
  "index_for_rules os r =
     abind (cancelled_now os) (\<lambda>stop.
       if stop then aret (index_empty, Some ''rule preview cancelled before indexing'')
       else abind (index_entries_of os (sr_roots r) (sr_entries r) index_empty) (\<lambda>(idx, cut).
         aret (idx, if cut then Some ''rule preview cancelled during indexing'' else None)))"

definition finish_preview :: "rule_definition \<Rightarrow> scan_report \<Rightarrow> rule_matches \<Rightarrow> rule_preview" where
  "finish_preview rule r s =
     (let status = (if mt_cancelled s then RunCancelled
                    else if sr_complete r then RunComplete else RunPartial) in
      \<lparr>rv_schema_version = preview_schema_version, rv_kind = ''rule_preview'',
       rv_ruleset_schema_version = ruleset_schema_version,
       rv_ruleset_revision = builtin_ruleset_revision, rv_rule_id = rd_id rule,
       rv_rule_version = rd_version rule, rv_scan_task_id = scan_task_id_display (sr_task_id r),
       rv_status = run_status_as_str status, rv_complete = run_status_complete status,
       rv_roots = sr_roots r, rv_issues = sr_issues r, rv_issues_omitted = sr_issues_omitted r,
       rv_candidates = (if mt_cancelled s then [] else mt_candidates s),
       rv_refusals = mt_refusals s,
       rv_matched_bytes_known = (if mt_cancelled s then 0 else mt_known s),
       rv_matched_bytes_unknown_files = (if mt_cancelled s then 0 else mt_unknown s),
       rv_effects_performed = False\<rparr>)"

definition run_preview ::
  "'w evidence_os \<Rightarrow> rule_definition \<Rightarrow> (scope list \<Rightarrow> rule_index \<Rightarrow> scan_entry \<Rightarrow> ('w, entry_exit, rule_candidate) eact)
     \<Rightarrow> scan_report \<Rightarrow> ('w, 'x, rule_preview) eact" where
  "run_preview os rule examine r =
     abind (index_for_rules os r) (\<lambda>(idx, halted).
       let s = matches_start rule (sr_complete r) halted in
       if halted \<noteq> None then aret (finish_preview rule r s)
       else abind (match_entries rule (examine (root_scopes (sr_roots r)) idx) (sr_entries r) s) (\<lambda>s'.
         aret (finish_preview rule r s')))"

definition preview_with_provider ::
  "'w evidence_os \<Rightarrow> 'w native_evidence \<Rightarrow> scan_report \<Rightarrow> ('w, 'x, rule_preview) eact" where
  "preview_with_provider os provider r = run_preview os cpython_rule (examine_pyc os provider) r"

definition preview_javac_with_provider ::
  "'w evidence_os \<Rightarrow> 'w native_evidence \<Rightarrow> scan_report \<Rightarrow> ('w, 'x, rule_preview) eact" where
  "preview_javac_with_provider os provider r = run_preview os javac_rule (examine_class os provider) r"

definition cancelled_preview :: "rule_definition \<Rightarrow> scan_report \<Rightarrow> rule_preview" where
  "cancelled_preview rule r =
     \<lparr>rv_schema_version = preview_schema_version, rv_kind = ''rule_preview'',
       rv_ruleset_schema_version = ruleset_schema_version,
       rv_ruleset_revision = builtin_ruleset_revision, rv_rule_id = rd_id rule,
       rv_rule_version = rd_version rule, rv_scan_task_id = scan_task_id_display (sr_task_id r),
       rv_status = scan_status_as_str StatusCancelled, rv_complete = False,
       rv_roots = sr_roots r, rv_issues = sr_issues r, rv_issues_omitted = sr_issues_omitted r,
       rv_candidates = [],
       rv_refusals = [rule_global_refusal rule RuleCancelled ''rule preview cancelled before scan indexing''],
       rv_matched_bytes_known = 0, rv_matched_bytes_unknown_files = 0, rv_effects_performed = False\<rparr>"

text \<open>A task runs on the flag in the state; \<open>order\<close> is the order of the map of \<open>ScanTree::build\<close>.\<close>

definition on_flag :: "'w evidence_os \<Rightarrow> 'a task \<Rightarrow> ('w, scan_error, 'a) eact" where
  "on_flag os t w =
     (case t (ev_polls os w) of
        Inl e \<Rightarrow> (Inl e, w)
      | Inr (a, k) \<Rightarrow> (Inr a, ev_put_polls os k w))"

definition preview ::
  "'w evidence_os \<Rightarrow> nat list \<Rightarrow> scan_report \<Rightarrow> bytes \<Rightarrow> ('w, preview_error, rule_preview) eact" where
  "preview os order r rule_id =
     (case builtin_rule rule_id of
        None \<Rightarrow> afail InvalidRuleId
      | Some (rule, kind) \<Rightarrow>
          abind (cancelled_now os) (\<lambda>stop.
            if stop then aret (cancelled_preview rule r)
            else amatch (on_flag os (build_shared order r scan_limits_default)) (\<lambda>built. case built of
                Inl e \<Rightarrow> afail (PreviewScan e)
              | Inr tree \<Rightarrow>
                  (case kind of
                     CpythonPyc \<Rightarrow> preview_with_provider os (host_native_evidence os) (tr_report tree)
                   | JavacClass \<Rightarrow> preview_javac_with_provider os (host_native_evidence os) (tr_report tree)))))"

end
