(* ===== verification/Rule_Evidence_Protocol.thy ===== *)
theory Rule_Evidence_Protocol
  imports Rule_Evidence
begin

text \<open>
  What the native evidence does, call by call: \<open>evidence_step\<close> accepts the calls of one
  inspection, the descent from the root through the scanned directories under the read-only
  policy, and \<open>policy_step\<close> only the discipline of the policy. One proof serves both monitors:
  the locale \<open>evidence_monitor\<close> holds it for every monitor that follows the first.
\<close>

section \<open>The calls\<close>

datatype evidence_event =
    EvGet "32 word io_result"
  | EvSet "32 word" "unit io_result"
  | EvOpenDir path "fd io_result"
  | EvOpenatDir fd bytes "fd io_result"
  | EvOpenatFile fd bytes "fd io_result"
  | EvFstat fd "evidence_stat io_result"
  | EvStatat fd bytes "evidence_stat io_result"
  | EvRead fd nat "u8 list io_result"

definition logged_evidence :: "'w evidence_os \<Rightarrow> ('w \<times> evidence_event list) evidence_os" where
  "logged_evidence os = \<lparr>ev_polls = (\<lambda>s. ev_polls os (fst s)),
     ev_put_polls = (\<lambda>k s. (ev_put_polls os k (fst s), snd s)),
     ev_get_policy = noted EvGet (ev_get_policy os),
     ev_set_policy = (\<lambda>v. noted (EvSet v) (ev_set_policy os v)),
     ev_open_dir = (\<lambda>p. noted (EvOpenDir p) (ev_open_dir os p)),
     ev_openat_dir = (\<lambda>d name. noted (EvOpenatDir d name) (ev_openat_dir os d name)),
     ev_openat_file = (\<lambda>d name. noted (EvOpenatFile d name) (ev_openat_file os d name)),
     ev_fstat = (\<lambda>d. noted (EvFstat d) (ev_fstat os d)),
     ev_statat = (\<lambda>d name. noted (EvStatat d name) (ev_statat os d name)),
     ev_read = (\<lambda>f n. noted (EvRead f n) (ev_read os f n)),
     ev_euid = ev_euid os\<rparr>"

lemma logged_evidence_calls [simp]:
  "ev_get_policy (logged_evidence os) = noted EvGet (ev_get_policy os)"
  "ev_set_policy (logged_evidence os) v = noted (EvSet v) (ev_set_policy os v)"
  "ev_open_dir (logged_evidence os) p = noted (EvOpenDir p) (ev_open_dir os p)"
  "ev_openat_dir (logged_evidence os) d name = noted (EvOpenatDir d name) (ev_openat_dir os d name)"
  "ev_openat_file (logged_evidence os) d name = noted (EvOpenatFile d name) (ev_openat_file os d name)"
  "ev_fstat (logged_evidence os) d = noted (EvFstat d) (ev_fstat os d)"
  "ev_statat (logged_evidence os) d name = noted (EvStatat d name) (ev_statat os d name)"
  "ev_read (logged_evidence os) f n = noted (EvRead f n) (ev_read os f n)"
  by (simp_all add: logged_evidence_def)

lemma is_cancelled_log: "snd (snd (is_cancelled (logged_evidence os) s)) = snd s"
  by (auto simp: is_cancelled_def logged_evidence_def split: option.splits nat.splits)

lemma quiet_cancelled [quiet_intros]: "quiet (cancelled_now (logged_evidence os))"
  by (simp add: quiet_def cancelled_now_def atest_def split_beta is_cancelled_log)

section \<open>The descent\<close>

text \<open>
  Where a descent is: before the root, at a directory just opened or found to be the scanned one
  (with the directories still to go through), behind the metadata of the leaf, in the file, behind
  its marker, or at the end after something failed.
\<close>

datatype descent = AtRoot
  | Opened fd file_identity "(bytes \<times> file_identity) list"
  | Arrived fd "(bytes \<times> file_identity) list"
  | Examined fd evidence_stat
  | FileOpened fd
  | Reading fd "u8 list"
  | MarkerRead "u8 list"
  | Broken

definition scanned_directory :: "file_identity \<Rightarrow> evidence_stat \<Rightarrow> bool" where
  "scanned_directory expected st \<longleftrightarrow> nf_kind (from_stat st) = KDirectory
     \<and> nf_identity (from_stat st) = expected \<and> \<not> nf_dataless (from_stat st)"

text \<open>The file an inspection is about.\<close>

record inspection =
  in_root :: path
  in_identity :: file_identity
  in_relative :: path
  in_ancestors :: "(bytes \<times> file_identity) list"
  in_expected :: file_identity

fun descent_step :: "inspection \<Rightarrow> descent \<Rightarrow> evidence_event \<Rightarrow> descent option" where
  "descent_step i AtRoot (EvOpenDir p r) =
     (if p = in_root i
      then Some (case r of Inl _ \<Rightarrow> Broken | Inr d \<Rightarrow> Opened d (in_identity i) (in_ancestors i)) else None)"
| "descent_step i (Opened d expected rest) (EvFstat d' r) =
     (if d' = d
      then Some (case r of Inl _ \<Rightarrow> Broken
        | Inr st \<Rightarrow> if scanned_directory expected st then Arrived d rest else Broken) else None)"
| "descent_step i (Arrived d ((name, expected) # rest)) (EvOpenatDir d' name' r) =
     (if d' = d \<and> name' = name
      then Some (case r of Inl _ \<Rightarrow> Broken | Inr child \<Rightarrow> Opened child expected rest) else None)"
| "descent_step i (Arrived d []) (EvStatat d' name r) =
     (if d' = d \<and> Some name = file_name (in_relative i)
      then Some (case r of Inl _ \<Rightarrow> Broken | Inr st \<Rightarrow> Examined d st) else None)"
| "descent_step i (Examined d st) (EvOpenatFile d' name r) =
     (if d' = d \<and> Some name = file_name (in_relative i) \<and> still_file (in_expected i) st
      then Some (case r of Inl _ \<Rightarrow> Broken | Inr f \<Rightarrow> FileOpened f) else None)"
| "descent_step i (FileOpened f) (EvFstat f' r) =
     (if f' = f
      then Some (case r of Inl _ \<Rightarrow> Broken
        | Inr st \<Rightarrow> if still_file (in_expected i) st then Reading f [] else Broken) else None)"
| "descent_step i (Reading f acc) (EvRead f' n r) =
     (if f' = f \<and> length acc < 4 \<and> n = 4 - length acc
      then Some (case r of Inl _ \<Rightarrow> Broken
        | Inr bs \<Rightarrow> if bs = [] then Broken else Reading f (acc @ take n bs)) else None)"
| "descent_step i (Reading f acc) (EvFstat f' r) =
     (if f' = f \<and> length acc = 4
      then Some (case r of Inl _ \<Rightarrow> Broken
        | Inr st \<Rightarrow> if still_file (in_expected i) st then MarkerRead acc else Broken) else None)"
| "descent_step i _ _ = None"

text \<open>
  The policy of the thread around the descent: read, set to \<open>1\<close>, and put back to what it was,
  with one more attempt if that fails.
\<close>

datatype evidence_phase = Untouched | PolicyKnown "32 word" | PolicyRefused
  | Under "32 word" descent | Retrying "32 word" descent | Left bool descent

fun evidence_step :: "inspection \<Rightarrow> evidence_phase \<Rightarrow> evidence_event \<Rightarrow> evidence_phase option" where
  "evidence_step i Untouched (EvGet r) =
     Some (case r of Inl _ \<Rightarrow> PolicyRefused | Inr previous \<Rightarrow> PolicyKnown previous)"
| "evidence_step i (PolicyKnown previous) (EvSet v r) =
     (if v = 1 then Some (case r of Inl _ \<Rightarrow> PolicyRefused | Inr _ \<Rightarrow> Under previous AtRoot) else None)"
| "evidence_step i (Under previous s) (EvSet v r) =
     (if v = previous then Some (case r of Inl _ \<Rightarrow> Retrying previous s | Inr _ \<Rightarrow> Left True s) else None)"
| "evidence_step i (Retrying previous s) (EvSet v r) =
     (if v = previous then Some (Left False s) else None)"
| "evidence_step i (Under previous s) ev = map_option (Under previous) (descent_step i s ev)"
| "evidence_step i _ _ = None"

text \<open>
  How an inspection may end: with its result, the policy put back and the descent at a place that
  warrants the result, or with an error. A policy that could not be put back is an error.
\<close>

definition settled :: "('a \<Rightarrow> descent \<Rightarrow> bool) \<Rightarrow> (native_error, 'a) result \<Rightarrow> evidence_phase \<Rightarrow> bool" where
  "settled P r ph \<longleftrightarrow>
     (case r of
        Inr a \<Rightarrow> \<exists>s. ph = Left True s \<and> P a s
      | Inl e \<Rightarrow> ph = Untouched \<or> (ph = PolicyRefused \<and> e = NePolicyFailure) \<or> (\<exists>s. ph = Left True s)
          \<or> (\<exists>s. ph = Left False s \<and> e = NePolicyFailure))"

section \<open>The discipline of the policy\<close>

datatype policy_phase = PolicyIdle | PolicyAsked "32 word" | PolicyHeld "32 word" | PolicyStuck "32 word"

definition file_call :: "evidence_event \<Rightarrow> bool" where
  "file_call ev \<longleftrightarrow> (case ev of EvGet _ \<Rightarrow> False | EvSet _ _ \<Rightarrow> False | _ \<Rightarrow> True)"

fun policy_step :: "policy_phase \<Rightarrow> evidence_event \<Rightarrow> policy_phase option" where
  "policy_step PolicyIdle (EvGet r) = Some (case r of Inl _ \<Rightarrow> PolicyIdle | Inr previous \<Rightarrow> PolicyAsked previous)"
| "policy_step (PolicyAsked previous) (EvSet v r) =
     (if v = 1 then Some (case r of Inl _ \<Rightarrow> PolicyIdle | Inr _ \<Rightarrow> PolicyHeld previous) else None)"
| "policy_step (PolicyHeld previous) (EvSet v r) =
     (if v = previous then Some (case r of Inl _ \<Rightarrow> PolicyStuck previous | Inr _ \<Rightarrow> PolicyIdle) else None)"
| "policy_step (PolicyStuck previous) (EvSet v r) = (if v = previous then Some PolicyIdle else None)"
| "policy_step (PolicyHeld previous) ev = (if file_call ev then Some (PolicyHeld previous) else None)"
| "policy_step _ _ = None"

fun policy_of :: "evidence_phase \<Rightarrow> policy_phase" where
  "policy_of (PolicyKnown previous) = PolicyAsked previous"
| "policy_of (Under previous s) = PolicyHeld previous"
| "policy_of (Retrying previous s) = PolicyStuck previous"
| "policy_of _ = PolicyIdle"

lemma policy_of_step:
  "evidence_step i ph ev = Some ph' \<Longrightarrow> policy_step (policy_of ph) ev = Some (policy_of ph')"
  by (cases "(i, ph, ev)" rule: evidence_step.cases)
    (auto simp: file_call_def split: if_splits sum.splits)

lemma read_marker_act:
  "read_marker os f acc =
     (if 4 \<le> length acc then aret acc
      else abind (cancelled_now os) (\<lambda>stop.
        if stop then afail NeCancelled
        else amatch (ev_read os f (4 - length acc)) (\<lambda>r. case r of
            Inl _ \<Rightarrow> afail NeReadFailed
          | Inr bs \<Rightarrow> if bs = [] then afail NeShortRead
              else read_marker os f (acc @ take (4 - length acc) bs))))"
  by (rule ext, subst read_marker.simps)
    (auto simp: abind_def amatch_def cancelled_now_def atest_def split: prod.splits sum.splits)

section \<open>Every monitor that follows the inspection\<close>

locale evidence_monitor =
  fixes i :: inspection and st :: "'p \<Rightarrow> evidence_event \<Rightarrow> 'p option" and at :: "evidence_phase \<Rightarrow> 'p"
  assumes follows: "evidence_step i ph ev = Some ph' \<Longrightarrow> st (at ph) ev = Some (at ph')"
begin

lemma leads_watched:
  assumes "\<And>r. evidence_step i ph (ev r) = Some (after r)" and "\<And>r. Q r (at (after r))"
  shows "leads st start (at ph) (noted ev m) Q"
proof (rule leads_noted)
  show "st (at ph) (ev r) = Some (at (after r))" for r by (rule follows) (rule assms(1))
qed (rule assms(2))

lemma leads_fallible:
  assumes "\<And>r. evidence_step i ph (ev r) = Some (after r)" and "\<And>e'. Q (Inl e) (at (after (Inl e')))"
    and "\<And>a. Q (Inr a) (at (after (Inr a)))"
  shows "leads st start (at ph) (or_fail e (noted ev m)) Q"
  unfolding or_fail_def
proof (rule leads_amatch)
  show "leads st start (at ph) (noted ev m) (\<lambda>r ph'. ph' = at (after r))"
    by (rule leads_watched) (simp_all add: assms(1))
  show "leads st start ph' (case r of Inl _ \<Rightarrow> afail e | Inr a \<Rightarrow> aret a) Q"
    if "ph' = at (after r)" for r ph'
    using that assms by (cases r) (simp_all add: leads_aret leads_afail)
qed

lemma leads_fallible_step:
  assumes "\<And>r. evidence_step i ph (ev r) = Some (after r)" and "\<And>e'. Q (Inl e) (at (after (Inl e')))"
    and "\<And>a. leads st start (at (after (Inr a))) (f a) Q"
  shows "leads st start (at ph) (abind (or_fail e (noted ev m)) f) Q"
proof (rule leads_abind)
  show "leads st start (at ph) (or_fail e (noted ev m))
      (\<lambda>r ph'. case r of Inl x \<Rightarrow> x = e \<and> (\<exists>e'. ph' = at (after (Inl e'))) | Inr a \<Rightarrow> ph' = at (after (Inr a)))"
    by (rule leads_fallible [where after = after]) (auto simp: assms(1))
qed (use assms in auto)

text \<open>Where the body of an inspection ends: under the policy, at a place of the descent.\<close>

definition descended :: "32 word \<Rightarrow> ('a \<Rightarrow> descent \<Rightarrow> bool) \<Rightarrow> (native_error, 'a) result \<Rightarrow> 'p \<Rightarrow> bool" where
  "descended previous P r ph \<longleftrightarrow> (\<exists>s. ph = at (Under previous s) \<and> (case r of Inl _ \<Rightarrow> True | Inr a \<Rightarrow> P a s))"

lemma descended_simps [simp]:
  "descended previous P (Inl e) (at (Under previous s))"
  "P a s \<Longrightarrow> descended previous P (Inr a) (at (Under previous s))"
  by (auto simp: descended_def)

lemma leads_open_directory:
  assumes "\<And>r. evidence_step i (Under previous s) (ev r)
      = Some (Under previous (case r of Inl _ \<Rightarrow> Broken | Inr d \<Rightarrow> Opened d expected rest))"
  shows "leads st start (at (Under previous s))
     (open_directory (logged_evidence os) dl (noted ev m) expected) (descended previous (\<lambda>d s'. s' = Arrived d rest))"
  unfolding open_directory_def logged_evidence_calls
proof (rule leads_fallible_step [OF assms])
  show "leads st start (at (Under previous (case Inr d of Inl _ \<Rightarrow> Broken | Inr d \<Rightarrow> Opened d expected rest)))
      (abind (or_fail NeChanged (noted (EvFstat d) (ev_fstat os d))) (\<lambda>y.
         if nf_kind (from_stat y) \<noteq> KDirectory \<or> nf_identity (from_stat y) \<noteq> expected then afail NeChanged
         else if nf_dataless (from_stat y) then afail dl else aret d))
      (descended previous (\<lambda>d s'. s' = Arrived d rest))" for d
    by (simp, rule leads_fallible_step [where after = "\<lambda>r. Under previous (case r of Inl _ \<Rightarrow> Broken
          | Inr y \<Rightarrow> if scanned_directory expected y then Arrived d rest else Broken)"])
      (auto simp: scanned_directory_def intro!: leads_aret leads_afail)
qed simp

lemma leads_walk_ancestors:
  "leads st start (at (Under previous (Arrived d rest)))
     (walk_ancestors (logged_evidence os) dl d rest) (descended previous (\<lambda>d s. s = Arrived d []))"
proof (induction rest arbitrary: d)
  case Nil
  show ?case unfolding walk_ancestors.simps by (rule leads_aret) simp
next
  case (Cons a rest)
  obtain name expected where a: "a = (name, expected)" by (cases a)
  have opens: "leads st start (at (Under previous (Arrived d ((name, expected) # rest))))
      (open_directory (logged_evidence os) dl (ev_openat_dir (logged_evidence os) d name) expected)
      (descended previous (\<lambda>d s. s = Arrived d rest))"
    by (simp, rule leads_open_directory) (simp split: sum.splits)
  have "leads st start (at (Under previous (Arrived d ((name, expected) # rest))))
      (abind (open_directory (logged_evidence os) dl (ev_openat_dir (logged_evidence os) d name) expected)
         (\<lambda>child. walk_ancestors (logged_evidence os) dl child rest)) (descended previous (\<lambda>d s. s = Arrived d []))"
    by (rule leads_abind [OF opens]) (auto simp: descended_def intro: Cons.IH)
  then show ?case unfolding a
    by (auto intro!: leads_read [OF quiet_cancelled] leads_afail)
qed

lemma leads_start:
  assumes "in_root i = root" "in_identity i = expected" "in_ancestors i = rest"
  shows "leads st start (at (Under previous AtRoot))
     (open_directory (logged_evidence os) dl (ev_open_dir (logged_evidence os) root) expected)
     (descended previous (\<lambda>d s. s = Arrived d rest))"
  by (simp, rule leads_open_directory) (use assms in \<open>auto split: sum.splits\<close>)

text \<open>A step of the body, then the rest from every place it can end at.\<close>

lemma leads_then:
  assumes "leads st start ph m (descended previous P)"
    and "\<And>a s. P a s \<Longrightarrow> leads st start (at (Under previous s)) (f a) (descended previous Q)"
  shows "leads st start ph (abind m f) (descended previous Q)"
  by (rule leads_abind [OF assms(1)]) (use assms(2) in \<open>auto simp: descended_def\<close>)

lemma leads_poll:
  assumes "leads st start (at (Under previous s)) m (descended previous Q)"
  shows "leads st start (at (Under previous s))
     (abind (cancelled_now (logged_evidence os)) (\<lambda>stop. if stop then afail e else m)) (descended previous Q)"
  by (rule leads_read [OF quiet_cancelled]) (auto intro: leads_afail assms)

lemma leads_leaf:
  assumes "\<And>leaf. file_name relative = Some leaf \<Longrightarrow>
     leads st start (at (Under previous s)) (f leaf) (descended previous Q)"
  shows "leads st start (at (Under previous s)) (abind (leaf_name relative) f) (descended previous Q)"
proof (cases "file_name relative")
  case None
  then show ?thesis by (auto simp: leaf_name_def ok_or_def abind_def leads_def)
next
  case (Some leaf)
  then have "abind (leaf_name relative) f = f leaf" by (simp add: leaf_name_def ok_or_def abind_def fun_eq_iff)
  then show ?thesis using assms [OF Some] by simp
qed

lemma leads_inspect_checked:
  assumes i: "in_root i = root" "in_identity i = rid" "in_relative i = relative" "in_ancestors i = ancestors"
  shows "leads st start (at (Under previous AtRoot))
     (inspect_checked (logged_evidence os) root rid relative ancestors)
     (descended previous (\<lambda>facts s. \<exists>d y. s = Examined d y \<and> facts = from_stat y))"
  unfolding inspect_checked_def
proof (rule leads_then [OF leads_start [OF i(1,2,4)]], rule leads_then)
  fix top s
  assume "s = Arrived top ancestors"
  then show "leads st start (at (Under previous s)) (walk_ancestors (logged_evidence os) NeDataless top ancestors)
      (descended previous (\<lambda>d s. s = Arrived d []))"
    by (simp add: leads_walk_ancestors)
next
  fix d s
  assume s: "s = Arrived d []"
  show "leads st start (at (Under previous s)) (abind (cancelled_now (logged_evidence os)) (\<lambda>stop.
       if stop then afail NeCancelled
       else abind (leaf_name relative) (\<lambda>leaf.
         abind (or_fail NeChanged (ev_statat (logged_evidence os) d leaf)) (\<lambda>y. aret (from_stat y)))))
      (descended previous (\<lambda>facts s. \<exists>d y. s = Examined d y \<and> facts = from_stat y))"
    unfolding s logged_evidence_calls
    by (rule leads_poll, rule leads_leaf, rule leads_fallible_step [where
          after = "\<lambda>r. Under previous (case r of Inl _ \<Rightarrow> Broken | Inr y \<Rightarrow> Examined d y)"])
      (auto simp: i(3) split: sum.splits intro!: leads_aret)
qed

lemma leads_file_still:
  assumes "\<And>r. evidence_step i (Under previous s) (ev r) = Some (Under previous
        (case r of Inl _ \<Rightarrow> Broken | Inr y \<Rightarrow> if still_file expected y then good y else bad y))"
  shows "leads st start (at (Under previous s)) (check_file_still expected (noted ev m))
     (descended previous (\<lambda>_ s'. \<exists>y. still_file expected y \<and> s' = good y))"
  unfolding check_file_still_def
  by (rule leads_fallible_step [where after = "\<lambda>r. Under previous
        (case r of Inl _ \<Rightarrow> Broken | Inr y \<Rightarrow> if still_file expected y then good y else bad y)"])
    (auto simp: assms ensure_def descended_def leads_def)

lemma leads_read_marker:
  "length acc \<le> 4 \<Longrightarrow> leads st start (at (Under previous (Reading f acc)))
     (read_marker (logged_evidence os) f acc) (descended previous (\<lambda>bs s. s = Reading f bs \<and> length bs = 4))"
proof (induction "4 - length acc" arbitrary: acc rule: less_induct)
  case less
  have again: "leads st start (at (Under previous (Reading f (acc @ take (4 - length acc) bs))))
      (read_marker (logged_evidence os) f (acc @ take (4 - length acc) bs))
      (descended previous (\<lambda>bs s. s = Reading f bs \<and> length bs = 4))"
    if "length acc < 4" "bs \<noteq> []" for bs
  proof (rule less.hyps)
    show "4 - length (acc @ take (4 - length acc) bs) < 4 - length acc"
      using that by (cases bs) (auto simp: min_def)
  qed (use that in simp)
  have calls: "leads st start (at (Under previous (Reading f acc)))
      (amatch (noted (EvRead f (4 - length acc)) (ev_read os f (4 - length acc))) (\<lambda>r. case r of
         Inl _ \<Rightarrow> afail NeReadFailed
       | Inr bs \<Rightarrow> if bs = [] then afail NeShortRead
           else read_marker (logged_evidence os) f (acc @ take (4 - length acc) bs)))
      (descended previous (\<lambda>bs s. s = Reading f bs \<and> length bs = 4))" if "length acc < 4"
  proof (rule leads_amatch)
    show "leads st start (at (Under previous (Reading f acc)))
        (noted (EvRead f (4 - length acc)) (ev_read os f (4 - length acc)))
        (\<lambda>r ph. ph = at (Under previous (case r of Inl _ \<Rightarrow> Broken
           | Inr bs \<Rightarrow> if bs = [] then Broken else Reading f (acc @ take (4 - length acc) bs))))"
      by (rule leads_watched [where after = "\<lambda>r. Under previous (case r of Inl _ \<Rightarrow> Broken
           | Inr bs \<Rightarrow> if bs = [] then Broken else Reading f (acc @ take (4 - length acc) bs))"])
        (use that in \<open>auto split: sum.splits\<close>)
    show "leads st start ph (case r of
         Inl _ \<Rightarrow> afail NeReadFailed
       | Inr bs \<Rightarrow> if bs = [] then afail NeShortRead
           else read_marker (logged_evidence os) f (acc @ take (4 - length acc) bs))
      (descended previous (\<lambda>bs s. s = Reading f bs \<and> length bs = 4))"
      if "ph = at (Under previous (case r of Inl _ \<Rightarrow> Broken
           | Inr bs \<Rightarrow> if bs = [] then Broken else Reading f (acc @ take (4 - length acc) bs)))" for r ph
      using that again \<open>length acc < 4\<close> by (auto split: sum.splits intro!: leads_afail)
  qed
  show ?case
    unfolding read_marker_act [of "logged_evidence os" f acc] logged_evidence_calls
    using less.prems calls by (auto intro!: leads_poll leads_aret)
qed

lemma leads_marker:
  assumes i: "in_expected i = expected"
  shows "leads st start (at (Under previous (FileOpened f)))
      (abind (check_file_still expected (noted (EvFstat f) (ev_fstat os f))) (\<lambda>_.
       abind (read_marker (logged_evidence os) f []) (\<lambda>bs.
       abind (check_file_still expected (noted (EvFstat f) (ev_fstat os f))) (\<lambda>_. aret bs))))
      (descended previous (\<lambda>bs s. s = MarkerRead bs \<and> length bs = 4))"
proof (rule leads_then, rule leads_file_still [where good = "\<lambda>_. Reading f []" and bad = "\<lambda>_. Broken"])
  show "leads st start (at (Under previous s)) (abind (read_marker (logged_evidence os) f []) (\<lambda>bs.
       abind (check_file_still expected (noted (EvFstat f) (ev_fstat os f))) (\<lambda>_. aret bs)))
      (descended previous (\<lambda>bs s. s = MarkerRead bs \<and> length bs = 4))"
    if "\<exists>y. still_file expected y \<and> s = Reading f []" for s
  proof (rule leads_then)
    show "leads st start (at (Under previous s)) (read_marker (logged_evidence os) f [])
        (descended previous (\<lambda>bs s. s = Reading f bs \<and> length bs = 4))"
      using that leads_read_marker [of "[]"] by auto
    show "leads st start (at (Under previous s'))
        (abind (check_file_still expected (noted (EvFstat f) (ev_fstat os f))) (\<lambda>_. aret bs))
        (descended previous (\<lambda>bs s. s = MarkerRead bs \<and> length bs = 4))"
      if "s' = Reading f bs \<and> length bs = 4" for bs s'
      by (rule leads_then, rule leads_file_still [where good = "\<lambda>_. MarkerRead bs" and bad = "\<lambda>_. Broken"])
        (use that in \<open>auto simp: i split: sum.splits intro!: leads_aret\<close>)
  qed
qed (auto simp: i split: sum.splits)

lemma leads_prefix4_checked:
  assumes i: "in_root i = root" "in_identity i = rid" "in_relative i = relative" "in_ancestors i = ancestors"
      "in_expected i = expected"
  shows "leads st start (at (Under previous AtRoot))
     (prefix4_checked (logged_evidence os) root rid relative ancestors expected)
     (descended previous (\<lambda>bs s. s = MarkerRead bs \<and> length bs = 4))"
  unfolding prefix4_checked_def
proof (rule leads_then [OF leads_start [OF i(1,2,4)]], rule leads_then)
  fix top s
  assume "s = Arrived top ancestors"
  then show "leads st start (at (Under previous s)) (walk_ancestors (logged_evidence os) NeChanged top ancestors)
      (descended previous (\<lambda>d s. s = Arrived d []))"
    by (simp add: leads_walk_ancestors)
next
  fix d s
  assume s: "s = Arrived d []"
  show "leads st start (at (Under previous s))
      (abind (leaf_name relative) (\<lambda>leaf.
       abind (check_file_still expected (ev_statat (logged_evidence os) d leaf)) (\<lambda>_.
       abind (or_fail NeChanged (ev_openat_file (logged_evidence os) d leaf)) (\<lambda>f.
       abind (check_file_still expected (ev_fstat (logged_evidence os) f)) (\<lambda>_.
       abind (read_marker (logged_evidence os) f []) (\<lambda>bs.
       abind (check_file_still expected (ev_fstat (logged_evidence os) f)) (\<lambda>_. aret bs)))))))
      (descended previous (\<lambda>bs s. s = MarkerRead bs \<and> length bs = 4))"
    unfolding s logged_evidence_calls
  proof (rule leads_leaf, rule leads_then)
    fix leaf
    assume leaf: "file_name relative = Some leaf"
    show "leads st start (at (Under previous (Arrived d [])))
        (check_file_still expected (noted (EvStatat d leaf) (ev_statat os d leaf)))
        (descended previous (\<lambda>_ s'. \<exists>y. still_file expected y \<and> s' = Examined d y))"
      by (rule leads_file_still [where bad = "Examined d"]) (auto simp: i(3) leaf split: sum.splits)
    show "leads st start (at (Under previous s'))
        (abind (or_fail NeChanged (noted (EvOpenatFile d leaf) (ev_openat_file os d leaf))) (\<lambda>f.
         abind (check_file_still expected (noted (EvFstat f) (ev_fstat os f))) (\<lambda>_.
         abind (read_marker (logged_evidence os) f []) (\<lambda>bs.
         abind (check_file_still expected (noted (EvFstat f) (ev_fstat os f))) (\<lambda>_. aret bs)))))
        (descended previous (\<lambda>bs s. s = MarkerRead bs \<and> length bs = 4))"
      if "\<exists>y. still_file expected y \<and> s' = Examined d y" for s'
      by (rule leads_fallible_step [where after = "\<lambda>r. Under previous
            (case r of Inl _ \<Rightarrow> Broken | Inr f \<Rightarrow> FileOpened f)"])
        (use that in \<open>auto simp: i(3,5) leaf leads_marker split: sum.splits\<close>)
  qed
qed

lemma leads_call_step:
  assumes "\<And>r. evidence_step i ph (ev r) = Some (after r)" and "\<And>e. Q (Inl e) (at (after (Inl e)))"
    and "\<And>a. leads st start (at (after (Inr a))) (f a) Q"
  shows "leads st start (at ph) (abind (noted ev m) f) Q"
  by (rule leads_step [where after = "\<lambda>r. at (after r)"]) (simp_all add: follows assms)

lemma leads_enter:
  "leads st start (at Untouched) (policy_enter (logged_evidence os))
     (\<lambda>r ph. ph = at (case r of Inl _ \<Rightarrow> PolicyRefused | Inr previous \<Rightarrow> Under previous AtRoot))"
  unfolding policy_enter_def logged_evidence_calls
proof (rule leads_call_step)
  show "evidence_step i Untouched (EvGet r)
      = Some (case r of Inl _ \<Rightarrow> PolicyRefused | Inr previous \<Rightarrow> PolicyKnown previous)" for r by simp
  show "leads st start (at (case Inr previous of Inl _ \<Rightarrow> PolicyRefused | Inr p \<Rightarrow> PolicyKnown p))
      (abind (noted (EvSet 1) (ev_set_policy os 1)) (\<lambda>_. aret previous))
      (\<lambda>r ph. ph = at (case r of Inl _ \<Rightarrow> PolicyRefused | Inr previous \<Rightarrow> Under previous AtRoot))" for previous
    by (simp, rule leads_call_step [where after = "\<lambda>r. case r of Inl _ \<Rightarrow> PolicyRefused | Inr _ \<Rightarrow> Under previous AtRoot"])
      (auto intro: leads_aret)
qed simp

lemma leads_restore:
  "leads st start (at (Under previous s)) (policy_restore (logged_evidence os) previous)
     (\<lambda>r ph. ph = at (Left (r = Inr ()) s))"
  unfolding policy_restore_def logged_evidence_calls
proof (rule leads_amatch)
  show "leads st start (at (Under previous s)) (noted (EvSet previous) (ev_set_policy os previous))
      (\<lambda>r ph. ph = at (case r of Inl _ \<Rightarrow> Retrying previous s | Inr _ \<Rightarrow> Left True s))"
    by (rule leads_watched) (rule evidence_step.simps [THEN trans], simp_all)
  show "leads st start ph (case r of Inr _ \<Rightarrow> aret ()
        | Inl e \<Rightarrow> amatch (noted (EvSet previous) (ev_set_policy os previous)) (\<lambda>_. afail e))
      (\<lambda>r ph. ph = at (Left (r = Inr ()) s))"
    if "ph = at (case r of Inl _ \<Rightarrow> Retrying previous s | Inr _ \<Rightarrow> Left True s)" for r ph
  proof (cases r)
    case (Inl e)
    have "leads st start (at (Retrying previous s)) (noted (EvSet previous) (ev_set_policy os previous))
        (\<lambda>r ph. ph = at (Left False s))"
      by (rule leads_watched) simp_all
    then show ?thesis using that Inl by (auto intro!: leads_amatch leads_afail)
  qed (use that in \<open>auto intro: leads_aret\<close>)
qed

lemma leads_under_policy:
  assumes body: "\<And>previous. leads st start (at (Under previous AtRoot)) body (descended previous P)"
  shows "leads st start (at Untouched) (under_policy (logged_evidence os) body)
     (\<lambda>r ph. \<exists>ph'. ph = at ph' \<and> settled P r ph')"
  unfolding under_policy_def
proof (rule leads_abind)
  show "leads st start (at Untouched) (or_fail NePolicyFailure (policy_enter (logged_evidence os)))
      (\<lambda>r ph. case r of Inl e \<Rightarrow> ph = at PolicyRefused \<and> e = NePolicyFailure
         | Inr previous \<Rightarrow> ph = at (Under previous AtRoot))"
    unfolding or_fail_def
    by (rule leads_amatch [OF leads_enter]) (auto split: sum.splits intro!: leads_aret leads_afail)
next
  fix previous ph
  assume "case Inr previous of Inl e \<Rightarrow> ph = at PolicyRefused \<and> e = NePolicyFailure | Inr p \<Rightarrow> ph = at (Under p AtRoot)"
  then have ph: "ph = at (Under previous AtRoot)" by simp
  have "leads st start (at (Under previous s)) (amatch (policy_restore (logged_evidence os) previous)
        (\<lambda>restored. case restored of Inr _ \<Rightarrow> alift checked | Inl _ \<Rightarrow> afail NePolicyFailure))
      (\<lambda>r ph. \<exists>ph'. ph = at ph' \<and> settled P r ph')"
    if "case checked of Inl _ \<Rightarrow> True | Inr a \<Rightarrow> P a s" for s checked
    by (rule leads_amatch [OF leads_restore])
      (use that in \<open>auto simp: leads_def settled_def split: sum.splits\<close>)
  then show "leads st start ph (amatch body (\<lambda>checked. amatch (policy_restore (logged_evidence os) previous)
        (\<lambda>restored. case restored of Inr _ \<Rightarrow> alift checked | Inl _ \<Rightarrow> afail NePolicyFailure)))
      (\<lambda>r ph. \<exists>ph'. ph = at ph' \<and> settled P r ph')"
    unfolding ph by (auto simp: descended_def intro!: leads_amatch [OF body])
qed (auto simp: settled_def)

lemma leads_inspection:
  assumes "in_root i = root" "in_identity i = rid" "in_relative i = relative" "in_ancestors i = ancestors"
  shows "leads st start (at Untouched) (inspect_with_ancestry (logged_evidence os) root rid relative ancestors)
     (\<lambda>r ph. \<exists>ph'. ph = at ph' \<and> settled (\<lambda>facts s. \<exists>d y. s = Examined d y \<and> facts = from_stat y) r ph')"
proof (cases "unix_identity_known rid")
  case True
  then show ?thesis unfolding inspect_with_ancestry_def
    by (simp add: leads_under_policy leads_inspect_checked assms)
next
  case False
  then show ?thesis unfolding inspect_with_ancestry_def if_P [OF False]
    by (intro leads_afail) (auto simp: settled_def)
qed

lemma leads_marker_read:
  assumes "in_root i = root" "in_identity i = rid" "in_relative i = relative" "in_ancestors i = ancestors"
    "in_expected i = expected"
  shows "leads st start (at Untouched)
     (read_prefix4_with_ancestry (logged_evidence os) root rid relative ancestors expected)
     (\<lambda>r ph. \<exists>ph'. ph = at ph' \<and> settled (\<lambda>bs s. s = MarkerRead bs \<and> length bs = 4) r ph')"
proof (cases "\<not> unix_identity_known rid \<or> \<not> unix_identity_known expected")
  case False
  then show ?thesis unfolding read_prefix4_with_ancestry_def
    by (simp add: leads_under_policy leads_prefix4_checked assms)
next
  case True
  then show ?thesis unfolding read_prefix4_with_ancestry_def if_P [OF True]
    by (intro leads_afail) (auto simp: settled_def)
qed

end

interpretation descent: evidence_monitor i "evidence_step i" "\<lambda>ph. ph" for i
  by unfold_locales

interpretation discipline: evidence_monitor i policy_step policy_of for i
  by unfold_locales (rule policy_of_step)

section \<open>The contract of the trait\<close>

text \<open>
  A provider leaves the policy of the thread as it finds it and reads only under it; everything a
  preview does through it then does so too.
\<close>

locale evidence_provider =
  fixes provider :: "('w \<times> evidence_event list) native_evidence"
  assumes inspect_settles: "leads policy_step start PolicyIdle
      (ne_inspect provider root rid relative ancestors) (\<lambda>r ph. ph = PolicyIdle)"
    and prefix4_settles: "leads policy_step start PolicyIdle
      (ne_prefix4 provider root rid relative ancestors expected) (\<lambda>r ph. ph = PolicyIdle)"

lemma settled_idle: "settled P r ph \<Longrightarrow> policy_of ph = PolicyIdle"
  by (auto simp: settled_def split: sum.splits)

interpretation host: evidence_provider "host_native_evidence (logged_evidence os)" for os
proof unfold_locales
  show "leads policy_step start PolicyIdle
      (ne_inspect (host_native_evidence (logged_evidence os)) root rid relative ancestors) (\<lambda>r ph. ph = PolicyIdle)"
    for start root rid relative ancestors
  proof -
    have "leads policy_step start (policy_of Untouched)
        (inspect_with_ancestry (logged_evidence os) root rid relative ancestors) (\<lambda>r ph. ph = PolicyIdle)"
      by (rule leads_weaken [OF discipline.leads_inspection [of "\<lparr>in_root = root, in_identity = rid,
            in_relative = relative, in_ancestors = ancestors, in_expected = rid\<rparr>"]])
        (auto simp: settled_idle)
    then show ?thesis by (simp add: host_native_evidence_def)
  qed
  show "leads policy_step start PolicyIdle
      (ne_prefix4 (host_native_evidence (logged_evidence os)) root rid relative ancestors expected)
      (\<lambda>r ph. ph = PolicyIdle)" for start root rid relative ancestors expected
  proof -
    have "leads policy_step start (policy_of Untouched)
        (read_prefix4_with_ancestry (logged_evidence os) root rid relative ancestors expected) (\<lambda>r ph. ph = PolicyIdle)"
      by (rule leads_weaken [OF discipline.leads_marker_read [of "\<lparr>in_root = root, in_identity = rid,
            in_relative = relative, in_ancestors = ancestors, in_expected = expected\<rparr>"]])
        (auto simp: settled_idle)
    then show ?thesis by (simp add: host_native_evidence_def)
  qed
qed

section \<open>The log of an inspection is its own\<close>

lemma appends_cancelled [appends_intros]: "appends (cancelled_now (logged_evidence os))"
  by (rule appendsI) (auto simp: cancelled_now_def atest_def is_cancelled_def logged_evidence_def
      split: option.splits nat.splits prod.splits)

lemma appends_or_fail [appends_intros]: "appends m \<Longrightarrow> appends (or_fail e m)"
  unfolding or_fail_def by (auto intro!: appends_intros split: sum.split)

lemma appends_open_directory [appends_intros]:
  "appends m \<Longrightarrow> appends (open_directory (logged_evidence os) dl m expected)"
  unfolding open_directory_def logged_evidence_calls by (intro appends_intros)

lemma appends_walk [appends_intros]: "appends (walk_ancestors (logged_evidence os) dl d rest)"
proof (induction rest arbitrary: d)
  case Nil
  show ?case unfolding walk_ancestors.simps by (rule appends_intros)
next
  case (Cons a rest)
  show ?case by (cases a) (auto intro!: appends_intros Cons.IH)
qed

lemma appends_read_marker [appends_intros]: "appends (read_marker (logged_evidence os) f acc)"
proof (induction "4 - length acc" arbitrary: acc rule: less_induct)
  case less
  have "appends (read_marker (logged_evidence os) f (acc @ take (4 - length acc) bs))"
    if "length acc < 4" "bs \<noteq> []" for bs
    using that by (intro less.hyps) (cases bs, auto simp: min_def)
  then show ?case
    unfolding read_marker_act [of "logged_evidence os" f acc] logged_evidence_calls
    by (auto intro!: appends_intros split: sum.split)
qed

lemma appends_under_policy [appends_intros]: "appends m \<Longrightarrow> appends (under_policy (logged_evidence os) m)"
  unfolding under_policy_def policy_enter_def policy_restore_def logged_evidence_calls
  by (auto intro!: appends_intros split: sum.split)

lemma appends_host [appends_intros]:
  "appends (ne_inspect (host_native_evidence (logged_evidence os)) root rid relative ancestors)"
  "appends (ne_prefix4 (host_native_evidence (logged_evidence os)) root rid relative ancestors expected)"
  unfolding host_native_evidence_def native_evidence.simps inspect_with_ancestry_def
    read_prefix4_with_ancestry_def inspect_checked_def prefix4_checked_def leaf_name_def
    check_file_still_def logged_evidence_calls
  by (intro appends_intros)+

end
