(* ===== verification/Rule_Preview_Protocol.thy ===== *)
theory Rule_Preview_Protocol
  imports Rule_Preview Rule_Evidence_Protocol
begin

text \<open>
  A preview under the policy of the thread: whatever provider meets the contract
  \<open>evidence_provider\<close>, a preview reads files only under the read-only policy and gives the policy
  back. \<open>idle\<close> actions do so; the lemmas lift it through the steps of a preview.
\<close>

definition idle :: "('w \<times> evidence_event list, 'x, 'a) eact \<Rightarrow> bool" where
  "idle m \<longleftrightarrow> (\<forall>start. leads policy_step start PolicyIdle m (\<lambda>r ph. ph = PolicyIdle))"

named_theorems idle_intros \<open>actions that give the policy of the thread back\<close>

lemma idle_quiet: "quiet m \<Longrightarrow> idle m"
  by (simp add: idle_def leads_quiet)

lemma idle_basic [idle_intros]: "idle (aret a)" "idle (afail e)" "idle (alift r)"
  "idle (cancelled_now (logged_evidence os))"
  by (intro idle_quiet quiet_intros)+

lemma idle_abind [idle_intros]: "idle m \<Longrightarrow> (\<And>a. idle (f a)) \<Longrightarrow> idle (abind m f)"
  unfolding idle_def by (blast intro: leads_abind)

lemma idle_amatch [idle_intros]: "idle m \<Longrightarrow> (\<And>r. idle (f r)) \<Longrightarrow> idle (amatch m f)"
  unfolding idle_def by (blast intro: leads_amatch)

lemma idle_if [idle_intros]: "idle m \<Longrightarrow> idle n \<Longrightarrow> idle (if b then m else n)"
  by simp

lemma idle_case_sum [idle_intros]:
  "(\<And>e. idle (g e)) \<Longrightarrow> (\<And>a. idle (f a)) \<Longrightarrow> idle (case x of Inl e \<Rightarrow> g e | Inr a \<Rightarrow> f a)"
  by (cases x) auto

lemma idle_case_prod [idle_intros]: "(\<And>a b. idle (f a b)) \<Longrightarrow> idle (case x of (a, b) \<Rightarrow> f a b)"
  by (cases x) auto

lemma idle_halt [idle_intros]: "idle (halt_if_cancelled (logged_evidence os) message)"
  unfolding halt_if_cancelled_def by (intro idle_intros)

lemma idle_index [idle_intros]: "idle (index_entries_of (logged_evidence os) roots es idx)"
  by (induction es arbitrary: idx) (auto intro!: idle_intros)

lemma idle_flag [idle_intros]: "idle (on_flag (logged_evidence os) t)"
  by (rule idle_quiet) (auto simp: quiet_def on_flag_def logged_evidence_def split: sum.splits)

lemma idle_match_entries [idle_intros]:
  assumes "\<And>e. idle (examine e)"
  shows "idle (match_entries rule examine es s)"
proof (induction es arbitrary: s)
  case Nil
  show ?case unfolding match_entries.simps by (rule idle_intros)
next
  case (Cons e es)
  show ?case unfolding match_entries.simps by (intro idle_intros assms Cons.IH)
qed

lemma idle_run_preview [idle_intros]:
  assumes "\<And>scopes idx e. idle (examine scopes idx e)"
  shows "idle (run_preview (logged_evidence os) rule examine r)"
  unfolding run_preview_def index_for_rules_def Let_def by (intro idle_intros assms)

context evidence_provider
begin

lemma idle_inspect_place [idle_intros]: "idle (inspect_place (logged_evidence os) provider what dataless place)"
proof -
  have "idle (ne_inspect provider root rid relative ancestors)" for root rid relative ancestors
    by (simp add: idle_def inspect_settles)
  then show ?thesis unfolding inspect_place_def Let_def
    by (auto intro!: idle_amatch idle_abind idle_basic split: sum.split native_error.split)
qed

lemma idle_class_marker [idle_intros]: "idle (class_marker (logged_evidence os) provider e place)"
proof -
  have "idle (ne_prefix4 provider root rid relative ancestors expected)" for root rid relative ancestors expected
    by (simp add: idle_def prefix4_settles)
  then show ?thesis unfolding class_marker_def Let_def
    by (auto intro!: idle_amatch idle_abind idle_basic split: sum.split native_error.split)
qed

lemma previews_idle:
  "idle (preview_with_provider (logged_evidence os) provider r)"
  "idle (preview_javac_with_provider (logged_evidence os) provider r)"
  unfolding preview_with_provider_def preview_javac_with_provider_def examine_pyc_def pyc_facts_def
    examine_class_def class_facts_def
  by (intro idle_intros)+

end

section \<open>The log of a preview\<close>

lemma appends_halt [appends_intros]: "appends (halt_if_cancelled (logged_evidence os) message)"
  unfolding halt_if_cancelled_def by (intro appends_intros)

lemma appends_index [appends_intros]: "appends (index_entries_of (logged_evidence os) roots es idx)"
proof (induction es arbitrary: idx)
  case Nil
  show ?case unfolding index_entries_of.simps by (rule appends_intros)
next
  case (Cons e es)
  show ?case by (auto intro!: appends_intros Cons.IH)
qed

lemma appends_flag [appends_intros]: "appends (on_flag (logged_evidence os) t)"
  by (rule appendsI) (auto simp: on_flag_def logged_evidence_def split: sum.splits)

lemma appends_match_entries [appends_intros]:
  assumes "\<And>e. appends (examine e)"
  shows "appends (match_entries rule examine es s)"
proof (induction es arbitrary: s)
  case Nil
  show ?case unfolding match_entries.simps by (rule appends_intros)
next
  case (Cons e es)
  show ?case unfolding match_entries.simps by (intro appends_intros assms Cons.IH)
qed

lemma appends_inspect_place [appends_intros]:
  "appends (inspect_place (logged_evidence os) (host_native_evidence (logged_evidence os)) what dataless place)"
  unfolding inspect_place_def Let_def
  by (auto intro!: appends_intros split: sum.split native_error.split)

lemma appends_class_marker [appends_intros]:
  "appends (class_marker (logged_evidence os) (host_native_evidence (logged_evidence os)) e place)"
  unfolding class_marker_def Let_def
  by (auto intro!: appends_intros split: sum.split native_error.split)

lemma appends_examine [appends_intros]:
  "appends (examine_pyc (logged_evidence os) (host_native_evidence (logged_evidence os)) scopes idx e)"
  "appends (examine_class (logged_evidence os) (host_native_evidence (logged_evidence os)) scopes idx e)"
  unfolding examine_pyc_def pyc_facts_def examine_class_def class_facts_def by (intro appends_intros)+

end
