(* ===== verification/Rule_Preview_Results.thy ===== *)
theory Rule_Preview_Results
  imports Rule_Preview_Protocol Scan_Hierarchy
begin

text \<open>
  What a rule preview returns: the index of the entries, the place of a file, what a candidate has
  passed, and the invariant of the loop, which answers every targeted entry once and keeps exact
  byte totals.
\<close>

section \<open>The index\<close>

definition rule_index_of :: "path list \<Rightarrow> scan_entry list \<Rightarrow> rule_index" where
  "rule_index_of roots entries = fold (index_insert roots) entries index_empty"

lemma cancelled_now_Inl: "cancelled_now os w \<noteq> (Inl e, w')"
  by (simp add: cancelled_now_def atest_def split: prod.split)

lemma index_entries_of_done:
  "index_entries_of os roots es idx w = (Inr (idx', False), w') \<Longrightarrow> idx' = fold (index_insert roots) es idx"
  by (induction es arbitrary: idx w) (auto split: if_splits)

lemma rule_index_snoc:
  "rule_index_of roots (es @ [e]) = index_insert roots e (rule_index_of roots es)"
  by (simp add: rule_index_of_def)

lemma entry_at_Some:
  "entry_at (rule_index_of roots entries) p = Some e \<Longrightarrow> e \<in> set entries \<and> path_eq (sn_path e) p"
  unfolding entry_at_def
proof (induction entries rule: rev_induct)
  case (snoc x xs)
  then show ?case by (auto simp: rule_index_snoc index_insert_def path_eq_def split: if_splits)
qed (simp add: rule_index_of_def index_empty_def)

lemma root_by_entry:
  assumes "distinct (map sn_id entries)" and "e \<in> set entries"
  shows "ri_root_by_entry (rule_index_of roots entries) (sn_id e) = Some (explicit_root_for_path roots (sn_path e))"
  using assms
proof (induction entries rule: rev_induct)
  case (snoc x xs)
  show ?case
  proof (cases "e = x")
    case False
    then have "e \<in> set xs" "sn_id e \<noteq> sn_id x" using snoc.prems by (auto simp: image_iff)
    then show ?thesis using snoc by (simp add: rule_index_snoc index_insert_def)
  qed (simp add: rule_index_snoc index_insert_def)
qed simp

text \<open>The explicit root of a path is the longest of the roots it lies below.\<close>

lemma explicit_root_Some:
  assumes "explicit_root_for_path roots p = Some root"
  shows "root \<in> set roots" and "starts_with p root"
    and "\<And>other. other \<in> set roots \<Longrightarrow> starts_with p other \<Longrightarrow> length other \<le> length root"
proof -
  let ?step = "\<lambda>best root. case best of None \<Rightarrow> Some root
      | Some b \<Rightarrow> if length b \<le> length root then Some root else Some b"
  have "foldl ?step None xs = Some root \<Longrightarrow> root \<in> set xs \<and> (\<forall>x \<in> set xs. length x \<le> length root)"
    for xs and root :: path
  proof (induction xs arbitrary: root rule: rev_induct)
    case (snoc x xs)
    show ?case
    proof (cases "foldl ?step None xs")
      case None
      then have "xs = []" by (induction xs rule: rev_induct) (auto split: option.splits if_splits)
      then show ?thesis using snoc.prems by simp
    next
      case (Some b)
      then show ?thesis using snoc by (force split: if_splits)
    qed
  qed simp
  from this [OF assms [unfolded explicit_root_for_path_def]]
  show "root \<in> set roots" "starts_with p root"
    "\<And>other. other \<in> set roots \<Longrightarrow> starts_with p other \<Longrightarrow> length other \<le> length root" by auto
qed

section \<open>The place of a file\<close>

text \<open>
  A place describes an entry: its root is a scanned directory and the ancestors are the scanned
  directories between the root and the entry, with their names.
\<close>

definition scanned_at :: "scan_entry list \<Rightarrow> component list \<Rightarrow> file_identity \<Rightarrow> bool" where
  "scanned_at entries cs i \<longleftrightarrow>
     (\<exists>d \<in> set entries. components (sn_path d) = cs \<and> sn_kind d = KDirectory \<and> sn_identity d = i)"

definition place_of :: "scan_entry list \<Rightarrow> scan_entry \<Rightarrow> rule_place \<Rightarrow> bool" where
  "place_of entries e p \<longleftrightarrow>
     components (sn_path e) = components (rp_root p) @ components (rp_relative p)
     \<and> scanned_at entries (components (rp_root p)) (rp_root_identity p)
     \<and> map (\<lambda>a. Normal (fst a)) (rp_ancestors p) = butlast (components (rp_relative p))
     \<and> (\<forall>n<length (rp_ancestors p). scanned_at entries
          (components (rp_root p) @ take (Suc n) (components (rp_relative p))) (snd (rp_ancestors p ! n)))"

lemma ancestor_chain_scanned:
  assumes "ancestor_chain (rule_index_of roots entries) current cs = Some anc"
    and "\<And>name. Normal name \<in> set cs \<Longrightarrow> plain_name name"
  shows "map (\<lambda>a. Normal (fst a)) anc = cs
    \<and> (\<forall>n<length anc. scanned_at entries (components current @ take (Suc n) cs) (snd (anc ! n)))"
  using assms
proof (induction cs arbitrary: current anc)
  case (Cons c cs)
  obtain name where c: "c = Normal name" using Cons.prems(1) by (cases c) auto
  have join: "components (path_join current name) = components current @ [Normal name]"
    using Cons.prems(2) [of name] by (simp add: c)
  obtain d anc' where d: "entry_at (rule_index_of roots entries) (path_join current name) = Some d"
      "sn_kind d = KDirectory"
    and anc': "ancestor_chain (rule_index_of roots entries) (path_join current name) cs = Some anc'"
    and anc: "anc = (name, sn_identity d) # anc'"
    using Cons.prems(1) by (auto simp: c Let_def split: option.splits if_splits)
  have "scanned_at entries (components current @ [Normal name]) (sn_identity d)"
    using entry_at_Some [OF d(1)] d(2) join by (auto simp: scanned_at_def path_eq_def)
  moreover have "map (\<lambda>a. Normal (fst a)) anc' = cs
      \<and> (\<forall>n<length anc'. scanned_at entries (components current @ Normal name # take (Suc n) cs) (snd (anc' ! n)))"
    using Cons.IH [OF anc'] Cons.prems(2) join by simp
  ultimately show ?case by (auto simp: anc c less_Suc_eq_0_disj)
qed simp

lemma components_plain_names: "Normal name \<in> set (components p) \<Longrightarrow> plain_name name"
  using wf_components_components [of p] by (cases "components p") (auto simp: list_all_iff)

lemma ancestor_identities_scanned:
  assumes "ancestor_identities (rule_index_of roots entries) root relative = Some anc"
    and "\<not> is_absolute relative"
  shows "map (\<lambda>a. Normal (fst a)) anc = butlast (components relative)"
    and "\<And>n. n < length anc \<Longrightarrow>
      scanned_at entries (components root @ take (Suc n) (components relative)) (snd (anc ! n))"
proof -
  have "map (\<lambda>a. Normal (fst a)) anc = butlast (components relative)
    \<and> (\<forall>n<length anc. scanned_at entries (components root @ take (Suc n) (components relative)) (snd (anc ! n)))"
  proof (cases "parent relative")
    case None
    have "components relative \<noteq> RootDir # cs" for cs
      using assms(2) by (metis is_absolute_components)
    then have "components relative \<noteq> cs @ [RootDir]" for cs
      using wf_components_components [of relative] by (cases cs) auto
    then have "components relative = []" using None by (simp add: parent_None)
    then show ?thesis using assms(1) None by (simp add: ancestor_identities_def)
  next
    case (Some up)
    then obtain c where rel: "components relative = components up @ [c]"
      using parent_components by metis
    have chain: "map (\<lambda>a. Normal (fst a)) anc = components up
        \<and> (\<forall>n<length anc. scanned_at entries (components root @ take (Suc n) (components up)) (snd (anc ! n)))"
      using assms(1) Some components_plain_names
      by (intro ancestor_chain_scanned) (auto simp: ancestor_identities_def)
    then have "length anc = length (components up)" by (metis length_map)
    then show ?thesis using chain by (auto simp: rel)
  qed
  then show "map (\<lambda>a. Normal (fst a)) anc = butlast (components relative)"
    "\<And>n. n < length anc \<Longrightarrow>
      scanned_at entries (components root @ take (Suc n) (components relative)) (snd (anc ! n))" by auto
qed

lemma rule_places_scanned:
  assumes places: "rule_places (rule_index_of roots entries) e s = Inr (target, source)"
    and absolute: "\<forall>x \<in> set entries. is_absolute (sn_path x)"
    and ids: "distinct (map sn_id entries)" and es: "e \<in> set entries" "s \<in> set entries"
  shows "explicit_root_for_path roots (sn_path e) = Some (rp_root target) \<and> place_of entries e target"
    and "explicit_root_for_path roots (sn_path s) = Some (rp_root source) \<and> place_of entries s source"
proof -
  let ?idx = "rule_index_of roots entries"
  have place: "explicit_root_for_path roots (sn_path x) = Some root \<and> place_of entries x
      \<lparr>rp_root = root, rp_root_identity = sn_identity d, rp_relative = relative, rp_ancestors = anc\<rparr>"
    if x: "x \<in> set entries" and root: "root_of ?idx x = Some root"
      and d: "directory_entry (entry_at ?idx root) = Some d"
      and relative: "strip_prefix (sn_path x) root = Some relative"
      and anc: "ancestor_identities ?idx root relative = Some anc" for x root d relative anc
  proof -
    have explicit: "explicit_root_for_path roots (sn_path x) = Some root"
      using root root_by_entry [OF ids x] by (simp add: root_of_def)
    have dir: "d \<in> set entries" "components (sn_path d) = components root" "sn_kind d = KDirectory"
      using d entry_at_Some by (auto simp: directory_entry_def path_eq_def split: option.splits if_splits)
    have "is_absolute root" using dir absolute by (metis is_absolute_components)
    note rel = strip_prefix_components [OF relative this]
    show ?thesis
      using explicit dir rel ancestor_identities_scanned [OF anc rel(2)]
      by (auto simp: place_of_def scanned_at_def)
  qed
  from places obtain tr sr td sd trel srel tanc sanc where
    t: "root_of ?idx e = Some tr" "directory_entry (entry_at ?idx tr) = Some td"
      "strip_prefix (sn_path e) tr = Some trel" "ancestor_identities ?idx tr trel = Some tanc"
    and s: "root_of ?idx s = Some sr" "directory_entry (entry_at ?idx sr) = Some sd"
      "strip_prefix (sn_path s) sr = Some srel" "ancestor_identities ?idx sr srel = Some sanc"
    and eq: "target = \<lparr>rp_root = tr, rp_root_identity = sn_identity td, rp_relative = trel, rp_ancestors = tanc\<rparr>"
      "source = \<lparr>rp_root = sr, rp_root_identity = sn_identity sd, rp_relative = srel, rp_ancestors = sanc\<rparr>"
    by (auto simp: rule_places_def)
  show "explicit_root_for_path roots (sn_path e) = Some (rp_root target) \<and> place_of entries e target"
    using place [OF es(1) t] by (simp add: eq)
  show "explicit_root_for_path roots (sn_path s) = Some (rp_root source) \<and> place_of entries s source"
    using place [OF es(2) s] by (simp add: eq)
qed

section \<open>What a candidate has passed\<close>

text \<open>The calls of an inspection that found the file as it was scanned.\<close>

definition inspection_of :: "scan_entry \<Rightarrow> rule_place \<Rightarrow> inspection" where
  "inspection_of e p = \<lparr>in_root = rp_root p, in_identity = rp_root_identity p, in_relative = rp_relative p,
     in_ancestors = rp_ancestors p, in_expected = sn_identity e\<rparr>"

definition found_unchanged :: "u32 \<Rightarrow> scan_entry \<Rightarrow> rule_place \<Rightarrow> evidence_event list \<Rightarrow> bool" where
  "found_unchanged uid e p l \<longleftrightarrow>
     (\<exists>l' d y. sublist l' l \<and> trace_run (evidence_step (inspection_of e p)) Untouched l' = Some (Left True (Examined d y))
       \<and> nf_identity (from_stat y) = sn_identity e \<and> nf_kind (from_stat y) = KFile
       \<and> nf_nlink (from_stat y) = Some 1 \<and> nf_uid (from_stat y) = Some uid \<and> \<not> nf_dataless (from_stat y))"

definition marker_found :: "scan_entry \<Rightarrow> rule_place \<Rightarrow> evidence_event list \<Rightarrow> bool" where
  "marker_found e p l \<longleftrightarrow> (\<exists>l'. sublist l' l \<and>
     trace_run (evidence_step (inspection_of e p)) Untouched l' = Some (Left True (MarkerRead class_magic)))"

lemma found_unchanged_append:
  "found_unchanged uid e p l1 \<Longrightarrow> found_unchanged uid e p (l @ l1)"
  "found_unchanged uid e p l1 \<Longrightarrow> found_unchanged uid e p (l1 @ l)"
  unfolding found_unchanged_def using sublist_append by blast+

lemma marker_found_append:
  "marker_found e p l1 \<Longrightarrow> marker_found e p (l @ l1)"
  "marker_found e p l1 \<Longrightarrow> marker_found e p (l1 @ l)"
  unfolding marker_found_def using sublist_append by blast+

lemma inspect_place_Inr:
  "inspect_place os provider what dataless p w = (Inr facts, w') \<Longrightarrow>
     ne_inspect provider (rp_root p) (rp_root_identity p) (rp_relative p) (rp_ancestors p) w = (Inr facts, w')"
  by (auto simp: inspect_place_def amatch_def Let_def split: prod.splits sum.splits native_error.splits if_splits)

lemma class_marker_Inr:
  "class_marker os provider e p w = (Inr u, w') \<Longrightarrow>
     ne_prefix4 provider (rp_root p) (rp_root_identity p) (rp_relative p) (rp_ancestors p) (sn_identity e) w
       = (Inr class_magic, w')"
  by (auto simp: class_marker_def amatch_def Let_def ensure_def
      split: prod.splits sum.splits native_error.splits if_splits)

text \<open>What has been found stays found when the log grows.\<close>

lemma grows:
  assumes "appends m" and "m (w, l) = (r, w', l')"
  shows "found_unchanged uid e p l \<Longrightarrow> found_unchanged uid e p l'" and "marker_found e p l \<Longrightarrow> marker_found e p l'"
proof -
  obtain l1 where "l' = l @ l1" using appends_run [OF assms] by blast
  then show "found_unchanged uid e p l \<Longrightarrow> found_unchanged uid e p l'"
    "marker_found e p l \<Longrightarrow> marker_found e p l'"
    by (simp_all add: found_unchanged_append marker_found_append)
qed

lemma inspect_place_found:
  assumes run: "inspect_place (logged_evidence os) (host_native_evidence (logged_evidence os)) what dataless p (w, l)
      = (Inr facts, w', l')"
    and facts: "nf_identity facts = sn_identity e" "nf_kind facts = KFile" "nf_nlink facts = Some 1"
      "nf_uid facts = Some uid" "\<not> nf_dataless facts"
  shows "found_unchanged uid e p l'"
proof -
  obtain l1 where l: "l' = l @ l1"
    and "inspect_place (logged_evidence os) (host_native_evidence (logged_evidence os)) what dataless p (w, [])
      = (Inr facts, w', l1)"
    using appends_run [OF appends_inspect_place run] by metis
  then have "inspect_with_ancestry (logged_evidence os) (rp_root p) (rp_root_identity p) (rp_relative p) (rp_ancestors p) (w, [])
      = (Inr facts, w', l1)"
    by (auto dest: inspect_place_Inr simp: host_native_evidence_def)
  from leadsD [OF descent.leads_inspection [of "inspection_of e p"] _ this]
  obtain d y where "trace_run (evidence_step (inspection_of e p)) Untouched l1 = Some (Left True (Examined d y))"
    "facts = from_stat y"
    by (force simp: inspection_of_def settled_def)
  then have "found_unchanged uid e p l1" using facts unfolding found_unchanged_def by auto
  then show ?thesis unfolding l by (rule found_unchanged_append)
qed

lemma class_marker_found:
  assumes run: "class_marker (logged_evidence os) (host_native_evidence (logged_evidence os)) e p (w, l) = (Inr u, w', l')"
  shows "marker_found e p l'"
proof -
  obtain l1 where l: "l' = l @ l1"
    and "class_marker (logged_evidence os) (host_native_evidence (logged_evidence os)) e p (w, []) = (Inr u, w', l1)"
    using appends_run [OF appends_class_marker run] by metis
  then have "read_prefix4_with_ancestry (logged_evidence os) (rp_root p) (rp_root_identity p) (rp_relative p)
      (rp_ancestors p) (sn_identity e) (w, []) = (Inr class_magic, w', l1)"
    by (auto dest: class_marker_Inr simp: host_native_evidence_def)
  from leadsD [OF descent.leads_marker_read [of "inspection_of e p"] _ this]
  have "trace_run (evidence_step (inspection_of e p)) Untouched l1 = Some (Left True (MarkerRead class_magic))"
    by (force simp: inspection_of_def settled_def)
  then have "marker_found e p l1" unfolding marker_found_def by auto
  then show ?thesis unfolding l by (rule marker_found_append)
qed

lemma facts_checks_Inr:
  "facts_checks current e s ft fs = Inr () \<longleftrightarrow>
     nf_identity ft = sn_identity e \<and> nf_kind ft = KFile \<and> nf_nlink ft = Some 1
     \<and> nf_identity fs = sn_identity s \<and> nf_kind fs = KFile \<and> nf_nlink fs = Some 1
     \<and> (\<exists>uid. current = Some uid \<and> nf_uid ft = Some uid \<and> nf_uid fs = Some uid)"
  by (auto simp: facts_checks_def owned_by_def split: option.splits)

text \<open>Both inspections of the facts of a pair are in the log.\<close>

lemma pyc_facts_found:
  assumes "pyc_facts (logged_evidence os) (host_native_evidence (logged_evidence os)) e s (pe, ps) (w, l)
      = (Inr u, w', l')"
  shows "found_unchanged (ev_euid os) e pe l' \<and> found_unchanged (ev_euid os) s ps l'"
proof -
  let ?os = "logged_evidence os" let ?host = "host_native_evidence (logged_evidence os)"
  let ?halt = "halt_if_cancelled ?os ''rule preview cancelled during metadata verification'' :: (_, _, unit) eact"
  obtain ft fs w1 l1 w2 l2 w3 l3 where
    t: "inspect_place ?os ?host ''target'' CandidateDatalessOrCloud pe (w, l) = (Inr ft, w1, l1)"
    and h: "?halt (w1, l1) = (Inr (), w2, l2)"
    and s: "inspect_place ?os ?host ''source'' SourceDatalessOrCloud ps (w2, l2) = (Inr fs, w3, l3)"
    and h': "?halt (w3, l3) = (Inr (), w', l')"
    and facts: "\<not> nf_dataless ft" "\<not> nf_dataless fs" "facts_checks (Some (ev_euid os)) e s ft fs = Inr ()"
    using assms by (auto simp: pyc_facts_def host_native_evidence_def logged_evidence_def)
  note ok = facts(1,2) facts(3) [unfolded facts_checks_Inr]
  have "found_unchanged (ev_euid os) e pe l1" by (rule inspect_place_found [OF t]) (use ok in auto)
  then have "found_unchanged (ev_euid os) e pe l'"
    using grows(1) [OF appends_halt h] grows(1) [OF appends_inspect_place s] grows(1) [OF appends_halt h'] by blast
  moreover have "found_unchanged (ev_euid os) s ps l3" by (rule inspect_place_found [OF s]) (use ok in auto)
  ultimately show ?thesis using grows(1) [OF appends_halt h'] by blast
qed

lemma class_facts_found:
  assumes "class_facts (logged_evidence os) (host_native_evidence (logged_evidence os)) e s (pe, ps) (w, l)
      = (Inr u, w', l')"
  shows "found_unchanged (ev_euid os) e pe l' \<and> found_unchanged (ev_euid os) s ps l'"
proof -
  let ?os = "logged_evidence os" let ?host = "host_native_evidence (logged_evidence os)"
  obtain ft fs w1 l1 where
    t: "inspect_place ?os ?host ''target'' CandidateDatalessOrCloud pe (w, l) = (Inr ft, w1, l1)"
    and s: "inspect_place ?os ?host ''source'' SourceDatalessOrCloud ps (w1, l1) = (Inr fs, w', l')"
    and facts: "\<not> nf_dataless ft" "\<not> nf_dataless fs" "facts_checks (Some (ev_euid os)) e s ft fs = Inr ()"
    using assms by (auto simp: class_facts_def host_native_evidence_def logged_evidence_def)
  note ok = facts(1,2) facts(3) [unfolded facts_checks_Inr]
  have "found_unchanged (ev_euid os) e pe l1" by (rule inspect_place_found [OF t]) (use ok in auto)
  moreover have "found_unchanged (ev_euid os) s ps l'" by (rule inspect_place_found [OF s]) (use ok in auto)
  ultimately show ?thesis using grows(1) [OF appends_inspect_place s] by blast
qed

text \<open>
  A candidate describes a scanned target and its source, which the scan and the calls of the
  preview support.
\<close>

definition describes :: "rule_candidate \<Rightarrow> scan_entry \<Rightarrow> scan_entry \<Rightarrow> bool" where
  "describes c e s \<longleftrightarrow> rc_target_entry_id c = sn_id e \<and> rc_source_entry_id c = sn_id s
     \<and> rc_target_path c = sn_path e \<and> rc_source_path c = sn_path s
     \<and> rc_target_identity c = sn_identity e \<and> rc_source_identity c = sn_identity s
     \<and> rc_matched_logical_bytes c = sn_logical_bytes e \<and> rc_action c = ManualReview"

definition acceptable :: "path list \<Rightarrow> scan_entry \<Rightarrow> bool" where
  "acceptable roots e \<longleftrightarrow> sn_kind e = KFile \<and> \<not> sn_dataless e \<and> sn_counted e
     \<and> \<not> path_protected (root_scopes roots) (sn_path e)"

definition scan_supports :: "path list \<Rightarrow> scan_entry list \<Rightarrow> scan_entry \<Rightarrow> scan_entry \<Rightarrow> rule_place \<times> rule_place \<Rightarrow> bool" where
  "scan_supports roots entries e s places \<longleftrightarrow>
     e \<in> set entries \<and> s \<in> set entries \<and> acceptable roots e \<and> acceptable roots s
     \<and> sn_identity e \<noteq> sn_identity s
     \<and> explicit_root_for_path roots (sn_path e) = Some (rp_root (fst places)) \<and> place_of entries e (fst places)
     \<and> explicit_root_for_path roots (sn_path s) = Some (rp_root (snd places)) \<and> place_of entries s (snd places)
     \<and> path_eq (rp_root (fst places)) (rp_root (snd places))"

definition calls_support ::
  "u32 \<Rightarrow> scan_entry \<Rightarrow> scan_entry \<Rightarrow> rule_place \<times> rule_place \<Rightarrow> evidence_event list \<Rightarrow> bool" where
  "calls_support uid e s places l \<longleftrightarrow>
     found_unchanged uid e (fst places) l \<and> found_unchanged uid s (snd places) l"

definition supported ::
  "u32 \<Rightarrow> path list \<Rightarrow> scan_entry list \<Rightarrow> evidence_event list \<Rightarrow> rule_kind \<Rightarrow> rule_candidate \<Rightarrow> bool" where
  "supported uid roots entries l kind c \<longleftrightarrow>
     (\<exists>e s places. describes c e s \<and> scan_supports roots entries e s places \<and> calls_support uid e s places l
        \<and> (case kind of
             CpythonPyc \<Rightarrow> rc_rule_id c = cpython_rule_id \<and> cpython_pair (sn_path e) (rc_source_path c)
           | JavacClass \<Rightarrow> rc_rule_id c = javac_rule_id \<and> javac_pair (sn_path e) (rc_source_path c)
               \<and> marker_found e (fst places) l))"

lemma supported_grows: "supported uid roots entries l kind c \<Longrightarrow> supported uid roots entries (l @ l') kind c"
  unfolding supported_def calls_support_def
  by (cases kind; simp; blast intro: found_unchanged_append marker_found_append)

lemma scan_supportsI:
  assumes "candidate_checks (root_scopes roots) e = Inr ()"
    and "source_checks (rule_index_of roots entries) (root_scopes roots) what e s = Inr ()"
    and "rule_places (rule_index_of roots entries) e s = Inr places"
    and "e \<in> set entries" and "s \<in> set entries"
    and "\<forall>x \<in> set entries. is_absolute (sn_path x)" and "distinct (map sn_id entries)"
  shows "scan_supports roots entries e s places"
proof -
  obtain pe ps where p: "places = (pe, ps)" by (cases places)
  note placed = rule_places_scanned [OF assms(3) [unfolded p] assms(6,7,4,5)]
  have "root_key (rule_index_of roots entries) e = root_key (rule_index_of roots entries) s"
    using assms(2) by (auto simp: source_checks_def)
  then have "path_eq (rp_root pe) (rp_root ps)"
    using placed root_by_entry [OF assms(7,4), of roots] root_by_entry [OF assms(7,5), of roots]
    by (simp add: root_key_def path_eq_def)
  then show ?thesis using assms(1,2,4,5) placed
    by (auto simp: p scan_supports_def acceptable_def candidate_checks_def source_checks_def)
qed

lemma pair_path_eq:
  "cpython_pair p q \<Longrightarrow> path_eq q' q \<Longrightarrow> cpython_pair p q'"
  "javac_pair p q \<Longrightarrow> path_eq q' q \<Longrightarrow> javac_pair p q'"
  by (auto simp: cpython_pair_def javac_pair_def path_eq_def)

lemma pyc_source_pair:
  assumes "pyc_source (rule_index_of roots entries) e = Inr (parsed, s)" and "looks_like_pyc (sn_path e)"
  shows "s \<in> set entries \<and> cpython_pair (sn_path e) (sn_path s)"
proof -
  from assms obtain selection where "explicit_selection_for_cpython (sn_path e) = Some selection"
    and s: "entry_at (rule_index_of roots entries) (ers_source_path selection) = Some s"
    by (auto simp: pyc_source_def explicit_selection_for_cpython_def)
  then show ?thesis using cpython_selection_pair entry_at_Some [OF s] pair_path_eq(1) by blast
qed

lemma class_source_pair:
  assumes "class_source (rule_index_of roots entries) e = Inr (selection, s)"
  shows "s \<in> set entries \<and> javac_pair (sn_path e) (sn_path s)"
  using assms javac_selection_pair entry_at_Some pair_path_eq(2)
  by (auto simp: class_source_def) (metis+)

definition sound_scan :: "scan_entry list \<Rightarrow> bool" where
  "sound_scan entries \<longleftrightarrow> (\<forall>x \<in> set entries. is_absolute (sn_path x)) \<and> distinct (map sn_id entries)"

lemma examine_pyc_supported:
  assumes run: "examine_pyc (logged_evidence os) (host_native_evidence (logged_evidence os)) (root_scopes roots)
      (rule_index_of roots entries) e (w, l) = (Inr c, w', l')"
    and scan: "sound_scan entries" and e: "e \<in> set entries"
  shows "supported (ev_euid os) roots entries l' CpythonPyc c"
proof -
  obtain parsed s places w1 l1 where looks: "looks_like_pyc (sn_path e)"
    and checks: "candidate_checks (root_scopes roots) e = Inr ()"
      "source_checks (rule_index_of roots entries) (root_scopes roots) ''cache'' e s = Inr ()"
      "rule_places (rule_index_of roots entries) e s = Inr places"
    and src: "pyc_source (rule_index_of roots entries) e = Inr (parsed, s)"
    and facts: "pyc_facts (logged_evidence os) (host_native_evidence (logged_evidence os)) e s places (w1, l1)
      = (Inr (), w', l')"
    and c: "c = pyc_candidate e s parsed"
    using run by (auto simp: examine_pyc_def split: prod.splits)
  have "calls_support (ev_euid os) e s places l'"
    using pyc_facts_found [of os e s "fst places" "snd places"] facts by (simp add: calls_support_def)
  moreover have "scan_supports roots entries e s places"
    using scan_supportsI [OF checks e] pyc_source_pair [OF src looks] scan by (simp add: sound_scan_def)
  moreover have "describes c e s \<and> rc_rule_id c = cpython_rule_id" "rc_source_path c = sn_path s"
    by (simp_all add: c pyc_candidate_def describes_def)
  ultimately show ?thesis using pyc_source_pair [OF src looks]
    unfolding supported_def by (intro exI [of _ e] exI [of _ s] exI [of _ places]) simp
qed

lemma examine_class_supported:
  assumes run: "examine_class (logged_evidence os) (host_native_evidence (logged_evidence os)) (root_scopes roots)
      (rule_index_of roots entries) e (w, l) = (Inr c, w', l')"
    and scan: "sound_scan entries" and e: "e \<in> set entries"
  shows "supported (ev_euid os) roots entries l' JavacClass c"
proof -
  obtain selection s places w1 l1 w2 l2 where
    checks: "candidate_checks (root_scopes roots) e = Inr ()"
      "source_checks (rule_index_of roots entries) (root_scopes roots) ''class'' e s = Inr ()"
      "rule_places (rule_index_of roots entries) e s = Inr places"
    and src: "class_source (rule_index_of roots entries) e = Inr (selection, s)"
    and facts: "class_facts (logged_evidence os) (host_native_evidence (logged_evidence os)) e s places (w1, l1)
      = (Inr (), w2, l2)"
    and marker: "class_marker (logged_evidence os) (host_native_evidence (logged_evidence os)) e (fst places) (w2, l2)
      = (Inr (), w', l')"
    and c: "c = class_candidate e s selection"
    using run by (auto simp: examine_class_def split: prod.splits)
  have "calls_support (ev_euid os) e s places l'"
    using class_facts_found [of os e s "fst places" "snd places"] facts grows(1) [OF appends_class_marker marker]
    by (simp add: calls_support_def)
  moreover have "scan_supports roots entries e s places"
    using scan_supportsI [OF checks e] class_source_pair [OF src] scan by (simp add: sound_scan_def)
  moreover have "describes c e s \<and> rc_rule_id c = javac_rule_id" "rc_source_path c = sn_path s"
    by (simp_all add: c class_candidate_def describes_def)
  ultimately show ?thesis using class_source_pair [OF src] class_marker_found [OF marker]
    unfolding supported_def by (intro exI [of _ e] exI [of _ s] exI [of _ places]) simp
qed

section \<open>The loop over the entries\<close>

text \<open>Every targeted entry is answered by a candidate or a refusal for its path.\<close>

definition verdict_of :: "(scan_entry \<Rightarrow> bool) \<Rightarrow> scan_entry \<Rightarrow> (entry_exit, rule_candidate) result \<Rightarrow> bool" where
  "verdict_of targeted e r \<longleftrightarrow>
     (case r of
        Inr c \<Rightarrow> targeted e \<and> rc_target_path c = sn_path e \<and> rc_matched_logical_bytes c = sn_logical_bytes e
      | Inl Skip \<Rightarrow> \<not> targeted e
      | Inl (Refuse code message) \<Rightarrow> targeted e
      | Inl (Halt message) \<Rightarrow> True)"

definition judges :: "(scan_entry \<Rightarrow> bool) \<Rightarrow> (scan_entry \<Rightarrow> ('w, entry_exit, rule_candidate) eact) \<Rightarrow> bool" where
  "judges targeted examine \<longleftrightarrow> (\<forall>e w. verdict_of targeted e (fst (examine e w)))"

definition answered :: "rule_matches \<Rightarrow> path multiset" where
  "answered s = mset (map rc_target_path (mt_candidates s)) + mset (List.map_filter rf_path (mt_refusals s))"

definition known_sum :: "rule_candidate list \<Rightarrow> nat" where
  "known_sum cs = sum_list (map unat (List.map_filter rc_matched_logical_bytes cs))"

definition unknown_count :: "rule_candidate list \<Rightarrow> nat" where
  "unknown_count cs = length (filter (\<lambda>c. rc_matched_logical_bytes c = None) cs)"

definition exact_totals :: "rule_matches \<Rightarrow> bool" where
  "exact_totals s \<longleftrightarrow> unat (mt_known s) = known_sum (mt_candidates s)
     \<and> unat (mt_unknown s) = unknown_count (mt_candidates s)"

lemma map_filter_append: "List.map_filter f (xs @ ys) = List.map_filter f xs @ List.map_filter f ys"
  by (induction xs) (auto simp: map_filter_simps split: option.splits)

lemma refuse_entry_facts:
  "answered (refuse_entry rule e code message s) = answered s + {#sn_path e#}"
  "exact_totals (refuse_entry rule e code message s) = exact_totals s"
  "mt_cancelled (refuse_entry rule e code message s) = mt_cancelled s"
  by (simp_all add: refuse_entry_def answered_def exact_totals_def map_filter_append map_filter_simps rule_refusal_at_def)

lemma accept_entry_facts:
  assumes "rc_target_path c = sn_path e" and "rc_matched_logical_bytes c = sn_logical_bytes e"
  shows "answered (accept_entry rule e c s) = answered s + {#sn_path e#}"
    and "exact_totals s \<Longrightarrow> exact_totals (accept_entry rule e c s)"
    and "mt_cancelled (accept_entry rule e c s) = mt_cancelled s"
proof -
  show "answered (accept_entry rule e c s) = answered s + {#sn_path e#}"
    "mt_cancelled (accept_entry rule e c s) = mt_cancelled s"
    using assms by (auto simp: accept_entry_def refuse_entry_def rule_refusal_at_def answered_def
        map_filter_append map_filter_simps split: option.splits)
  show "exact_totals (accept_entry rule e c s)" if "exact_totals s"
    using that assms
    by (auto simp: accept_entry_def refuse_entry_def exact_totals_def known_sum_def unknown_count_def
        map_filter_append map_filter_simps split: option.splits dest!: unat_checked_add)
qed

lemma match_entries_answers:
  assumes "judges targeted examine" and "match_entries rule examine es s w = (r, w')"
  shows "\<exists>s'. r = Inr s' \<and> (mt_cancelled s \<longrightarrow> mt_cancelled s') \<and> (exact_totals s \<longrightarrow> exact_totals s')
    \<and> (mt_cancelled s' \<longrightarrow> mt_cancelled s \<or> RuleCancelled \<in> rf_code ` set (mt_refusals s'))
    \<and> (mt_cancelled s'
       \<or> answered s' = answered s + mset (map sn_path (filter targeted es)))"
  using assms(2)
proof (induction es arbitrary: s w)
  case (Cons e es)
  obtain x w1 where x: "examine e w = (x, w1)" by (cases "examine e w")
  then have verdict: "verdict_of targeted e x" using assms(1) by (metis fst_conv judges_def)
  have rest: "match_entries rule examine es s1 w1 = (r, w') \<Longrightarrow> ?case"
    if "mt_cancelled s1 = mt_cancelled s" "exact_totals s \<longrightarrow> exact_totals s1"
      "answered s1 = answered s + (if targeted e then {#sn_path e#} else {#})" for s1
    using Cons.IH [of s1 w1] that by (cases "targeted e") (auto simp: ac_simps)
  show ?case
  proof (cases x)
    case (Inr c)
    then show ?thesis using verdict Cons.prems x accept_entry_facts
      by (intro rest) (auto simp: verdict_of_def amatch_def answer_entry_def ends_loop_def)
  next
    case (Inl stop)
    then show ?thesis
    proof (cases stop)
      case (Halt message)
      then show ?thesis using Inl Cons.prems x
        by (auto simp: amatch_def answer_entry_def ends_loop_def halt_matching_def exact_totals_def rule_global_refusal_def)
    next
      case Skip
      then show ?thesis using Inl verdict Cons.prems x
        by (intro rest) (auto simp: verdict_of_def amatch_def answer_entry_def ends_loop_def)
    next
      case (Refuse code message)
      then show ?thesis using Inl verdict Cons.prems x refuse_entry_facts
        by (intro rest) (auto simp: verdict_of_def amatch_def answer_entry_def ends_loop_def)
    qed
  qed
qed (auto simp: act_simps(1))

lemma match_entries_all:
  assumes candidate: "\<And>e w l c w' l'. e \<in> set es \<Longrightarrow> examine e (w, l) = (Inr c, w', l') \<Longrightarrow> P c l'"
    and mono: "\<And>c l l'. P c l \<Longrightarrow> P c (l @ l')" and app: "\<And>e. appends (examine e)"
    and run: "match_entries rule examine es s (w, l) = ((Inr s' :: ('x, rule_matches) result), w', l')"
    and start: "\<forall>c \<in> set (mt_candidates s). P c l"
  shows "\<forall>c \<in> set (mt_candidates s'). P c l'"
  using candidate run start
proof (induction es arbitrary: s w l)
  case (Cons e es)
  obtain x w1 l1 where x: "examine e (w, l) = (x, w1, l1)" by (cases "examine e (w, l)") auto
  then obtain l0 where l1: "l1 = l @ l0" using appends_run [OF app] by blast
  have old: "\<forall>c \<in> set (mt_candidates s). P c l1" using Cons.prems(3) mono l1 by blast
  have new: "x = Inr c \<Longrightarrow> P c l1" for c using Cons.prems(1) [of e w l c w1 l1] x by simp
  have accepted: "set (mt_candidates (accept_entry rule e c s)) \<subseteq> insert c (set (mt_candidates s))" for c
    by (auto simp: accept_entry_def refuse_entry_def split: option.splits)
  have later: "P c l2" if "x' \<in> set es" "examine x' (w2, l0) = (Inr c, w2', l2)" for x' w2 l0 c w2' l2
    by (rule Cons.prems(1) [OF _ that(2)]) (simp add: that(1))
  have rest: ?case
    if "\<forall>c \<in> set (mt_candidates s1). P c l1" 
      and "match_entries rule examine es s1 (w1, l1) = ((Inr s' :: ('x, rule_matches) result), w', l')" for s1
    by (rule Cons.IH [of s1 w1 l1]) (erule (1) later | rule that)+
  have "\<forall>c' \<in> set (mt_candidates (accept_entry rule e c s)). P c' l1" if "x = Inr c" for c
    using accepted [of c] old new [OF that] by blast
  moreover have ?case if "x = Inl (Refuse code message)" for code message
    using rest [of "refuse_entry rule e code message s"] that Cons.prems(2) x old
    by (simp add: amatch_def answer_entry_def ends_loop_def refuse_entry_def)
  moreover have ?case if "x = Inl (Halt message)" for message
    using that Cons.prems(2) x old by (auto simp: amatch_def answer_entry_def ends_loop_def halt_matching_def)
  ultimately show ?case
    using Cons.prems(2) x rest old by (cases x rule: sum.exhaust; cases "projl x") (auto simp: amatch_def answer_entry_def ends_loop_def)
qed simp

section \<open>What an entry is answered with\<close>

definition no_skip :: "('w, entry_exit, 'a) eact \<Rightarrow> bool" where
  "no_skip m \<longleftrightarrow> (\<forall>w. fst (m w) \<noteq> Inl Skip)"

named_theorems no_skip_intros \<open>steps after which an entry is answered\<close>

lemma no_skip_aret [no_skip_intros]: "no_skip (aret a)"
  by (simp add: no_skip_def)

lemma no_skip_alift [no_skip_intros]: "r \<noteq> Inl Skip \<Longrightarrow> no_skip (alift r)"
  by (simp add: no_skip_def)

lemma no_skip_abind [no_skip_intros]: "no_skip m \<Longrightarrow> (\<And>a. no_skip (f a)) \<Longrightarrow> no_skip (abind m f)"
  by (auto simp: no_skip_def abind_def split: prod.splits sum.splits) (metis fst_conv)+

lemma no_skip_case_prod [no_skip_intros]: "(\<And>a b. no_skip (f a b)) \<Longrightarrow> no_skip (case x of (a, b) \<Rightarrow> f a b)"
  by (cases x) auto

lemma halt_result: "fst (halt_if_cancelled os message w) = Inr () \<or> fst (halt_if_cancelled os message w) = Inl (Halt message)"
  by (auto simp: halt_if_cancelled_def abind_def cancelled_now_def atest_def split: prod.splits)

lemma no_skip_halt [no_skip_intros]: "no_skip (halt_if_cancelled os message)"
  unfolding no_skip_def using halt_result by (metis entry_exit.distinct(3) sum.distinct(1) sum.inject(1))

lemma no_skip_checks [no_skip_intros]:
  "candidate_checks scopes e \<noteq> Inl Skip" "pyc_source idx e \<noteq> Inl Skip" "class_source idx e \<noteq> Inl Skip"
  "source_checks idx scopes what e s \<noteq> Inl Skip" "rule_places idx e s \<noteq> Inl Skip"
  "facts_checks current e s ft fs \<noteq> Inl Skip" "ensure b (Refuse code message) \<noteq> Inl Skip"
  by (auto simp: candidate_checks_def pyc_source_def class_source_def source_checks_def rule_places_def
      facts_checks_def rbind_Inl_iff)

lemma no_skip_inspect [no_skip_intros]: "no_skip (inspect_place os provider what dataless p)"
  by (auto simp: no_skip_def inspect_place_def amatch_def abind_def cancelled_now_def atest_def Let_def
      split: prod.splits sum.splits native_error.splits)

lemma no_skip_marker [no_skip_intros]: "no_skip (class_marker os provider e p)"
  by (auto simp: no_skip_def class_marker_def amatch_def abind_def cancelled_now_def atest_def Let_def ensure_def
      split: prod.splits sum.splits native_error.splits)

lemma judgesI:
  assumes "\<And>e. no_skip (rest e)"
    and "\<And>e w c. fst (rest e w) = Inr c \<Longrightarrow>
      rc_target_path c = sn_path e \<and> rc_matched_logical_bytes c = sn_logical_bytes e"
  shows "judges targeted (\<lambda>e. abind (halt_if_cancelled os message) (\<lambda>_.
      abind (alift (ensure (targeted e) Skip)) (\<lambda>_. rest e)))"
  unfolding judges_def
proof (intro allI)
  fix e w
  obtain h w1 where h: "halt_if_cancelled os message w = (h, w1)"
    by (cases "halt_if_cancelled os message w :: (entry_exit, unit) result \<times> _") auto
  show "verdict_of targeted e (fst (abind (halt_if_cancelled os message) (\<lambda>_.
      abind (alift (ensure (targeted e) Skip)) (\<lambda>_. rest e)) w))"
    using h halt_result [of os message w] assms(1) [of e] assms(2) [of e w1]
    by (auto simp: abind_def verdict_of_def ensure_def no_skip_def split: sum.splits entry_exit.splits)
qed

lemma fst_abind_Inr: "fst (abind m f w) = Inr b \<longleftrightarrow> (\<exists>a v. m w = (Inr a, v) \<and> fst (f a v) = Inr b)"
  by (auto simp: abind_def split: prod.splits sum.splits)

lemma judges_pyc: "judges (\<lambda>e. looks_like_pyc (sn_path e)) (examine_pyc os provider scopes idx)"
  unfolding examine_pyc_def pyc_facts_def
  by (rule judgesI, intro no_skip_intros)
    (auto simp: fst_abind_Inr pyc_candidate_def split: prod.splits)

lemma judges_class: "judges (\<lambda>e. looks_like_class (sn_path e)) (examine_class os provider scopes idx)"
  unfolding examine_class_def class_facts_def
  by (rule judgesI, intro no_skip_intros)
    (auto simp: fst_abind_Inr class_candidate_def split: prod.splits)

end
