(* ===== verification/Rule_Preview_Properties.thy ===== *)
theory Rule_Preview_Properties
  imports Rule_Preview_Results
begin

text \<open>
  The properties of the rule preview, stated over \<open>preview\<close> on the native evidence of the host,
  and a scan of \<open>/r\<close> in which both rules find a candidate.
\<close>

section \<open>From the preview to its parts\<close>

definition targeted :: "rule_kind \<Rightarrow> scan_entry \<Rightarrow> bool" where
  "targeted kind e =
     (case kind of CpythonPyc \<Rightarrow> looks_like_pyc (sn_path e) | JavacClass \<Rightarrow> looks_like_class (sn_path e))"

definition examine_kind ::
  "rule_kind \<Rightarrow> 'w evidence_os \<Rightarrow> scope list \<Rightarrow> rule_index \<Rightarrow> scan_entry \<Rightarrow> ('w, entry_exit, rule_candidate) eact" where
  "examine_kind kind os =
     (case kind of
        CpythonPyc \<Rightarrow> examine_pyc os (host_native_evidence os)
      | JavacClass \<Rightarrow> examine_class os (host_native_evidence os))"

lemma built_report:
  assumes "build_shared order r limits k = Inr (t, k')"
  shows "tr_report t = r" and "sound_scan (sr_entries r)"
proof -
  have run: "run_task (build_shared order r limits) = Inr t"
    by (rule abortable_run [OF abortable_build_shared assms])
  then obtain explicit g where g: "run_task (register_report r limits) = Inr (explicit, g)" and "tr_report t = r"
    by (auto simp: build_shared_def task_simps abortable_intros Let_def run_task_case_prod split: prod.splits)
  then show "tr_report t = r" by simp
  show "sound_scan (sr_entries r)"
    using register_report_registered(1) [OF g]
    by (auto simp: sound_scan_def registered_def indexed_def list_all_iff valid_absolute_path_def)
qed

text \<open>A preview that returns was cancelled at the start or ran over a scan that was indexed.\<close>

lemma preview_cases:
  assumes "preview os order r rule_id w = (Inr v, w')"
  obtains (cancelled) rule kind where "builtin_rule rule_id = Some (rule, kind)" "v = cancelled_preview rule r"
  | (ran) rule kind w1 where "builtin_rule rule_id = Some (rule, kind)" "sound_scan (sr_entries r)"
      "run_preview os rule (examine_kind kind os) r w1 = ((Inr v :: (preview_error, rule_preview) result), w')"
proof -
  obtain rule kind where b: "builtin_rule rule_id = Some (rule, kind)"
    using assms by (auto simp: preview_def split: option.splits)
  obtain stop w0 where c: "cancelled_now os w = ((Inr stop :: (preview_error, bool) result), w0)"
    using assms b by (auto simp: preview_def)
  show thesis
  proof (cases stop)
    case True
    then show ?thesis using assms b c cancelled by (auto simp: preview_def abind_def)
  next
    case False
    then have run: "amatch (on_flag os (build_shared order r scan_limits_default)) (\<lambda>built. case built of
          Inl e \<Rightarrow> afail (PreviewScan e)
        | Inr tree \<Rightarrow> (case kind of
            CpythonPyc \<Rightarrow> preview_with_provider os (host_native_evidence os) (tr_report tree)
          | JavacClass \<Rightarrow> preview_javac_with_provider os (host_native_evidence os) (tr_report tree))) w0 = (Inr v, w')"
      using assms b c by (simp add: preview_def abind_def)
    then obtain t k where t: "build_shared order r scan_limits_default (ev_polls os w0) = Inr (t, k)"
      by (auto simp: amatch_def on_flag_def split: sum.splits)
    have "rule = (case kind of CpythonPyc \<Rightarrow> cpython_rule | JavacClass \<Rightarrow> javac_rule)"
      using b by (auto simp: builtin_rule_def split: if_splits)
    then show ?thesis using run t built_report [OF t] ran [OF b]
      by (cases kind) (auto simp: amatch_def on_flag_def examine_kind_def preview_with_provider_def
          preview_javac_with_provider_def)
  qed
qed

lemma judges_kind: "judges (targeted kind) (examine_kind kind os scopes idx)"
proof -
  have "targeted CpythonPyc = (\<lambda>e. looks_like_pyc (sn_path e))" "targeted JavacClass = (\<lambda>e. looks_like_class (sn_path e))"
    by (simp_all add: targeted_def fun_eq_iff)
  then show ?thesis using judges_pyc judges_class by (cases kind) (simp_all add: examine_kind_def)
qed

lemma appends_kind: "appends (examine_kind kind (logged_evidence os) scopes idx e)"
  using appends_examine by (cases kind) (simp_all add: examine_kind_def)

lemma run_preview_cases:
  assumes "run_preview os rule examine r w = ((Inr v :: ('x, rule_preview) result), w')"
  obtains (stopped) message where "v = finish_preview rule r (matches_start rule (sr_complete r) (Some message))"
  | (matched) w1 s where
      "match_entries rule (examine (root_scopes (sr_roots r)) (rule_index_of (sr_roots r) (sr_entries r)))
         (sr_entries r) (matches_start rule (sr_complete r) None) w1 = ((Inr s :: ('x, rule_matches) result), w')"
      "v = finish_preview rule r s"
proof -
  obtain idx halted w1 where idx: "index_for_rules os r w = ((Inr (idx, halted) :: ('x, rule_index \<times> bytes option) result), w1)"
    and rest: "(let s = matches_start rule (sr_complete r) halted in
       if halted \<noteq> None then aret (finish_preview rule r s)
       else abind (match_entries rule (examine (root_scopes (sr_roots r)) idx) (sr_entries r) s) (\<lambda>s'.
         aret (finish_preview rule r s'))) w1 = ((Inr v :: ('x, rule_preview) result), w')"
    using assms by (auto simp: run_preview_def)
  show thesis
  proof (cases halted)
    case None
    then have "idx = rule_index_of (sr_roots r) (sr_entries r)"
      using idx index_entries_of_done [where idx = index_empty]
      by (auto simp: index_for_rules_def rule_index_of_def split: if_splits)
    then show ?thesis using rest None matched by (auto simp: Let_def)
  next
    case (Some message)
    then show ?thesis using rest stopped by (auto simp: Let_def)
  qed
qed


section \<open>What a preview answers\<close>

text \<open>C36: a preview that is not cancelled is as complete as the scan and answers every entry its rule
targets, once, by a candidate or by a refusal that names its path; its byte totals are the exact sums
over the candidates. A cancelled preview names no candidate and counts nothing.\<close>

theorem preview_answers_every_target:
  assumes "preview os order r rule_id w = (Inr v, w')"
  shows "\<exists>rule kind. builtin_rule rule_id = Some (rule, kind) \<and> rv_rule_id v = rule_id \<and> \<not> rv_effects_performed v
    \<and> (if rv_status v = scan_status_as_str StatusCancelled
       then \<not> rv_complete v \<and> rv_candidates v = [] \<and> rv_matched_bytes_known v = 0
          \<and> rv_matched_bytes_unknown_files v = 0 \<and> RuleCancelled \<in> rf_code ` set (rv_refusals v)
       else rv_complete v = sr_complete r
          \<and> mset (map rc_target_path (rv_candidates v)) + mset (List.map_filter rf_path (rv_refusals v))
              = mset (map sn_path (filter (targeted kind) (sr_entries r)))
          \<and> unat (rv_matched_bytes_known v) = known_sum (rv_candidates v)
          \<and> unat (rv_matched_bytes_unknown_files v) = unknown_count (rv_candidates v))"
proof -
  have id: "rd_id rule = rule_id" if "builtin_rule rule_id = Some (rule, kind)" for rule kind
    using that by (auto simp: builtin_rule_def cpython_rule_def javac_rule_def split: if_splits)
  show ?thesis
    using assms
  proof (cases rule: preview_cases)
    case (cancelled rule kind)
    then show ?thesis using id by (auto simp: cancelled_preview_def rule_global_refusal_def)
  next
    case (ran rule kind w1)
    have start: "answered (matches_start rule b None) = {#}" "exact_totals (matches_start rule b None)"
      "\<not> mt_cancelled (matches_start rule b None)" for b
      by (simp_all add: matches_start_def answered_def exact_totals_def known_sum_def unknown_count_def
          map_filter_simps rule_global_refusal_def)
    show ?thesis using ran(3)
    proof (cases rule: run_preview_cases)
      case (stopped message)
      then show ?thesis using id ran(1)
        by (auto simp: finish_preview_def matches_start_def run_status_complete_def rule_global_refusal_def Let_def)
    next
      case (matched w2 s)
      have s: "exact_totals s" "mt_cancelled s \<or> answered s = mset (map sn_path (filter (targeted kind) (sr_entries r)))"
        "mt_cancelled s \<longrightarrow> RuleCancelled \<in> rf_code ` set (mt_refusals s)"
        using match_entries_answers [OF judges_kind matched(1)] start [of "sr_complete r"] by auto
      then show ?thesis using id ran(1)
        by (auto simp: matched(2) finish_preview_def run_status_complete_def answered_def exact_totals_def Let_def)
    qed
  qed
qed


text \<open>C35: every candidate of a preview stands for a scanned file and its source: both are plain,
counted, unprotected files of their own in the same explicit root, the names pair up as the rule
says, and the log of the preview holds a descent from the root through exactly the scanned directories,
under the read-only policy, to each of the two, unchanged, with one link and owned by the user; for a
class file also a read of its magic, between two checks of its identity.\<close>

theorem candidates_are_supported:
  assumes "preview (logged_evidence os) order r rule_id (w, []) = (Inr v, w', l)"
    and "c \<in> set (rv_candidates v)"
  shows "\<exists>rule kind. builtin_rule rule_id = Some (rule, kind)
    \<and> supported (ev_euid os) (sr_roots r) (sr_entries r) l kind c"
  using assms(1)
proof (cases rule: preview_cases)
  case (cancelled rule kind)
  then show ?thesis using assms(2) by (simp add: cancelled_preview_def)
next
  case (ran rule kind w1)
  show ?thesis using ran(3)
  proof (cases rule: run_preview_cases)
    case (stopped message)
    then show ?thesis using assms(2) by (simp add: finish_preview_def matches_start_def Let_def)
  next
    case (matched w2 s)
    obtain v2 l2 where w2: "w2 = (v2, l2)" by (cases w2)
    have "\<forall>c \<in> set (mt_candidates s). supported (ev_euid os) (sr_roots r) (sr_entries r) l kind c"
    proof (rule match_entries_all [OF _ _ _ matched(1) [unfolded w2]])
      show "supported (ev_euid os) (sr_roots r) (sr_entries r) l' kind c"
        if "e \<in> set (sr_entries r)" "examine_kind kind (logged_evidence os) (root_scopes (sr_roots r))
            (rule_index_of (sr_roots r) (sr_entries r)) e (w, l) = (Inr c, w', l')" for e w l c w' l'
        using that examine_pyc_supported examine_class_supported ran(2)
        by (cases kind) (auto simp: examine_kind_def)
    qed (auto simp: supported_grows matches_start_def appends_kind)
    then show ?thesis using assms(2) ran(1) by (auto simp: matched(2) finish_preview_def Let_def split: if_splits)
  qed
qed



section \<open>A scan of two caches\<close>

text \<open>Limits only refuse: a report that is indexed under some limits is indexed under looser ones.\<close>

definition looser :: "scan_limits \<Rightarrow> scan_limits \<Rightarrow> bool" where
  "looser l l' \<longleftrightarrow> sl_max_entries l \<le> sl_max_entries l' \<and> sl_max_path_bytes l \<le> sl_max_path_bytes l'
     \<and> scan_limits_validate l' = Inr ()"

lemma tfold_mono:
  assumes "\<And>x s s'. run_task (f x s) = Inr s' \<Longrightarrow> run_task (g x s) = Inr s'"
    and "\<And>x s. abortable (f x s)" and "\<And>x s. abortable (g x s)" and "run_task (tfold f xs s) = Inr s'"
  shows "run_task (tfold g xs s) = Inr s'"
  using assms(4) by (induction xs arbitrary: s) (auto simp: task_simps abortable_intros assms(2,3) dest!: assms(1))

lemma register_report_looser:
  assumes l: "looser l l'" and run: "run_task (register_report r l) = Inr x"
  shows "run_task (register_report r l') = Inr x"
proof -
  have bytes: "add_path_bytes u p (sl_max_path_bytes l) = Inr v \<Longrightarrow> add_path_bytes u p (sl_max_path_bytes l') = Inr v" for u p v
    using l by (auto simp: add_path_bytes_def looser_def split: if_splits)
  have root: "run_task (register_root l root s) = Inr s' \<Longrightarrow> run_task (register_root l' root s) = Inr s'" for root s s'
    by (cases s) (auto simp: register_root_def task_simps abortable_intros dest!: bytes)
  have entry: "run_task (register_entry l e g) = Inr g' \<Longrightarrow> run_task (register_entry l' e g) = Inr g'" for e g g'
    by (auto simp: register_entry_def Let_def task_simps abortable_intros split: if_splits dest!: bytes)
  have mono: "run_task (tfold (register_root l) roots s) = Inr s' \<Longrightarrow> run_task (tfold (register_root l') roots s) = Inr s'"
    "run_task (tfold (register_entry l) es g) = Inr g' \<Longrightarrow> run_task (tfold (register_entry l') es g) = Inr g'"
    for roots s s' es g g'
    by (erule tfold_mono [OF root, rotated -1] tfold_mono [OF entry, rotated -1]; simp add: abortable_intros)+
  show ?thesis
    using run l
    by (auto simp: register_report_def task_simps abortable_intros run_task_case_prod looser_def
        split: if_splits prod.splits dest!: mono)
qed


lemma build_shared_looser:
  assumes "looser l l'" and "build_shared order r l None = Inr (t, None)"
  shows "build_shared order r l' None = Inr (t, None)"
proof -
  have "run_task (build_shared order r l) = Inr t"
    by (rule abortable_run [OF abortable_build_shared assms(2)])
  then have "run_task (build_shared order r l') = Inr t"
    using register_report_looser [OF assms(1)]
    by (auto simp: build_shared_def task_simps abortable_intros Let_def run_task_case_prod split: prod.splits)
  then show ?thesis
    using abortable_build_shared [of order r l'] by (auto simp: run_task_def abortable_def split: sum.splits)
qed

text \<open>A scan of \<open>/r\<close>: a module with its cache, a class with its source, and a class without one.\<close>

definition rule_demo_entry :: "u64 \<Rightarrow> path \<Rightarrow> resource_kind \<Rightarrow> scan_entry" where
  "rule_demo_entry i p k = \<lparr>sn_private_bytes = None, sn_owner = None, sn_project_signature = None,
     sn_id = i, sn_path = p, sn_kind = k, sn_identity = Unix 1 i, sn_logical_bytes = Some 8,
     sn_allocated_bytes = None, sn_modified_unix_ms = None, sn_dataless = False, sn_counted = True, sn_depth = 0\<rparr>"

definition rule_demo_report :: scan_report where
  "rule_demo_report = \<lparr>sr_task_id = \<lparr>st_process = 12, st_sequence = 1\<rparr>, sr_roots = [''/r''],
     sr_scan_status = StatusComplete, sr_complete = True,
     sr_entries = [rule_demo_entry 1 ''/r'' KDirectory, rule_demo_entry 2 ''/r/a.py'' KFile,
       rule_demo_entry 3 ''/r/__pycache__'' KDirectory,
       rule_demo_entry 4 ''/r/__pycache__/a.cpython-312.pyc'' KFile,
       rule_demo_entry 5 ''/r/A.java'' KFile, rule_demo_entry 6 ''/r/A.class'' KFile,
       rule_demo_entry 7 ''/r/B.class'' KFile],
     sr_vcs_metadata = [], sr_issues = [], sr_issues_omitted = 0,
     sr_totals = \<lparr>tt_regular_files = 5, tt_unique_files = 5, tt_duplicate_files = 0, tt_directories = 2,
       tt_links = 0, tt_other = 0, tt_logical_bytes_known = 40, tt_logical_bytes_unknown_files = 0,
       tt_allocated_bytes_known = 0, tt_allocated_bytes_unknown_files = 5\<rparr>,
     sr_metrics = \<lparr>sm_elapsed_ms = 1, sm_first_result_ms = None, sm_peak_workers = 1, sm_peak_queued_dirs = 1,
       sm_peak_open_dirs = 1, sm_peak_pending_events = 1, sm_retained_path_bytes = 14, sm_accepted_roots = 1\<rparr>\<rparr>"

definition rule_demo_limits :: scan_limits where
  "rule_demo_limits = \<lparr>sl_workers = 1, sl_queue_capacity = 1, sl_event_capacity = 1, sl_max_open_dirs = 4,
     sl_max_depth = 4, sl_max_entries = 8, sl_max_path_bytes = 128, sl_max_issues = 4,
     sl_time_budget = 1, sl_progress_every = 1\<rparr>"

text \<open>A file system that holds it; the descriptors of \<open>/r\<close>, \<open>/r/__pycache__\<close> and files are 1, 3 and 6.\<close>

definition rule_demo_stat :: "u64 \<Rightarrow> 16 word \<Rightarrow> evidence_stat" where
  "rule_demo_stat i mode = \<lparr>es_dev = 1, es_ino = i, es_mode = mode, es_nlink = 1, es_uid = 501, es_flags = 0\<rparr>"

definition rule_demo_ino :: "bytes \<Rightarrow> u64" where
  "rule_demo_ino name = (if name = ''a.py'' then 2 else if name = ''a.cpython-312.pyc'' then 4
     else if name = ''A.java'' then 5 else 6)"

definition rule_demo_os :: "polls evidence_os" where
  "rule_demo_os = \<lparr>ev_polls = (\<lambda>k. k), ev_put_polls = (\<lambda>k _. k), ev_get_policy = aret 0,
     ev_set_policy = (\<lambda>v. aret ()), ev_open_dir = (\<lambda>p. aret 1), ev_openat_dir = (\<lambda>d name. aret 3),
     ev_openat_file = (\<lambda>d name. aret 6),
     ev_fstat = (\<lambda>d. aret (rule_demo_stat (if d = 1 then 1 else if d = 3 then 3 else 6)
        (if d = 6 then 0x81A4 else 0x41ED))),
     ev_statat = (\<lambda>d name. aret (rule_demo_stat (rule_demo_ino name) 0x81A4)),
     ev_read = (\<lambda>f n. aret [0xCA, 0xFE, 0xBA, 0xBE]), ev_euid = 501\<rparr>"

definition rule_demo_run :: "bytes \<Rightarrow> (preview_error, rule_preview) result \<times> polls \<times> evidence_event list" where
  "rule_demo_run rule_id = preview (logged_evidence rule_demo_os) [0, 1, 2, 3, 4, 5, 6] rule_demo_report rule_id (None, [])"

lemma rule_demo_validates: "scan_limits_validate rule_demo_limits = Inr ()"
  by (simp add: scan_limits_validate_def rule_demo_limits_def seconds_def)

lemma rule_demo_looser: "looser rule_demo_limits scan_limits_default"
  by (simp add: looser_def rule_demo_limits_def scan_limits_default_def scan_limits_validate_def seconds_def)

lemma rule_demo_built: "\<exists>t. build_shared [0, 1, 2, 3, 4, 5, 6] rule_demo_report scan_limits_default None = Inr (t, None)"
proof -
  have "\<not> isl (run_task (build_shared [0, 1, 2, 3, 4, 5, 6] rule_demo_report rule_demo_limits))"
    by (simp add: build_shared_def register_report_def task_simps abortable_intros rule_demo_validates) code_simp
  then obtain t where "run_task (build_shared [0, 1, 2, 3, 4, 5, 6] rule_demo_report rule_demo_limits) = Inr t"
    by (metis sum.collapse(2))
  then have "build_shared [0, 1, 2, 3, 4, 5, 6] rule_demo_report rule_demo_limits None = Inr (t, None)"
    using abortable_build_shared [of "[0, 1, 2, 3, 4, 5, 6]" rule_demo_report rule_demo_limits]
    by (auto simp: run_task_def abortable_def split: sum.splits)
  then show ?thesis using build_shared_looser [OF rule_demo_looser] by blast
qed

lemma rule_demo_pyc:
  "case preview_with_provider (logged_evidence rule_demo_os) (host_native_evidence (logged_evidence rule_demo_os))
      rule_demo_report (None, []) of
    (Inl (e :: preview_error), s) \<Rightarrow> False
  | (Inr v, s) \<Rightarrow> map rc_target_path (rv_candidates v) = [''/r/__pycache__/a.cpython-312.pyc'']
      \<and> rv_matched_bytes_known v = 8 \<and> rv_status v = ''complete''"
  by code_simp

lemma rule_demo_class:
  "case preview_javac_with_provider (logged_evidence rule_demo_os) (host_native_evidence (logged_evidence rule_demo_os))
      rule_demo_report (None, []) of
    (Inl (e :: preview_error), s) \<Rightarrow> False
  | (Inr v, s) \<Rightarrow> map rc_target_path (rv_candidates v) = [''/r/A.class'']
      \<and> map rf_code (rv_refusals v) = [SourceMissing] \<and> rv_matched_bytes_known v = 8 \<and> rv_status v = ''complete''"
  by code_simp


text \<open>Uncancelled, the preview of the demonstration is the one of its rule on the report.\<close>

lemma rule_demo_polls: "ev_polls (logged_evidence rule_demo_os) (k, l) = k"
  "ev_put_polls (logged_evidence rule_demo_os) k (k', l) = (k, l)"
  by (simp_all add: logged_evidence_def rule_demo_os_def)

lemma rule_demo_preview:
  "rule_demo_run cpython_rule_id
     = preview_with_provider (logged_evidence rule_demo_os) (host_native_evidence (logged_evidence rule_demo_os))
         rule_demo_report (None, [])"
  "rule_demo_run javac_rule_id
     = preview_javac_with_provider (logged_evidence rule_demo_os) (host_native_evidence (logged_evidence rule_demo_os))
         rule_demo_report (None, [])"
proof -
  obtain t where t: "build_shared [0, 1, 2, 3, 4, 5, 6] rule_demo_report scan_limits_default None = Inr (t, None)"
    using rule_demo_built by blast
  have rules: "builtin_rule cpython_rule_id = Some (cpython_rule, CpythonPyc)"
    "builtin_rule javac_rule_id = Some (javac_rule, JavacClass)"
    by (simp_all add: builtin_rule_def cpython_rule_id_def javac_rule_id_def)
  show "rule_demo_run cpython_rule_id
     = preview_with_provider (logged_evidence rule_demo_os) (host_native_evidence (logged_evidence rule_demo_os))
         rule_demo_report (None, [])"
    "rule_demo_run javac_rule_id
     = preview_javac_with_provider (logged_evidence rule_demo_os) (host_native_evidence (logged_evidence rule_demo_os))
         rule_demo_report (None, [])"
    using t built_report(1) [OF t]
    by (simp_all add: rule_demo_run_def preview_def rules cancelled_now_def atest_def is_cancelled_def abind_def
        amatch_def on_flag_def rule_demo_polls)
qed

lemma rule_demo_results:
  "\<exists>v s. rule_demo_run cpython_rule_id = (Inr v, s) \<and> map rc_target_path (rv_candidates v) = [''/r/__pycache__/a.cpython-312.pyc'']
     \<and> rv_matched_bytes_known v = 8 \<and> rv_status v = ''complete''"
  "\<exists>v s. rule_demo_run javac_rule_id = (Inr v, s) \<and> map rc_target_path (rv_candidates v) = [''/r/A.class'']
     \<and> map rf_code (rv_refusals v) = [SourceMissing] \<and> rv_matched_bytes_known v = 8 \<and> rv_status v = ''complete''"
  using rule_demo_pyc rule_demo_class unfolding rule_demo_preview
  by (simp_all split: prod.splits sum.splits)

theorem preview_answers_every_target_witness:
  "\<exists>v s. rule_demo_run javac_rule_id = (Inr v, s) \<and> rv_complete v
     \<and> mset (map rc_target_path (rv_candidates v)) + mset (List.map_filter rf_path (rv_refusals v))
         = {#''/r/A.class'', ''/r/B.class''#}
     \<and> known_sum (rv_candidates v) = 8"
proof -
  obtain v s where v: "rule_demo_run javac_rule_id = (Inr v, s)" "rv_status v = ''complete''"
    "rv_matched_bytes_known v = 8"
    using rule_demo_results(2) by (elim exE conjE)
  obtain rule kind where kind: "builtin_rule javac_rule_id = Some (rule, kind)"
    and result: "if rv_status v = scan_status_as_str StatusCancelled
       then \<not> rv_complete v \<and> rv_candidates v = [] \<and> rv_matched_bytes_known v = 0
          \<and> rv_matched_bytes_unknown_files v = 0 \<and> RuleCancelled \<in> rf_code ` set (rv_refusals v)
       else rv_complete v = sr_complete rule_demo_report
          \<and> mset (map rc_target_path (rv_candidates v)) + mset (List.map_filter rf_path (rv_refusals v))
              = mset (map sn_path (filter (targeted kind) (sr_entries rule_demo_report)))
          \<and> unat (rv_matched_bytes_known v) = known_sum (rv_candidates v)
          \<and> unat (rv_matched_bytes_unknown_files v) = unknown_count (rv_candidates v)"
    using preview_answers_every_target [OF v(1) [unfolded rule_demo_run_def]] by blast
  have "rv_status v \<noteq> scan_status_as_str StatusCancelled" by (simp add: v(2))
  note result [unfolded if_not_P [OF this]]
  moreover have "mset (map sn_path (filter (targeted JavacClass) (sr_entries rule_demo_report)))
      = {#''/r/A.class'', ''/r/B.class''#}"
    by code_simp
  moreover have "kind = JavacClass" "sr_complete rule_demo_report"
    using kind by (simp_all add: builtin_rule_def cpython_rule_id_def javac_rule_id_def rule_demo_report_def)
  ultimately show ?thesis using v(1, 3) by (intro exI [of _ v] exI [of _ s]) (simp del: mset_map mset_filter)
qed

theorem candidates_are_supported_witness:
  "\<exists>v w l c. rule_demo_run javac_rule_id = (Inr v, w, l) \<and> rc_target_path c = ''/r/A.class''
     \<and> supported 501 [''/r''] (sr_entries rule_demo_report) l JavacClass c"
proof -
  obtain v w l c where v: "rule_demo_run javac_rule_id = (Inr v, w, l)" "c \<in> set (rv_candidates v)"
    "rc_target_path c = ''/r/A.class''"
    using rule_demo_results(2) by (auto simp: map_eq_Cons_conv)
  have "builtin_rule javac_rule_id = Some (javac_rule, JavacClass)" "sr_roots rule_demo_report = [''/r'']"
    "ev_euid rule_demo_os = 501"
    by (simp_all add: builtin_rule_def cpython_rule_id_def javac_rule_id_def rule_demo_report_def rule_demo_os_def)
  then show ?thesis
    using candidates_are_supported [OF v(1) [unfolded rule_demo_run_def] v(2)] v by auto
qed


end
