(* ===== verification/Admin_Bundle.thy ===== *)
theory Admin_Bundle
  imports Journal_Store
begin

text \<open>
  What an administrator-approved uninstall relies on below the engine: the admission of a
  root-owned bundle of \<open>/Applications\<close>, its observation at its place and in the user's Trash
  (\<open>platform-macos/src/trash/native.rs\<close> and \<open>trash.rs\<close>). The calls of the operating system are
  the fields of a record over the state \<open>'w\<close> of the outside world; Unicode's lower-case mapping
  (\<open>str::to_lowercase\<close>) is one of them.
\<close>

section \<open>The system\<close>

text \<open>\<open>std::fs::Metadata\<close>, as far as it is read.\<close>

record metadata =
  md_dev :: u64
  md_ino :: u64
  md_mode :: u32
  md_uid :: u32
  md_gid :: u32
  md_size :: u64
  md_flags :: u32
  md_mtime :: int
  md_mtime_nsec :: int

datatype entry_type = FileEntry | DirectoryEntry | LinkEntry | OtherEntry

text \<open>An entry of \<open>read_dir\<close>: its name, and what \<open>file_type\<close> returns for it.\<close>

record dir_entry =
  de_name :: bytes
  de_type :: "entry_type io_result"

text \<open>
  \<open>bo_lstat\<close> is \<open>symlink_metadata\<close>, \<open>bo_open_dir\<close> opens a directory without following a last
  link, \<open>bo_open_file\<close> is \<open>File::open\<close>. \<open>bo_getpath\<close> is the buffer \<open>F_GETPATH_NOFIRMLINK\<close> leaves,
  \<open>bo_listxattr\<close> the bytes \<open>flistxattr\<close> reports. \<open>bo_home\<close> is the directory the user database
  has for a user. \<open>bo_ids\<close> are the real and effective user, the real and effective group.
  \<open>bo_identifier\<close> is the bounded reader of a bundle's manifest and \<open>bo_running\<close> the list of the
  running processes with their executables (\<open>app_inventory.rs\<close>). \<open>bo_display\<close> is the \<open>Display\<close> of
  a path, \<open>bo_os_code\<close> is \<open>raw_os_error\<close>.
\<close>

datatype string_state = StPresent | StMissing | StNotString | StDuplicate | StTooLong

record string_field =
  fv_state :: string_state
  fv_value :: "bytes option"

record manifest_read =
  mr_identifier :: string_field
  mr_digest :: bytes
  mr_device :: u64
  mr_inode :: u64

record 'w bundle_os =
  bo_absolute :: "path \<Rightarrow> ('w, path) act"
  bo_lstat :: "path \<Rightarrow> ('w, metadata) act"
  bo_open_dir :: "path \<Rightarrow> ('w, fd) act"
  bo_open_file :: "path \<Rightarrow> ('w, fd) act"
  bo_fstat :: "fd \<Rightarrow> ('w, metadata) act"
  bo_fstatfs_flags :: "fd \<Rightarrow> ('w, u32) act"
  bo_getpath :: "fd \<Rightarrow> ('w, bytes) act"
  bo_listxattr :: "fd \<Rightarrow> ('w, bytes) act"
  bo_read_dir :: "path \<Rightarrow> ('w, dir_entry io_result list) act"
  bo_canonicalize :: "path \<Rightarrow> ('w, path) act"
  bo_running :: "('w, (u32 \<times> path) list) act"
  bo_identifier :: "path \<Rightarrow> ('w, bytes, manifest_read) eact"
  bo_home :: "u32 \<Rightarrow> 'w \<Rightarrow> bytes option \<times> 'w"
  bo_sleep :: "'w \<Rightarrow> unit \<times> 'w"
  bo_ids :: "u32 \<times> u32 \<times> u32 \<times> u32"
  bo_lowercase :: "bytes \<Rightarrow> bytes"
  bo_display :: "path \<Rightarrow> bytes"
  bo_os_code :: "io_error \<Rightarrow> 32 word option"

unbundle bit_operations_syntax

definition metadata_format :: "metadata \<Rightarrow> u32" where
  "metadata_format m = md_mode m AND 0xF000"

definition metadata_is_dir :: "metadata \<Rightarrow> bool" where
  "metadata_is_dir m \<longleftrightarrow> metadata_format m = 0x4000"

definition metadata_is_file :: "metadata \<Rightarrow> bool" where
  "metadata_is_file m \<longleftrightarrow> metadata_format m = 0x8000"

definition metadata_is_link :: "metadata \<Rightarrow> bool" where
  "metadata_is_link m \<longleftrightarrow> metadata_format m = 0xA000"

definition refused_io :: "bytes \<Rightarrow> io_error" where
  "refused_io m = Io PermissionDeniedKind m"

definition permit :: "bool \<Rightarrow> io_error \<Rightarrow> ('w, unit) act" where
  "permit b e = alift (ensure b e)"

section \<open>Paths\<close>

text \<open>\<open>Path::ancestors\<close>: the path itself comes first.\<close>

function path_ancestors :: "path \<Rightarrow> path list" where
  "path_ancestors p = p # (case parent p of None \<Rightarrow> [] | Some q \<Rightarrow> path_ancestors q)"
  by pat_completeness auto

termination
  by (relation "measure (\<lambda>p. length (components p))") (auto dest: parent_length)

declare path_ancestors.simps [simp del]

fun root_or_normal :: "component \<Rightarrow> bool" where
  "root_or_normal RootDir = True"
| "root_or_normal (Normal s) = True"
| "root_or_normal CurDir = False"
| "root_or_normal ParentDir = False"

definition unambiguous :: "path \<Rightarrow> bool" where
  "unambiguous p \<longleftrightarrow> is_absolute p \<and> CHR 0x00 \<notin> set p
     \<and> \<not> list_ex (\<lambda>part. part = ''.'' \<or> part = ''..'') (split_on CHR ''/'' p)
     \<and> \<not> double_slash p \<and> \<not> (1 < length p \<and> last p = CHR ''/'')
     \<and> list_all root_or_normal (components p)"

definition valid_path :: "path \<Rightarrow> unit io_result" where
  "valid_path p =
     (if 4096 < int (length p) then Inl (Io InvalidInput ''path exceeds 4096 bytes'')
      else if 64 < int (length (tl (path_ancestors p)))
      then Inl (Io InvalidInput ''path exceeds 64 ancestors'')
      else ensure (unambiguous p) (Io InvalidInput ''path must be absolute and unambiguous''))"

definition ascii_lower :: "char \<Rightarrow> char" where
  "ascii_lower c = (let n = (of_char c :: nat) in if 65 \<le> n \<and> n \<le> 90 then char_of (n + 32) else c)"

definition fold_case :: "'w bundle_os \<Rightarrow> bytes \<Rightarrow> bytes" where
  "fold_case os s = (if valid_utf8 s then bo_lowercase os s else map ascii_lower s)"

fun normal_parts :: "component list \<Rightarrow> bytes list option" where
  "normal_parts [] = Some []"
| "normal_parts (Normal s # cs) = map_option ((#) s) (normal_parts cs)"
| "normal_parts (_ # cs) = None"

definition is_applications_root :: "'w bundle_os \<Rightarrow> path \<Rightarrow> bool" where
  "is_applications_root os p =
     (case components p of
        RootDir # cs \<Rightarrow>
          (case map_option (map (fold_case os)) (normal_parts cs) of
             Some [only] \<Rightarrow> only = ''applications''
           | Some [system, volumes, data, applications] \<Rightarrow>
               system = ''system'' \<and> volumes = ''volumes'' \<and> data = ''data'' \<and> applications = ''applications''
           | _ \<Rightarrow> False)
      | _ \<Rightarrow> False)"

definition app_name :: "path \<Rightarrow> bool" where
  "app_name p =
     (case file_name p of None \<Rightarrow> False | Some name \<Rightarrow> valid_utf8 name \<and> str_ends_with name ''.app'')"

section \<open>Admission\<close>

definition ordinary_authority :: "'w bundle_os \<Rightarrow> u32 io_result" where
  "ordinary_authority os =
     (case bo_ids os of (uid, effective, gid, effective_gid) \<Rightarrow>
        if uid = 0 \<or> uid \<noteq> effective \<or> gid \<noteq> effective_gid
        then Inl (refused_io ''root or changed-user/group execution is unsupported'')
        else Inr uid)"

definition forbidden_bits :: "metadata \<Rightarrow> bool \<Rightarrow> u32" where
  "forbidden_bits m admin_group_ok = (if admin_group_ok \<and> md_gid m = 80 then 0xE02 else 0xE12)"

definition bundle_flags :: u32 where
  "bundle_flags = 0x1 OR 0x20 OR 0x40 OR 0x8000"

definition ancestor_flags :: u32 where
  "ancestor_flags = bundle_flags OR 0x80000 OR 0x100000"

definition admissible_ancestor :: "metadata \<Rightarrow> u32 \<Rightarrow> unit io_result" where
  "admissible_ancestor m uid =
     ensure (metadata_is_dir m \<and> md_mode m AND 0xE12 = 0 \<and> (md_uid m = uid \<or> md_uid m = 0)
         \<and> md_flags m AND NOT ancestor_flags = 0 \<and> md_ino m \<noteq> 0)
       (refused_io ''untrusted, writable, special, or dataless ancestor'')"

text \<open>\<open>admissible_shaped_ancestor\<close> of the shape \<open>Bundle\<close>.\<close>

definition admissible_bundle_ancestor :: "metadata \<Rightarrow> u32 \<Rightarrow> unit io_result" where
  "admissible_bundle_ancestor m uid =
     (if md_uid m = 0 \<and> md_gid m = 80 then
        ensure (metadata_is_dir m \<and> md_mode m AND forbidden_bits m True = 0
            \<and> md_flags m AND NOT ancestor_flags = 0 \<and> md_ino m \<noteq> 0)
          (refused_io ''untrusted, writable, special, or dataless ancestor'')
      else admissible_ancestor m uid)"

definition admissible_admin_bundle :: "metadata \<Rightarrow> unit io_result" where
  "admissible_admin_bundle m =
     ensure (metadata_is_dir m \<and> md_mode m AND forbidden_bits m True = 0 \<and> md_uid m = 0
         \<and> md_flags m AND NOT bundle_flags = 0 \<and> md_ino m \<noteq> 0)
       (refused_io ''requires an ordinary root-owned unprotected bundle directory'')"

text \<open>\<open>check_attribute_names\<close> in the phase \<open>AdminBundleSource\<close>.\<close>

definition attribute_allowed :: "bytes \<Rightarrow> bool" where
  "attribute_allowed name \<longleftrightarrow>
     name \<in> {''com.apple.quarantine'', ''com.apple.FinderInfo'', ''com.apple.provenance''}
     \<or> prefix ''com.apple.metadata:'' name \<or> name = ''com.apple.macl'' \<or> prefix ''com.apple.appstore.'' name"

definition check_attribute_names :: "bytes \<Rightarrow> unit io_result" where
  "check_attribute_names bs =
     ensure (list_all attribute_allowed (filter (\<lambda>name. name \<noteq> []) (split_on CHR 0x00 bs)))
       (refused_io ''unknown or cloud/resource-fork extended attributes'')"

definition inspect_attributes :: "'w bundle_os \<Rightarrow> fd \<Rightarrow> ('w, unit) act" where
  "inspect_attributes os f =
     abind (bo_listxattr os f) (\<lambda>bs.
       if 16384 < int (length bs)
       then afail (Io OtherKind ''native attribute list exceeds the inspection bound'')
       else alift (check_attribute_names bs))"

section \<open>Capture\<close>

definition manifest_path :: "path \<Rightarrow> path" where
  "manifest_path bundle = path_join (path_join bundle ''Contents'') ''Info.plist''"

definition bundle_manifest_identity :: "'w bundle_os \<Rightarrow> path \<Rightarrow> ('w, u64 \<times> u64) act" where
  "bundle_manifest_identity os bundle =
     amatch (bo_lstat os (manifest_path bundle)) (\<lambda>r. case r of
         Inl e \<Rightarrow> afail (case e of
             Io NotFoundKind _ \<Rightarrow> refused_io ''Contents/Info.plist is missing'' | _ \<Rightarrow> e)
       | Inr m \<Rightarrow>
           if \<not> metadata_is_file m
           then afail (refused_io ''Contents/Info.plist is not a regular file (links are not followed)'')
           else aret (md_dev m, md_ino m))"

definition physical_path :: "'w bundle_os \<Rightarrow> fd \<Rightarrow> ('w, path) act" where
  "physical_path os f =
     abind (bo_getpath os f) (\<lambda>buffer.
       if CHR 0x00 \<notin> set buffer then afail (refused_io ''physical path is not terminated'')
       else let p = takeWhile (\<lambda>c. c \<noteq> CHR 0x00) buffer in
         abind (alift (valid_path p)) (\<lambda>_. aret p))"

record admin_stamp =
  ad_device :: u64
  ad_inode :: u64
  ad_manifest :: "u64 \<times> u64"
  ad_bytes :: u64
  ad_modified :: "int \<times> int"

fun check_ancestors :: "'w bundle_os \<Rightarrow> path list \<Rightarrow> ('w, unit) act" where
  "check_ancestors os [] = aret ()"
| "check_ancestors os (p # ps) =
     abind (bo_lstat os p) (\<lambda>m.
     abind (alift (admissible_bundle_ancestor m (-1))) (\<lambda>_. check_ancestors os ps))"

definition parent_where :: "(path \<Rightarrow> bool) \<Rightarrow> path \<Rightarrow> path option" where
  "parent_where f p = (case parent p of None \<Rightarrow> None | Some q \<Rightarrow> if f q then Some q else None)"

definition stamp_bundle :: "'w bundle_os \<Rightarrow> path \<Rightarrow> path \<Rightarrow> ('w, admin_stamp) act" where
  "stamp_bundle os p up =
     abind (bo_open_dir os p) (\<lambda>f.
     abind (bo_fstat os f) (\<lambda>m.
     abind (alift (admissible_admin_bundle m)) (\<lambda>_.
     abind (bo_lstat os up) (\<lambda>above.
     abind (permit (md_dev m = md_dev above) (refused_io ''bundle is not on the /Applications volume'')) (\<lambda>_.
     abind (physical_path os f) (\<lambda>physical.
     abind (permit (parent_where (is_applications_root os) physical \<noteq> None)
       (refused_io ''bundle does not resolve directly inside /Applications'')) (\<lambda>_.
     abind (inspect_attributes os f) (\<lambda>_.
     abind (bundle_manifest_identity os p) (\<lambda>manifest.
     abind (permit (fst manifest = md_dev m) (refused_io ''Contents/Info.plist is on another volume'')) (\<lambda>_.
       aret \<lparr>ad_device = md_dev m, ad_inode = md_ino m, ad_manifest = manifest,
         ad_bytes = md_size m, ad_modified = (md_mtime m, md_mtime_nsec m)\<rparr>))))))))))"

definition admin_bundle_stamp :: "'w bundle_os \<Rightarrow> path \<Rightarrow> ('w, admin_stamp) act" where
  "admin_bundle_stamp os p =
     abind (alift (ordinary_authority os)) (\<lambda>_.
     abind (alift (valid_path p)) (\<lambda>_.
     abind (alift (ok_or (refused_io ''administrator removal is limited to apps directly in /Applications'')
       (parent_where (is_applications_root os) p))) (\<lambda>up.
     abind (permit (app_name p) (refused_io ''bundle directory name must end in .app'')) (\<lambda>_.
     abind (check_ancestors os (path_ancestors up)) (\<lambda>_. stamp_bundle os p up)))))"

section \<open>Observation\<close>

definition admin_bundle_present :: "'w bundle_os \<Rightarrow> path \<Rightarrow> admin_stamp \<Rightarrow> ('w, bool) act" where
  "admin_bundle_present os p captured =
     amatch (bo_lstat os p) (\<lambda>r. case r of
         Inl e \<Rightarrow> (case e of Io NotFoundKind _ \<Rightarrow> aret False | _ \<Rightarrow> afail e)
       | Inr m \<Rightarrow>
           if md_dev m = ad_device captured \<and> md_ino m = ad_inode captured
           then amatch (bundle_manifest_identity os p) (\<lambda>i. aret (i = Inr (ad_manifest captured)))
           else aret False)"

definition max_trash_entries :: nat where
  "max_trash_entries = 10000"

fun search_trash ::
  "'w bundle_os \<Rightarrow> admin_stamp \<Rightarrow> path \<Rightarrow> dir_entry io_result list \<Rightarrow> ('w, path option) act" where
  "search_trash os captured trash [] = aret None"
| "search_trash os captured trash (Inl _ # es) = search_trash os captured trash es"
| "search_trash os captured trash (Inr e # es) =
     (let p = path_join trash (de_name e) in
      abind (amatch (bo_lstat os p) (\<lambda>r. case r of
          Inl _ \<Rightarrow> aret False
        | Inr m \<Rightarrow>
            if metadata_is_dir m \<and> md_dev m = ad_device captured \<and> md_ino m = ad_inode captured
            then abind (bundle_manifest_identity os p) (\<lambda>i. aret (i = ad_manifest captured))
            else aret False)) (\<lambda>found.
        if found then aret (Some p) else search_trash os captured trash es))"

definition user_home :: "'w bundle_os \<Rightarrow> u32 \<Rightarrow> ('w, path) act" where
  "user_home os uid =
     abind (always (bo_home os uid)) (\<lambda>home.
       alift (ok_or (refused_io ''the user home directory is unknown'') home))"

definition find_admin_bundle_in_trash :: "'w bundle_os \<Rightarrow> admin_stamp \<Rightarrow> ('w, path option) act" where
  "find_admin_bundle_in_trash os captured =
     abind (alift (ordinary_authority os)) (\<lambda>uid.
     abind (user_home os uid) (\<lambda>home.
     let trash = path_join home ''.Trash'' in
     abind (bo_lstat os trash) (\<lambda>m.
     abind (permit (metadata_is_dir m \<and> md_uid m = uid)
       (refused_io ''the user Trash is not an ordinary user-owned folder'')) (\<lambda>_.
     abind (bo_read_dir os trash) (\<lambda>entries.
       search_trash os captured trash (take max_trash_entries entries))))))"

section \<open>Evidence\<close>

text \<open>\<open>AdminBundleEvidence\<close>: the stamp as the engine sees it.\<close>

record admin_evidence =
  ae_device :: u64
  ae_inode :: u64
  ae_manifest_device :: u64
  ae_manifest_inode :: u64
  ae_logical_bytes :: u64
  ae_modified :: "int \<times> int"

definition from_native :: "admin_stamp \<Rightarrow> admin_evidence" where
  "from_native s = \<lparr>ae_device = ad_device s, ae_inode = ad_inode s,
     ae_manifest_device = fst (ad_manifest s), ae_manifest_inode = snd (ad_manifest s),
     ae_logical_bytes = ad_bytes s, ae_modified = ad_modified s\<rparr>"

definition to_native :: "admin_evidence \<Rightarrow> admin_stamp" where
  "to_native e = \<lparr>ad_device = ae_device e, ad_inode = ae_inode e,
     ad_manifest = (ae_manifest_device e, ae_manifest_inode e),
     ad_bytes = ae_logical_bytes e, ad_modified = ae_modified e\<rparr>"

definition capture_evidence :: "'w bundle_os \<Rightarrow> path \<Rightarrow> ('w, admin_evidence) act" where
  "capture_evidence os p = abind (admin_bundle_stamp os p) (\<lambda>s. aret (from_native s))"

definition is_present_at :: "'w bundle_os \<Rightarrow> admin_evidence \<Rightarrow> path \<Rightarrow> ('w, bool) act" where
  "is_present_at os e p = admin_bundle_present os p (to_native e)"

definition find_in_user_trash :: "'w bundle_os \<Rightarrow> admin_evidence \<Rightarrow> ('w, path option) act" where
  "find_in_user_trash os e = find_admin_bundle_in_trash os (to_native e)"

end
