(* ===== verification/Uninstall_Preview.thy ===== *)
theory Uninstall_Preview
  imports Admin_Bundle
begin

text \<open>
  The read-only preview of the uninstallation of one application bundle
  (\<open>preview_bundle_uninstall\<close> of \<open>app_uninstall.rs\<close>): what is known of the bundle and every reason
  to refuse it. A preview never fails: a call that fails becomes a refusal, or leaves the running
  state unknown. The search for other copies of the bundle is not part of it.
\<close>

section \<open>Refusals\<close>

datatype uninstall_refusal_code = UrNotFound | UrNotDirectory | UrNotAppBundle | UrSymlinkBundle
  | UrMissingInfoPlist | UrInfoPlistNotRegularFile | UrSystemLocation | UrNonLocalVolume | UrRunning
  | UrVendorUninstaller | UrTrashPlanUnavailable | UrUnsupportedPlatform | UrInternal

fun uninstall_refusal_as_str :: "uninstall_refusal_code \<Rightarrow> bytes" where
  "uninstall_refusal_as_str UrNotFound = ''not_found''"
| "uninstall_refusal_as_str UrNotDirectory = ''not_directory''"
| "uninstall_refusal_as_str UrNotAppBundle = ''not_app_bundle''"
| "uninstall_refusal_as_str UrSymlinkBundle = ''symlink_bundle''"
| "uninstall_refusal_as_str UrMissingInfoPlist = ''missing_info_plist''"
| "uninstall_refusal_as_str UrInfoPlistNotRegularFile = ''info_plist_not_regular_file''"
| "uninstall_refusal_as_str UrSystemLocation = ''system_location''"
| "uninstall_refusal_as_str UrNonLocalVolume = ''non_local_volume''"
| "uninstall_refusal_as_str UrRunning = ''running''"
| "uninstall_refusal_as_str UrVendorUninstaller = ''vendor_uninstaller''"
| "uninstall_refusal_as_str UrTrashPlanUnavailable = ''trash_plan_unavailable''"
| "uninstall_refusal_as_str UrUnsupportedPlatform = ''unsupported_platform''"
| "uninstall_refusal_as_str UrInternal = ''internal_error''"

record uninstall_refusal =
  ur_code :: uninstall_refusal_code
  ur_message :: bytes
  ur_os_code :: "32 word option"

definition refusal_new :: "uninstall_refusal_code \<Rightarrow> bytes \<Rightarrow> uninstall_refusal" where
  "refusal_new c m = \<lparr>ur_code = c, ur_message = m, ur_os_code = None\<rparr>"

definition refusal_os :: "'w bundle_os \<Rightarrow> uninstall_refusal_code \<Rightarrow> bytes \<Rightarrow> io_error \<Rightarrow> uninstall_refusal" where
  "refusal_os os c m e = \<lparr>ur_code = c, ur_message = m @ io_text e, ur_os_code = bo_os_code os e\<rparr>"

section \<open>The preview\<close>

datatype running_observation = RoNotChecked | RoNotAttributable bytes | RoNotRunning
  | RoRunning "u32 list" | RoUnknown

record bundle_identity =
  bi_device :: u64
  bi_inode :: u64
  bi_logical_bytes :: u64
  bi_modified :: int

datatype copies_status = CoNotChecked | CoNotAttributable | CoUnsupportedPlatform | CoComplete
  | CoPartial | CoCancelled | CoFailed

record copy_evidence =
  cp_bundle_path :: path
  cp_observed_roots :: "path list"
  cp_running :: running_observation

record copies_evidence =
  co_status :: copies_status
  co_reason :: "bytes option"
  co_target_bundle_id :: "bytes option"
  co_requested_roots :: "path list"
  co_copies :: "copy_evidence list"
  co_scan_budget_sec :: "u64 option"
  co_inventory_budget_sec :: "u64 option"
  co_note :: bytes

record vendor_uninstaller =
  vu_name :: bytes
  vu_instruction :: bytes
  vu_source_url :: bytes
  vu_may_remove_user_data :: bool
  vu_authorization :: bytes
  vu_restart :: bytes

record uninstall_preview =
  un_bundle_path :: path
  un_display_name :: bytes
  un_identity :: "bundle_identity option"
  un_executables_observed :: "nat option"
  un_running :: running_observation
  un_copies :: copies_evidence
  un_vendor_uninstaller :: "vendor_uninstaller option"
  un_protections :: "bytes list"
  un_recovery :: bytes
  un_execution :: bytes
  un_refusals :: "uninstall_refusal list"

definition uninstall_refuse :: "uninstall_refusal \<Rightarrow> uninstall_preview \<Rightarrow> uninstall_preview" where
  "uninstall_refuse x v = v\<lparr>un_refusals := un_refusals v @ [x]\<rparr>"

definition copies_not_checked :: copies_evidence where
  "copies_not_checked = \<lparr>co_status = CoNotChecked, co_reason = Some ''no copies roots were given'',
     co_target_bundle_id = None, co_requested_roots = [], co_copies = [], co_scan_budget_sec = None,
     co_inventory_budget_sec = None,
     co_note = ''coexisting copies are evidence only: an uninstall moves exactly the named bundle and never touches, signals or cleans up after any other copy''\<rparr>"

definition protections :: "bytes list" where
  "protections = [
     ''related data, preferences, caches and credentials are never touched by this contract'',
     ''other copies of the same bundle ID are independent and never touched'',
     ''a running bundle is refused, never signaled or terminated'',
     ''no permanent deletion fallback exists after any failed Trash operation'',
     ''system locations (/System) are refused regardless of permissions'']"

text \<open>\<open>Path::file_stem\<close>: the name before its last dot, unless that dot is the first character.\<close>

definition file_stem :: "path \<Rightarrow> bytes option" where
  "file_stem p = map_option (\<lambda>n.
     case str_rfind n ''.'' of None \<Rightarrow> n | Some i \<Rightarrow> if i = 0 then n else take i n) (file_name p)"

definition base_preview :: "path \<Rightarrow> uninstall_preview" where
  "base_preview p = \<lparr>un_bundle_path = p,
     un_display_name = (case file_stem p of None \<Rightarrow> ''(unknown)''
       | Some s \<Rightarrow> if valid_utf8 s then s else ''(unknown)''),
     un_identity = None, un_executables_observed = None, un_running = RoNotChecked,
     un_copies = copies_not_checked, un_vendor_uninstaller = None, un_protections = protections,
     un_recovery = ''the bundle moves to the user Trash; recovery is Finder 'Put Back', with no programmatic restore'',
     un_execution = ''deferred_contract'', un_refusals = []\<rparr>"

definition can_execute :: "uninstall_preview \<Rightarrow> bool" where
  "can_execute v = False"

section \<open>Vendors\<close>

definition vendor_uninstaller_for_id :: "bytes \<Rightarrow> vendor_uninstaller option" where
  "vendor_uninstaller_for_id i =
     (if i = ''com.docker.docker'' then Some \<lparr>
        vu_name = ''Docker Desktop'',
        vu_instruction = ''Back up containers, images and volumes first. Use Docker Desktop > Troubleshoot > Uninstall, or follow Docker's documented Mac uninstaller; then move Docker.app to Trash as instructed by Docker. SayakaCleaner will not launch or replace that workflow.'',
        vu_source_url = ''https://docs.docker.com/desktop/uninstall/'',
        vu_may_remove_user_data = True,
        vu_authorization = ''Vendor workflow may request authorization; SayakaCleaner cannot perform it'',
        vu_restart = ''Not established by the cited Docker instructions; verify the vendor result''\<rparr>
      else None)"

record bundle_classification =
  bc_vendor :: "vendor_uninstaller option"
  bc_manifest_digest :: bytes
  bc_manifest_device :: u64
  bc_manifest_inode :: u64

fun identifier_of :: "string_field \<Rightarrow> (bytes, bytes) result" where
  "identifier_of f =
     (case (fv_state f, fv_value f) of
        (StPresent, Some i) \<Rightarrow> Inr i
      | (StMissing, _) \<Rightarrow> Inl ''bundle identifier is missing''
      | (StDuplicate, _) \<Rightarrow> Inl ''bundle identifier is duplicated''
      | (StNotString, _) \<Rightarrow> Inl ''bundle identifier is not a string''
      | (StTooLong, _) \<Rightarrow> Inl ''bundle identifier exceeds parser limit''
      | (StPresent, None) \<Rightarrow> Inl ''bundle identifier is unavailable'')"

definition classify_bundle_uninstaller ::
  "'w bundle_os \<Rightarrow> path \<Rightarrow> ('w, bytes, bundle_classification) eact" where
  "classify_bundle_uninstaller os bundle =
     abind (bo_identifier os bundle) (\<lambda>m.
     abind (alift (identifier_of (mr_identifier m))) (\<lambda>i.
       aret \<lparr>bc_vendor = vendor_uninstaller_for_id i, bc_manifest_digest = mr_digest m,
         bc_manifest_device = mr_device m, bc_manifest_inode = mr_inode m\<rparr>))"

section \<open>Running processes\<close>

text \<open>The executables of a directory: its entries that are regular files.\<close>

fun regular_entries ::
  "path \<Rightarrow> dir_entry io_result list \<Rightarrow> path list \<Rightarrow> (bytes \<times> io_error, path list) result" where
  "regular_entries d [] acc = Inr acc"
| "regular_entries d (Inl e # es) acc = Inl (''cannot read a Contents/MacOS entry: '', e)"
| "regular_entries d (Inr x # es) acc =
     (case de_type x of
        Inl e \<Rightarrow> Inl (''cannot inspect a Contents/MacOS entry: '', e)
      | Inr k \<Rightarrow> regular_entries d es (if k = FileEntry then acc @ [path_join d (de_name x)] else acc))"

text \<open>\<open>running_process_paths\<close> groups the processes by their executables.\<close>

definition running_pids :: "(u32 \<times> path) list \<Rightarrow> path \<Rightarrow> u32 list" where
  "running_pids ps p = map fst (filter (\<lambda>(pid, q). path_eq p q) ps)"

fun canonicalize_all :: "'w bundle_os \<Rightarrow> path list \<Rightarrow> ('w, path list) act" where
  "canonicalize_all os [] = aret []"
| "canonicalize_all os (p # ps) =
     abind (bo_canonicalize os p) (\<lambda>q. abind (canonicalize_all os ps) (\<lambda>qs. aret (q # qs)))"

definition attribute_running :: "'w bundle_os \<Rightarrow> path list \<Rightarrow> ('w, 'x, running_observation) eact" where
  "attribute_running os executables =
     (if executables = [] then aret (RoNotAttributable ''no regular executable observed'')
      else amatch (bo_running os) (\<lambda>r. case r of
          Inl _ \<Rightarrow> aret RoUnknown
        | Inr ps \<Rightarrow> amatch (canonicalize_all os executables) (\<lambda>c. case c of
            Inl _ \<Rightarrow> aret (RoNotAttributable ''executable path cannot be places'')
          | Inr places \<Rightarrow>
              let pids = remdups_adj (sort (concat (map (running_pids ps) places))) in
              aret (if pids = [] then RoNotRunning else RoRunning pids))))"

definition macos_directory :: "path \<Rightarrow> path" where
  "macos_directory bundle = path_join (path_join bundle ''Contents'') ''MacOS''"

definition bundle_running :: "'w bundle_os \<Rightarrow> path \<Rightarrow> ('w, 'x, running_observation) eact" where
  "bundle_running os bundle =
     amatch (bo_read_dir os (macos_directory bundle)) (\<lambda>r. case r of
         Inl (Io NotFoundKind _) \<Rightarrow> aret (RoNotAttributable ''no Contents/MacOS directory'')
       | Inl _ \<Rightarrow> aret RoUnknown
       | Inr entries \<Rightarrow>
           (case regular_entries (macos_directory bundle) entries [] of
              Inl _ \<Rightarrow> aret RoUnknown
            | Inr executables \<Rightarrow> attribute_running os executables))"

fun comma_list :: "bytes list \<Rightarrow> bytes" where
  "comma_list [] = []"
| "comma_list [s] = s"
| "comma_list (s # ss) = s @ '', '' @ comma_list ss"

definition pids_debug :: "u32 list \<Rightarrow> bytes" where
  "pids_debug ps = ''['' @ comma_list (map (\<lambda>p. decimal (unat p)) ps) @ '']''"

definition note_running :: "running_observation \<Rightarrow> uninstall_preview \<Rightarrow> uninstall_preview" where
  "note_running x v =
     (case x of
        RoRunning pids \<Rightarrow> uninstall_refuse (refusal_new UrRunning
          (''bundle executables are running (pids: '' @ pids_debug pids @ ''); refused, never signaled''))
          (v\<lparr>un_running := x\<rparr>)
      | _ \<Rightarrow> v\<lparr>un_running := x\<rparr>)"

definition observe_running ::
  "'w bundle_os \<Rightarrow> path \<Rightarrow> uninstall_preview \<Rightarrow> ('w, 'x, uninstall_preview) eact" where
  "observe_running os bundle v =
     amatch (bo_read_dir os (macos_directory bundle)) (\<lambda>r. case r of
         Inl (Io NotFoundKind _) \<Rightarrow>
           aret (v\<lparr>un_executables_observed := Some 0,
             un_running := RoNotAttributable ''no Contents/MacOS directory''\<rparr>)
       | Inl e \<Rightarrow> aret (uninstall_refuse (refusal_os os UrInternal ''cannot read Contents/MacOS: '' e)
             (v\<lparr>un_running := RoUnknown\<rparr>))
       | Inr entries \<Rightarrow>
           (case regular_entries (macos_directory bundle) entries [] of
              Inl (message, e) \<Rightarrow>
                aret (uninstall_refuse (refusal_os os UrInternal message e) (v\<lparr>un_running := RoUnknown\<rparr>))
            | Inr executables \<Rightarrow>
                abind (attribute_running os executables) (\<lambda>x.
                  aret (note_running x (v\<lparr>un_executables_observed := Some (length executables)\<rparr>)))))"

section \<open>The checks of a bundle directory\<close>

unbundle bit_operations_syntax

definition local_volume :: "'w bundle_os \<Rightarrow> path \<Rightarrow> ('w, bool) act" where
  "local_volume os p =
     abind (bo_open_file os p) (\<lambda>f.
     abind (bo_fstatfs_flags os f) (\<lambda>flags. aret (flags AND 4096 \<noteq> 0)))"

definition identity_of :: "metadata \<Rightarrow> bundle_identity" where
  "identity_of m = \<lparr>bi_device = md_dev m, bi_inode = md_ino m, bi_logical_bytes = md_size m,
     bi_modified = md_mtime m * 1000000000 + md_mtime_nsec m\<rparr>"

definition check_name :: "path \<Rightarrow> uninstall_preview \<Rightarrow> uninstall_preview" where
  "check_name p v =
     (if app_name p then v
      else uninstall_refuse (refusal_new UrNotAppBundle ''the directory name does not end in .app'') v)"

definition check_volume ::
  "'w bundle_os \<Rightarrow> path \<Rightarrow> uninstall_preview \<Rightarrow> ('w, 'x, uninstall_preview) eact" where
  "check_volume os p v =
     amatch (local_volume os p) (\<lambda>r. aret (case r of
         Inr True \<Rightarrow> v
       | Inr False \<Rightarrow> uninstall_refuse (refusal_new UrNonLocalVolume
           ''the bundle does not reside on a local volume'') v
       | Inl e \<Rightarrow> uninstall_refuse (refusal_os os UrInternal ''cannot verify the bundle volume: '' e) v))"

definition check_manifest ::
  "'w bundle_os \<Rightarrow> path \<Rightarrow> uninstall_preview \<Rightarrow> ('w, 'x, uninstall_preview) eact" where
  "check_manifest os p v =
     amatch (bo_lstat os (manifest_path p)) (\<lambda>r. aret (case r of
         Inr m \<Rightarrow>
           if metadata_is_file m then v
           else uninstall_refuse (refusal_new UrInfoPlistNotRegularFile
             ''Contents/Info.plist is not a regular file (links are not followed)'') v
       | Inl (Io NotFoundKind _) \<Rightarrow>
           uninstall_refuse (refusal_new UrMissingInfoPlist ''Contents/Info.plist is missing'') v
       | Inl e \<Rightarrow> uninstall_refuse (refusal_os os UrInternal ''cannot inspect Contents/Info.plist: '' e) v))"

definition refuse_vendor :: "uninstall_preview \<Rightarrow> uninstall_preview" where
  "refuse_vendor v =
     (case un_vendor_uninstaller v of
        None \<Rightarrow> v
      | Some u \<Rightarrow> uninstall_refuse (refusal_new UrVendorUninstaller
          (vu_name u @ '' has a documented vendor uninstaller; use that workflow'')) v)"

definition check_vendor ::
  "'w bundle_os \<Rightarrow> path \<Rightarrow> uninstall_preview \<Rightarrow> ('w, 'x, uninstall_preview) eact" where
  "check_vendor os p v =
     amatch (classify_bundle_uninstaller os p) (\<lambda>r. aret (refuse_vendor (case r of
         Inr c \<Rightarrow> v\<lparr>un_vendor_uninstaller := bc_vendor c\<rparr>
       | Inl reason \<Rightarrow> uninstall_refuse (refusal_new UrInternal
           (''vendor workflow cannot be classified: '' @ reason)) v)))"

definition preview_directory ::
  "'w bundle_os \<Rightarrow> path \<Rightarrow> metadata \<Rightarrow> uninstall_preview \<Rightarrow> ('w, 'x, uninstall_preview) eact" where
  "preview_directory os p m v =
     abind (check_volume os p ((check_name p v)\<lparr>un_identity := Some (identity_of m)\<rparr>)) (\<lambda>v1.
     abind (check_manifest os p v1) (\<lambda>v2.
     abind (check_vendor os p v2) (\<lambda>v3. observe_running os p v3)))"

definition preview_absolute :: "'w bundle_os \<Rightarrow> path \<Rightarrow> ('w, 'x, uninstall_preview) eact" where
  "preview_absolute os p =
     (let v = base_preview p in
      if starts_with p ''/System''
      then aret (uninstall_refuse (refusal_new UrSystemLocation
        ''system locations are never uninstall targets'') v)
      else amatch (bo_lstat os p) (\<lambda>r. case r of
          Inl e \<Rightarrow> aret (uninstall_refuse (refusal_os os
            (case e of Io NotFoundKind _ \<Rightarrow> UrNotFound | _ \<Rightarrow> UrInternal)
            (''cannot inspect '' @ bo_display os p @ '': '') e) v)
        | Inr m \<Rightarrow>
            if metadata_is_link m then aret (uninstall_refuse (refusal_new UrSymlinkBundle
              ''the bundle path itself is a symbolic link and is never followed'') v)
            else if \<not> metadata_is_dir m then aret (uninstall_refuse (refusal_new UrNotDirectory
              ''the bundle path is not a directory'') v)
            else preview_directory os p m v))"

definition preview_bundle_uninstall :: "'w bundle_os \<Rightarrow> path \<Rightarrow> ('w, 'x, uninstall_preview) eact" where
  "preview_bundle_uninstall os bundle =
     amatch (bo_absolute os bundle) (\<lambda>r.
       preview_absolute os (case r of Inr p \<Rightarrow> p | Inl _ \<Rightarrow> bundle))"

end
