(* ===== verification/Delegated_Move.thy ===== *)
theory Delegated_Move
  imports Uninstall_Preview
begin

text \<open>
  The uninstallation of a root-owned bundle by Finder (\<open>admin_uninstall.rs\<close>): the engine admits
  the bundle, publishes a durable intent, and after Finder's answer decides the outcome by
  observation and publishes it. Finder itself is outside; its answer is a parameter.
\<close>

datatype delegate_status = DsReported | DsCancelled | DsError

definition delegate_status_from_code :: "32 word \<Rightarrow> delegate_status option" where
  "delegate_status_from_code c =
     (if c = 0 then Some DsReported else if c = 1 then Some DsCancelled
      else if c = 2 then Some DsError else None)"

definition classify_move :: "bool option \<Rightarrow> bool \<Rightarrow> delegate_status \<Rightarrow> item_state \<times> bytes" where
  "classify_move original_present in_trash status =
     (case (original_present, in_trash) of
        (Some True, False) \<Rightarrow>
          (case status of
             DsReported \<Rightarrow> (ItemUnknown, ''not_moved_despite_reported_success'')
           | DsCancelled \<Rightarrow> (ItemFailed, ''cancelled_by_user'')
           | DsError \<Rightarrow> (ItemFailed, ''delegate_error''))
      | (Some False, True) \<Rightarrow> (ItemSucceeded, ''moved_to_trash_by_finder'')
      | _ \<Rightarrow> (ItemUnknown, ''delegated_outcome_unverified''))"

section \<open>Admission\<close>

definition admin_evidence_of ::
  "'w bundle_os \<Rightarrow> uninstall_preview \<Rightarrow> 'w \<Rightarrow> admin_evidence option \<times> 'w" where
  "admin_evidence_of os v w =
     (if un_refusals v \<noteq> [] then (None, w)
      else case un_identity v of
        None \<Rightarrow> (None, w)
      | Some i \<Rightarrow>
          (case capture_evidence os (un_bundle_path v) w of
             (Inl _, w') \<Rightarrow> (None, w')
           | (Inr e, w') \<Rightarrow>
               (if ae_device e = bi_device i \<and> ae_inode e = bi_inode i then Some e else None, w')))"

section \<open>The intent\<close>

definition le_bytes :: "u64 \<Rightarrow> bytes" where
  "le_bytes x = map (\<lambda>i. char_of (uint x div 256 ^ i mod 256)) [0..<8]"

definition plan_digest :: "'w store_os \<Rightarrow> path \<Rightarrow> admin_evidence \<Rightarrow> bytes" where
  "plan_digest so bundle e =
     encode_hex (js_digest so (le_bytes (of_nat (length bundle)) @ bundle
       @ concat (map le_bytes [ae_device e, ae_inode e, ae_manifest_device e, ae_manifest_inode e])))"

definition identity_fields :: "admin_evidence \<Rightarrow> u64 \<times> u64 \<times> u64 \<times> u64" where
  "identity_fields e = (ae_device e, ae_inode e, ae_manifest_device e, ae_manifest_inode e)"

definition intent_item :: "'w store_os \<Rightarrow> path \<Rightarrow> admin_evidence \<Rightarrow> u64 \<Rightarrow> item_record" where
  "intent_item so bundle e now = \<lparr>
     it_path = native_from_path (js_dbg so) bundle, it_device = ae_device e, it_inode = ae_inode e,
     it_logical_bytes = ae_logical_bytes e, it_state = ItemStarted,
     it_reason = Some ''awaiting_finder_after_administrator_approval'', it_destination = None,
     it_rule_binding = None, it_recovery_evidence = None, it_updated_unix_ms = now\<rparr>"

definition intent_record ::
  "'w store_os \<Rightarrow> path \<Rightarrow> admin_evidence \<Rightarrow> bytes \<Rightarrow> u64 \<Rightarrow> journal_record" where
  "intent_record so bundle e oid now = \<lparr>
     jr_schema_version = 7, jr_plan_schema_version = 7, jr_engine_version = 2, jr_rules_version = 1,
     jr_operation_id = oid, jr_contract = ''system_delegated_trash_v1'',
     jr_scope = native_from_path (js_dbg so) (case parent bundle of None \<Rightarrow> ''/'' | Some up \<Rightarrow> up),
     jr_clean_policy = None, jr_tool_operation = None, jr_related_context = None,
     jr_orphan_context = None,
     jr_delegation = Some \<lparr>dl_schema_version = 1,
       dl_performer = ''finder_after_administrator_approval'',
       dl_plan_digest = plan_digest so bundle e, dl_manifest_device = ae_manifest_device e,
       dl_manifest_inode = ae_manifest_inode e\<rparr>,
     jr_empty_trash_context = None, jr_runtime_context = None, jr_created_unix_ms = now,
     jr_items = [intent_item so bundle e now]\<rparr>"

text \<open>
  A refusal is a message; a panic is not caught by \<open>map_err\<close>.
\<close>

datatype begin_error = BeMessage bytes | BePanic

definition to_message :: "bytes \<Rightarrow> io_error \<Rightarrow> begin_error" where
  "to_message before e = (case e of Io k m \<Rightarrow> BeMessage (before @ m) | Panicked \<Rightarrow> BePanic)"

definition or_message :: "bytes \<Rightarrow> ('w, 'a) act \<Rightarrow> ('w, begin_error, 'a) eact" where
  "or_message before m =
     amatch m (\<lambda>r. case r of Inl e \<Rightarrow> afail (to_message before e) | Inr a \<Rightarrow> aret a)"

record delegated_move =
  dm_bundle :: path
  dm_evidence :: admin_evidence
  dm_store :: store
  dm_report :: exec_report

definition handed_over :: bytes where
  "handed_over = ''journal unavailable; nothing was handed to Finder: ''"

definition publish_clean ::
  "'w store_os \<Rightarrow> store \<Rightarrow> journal_record \<Rightarrow> bool \<Rightarrow> ('w, unit) act" where
  "publish_clean so s r initial = abind (publish so s r initial) (\<lambda>pub. alift (require_clean pub))"

text \<open>The observation right before the hand-off, and the intent.\<close>

definition admit_again ::
  "'w bundle_os \<Rightarrow> path \<Rightarrow> admin_evidence \<Rightarrow> ('w, begin_error, admin_evidence) eact" where
  "admit_again os bundle captured =
     abind (or_message [] (capture_evidence os bundle)) (\<lambda>fresh.
       if identity_fields fresh \<noteq> identity_fields captured
       then afail (BeMessage ''the app changed since it was previewed'')
       else abind (preview_bundle_uninstall os bundle) (\<lambda>v.
         case un_refusals v of
           [] \<Rightarrow> aret fresh
         | x # _ \<Rightarrow> afail (BeMessage (ur_message x))))"

definition write_intent ::
  "'w store_os \<Rightarrow> path \<Rightarrow> store \<Rightarrow> admin_evidence \<Rightarrow> bytes \<Rightarrow> u64 \<Rightarrow> ('w, begin_error, delegated_move) eact" where
  "write_intent so bundle s fresh oid now =
     (let r = intent_record so bundle fresh oid now in
      abind (or_message handed_over (publish_clean so s r True)) (\<lambda>_.
        aret \<lparr>dm_bundle = bundle, dm_evidence = fresh, dm_store = s,
          dm_report = \<lparr>er_record = r, er_journal_error = None\<rparr>\<rparr>))"

definition begin_move ::
  "'w bundle_os \<Rightarrow> 'w store_os \<Rightarrow> path \<Rightarrow> admin_evidence \<Rightarrow> store \<Rightarrow> ('w, begin_error, delegated_move) eact" where
  "begin_move os so bundle captured s =
     abind (admit_again os bundle captured) (\<lambda>fresh.
     abind (or_message [] (store_now_ms so)) (\<lambda>now.
     abind (or_message [] (store_new_id so s)) (\<lambda>oid.
       write_intent so bundle s fresh oid now)))"

section \<open>The outcome\<close>

definition settle_attempts :: nat where
  "settle_attempts = 10"

text \<open>\<open>.ok()\<close>\<close>

definition ok_of :: "('w, 'a) act \<Rightarrow> 'w \<Rightarrow> 'a option \<times> 'w" where
  "ok_of m w = (case m w of (Inl _, w') \<Rightarrow> (None, w') | (Inr a, w') \<Rightarrow> (Some a, w'))"

definition observe_present :: "'w bundle_os \<Rightarrow> delegated_move \<Rightarrow> 'w \<Rightarrow> bool option \<times> 'w" where
  "observe_present os d = ok_of (is_present_at os (dm_evidence d) (dm_bundle d))"

fun settle ::
  "'w bundle_os \<Rightarrow> delegated_move \<Rightarrow> delegate_status \<Rightarrow> nat \<Rightarrow> bool option \<Rightarrow> 'w \<Rightarrow> bool option \<times> 'w" where
  "settle os d status 0 present w = (present, w)"
| "settle os d status (Suc n) present w =
     (if \<not> (present = Some True \<and> status = DsReported) then (present, w)
      else case bo_sleep os w of (_, w1) \<Rightarrow>
        (case observe_present os d w1 of (present', w2) \<Rightarrow> settle os d status n present' w2))"

definition locate :: "'w bundle_os \<Rightarrow> delegated_move \<Rightarrow> bool option \<Rightarrow> 'w \<Rightarrow> path option \<times> 'w" where
  "locate os d present w =
     (if present = Some False
      then case ok_of (find_in_user_trash os (dm_evidence d)) w of
        (found, w') \<Rightarrow> (Option.bind found (\<lambda>p. p), w')
      else (None, w))"

text \<open>The item is changed in place, so nothing else of the record is.\<close>

definition settled_item ::
  "(bytes \<Rightarrow> bytes) \<Rightarrow> bool option \<Rightarrow> path option \<Rightarrow> delegate_status \<Rightarrow> u64 option \<Rightarrow> item_record \<Rightarrow> item_record" where
  "settled_item dbg present destination status now i =
     (case classify_move present (destination \<noteq> None) status of (state, reason) \<Rightarrow>
        i\<lparr>it_state := state, it_reason := Some reason,
          it_destination := (if state = ItemSucceeded then map_option (native_from_path dbg) destination else None),
          it_updated_unix_ms := (case now of None \<Rightarrow> it_updated_unix_ms i | Some t \<Rightarrow> t)\<rparr>)"

definition settled_record ::
  "(bytes \<Rightarrow> bytes) \<Rightarrow> bool option \<Rightarrow> path option \<Rightarrow> delegate_status \<Rightarrow> u64 option \<Rightarrow> journal_record \<Rightarrow> journal_record" where
  "settled_record dbg present destination status now r =
     r\<lparr>jr_items := (case jr_items r of [] \<Rightarrow> []
        | i # is \<Rightarrow> settled_item dbg present destination status now i # is)\<rparr>"

text \<open>The outcome is published; a failure is part of the report.\<close>

definition publish_outcome ::
  "'w store_os \<Rightarrow> delegated_move \<Rightarrow> exec_report \<Rightarrow> ('w, exec_report) act" where
  "publish_outcome so d report =
     amatch (publish_clean so (dm_store d) (er_record report) False) (\<lambda>r. case r of
         Inr _ \<Rightarrow> aret report
       | Inl Panicked \<Rightarrow> afail Panicked
       | Inl (Io k m) \<Rightarrow> aret (report\<lparr>er_journal_error := Some m\<rparr>))"

definition finish_move ::
  "'w bundle_os \<Rightarrow> 'w store_os \<Rightarrow> delegated_move \<Rightarrow> delegate_status \<Rightarrow> ('w, exec_report) act" where
  "finish_move os so d status w =
     (case observe_present os d w of (first, w1) \<Rightarrow>
      case settle os d status settle_attempts first w1 of (present, w2) \<Rightarrow>
      case locate os d present w2 of (destination, w3) \<Rightarrow>
      (let report = dm_report d in
       if jr_items (er_record report) = [] then (Inl Panicked, w3)
       else case ok_of (store_now_ms so) w3 of (now, w4) \<Rightarrow>
         publish_outcome so d (report\<lparr>er_record :=
           settled_record (js_dbg so) present destination status now (er_record report)\<rparr>) w4))"

end
