(* ===== verification/Delegated_Protocol.thy ===== *)
theory Delegated_Protocol
  imports Delegated_Move Journal_Store_Crash
begin

text \<open>
  The delegated move observed. \<open>passing_bundle\<close> and \<open>passing_store\<close> run beside a log without writing
  to it; \<open>logged_bundle\<close> keeps what \<open>symlink_metadata\<close> returned and the waits. Up to its
  publication the move only reads the journal (\<open>reads\<close>).
\<close>

section \<open>Worlds with a log\<close>

definition passing_bundle :: "'w bundle_os \<Rightarrow> ('w \<times> 'e list) bundle_os" where
  "passing_bundle os = \<lparr>
     bo_absolute = (\<lambda>p. pass (bo_absolute os p)), bo_lstat = (\<lambda>p. pass (bo_lstat os p)),
     bo_open_dir = (\<lambda>p. pass (bo_open_dir os p)), bo_open_file = (\<lambda>p. pass (bo_open_file os p)),
     bo_fstat = (\<lambda>f. pass (bo_fstat os f)), bo_fstatfs_flags = (\<lambda>f. pass (bo_fstatfs_flags os f)),
     bo_getpath = (\<lambda>f. pass (bo_getpath os f)), bo_listxattr = (\<lambda>f. pass (bo_listxattr os f)),
     bo_read_dir = (\<lambda>p. pass (bo_read_dir os p)), bo_canonicalize = (\<lambda>p. pass (bo_canonicalize os p)),
     bo_running = pass (bo_running os), bo_identifier = (\<lambda>p. pass (bo_identifier os p)),
     bo_home = (\<lambda>u. pass (bo_home os u)), bo_sleep = pass (bo_sleep os),
     bo_ids = bo_ids os, bo_lowercase = bo_lowercase os, bo_display = bo_display os,
     bo_os_code = bo_os_code os\<rparr>"

datatype bundle_event = SeenAs path "metadata io_result" | Waited

definition logged_bundle :: "'w bundle_os \<Rightarrow> ('w \<times> bundle_event list) bundle_os" where
  "logged_bundle os = (passing_bundle os)\<lparr>
     bo_lstat := (\<lambda>p. noted (SeenAs p) (bo_lstat os p)),
     bo_sleep := noted (\<lambda>_. Waited) (bo_sleep os)\<rparr>"

definition passing_store :: "'w store_os \<Rightarrow> ('w \<times> 'e list) store_os" where
  "passing_store os = \<lparr>
     js_open_dir = (\<lambda>p. pass (js_open_dir os p)), js_mkdirat = (\<lambda>d n. pass (js_mkdirat os d n)),
     js_fstat = (\<lambda>f. pass (js_fstat os f)), js_fstatfs_flags = (\<lambda>f. pass (js_fstatfs_flags os f)),
     js_statat = (\<lambda>d n. pass (js_statat os d n)), js_has_acl = (\<lambda>f. pass (js_has_acl os f)),
     js_openat_lock = (\<lambda>d c. pass (js_openat_lock os d c)), js_flock = (\<lambda>f. pass (js_flock os f)),
     js_drop = (\<lambda>f s. (js_drop os f (fst s), snd s)),
     js_openat_new = (\<lambda>d n. pass (js_openat_new os d n)),
     js_openat_read = (\<lambda>d n. pass (js_openat_read os d n)), js_list = (\<lambda>d. pass (js_list os d)),
     js_read = (\<lambda>f n. pass (js_read os f n)), js_write_all = (\<lambda>f bs. pass (js_write_all os f bs)),
     js_full_sync = (\<lambda>f. pass (js_full_sync os f)), js_fsync = (\<lambda>f. pass (js_fsync os f)),
     js_renameat = (\<lambda>d a b. pass (js_renameat os d a b)), js_unlinkat = (\<lambda>d n. pass (js_unlinkat os d n)),
     js_wall = pass (js_wall os), js_instant = pass (js_instant os), js_next_id = pass (js_next_id os),
     js_pid = js_pid os, js_euid = js_euid os, js_parse = js_parse os, js_print = js_print os,
     js_digest = js_digest os, js_dbg = js_dbg os\<rparr>"

section \<open>Nothing is logged by what passes\<close>

lemma quiet_passing_bundle [quiet_intros]:
  "quiet (bo_absolute (passing_bundle os) p)" "quiet (bo_lstat (passing_bundle os) p)"
  "quiet (bo_open_dir (passing_bundle os) p)" "quiet (bo_open_file (passing_bundle os) p)"
  "quiet (bo_fstat (passing_bundle os) f)" "quiet (bo_fstatfs_flags (passing_bundle os) f)"
  "quiet (bo_getpath (passing_bundle os) f)" "quiet (bo_listxattr (passing_bundle os) f)"
  "quiet (bo_read_dir (passing_bundle os) p)" "quiet (bo_canonicalize (passing_bundle os) p)"
  "quiet (bo_running (passing_bundle os))" "quiet (bo_identifier (passing_bundle os) p)"
  by (simp_all add: passing_bundle_def quiet_pass)

lemma quiet_check_ancestors [quiet_intros]: "quiet (check_ancestors (passing_bundle os) ps)"
  by (induction ps) (simp_all only: check_ancestors.simps quiet_intros)

lemma quiet_canonicalize_all [quiet_intros]: "quiet (canonicalize_all (passing_bundle os) ps)"
  by (induction ps) (simp_all only: canonicalize_all.simps quiet_intros)

lemma quiet_io_kind [quiet_intros]:
  "quiet m \<Longrightarrow> (\<And>e. quiet (n e)) \<Longrightarrow> quiet (case e of Io k s \<Rightarrow> (case k of NotFoundKind \<Rightarrow> m | _ \<Rightarrow> n e) | Panicked \<Rightarrow> n e)"
  by (auto split: io_error.split io_kind.split)

lemma quiet_or_message [quiet_intros]: "quiet m \<Longrightarrow> quiet (or_message b m)"
  unfolding or_message_def by (intro quiet_intros)

lemma quiet_capture [quiet_intros]: "quiet (capture_evidence (passing_bundle os) p)"
  unfolding capture_evidence_def admin_bundle_stamp_def stamp_bundle_def permit_def
    physical_path_def inspect_attributes_def bundle_manifest_identity_def Let_def
  by (intro quiet_intros)

lemma quiet_attribute_running [quiet_intros]: "quiet (attribute_running (passing_bundle os) ps)"
  unfolding attribute_running_def Let_def by (intro quiet_intros)

lemma quiet_observe_running [quiet_intros]: "quiet (observe_running (passing_bundle os) p v)"
  unfolding observe_running_def
  by (intro quiet_intros) (auto split: io_error.split io_kind.split intro: quiet_intros)

lemma quiet_preview [quiet_intros]: "quiet (preview_bundle_uninstall (passing_bundle os) p)"
  unfolding preview_bundle_uninstall_def preview_absolute_def preview_directory_def check_volume_def
    check_manifest_def check_vendor_def local_volume_def classify_bundle_uninstaller_def Let_def
  by (intro quiet_intros)

lemma quiet_admit_again: "quiet (admit_again (passing_bundle os) p e)"
  unfolding admit_again_def by (intro quiet_intros) (auto split: list.split intro: quiet_intros)

section \<open>Reading the journal\<close>

fun store_read :: "store_event \<Rightarrow> bool" where
  "store_read (SeRead f n r) = True"
| "store_read _ = False"

definition read_step :: "unit \<Rightarrow> store_event \<Rightarrow> unit option" where
  "read_step ph ev = (if store_read ev then Some () else None)"

abbreviation reads :: "('w \<times> store_event list, 'x, 'a) eact \<Rightarrow> bool" where
  "reads m \<equiv> leads read_step () () m (\<lambda>_ _. True)"

named_theorems reads_intros \<open>actions that only read the journal\<close>

lemma reads_quiet: "quiet m \<Longrightarrow> reads m"
  by (rule leads_quiet) simp_all

lemma reads_read [reads_intros]: "reads (js_read (logged_store os) f n)"
  unfolding logged_store_calls by (rule leads_noted [where after = "\<lambda>_. ()"]) (simp_all add: read_step_def)

lemma reads_abind [reads_intros]: "reads m \<Longrightarrow> (\<And>a. reads (f a)) \<Longrightarrow> reads (abind m f)"
  by (rule leads_abind) auto

lemma reads_amatch [reads_intros]: "reads m \<Longrightarrow> (\<And>r. reads (f r)) \<Longrightarrow> reads (amatch m f)"
  by (rule leads_amatch) auto

lemma reads_if [reads_intros]: "reads m \<Longrightarrow> reads n \<Longrightarrow> reads (if b then m else n)"
  by simp

lemma reads_case_prod [reads_intros]: "(\<And>a b. reads (f a b)) \<Longrightarrow> reads (case x of (a, b) \<Rightarrow> f a b)"
  by (cases x) auto

lemma reads_read_record [reads_intros]: "reads (read_record (logged_store os) s n)"
  unfolding read_record_def by (intro reads_intros | rule reads_quiet, (intro quiet_intros)[1])+

lemma reads_read_named [reads_intros]: "reads (read_named (logged_store os) s used m)"
proof (induction m arbitrary: used)
  case Nil
  show ?case by (simp only: read_named.simps) (rule reads_quiet, rule quiet_aret)
next
  case (Cons x m)
  then show ?case
    by (cases x) (simp only: read_named.simps, (intro reads_intros | assumption | rule reads_quiet, (intro quiet_intros)[1])+)
qed

lemma quiet_store_others [quiet_intros]:
  "quiet (js_list (logged_store os) d)" "quiet (always (js_wall (logged_store os)))"
  "quiet (always (js_next_id (logged_store os)))"
  by (auto simp: logged_store_def quiet_pass quiet_def always_def pass_def split: prod.splits)

lemma quiet_store_now [quiet_intros]: "quiet (store_now_ms (logged_store os))"
  unfolding store_now_ms_def by (intro quiet_intros)

lemma reads_store_records [reads_intros]: "reads (store_records (logged_store os) s)"
  unfolding store_records_def by (intro reads_intros | rule reads_quiet, (intro quiet_intros)[1])+

lemma reads_new_id [reads_intros]: "reads (store_new_id (logged_store os) s)"
  unfolding store_new_id_def fresh_id_def
  by (intro reads_intros | rule reads_quiet, (intro quiet_intros)[1])+

lemma reads_or_message [reads_intros]: "reads m \<Longrightarrow> reads (or_message b m)"
  unfolding or_message_def
  by (intro reads_intros | assumption | rule reads_quiet, (intro quiet_intros)[1])+

lemma reads_all: "trace_run read_step () l = Some ph \<longleftrightarrow> list_all store_read l"
  by (induction l) (auto simp: read_step_def)

lemma reads_run: "reads m \<Longrightarrow> list_all store_read l \<Longrightarrow> m (w, l) = (r, w', l') \<Longrightarrow> list_all store_read l'"
  using leadsD reads_all by metis

lemma disk_after_reads: "list_all store_read l \<Longrightarrow> disk_after d k (l @ l') = disk_after d k l'"
proof (induction l)
  case (Cons ev l)
  then show ?case by (cases ev) (simp_all add: disk_after_def)
qed (simp add: disk_after_def)

section \<open>A publication only adds to the log\<close>

lemma appends_pass [appends_intros]: "appends (pass f)"
  by (rule appendsI) (auto simp: pass_def split: prod.splits)

lemma appends_logged_store [appends_intros]:
  "appends (js_open_dir (logged_store os) p)" "appends (js_fstat (logged_store os) f)"
  "appends (js_statat (logged_store os) d n)" "appends (js_has_acl (logged_store os) f)"
  "appends (js_openat_read (logged_store os) d n)" "appends (js_openat_new (logged_store os) d n)"
  "appends (js_read (logged_store os) f k)" "appends (js_write_all (logged_store os) f bs)"
  "appends (js_full_sync (logged_store os) f)" "appends (js_fsync (logged_store os) f)"
  "appends (js_renameat (logged_store os) d a b)" "appends (js_unlinkat (logged_store os) d n)"
  unfolding logged_store_def by (simp_all add: appends_noted appends_pass)

lemma appends_store_checks [appends_intros]:
  "appends (check_acl (logged_store os) f)" "appends (check_file (logged_store os) f)"
  "appends (unchanged (logged_store os) s)"
  unfolding check_acl_def check_file_def unchanged_def by (intro appends_intros)+

lemma appends_snapshot [appends_intros]: "appends (write_snapshot (logged_store os) s n r)"
  unfolding write_snapshot_def by (intro appends_intros)

lemma appends_read_record [appends_intros]: "appends (read_record (logged_store os) s n)"
  unfolding read_record_def by (intro appends_intros)

lemma appends_previous [appends_intros]: "appends (previous_record (logged_store os) s n initial)"
  unfolding previous_record_def
  by (intro appends_intros) (auto split: io_error.split io_kind.split intro: appends_intros)

lemma appends_publish [appends_intros]: "appends (publish (logged_store os) s r initial)"
  unfolding publish_def publish_with_def remove_marker_def Let_def by (intro appends_intros)

end
