(* ===== verification/Delegated_Results.thy ===== *)
theory Delegated_Results
  imports Delegated_Protocol Journal_Store_Records
begin

text \<open>
  What a delegated move did before it returned: the parts of its log, what was observed of the
  bundle, and that the records it writes are acceptable.
\<close>

section \<open>The hand-over\<close>

lemma intent_record_logged [simp]: "intent_record (logged_store so) = intent_record so"
  by (simp add: fun_eq_iff intent_record_def intent_item_def plan_digest_def)

lemma appends_or_message [appends_intros]: "appends m \<Longrightarrow> appends (or_message b m)"
  unfolding or_message_def by (intro appends_intros)

lemma appends_publish_clean [appends_intros]: "appends (publish_clean (logged_store so) s r initial)"
  unfolding publish_clean_def by (intro appends_intros)

definition prepared ::
  "'w bundle_os \<Rightarrow> 'w store_os \<Rightarrow> path \<Rightarrow> admin_evidence \<Rightarrow> store \<Rightarrow> ('w, begin_error, admin_evidence \<times> u64 \<times> bytes) eact" where
  "prepared os so bundle captured s =
     abind (admit_again os bundle captured) (\<lambda>fresh.
     abind (or_message [] (store_now_ms so)) (\<lambda>now.
     abind (or_message [] (store_new_id so s)) (\<lambda>oid. aret (fresh, now, oid))))"

lemma begin_prepared:
  "begin_move os so bundle captured s =
     abind (prepared os so bundle captured s) (\<lambda>(fresh, now, oid). write_intent so bundle s fresh oid now)"
  by (simp add: begin_move_def prepared_def monad_laws)

lemma reads_prepared: "reads (prepared (passing_bundle os) (logged_store so) bundle captured s)"
  unfolding prepared_def
  by (intro reads_intros | rule reads_quiet, (intro quiet_intros quiet_admit_again)[1])+

lemma prepared_identity:
  assumes "prepared os so bundle captured s w = (Inr (fresh, now, oid), w')"
  shows "identity_fields fresh = identity_fields captured"
  using assms by (auto simp: prepared_def admit_again_def neq_Nil_conv split: if_splits list.splits)

lemma begin_refused:
  assumes "begin_move (passing_bundle os) (logged_store so) bundle captured s (w, []) = (Inl e, w', l)"
  shows "list_all store_read l \<or> e = BePanic \<or> (\<exists>m. e = BeMessage (handed_over @ m))"
proof -
  obtain x w1 l1 where m: "prepared (passing_bundle os) (logged_store so) bundle captured s (w, []) = (x, w1, l1)"
    by (cases "prepared (passing_bundle os) (logged_store so) bundle captured s (w, [])") auto
  have r: "list_all store_read l1" using reads_run [OF reads_prepared _ m] by simp
  show ?thesis
  proof (cases x)
    case (Inl a)
    then show ?thesis using assms m r by (simp add: begin_prepared abind_def)
  next
    case (Inr a)
    then show ?thesis
      using assms m
      by (cases a)
         (auto simp: begin_prepared abind_def write_intent_def Let_def or_message_def amatch_def to_message_def
           split: prod.splits sum.splits io_error.splits)
  qed
qed

lemma begin_returned:
  assumes "begin_move (passing_bundle os) (logged_store so) bundle captured s (w, []) = (Inr d, w', l)"
  obtains fresh now oid pub w1 l1 l2 where
    "identity_fields fresh = identity_fields captured" "list_all store_read l1" "l = l1 @ l2"
    "d = \<lparr>dm_bundle = bundle, dm_evidence = fresh, dm_store = s,
       dm_report = \<lparr>er_record = intent_record so bundle fresh oid now, er_journal_error = None\<rparr>\<rparr>"
    "publish (logged_store so) s (intent_record so bundle fresh oid now) True (w1, []) = (Inr pub, w', l2)"
    "require_clean pub = Inr ()"
proof -
  obtain fresh now oid w1 l1 where
    m: "prepared (passing_bundle os) (logged_store so) bundle captured s (w, []) = (Inr (fresh, now, oid), w1, l1)"
    and i: "write_intent (logged_store so) bundle s fresh oid now (w1, l1) = (Inr d, w', l)"
    using assms by (auto simp: begin_prepared)
  let ?r = "intent_record so bundle fresh oid now"
  obtain pub where p: "publish (logged_store so) s ?r True (w1, l1) = (Inr pub, w', l)"
    "require_clean pub = Inr ()"
    and d: "d = \<lparr>dm_bundle = bundle, dm_evidence = fresh, dm_store = s,
       dm_report = \<lparr>er_record = ?r, er_journal_error = None\<rparr>\<rparr>"
    using i
    by (auto simp: write_intent_def Let_def or_message_def amatch_def publish_clean_def
        split: prod.splits sum.splits)
  obtain l2 where "publish (logged_store so) s ?r True (w1, []) = (Inr pub, w', l2)" "l = l1 @ l2"
    using appends_run [OF appends_publish p(1)] by blast
  then show thesis
    using that [OF prepared_identity [OF m] _ _ d _ p(2)] reads_run [OF reads_prepared _ m] by auto
qed

lemma conservative_intent: "conservative None (intent_record so bundle e oid now) = intent_record so bundle e oid now"
  by (simp add: conservative_def conservative_item_def intent_record_def intent_item_def)

lemma reconciled_intent:
  "map it_state (jr_items (reconciled (intent_record so bundle e oid now))) = [ItemUnknown]"
  by (simp add: reconciled_def reconcile_item_def intent_record_def intent_item_def)

section \<open>Observation\<close>

text \<open>What a log tells: the bundle was seen at a place, or it was not there.\<close>

definition manifest_seen :: "admin_evidence \<Rightarrow> metadata io_result \<Rightarrow> bool" where
  "manifest_seen e r \<longleftrightarrow> (case r of
     Inl _ \<Rightarrow> False
   | Inr m \<Rightarrow> metadata_is_file m \<and> (md_dev m, md_ino m) = (ae_manifest_device e, ae_manifest_inode e))"

definition bundle_seen :: "bundle_event list \<Rightarrow> admin_evidence \<Rightarrow> path \<Rightarrow> bool" where
  "bundle_seen l e p \<longleftrightarrow>
     (\<exists>m r. SeenAs p (Inr m) \<in> set l \<and> (md_dev m, md_ino m) = (ae_device e, ae_inode e)
        \<and> SeenAs (manifest_path p) r \<in> set l \<and> manifest_seen e r)"

definition bundle_missing :: "bundle_event list \<Rightarrow> admin_evidence \<Rightarrow> path \<Rightarrow> bool" where
  "bundle_missing l e p \<longleftrightarrow>
     (\<exists>msg. SeenAs p (Inl (Io NotFoundKind msg)) \<in> set l)
     \<or> (\<exists>m. SeenAs p (Inr m) \<in> set l \<and> (md_dev m, md_ino m) \<noteq> (ae_device e, ae_inode e))
     \<or> (\<exists>r. SeenAs (manifest_path p) r \<in> set l \<and> \<not> manifest_seen e r)"

definition explained :: "bundle_event list \<Rightarrow> admin_evidence \<Rightarrow> path \<Rightarrow> bool option \<Rightarrow> bool" where
  "explained l e p present = (case present of
     None \<Rightarrow> True | Some True \<Rightarrow> bundle_seen l e p | Some False \<Rightarrow> bundle_missing l e p)"

lemma seen_grows:
  "bundle_seen l e p \<Longrightarrow> set l \<subseteq> set l' \<Longrightarrow> bundle_seen l' e p"
  "bundle_missing l e p \<Longrightarrow> set l \<subseteq> set l' \<Longrightarrow> bundle_missing l' e p"
  "explained l e p x \<Longrightarrow> set l \<subseteq> set l' \<Longrightarrow> explained l' e p x"
  unfolding bundle_seen_def bundle_missing_def explained_def
  by (blast, blast) (auto split: option.splits bool.splits simp: bundle_seen_def bundle_missing_def; blast)

definition waits_in :: "bundle_event list \<Rightarrow> nat" where
  "waits_in l = length (filter (\<lambda>ev. ev = Waited) l)"

lemma waits_in_simps [simp]: "waits_in [] = 0" "waits_in (l @ l') = waits_in l + waits_in l'"
  "waits_in (SeenAs p r # l) = waits_in l" "waits_in (Waited # l) = Suc (waits_in l)"
  by (simp_all add: waits_in_def)

lemma logged_bundle_calls [simp]:
  "bo_lstat (logged_bundle os) p = noted (SeenAs p) (bo_lstat os p)"
  "bo_sleep (logged_bundle os) = noted (\<lambda>_. Waited) (bo_sleep os)"
  "bo_read_dir (logged_bundle os) p = pass (bo_read_dir os p)"
  "bo_home (logged_bundle os) u = pass (bo_home os u)"
  "bo_ids (logged_bundle os) = bo_ids os"
  by (simp_all add: logged_bundle_def passing_bundle_def)

lemma manifest_identity_run:
  assumes "bundle_manifest_identity (logged_bundle os) p (w, l) = (r, w', l')"
  shows "\<exists>x. l' = l @ [SeenAs (manifest_path p) x]
     \<and> (manifest_seen e x \<longleftrightarrow> r = Inr (ae_manifest_device e, ae_manifest_inode e))"
  using assms
  by (auto simp: bundle_manifest_identity_def amatch_def noted_def manifest_seen_def
      split: prod.splits sum.splits if_splits)

lemma present_run:
  assumes "is_present_at (logged_bundle os) e p (w, l) = (r, w', l')"
  shows "\<exists>k. l' = l @ k \<and> waits_in k = 0 \<and> explained k e p (case r of Inl _ \<Rightarrow> None | Inr b \<Rightarrow> Some b)"
proof -
  obtain x w1 where x: "bo_lstat os p w = (x, w1)" by (cases "bo_lstat os p w") auto
  show ?thesis
  proof (cases x)
    case (Inl err)
    then show ?thesis
      using assms x
      by (auto simp: is_present_at_def admin_bundle_present_def amatch_def noted_def explained_def
          bundle_missing_def intro!: exI [where x = "[SeenAs p x]"] split: io_error.splits io_kind.splits)
  next
    case (Inr m)
    show ?thesis
    proof (cases "(md_dev m, md_ino m) = (ae_device e, ae_inode e)")
      case False
      then show ?thesis
        using assms x Inr
        by (auto simp: is_present_at_def admin_bundle_present_def amatch_def noted_def explained_def
            to_native_def bundle_missing_def intro!: exI [where x = "[SeenAs p x]"])
    next
      case True
      obtain i w2 l2 where i: "bundle_manifest_identity (logged_bundle os) p (w1, l @ [SeenAs p x]) = (i, w2, l2)"
        by (cases "bundle_manifest_identity (logged_bundle os) p (w1, l @ [SeenAs p x])") auto
      obtain y where y: "l2 = (l @ [SeenAs p x]) @ [SeenAs (manifest_path p) y]"
        "manifest_seen e y \<longleftrightarrow> i = Inr (ae_manifest_device e, ae_manifest_inode e)"
        using manifest_identity_run [OF i] by blast
      have r: "r = Inr (i = Inr (ae_manifest_device e, ae_manifest_inode e))" "l' = l2"
        using assms x Inr True i
        by (auto simp: is_present_at_def admin_bundle_present_def amatch_def noted_def to_native_def)
      let ?k = "[SeenAs p x, SeenAs (manifest_path p) y]"
      have "explained ?k e p (Some (manifest_seen e y))"
      proof (cases "manifest_seen e y")
        case True
        then show ?thesis
          using \<open>(md_dev m, md_ino m) = _\<close> Inr by (auto simp: explained_def bundle_seen_def)
      next
        case False
        then show ?thesis by (auto simp: explained_def bundle_missing_def)
      qed
      then show ?thesis using r y by (intro exI [where x = ?k]) simp
    qed
  qed
qed

lemma observe_run:
  assumes "observe_present (logged_bundle os) d (w, l) = (x, w', l')"
  shows "\<exists>k. l' = l @ k \<and> waits_in k = 0 \<and> explained k (dm_evidence d) (dm_bundle d) x"
proof -
  obtain r where r: "is_present_at (logged_bundle os) (dm_evidence d) (dm_bundle d) (w, l) = (r, w', l')"
    and "x = (case r of Inl _ \<Rightarrow> None | Inr b \<Rightarrow> Some b)"
    using assms by (auto simp: observe_present_def ok_of_def split: prod.splits sum.splits)
  then show ?thesis using present_run [OF r] by simp
qed

lemma settle_run:
  assumes "settle (logged_bundle os) d status n x (w, l) = (y, w', l')"
  shows "\<exists>k. l' = l @ k \<and> waits_in k \<le> n
     \<and> (y = x \<and> k = [] \<or> explained k (dm_evidence d) (dm_bundle d) y)"
  using assms
proof (induction n arbitrary: x w l)
  case (Suc n)
  show ?case
  proof (cases "x = Some True \<and> status = DsReported")
    case False
    then show ?thesis using Suc.prems by (auto split: if_splits)
  next
    case True
    obtain u w1 where s: "bo_sleep os w = (u, w1)" by (cases "bo_sleep os w") auto
    obtain z w2 l2 where z: "observe_present (logged_bundle os) d (w1, l @ [Waited]) = (z, w2, l2)"
      by (cases "observe_present (logged_bundle os) d (w1, l @ [Waited])") auto
    have rest: "settle (logged_bundle os) d status n z (w2, l2) = (y, w', l')"
      using Suc.prems True s z by (simp add: noted_def)
    obtain k1 where k1: "l2 = (l @ [Waited]) @ k1" "waits_in k1 = 0" "explained k1 (dm_evidence d) (dm_bundle d) z"
      using observe_run [OF z] by blast
    obtain k2 where k2: "l' = l2 @ k2" "waits_in k2 \<le> n"
      "y = z \<and> k2 = [] \<or> explained k2 (dm_evidence d) (dm_bundle d) y"
      using Suc.IH [OF rest] by blast
    have "explained (Waited # k1 @ k2) (dm_evidence d) (dm_bundle d) y"
      using k2(3) seen_grows(3) [OF k1(3), of "Waited # k1 @ k2"]
        seen_grows(3) [of k2 _ _ y "Waited # k1 @ k2"] by auto
    then show ?thesis using k1 k2 by (intro exI [where x = "Waited # k1 @ k2"]) simp
  qed
qed simp

section \<open>The Trash\<close>

lemma search_run:
  assumes "search_trash (logged_bundle os) (to_native e) trash es (w, l) = (r, w', l')"
  shows "\<exists>k. l' = l @ k \<and> waits_in k = 0
     \<and> (\<forall>p. r = Inr (Some p) \<longrightarrow> (\<exists>name. p = path_join trash name) \<and> bundle_seen k e p)"
  using assms
proof (induction es arbitrary: w l)
  case (Cons x es)
  show ?case
  proof (cases x)
    case (Inl err)
    then show ?thesis using Cons by simp
  next
    case x: (Inr ent)
    let ?p = "path_join trash (de_name ent)"
    obtain a w1 where a: "bo_lstat os ?p w = (a, w1)" by (cases "bo_lstat os ?p w") auto
    let ?l1 = "l @ [SeenAs ?p a]"
    have skip: ?thesis if later: "search_trash (logged_bundle os) (to_native e) trash es (w2, l @ k1) = (r, w', l')"
      and still: "waits_in k1 = 0" for w2 k1
    proof -
      obtain k where "l' = (l @ k1) @ k" "waits_in k = 0"
        "\<forall>p. r = Inr (Some p) \<longrightarrow> (\<exists>name. p = path_join trash name) \<and> bundle_seen k e p"
        using Cons.IH [OF later] by blast
      then show ?thesis
        using still seen_grows(1) [of k e _ "k1 @ k"] by (intro exI [where x = "k1 @ k"]) auto
    qed
    show ?thesis
    proof (cases "\<exists>m. a = Inr m \<and> metadata_is_dir m \<and> md_dev m = ae_device e \<and> md_ino m = ae_inode e")
      case False
      then have "search_trash (logged_bundle os) (to_native e) trash es (w1, ?l1) = (r, w', l')"
        using Cons.prems a x
        by (cases a) (auto simp: abind_def amatch_def noted_def to_native_def Let_def split: if_splits)
      then show ?thesis using skip [of w1 "[SeenAs ?p a]"] by simp
    next
      case True
      then obtain m where m: "a = Inr m" "metadata_is_dir m" "md_dev m = ae_device e" "md_ino m = ae_inode e"
        by blast
      obtain i w2 l2 where i: "bundle_manifest_identity (logged_bundle os) ?p (w1, ?l1) = (i, w2, l2)"
        by (cases "bundle_manifest_identity (logged_bundle os) ?p (w1, ?l1)") auto
      obtain y where y: "l2 = ?l1 @ [SeenAs (manifest_path ?p) y]"
        "manifest_seen e y \<longleftrightarrow> i = Inr (ae_manifest_device e, ae_manifest_inode e)"
        using manifest_identity_run [OF i] by blast
      let ?k = "[SeenAs ?p a, SeenAs (manifest_path ?p) y]"
      have run: "(case i of Inl err \<Rightarrow> (Inl err, w2, l2)
          | Inr j \<Rightarrow> if j = (ae_manifest_device e, ae_manifest_inode e) then (Inr (Some ?p), w2, l2)
              else search_trash (logged_bundle os) (to_native e) trash es (w2, l2)) = (r, w', l')"
        using Cons.prems a x m i
        by (auto simp: abind_def amatch_def noted_def to_native_def Let_def split: sum.splits if_splits)
      show ?thesis
      proof (cases i)
        case (Inl err)
        then show ?thesis using run y by (intro exI [where x = ?k]) auto
      next
        case (Inr j)
        show ?thesis
        proof (cases "j = (ae_manifest_device e, ae_manifest_inode e)")
          case True
          then have "bundle_seen ?k e ?p" using m y Inr by (auto simp: bundle_seen_def)
          then show ?thesis using run y Inr True by (intro exI [where x = ?k]) auto
        next
          case False
          then show ?thesis using run Inr y skip [of w2 ?k] by simp
        qed
      qed
    qed
  qed
qed auto

definition in_trash_of :: "'w bundle_os \<Rightarrow> path \<Rightarrow> bool" where
  "in_trash_of os p \<longleftrightarrow> (\<exists>uid v home name. ordinary_authority os = Inr uid \<and> fst (bo_home os uid v) = Some home
     \<and> p = path_join (path_join home ''.Trash'') name)"

lemma trash_run:
  assumes "find_in_user_trash (logged_bundle os) e (w, l) = (r, w', l')"
  shows "\<exists>k. l' = l @ k \<and> waits_in k = 0 \<and> (\<forall>p. r = Inr (Some p) \<longrightarrow> in_trash_of os p \<and> bundle_seen k e p)"
proof -
  obtain h w1 where h: "bo_home os (projr (ordinary_authority os)) w = (h, w1)"
    by (cases "bo_home os (projr (ordinary_authority os)) w") auto
  let ?trash = "path_join (the h) ''.Trash''"
  obtain a w2 where a: "bo_lstat os ?trash w1 = (a, w2)" by (cases "bo_lstat os ?trash w1") auto
  obtain es w3 where es: "bo_read_dir os ?trash w2 = (es, w3)" by (cases "bo_read_dir os ?trash w2") auto
  have auth: "ordinary_authority (logged_bundle os) = ordinary_authority os"
    by (simp add: ordinary_authority_def)
  have early: ?thesis if "l' = l @ k" "waits_in k = 0" "\<forall>p. r \<noteq> Inr (Some p)" for k
    using that by blast
  note defs = find_in_user_trash_def find_admin_bundle_in_trash_def user_home_def always_def permit_def
    ensure_def ok_or_def abind_def noted_def pass_def auth Let_def
  show ?thesis
  proof (cases "\<exists>uid home m ds. ordinary_authority os = Inr uid \<and> h = Some home \<and> a = Inr m
      \<and> metadata_is_dir m \<and> md_uid m = uid \<and> es = Inr ds")
    case True
    then obtain uid home m ds where t: "ordinary_authority os = Inr uid" "h = Some home" "a = Inr m"
      "metadata_is_dir m" "md_uid m = uid" "es = Inr ds"
      by blast
    then have run: "search_trash (logged_bundle os) (to_native e) ?trash (take max_trash_entries ds)
        (w3, l @ [SeenAs ?trash a]) = (r, w', l')"
      using assms h a es by (simp add: defs)
    obtain k where k: "l' = (l @ [SeenAs ?trash a]) @ k" "waits_in k = 0"
      "\<forall>p. r = Inr (Some p) \<longrightarrow> (\<exists>name. p = path_join ?trash name) \<and> bundle_seen k e p"
      using search_run [OF run] by (elim exE conjE) (rule that)
    have "fst (bo_home os uid w) = Some home" using h t by simp
    then have "in_trash_of os p" if "p = path_join ?trash name" for p name
      using that t unfolding in_trash_of_def by auto
    then show ?thesis
      using k by (intro exI [where x = "SeenAs ?trash a # k"]) (auto intro: seen_grows(1))
  next
    case False
    then show ?thesis
      using assms h a es early [of "[]"] early [of "[SeenAs ?trash a]"]
      by (cases "ordinary_authority os"; cases h; cases a; cases es) (auto simp: defs split: if_splits)
  qed
qed

lemma locate_run:
  assumes "locate (logged_bundle os) d present (w, l) = (x, w', l')"
  shows "\<exists>k. l' = l @ k \<and> waits_in k = 0 \<and> (x \<noteq> None \<longrightarrow> present = Some False)
     \<and> (\<forall>p. x = Some p \<longrightarrow> in_trash_of os p \<and> bundle_seen k (dm_evidence d) p)"
proof (cases "present = Some False")
  case True
  obtain r where r: "find_in_user_trash (logged_bundle os) (dm_evidence d) (w, l) = (r, w', l')"
    and "x = (case r of Inl _ \<Rightarrow> None | Inr y \<Rightarrow> y)"
    using assms True by (auto simp: locate_def ok_of_def split: prod.splits sum.splits)
  then show ?thesis using trash_run [OF r] True by (auto split: sum.splits)
next
  case False
  then show ?thesis using assms by (auto simp: locate_def)
qed

section \<open>The outcome\<close>

lemma quiet_passing_store [quiet_intros]:
  "quiet (js_open_dir (passing_store os) p)" "quiet (js_fstat (passing_store os) f)"
  "quiet (js_statat (passing_store os) d n)" "quiet (js_has_acl (passing_store os) f)"
  "quiet (js_openat_read (passing_store os) d n)" "quiet (js_openat_new (passing_store os) d n)"
  "quiet (js_read (passing_store os) f k)" "quiet (js_write_all (passing_store os) f bs)"
  "quiet (js_full_sync (passing_store os) f)" "quiet (js_fsync (passing_store os) f)"
  "quiet (js_renameat (passing_store os) d a b)" "quiet (js_unlinkat (passing_store os) d n)"
  "quiet (always (js_wall (passing_store os)))"
  by (auto simp: passing_store_def quiet_pass quiet_def always_def pass_def split: prod.splits)

lemma passing_store_dbg [simp]: "js_dbg (passing_store so) = js_dbg so"
  by (simp add: passing_store_def)

lemma quiet_passing_publish: "quiet (publish_clean (passing_store os) s r initial)"
  unfolding publish_clean_def publish_def publish_with_def remove_marker_def previous_record_def
    read_record_def write_snapshot_def check_acl_def check_file_def unchanged_def Let_def
  by (intro quiet_intros) (auto split: io_error.split io_kind.split intro: quiet_intros)

lemma quiet_passing_now: "quiet (store_now_ms (passing_store os))"
  unfolding store_now_ms_def by (intro quiet_intros)

lemma quiet_run: "quiet m \<Longrightarrow> m (w, l) = (r, w', l') \<Longrightarrow> l' = l"
  by (metis quiet_def snd_conv)

definition decided_by ::
  "'w bundle_os \<Rightarrow> (bytes \<Rightarrow> bytes) \<Rightarrow> bundle_event list \<Rightarrow> delegated_move \<Rightarrow> delegate_status \<Rightarrow> item_record \<Rightarrow> bool" where
  "decided_by os dbg l d status i \<longleftrightarrow> (case it_state i of
     ItemSucceeded \<Rightarrow> bundle_missing l (dm_evidence d) (dm_bundle d)
       \<and> (\<exists>p. it_destination i = Some (native_from_path dbg p) \<and> in_trash_of os p \<and> bundle_seen l (dm_evidence d) p)
   | ItemFailed \<Rightarrow> bundle_seen l (dm_evidence d) (dm_bundle d) \<and> status \<noteq> DsReported \<and> it_destination i = None
   | ItemUnknown \<Rightarrow> it_destination i = None
   | _ \<Rightarrow> False)"

lemma settled_decided:
  assumes "explained l (dm_evidence d) (dm_bundle d) present"
    and "\<forall>p. destination = Some p \<longrightarrow> in_trash_of os p \<and> bundle_seen l (dm_evidence d) p"
  shows "decided_by os dbg l d status (settled_item dbg present destination status now i)"
  using assms
  by (auto simp: settled_item_def classify_move_def decided_by_def explained_def
      split: option.splits bool.splits delegate_status.splits)

lemma finish_run:
  assumes "finish_move (logged_bundle os) (passing_store so) d status (w, []) = (Inr rep, w', l)"
    and "jr_items (er_record (dm_report d)) = [i]"
  obtains present destination now where
    "er_record rep = settled_record (js_dbg so) present destination status now (er_record (dm_report d))"
    "explained l (dm_evidence d) (dm_bundle d) present"
    "\<forall>p. destination = Some p \<longrightarrow> in_trash_of os p \<and> bundle_seen l (dm_evidence d) p"
    "waits_in l \<le> settle_attempts"
proof -
  obtain x1 w1 l1 where 1: "observe_present (logged_bundle os) d (w, []) = (x1, w1, l1)"
    by (cases "observe_present (logged_bundle os) d (w, [])") auto
  obtain x2 w2 l2 where 2: "settle (logged_bundle os) d status settle_attempts x1 (w1, l1) = (x2, w2, l2)"
    by (cases "settle (logged_bundle os) d status settle_attempts x1 (w1, l1)") auto
  obtain x3 w3 l3 where 3: "locate (logged_bundle os) d x2 (w2, l2) = (x3, w3, l3)"
    by (cases "locate (logged_bundle os) d x2 (w2, l2)") auto
  obtain t w4 l4 where 4: "store_now_ms (passing_store so) (w3, l3) = (t, w4, l4)"
    by (cases "store_now_ms (passing_store so) (w3, l3)") auto
  define now where "now = (case t of Inl _ \<Rightarrow> None | Inr a \<Rightarrow> Some a)"
  have "ok_of (store_now_ms (passing_store so)) (w3, l3) = (now, w4, l4)"
    using 4 by (auto simp: ok_of_def now_def split: sum.splits)
  moreover define r where "r = settled_record (js_dbg so) x2 x3 status now (er_record (dm_report d))"
  ultimately have 5: "publish_outcome (passing_store so) d ((dm_report d)\<lparr>er_record := r\<rparr>) (w4, l4) = (Inr rep, w', l)"
    using assms 1 2 3 by (simp add: finish_move_def Let_def)
  have l4: "l4 = l3" by (rule quiet_run [OF quiet_passing_now 4])
  obtain y w5 l5 where y: "publish_clean (passing_store so) (dm_store d) r False (w4, l4) = (y, w5, l5)"
    by (cases "publish_clean (passing_store so) (dm_store d) r False (w4, l4)") auto
  have "l5 = l4" by (rule quiet_run [OF quiet_passing_publish y])
  then have 6: "er_record rep = r" "l = l3"
    using 5 y l4 by (auto simp: publish_outcome_def amatch_def split: sum.splits io_error.splits)
  obtain k1 where k1: "l1 = k1" "waits_in k1 = 0" "explained k1 (dm_evidence d) (dm_bundle d) x1"
    using observe_run [OF 1] by auto
  obtain k2 where k2: "l2 = l1 @ k2" "waits_in k2 \<le> settle_attempts"
    "x2 = x1 \<and> k2 = [] \<or> explained k2 (dm_evidence d) (dm_bundle d) x2"
    using settle_run [OF 2] by blast
  obtain k3 where k3: "l3 = l2 @ k3" "waits_in k3 = 0"
    "\<forall>p. x3 = Some p \<longrightarrow> in_trash_of os p \<and> bundle_seen k3 (dm_evidence d) p"
    using locate_run [OF 3] by blast
  have "explained l (dm_evidence d) (dm_bundle d) x2"
    using k1 k2 k3(1) 6(2) seen_grows(3) [of k1 _ _ x1 l] seen_grows(3) [of k2 _ _ x2 l] by auto
  moreover have "\<forall>p. x3 = Some p \<longrightarrow> in_trash_of os p \<and> bundle_seen l (dm_evidence d) p"
    using k3 6(2) seen_grows(1) [of k3 _ _ l] by auto
  moreover have "waits_in l \<le> settle_attempts" using k1 k2 k3 6(2) by simp
  ultimately show thesis using that [of x2 x3 now] 6(1) r_def by blast
qed

end
