(* ===== verification/Delegated_Records.thy ===== *)
theory Delegated_Records
  imports Delegated_Results
begin

text \<open>
  The records of a delegated move are acceptable to the journal: an admitted path is a native path
  of the journal, and so is the directory it is in.
\<close>

section \<open>Joined pieces\<close>

lemma length_join_with: "length (join_with c ps) = sum_list (map (\<lambda>p. Suc (length p)) ps) - 1"
  by (induction c ps rule: join_with.induct) simp_all

lemma sum_list_filter_le: "sum_list (map f (filter P xs)) \<le> sum_list (map (f :: 'a \<Rightarrow> nat) xs)"
  by (induction xs) auto

lemma sum_list_butlast_le: "sum_list (map f (butlast xs)) \<le> sum_list (map (f :: 'a \<Rightarrow> nat) xs)"
  by (cases xs rule: rev_cases) auto

lemma set_join_with: "set (join_with c ps) \<subseteq> insert c (\<Union> (set ` set ps))"
  by (induction c ps rule: join_with.induct) auto

lemma set_in_joined: "p \<in> set ps \<Longrightarrow> set p \<subseteq> set (join_with c ps)"
  by (induction c ps rule: join_with.induct) auto

lemma piece_names:
  "map component_bytes (concat (map piece ss)) = filter (\<lambda>s. s \<noteq> [] \<and> s \<noteq> ''.'') ss"
  by (induction ss) (auto simp: piece_def)

section \<open>The directory of a path\<close>

text \<open>A path the journal accepts, as far as its bytes go.\<close>

definition journal_bytes :: "path \<Rightarrow> bool" where
  "journal_bytes p \<longleftrightarrow> is_absolute p \<and> int (length p) \<le> 4096 \<and> CHR 0x00 \<notin> set p
     \<and> (\<forall>part \<in> set (split_on CHR ''/'' p). part \<noteq> ''.'' \<and> part \<noteq> ''..'')"

lemma journal_bytes_valid: "journal_bytes p \<Longrightarrow> native_validate dbg (native_from_path dbg p) = Inr ()"
  by (cases p) (auto simp: journal_bytes_def native_validate_def native_from_path_def is_absolute_def list_ex_iff)

lemma valid_path_journal: "valid_path p = Inr () \<Longrightarrow> journal_bytes p"
  by (auto simp: valid_path_def unambiguous_def journal_bytes_def ensure_def list_ex_iff split: if_splits)

lemma absolute_split: "is_absolute p \<Longrightarrow> \<exists>q. p = CHR ''/'' # q"
  by (cases p) (auto simp: is_absolute_def)

lemma journal_bytes_parent:
  assumes p: "journal_bytes p" and up: "parent p = Some up"
  shows "journal_bytes up"
proof -
  obtain q where q: "p = CHR ''/'' # q" using p absolute_split by (auto simp: journal_bytes_def)
  let ?ss = "split_on CHR ''/'' q"
  let ?good = "filter (\<lambda>s. s \<noteq> [] \<and> s \<noteq> ''.'') ?ss"
  have comps: "components p = RootDir # concat (map piece ?ss)"
    by (simp add: components_def is_absolute_def q piece_def)
  have ne: "concat (map piece ?ss) \<noteq> []"
  proof
    assume "concat (map piece ?ss) = []"
    then have "components p = [] @ [RootDir]" by (simp only: comps append_Nil)
    then show False using up parent_None [of p] by (metis option.distinct(1))
  qed
  have "up = render (butlast (components p))"
    using up by (auto simp: parent_def butlast_rev split: list.splits component.splits)
  then have eq: "up = CHR ''/'' # join_with CHR ''/'' (butlast ?good)"
    using ne by (simp add: comps piece_names map_butlast)
  have join: "join_with CHR ''/'' ?ss = q" by (rule join_with_split_on)
  have sub: "set (butlast ?good) \<subseteq> set ?ss" by (auto dest: in_set_butlastD)
  have shorter: "length up \<le> length p"
    using sum_list_butlast_le [of "\<lambda>p. Suc (length p)" ?good]
      sum_list_filter_le [of "\<lambda>p. Suc (length p)" "\<lambda>s. s \<noteq> [] \<and> s \<noteq> ''.''" ?ss]
      length_join_with [of "CHR ''/''" ?ss] length_join_with [of "CHR ''/''" "butlast ?good"]
    by (simp add: eq q join)
  have "set up \<subseteq> insert CHR ''/'' (set p)"
    using set_join_with [of "CHR ''/''" "butlast ?good"] sub set_in_joined [of _ ?ss "CHR ''/''"]
    by (auto simp: eq q join)
  then have nul: "CHR 0x00 \<notin> set up" using p by (auto simp: journal_bytes_def)
  have parts: "part \<noteq> ''.'' \<and> part \<noteq> ''..''" if "part \<in> set (split_on CHR ''/'' up)" for part
  proof (cases "butlast ?good = []")
    case True
    then show ?thesis using that by (simp add: eq)
  next
    case False
    have "split_on CHR ''/'' (join_with CHR ''/'' (butlast ?good)) = butlast ?good"
      using sub by (intro split_on_join_with [OF False]) (auto dest: split_on_no_sep)
    then have "part = [] \<or> part \<in> set (butlast ?good)" using that by (simp add: eq)
    then have "part = [] \<or> part \<in> set (split_on CHR ''/'' p)" using sub by (auto simp: q)
    then show ?thesis using p by (auto simp: journal_bytes_def)
  qed
  have "is_absolute up" by (simp add: is_absolute_def eq)
  then show ?thesis
    using p shorter nul parts unfolding journal_bytes_def by simp
qed

section \<open>The records\<close>

lemma captured_path:
  assumes "capture_evidence os bundle w = (Inr e, w')"
  obtains up where "journal_bytes bundle" "parent bundle = Some up" "journal_bytes up"
proof -
  have "valid_path bundle = Inr ()" and up: "parent_where (is_applications_root os) bundle \<noteq> None"
    using assms by (auto simp: capture_evidence_def admin_bundle_stamp_def ok_or_def split: option.splits)
  then have b: "journal_bytes bundle" by (simp add: valid_path_journal)
  obtain u where "parent bundle = Some u" using up by (auto simp: parent_where_def split: option.splits)
  then show thesis using that b journal_bytes_parent by blast
qed

lemma encode_hex_digits: "list_all is_ascii_hexdigit (encode_hex s)"
proof -
  have "is_ascii_hexdigit (hex_digit n)" if "0 \<le> n" "n < 16" for n
    using hex_digit_ascii that by (simp add: list_all_iff)
  then show ?thesis by (induction s) (simp_all add: nibbles)
qed

lemma plan_digest_hex:
  "(\<And>bs. length (js_digest so bs) = 32) \<Longrightarrow> any_hex64 (plan_digest so bundle e)"
  by (simp add: any_hex64_def plan_digest_def encode_hex_digits)

lemma delegated_valid:
  assumes shape: "r = (intent_record so bundle e oid now)\<lparr>jr_items := [i]\<rparr>"
    and i: "it_path i = native_from_path (js_dbg so) bundle" "it_rule_binding i = None"
      "it_recovery_evidence i = None" "item_consistent False i"
      "check_optional (native_validate (js_dbg so)) (it_destination i) = Inr ()"
    and captured: "capture_evidence os bundle w = (Inr e, w')"
    and ids: "valid_id oid" "\<And>bs. length (js_digest so bs) = 32"
  shows "record_validate (js_dbg so) r = Inr ()"
proof -
  obtain up where up: "journal_bytes bundle" "parent bundle = Some up" "journal_bytes up"
    by (rule captured_path [OF captured])
  have fields: "jr_schema_version r = 7" "jr_plan_schema_version r = 7" "jr_engine_version r = 2"
    "jr_rules_version r = 1" "jr_contract r = ''system_delegated_trash_v1''" "jr_operation_id r = oid"
    "jr_scope r = native_from_path (js_dbg so) up" "jr_items r = [i]" "jr_clean_policy r = None"
    "jr_tool_operation r = None" "jr_orphan_context r = None" "jr_related_context r = None"
    "jr_empty_trash_context r = None" "jr_runtime_context r = None"
    "jr_delegation r = Some \<lparr>dl_schema_version = 1,
       dl_performer = ''finder_after_administrator_approval'',
       dl_plan_digest = plan_digest so bundle e, dl_manifest_device = ae_manifest_device e,
       dl_manifest_inode = ae_manifest_inode e\<rparr>"
    by (simp_all add: shape intent_record_def up)
  have profile: "has_profile r p \<longleftrightarrow> p = Delegated" for p
    by (cases p) (simp_all add: has_profile_def fields)
  then have "known_profile r" by (simp add: known_profile_def)
  moreover have "check_items (js_dbg so) False False {} {} [i] = Inr ()"
    using i up by (simp add: check_binding_def check_optional_def journal_bytes_valid)
  ultimately show ?thesis
    using ids plan_digest_hex [OF ids(2)] up
    by (simp add: record_validate_def validate_trash_record_def profile fields check_orphan_def
        check_clean_def check_tool_def check_delegation_def check_related_def max_items_def
        journal_bytes_valid ensure_def)
qed

lemma settled_valid_item:
  assumes "native_validate dbg (native_from_path dbg bundle) = Inr ()"
    and "it_path i = native_from_path dbg bundle" "it_destination i = None"
  shows "item_consistent False (settled_item dbg present destination status now i)"
  using assms
  by (auto simp: settled_item_def classify_move_def item_consistent_def native_validate_def
      native_from_path_def split: option.splits bool.splits delegate_status.splits if_splits)

lemma settled_valid:
  assumes "capture_evidence os bundle w = (Inr e, w')" "valid_id oid"
    and "\<And>bs. length (js_digest so bs) = 32"
    and "check_optional (native_validate (js_dbg so)) (map_option (native_from_path (js_dbg so)) destination) = Inr ()"
  shows "record_validate (js_dbg so)
    (settled_record (js_dbg so) present destination status t (intent_record so bundle e oid now)) = Inr ()"
proof -
  let ?i = "intent_item so bundle e now"
  let ?j = "settled_item (js_dbg so) present destination status t ?i"
  obtain up where up: "journal_bytes bundle" by (rule captured_path [OF assms(1)])
  have "settled_record (js_dbg so) present destination status t (intent_record so bundle e oid now)
      = (intent_record so bundle e oid now)\<lparr>jr_items := [?j]\<rparr>"
    by (simp add: settled_record_def intent_record_def)
  moreover have "check_optional (native_validate (js_dbg so)) (it_destination ?j) = Inr ()"
    using assms(4) by (auto simp: settled_item_def check_optional_def intent_item_def split: prod.splits)
  moreover have "it_path ?j = native_from_path (js_dbg so) bundle" "it_rule_binding ?j = None"
    "it_recovery_evidence ?j = None"
    by (auto simp: settled_item_def intent_item_def split: prod.splits)
  moreover have "item_consistent False ?j"
    by (rule settled_valid_item [OF journal_bytes_valid [OF up]]) (simp_all add: intent_item_def)
  ultimately show ?thesis using delegated_valid [OF _ _ _ _ _ _ assms(1,2,3)] by blast
qed

lemma intent_valid:
  assumes "capture_evidence os bundle w = (Inr e, w')" "valid_id oid"
    and "\<And>bs. length (js_digest so bs) = 32"
  shows "record_validate (js_dbg so) (intent_record so bundle e oid now) = Inr ()"
proof -
  let ?i = "intent_item so bundle e now"
  obtain up where up: "journal_bytes bundle" by (rule captured_path [OF assms(1)])
  have "intent_record so bundle e oid now = (intent_record so bundle e oid now)\<lparr>jr_items := [?i]\<rparr>"
    by (simp add: intent_record_def)
  moreover have "item_consistent False ?i"
    using journal_bytes_valid [OF up, of "js_dbg so"]
    by (auto simp: item_consistent_def intent_item_def native_validate_def native_from_path_def split: if_splits)
  moreover have "it_path ?i = native_from_path (js_dbg so) bundle" "it_rule_binding ?i = None"
    "it_recovery_evidence ?i = None" "check_optional (native_validate (js_dbg so)) (it_destination ?i) = Inr ()"
    by (simp_all add: intent_item_def check_optional_def)
  ultimately show ?thesis using delegated_valid [OF _ _ _ _ _ _ assms(1,2,3)] by blast
qed

end
