(* ===== verification/Delegated_Properties.thy ===== *)
theory Delegated_Properties
  imports Delegated_Records Journal_Store_Properties
begin

text \<open>
  The promises of an administrator-approved uninstallation, with a small system on which they are
  applied: a bundle of \<open>/Applications\<close> that is at its place or already in the user's Trash.
\<close>

section \<open>A small system\<close>

definition move_demo_meta :: "u32 \<Rightarrow> u32 \<Rightarrow> u64 \<Rightarrow> metadata" where
  "move_demo_meta mode uid ino = \<lparr>md_dev = 1, md_ino = ino, md_mode = mode, md_uid = uid, md_gid = 0,
     md_size = 96, md_flags = 0, md_mtime = 0, md_mtime_nsec = 0\<rparr>"

definition move_demo_bundle :: "bytes" where
  "move_demo_bundle = ''/Applications/A.app''"

definition move_demo_trashed :: "bytes" where
  "move_demo_trashed = ''/Users/u/.Trash/A.app''"

definition move_demo_lstat :: "bool \<Rightarrow> path \<Rightarrow> metadata io_result" where
  "move_demo_lstat gone p =
     (let place = (if gone then move_demo_trashed else move_demo_bundle) in
      if p \<in> {''/'', ''/Applications''} then Inr (move_demo_meta 16877 0 2)
      else if p = ''/Users/u/.Trash'' then Inr (move_demo_meta 16832 501 9)
      else if p = place then Inr (move_demo_meta 16877 0 10)
      else if p = manifest_path place then Inr (move_demo_meta 33188 0 11)
      else Inl (Io NotFoundKind ''absent''))"

definition move_demo_os :: "bool \<Rightarrow> unit bundle_os" where
  "move_demo_os gone = \<lparr>
     bo_absolute = aret, bo_lstat = (\<lambda>p. alift (move_demo_lstat gone p)),
     bo_open_dir = (\<lambda>p. aret 3), bo_open_file = (\<lambda>p. aret 4),
     bo_fstat = (\<lambda>f. aret (move_demo_meta 16877 0 10)), bo_fstatfs_flags = (\<lambda>f. aret 4096),
     bo_getpath = (\<lambda>f. aret (move_demo_bundle @ [CHR 0x00])),
     bo_listxattr = (\<lambda>f. aret (''com.apple.macl'' @ [CHR 0x00])),
     bo_read_dir = (\<lambda>p. aret [Inr \<lparr>de_name = (if p = ''/Users/u/.Trash'' then ''A.app'' else ''Run''),
       de_type = Inr FileEntry\<rparr>]),
     bo_canonicalize = aret, bo_running = afail (Io OtherKind ''unavailable''),
     bo_identifier = (\<lambda>p. aret \<lparr>mr_identifier = \<lparr>fv_state = StPresent, fv_value = Some ''org.example.A''\<rparr>,
       mr_digest = [], mr_device = 1, mr_inode = 11\<rparr>),
     bo_home = (\<lambda>u w. (Some ''/Users/u'', w)), bo_sleep = (\<lambda>w. ((), w)),
     bo_ids = (501, 501, 20, 20), bo_lowercase = map ascii_lower, bo_display = (\<lambda>p. p),
     bo_os_code = (\<lambda>e. None)\<rparr>"

definition move_demo_store :: "bytes io_result list \<Rightarrow> unit store_os" where
  "move_demo_store names = store_demo_os\<lparr>js_list := (\<lambda>d. aret names),
     js_digest := (\<lambda>bs. replicate 32 CHR 0x01), js_print := (\<lambda>r. Inr ''intent'')\<rparr>"

definition move_demo_evidence :: admin_evidence where
  "move_demo_evidence = \<lparr>ae_device = 1, ae_inode = 10, ae_manifest_device = 1, ae_manifest_inode = 11,
     ae_logical_bytes = 96, ae_modified = (0, 0)\<rparr>"

definition move_demo_record :: journal_record where
  "move_demo_record = intent_record (move_demo_store []) move_demo_bundle move_demo_evidence ''10-0-1'' 0"

definition move_demo :: delegated_move where
  "move_demo = \<lparr>dm_bundle = move_demo_bundle, dm_evidence = move_demo_evidence, dm_store = store_demo,
     dm_report = \<lparr>er_record = move_demo_record, er_journal_error = None\<rparr>\<rparr>"

definition move_demo_log :: "store_event list" where
  "move_demo_log =
     [SeCreate 7 ''10-0-1.pending'' (Inr 24), SeWrite 24 ''intent'' (Inr ()), SeFullSync 24 (Inr ()),
      SeFsync 7 (Inr ()), SeFullSync 24 (Inr ()),
      SeCreate 7 ''10-0-1.next'' (Inr 21), SeWrite 21 ''intent'' (Inr ()), SeFullSync 21 (Inr ()),
      SeRename 7 ''10-0-1.next'' ''10-0-1.json'' (Inr ()), SeFsync 7 (Inr ()), SeFullSync 21 (Inr ()),
      SeUnlink 7 ''10-0-1.pending'' (Inr ()), SeFsync 7 (Inr ())]"

lemma move_demo_begins:
  "begin_move (passing_bundle (move_demo_os False)) (logged_store (move_demo_store []))
     move_demo_bundle move_demo_evidence store_demo ((), []) = (Inr move_demo, (), move_demo_log)"
  by code_simp

text \<open>
  The processes cannot be listed, so nothing is known of the application; the preview has no
  refusal, and the move begins.
\<close>

lemma unknown_running_is_handed_over:
  "(bundle_running (move_demo_os False) move_demo_bundle () :: (io_error, running_observation) result \<times> unit)
     = (Inr RoUnknown, ())"
  "begin_move (move_demo_os False) (move_demo_store []) move_demo_bundle move_demo_evidence store_demo ()
     = (Inr move_demo, ())"
  by code_simp+

lemma image_of_done:
  assumes "trace_run (publish_step P) PubStart l = Some (PubDone None True)"
  shows "crash_image (disk_after (pp_directory P) (settled_disk Map.empty) l) [pp_name P \<mapsto> receipt_text P]"
proof -
  let ?k = "disk_after (pp_directory P) (settled_disk Map.empty) l"
  let ?m = "apply_op (DropName (pp_marker P)) (received P (base_names Map.empty))"
  let ?c = "\<lambda>i :: nat. if i = 0 then marker_text P None else receipt_text P"
  have "disk_is P (base_names Map.empty) (PubDone None True) ?k"
    using disk_of_trace [OF assms] by simp
  then have k: "dk_settled ?k = {received P (base_names Map.empty)}"
    "dk_waiting ?k = [waits True True (DropName (pp_marker P))]"
    "dk_files ?k = [Synced (marker_text P None), Synced (receipt_text P)]"
    by (simp_all add: disk_shape_def)
  have "?m \<in> crash_names ?k" using crash_names_simps(2) [OF k(1,2)] by simp
  moreover have "keeps_synced ?c (dk_files ?k)"
    by (auto simp: k(3) keeps_synced_def less_Suc_eq)
  moreover have "[pp_name P \<mapsto> receipt_text P] = (\<lambda>n. map_option (contents_of ?c) (?m n))"
    by (auto simp: fun_eq_iff names_simps base_names_def contents_of_def)
  ultimately show ?thesis unfolding crash_image_def by blast
qed

section \<open>A preview without refusals\<close>

lemma refuses_never_clean [simp]: "un_refusals (uninstall_refuse x v) \<noteq> []"
  by (simp add: uninstall_refuse_def)

text \<open>The steps of a preview only add refusals.\<close>

lemma clean_steps:
  "un_refusals (check_name p v) = [] \<Longrightarrow> app_name p \<and> un_refusals v = [] \<and> check_name p v = v"
  "check_volume os p v w = (Inr u, w') \<Longrightarrow> un_refusals u = [] \<Longrightarrow> u = v"
  "check_manifest os p v w = (Inr u, w') \<Longrightarrow> un_refusals u = [] \<Longrightarrow> u = v"
  by (auto simp: check_name_def check_volume_def check_manifest_def amatch_def
      split: if_splits sum.splits prod.splits io_error.splits io_kind.splits bool.splits)

lemma clean_vendor:
  "check_vendor os p v w = (Inr u, w') \<Longrightarrow> un_refusals u = [] \<Longrightarrow> un_refusals v = []
     \<and> un_vendor_uninstaller u = None \<and> un_identity u = un_identity v \<and> un_bundle_path u = un_bundle_path v"
  by (auto simp: check_vendor_def refuse_vendor_def amatch_def split: sum.splits prod.splits option.splits)

lemma note_running_clean:
  "un_refusals (note_running x v) = [] \<Longrightarrow> un_refusals v = []
     \<and> note_running x v = v\<lparr>un_running := x\<rparr> \<and> (\<forall>pids. x \<noteq> RoRunning pids)"
  by (cases x) (simp_all add: note_running_def)

lemma clean_running:
  "observe_running os p v w = (Inr u, w') \<Longrightarrow> un_refusals u = [] \<Longrightarrow> un_refusals v = []
     \<and> (\<forall>pids. un_running u \<noteq> RoRunning pids) \<and> un_vendor_uninstaller u = un_vendor_uninstaller v
     \<and> un_identity u = un_identity v \<and> un_bundle_path u = un_bundle_path v"
  by (cases "bo_read_dir os (macos_directory p) w"; cases "fst (bo_read_dir os (macos_directory p) w)")
     (auto simp: observe_running_def amatch_def dest!: note_running_clean
       split: sum.split_asm prod.split_asm io_error.split_asm io_kind.split_asm)

lemma clean_preview:
  assumes "preview_bundle_uninstall os bundle w = (Inr v :: ('x, uninstall_preview) result, w')" and "un_refusals v = []"
  shows "\<not> starts_with (un_bundle_path v) ''/System'' \<and> app_name (un_bundle_path v)
    \<and> un_identity v \<noteq> None \<and> un_vendor_uninstaller v = None \<and> (\<forall>pids. un_running v \<noteq> RoRunning pids)"
proof -
  obtain p w1 where p: "preview_absolute os p w1 = (Inr v :: ('x, uninstall_preview) result, w')"
    using assms(1) by (auto simp: preview_bundle_uninstall_def amatch_def split: prod.splits)
  then obtain m w2 where root: "\<not> starts_with p ''/System''"
    and d: "preview_directory os p m (base_preview p) w2 = (Inr v :: ('x, uninstall_preview) result, w')"
    using assms(2)
    by (auto simp: preview_absolute_def Let_def amatch_def split: if_splits prod.splits sum.splits)
  let ?v0 = "(check_name p (base_preview p))\<lparr>un_identity := Some (identity_of m)\<rparr>"
  obtain v1 v2 v3 u1 u2 u3 where steps: "check_volume os p ?v0 w2 = (Inr v1 :: ('x, uninstall_preview) result, u1)"
    "check_manifest os p v1 u1 = (Inr v2 :: ('x, uninstall_preview) result, u2)" "check_vendor os p v2 u2 = (Inr v3 :: ('x, uninstall_preview) result, u3)"
    "observe_running os p v3 u3 = (Inr v :: ('x, uninstall_preview) result, w')"
    using d by (auto simp: preview_directory_def)
  note 4 = clean_running [OF steps(4) assms(2)]
  note 3 = clean_vendor [OF steps(3) conjunct1 [OF 4]]
  note 2 = clean_steps(3) [OF steps(2) conjunct1 [OF 3]]
  note 1 = clean_steps(2) [OF steps(1)]
  have "v1 = ?v0" using 1 2 3 by simp
  moreover from this have "app_name p" "check_name p (base_preview p) = base_preview p"
    using 2 3 clean_steps(1) [of p "base_preview p"] by simp_all
  ultimately show ?thesis using 2 3 4 root by (simp add: base_preview_def)
qed

section \<open>The promises\<close>


text \<open>A move that is refused before its intent is published has written nothing: up to then the
  journal was only read. Any other refusal says that the journal was the reason.\<close>

theorem refused_move_writes_nothing:
  assumes "begin_move (passing_bundle os) (logged_store so) bundle captured s (w, []) = (Inl e, w', l)"
  shows "list_all store_read l \<or> e = BePanic \<or> (\<exists>m. e = BeMessage (handed_over @ m))"
  using begin_refused [OF assms] .



section \<open>The promises on the small system\<close>

lemma move_demo_traced:
  "trace_run (publish_step (publication_of (move_demo_store []) store_demo move_demo_record True)) PubStart
     move_demo_log = Some (PubDone None True)"
  by code_simp

lemma move_demo_image:
  "crash_image (disk_after (so_directory store_demo) (settled_disk Map.empty) move_demo_log) [''10-0-1.json'' \<mapsto> ''intent'']"
proof -
  let ?P = "publication_of (move_demo_store []) store_demo move_demo_record True"
  have "pp_directory ?P = so_directory store_demo" "pp_name ?P = ''10-0-1.json''" "receipt_text ?P = ''intent''"
    by code_simp+
  then show ?thesis using image_of_done [OF move_demo_traced] by simp
qed


lemma move_demo_refused:
  "begin_move (passing_bundle (move_demo_os False)) (logged_store (move_demo_store [Inr ''b.pending'']))
     move_demo_bundle move_demo_evidence store_demo ((), [])
   = (Inl (BeMessage ''journal filename and record identity disagree''), (),
      [SeRead 19 1048577 (Inr ''started'')])"
  by code_simp

theorem refused_move_writes_nothing_witness:
  "list_all store_read [SeRead 19 1048577 (Inr ''started'')]
    \<or> BeMessage ''journal filename and record identity disagree'' = BePanic
    \<or> (\<exists>m. BeMessage ''journal filename and record identity disagree'' = BeMessage (handed_over @ m))"
  by (rule refused_move_writes_nothing [OF move_demo_refused])

definition move_demo_finished :: exec_report where
  "move_demo_finished = \<lparr>er_record = settled_record ascii_debug (Some False) (Some move_demo_trashed)
     DsError (Some 0) move_demo_record, er_journal_error = Some ''journal filename and record identity disagree''\<rparr>"

definition move_demo_seen :: "bundle_event list" where
  "move_demo_seen = map (\<lambda>p. SeenAs p (move_demo_lstat True p))
     [move_demo_bundle, ''/Users/u/.Trash'', move_demo_trashed, manifest_path move_demo_trashed]"

lemma move_demo_finishes:
  "finish_move (logged_bundle (move_demo_os True)) (passing_store (move_demo_store [])) move_demo DsError ((), [])
     = (Inr move_demo_finished, (), move_demo_seen)"
  by code_simp


lemma move_demo_captured:
  "capture_evidence (move_demo_os False) move_demo_bundle () = (Inr move_demo_evidence, ())"
  by code_simp


end
