(* ===== verification/Spec2Isabelle.thy ===== *)
theory Spec2Isabelle
  imports Planner_Properties Journal_Panics Journal_Contracts Journal_Properties History Receipt
    Execute_Properties Directory_Review Policy_Session Journal_Store_Properties
    Rule_Preview_Properties Delegated_Properties
begin

text \<open>
  A verification library of the engine of Sayaka, a disk-cleaning tool in Rust
  (\<open>crates/engine/src\<close>). The engine never deletes on a guess: a file is planned from an
  observation, approved by a person, validated against the file system, recorded as intended,
  moved by one native call, and recorded again. The library models that path from end to end,
  with the two stores it depends on (the operation journal and the clean policy) and the scan
  index from which directories are reviewed.

  \<^bold>\<open>The parts and how they interact.\<close>

  \<^item> \<open>plan.rs\<close> over \<open>model.rs\<close>: a planning session registers observations as findings
    (\<open>discover\<close>), selects items (\<open>prepare\<close>), takes the approval (\<open>approve\<close>) and probes
    every item again (\<open>planner_validate\<close>). A change of the rule or policy versions starts a new
    generation. Theories \<open>Model\<close> (data, \<open>scope_new\<close>, overlaps), \<open>Planner\<close> (record
    \<open>planner\<close> for \<open>Planner\<close>, one definition per method), \<open>Planner_Session\<close> (the
    invariant \<open>planner_wf\<close>, the step relation \<open>planner_step\<close>, the abstract machine
    \<open>abs_step\<close> and the simulation), \<open>Planner_Properties\<close>, \<open>Systems\<close> (locales
    of transition systems).
  \<^item> \<open>journal.rs\<close> with \<open>orphan_journal.rs\<close>, \<open>empty_trash_journal.rs\<close> and
    \<open>runtime_journal.rs\<close>: the records of operations, what makes one acceptable, how one is read
    after an interruption, the sizes it reports. Theories \<open>Journal_Model\<close> (data),
    \<open>Orphan_Journal\<close>, \<open>Empty_Trash_Journal\<close>, \<open>Runtime_Journal\<close> (one theory per
    context), \<open>Rule_Targets\<close> and \<open>Rule_Binding\<close> (the part of \<open>rules.rs\<close> and of the
    developer tools that validation calls), \<open>Journal\<close> (\<open>record_validate\<close>,
    \<open>reconciled\<close>, \<open>handled_bytes\<close>), and the properties in \<open>Journal_Properties\<close>,
    \<open>Journal_Contracts\<close> and \<open>Journal_Panics\<close>.
  \<^item> \<open>execute.rs\<close> with \<open>receipt.rs\<close> and \<open>history.rs\<close>: the session that turns a
    validated plan into native calls under the journal, the receipt of an item, the queries over
    past records. Theories \<open>Execute\<close> (environment \<open>exec_env\<close> of clock, journal, guard and
    native platform; \<open>execute_with_clean_policy\<close>), \<open>Execute_Protocol\<close> (the events of a
    run and the monitor they satisfy), \<open>Execute_Mirror\<close> (observing changes nothing),
    \<open>Execute_Invariant\<close>, \<open>Execute_Properties\<close>, \<open>Receipt\<close>, \<open>History\<close>.
  \<^item> \<open>journal/store.rs\<close>: the directory the records are kept in. Theories \<open>Journal_Store\<close> (the
    file system \<open>store_os\<close>, every operation), \<open>Journal_Store_Protocol\<close> (the calls of a
    publication as a monitor, a model of the disk with what a power loss may leave),
    \<open>Journal_Store_Crash\<close> (the disk in every phase), \<open>Journal_Store_Records\<close> (the conservative
    receipt, reading, identifiers), \<open>Journal_Store_Properties\<close>.
  \<^item> \<open>clean_policy.rs\<close> and \<open>clean_policy/macos.rs\<close>: the exclusions a user keeps, with
    the file protocol of their store, and the clean session of \<open>execute/macos.rs\<close> that binds an
    execution to a fresh snapshot of the policy. Theories \<open>Policy_Paths\<close> (lexical paths, hex
    and wire format), \<open>Policy_Model\<close> (records, validation, normalization), \<open>Policy_Store\<close>
    (the store over a file system \<open>policy_os\<close>, every operation),
    \<open>Policy_Protocol\<close> (the calls that change the file system, as a monitor),
    \<open>Policy_Mirror\<close>, \<open>Policy_Properties\<close>, \<open>Policy_Session\<close>.
  \<^item> \<open>scan/mod.rs\<close>, \<open>scan/index.rs\<close>, \<open>scan/directory_review.rs\<close>: the index of a scan
    report and the review of a directory in it. Theories \<open>Scan_Model\<close>, \<open>Scan_Sort\<close> (the
    cancellable merge sort), \<open>Scan_Index\<close> (\<open>build_shared\<close> and every query),
    \<open>Scan_Hierarchy\<close>, \<open>Scan_Totals\<close>, \<open>Scan_Tree\<close>, \<open>Scan_Coverage\<close> (one phase of
    the build each), \<open>Scan_Properties\<close>, \<open>Directory_Review\<close>.
  \<^item> \<open>rules.rs\<close>: the preview of the two built-in rules over an indexed scan, with the native
    evidence (\<open>HostNativeEvidence\<close>) it asks for under the read-only policy of
    \<open>platform-macos/src/lib.rs\<close>. Theories \<open>Rule_Evidence\<close> (the calls over \<open>evidence_os\<close>),
    \<open>Rule_Evidence_Protocol\<close> (the calls of one inspection as a monitor), \<open>Rule_Preview\<close> (catalogue,
    index, \<open>examine_pyc\<close>, \<open>examine_class\<close>, \<open>preview\<close>), \<open>Rule_Preview_Protocol\<close>,
    \<open>Rule_Preview_Results\<close>, \<open>Rule_Preview_Properties\<close>.
  \<^item> \<open>admin_uninstall.rs\<close> with the preview of \<open>app_uninstall.rs\<close> and the administrator part of
    \<open>platform-macos/src/trash/native.rs\<close>: the uninstallation of a root-owned bundle, which Finder
    performs and the engine admits, records and verifies. Theories \<open>Admin_Bundle\<close> (the calls
    \<open>bundle_os\<close>, admission, observation at the place and in the Trash), \<open>Uninstall_Preview\<close>,
    \<open>Delegated_Move\<close> (\<open>begin_move\<close>, \<open>finish_move\<close>), \<open>Delegated_Protocol\<close> (the logs),
    \<open>Delegated_Results\<close>, \<open>Delegated_Records\<close>, \<open>Delegated_Properties\<close>.
  \<^item> Shared: \<open>Actions\<close> (calls of the operating system, their logs, the logic of monitors used by
    the stores and the evidence), \<open>Hex\<close>, \<open>Ordered_Map\<close>, \<open>Prelude\<close> (results as sums with \<open>Inl\<close> for \<open>Err\<close> and \<open>Inr\<close> for
    \<open>Ok\<close>, checked arithmetic on 64-bit words, byte strings), \<open>Paths\<close> (\<open>std::path\<close> on
    Unix), \<open>Text\<close> (the string operations of the standard library that are used).

  The components meet in the execution: \<open>execute_with_clean_policy\<close> runs a planner
  (\<open>planner_validate\<close>), writes journal records that satisfy \<open>record_validate\<close> and asks the
  guard, which for a clean session is \<open>clean_guard\<close> over the policy store; history reads the
  same records back through \<open>reconciled\<close>; a directory review reads the finished
  \<open>scan_tree\<close>, and so does a rule preview, whose candidates are what a journal record of the
  explicit rule contract names.

  \<^bold>\<open>How code becomes definitions.\<close> A struct is a record, an enum a datatype, a method a
  function on the state it changes that returns the state with the result; \<open>?\<close> is
  \<open>rbind\<close> (or \<open>abind\<close> in the store), a check that returns early is \<open>ensure\<close>. A mutation
  that happens before an error stays in the returned state. \<open>u64\<close> and \<open>u32\<close> are words
  with the checked operations written out, \<open>usize\<close> counters are naturals, instants are
  integers of nanoseconds. A loop over a list is a recursion over it; \<open>while\<close> loops over an
  index (\<open>descend\<close>, \<open>climb\<close>, \<open>collect_members\<close>, the merge passes) carry fuel, the
  number of entries for the first three and the length of the list for the passes, and the lemmas
  \<open>descend_visits\<close>, \<open>climb_ends\<close>, \<open>collect_members_run\<close> and
  \<open>cancellable_sort_sorts\<close> show that it is never used up. Where the code can panic (a slice
  inside a character) the model has the panic as a result of its own (\<open>Journal_Panics\<close>).

  \<^bold>\<open>What the lemmas show.\<close>

  \<^item> Planner: a plan is exactly the selection that the request and the registry determine,
    none of its items is protected, excluded or outside the scope, what is validated is what was
    approved, a validation consumes its approval, a change of versions ends every older plan, a
    validation report accounts for every item. The session machine refines the abstract one
    (\<open>interpretation session: simulation\<close>).
  \<^item> Journal: what an accepted record guarantees for each contract, that reconciling keeps a
    record acceptable and only weakens what it claims, that the handled bytes are an exact sum or
    absent, that validation returns (with the one exception proved beside it).
  \<^item> Execution: the events of every run follow the journal protocol; cut at any event, the
    records already published account for every call begun; the report is true and complete; calls
    are for validated items only, in order, once, and none follows an ambiguous outcome.
  \<^item> Journal store: a power loss at any moment of a publication leaves the last record, the full
    conservative receipt or the full new record; what is reported as published is durable; the
    conservative receipt is acceptable and claims nothing new; a read is bounded, ordered and
    conservative; an open store holds its lock; a file system that serves every call lets a
    publication complete. The disk model assumes of \<open>fsync\<close> that it sends the changes of the
    directory to the drive and of a full sync that it flushes the drive; a change that was not
    flushed may survive or not, independently of the others, and the contents of a file that was
    not synced are arbitrary.
  \<^item> History: a page is a window of the sorted, filtered reading, and the pages of a query
    put together are its matches.
  \<^item> Scan: directory totals count an identity once (against sums over finite sets), a
    directory marked complete has no gap below it, the children are the entries in the promised
    orders, the traversal ends and visits every entry once, only well-formed reports are indexed,
    the cancellable sort is the sort, and a review without blockers means a clean subtree.
  \<^item> Clean policy: every change writes only a valid policy, under the lock, by a rename after
    write and sync; a snapshot accounts for every entry of the record; adding and removing do
    exactly what they name; encoding and decoding are inverse; a clean session calls the platform
    only right after a fresh snapshot equal to the approved one, and the journal accepts the context
    it records.

  \<^item> Rules: every candidate is a scanned file paired with its source, and the log of the preview
    holds a descent through exactly the scanned directories to each of them, unchanged; every
    targeted entry is answered once and the totals are exact; files are read only under the
    read-only policy, which is given back.
  \<^item> Delegated uninstallation: a bundle is handed over only as the one that was previewed and
    after its intent is durable, so that an interruption reads as unknown; up to then the journal
    is only read; the outcome rests on what was seen of the bundle and not on Finder's answer, after
    at most ten waits; every record of a move is acceptable to the journal; what a preview without
    refusals guarantees, and that it does not guarantee that the application is not running.

  \<^bold>\<open>Interfaces.\<close> \<open>invariant_system\<close>, \<open>advancing_system\<close> and \<open>simulation\<close>
  (\<open>Systems\<close>) are interpreted on the steps of the planner; \<open>id_source\<close> (fresh
  identifiers) on the sequential source; \<open>comparator\<close> (what the merge sort needs of an order) on
  the two orders of the index; \<open>observed\<close> and \<open>world_invariant\<close> (what an execution keeps of
  the outside world) on the logged environment; \<open>evidence_monitor\<close> (a monitor that follows an
  inspection) on the descent and on the discipline of the policy; \<open>evidence_provider\<close> (the trait
  \<open>NativeEvidence\<close>) on the evidence of the host.

  \<^bold>\<open>Parameters.\<close> The clock, the identifier source, the probe, the native Trash call, the
  durable publication of a journal record, the file system under the policy store, \<open>serde_json\<close>,
  SHA-256, Unicode's lower-case mapping, the bounded reader of a bundle's manifest, the list of the
  running processes and the \<open>Debug\<close> rendering of values are arguments of the definitions. What a theorem
  assumes of one of them is a hypothesis of that theorem, met by a concrete function in its witness.

  \<^bold>\<open>Bounds.\<close> The limits of the code (numbers of roots and entries, sizes of paths and of the
  policy file, items of a record, entries of a scan) are constants of the model with the values of
  the source. The \<open>cfg\<close> branches are those of macOS; the Windows branches are not modelled.

  \<^bold>\<open>Not modelled.\<close> The native readers and walkers (\<open>scan/walk.rs\<close>, \<open>scan/macos.rs\<close>,
  the platform crates), whose product is the report or the snapshot the model starts from; the
  sessions over live bundles, disk images, processes and external tools
  (\<open>app_*.rs\<close> but for the uninstall preview, \<open>installer_preview.rs\<close>, \<open>purge_preview.rs\<close>, \<open>devtools/\<close>,
  \<open>installation/\<close>), of which the records they leave are covered; status reports; the command
  line and the C bindings, which render and forward.
\<close>

end
